(* ===== verification/Prelude.thy ===== *)
theory Prelude
  imports Main "HOL-Library.Word" "HOL-Library.Monad_Syntax" "HOL-Library.Multiset"
begin

text \<open>
  Shared vocabulary of the development.

  \<^item> The machine integers of the C code as words, \<open>size_t\<close> at 32 bits (the sources only
    compile with NaN boxing, see the comparison of a JSValue with JS_TRUE in io_js_verify.h,
    and quickjs.h turns NaN boxing on exactly when pointers are not 64 bits wide).
  \<^item> C memory accesses. An array is a list; \<^term>\<open>rd\<close> and \<^term>\<open>wr\<close> are the checked load and
    store, and an access outside the array is \<^term>\<open>None\<close>: the C code has undefined behaviour
    there. A computation of type \<open>'a option\<close> is therefore a C computation that may go wrong,
    and a theorem that it is \<^term>\<open>Some\<close> says that every access is in bounds, every loop ends
    and no assertion fails.
  \<^item> \<open>ok m Q\<close>: the computation \<open>m\<close> does not go wrong and its result satisfies \<open>Q\<close> (total
    correctness). The rules of \<open>ok\<close> are in the collection \<open>wp\<close>.
\<close>

type_synonym u8 = "8 word"
type_synonym u16 = "16 word"
type_synonym u32 = "32 word"
type_synonym u64 = "64 word"
type_synonym size_t = "32 word"

named_theorems wp \<open>weakest precondition equations of fallible computations\<close>

declare Option.bind_cong [fundef_cong]

section \<open>Fallible computations\<close>

definition ok :: "'a option \<Rightarrow> ('a \<Rightarrow> bool) \<Rightarrow> bool" where
  "ok m Q = (case m of None \<Rightarrow> False | Some x \<Rightarrow> Q x)"

lemma ok_Some [wp, simp]: "ok (Some x) Q = Q x"
  by (simp add: ok_def)

lemma ok_None [wp, simp]: "ok None Q = False"
  by (simp add: ok_def)

lemma ok_bind [wp, simp]: "ok (m \<bind> f) Q = ok m (\<lambda>x. ok (f x) Q)"
  by (cases m) auto

lemma ok_if [wp]: "ok (if b then m else n) Q = (if b then ok m Q else ok n Q)"
  by simp

lemma ok_prod [wp]: "ok (case p of (x, y) \<Rightarrow> f x y) Q = (case p of (x, y) \<Rightarrow> ok (f x y) Q)"
  by (cases p) simp

lemma ok_conv: "ok m Q \<longleftrightarrow> (\<exists>x. m = Some x \<and> Q x)"
  by (cases m) auto

lemma okI [intro?]: "m = Some x \<Longrightarrow> Q x \<Longrightarrow> ok m Q"
  by simp

lemma okE [elim?]: "ok m Q \<Longrightarrow> (\<And>x. m = Some x \<Longrightarrow> Q x \<Longrightarrow> P) \<Longrightarrow> P"
  by (auto simp: ok_conv)

lemma ok_mono: "ok m Q \<Longrightarrow> (\<And>x. m = Some x \<Longrightarrow> Q x \<Longrightarrow> R x) \<Longrightarrow> ok m R"
  by (auto simp: ok_conv)

lemma ok_conj: "ok m Q \<Longrightarrow> ok m R \<Longrightarrow> ok m (\<lambda>x. Q x \<and> R x)"
  by (auto simp: ok_conv)

lemma ok_the: "ok m Q \<Longrightarrow> Q (the m)"
  by (auto simp: ok_conv)

section \<open>Checked array accesses\<close>

definition rd :: "'a list \<Rightarrow> nat \<Rightarrow> 'a option" where
  "rd xs i = (if i < length xs then Some (xs ! i) else None)"

definition wr :: "'a list \<Rightarrow> nat \<Rightarrow> 'a \<Rightarrow> 'a list option" where
  "wr xs i v = (if i < length xs then Some (xs[i := v]) else None)"

lemma rd_Some [simp]: "i < length xs \<Longrightarrow> rd xs i = Some (xs ! i)"
  by (simp add: rd_def)

lemma rd_None [simp]: "length xs \<le> i \<Longrightarrow> rd xs i = None"
  by (simp add: rd_def)

lemma rd_eq_Some: "rd xs i = Some x \<longleftrightarrow> i < length xs \<and> x = xs ! i"
  by (auto simp: rd_def)

lemma wr_Some [simp]: "i < length xs \<Longrightarrow> wr xs i v = Some (xs[i := v])"
  by (simp add: wr_def)

lemma wr_eq_Some: "wr xs i v = Some ys \<longleftrightarrow> i < length xs \<and> ys = xs[i := v]"
  by (auto simp: wr_def)

lemma ok_rd [wp]: "ok (rd xs i) Q \<longleftrightarrow> i < length xs \<and> Q (xs ! i)"
  by (simp add: rd_def)

lemma ok_wr [wp]: "ok (wr xs i v) Q \<longleftrightarrow> i < length xs \<and> Q (xs[i := v])"
  by (simp add: wr_def)

text \<open>
  A block copy of the C library (\<open>memcpy\<close>, \<open>memmove\<close>): the bytes of \<open>src\<close> are written
  at offset \<open>at\<close>, if they fit.
\<close>

definition blit :: "'a list \<Rightarrow> nat \<Rightarrow> 'a list \<Rightarrow> 'a list option" where
  "blit dst at src =
     (if at + length src \<le> length dst
      then Some (take at dst @ src @ drop (at + length src) dst) else None)"

definition slice :: "'a list \<Rightarrow> nat \<Rightarrow> nat \<Rightarrow> 'a list option" where
  "slice xs at n = (if at + n \<le> length xs then Some (take n (drop at xs)) else None)"

lemma ok_blit [wp]:
  "ok (blit dst at src) Q \<longleftrightarrow>
     at + length src \<le> length dst \<and> Q (take at dst @ src @ drop (at + length src) dst)"
  by (simp add: blit_def)

lemma ok_slice [wp]:
  "ok (slice xs at n) Q \<longleftrightarrow> at + n \<le> length xs \<and> Q (take n (drop at xs))"
  by (simp add: slice_def)

lemma length_blit: "blit dst at src = Some d \<Longrightarrow> length d = length dst"
  by (auto simp: blit_def split: if_splits)

section \<open>Zero-terminated strings\<close>

text \<open>
  \<open>cstr bs\<close> is the C string stored at the start of the buffer \<open>bs\<close>: the bytes before the
  first zero, \<^term>\<open>None\<close> when the buffer holds no terminator.
\<close>

fun cstr :: "u8 list \<Rightarrow> u8 list option" where
  "cstr [] = None"
| "cstr (c # cs) = (if c = 0 then Some [] else map_option (Cons c) (cstr cs))"

lemma cstr_append [simp]: "0 \<notin> set s \<Longrightarrow> cstr (s @ 0 # rest) = Some s"
  by (induction s) auto

lemma cstr_SomeD: "cstr bs = Some s \<Longrightarrow> 0 \<notin> set s \<and> (\<exists>rest. bs = s @ 0 # rest)"
  by (induction bs arbitrary: s) (auto split: if_splits)

lemma cstr_eq_Some: "cstr bs = Some s \<longleftrightarrow> 0 \<notin> set s \<and> (\<exists>rest. bs = s @ 0 # rest)"
  using cstr_SomeD by auto

section \<open>List segments\<close>

lemma nth_list_update_if: "i < length xs \<Longrightarrow> xs[i := v] ! j = (if i = j then v else xs ! j)"
  by (auto simp: nth_list_update)

lemma mset_swap_list [simp]:
  "i < length xs \<Longrightarrow> j < length xs \<Longrightarrow> mset (xs[i := xs ! j, j := xs ! i]) = mset xs"
  by (simp add: mset_swap)

section \<open>Bit operations as arithmetic\<close>

unbundle bit_operations_syntax

lemma nat_or_disjoint: "b < 2 ^ k \<Longrightarrow> (a * 2 ^ k) OR b = a * 2 ^ k + (b :: nat)"
proof -
  assume "b < 2 ^ k"
  then have "take_bit k b = b" by (simp add: take_bit_nat_eq_self_iff)
  then have b: "n < k" if "bit b n" for n using that by (metis bit_take_bit_iff)
  have "push_bit k a AND b = 0"
    by (rule bit_eqI) (auto simp: bit_and_iff bit_push_bit_iff dest: b)
  then show ?thesis by (simp add: disjunctive_add_eq_or push_bit_eq_mult)
qed

lemma nat_and_mask: "(a :: nat) AND (2 ^ k - 1) = a mod 2 ^ k"
  by (metis mask_eq_exp_minus_1 take_bit_eq_mask take_bit_eq_mod)

lemma mod_window: "k * m \<le> x \<Longrightarrow> x < k * m + m \<Longrightarrow> x mod m = x - k * (m :: nat)"
proof -
  assume *: "k * m \<le> x" "x < k * m + m"
  then obtain r where x: "x = r + k * m" by (metis add.commute le_Suc_ex)
  then have "r < m" using * by simp
  then show ?thesis unfolding x mod_mult_self1 by simp
qed

lemma unat_ucast_u8: "unat (ucast (w :: u32) :: u8) = unat w mod 256"
  by (simp add: unsigned_ucast_eq take_bit_eq_mod)

lemma unat_ucast_u32: "unat (ucast (b :: u8) :: u32) = unat b"
  by (simp add: unsigned_ucast_eq take_bit_eq_mod order_less_le_trans [OF unsigned_less])

lemma unat_drop_bit: "unat (drop_bit k (w :: 'a::len word)) = unat w div 2 ^ k"
  by (simp only: unat_drop_bit_eq drop_bit_eq_div [where 'a = nat])

lemma unat_and: "unat (a AND b) = unat a AND unat (b :: 'a::len word)"
  and unat_or: "unat (a OR b) = unat a OR unat (b :: 'a::len word)"
  by (rule unsigned_and_eq unsigned_or_eq)+

end
