(* ===== verification/Klist.thy ===== *)
theory Klist
  imports Prelude
begin

text \<open>
  The intrusive doubly linked list of src/quickjs/list.h. A node is a \<^term>\<open>list_head\<close> record
  stored in a heap; a pointer is an optional address and NULL is \<^term>\<open>None\<close>. Following NULL or
  an address that holds no node is an error (\<^term>\<open>None\<close>). The predicate \<open>ring h head xs\<close> says
  that the nodes \<open>xs\<close> hang off \<open>head\<close> in this order, in both directions.
\<close>

type_synonym addr = nat
type_synonym ptr = "addr option"

record list_head =
  lprev :: ptr
  lnext :: ptr

type_synonym lheap = "addr \<rightharpoonup> list_head"

definition ld :: "lheap \<Rightarrow> ptr \<Rightarrow> list_head option" where
  "ld h p = (case p of None \<Rightarrow> None | Some a \<Rightarrow> h a)"

definition set_next :: "lheap \<Rightarrow> ptr \<Rightarrow> ptr \<Rightarrow> lheap option" where
  "set_next h p v = do { n \<leftarrow> ld h p; Some (h(the p \<mapsto> n\<lparr>lnext := v\<rparr>)) }"

definition set_prev :: "lheap \<Rightarrow> ptr \<Rightarrow> ptr \<Rightarrow> lheap option" where
  "set_prev h p v = do { n \<leftarrow> ld h p; Some (h(the p \<mapsto> n\<lparr>lprev := v\<rparr>)) }"

definition init_list_head :: "lheap \<Rightarrow> ptr \<Rightarrow> lheap option" where
  "init_list_head h head = do { h \<leftarrow> set_prev h head head; set_next h head head }"

definition list_add_between :: "lheap \<Rightarrow> ptr \<Rightarrow> ptr \<Rightarrow> ptr \<Rightarrow> lheap option" where
  "list_add_between h el pv nx = do {
     h \<leftarrow> set_next h pv el;
     h \<leftarrow> set_prev h el pv;
     h \<leftarrow> set_next h el nx;
     set_prev h nx el }"

definition list_add :: "lheap \<Rightarrow> ptr \<Rightarrow> ptr \<Rightarrow> lheap option" where
  "list_add h el head = do { n \<leftarrow> ld h head; list_add_between h el head (lnext n) }"

definition list_add_tail :: "lheap \<Rightarrow> ptr \<Rightarrow> ptr \<Rightarrow> lheap option" where
  "list_add_tail h el head = do { n \<leftarrow> ld h head; list_add_between h el (lprev n) head }"

definition list_del :: "lheap \<Rightarrow> ptr \<Rightarrow> lheap option" where
  "list_del h el = do {
     n \<leftarrow> ld h el;
     let pv = lprev n;
     let nx = lnext n;
     h \<leftarrow> set_next h pv nx;
     h \<leftarrow> set_prev h nx pv;
     h \<leftarrow> set_prev h el None;
     set_next h el None }"

definition list_empty :: "lheap \<Rightarrow> ptr \<Rightarrow> bool option" where
  "list_empty h el = do { n \<leftarrow> ld h el; Some (lnext n = el) }"

text \<open>
  The iteration macros: \<open>list_for_each\<close> and \<open>list_for_each_prev\<close> run a body on a state for
  every element, the \<open>_safe\<close> variants read the successor before the body runs. The loops may
  not end on a damaged list, so they are partial functions.
\<close>

partial_function (option) for_each_loop ::
  "(list_head \<Rightarrow> ptr) \<Rightarrow> lheap \<Rightarrow> (addr \<Rightarrow> 's \<Rightarrow> 's) \<Rightarrow> ptr \<Rightarrow> ptr \<Rightarrow> 's \<Rightarrow> 's option" where
  "for_each_loop dir h body el head s =
     (if el = head then Some s
      else do { n \<leftarrow> ld h el; for_each_loop dir h body (dir n) head (body (the el) s) })"

definition list_for_each :: "lheap \<Rightarrow> (addr \<Rightarrow> 's \<Rightarrow> 's) \<Rightarrow> ptr \<Rightarrow> 's \<Rightarrow> 's option" where
  "list_for_each h body head s = do { n \<leftarrow> ld h head; for_each_loop lnext h body (lnext n) head s }"

definition list_for_each_prev :: "lheap \<Rightarrow> (addr \<Rightarrow> 's \<Rightarrow> 's) \<Rightarrow> ptr \<Rightarrow> 's \<Rightarrow> 's option" where
  "list_for_each_prev h body head s =
     do { n \<leftarrow> ld h head; for_each_loop lprev h body (lprev n) head s }"

text \<open>
  \<open>list_for_each_safe\<close> with a body that changes the heap: the successor is read before the
  body runs, so the body may unlink the current element.
\<close>

partial_function (option) for_each_safe_loop ::
  "(list_head \<Rightarrow> ptr) \<Rightarrow> (addr \<Rightarrow> lheap \<times> 's \<Rightarrow> (lheap \<times> 's) option) \<Rightarrow>
   ptr \<Rightarrow> ptr \<Rightarrow> ptr \<Rightarrow> lheap \<times> 's \<Rightarrow> (lheap \<times> 's) option" where
  "for_each_safe_loop dir body el el1 head hs =
     (if el = head then Some hs
      else do {
        hs \<leftarrow> body (the el) hs;
        n \<leftarrow> ld (fst hs) el1;
        for_each_safe_loop dir body el1 (dir n) head hs })"

definition list_for_each_safe ::
  "(addr \<Rightarrow> lheap \<times> 's \<Rightarrow> (lheap \<times> 's) option) \<Rightarrow> ptr \<Rightarrow> lheap \<times> 's \<Rightarrow> (lheap \<times> 's) option" where
  "list_for_each_safe body head hs = do {
     n \<leftarrow> ld (fst hs) head;
     n1 \<leftarrow> ld (fst hs) (lnext n);
     for_each_safe_loop lnext body (lnext n) (lnext n1) head hs }"

definition list_for_each_prev_safe ::
  "(addr \<Rightarrow> lheap \<times> 's \<Rightarrow> (lheap \<times> 's) option) \<Rightarrow> ptr \<Rightarrow> lheap \<times> 's \<Rightarrow> (lheap \<times> 's) option" where
  "list_for_each_prev_safe body head hs = do {
     n \<leftarrow> ld (fst hs) head;
     n1 \<leftarrow> ld (fst hs) (lprev n);
     for_each_safe_loop lprev body (lprev n) (lprev n1) head hs }"

section \<open>The list a head node represents\<close>

text \<open>The successor and the predecessor of a node, and two nodes that point at each other.\<close>

definition nxt :: "lheap \<Rightarrow> addr \<Rightarrow> ptr" where
  "nxt h a = (case h a of None \<Rightarrow> None | Some n \<Rightarrow> lnext n)"

definition prv :: "lheap \<Rightarrow> addr \<Rightarrow> ptr" where
  "prv h a = (case h a of None \<Rightarrow> None | Some n \<Rightarrow> lprev n)"

definition linked :: "lheap \<Rightarrow> addr \<Rightarrow> addr \<Rightarrow> bool" where
  "linked h a b \<longleftrightarrow> a \<in> dom h \<and> b \<in> dom h \<and> nxt h a = Some b \<and> prv h b = Some a"

definition ring :: "lheap \<Rightarrow> addr \<Rightarrow> addr list \<Rightarrow> bool" where
  "ring h head xs \<longleftrightarrow> distinct (head # xs) \<and> list_all2 (linked h) (head # xs) (xs @ [head])"

lemma ld_dom: "a \<in> dom h \<Longrightarrow> ok (ld h (Some a)) (\<lambda>n. lnext n = nxt h a \<and> lprev n = prv h a)"
  by (auto simp: ld_def nxt_def prv_def)

text \<open>What one store does, as seen through \<open>nxt\<close> and \<open>prv\<close>.\<close>

definition relinked ::
  "lheap \<Rightarrow> lheap \<Rightarrow> (addr \<Rightarrow> ptr) \<Rightarrow> (addr \<Rightarrow> ptr) \<Rightarrow> addr set \<Rightarrow> bool" where
  "relinked h h' nx pv A \<longleftrightarrow>
     dom h' = dom h \<and> nxt h' = nx \<and> prv h' = pv \<and> (\<forall>b. b \<notin> A \<longrightarrow> h' b = h b)"

lemma set_next_ok:
  "a \<in> dom h \<Longrightarrow> ok (set_next h (Some a) v) (\<lambda>h'. relinked h h' ((nxt h)(a := v)) (prv h) {a})"
  by (auto simp: set_next_def ld_def nxt_def prv_def relinked_def fun_eq_iff dom_def)

lemma set_prev_ok:
  "a \<in> dom h \<Longrightarrow> ok (set_prev h (Some a) v) (\<lambda>h'. relinked h h' (nxt h) ((prv h)(a := v)) {a})"
  by (auto simp: set_prev_def ld_def nxt_def prv_def relinked_def fun_eq_iff dom_def)

lemma relinked_dom: "relinked h h' nx pv A \<Longrightarrow> dom h' = dom h"
  by (simp add: relinked_def)

lemma list_add_between_ok:
  assumes "el \<in> dom h" "p \<in> dom h" "q \<in> dom h"
  shows "ok (list_add_between h (Some el) (Some p) (Some q))
     (\<lambda>h'. relinked h h' ((nxt h)(p := Some el, el := Some q))
                        ((prv h)(el := Some p, q := Some el)) {el, p, q})"
proof -
  obtain h1 where 1: "set_next h (Some p) (Some el) = Some h1"
    "relinked h h1 ((nxt h)(p := Some el)) (prv h) {p}"
    using set_next_ok [OF assms(2)] by (rule okE)
  obtain h2 where 2: "set_prev h1 (Some el) (Some p) = Some h2"
    "relinked h1 h2 (nxt h1) ((prv h1)(el := Some p)) {el}"
    using set_prev_ok [of el h1] assms(1) relinked_dom [OF 1(2)] by (metis okE)
  obtain h3 where 3: "set_next h2 (Some el) (Some q) = Some h3"
    "relinked h2 h3 ((nxt h2)(el := Some q)) (prv h2) {el}"
    using set_next_ok [of el h2] assms(1) relinked_dom [OF 1(2)] relinked_dom [OF 2(2)]
    by (metis okE)
  obtain h4 where 4: "set_prev h3 (Some q) (Some el) = Some h4"
    "relinked h3 h4 (nxt h3) ((prv h3)(q := Some el)) {q}"
    using set_prev_ok [of q h3] assms(3) relinked_dom [OF 1(2)] relinked_dom [OF 2(2)]
      relinked_dom [OF 3(2)] by (metis okE)
  have "list_add_between h (Some el) (Some p) (Some q) = Some h4"
    by (simp add: list_add_between_def 1(1) 2(1) 3(1) 4(1))
  moreover have "relinked h h4 ((nxt h)(p := Some el, el := Some q))
                               ((prv h)(el := Some p, q := Some el)) {el, p, q}"
    using 1(2) 2(2) 3(2) 4(2) by (auto simp: relinked_def)
  ultimately show ?thesis by simp
qed

lemma list_del_links_ok:
  assumes "el \<in> dom h" "nxt h el = Some q" "prv h el = Some p" "p \<in> dom h" "q \<in> dom h"
  shows "ok (list_del h (Some el))
     (\<lambda>h'. relinked h h' ((nxt h)(p := Some q, el := None)) ((prv h)(q := Some p, el := None))
              {el, p, q})"
proof -
  obtain n where n: "ld h (Some el) = Some n" "lnext n = Some q" "lprev n = Some p"
    using assms by (auto simp: ld_def nxt_def prv_def)
  obtain h1 where 1: "set_next h (Some p) (Some q) = Some h1"
    "relinked h h1 ((nxt h)(p := Some q)) (prv h) {p}"
    using set_next_ok [OF assms(4)] by (rule okE)
  obtain h2 where 2: "set_prev h1 (Some q) (Some p) = Some h2"
    "relinked h1 h2 (nxt h1) ((prv h1)(q := Some p)) {q}"
    using set_prev_ok [of q h1] assms(5) relinked_dom [OF 1(2)] by (metis okE)
  obtain h3 where 3: "set_prev h2 (Some el) None = Some h3"
    "relinked h2 h3 (nxt h2) ((prv h2)(el := None)) {el}"
    using set_prev_ok [of el h2] assms(1) relinked_dom [OF 1(2)] relinked_dom [OF 2(2)]
    by (metis okE)
  obtain h4 where 4: "set_next h3 (Some el) None = Some h4"
    "relinked h3 h4 ((nxt h3)(el := None)) (prv h3) {el}"
    using set_next_ok [of el h3] assms(1) relinked_dom [OF 1(2)] relinked_dom [OF 2(2)]
      relinked_dom [OF 3(2)] by (metis okE)
  have "list_del h (Some el) = Some h4"
    by (simp add: list_del_def Let_def n 1(1) 2(1) 3(1) 4(1))
  moreover have "relinked h h4 ((nxt h)(p := Some q, el := None))
                               ((prv h)(q := Some p, el := None)) {el, p, q}"
    using 1(2) 2(2) 3(2) 4(2) by (auto simp: relinked_def)
  ultimately show ?thesis by simp
qed

section \<open>The operations on rings\<close>

lemma list_all2_linked_mono:
  assumes "list_all2 (linked h) xs ys"
    and "relinked h h' nx pv A"
    and "\<And>x. x \<in> set xs \<Longrightarrow> nx x = nxt h x" and "\<And>y. y \<in> set ys \<Longrightarrow> pv y = prv h y"
  shows "list_all2 (linked h') xs ys"
proof (rule list.rel_mono_strong [OF assms(1)])
  show "linked h' x y" if "x \<in> set xs" "y \<in> set ys" "linked h x y" for x y
    using that assms(2-4) by (auto simp: linked_def relinked_def)
qed

lemma ring_insert:
  assumes r: "ring h head xs" and S: "head # xs = as @ a # bs" and T: "xs @ [head] = ts @ b # us"
    and len: "length as = length ts" and el: "el \<in> dom h" "el \<notin> set (head # xs)"
    and S': "head # xs' = as @ a # el # bs" and T': "xs' @ [head] = ts @ el # b # us"
    and up: "relinked h h' ((nxt h)(a := Some el, el := Some b)) ((prv h)(el := Some a, b := Some el)) A"
  shows "ring h' head xs'"
proof -
  have dS: "distinct (as @ a # bs)" using r S by (metis ring_def)
  have dT: "distinct (ts @ b # us)" using r T by (metis ring_def distinct1_rotate rotate1.simps(2))
  have elS: "el \<notin> set (as @ a # bs)" using el(2) S by simp
  have elT: "el \<notin> set (ts @ b # us)" using el(2) T by (metis set_rotate1 rotate1.simps(2))
  have "list_all2 (linked h) (as @ a # bs) (ts @ b # us)" using r S T by (metis ring_def)
  then have l: "list_all2 (linked h) as ts" "linked h a b" "list_all2 (linked h) bs us"
    using len by (auto simp: list_all2_append)
  have "list_all2 (linked h') as ts" "list_all2 (linked h') bs us"
    using dS dT elS elT by (auto intro!: list_all2_linked_mono [OF l(1) up] list_all2_linked_mono [OF l(3) up])
  moreover have "linked h' a el" "linked h' el b"
    using up l(2) el(1) elS elT by (auto simp: linked_def relinked_def)
  ultimately have "list_all2 (linked h') (head # xs') (xs' @ [head])"
    unfolding S' T' using len by (simp add: list_all2_append)
  moreover have "distinct (head # xs')" unfolding S' using dS elS by auto
  ultimately show ?thesis by (simp add: ring_def)
qed

lemma ring_delete:
  assumes r: "ring h head (xs @ el # ys)" and a: "head # xs = as @ [a]" and b: "ys @ [head] = b # us"
    and up: "relinked h h' ((nxt h)(a := Some b, el := None)) ((prv h)(b := Some a, el := None)) A"
  shows "ring h' head (xs @ ys)"
proof -
  have S: "head # xs @ el # ys = as @ a # el # ys" and S': "head # xs @ ys = as @ a # ys"
    using a by (metis append.assoc append_Cons append_Nil)+
  have T: "(xs @ el # ys) @ [head] = xs @ el # b # us" and T': "(xs @ ys) @ [head] = xs @ b # us"
    using b by simp_all
  have len: "length as = length xs" using arg_cong [OF a, of length] by simp
  have dS: "distinct (as @ a # el # ys)" using r S by (metis ring_def)
  have dT: "distinct (xs @ el # b # us)"
    using r T by (metis ring_def distinct1_rotate rotate1.simps(2))
  have "list_all2 (linked h) (as @ a # el # ys) (xs @ el # b # us)" using r S T by (metis ring_def)
  then have l: "list_all2 (linked h) as xs" "linked h a el" "linked h el b" "list_all2 (linked h) ys us"
    using len by (auto simp: list_all2_append)
  have "list_all2 (linked h') as xs" "list_all2 (linked h') ys us"
    using dS dT by (auto intro!: list_all2_linked_mono [OF l(1) up] list_all2_linked_mono [OF l(4) up])
  moreover have "linked h' a b"
    using up l(2,3) dS dT by (auto simp: linked_def relinked_def)
  ultimately have "list_all2 (linked h') (head # xs @ ys) ((xs @ ys) @ [head])"
    unfolding S' T' using len by (simp add: list_all2_append)
  moreover have "distinct (head # xs @ ys)" using r by (auto simp: ring_def)
  ultimately show ?thesis by (simp add: ring_def)
qed

lemma ring_nodes:
  assumes "ring h head xs"
  shows "head \<in> dom h" and "set xs \<subseteq> dom h" and "nxt h head = Some (hd (xs @ [head]))"
    and "prv h head = Some (last (head # xs))" and "distinct (head # xs)"
proof -
  have l: "list_all2 (linked h) (head # xs) (xs @ [head])" and d: "distinct (head # xs)"
    using assms by (auto simp: ring_def)
  have i: "linked h ((head # xs) ! i) ((xs @ [head]) ! i)" if "i \<le> length xs" for i
    using l that by (auto simp: list_all2_conv_all_nth)
  show "head \<in> dom h" "nxt h head = Some (hd (xs @ [head]))"
    using i [of 0] by (auto simp: linked_def hd_conv_nth)
  show "prv h head = Some (last (head # xs))"
    using i [of "length xs"] by (auto simp: linked_def last_conv_nth nth_append)
  show "set xs \<subseteq> dom h"
  proof
    fix x assume "x \<in> set xs"
    then obtain j where "j < length xs" "x = xs ! j" by (auto simp: in_set_conv_nth)
    then show "x \<in> dom h" using i [of j] by (simp add: linked_def nth_append)
  qed
  show "distinct (head # xs)" by (rule d)
qed

text \<open>
  What an operation on a ring leaves alone: every node outside the set \<open>A\<close> of nodes it may
  touch, and hence every other ring that avoids \<open>A\<close>.
\<close>

definition same_outside :: "addr set \<Rightarrow> lheap \<Rightarrow> lheap \<Rightarrow> bool" where
  "same_outside A h h' \<longleftrightarrow> dom h' = dom h \<and> (\<forall>b. b \<notin> A \<longrightarrow> h' b = h b)"

lemma ring_frame:
  assumes "ring h head ys" and "same_outside A h h'" and "A \<inter> set (head # ys) = {}"
  shows "ring h' head ys"
proof -
  have "linked h' x y" if "linked h x y" "x \<in> set (head # ys)" "y \<in> set (head # ys)" for x y
  proof -
    have "h' x = h x" "h' y = h y"
      using assms(2,3) that(2,3) by (auto simp: same_outside_def)
    then show ?thesis
      using that(1) assms(2) by (auto simp: linked_def nxt_def prv_def same_outside_def)
  qed
  moreover have "list_all2 (linked h) (head # ys) (ys @ [head])"
    using assms(1) by (simp add: ring_def)
  ultimately have "list_all2 (linked h') (head # ys) (ys @ [head])"
    by (elim list.rel_mono_strong) auto
  then show ?thesis using assms(1) by (simp add: ring_def)
qed

lemma init_list_head_ok:
  assumes a: "a \<in> dom h"
  shows "ok (init_list_head h (Some a)) (\<lambda>h'. ring h' a [] \<and> same_outside {a} h h')"
proof -
  obtain h1 where 1: "set_prev h (Some a) (Some a) = Some h1"
    "relinked h h1 (nxt h) ((prv h)(a := Some a)) {a}"
    using set_prev_ok [OF a] by (rule okE)
  obtain h2 where 2: "set_next h1 (Some a) (Some a) = Some h2"
    "relinked h1 h2 ((nxt h1)(a := Some a)) (prv h1) {a}"
    using set_next_ok [of a h1] a relinked_dom [OF 1(2)] by (metis okE)
  have "linked h2 a a" using 1(2) 2(2) a by (simp add: linked_def relinked_def)
  moreover have "same_outside {a} h h2" using 1(2) 2(2) by (simp add: relinked_def same_outside_def)
  ultimately show ?thesis by (simp add: init_list_head_def 1(1) 2(1) ring_def)
qed

lemma list_add_ok:
  assumes r: "ring h head xs" and el: "el \<in> dom h" "el \<notin> set (head # xs)"
  shows "ok (list_add h (Some el) (Some head))
     (\<lambda>h'. ring h' head (el # xs) \<and> same_outside (set (el # head # xs)) h h')"
proof -
  let ?b = "hd (xs @ [head])"
  have b: "?b \<in> dom h" "?b \<in> set (head # xs)" using ring_nodes [OF r] by (cases xs; auto)+
  obtain n where n: "ld h (Some head) = Some n" "lnext n = Some ?b"
    using ld_dom [OF ring_nodes(1) [OF r]] ring_nodes(3) [OF r] by (auto simp: ok_conv)
  obtain h' where h': "list_add_between h (Some el) (Some head) (Some ?b) = Some h'"
    and up: "relinked h h' ((nxt h)(head := Some el, el := Some ?b))
               ((prv h)(el := Some head, ?b := Some el)) {el, head, ?b}"
    using list_add_between_ok [OF el(1) ring_nodes(1) [OF r] b(1)] by (rule okE)
  have "ring h' head (el # xs)"
    by (rule ring_insert [OF r _ _ _ el _ _ up, where as = "[]" and ts = "[]" and bs = xs
          and us = "tl (xs @ [head])"]) (cases xs; simp)+
  moreover have "same_outside (set (el # head # xs)) h h'"
    using up b(2) by (auto simp: relinked_def same_outside_def)
  ultimately show ?thesis by (simp add: list_add_def n h')
qed

lemma list_add_tail_ok:
  assumes r: "ring h head xs" and el: "el \<in> dom h" "el \<notin> set (head # xs)"
  shows "ok (list_add_tail h (Some el) (Some head))
     (\<lambda>h'. ring h' head (xs @ [el]) \<and> same_outside (set (el # head # xs)) h h')"
proof -
  let ?a = "last (head # xs)"
  have a: "?a \<in> dom h" "?a \<in> set (head # xs)"
    using ring_nodes(1,2) [OF r] last_in_set [of "head # xs"] by auto
  obtain n where n: "ld h (Some head) = Some n" "lprev n = Some ?a"
    using ld_dom [OF ring_nodes(1) [OF r]] ring_nodes(4) [OF r] by (auto simp: ok_conv)
  obtain h' where h': "list_add_between h (Some el) (Some ?a) (Some head) = Some h'"
    and up: "relinked h h' ((nxt h)(?a := Some el, el := Some head))
               ((prv h)(el := Some ?a, head := Some el)) {el, ?a, head}"
    using list_add_between_ok [OF el(1) a(1) ring_nodes(1) [OF r]] by (rule okE)
  have "head # xs = butlast (head # xs) @ [?a]" by (rule append_butlast_last_id [symmetric]) simp
  then have "ring h' head (xs @ [el])"
    by (intro ring_insert [OF r _ _ _ el _ _ up, where as = "butlast (head # xs)" and ts = xs
          and bs = "[]" and us = "[]"]) (simp_all del: last.simps butlast.simps add: append_assoc [symmetric] del: append_assoc)
  moreover have "same_outside (set (el # head # xs)) h h'"
    using up a(2) by (auto simp: relinked_def same_outside_def)
  ultimately show ?thesis by (simp add: list_add_tail_def n h' del: last.simps)
qed

lemma list_del_ok:
  assumes r: "ring h head (xs @ el # ys)"
  shows "ok (list_del h (Some el))
     (\<lambda>h'. ring h' head (xs @ ys) \<and> nxt h' el = None \<and> prv h' el = None
         \<and> same_outside (set (head # xs @ el # ys)) h h')"
proof -
  let ?a = "last (head # xs)" and ?b = "hd (ys @ [head])"
  have l: "list_all2 (linked h) (head # xs @ el # ys) ((xs @ el # ys) @ [head])"
    using r by (simp add: ring_def)
  have "linked h ?a el" "linked h el ?b"
    using list_all2_nthD [OF l, of "length xs"] list_all2_nthD [OF l, of "Suc (length xs)"]
    by (auto simp: nth_append last_conv_nth hd_conv_nth nth_Cons' split: if_splits)
  then have e: "el \<in> dom h" "nxt h el = Some ?b" "prv h el = Some ?a" "?a \<in> dom h" "?b \<in> dom h"
    by (auto simp: linked_def)
  obtain h' where h': "list_del h (Some el) = Some h'"
    and up: "relinked h h' ((nxt h)(?a := Some ?b, el := None)) ((prv h)(?b := Some ?a, el := None))
               {el, ?a, ?b}"
    using list_del_links_ok [OF e] by (rule okE)
  have "ring h' head (xs @ ys)"
    by (rule ring_delete [OF r _ _ up, where as = "butlast (head # xs)" and us = "tl (ys @ [head])"])
      (auto simp del: last.simps butlast.simps)
  moreover have "nxt h' el = None" "prv h' el = None" using up by (auto simp: relinked_def)
  moreover have "?a \<in> set (head # xs)" "?b \<in> set (ys @ [head])"
    by (rule last_in_set hd_in_set, simp)+
  then have "same_outside (set (head # xs @ el # ys)) h h'"
    using up by (auto simp: relinked_def same_outside_def)
  ultimately show ?thesis by (simp add: h')
qed

lemma list_empty_ok: "ring h head xs \<Longrightarrow> list_empty h (Some head) = Some (xs = [])"
proof -
  assume r: "ring h head xs"
  obtain n where "ld h (Some head) = Some n" "lnext n = Some (hd (xs @ [head]))"
    using ld_dom [OF ring_nodes(1) [OF r]] ring_nodes(3) [OF r] by (auto simp: ok_conv)
  then show ?thesis
    using ring_nodes(5) [OF r] by (cases xs) (auto simp: list_empty_def)
qed

section \<open>Iteration\<close>

lemma ring_step:
  assumes "ring h head (xs @ x # ys)"
  shows "ok (ld h (Some x)) (\<lambda>n. lnext n = Some (hd (ys @ [head])) \<and> lprev n = Some (last (head # xs)))"
proof -
  have l: "list_all2 (linked h) (head # xs @ x # ys) ((xs @ x # ys) @ [head])"
    using assms by (simp add: ring_def)
  have "linked h (last (head # xs)) x" "linked h x (hd (ys @ [head]))"
    using list_all2_nthD [OF l, of "length xs"] list_all2_nthD [OF l, of "Suc (length xs)"]
    by (auto simp: nth_append last_conv_nth hd_conv_nth nth_Cons' split: if_splits)
  then show ?thesis using ld_dom [of x h] by (auto simp: linked_def ok_conv)
qed

lemma ring_head_step:
  "ring h head xs \<Longrightarrow>
     ok (ld h (Some head)) (\<lambda>n. lnext n = Some (hd (xs @ [head])) \<and> lprev n = Some (last (head # xs)))"
  using ld_dom [of head h] ring_nodes [of h head xs] by (auto simp: ok_conv)

lemma for_each_loop_next:
  "ring h head (as @ bs) \<Longrightarrow>
     for_each_loop lnext h body (Some (hd (bs @ [head]))) (Some head) s = Some (fold body bs s)"
proof (induction bs arbitrary: as s)
  case Nil
  then show ?case by (simp add: for_each_loop.simps)
next
  case (Cons b bs)
  have "b \<noteq> head" using ring_nodes(5) [OF Cons.prems] by auto
  moreover obtain n where "ld h (Some b) = Some n" "lnext n = Some (hd (bs @ [head]))"
    using ring_step [OF Cons.prems] by (auto simp: ok_conv)
  moreover have "ring h head ((as @ [b]) @ bs)" using Cons.prems by simp
  ultimately show ?case by (subst for_each_loop.simps) (simp add: Cons.IH [of "as @ [b]"])
qed

lemma for_each_loop_prev:
  "ring h head (as @ bs) \<Longrightarrow>
     for_each_loop lprev h body (Some (last (head # as))) (Some head) s = Some (fold body (rev as) s)"
proof (induction as arbitrary: bs s rule: rev_induct)
  case Nil
  then show ?case by (simp add: for_each_loop.simps)
next
  case (snoc a as)
  have r: "ring h head (as @ a # bs)" using snoc.prems by simp
  have "a \<noteq> head" using ring_nodes(5) [OF r] by auto
  moreover obtain n where "ld h (Some a) = Some n" "lprev n = Some (last (head # as))"
    using ring_step [OF r] by (auto simp: ok_conv)
  ultimately show ?case using snoc.IH [OF r]
    by (subst for_each_loop.simps) (simp del: last.simps add: last_snoc [of "head # as", simplified])
qed

lemma list_for_each_ok: "ring h head xs \<Longrightarrow> list_for_each h body (Some head) s = Some (fold body xs s)"
  using ring_head_step [of h head xs] for_each_loop_next [of h head "[]" xs body s]
  by (auto simp: list_for_each_def ok_conv)

lemma list_for_each_prev_ok:
  "ring h head xs \<Longrightarrow> list_for_each_prev h body (Some head) s = Some (fold body (rev xs) s)"
  using ring_head_step [of h head xs] for_each_loop_prev [of h head xs "[]" body s]
  by (auto simp: list_for_each_prev_def ok_conv simp del: last.simps)

text \<open>
  A body that unlinks the element it is called on, as the clean-up loops of the engine do.
\<close>

definition del_body :: "(addr \<Rightarrow> 's \<Rightarrow> 's) \<Rightarrow> addr \<Rightarrow> lheap \<times> 's \<Rightarrow> (lheap \<times> 's) option" where
  "del_body f el hs = do { h \<leftarrow> list_del (fst hs) (Some el); Some (h, f el (snd hs)) }"

lemma del_body_pair: "del_body f el (h, s) = do { h \<leftarrow> list_del h (Some el); Some (h, f el s) }"
  by (simp add: del_body_def)

lemma for_each_safe_del:
  "ring h head bs \<Longrightarrow>
     ok (for_each_safe_loop lnext (del_body f) (Some (hd (bs @ [head])))
           (Some (hd (tl bs @ [head]))) (Some head) (h, s))
        (\<lambda>(h', s'). ring h' head [] \<and> s' = fold f bs s \<and> same_outside (set (head # bs)) h h')"
proof (induction bs arbitrary: h s)
  case Nil
  then show ?case by (simp add: for_each_safe_loop.simps same_outside_def)
next
  case (Cons b bs)
  have b: "b \<noteq> head" using ring_nodes(5) [OF Cons.prems] by auto
  obtain h1 where h1: "list_del h (Some b) = Some h1" "ring h1 head bs"
    "same_outside (set (head # b # bs)) h h1"
    using list_del_ok [of h head "[]" b bs] Cons.prems by (auto simp: ok_conv)
  have "ok (ld h1 (Some (hd (bs @ [head])))) (\<lambda>n. bs \<noteq> [] \<longrightarrow> lnext n = Some (hd (tl bs @ [head])))"
  proof (cases bs)
    case Nil
    then show ?thesis using ring_head_step [OF h1(2)] by (auto simp: ok_conv)
  next
    case (Cons c cs)
    then show ?thesis using ring_step [of h1 head "[]" c cs] h1(2) by (auto simp: ok_conv)
  qed
  then obtain n where n: "ld h1 (Some (hd (bs @ [head]))) = Some n"
    "bs \<noteq> [] \<longrightarrow> lnext n = Some (hd (tl bs @ [head]))" by (rule okE)
  have "for_each_safe_loop lnext (del_body f) (Some (hd (bs @ [head]))) (lnext n) (Some head) (h1, s1)
      = for_each_safe_loop lnext (del_body f) (Some (hd (bs @ [head])))
           (Some (hd (tl bs @ [head]))) (Some head) (h1, s1)" for s1
    using n(2) by (cases bs) (auto simp: for_each_safe_loop.simps)
  then show ?case
    using b h1(1,3) n(1) Cons.IH [OF h1(2), of "f b s"]
    by (subst for_each_safe_loop.simps) (auto simp: del_body_pair ok_conv same_outside_def)
qed

lemma list_for_each_safe_del:
  assumes "ring h head xs"
  shows "ok (list_for_each_safe (del_body f) (Some head) (h, s))
     (\<lambda>(h', s'). ring h' head [] \<and> s' = fold f xs s \<and> same_outside (set (head # xs)) h h')"
proof -
  obtain n where n: "ld h (Some head) = Some n" "lnext n = Some (hd (xs @ [head]))"
    using ring_head_step [OF assms] by (auto simp: ok_conv)
  show ?thesis
  proof (cases xs)
    case Nil
    with n assms show ?thesis
      by (auto simp: list_for_each_safe_def for_each_safe_loop.simps same_outside_def)
  next
    case (Cons x ys)
    obtain m where "ld h (Some x) = Some m" "lnext m = Some (hd (ys @ [head]))"
      using ring_step [of h head "[]" x ys] assms Cons by (auto simp: ok_conv)
    with n Cons for_each_safe_del [OF assms, of f s] show ?thesis
      by (simp add: list_for_each_safe_def)
  qed
qed

section \<open>The queue interface of the list\<close>

text \<open>
  How the engine uses a list as a queue: link at the tail, look at the first element, unlink it.
  The locale states what these operations promise; the two combinators below are what a client
  does with them (link several elements, take elements off until none is left).
\<close>

fun push_all :: "('h \<Rightarrow> 'a \<Rightarrow> 'a \<Rightarrow> 'h option) \<Rightarrow> 'h \<Rightarrow> 'a \<Rightarrow> 'a list \<Rightarrow> 'h option" where
  "push_all push h q [] = Some h"
| "push_all push h q (x # xs) = do { h \<leftarrow> push h x q; push_all push h q xs }"

fun take_off ::
  "('h \<Rightarrow> 'a \<Rightarrow> 'a option) \<Rightarrow> ('h \<Rightarrow> 'a \<Rightarrow> 'h option) \<Rightarrow> 'h \<Rightarrow> 'a \<Rightarrow> nat \<Rightarrow> ('a list \<times> 'h) option" where
  "take_off first unlink h q 0 = Some ([], h)"
| "take_off first unlink h q (Suc n) = do {
     x \<leftarrow> first h q;
     h \<leftarrow> unlink h x;
     (xs, h) \<leftarrow> take_off first unlink h q n;
     Some (x # xs, h) }"

locale fifo_list =
  fixes holds :: "'h \<Rightarrow> 'a \<Rightarrow> 'a list \<Rightarrow> bool"
    and node :: "'h \<Rightarrow> 'a \<Rightarrow> bool"
    and push :: "'h \<Rightarrow> 'a \<Rightarrow> 'a \<Rightarrow> 'h option"
    and first :: "'h \<Rightarrow> 'a \<Rightarrow> 'a option"
    and unlink :: "'h \<Rightarrow> 'a \<Rightarrow> 'h option"
    and is_empty :: "'h \<Rightarrow> 'a \<Rightarrow> bool option"
  assumes push_ok: "holds h q xs \<Longrightarrow> node h x \<Longrightarrow> x \<notin> set (q # xs) \<Longrightarrow>
      ok (push h x q) (\<lambda>h'. holds h' q (xs @ [x]) \<and> node h' = node h)"
    and first_ok: "holds h q (x # xs) \<Longrightarrow> first h q = Some x"
    and unlink_ok: "holds h q (x # xs) \<Longrightarrow> ok (unlink h x) (\<lambda>h'. holds h' q xs \<and> node h' = node h)"
    and empty_ok: "holds h q xs \<Longrightarrow> is_empty h q = Some (xs = [])"
    and holds_distinct: "holds h q xs \<Longrightarrow> distinct (q # xs)"
begin

lemma push_all_ok:
  "holds h q xs \<Longrightarrow> (\<And>y. y \<in> set ys \<Longrightarrow> node h y) \<Longrightarrow> distinct (q # xs @ ys) \<Longrightarrow>
     ok (push_all push h q ys) (\<lambda>h'. holds h' q (xs @ ys) \<and> node h' = node h)"
proof (induction ys arbitrary: h xs)
  case Nil
  then show ?case by simp
next
  case (Cons y ys)
  obtain h1 where h1: "push h y q = Some h1" "holds h1 q (xs @ [y])" "node h1 = node h"
    using push_ok [OF Cons.prems(1), of y] Cons.prems(2,3) by (auto simp: ok_conv)
  show ?case using Cons.IH [OF h1(2)] Cons.prems(2,3) h1 by simp
qed

lemma take_off_ok:
  "holds h q (xs @ ys) \<Longrightarrow>
     ok (take_off first unlink h q (length xs)) (\<lambda>(zs, h'). zs = xs \<and> holds h' q ys)"
proof (induction xs arbitrary: h)
  case Nil
  then show ?case by simp
next
  case (Cons x xs)
  obtain h1 where h1: "unlink h x = Some h1" "holds h1 q (xs @ ys)"
    using unlink_ok [of h q x "xs @ ys"] Cons.prems by (auto simp: ok_conv)
  moreover have "first h q = Some x" using first_ok Cons.prems by simp
  ultimately show ?case using Cons.IH [OF h1(2)] by (auto simp: ok_conv)
qed

end

definition first_el :: "lheap \<Rightarrow> addr \<Rightarrow> addr option" where
  "first_el h head = do { n \<leftarrow> ld h (Some head); lnext n }"

interpretation klist: fifo_list ring "\<lambda>h a. a \<in> dom h" "\<lambda>h x q. list_add_tail h (Some x) (Some q)"
  first_el "\<lambda>h x. list_del h (Some x)" "\<lambda>h q. list_empty h (Some q)"
proof (unfold_locales, goal_cases)
  case (1 h q xs x)
  then show ?case
    using list_add_tail_ok [of h q xs x] by (auto simp: ok_conv same_outside_def)
next
  case (2 h q x xs)
  then show ?case using ring_head_step [of h q "x # xs"] by (auto simp: first_el_def ok_conv)
next
  case (3 h q x xs)
  then show ?case using list_del_ok [of h q "[]" x xs] by (auto simp: ok_conv same_outside_def)
next
  case (4 h q xs)
  then show ?case by (rule list_empty_ok)
next
  case (5 h q xs)
  then show ?case by (rule ring_nodes)
qed

section \<open>Sequences of operations\<close>

text \<open>
  A client program: a sequence of insertions and removals on one list. \<open>run_op\<close> performs an
  operation on the heap, \<open>spec_op\<close> is its meaning on the abstract list and \<open>allowed\<close> its
  precondition (an inserted node is a node of the heap that is not yet on the list, a removed one
  is on the list).
\<close>

datatype klist_op = Add addr | Add_Tail addr | Del addr

fun run_op :: "addr \<Rightarrow> klist_op \<Rightarrow> lheap \<Rightarrow> lheap option" where
  "run_op head (Add a) h = list_add h (Some a) (Some head)"
| "run_op head (Add_Tail a) h = list_add_tail h (Some a) (Some head)"
| "run_op head (Del a) h = list_del h (Some a)"

fun spec_op :: "klist_op \<Rightarrow> addr list \<Rightarrow> addr list" where
  "spec_op (Add a) xs = a # xs"
| "spec_op (Add_Tail a) xs = xs @ [a]"
| "spec_op (Del a) xs = remove1 a xs"

fun allowed :: "addr set \<Rightarrow> addr \<Rightarrow> addr list \<Rightarrow> klist_op \<Rightarrow> bool" where
  "allowed D head xs (Add a) = (a \<in> D \<and> a \<noteq> head \<and> a \<notin> set xs)"
| "allowed D head xs (Add_Tail a) = (a \<in> D \<and> a \<noteq> head \<and> a \<notin> set xs)"
| "allowed D head xs (Del a) = (a \<in> set xs)"

fun run_ops :: "addr \<Rightarrow> klist_op list \<Rightarrow> lheap \<Rightarrow> lheap option" where
  "run_ops head [] h = Some h"
| "run_ops head (p # ps) h = do { h \<leftarrow> run_op head p h; run_ops head ps h }"

fun spec_ops :: "klist_op list \<Rightarrow> addr list \<Rightarrow> addr list" where
  "spec_ops [] xs = xs"
| "spec_ops (p # ps) xs = spec_ops ps (spec_op p xs)"

fun all_allowed :: "addr set \<Rightarrow> addr \<Rightarrow> addr list \<Rightarrow> klist_op list \<Rightarrow> bool" where
  "all_allowed D head xs [] = True"
| "all_allowed D head xs (p # ps) = (allowed D head xs p \<and> all_allowed D head (spec_op p xs) ps)"

lemma run_op_ok:
  assumes "ring h head xs" and "allowed (dom h) head xs p"
  shows "ok (run_op head p h) (\<lambda>h'. ring h' head (spec_op p xs) \<and> dom h' = dom h)"
proof (cases p)
  case (Add a)
  then show ?thesis using list_add_ok assms by (force simp: ok_conv same_outside_def)
next
  case (Add_Tail a)
  then show ?thesis using list_add_tail_ok assms by (force simp: ok_conv same_outside_def)
next
  case (Del a)
  then obtain ys zs where xs: "xs = ys @ a # zs" "a \<notin> set ys"
    using assms(2) by (auto dest: split_list_first)
  then have "remove1 a xs = ys @ zs" by (simp add: remove1_append)
  then show ?thesis
    using list_del_ok [of h head ys a zs] assms(1) Del xs by (auto simp: ok_conv same_outside_def)
qed

lemma run_ops_ok:
  "ring h head xs \<Longrightarrow> all_allowed (dom h) head xs ps \<Longrightarrow>
     ok (run_ops head ps h) (\<lambda>h'. ring h' head (spec_ops ps xs) \<and> dom h' = dom h)"
proof (induction ps arbitrary: h xs)
  case Nil
  then show ?case by simp
next
  case (Cons p ps)
  obtain h1 where h1: "run_op head p h = Some h1" "ring h1 head (spec_op p xs)" "dom h1 = dom h"
    using run_op_ok [OF Cons.prems(1), of p] Cons.prems(2) by (auto simp: ok_conv)
  then show ?case using Cons.IH [OF h1(2)] Cons.prems(2) by simp
qed

text \<open>A concrete heap for the witnesses: node 0 is an empty list head, nodes 1 to 3 are free.\<close>

definition sample_heap :: lheap where
  "sample_heap = [0 \<mapsto> \<lparr>lprev = Some 0, lnext = Some 0\<rparr>, 1 \<mapsto> \<lparr>lprev = None, lnext = None\<rparr>,
                  2 \<mapsto> \<lparr>lprev = None, lnext = None\<rparr>, 3 \<mapsto> \<lparr>lprev = None, lnext = None\<rparr>]"

lemma sample_heap_ring: "ring sample_heap 0 []" and sample_heap_dom: "dom sample_heap = {0, 1, 2, 3}"
  by (auto simp: sample_heap_def ring_def linked_def nxt_def prv_def)

text \<open>
  C5. Any sequence of list_add, list_add_tail and list_del calls on a well-formed list, each on a
  node it may be called on, runs without following a bad pointer and leaves a well-formed list that
  holds exactly what the same insertions and removals give on the abstract list; a traversal in
  either direction then visits these elements in order (and in reverse order).
\<close>

theorem klist_refines:
  assumes "ring h head xs" and "all_allowed (dom h) head xs ps"
  shows "ok (run_ops head ps h) (\<lambda>h'.
     ring h' head (spec_ops ps xs) \<and>
     list_empty h' (Some head) = Some (spec_ops ps xs = []) \<and>
     list_for_each h' (\<lambda>a acc. acc @ [a]) (Some head) [] = Some (spec_ops ps xs) \<and>
     list_for_each_prev h' (\<lambda>a acc. acc @ [a]) (Some head) [] = Some (rev (spec_ops ps xs)))"
proof -
  have "fold (\<lambda>a acc. acc @ [a]) ys acc = acc @ ys" for ys acc :: "addr list"
    by (induction ys arbitrary: acc) auto
  then show ?thesis
    using run_ops_ok [OF assms]
    by (auto elim!: ok_mono simp: list_empty_ok list_for_each_ok list_for_each_prev_ok)
qed

theorem klist_refines_witness:
  "ok (run_ops 0 [Add 1, Add_Tail 2, Add 3, Del 1] sample_heap) (\<lambda>h'.
     ring h' 0 [3, 2] \<and> list_empty h' (Some 0) = Some False \<and>
     list_for_each h' (\<lambda>a acc. acc @ [a]) (Some 0) [] = Some [3, 2] \<and>
     list_for_each_prev h' (\<lambda>a acc. acc @ [a]) (Some 0) [] = Some [2, 3])"
  using klist_refines [OF sample_heap_ring, of "[Add 1, Add_Tail 2, Add 3, Del 1]"]
  by (simp add: sample_heap_dom)

text \<open>
  C26. list_for_each_safe may unlink the element it is visiting: a clean-up loop that deletes every
  element visits each one once, in list order, ends with the empty list, and touches no node
  outside the list.
\<close>

theorem for_each_safe_drains:
  assumes "ring h head xs"
  shows "ok (list_for_each_safe (del_body f) (Some head) (h, s))
     (\<lambda>(h', s'). ring h' head [] \<and> s' = fold f xs s
         \<and> (\<forall>b. b \<noteq> head \<and> b \<notin> set xs \<longrightarrow> h' b = h b))"
  using list_for_each_safe_del [OF assms, of f s] by (auto elim!: ok_mono simp: same_outside_def)

theorem for_each_safe_drains_witness:
  "ok (run_ops 0 [Add 1, Add_Tail 2] sample_heap) (\<lambda>h.
     ok (list_for_each_safe (del_body (\<lambda>a acc. acc @ [a])) (Some 0) (h, []))
        (\<lambda>(h', s'). ring h' 0 [] \<and> s' = [1, 2]))"
proof -
  obtain h where h: "run_ops 0 [Add 1, Add_Tail 2] sample_heap = Some h" "ring h 0 [1, 2]"
    using run_ops_ok [OF sample_heap_ring, of "[Add 1, Add_Tail 2]"]
    by (auto simp: sample_heap_dom ok_conv)
  have "ok (list_for_each_safe (del_body (\<lambda>a acc. acc @ [a])) (Some 0) (h, []))
        (\<lambda>(h', s'). ring h' 0 [] \<and> s' = [1, 2])"
    using for_each_safe_drains [OF h(2), of "\<lambda>a acc. acc @ [a]" "[]"] by (auto elim!: ok_mono)
  with h(1) show ?thesis by simp
qed

end
