(* ===== verification/Cutils.thy ===== *)
theory Cutils
  imports Prelude "HOL-Library.Sublist"
begin

unbundle bit_operations_syntax

text \<open>
  The string and integer helpers of src/quickjs/cutils.c and cutils.h: bounded string copies, prefix
  and suffix tests, unaligned little-endian loads and stores, byte swaps, and the wrappers of the
  bit-counting builtins. A \<open>char *\<close> or \<open>uint8_t *\<close> is the list of the bytes from that address on.
\<close>

section \<open>Strings\<close>

text \<open>
  \<open>pstrcpy\<close>: the loop reads the source a byte at a time and stops at its terminator or when
  \<open>q >= buf + buf_size - 1\<close>; then the terminator is stored.
\<close>

fun pstrcpy_loop :: "u8 list \<Rightarrow> int \<Rightarrow> nat \<Rightarrow> u8 list \<Rightarrow> u8 list option" where
  "pstrcpy_loop buf buf_size q [] = None"
| "pstrcpy_loop buf buf_size q (c # str) =
     (if c = 0 \<or> int q \<ge> buf_size - 1 then wr buf q 0
      else do { buf \<leftarrow> wr buf q c; pstrcpy_loop buf buf_size (Suc q) str })"

definition pstrcpy :: "u8 list \<Rightarrow> int \<Rightarrow> u8 list \<Rightarrow> u8 list option" where
  "pstrcpy buf buf_size str = (if buf_size \<le> 0 then Some buf else pstrcpy_loop buf buf_size 0 str)"

definition pstrcat :: "u8 list \<Rightarrow> int \<Rightarrow> u8 list \<Rightarrow> u8 list option" where
  "pstrcat buf buf_size s = do {
     t \<leftarrow> cstr buf;
     let len = length t;
     if int len < buf_size
     then do { rest \<leftarrow> pstrcpy (drop len buf) (buf_size - int len) s; Some (take len buf @ rest) }
     else Some buf }"

text \<open>
  \<open>strstart\<close> returns 0 (\<^term>\<open>Some None\<close>) or 1 with the pointer behind the prefix
  (\<^term>\<open>Some (Some rest)\<close>).
\<close>

fun strstart :: "u8 list \<Rightarrow> u8 list \<Rightarrow> u8 list option option" where
  "strstart p [] = None"
| "strstart p (q # val) =
     (if q = 0 then Some (Some p)
      else case p of [] \<Rightarrow> None
           | c # p' \<Rightarrow> if c \<noteq> q then Some None else strstart p' val)"

definition has_suffix :: "u8 list \<Rightarrow> u8 list \<Rightarrow> bool option" where
  "has_suffix str suf = do {
     s \<leftarrow> cstr str;
     t \<leftarrow> cstr suf;
     let len = length s;
     let slen = length t;
     if len \<ge> slen
     then do { a \<leftarrow> slice str (len - slen) slen; b \<leftarrow> slice suf 0 slen; Some (a = b) }
     else Some False }"

lemma pstrcpy_loop_ok:
  assumes "int q \<le> buf_size - 1" and "buf_size \<le> int (length buf)" and "0 \<notin> set s"
  shows "pstrcpy_loop buf buf_size q (s @ 0 # rest) =
     (let t = take (nat (buf_size - 1) - q) s
      in Some (take q buf @ t @ 0 # drop (q + length t + 1) buf))"
  using assms
proof (induction s arbitrary: q buf)
  case Nil
  then show ?case by (simp add: wr_def upd_conv_take_nth_drop)
next
  case (Cons c s)
  show ?case
  proof (cases "int q \<ge> buf_size - 1")
    case True
    with Cons.prems show ?thesis by (simp add: wr_def upd_conv_take_nth_drop)
  next
    case False
    let ?n = "nat (buf_size - 1) - Suc q" and ?buf = "buf[q := c]"
    have n: "nat (buf_size - 1) - q = Suc ?n" using False by linarith
    have q: "q < length buf" using False Cons.prems by linarith
    have "pstrcpy_loop ?buf buf_size (Suc q) (s @ 0 # rest) =
       Some (take (Suc q) ?buf @ take ?n s @ 0 # drop (Suc q + length (take ?n s) + 1) ?buf)"
      using False Cons.prems by (subst Cons.IH) (auto simp: Let_def)
    then show ?thesis
      using False Cons.prems q n by (simp add: Let_def take_Suc_conv_app_nth)
  qed
qed

text \<open>Copying a string of \<open>s\<close> into a buffer, as one equation on the bytes of the buffer.\<close>

lemma pstrcpy_bytes:
  assumes "buf_size \<le> int (length buf)" and "cstr str = Some s" and "0 < buf_size"
  shows "pstrcpy buf buf_size str =
     Some (take (nat (buf_size - 1)) s @ 0 # drop (length (take (nat (buf_size - 1)) s) + 1) buf)"
  using pstrcpy_loop_ok [of 0 buf_size buf s] assms
  by (auto simp: pstrcpy_def Let_def dest!: cstr_SomeD)

lemma cstr_pstrcpy:
  assumes "buf_size \<le> int (length buf)" and "cstr str = Some s" and "0 < buf_size"
  shows "ok (pstrcpy buf buf_size str) (\<lambda>b. cstr b = Some (take (nat (buf_size - 1)) s)
     \<and> length b = length buf \<and> drop (nat buf_size) b = drop (nat buf_size) buf)"
proof -
  let ?t = "take (nat (buf_size - 1)) s"
  have "0 \<notin> set ?t" using cstr_SomeD [OF assms(2)] in_set_takeD by fastforce
  moreover have "length ?t + 1 \<le> nat buf_size" using assms(3) by auto
  moreover have "length ?t + 1 \<le> length buf" using assms(1) calculation(2) by linarith
  ultimately show ?thesis
    using assms by (auto simp: pstrcpy_bytes drop_Cons' min_def)
qed

lemma cstr_pstrcat:
  assumes "buf_size \<le> int (length buf)" and "cstr buf = Some t" and "cstr str = Some s"
    and "int (length t) < buf_size"
  shows "ok (pstrcat buf buf_size str) (\<lambda>b. cstr b = Some (take (nat (buf_size - 1)) (t @ s))
     \<and> length b = length buf \<and> drop (nat buf_size) b = drop (nat buf_size) buf)"
proof -
  obtain rest where t: "0 \<notin> set t" "buf = t @ 0 # rest" using cstr_SomeD [OF assms(2)] by auto
  let ?n = "buf_size - int (length t)"
  have n: "?n \<le> int (length (drop (length t) buf))" "0 < ?n" using assms(1,4) t(2) by auto
  obtain b where b: "pstrcpy (drop (length t) buf) ?n str = Some b"
    "cstr b = Some (take (nat (?n - 1)) s)" "length b = length (drop (length t) buf)"
    "drop (nat ?n) b = drop (nat ?n) (drop (length t) buf)"
    using cstr_pstrcpy [OF n(1) assms(3) n(2)] by (rule okE) auto
  have "pstrcat buf buf_size str = Some (t @ b)"
    using assms(2,4) b(1) t(2) by (simp add: pstrcat_def Let_def)
  moreover have "cstr (t @ b) = Some (t @ take (nat (?n - 1)) s)"
    using b(2) t(1) by (auto simp: cstr_eq_Some)
  moreover have "t @ take (nat (?n - 1)) s = take (nat (buf_size - 1)) (t @ s)"
    using assms(4) by (simp add: nat_diff_distrib' diff_commute)
  moreover have "drop (nat buf_size) (t @ b) = drop (nat buf_size) buf"
    using b(4) assms(4) t(2) by (simp add: nat_diff_distrib')
  ultimately show ?thesis using b(3) t(2) by simp
qed

lemma strstart_correct:
  "cstr str = Some s \<Longrightarrow> cstr val = Some v \<Longrightarrow>
     strstart str val = Some (if prefix v s then Some (drop (length v) str) else None)"
proof (induction str val arbitrary: s v rule: strstart.induct)
  case (1 p)
  then show ?case by simp
next
  case (2 p q val)
  then show ?case by (cases p) (auto split: if_splits)
qed

lemma has_suffix_correct:
  assumes "cstr str = Some s" and "cstr suf = Some t"
  shows "has_suffix str suf = Some (suffix t s)"
proof -
  obtain r r' where r: "str = s @ 0 # r" "suf = t @ 0 # r'"
    using cstr_SomeD [OF assms(1)] cstr_SomeD [OF assms(2)] by auto
  have "length t \<le> length s \<Longrightarrow> (drop (length s - length t) s = t) = suffix t s"
    by (metis append_eq_conv_conj append_take_drop_id length_drop diff_diff_cancel suffixE suffixI
        add_diff_cancel_right' length_append)
  then show ?thesis
    using assms r by (auto simp: has_suffix_def slice_def Let_def dest: suffix_length_le)
qed

section \<open>Little-endian loads and stores\<close>

text \<open>
  The value stored in a byte sequence, least significant byte first, and the bytes of a value:
  what the unions of get_u16, put_u16 and their kin convert between.
\<close>

definition of_bytes :: "u8 list \<Rightarrow> 'a::len word" where
  "of_bytes bs = foldr (\<lambda>b w. ucast b OR push_bit 8 w) bs 0"

definition to_bytes :: "nat \<Rightarrow> 'a::len word \<Rightarrow> u8 list" where
  "to_bytes n w = map (\<lambda>i. ucast (drop_bit (8 * i) w)) [0..<n]"

lemma length_to_bytes [simp]: "length (to_bytes n w) = n"
  by (simp add: to_bytes_def)

lemma bit_of_bytes:
  "bit (of_bytes bs :: 'a::len word) n \<longleftrightarrow>
     n < LENGTH('a) \<and> n div 8 < length bs \<and> bit (bs ! (n div 8)) (n mod 8)"
proof (induction bs arbitrary: n)
  case Nil
  then show ?case by (simp add: of_bytes_def)
next
  case (Cons b bs)
  have *: "(of_bytes (b # bs) :: 'a word) = ucast b OR push_bit 8 (of_bytes bs)"
    by (simp add: of_bytes_def)
  show ?case
  proof (cases "n < 8")
    case True
    then show ?thesis by (auto simp: * bit_or_iff bit_push_bit_iff bit_ucast_iff)
  next
    case False
    then obtain m where m: "n = m + 8" by (metis add.commute le_Suc_ex not_less)
    have "\<not> bit (ucast b :: 'a word) n" using False by (auto simp: bit_ucast_iff dest: bit_imp_le_length)
    then show ?thesis
      using Cons.IH [of m] m div_add_self2 [of 8 m]
      by (auto simp: * bit_or_iff bit_push_bit_iff possible_bit_word)
  qed
qed

lemma bit_to_bytes:
  "i < n \<Longrightarrow> j < 8 \<Longrightarrow> bit (to_bytes n w ! i) j = bit w (8 * i + j)"
  by (simp add: to_bytes_def bit_ucast_iff bit_drop_bit_eq)

lemma of_to_bytes: "LENGTH('a) \<le> 8 * n \<Longrightarrow> of_bytes (to_bytes n w) = (w :: 'a::len word)"
proof (rule bit_word_eqI)
  fix k assume le: "LENGTH('a) \<le> 8 * n" and k: "k < LENGTH('a)"
  have "k div 8 < n" using le k by (auto simp: less_mult_imp_div_less mult.commute)
  then show "bit (of_bytes (to_bytes n w) :: 'a word) k = bit w k"
    using k by (simp add: bit_of_bytes bit_to_bytes)
qed

lemma to_of_bytes:
  assumes "8 * length bs \<le> LENGTH('a)"
  shows "to_bytes (length bs) (of_bytes bs :: 'a::len word) = bs"
proof (rule nth_equalityI)
  fix i assume "i < length (to_bytes (length bs) (of_bytes bs :: 'a word))"
  then have i: "i < length bs" by simp
  show "to_bytes (length bs) (of_bytes bs :: 'a word) ! i = bs ! i"
  proof (rule bit_word_eqI)
    fix j assume "j < LENGTH(8)"
    then have j: "j < 8" by simp
    then show "bit (to_bytes (length bs) (of_bytes bs :: 'a word) ! i) j = bit (bs ! i) j"
      using i assms by (simp add: bit_to_bytes bit_of_bytes)
  qed
qed simp

lemma of_bytes_inj:
  "length bs = length cs \<Longrightarrow> 8 * length bs \<le> LENGTH('a) \<Longrightarrow>
     (of_bytes bs :: 'a::len word) = of_bytes cs \<longleftrightarrow> bs = cs"
  by (metis to_of_bytes)

definition get_u64 :: "u8 list \<Rightarrow> u64 option" where
  "get_u64 tab = do { bs \<leftarrow> slice tab 0 8; Some (of_bytes bs) }"

definition get_i64 :: "u8 list \<Rightarrow> int option" where
  "get_i64 tab = do { bs \<leftarrow> slice tab 0 8; Some (sint (of_bytes bs :: u64)) }"

definition get_u32 :: "u8 list \<Rightarrow> u32 option" where
  "get_u32 tab = do { bs \<leftarrow> slice tab 0 4; Some (of_bytes bs) }"

definition get_i32 :: "u8 list \<Rightarrow> int option" where
  "get_i32 tab = do { bs \<leftarrow> slice tab 0 4; Some (sint (of_bytes bs :: u32)) }"

definition get_u16 :: "u8 list \<Rightarrow> u32 option" where
  "get_u16 tab = do { bs \<leftarrow> slice tab 0 2; Some (ucast (of_bytes bs :: u16)) }"

definition get_i16 :: "u8 list \<Rightarrow> int option" where
  "get_i16 tab = do { bs \<leftarrow> slice tab 0 2; Some (sint (of_bytes bs :: u16)) }"

definition get_u8 :: "u8 list \<Rightarrow> u32 option" where
  "get_u8 tab = do { b \<leftarrow> rd tab 0; Some (ucast b) }"

definition get_i8 :: "u8 list \<Rightarrow> int option" where
  "get_i8 tab = do { b \<leftarrow> rd tab 0; Some (sint b) }"

definition put_u32 :: "u8 list \<Rightarrow> u32 \<Rightarrow> u8 list option" where
  "put_u32 tab val = blit tab 0 (to_bytes 4 val)"

definition put_u16 :: "u8 list \<Rightarrow> u16 \<Rightarrow> u8 list option" where
  "put_u16 tab val = blit tab 0 (to_bytes 2 val)"

definition put_u8 :: "u8 list \<Rightarrow> u8 \<Rightarrow> u8 list option" where
  "put_u8 tab val = wr tab 0 val"

text \<open>
  The body of \<open>put_u64\<close> as it is written: the loop is \<open>*b++ = *tab++\<close>, so it loads the eight
  bytes at \<open>tab\<close> into the local union and \<open>tab\<close> is never written.
\<close>

fun copy_bytes :: "nat \<Rightarrow> u8 list \<Rightarrow> nat \<Rightarrow> u8 list \<Rightarrow> u8 list option" where
  "copy_bytes 0 dst i src = Some dst"
| "copy_bytes (Suc n) dst i src =
     do { c \<leftarrow> rd src i; dst \<leftarrow> wr dst i c; copy_bytes n dst (Suc i) src }"

definition put_u64 :: "u8 list \<Rightarrow> u64 \<Rightarrow> u8 list option" where
  "put_u64 tab val = do {
     let conv = to_bytes 8 val;
     conv \<leftarrow> copy_bytes 8 conv 0 tab;
     Some tab }"

definition bswap16 :: "u16 \<Rightarrow> u16" where
  "bswap16 x = drop_bit 8 x OR push_bit 8 x"

definition bswap32 :: "u32 \<Rightarrow> u32" where
  "bswap32 v = drop_bit 24 (v AND 0xff000000) OR drop_bit 8 (v AND 0x00ff0000) OR
     push_bit 8 (v AND 0x0000ff00) OR push_bit 24 (v AND 0x000000ff)"

definition bswap64 :: "u64 \<Rightarrow> u64" where
  "bswap64 v =
     drop_bit (7 * 8) (v AND push_bit (7 * 8) 0xff) OR
     drop_bit (5 * 8) (v AND push_bit (6 * 8) 0xff) OR
     drop_bit (3 * 8) (v AND push_bit (5 * 8) 0xff) OR
     drop_bit (1 * 8) (v AND push_bit (4 * 8) 0xff) OR
     push_bit (1 * 8) (v AND push_bit (3 * 8) 0xff) OR
     push_bit (3 * 8) (v AND push_bit (2 * 8) 0xff) OR
     push_bit (5 * 8) (v AND push_bit (1 * 8) 0xff) OR
     push_bit (7 * 8) (v AND push_bit (0 * 8) 0xff)"

lemma to_bytes_2: "to_bytes 2 w = [ucast w, ucast (drop_bit 8 w)]"
  and to_bytes_4: "to_bytes 4 w = [ucast w, ucast (drop_bit 8 w), ucast (drop_bit 16 w), ucast (drop_bit 24 w)]"
  and to_bytes_8: "to_bytes 8 w = [ucast w, ucast (drop_bit 8 w), ucast (drop_bit 16 w), ucast (drop_bit 24 w),
        ucast (drop_bit 32 w), ucast (drop_bit 40 w), ucast (drop_bit 48 w), ucast (drop_bit 56 w)]"
  by (simp_all add: to_bytes_def upt_conv_Cons)

lemma less_8_cases: "(j::nat) < 8 \<longleftrightarrow> j = 0 \<or> j = 1 \<or> j = 2 \<or> j = 3 \<or> j = 4 \<or> j = 5 \<or> j = 6 \<or> j = 7"
  by auto

lemma byte_eqI: "(\<And>j. j < 8 \<Longrightarrow> bit (a :: u8) j = bit b j) \<Longrightarrow> a = b"
  by (rule bit_word_eqI) simp

lemma bswap16_bytes: "to_bytes 2 (bswap16 v) = rev (to_bytes 2 v)"
  unfolding to_bytes_2 bswap16_def
  by (auto intro!: byte_eqI simp: bit_simps less_8_cases)

lemma bswap32_bytes: "to_bytes 4 (bswap32 v) = rev (to_bytes 4 v)"
  unfolding to_bytes_4 bswap32_def
  by (auto intro!: byte_eqI simp: bit_simps less_8_cases)

lemma bit_byte_mask: "bit (v AND push_bit k 0xff) n \<longleftrightarrow> bit (v :: u64) n \<and> k \<le> n \<and> n < k + 8"
proof -
  have "(0xff :: u64) = mask 8" by (simp add: mask_eq_exp_minus_1)
  then have "bit (push_bit k 0xff :: u64) n \<longleftrightarrow> n < 64 \<and> k \<le> n \<and> n < k + 8"
    by (simp only: bit_push_bit_iff bit_mask_iff possible_bit_word) auto
  then show ?thesis by (auto simp: bit_and_iff dest: bit_imp_le_length)
qed

lemma bit_bswap64:
  assumes "i < 8" and "j < 8"
  shows "bit (bswap64 v) (8 * i + j) = bit v (8 * (7 - i) + j)"
  unfolding bswap64_def
  using assms
  by (simp only: bit_or_iff bit_drop_bit_eq bit_push_bit_iff possible_bit_word bit_byte_mask o_def less_8_cases [of i])
    (elim disjE; force)

lemma bswap64_bytes: "to_bytes 8 (bswap64 v) = rev (to_bytes 8 v)"
proof (rule nth_equalityI)
  fix i assume "i < length (to_bytes 8 (bswap64 v))"
  then have i: "i < 8" by simp
  then have "to_bytes 8 (bswap64 v) ! i = to_bytes 8 v ! (7 - i)"
    by (auto intro!: byte_eqI simp: bit_to_bytes bit_bswap64)
  then show "to_bytes 8 (bswap64 v) ! i = rev (to_bytes 8 v) ! i" using i by (simp add: rev_nth)
qed simp

section \<open>Small integer helpers\<close>

definition max_int :: "int \<Rightarrow> int \<Rightarrow> int" where
  "max_int a b = (if a > b then a else b)"

definition min_int :: "int \<Rightarrow> int \<Rightarrow> int" where
  "min_int a b = (if a < b then a else b)"

definition max_uint32 :: "u32 \<Rightarrow> u32 \<Rightarrow> u32" where
  "max_uint32 a b = (if a > b then a else b)"

definition min_uint32 :: "u32 \<Rightarrow> u32 \<Rightarrow> u32" where
  "min_uint32 a b = (if a < b then a else b)"

definition max_int64 :: "int \<Rightarrow> int \<Rightarrow> int" where
  "max_int64 a b = (if a > b then a else b)"

definition min_int64 :: "int \<Rightarrow> int \<Rightarrow> int" where
  "min_int64 a b = (if a < b then a else b)"

text \<open>
  The compiler builtins count from either end of the word; they are undefined for 0.
\<close>

definition builtin_clz :: "'a::len word \<Rightarrow> nat option" where
  "builtin_clz a =
     (if a = 0 then None
      else Some (length (takeWhile (\<lambda>i. \<not> bit a i) (rev [0..<LENGTH('a)]))))"

definition builtin_ctz :: "'a::len word \<Rightarrow> nat option" where
  "builtin_ctz a =
     (if a = 0 then None else Some (length (takeWhile (\<lambda>i. \<not> bit a i) [0..<LENGTH('a)])))"

definition clz32 :: "u32 \<Rightarrow> nat option" where
  "clz32 a = builtin_clz a"

definition clz64 :: "u64 \<Rightarrow> nat option" where
  "clz64 a = builtin_clz a"

definition ctz32 :: "u32 \<Rightarrow> nat option" where
  "ctz32 a = builtin_ctz a"

definition ctz64 :: "u64 \<Rightarrow> nat option" where
  "ctz64 a = builtin_ctz a"

lemma ex_bit: "a \<noteq> 0 \<Longrightarrow> \<exists>i < LENGTH('a). bit (a :: 'a::len word) i"
  using bit_word_eqI [of a 0] by auto

lemma takeWhile_less:
  assumes "x \<in> set xs" and "\<not> P x"
  shows "length (takeWhile P xs) < length xs" and "\<not> P (xs ! length (takeWhile P xs))"
proof -
  show "length (takeWhile P xs) < length xs"
    using assms by (induction xs) auto
  then show "\<not> P (xs ! length (takeWhile P xs))" by (rule nth_length_takeWhile)
qed

lemma takeWhile_before: "k < length (takeWhile P xs) \<Longrightarrow> P (xs ! k)"
  by (metis nth_mem set_takeWhileD takeWhile_nth)

text \<open>The number of leading zeros locates the highest set bit, the number of trailing ones the lowest.\<close>

lemma builtin_clz_correct:
  fixes a :: "'a::len word"
  assumes "a \<noteq> 0"
  shows "ok (builtin_clz a) (\<lambda>n. n < LENGTH('a) \<and> bit a (LENGTH('a) - 1 - n)
     \<and> (\<forall>k. LENGTH('a) - 1 - n < k \<longrightarrow> \<not> bit a k))"
proof -
  let ?xs = "rev [0..<LENGTH('a)]" and ?P = "\<lambda>i. \<not> bit a i"
  define n where "n = length (takeWhile ?P ?xs)"
  obtain i where i: "i < LENGTH('a)" "bit a i" using ex_bit [OF assms] by auto
  then have n: "n < LENGTH('a)" "bit a (?xs ! n)"
    using takeWhile_less [of i ?xs ?P] by (auto simp: n_def)
  have nth: "?xs ! k = LENGTH('a) - 1 - k" if "k < LENGTH('a)" for k
    using that by (simp add: rev_nth)
  have "\<not> bit a k" if "LENGTH('a) - 1 - n < k" for k
  proof (cases "k < LENGTH('a)")
    case True
    then have "LENGTH('a) - 1 - k < n" using that n(1) by linarith
    then have "?P (?xs ! (LENGTH('a) - 1 - k))" unfolding n_def by (rule takeWhile_before)
    then show ?thesis using nth [of "LENGTH('a) - 1 - k"] True by simp
  next
    case False
    then show ?thesis by (auto dest: bit_imp_le_length)
  qed
  moreover have "bit a (LENGTH('a) - 1 - n)" using n(2) unfolding nth [OF n(1)] .
  moreover have "builtin_clz a = Some n" using assms by (simp add: builtin_clz_def n_def)
  ultimately show ?thesis using n(1) by (simp only: ok_Some) blast
qed

lemma builtin_ctz_correct:
  fixes a :: "'a::len word"
  assumes "a \<noteq> 0"
  shows "ok (builtin_ctz a) (\<lambda>n. n < LENGTH('a) \<and> bit a n \<and> (\<forall>k < n. \<not> bit a k))"
proof -
  let ?xs = "[0..<LENGTH('a)]" and ?P = "\<lambda>i. \<not> bit a i"
  let ?n = "length (takeWhile ?P ?xs)"
  obtain i where i: "i < LENGTH('a)" "bit a i" using ex_bit [OF assms] by auto
  then have n: "?n < LENGTH('a)" "bit a (?xs ! ?n)"
    using takeWhile_less [of i ?xs ?P] by auto
  moreover have "\<not> bit a k" if "k < ?n" for k
    using takeWhile_before [OF that] that n(1) by simp
  ultimately show ?thesis using assms by (simp add: builtin_ctz_def)
qed

definition from_hex :: "int \<Rightarrow> int" where
  "from_hex c =
     (if c \<ge> 48 \<and> c \<le> 57 then c - 48
      else if c \<ge> 65 \<and> c \<le> 70 then c - 65 + 10
      else if c \<ge> 97 \<and> c \<le> 102 then c - 97 + 10
      else -1)"

section \<open>Properties\<close>

text \<open>
  pstrcpy and pstrcat never write past buf_size bytes of the destination, always leave a
  terminated string there, and the string is the source (after the old contents, for pstrcat)
  truncated to buf_size - 1 characters.
\<close>

theorem pstrcat_truncates:
  assumes "0 < buf_size" and "buf_size \<le> int (length buf)" and "cstr src = Some s"
    and "cstr src2 = Some s2"
  shows "ok (pstrcpy buf buf_size src) (\<lambda>b.
     cstr b = Some (take (nat (buf_size - 1)) s) \<and>
     ok (pstrcat b buf_size src2) (\<lambda>b2.
       cstr b2 = Some (take (nat (buf_size - 1)) (s @ s2)) \<and>
       length b2 = length buf \<and> drop (nat buf_size) b2 = drop (nat buf_size) buf))"
proof (rule ok_mono [OF cstr_pstrcpy [OF assms(2,3,1)]], intro conjI)
  fix b
  assume b: "cstr b = Some (take (nat (buf_size - 1)) s) \<and> length b = length buf \<and>
    drop (nat buf_size) b = drop (nat buf_size) buf"
  then show "cstr b = Some (take (nat (buf_size - 1)) s)" by simp
  have "int (length (take (nat (buf_size - 1)) s)) < buf_size" using assms(1) by auto
  from cstr_pstrcat [OF _ _ assms(4) this, of b] b assms(2)
  show "ok (pstrcat b buf_size src2) (\<lambda>b2.
       cstr b2 = Some (take (nat (buf_size - 1)) (s @ s2)) \<and>
       length b2 = length buf \<and> drop (nat buf_size) b2 = drop (nat buf_size) buf)"
    by (auto elim!: ok_mono simp: min_def)
qed

theorem pstrcat_truncates_witness:
  "ok (pstrcpy [9, 9, 9, 9, 7] 4 [97, 98, 0]) (\<lambda>b.
     cstr b = Some [97, 98] \<and>
     ok (pstrcat b 4 [99, 100, 101, 0]) (\<lambda>b2.
       cstr b2 = Some [97, 98, 99] \<and> length b2 = 5 \<and> drop 4 b2 = [7]))"
  using pstrcat_truncates [of 4 "[9, 9, 9, 9, 7]" "[97, 98, 0]" "[97, 98]" "[99, 100, 101, 0]" "[99, 100, 101]"]
  by (auto elim!: ok_mono)

text \<open>
  strstart decides whether one C string is a prefix of another and on success returns the rest
  of the string; has_suffix decides the suffix relation; neither reads past a terminator.
\<close>

theorem strstart_has_suffix:
  assumes "cstr str = Some s" and "cstr val = Some v"
  shows "strstart str val = Some (if prefix v s then Some (drop (length v) str) else None) \<and>
         has_suffix str val = Some (suffix v s)"
  using strstart_correct [OF assms] has_suffix_correct [OF assms] by auto

theorem strstart_has_suffix_witness:
  "strstart [97, 98, 99, 0] [97, 98, 0] = Some (Some [99, 0]) \<and>
   has_suffix [97, 98, 99, 0] [97, 98, 0] = Some False"
  using strstart_has_suffix [of "[97, 98, 99, 0]" "[97, 98, 99]" "[97, 98, 0]" "[97, 98]"]
  by (simp add: suffix_def)

text \<open>
  C33. The unaligned loads and stores are inverse: what put_u32 (put_u16) stores, get_u32 (get_u16)
  and the signed load read back, storing what is already there changes nothing, and no byte after
  the stored ones changes.
\<close>

theorem load_store_roundtrip:
  assumes "4 \<le> length tab"
  shows "ok (put_u32 tab v) (\<lambda>t. get_u32 t = Some v \<and> get_i32 t = Some (sint v) \<and> drop 4 t = drop 4 tab) \<and>
         ok (put_u16 tab w) (\<lambda>t. get_u16 t = Some (ucast w) \<and> get_i16 t = Some (sint w) \<and> drop 2 t = drop 2 tab) \<and>
         ok (get_u32 tab) (\<lambda>x. put_u32 tab x = Some tab)"
proof (intro conjI)
  show "ok (put_u32 tab v) (\<lambda>t. get_u32 t = Some v \<and> get_i32 t = Some (sint v) \<and> drop 4 t = drop 4 tab)"
    using assms by (simp add: put_u32_def blit_def get_u32_def get_i32_def slice_def of_to_bytes)
  show "ok (put_u16 tab w) (\<lambda>t. get_u16 t = Some (ucast w) \<and> get_i16 t = Some (sint w) \<and> drop 2 t = drop 2 tab)"
    using assms by (simp add: put_u16_def blit_def get_u16_def get_i16_def slice_def of_to_bytes numeral_2_eq_2)
  have "to_bytes 4 (of_bytes (take 4 tab) :: u32) = take 4 tab"
    using to_of_bytes [where 'a = 32, of "take 4 tab"] assms by simp
  then show "ok (get_u32 tab) (\<lambda>x. put_u32 tab x = Some tab)"
    using assms by (simp add: put_u32_def blit_def get_u32_def slice_def)
qed

theorem load_store_roundtrip_witness:
  "ok (put_u32 [1, 2, 3, 4, 5] 0xdeadbeef) (\<lambda>t. get_u32 t = Some 0xdeadbeef \<and> drop 4 t = [5])"
  using load_store_roundtrip [of "[1, 2, 3, 4, 5]" "0xdeadbeef" 0] by (auto elim!: ok_mono)



text \<open>bswap16, bswap32 and bswap64 reverse the bytes of their argument, so each is its own inverse.\<close>

theorem bswap_reverses:
  "to_bytes 2 (bswap16 a) = rev (to_bytes 2 a) \<and> to_bytes 4 (bswap32 b) = rev (to_bytes 4 b) \<and>
   to_bytes 8 (bswap64 c) = rev (to_bytes 8 c) \<and>
   bswap16 (bswap16 a) = a \<and> bswap32 (bswap32 b) = b \<and> bswap64 (bswap64 c) = c"
proof -
  have inj: "to_bytes n x = to_bytes n y \<Longrightarrow> LENGTH('a) \<le> 8 * n \<Longrightarrow> x = y"
    for n and x y :: "'a::len word"
    by (metis of_to_bytes)
  show ?thesis
    by (intro conjI bswap16_bytes bswap32_bytes bswap64_bytes)
      (rule inj [of 2] inj [of 4] inj [of 8],
        simp_all add: bswap16_bytes bswap32_bytes bswap64_bytes)+
qed

text \<open>
  For a non-zero argument clz32/clz64 give the position of the highest set bit counted from the
  top and ctz32/ctz64 that of the lowest, all below the width; for 0 they are undefined.
\<close>

theorem clz_ctz_positions:
  "(a = 0 \<longrightarrow> clz32 a = None \<and> ctz32 a = None) \<and> (b = 0 \<longrightarrow> clz64 b = None \<and> ctz64 b = None) \<and>
   (a \<noteq> 0 \<longrightarrow>
     ok (clz32 a) (\<lambda>n. n < 32 \<and> bit a (31 - n) \<and> (\<forall>k. 31 - n < k \<longrightarrow> \<not> bit a k)) \<and>
     ok (ctz32 a) (\<lambda>n. n < 32 \<and> bit a n \<and> (\<forall>k < n. \<not> bit a k))) \<and>
   (b \<noteq> 0 \<longrightarrow>
     ok (clz64 b) (\<lambda>n. n < 64 \<and> bit b (63 - n) \<and> (\<forall>k. 63 - n < k \<longrightarrow> \<not> bit b k)) \<and>
     ok (ctz64 b) (\<lambda>n. n < 64 \<and> bit b n \<and> (\<forall>k < n. \<not> bit b k)))"
proof (intro conjI impI)
  show "ok (clz32 a) (\<lambda>n. n < 32 \<and> bit a (31 - n) \<and> (\<forall>k. 31 - n < k \<longrightarrow> \<not> bit a k))" if "a \<noteq> 0"
    using builtin_clz_correct [OF that] by (simp add: clz32_def)
  show "ok (ctz32 a) (\<lambda>n. n < 32 \<and> bit a n \<and> (\<forall>k < n. \<not> bit a k))" if "a \<noteq> 0"
    using builtin_ctz_correct [OF that] by (simp add: ctz32_def)
  show "ok (clz64 b) (\<lambda>n. n < 64 \<and> bit b (63 - n) \<and> (\<forall>k. 63 - n < k \<longrightarrow> \<not> bit b k))" if "b \<noteq> 0"
    using builtin_clz_correct [OF that] by (simp add: clz64_def)
  show "ok (ctz64 b) (\<lambda>n. n < 64 \<and> bit b n \<and> (\<forall>k < n. \<not> bit b k))" if "b \<noteq> 0"
    using builtin_ctz_correct [OF that] by (simp add: ctz64_def)
qed (simp_all add: clz32_def clz64_def ctz32_def ctz64_def builtin_clz_def builtin_ctz_def)

theorem clz_ctz_positions_witness: "clz32 0 = None \<and> ok (ctz32 8) (\<lambda>n. bit (8 :: u32) n)"
proof
  show "clz32 0 = None" using clz_ctz_positions [of 0 0] by blast
  have "ok (ctz32 8) (\<lambda>n. n < 32 \<and> bit (8 :: u32) n \<and> (\<forall>k < n. \<not> bit (8 :: u32) k))"
    using clz_ctz_positions [of 8 0] by simp
  then show "ok (ctz32 8) (\<lambda>n. bit (8 :: u32) n)" by (rule ok_mono) blast
qed

end
