(* ===== verification/Dynbuf.thy ===== *)
theory Dynbuf
  imports Cutils
begin

text \<open>
  The growable byte buffer of src/quickjs/cutils.c (struct DynBuf) and the insertion helper
  \<open>dbuf_insert\<close> of libregexp.c. The allocator is not part of the repository (the default is
  \<open>io_byte_memory_reallocate\<close>): it is a field of the buffer, as in the C struct, and what the code
  relies on is the predicate \<open>realloc_contract\<close>: a block that is returned has the requested size
  and keeps the old contents. It may refuse any request. \<open>opaque\<close> is the state of the memory the
  allocator works on.
\<close>

type_synonym 'm realloc_func = "'m \<Rightarrow> u8 list option \<Rightarrow> size_t \<Rightarrow> 'm \<times> u8 list option"

record 'm DynBuf =
  buf :: "u8 list option"
  dsize :: size_t
  allocated_size :: size_t
  derror :: bool
  realloc_func :: "'m realloc_func option"
  opaque :: 'm

text \<open>The bytes behind \<open>buf\<close>; NULL has none.\<close>

definition mem :: "'m DynBuf \<Rightarrow> u8 list" where
  "mem s = (case buf s of None \<Rightarrow> [] | Some b \<Rightarrow> b)"

definition realloc_contract :: "'m realloc_func \<Rightarrow> bool" where
  "realloc_contract f \<longleftrightarrow> (\<forall>m p n b. snd (f m p n) = Some b \<longrightarrow>
     length b = unat n \<and>
     (\<forall>i. i < unat n \<and> i < length (case p of None \<Rightarrow> [] | Some q \<Rightarrow> q) \<longrightarrow> b ! i = the p ! i))"

definition dbuf_init2 :: "'m realloc_func \<Rightarrow> 'm \<Rightarrow> 'm realloc_func option \<Rightarrow> 'm DynBuf" where
  "dbuf_init2 dbuf_default_realloc opq f =
     \<lparr>buf = None, dsize = 0, allocated_size = 0, derror = False,
      realloc_func = Some (case f of None \<Rightarrow> dbuf_default_realloc | Some g \<Rightarrow> g), opaque = opq\<rparr>"

definition dbuf_init :: "'m realloc_func \<Rightarrow> 'm \<Rightarrow> 'm DynBuf" where
  "dbuf_init dbuf_default_realloc null = dbuf_init2 dbuf_default_realloc null None"

definition dbuf_realloc :: "'m DynBuf \<Rightarrow> size_t \<Rightarrow> (int \<times> 'm DynBuf) option" where
  "dbuf_realloc s new_size =
     (if new_size > allocated_size s then
        if derror s then Some (-1, s)
        else do {
          let sz = allocated_size s * 3 div 2;
          let new_size = (if sz > new_size then sz else new_size);
          f \<leftarrow> realloc_func s;
          case f (opaque s) (buf s) new_size of
            (m, None) \<Rightarrow> Some (-1, s\<lparr>opaque := m, derror := True\<rparr>)
          | (m, Some new_buf) \<Rightarrow>
              Some (0, s\<lparr>opaque := m, buf := Some new_buf, allocated_size := new_size\<rparr>) }
      else Some (0, s))"

text \<open>\<open>memcpy\<close> into the buffer at an offset.\<close>

definition buf_store :: "'m DynBuf \<Rightarrow> nat \<Rightarrow> u8 list \<Rightarrow> 'm DynBuf option" where
  "buf_store s at data =
     (case buf s of
        None \<Rightarrow> if data = [] then Some s else None
      | Some b \<Rightarrow> do { b \<leftarrow> blit b at data; Some (s\<lparr>buf := Some b\<rparr>) })"

definition dbuf_write :: "'m DynBuf \<Rightarrow> size_t \<Rightarrow> u8 list \<Rightarrow> (int \<times> 'm DynBuf) option" where
  "dbuf_write s offset data = do {
     let end = offset + word_of_nat (length data);
     (r, s) \<leftarrow> dbuf_realloc s end;
     if r \<noteq> 0 then Some (-1, s)
     else do {
       s \<leftarrow> buf_store s (unat offset) data;
       Some (0, if end > dsize s then s\<lparr>dsize := end\<rparr> else s) } }"

definition dbuf_put :: "'m DynBuf \<Rightarrow> u8 list \<Rightarrow> (int \<times> 'm DynBuf) option" where
  "dbuf_put s data = do {
     let len = word_of_nat (length data);
     (r, s) \<leftarrow> (if dsize s + len > allocated_size s then dbuf_realloc s (dsize s + len) else Some (0, s));
     if r \<noteq> 0 then Some (-1, s)
     else do {
       s \<leftarrow> buf_store s (unat (dsize s)) data;
       Some (0, s\<lparr>dsize := dsize s + len\<rparr>) } }"

definition dbuf_put_self :: "'m DynBuf \<Rightarrow> size_t \<Rightarrow> size_t \<Rightarrow> (int \<times> 'm DynBuf) option" where
  "dbuf_put_self s offset len = do {
     (r, s) \<leftarrow> (if dsize s + len > allocated_size s then dbuf_realloc s (dsize s + len) else Some (0, s));
     if r \<noteq> 0 then Some (-1, s)
     else do {
       data \<leftarrow> slice (mem s) (unat offset) (unat len);
       s \<leftarrow> buf_store s (unat (dsize s)) data;
       Some (0, s\<lparr>dsize := dsize s + len\<rparr>) } }"

definition dbuf_putc :: "'m DynBuf \<Rightarrow> u8 \<Rightarrow> (int \<times> 'm DynBuf) option" where
  "dbuf_putc s c = dbuf_put s [c]"

definition dbuf_putstr :: "'m DynBuf \<Rightarrow> u8 list \<Rightarrow> (int \<times> 'm DynBuf) option" where
  "dbuf_putstr s str = do { t \<leftarrow> cstr str; dbuf_put s t }"

definition dbuf_put_u16 :: "'m DynBuf \<Rightarrow> u16 \<Rightarrow> (int \<times> 'm DynBuf) option" where
  "dbuf_put_u16 s val = dbuf_put s (to_bytes 2 val)"

definition dbuf_put_u32 :: "'m DynBuf \<Rightarrow> u32 \<Rightarrow> (int \<times> 'm DynBuf) option" where
  "dbuf_put_u32 s val = dbuf_put s (to_bytes 4 val)"

definition dbuf_put_u64 :: "'m DynBuf \<Rightarrow> u64 \<Rightarrow> (int \<times> 'm DynBuf) option" where
  "dbuf_put_u64 s val = dbuf_put s (to_bytes 8 val)"

text \<open>
  \<open>dbuf_printf\<close>, for the text \<open>out\<close> the format produces (\<open>stbsp_vsnprintf\<close> is not part of the
  repository): up to 127 characters go through a local buffer; a longer text is formatted straight
  into the buffer after room for it and its terminator has been made, and \<open>vsnprintf\<close> writes at
  most the free space, terminator included.
\<close>

definition dbuf_printf :: "'m DynBuf \<Rightarrow> u8 list \<Rightarrow> (int \<times> 'm DynBuf) option" where
  "dbuf_printf s out = do {
     let len = length out;
     if len < 128 then dbuf_put s out
     else do {
       (r, s) \<leftarrow> dbuf_realloc s (dsize s + word_of_nat len + 1);
       if r \<noteq> 0 then Some (-1, s)
       else do {
         let room = unat (allocated_size s - dsize s);
         s \<leftarrow> buf_store s (unat (dsize s)) (if room = 0 then [] else take (room - 1) out @ [0]);
         Some (0, s\<lparr>dsize := dsize s + word_of_nat len\<rparr>) } } }"

text \<open>
  \<open>dbuf_free\<close> gives the block back and clears the struct: every size is 0, no block and no
  allocator is left, so nothing can be allocated through the buffer any more.
\<close>

definition dbuf_free :: "'m DynBuf \<Rightarrow> 'm DynBuf option" where
  "dbuf_free s = do {
     m \<leftarrow> (case buf s of
            None \<Rightarrow> Some (opaque s)
          | Some b \<Rightarrow> do { f \<leftarrow> realloc_func s; Some (fst (f (opaque s) (Some b) 0)) });
     Some \<lparr>buf = None, dsize = 0, allocated_size = 0, derror = False,
           realloc_func = None, opaque = m\<rparr> }"

definition dbuf_error :: "'m DynBuf \<Rightarrow> bool" where
  "dbuf_error s = derror s"

text \<open>
  \<open>dbuf_insert\<close> of libregexp.c: the result of \<open>dbuf_realloc\<close> is not tested, the bytes from \<open>pos\<close>
  on are moved up by \<open>len\<close>.
\<close>

definition dbuf_insert :: "'m DynBuf \<Rightarrow> nat \<Rightarrow> nat \<Rightarrow> 'm DynBuf option" where
  "dbuf_insert s pos len = do {
     (r, s) \<leftarrow> dbuf_realloc s (dsize s + word_of_nat len);
     data \<leftarrow> slice (mem s) pos (unat (dsize s) - pos);
     s \<leftarrow> buf_store s (pos + len) data;
     Some (s\<lparr>dsize := dsize s + word_of_nat len\<rparr>) }"

section \<open>The buffer as a byte sequence\<close>

definition content :: "'m DynBuf \<Rightarrow> u8 list" where
  "content s = take (unat (dsize s)) (mem s)"

definition dbuf_wf :: "'m DynBuf \<Rightarrow> bool" where
  "dbuf_wf s \<longleftrightarrow>
     length (mem s) = unat (allocated_size s) \<and> dsize s \<le> allocated_size s \<and>
     (case realloc_func s of None \<Rightarrow> False | Some f \<Rightarrow> realloc_contract f)"

lemma length_content: "dbuf_wf s \<Longrightarrow> length (content s) = unat (dsize s)"
  by (simp add: content_def dbuf_wf_def word_le_nat_alt)

text \<open>Growing keeps the contents; a refused request sets the error flag and changes nothing else.\<close>

lemma dbuf_realloc_ok:
  assumes wf: "dbuf_wf s"
  shows "ok (dbuf_realloc s n) (\<lambda>(r, s').
     dbuf_wf s' \<and> content s' = content s \<and> dsize s' = dsize s \<and> (derror s \<longrightarrow> derror s') \<and>
     (r = 0 \<and> n \<le> allocated_size s' \<and> allocated_size s \<le> allocated_size s' \<and> derror s' = derror s
        \<and> take (unat (allocated_size s)) (mem s') = mem s
      \<or> r = -1 \<and> derror s' \<and> allocated_size s < n))"
proof (cases "n > allocated_size s \<and> \<not> derror s")
  case False
  then show ?thesis using wf by (auto simp: dbuf_realloc_def dbuf_wf_def)
next
  case True
  define k where "k = (if allocated_size s * 3 div 2 > n then allocated_size s * 3 div 2 else n)"
  have k: "n \<le> k" "allocated_size s < k" using True by (auto simp: k_def)
  obtain f where f: "realloc_func s = Some f" "realloc_contract f"
    using wf by (auto simp: dbuf_wf_def split: option.splits)
  obtain m b where fb: "f (opaque s) (buf s) k = (m, b)" by (cases "f (opaque s) (buf s) k")
  have eq: "dbuf_realloc s n = (case b of
       None \<Rightarrow> Some (-1, s\<lparr>opaque := m, derror := True\<rparr>)
     | Some nb \<Rightarrow> Some (0, s\<lparr>opaque := m, buf := Some nb, allocated_size := k\<rparr>))"
    using True fb f(1) by (auto simp: dbuf_realloc_def Let_def k_def [symmetric] split: option.split)
  show ?thesis
  proof (cases b)
    case None
    then show ?thesis using eq wf True by (auto simp: dbuf_wf_def content_def mem_def)
  next
    case (Some nb)
    have nb: "length nb = unat k" "\<And>i. i < unat k \<Longrightarrow> i < length (mem s) \<Longrightarrow> nb ! i = mem s ! i"
      using f(2) fb Some unfolding realloc_contract_def
      by (metis sndI, metis (no_types, lifting) mem_def option.case_eq_if option.sel sndI list.size(3) not_less_zero)
    have len: "length (mem s) = unat (allocated_size s)" "unat (allocated_size s) < unat k"
      "unat (dsize s) \<le> unat (allocated_size s)"
      using wf k(2) by (auto simp: dbuf_wf_def word_less_nat_alt word_le_nat_alt)
    have "take (unat (allocated_size s)) nb = mem s"
      using nb len by (auto intro!: nth_equalityI)
    moreover then have "take (unat (dsize s)) nb = content s"
      using len(3) by (metis content_def min.absorb1 take_take)
    ultimately show ?thesis
      using eq Some wf k nb(1) len by (auto simp: dbuf_wf_def content_def mem_def word_le_nat_alt f)
  qed
qed

lemma buf_store_ok:
  "at + length data \<le> length (mem s) \<Longrightarrow>
     ok (buf_store s at data) (\<lambda>s'. mem s' = take at (mem s) @ data @ drop (at + length data) (mem s)
        \<and> dsize s' = dsize s \<and> allocated_size s' = allocated_size s \<and> derror s' = derror s
        \<and> realloc_func s' = realloc_func s)"
  by (cases "buf s") (auto simp: buf_store_def mem_def blit_def)

text \<open>The outcome of an operation that appends \<open>data\<close>: it succeeds, or it fails and sets the error flag.\<close>

definition appends :: "'m DynBuf \<Rightarrow> u8 list \<Rightarrow> int \<times> 'm DynBuf \<Rightarrow> bool" where
  "appends s data rs \<longleftrightarrow> dbuf_wf (snd rs) \<and>
     (fst rs = 0 \<and> content (snd rs) = content s @ data \<and> derror (snd rs) = derror s
      \<or> fst rs = -1 \<and> content (snd rs) = content s \<and> derror (snd rs))"

lemma unat_add_room:
  fixes a :: "'a::len word"
  assumes "unat a + n < 2 ^ LENGTH('a)"
  shows "unat (a + word_of_nat n) = unat a + n"
proof -
  have "n < 2 ^ LENGTH('a)" using assms by linarith
  then show ?thesis using assms
    by (simp add: unat_word_ariths unat_of_nat take_bit_eq_mod)
qed

text \<open>Making room for \<open>n\<close> more bytes, the first step of every append.\<close>

lemma make_room_ok:
  assumes wf: "dbuf_wf s" and fits: "unat (dsize s) + n < 2 ^ 32"
  shows "ok (if dsize s + word_of_nat n > allocated_size s
             then dbuf_realloc s (dsize s + word_of_nat n) else Some (0, s))
     (\<lambda>(r, s'). dbuf_wf s' \<and> content s' = content s \<and> dsize s' = dsize s \<and>
        (r = 0 \<and> unat (dsize s) + n \<le> unat (allocated_size s') \<and> derror s' = derror s \<or> r = -1 \<and> derror s'))"
proof -
  have sz: "unat (dsize s + word_of_nat n) = unat (dsize s) + n"
    using fits by (simp add: unat_add_room)
  show ?thesis
  proof (cases "dsize s + word_of_nat n > allocated_size s")
    case True
    show ?thesis
      using True sz dbuf_realloc_ok [OF wf, of "dsize s + word_of_nat n"]
      by (auto elim!: ok_mono simp: word_le_nat_alt)
  next
    case False
    then show ?thesis using wf sz by (auto simp: word_less_nat_alt)
  qed
qed

lemma store_at_end:
  assumes wf: "dbuf_wf s" and room: "unat (dsize s) + length data \<le> unat (allocated_size s)"
    and fits: "unat (dsize s) + length data < 2 ^ 32"
  shows "ok (buf_store s (unat (dsize s)) data)
     (\<lambda>s'. appends s data (0, s'\<lparr>dsize := dsize s' + word_of_nat (length data)\<rparr>))"
proof (rule ok_mono)
  have len: "length (mem s) = unat (allocated_size s)" using wf by (simp add: dbuf_wf_def)
  show "ok (buf_store s (unat (dsize s)) data) (\<lambda>s'. mem s' = take (unat (dsize s)) (mem s) @ data
        @ drop (unat (dsize s) + length data) (mem s)
        \<and> dsize s' = dsize s \<and> allocated_size s' = allocated_size s \<and> derror s' = derror s
        \<and> realloc_func s' = realloc_func s)"
    by (rule buf_store_ok) (use room len in simp)
  fix s'
  assume s': "mem s' = take (unat (dsize s)) (mem s) @ data
        @ drop (unat (dsize s) + length data) (mem s)
        \<and> dsize s' = dsize s \<and> allocated_size s' = allocated_size s \<and> derror s' = derror s
        \<and> realloc_func s' = realloc_func s"
  have sz: "unat (dsize s + word_of_nat (length data)) = unat (dsize s) + length data"
    using fits by (simp add: unat_add_room)
  have m: "mem (s'\<lparr>dsize := x\<rparr>) = mem s'" for x by (simp add: mem_def)
  show "appends s data (0, s'\<lparr>dsize := dsize s' + word_of_nat (length data)\<rparr>)"
    using s' sz len room wf
    by (auto simp: appends_def dbuf_wf_def content_def m word_le_nat_alt)
qed

lemma appends_trans:
  "dbuf_wf s1 \<Longrightarrow> content s1 = content s \<Longrightarrow> derror s1 = derror s \<Longrightarrow> appends s1 data rs \<Longrightarrow> appends s data rs"
  by (auto simp: appends_def)

lemma dbuf_put_ok:
  assumes wf: "dbuf_wf s" and fits: "unat (dsize s) + length data < 2 ^ 32"
  shows "ok (dbuf_put s data) (appends s data)"
proof -
  obtain r s1 where mr: "(if dsize s + word_of_nat (length data) > allocated_size s
             then dbuf_realloc s (dsize s + word_of_nat (length data)) else Some (0, s)) = Some (r, s1)"
    and s1: "dbuf_wf s1" "content s1 = content s" "dsize s1 = dsize s"
    "r = 0 \<and> unat (dsize s) + length data \<le> unat (allocated_size s1) \<and> derror s1 = derror s \<or> r = -1 \<and> derror s1"
    using make_room_ok [OF wf fits] by (auto simp: ok_conv)
  show ?thesis
  proof (cases "r = 0")
    case True
    then have "ok (buf_store s1 (unat (dsize s1)) data)
       (\<lambda>s'. appends s1 data (0, s'\<lparr>dsize := dsize s' + word_of_nat (length data)\<rparr>))"
      using s1 fits by (intro store_at_end) auto
    then show ?thesis
      using True s1 mr by (auto simp: dbuf_put_def Let_def elim!: ok_mono intro: appends_trans)
  next
    case False
    then show ?thesis using s1 mr by (auto simp: dbuf_put_def Let_def appends_def)
  qed
qed

lemma dbuf_put_self_ok:
  assumes wf: "dbuf_wf s" and src: "unat off + unat len \<le> unat (dsize s)"
    and fits: "unat (dsize s) + unat len < 2 ^ 32"
  shows "ok (dbuf_put_self s off len) (appends s (take (unat len) (drop (unat off) (content s))))"
proof -
  have wl: "word_of_nat (unat len) = len" by simp
  obtain r s1 where mr: "(if dsize s + len > allocated_size s
             then dbuf_realloc s (dsize s + len) else Some (0, s)) = Some (r, s1)"
    and s1: "dbuf_wf s1" "content s1 = content s" "dsize s1 = dsize s"
    "r = 0 \<and> unat (dsize s) + unat len \<le> unat (allocated_size s1) \<and> derror s1 = derror s \<or> r = -1 \<and> derror s1"
    using make_room_ok [OF wf fits] unfolding wl by (auto simp: ok_conv)
  define data where "data = take (unat len) (drop (unat off) (content s))"
  have data: "slice (mem s1) (unat off) (unat len) = Some data" "length data = unat len"
  proof -
    have "unat (dsize s) \<le> length (mem s1)"
      using s1(1,3) by (auto simp: dbuf_wf_def word_le_nat_alt)
    moreover have "content s = take (unat (dsize s)) (mem s1)" using s1(2,3) by (simp add: content_def)
    ultimately show "slice (mem s1) (unat off) (unat len) = Some data" "length data = unat len"
      using src by (auto simp: slice_def data_def drop_take min_def)
  qed
  show ?thesis
  proof (cases "r = 0")
    case True
    then have "ok (buf_store s1 (unat (dsize s1)) data)
       (\<lambda>s'. appends s1 data (0, s'\<lparr>dsize := dsize s' + word_of_nat (length data)\<rparr>))"
      using s1 fits data(2) by (intro store_at_end) auto
    then show ?thesis
      using True s1 mr data
      by (auto simp: dbuf_put_self_def data_def [symmetric] elim!: ok_mono intro: appends_trans)
  next
    case False
    then show ?thesis using s1 mr by (auto simp: dbuf_put_self_def appends_def)
  qed
qed

lemma dbuf_write_ok:
  assumes wf: "dbuf_wf s" and off: "unat off \<le> unat (dsize s)" and fits: "unat off + length data < 2 ^ 32"
  shows "ok (dbuf_write s off data) (\<lambda>(r, s'). dbuf_wf s' \<and>
     (r = 0 \<and> derror s' = derror s \<and>
        content s' = take (unat off) (content s) @ data @ drop (unat off + length data) (content s)
      \<or> r = -1 \<and> content s' = content s \<and> derror s'))"
proof -
  let ?e = "off + word_of_nat (length data)"
  have sz: "unat ?e = unat off + length data" using fits by (simp add: unat_add_room)
  obtain r s1 where mr: "dbuf_realloc s ?e = Some (r, s1)"
    and s1: "dbuf_wf s1" "content s1 = content s" "dsize s1 = dsize s"
    "r = 0 \<and> unat off + length data \<le> unat (allocated_size s1) \<and> derror s1 = derror s \<or> r = -1 \<and> derror s1"
    using dbuf_realloc_ok [OF wf, of ?e] sz by (auto simp: ok_conv word_le_nat_alt)
  show ?thesis
  proof (cases "r = 0")
    case False
    then show ?thesis using s1 mr by (auto simp: dbuf_write_def Let_def)
  next
    case True
    have len: "length (mem s1) = unat (allocated_size s1)" "unat (dsize s1) \<le> length (mem s1)"
      using s1(1) by (auto simp: dbuf_wf_def word_le_nat_alt)
    then obtain s2 where s2: "buf_store s1 (unat off) data = Some s2"
      "mem s2 = take (unat off) (mem s1) @ data @ drop (unat off + length data) (mem s1)"
      "dsize s2 = dsize s1" "allocated_size s2 = allocated_size s1" "derror s2 = derror s1"
      "realloc_func s2 = realloc_func s1"
      using True s1(4) buf_store_ok [of "unat off" data s1] by (auto simp: ok_conv)
    have m: "mem (s2\<lparr>dsize := x\<rparr>) = mem s2" for x by (simp add: mem_def)
    have c: "content s = take (unat (dsize s)) (mem s1)" using s1(2,3) by (simp add: content_def)
    show ?thesis
      using True mr s1 s2 sz len off
      by (auto simp: dbuf_write_def Let_def dbuf_wf_def content_def [of s2] content_def [of "s2\<lparr>dsize := x\<rparr>" for x]
          c m word_le_nat_alt word_less_nat_alt min_def drop_take)
  qed
qed

lemma dbuf_printf_ok:
  assumes wf: "dbuf_wf s" and fits: "unat (dsize s) + length out + 1 < 2 ^ 32"
  shows "ok (dbuf_printf s out) (appends s out)"
proof (cases "length out < 128")
  case True
  then show ?thesis using dbuf_put_ok [OF wf, of out] fits by (simp add: dbuf_printf_def Let_def)
next
  case False
  let ?n = "dsize s + word_of_nat (length out) + 1"
  have n: "?n = dsize s + word_of_nat (length out + 1)" by simp
  have sz: "unat ?n = unat (dsize s) + (length out + 1)"
    using fits unfolding n by (intro unat_add_room) simp
  obtain r s1 where mr: "dbuf_realloc s ?n = Some (r, s1)"
    and s1: "dbuf_wf s1" "content s1 = content s" "dsize s1 = dsize s"
    "r = 0 \<and> unat (dsize s) + length out + 1 \<le> unat (allocated_size s1) \<and> derror s1 = derror s \<or> r = -1 \<and> derror s1"
    using dbuf_realloc_ok [OF wf, of ?n] sz by (auto simp: ok_conv word_le_nat_alt)
  show ?thesis
  proof (cases "r = 0")
    case r: False
    then show ?thesis using s1 mr False by (auto simp: dbuf_printf_def Let_def appends_def)
  next
    case True
    let ?room = "unat (allocated_size s1 - dsize s1)"
    have room: "?room = unat (allocated_size s1) - unat (dsize s1)"
      using s1(1) by (simp add: dbuf_wf_def unat_sub)
    have len: "length (mem s1) = unat (allocated_size s1)" using s1(1) by (simp add: dbuf_wf_def)
    have out: "take (?room - 1) out = out" "?room \<noteq> 0"
      using True s1(3,4) unfolding room by auto
    obtain s2 where s2: "buf_store s1 (unat (dsize s1)) (out @ [0]) = Some s2"
      "mem s2 = take (unat (dsize s1)) (mem s1) @ (out @ [0]) @ drop (unat (dsize s1) + length (out @ [0])) (mem s1)"
      "dsize s2 = dsize s1" "allocated_size s2 = allocated_size s1" "derror s2 = derror s1"
      "realloc_func s2 = realloc_func s1"
      using True s1(3,4) len buf_store_ok [of "unat (dsize s1)" "out @ [0]" s1] by (auto simp: ok_conv)
    have m: "mem (s2\<lparr>dsize := x\<rparr>) = mem s2" for x by (simp add: mem_def)
    have u: "unat (dsize s + word_of_nat (length out)) = unat (dsize s) + length out"
      using fits by (simp add: unat_add_room)
    have c: "take (unat (dsize s)) (mem s1) = content s" using s1(2) by (simp add: content_def [of s1] s1(3))
    have "appends s out (0, s2\<lparr>dsize := dsize s2 + word_of_nat (length out)\<rparr>)"
      using True s1 s2 u len length_content [OF wf]
      by (auto simp: appends_def dbuf_wf_def content_def [of "s2\<lparr>dsize := x\<rparr>" for x] m c word_le_nat_alt)
    then show ?thesis
      using True False mr out s2(1) by (simp add: dbuf_printf_def Let_def)
  qed
qed

lemma dbuf_insert_ok:
  assumes wf: "dbuf_wf s" and pos: "pos \<le> unat (dsize s)" and fits: "unat (dsize s) + len < 2 ^ 32"
    and room: "ok (dbuf_realloc s (dsize s + word_of_nat len)) (\<lambda>(r, _). r = 0)"
  shows "ok (dbuf_insert s pos len) (\<lambda>s'. dbuf_wf s' \<and> derror s' = derror s \<and>
     (\<exists>gap. length gap = len \<and> content s' = take pos (content s) @ gap @ drop pos (content s)))"
proof -
  let ?n = "dsize s + word_of_nat len"
  have sz: "unat ?n = unat (dsize s) + len" using fits by (simp add: unat_add_room)
  obtain s1 where mr: "dbuf_realloc s ?n = Some (0, s1)"
    and s1: "dbuf_wf s1" "content s1 = content s" "dsize s1 = dsize s"
    "unat (dsize s) + len \<le> unat (allocated_size s1)" "derror s1 = derror s"
    using dbuf_realloc_ok [OF wf, of ?n] room sz by (auto simp: ok_conv word_le_nat_alt)
  let ?c = "content s"
  have len: "length (mem s1) = unat (allocated_size s1)" "length ?c = unat (dsize s)"
    using s1(1) length_content [OF wf] by (auto simp: dbuf_wf_def)
  have c: "?c = take (unat (dsize s)) (mem s1)" using s1(2,3) by (simp add: content_def)
  have sl: "slice (mem s1) pos (unat (dsize s) - pos) = Some (drop pos ?c)"
    using pos s1(4) len(1) by (simp add: slice_def c drop_take)
  obtain s2 where s2: "buf_store s1 (pos + len) (drop pos ?c) = Some s2"
    "mem s2 = take (pos + len) (mem s1) @ drop pos ?c @ drop (pos + len + length (drop pos ?c)) (mem s1)"
    "dsize s2 = dsize s1" "allocated_size s2 = allocated_size s1" "derror s2 = derror s1"
    "realloc_func s2 = realloc_func s1"
    using s1(4) len pos buf_store_ok [of "pos + len" "drop pos ?c" s1] by (auto simp: ok_conv)
  have m: "mem (s2\<lparr>dsize := x\<rparr>) = mem s2" for x by (simp add: mem_def)
  define gap where "gap = take len (drop pos (mem s1))"
  have t: "take (pos + len) (mem s1) = take pos ?c @ gap"
    using pos by (simp add: gap_def c min_def take_add)
  have g: "length gap = len" using pos s1(4) len(1) by (simp add: gap_def)
  have "content (s2\<lparr>dsize := ?n\<rparr>) = take pos ?c @ gap @ drop pos ?c"
    using s2(2) t g sz len(2) pos by (simp add: content_def m)
  moreover have "dbuf_wf (s2\<lparr>dsize := ?n\<rparr>)"
    using s1 s2 sz len pos by (auto simp: dbuf_wf_def m word_le_nat_alt)
  ultimately show ?thesis
    using mr s1(3,5) sl s2(1,3,5) g by (auto simp: dbuf_insert_def)
qed

lemma dbuf_insert_refused:
  assumes wf: "dbuf_wf s" and pos: "pos < unat (dsize s)" and fits: "unat (dsize s) + len < 2 ^ 32"
    and refused: "ok (dbuf_realloc s (dsize s + word_of_nat len)) (\<lambda>(r, _). r \<noteq> 0)"
  shows "dbuf_insert s pos len = None"
proof -
  let ?n = "dsize s + word_of_nat len"
  have sz: "unat ?n = unat (dsize s) + len" using fits by (simp add: unat_add_room)
  obtain r s1 where r: "dbuf_realloc s ?n = Some (r, s1)" "r \<noteq> 0" using refused by (auto simp: ok_conv)
  then have s1: "mem s1 = mem s" "dsize s1 = dsize s" "allocated_size s < ?n" "buf s1 = buf s"
    using wf by (auto simp: dbuf_realloc_def dbuf_wf_def mem_def Let_def split: if_splits option.splits prod.splits)
  have len: "length (mem s) = unat (allocated_size s)" "unat (allocated_size s) < unat (dsize s) + len"
    using wf s1(3) sz by (auto simp: dbuf_wf_def word_less_nat_alt)
  have "buf_store s1 (pos + len) data = None" if "length data = unat (dsize s) - pos" for data
    using that pos len s1 by (auto simp: buf_store_def blit_def mem_def split: option.splits)
  then show ?thesis
    using r(1) s1 pos by (auto simp: dbuf_insert_def slice_def)
qed

section \<open>The buffer as a sink\<close>

text \<open>
  The clients of the buffer (the regular expression compiler, the Unicode normaliser) emit many
  pieces, ignore the result of each append and test the error flag once at the end. The locale states
  what they rely on; \<open>put_seq\<close> is that pattern of use.
\<close>

fun put_seq :: "('s \<Rightarrow> u8 list \<Rightarrow> (int \<times> 's) option) \<Rightarrow> 's \<Rightarrow> u8 list list \<Rightarrow> 's option" where
  "put_seq put s [] = Some s"
| "put_seq put s (d # ds) = do { (r, s) \<leftarrow> put s d; put_seq put s ds }"

locale byte_sink =
  fixes put :: "'s \<Rightarrow> u8 list \<Rightarrow> (int \<times> 's) option"
    and bytes :: "'s \<Rightarrow> u8 list"
    and failed :: "'s \<Rightarrow> bool"
    and inv :: "'s \<Rightarrow> bool"
    and limit :: nat
  assumes put_ok: "inv s \<Longrightarrow> length (bytes s) + length d < limit \<Longrightarrow>
     ok (put s d) (\<lambda>(r, s'). inv s' \<and>
       (r = 0 \<and> bytes s' = bytes s @ d \<and> failed s' = failed s \<or> r = -1 \<and> bytes s' = bytes s \<and> failed s'))"
begin

lemma put_seq_ok:
  "inv s \<Longrightarrow> length (bytes s) + length (concat ds) < limit \<Longrightarrow>
     ok (put_seq put s ds) (\<lambda>s'. inv s' \<and> (failed s \<longrightarrow> failed s') \<and>
        (\<not> failed s' \<longrightarrow> bytes s' = bytes s @ concat ds) \<and>
        length (bytes s') \<le> length (bytes s) + length (concat ds))"
proof (induction ds arbitrary: s)
  case Nil
  then show ?case by simp
next
  case (Cons d ds)
  obtain r s1 where s1: "put s d = Some (r, s1)" "inv s1"
    "r = 0 \<and> bytes s1 = bytes s @ d \<and> failed s1 = failed s \<or> r = -1 \<and> bytes s1 = bytes s \<and> failed s1"
    using put_ok [OF Cons.prems(1), of d] Cons.prems(2) by (auto simp: ok_conv)
  have "length (bytes s1) + length (concat ds) < limit" using s1(3) Cons.prems(2) by auto
  from Cons.IH [OF s1(2) this] show ?case
    using s1 by (auto elim!: ok_mono)
qed

end

interpretation dbuf: byte_sink dbuf_put content derror dbuf_wf "2 ^ 32"
proof (unfold_locales, goal_cases)
  case (1 s d)
  then show ?case
    using dbuf_put_ok [of s d] by (auto elim!: ok_mono simp: length_content appends_def)
qed

lemma dbuf_init2_wf:
  "realloc_contract (case f of None \<Rightarrow> dflt | Some g \<Rightarrow> g) \<Longrightarrow>
     dbuf_wf (dbuf_init2 dflt opq f) \<and> content (dbuf_init2 dflt opq f) = [] \<and> \<not> derror (dbuf_init2 dflt opq f)"
  by (simp add: dbuf_init2_def dbuf_wf_def content_def mem_def)

section \<open>Properties\<close>

text \<open>
  An allocator for the witnesses: it grants up to \<open>m\<close> bytes, fills new space with zeros and refuses
  larger requests.
\<close>

definition sample_realloc :: "nat realloc_func" where
  "sample_realloc m p n =
     (m, if unat n \<le> m
         then Some (take (unat n) ((case p of None \<Rightarrow> [] | Some q \<Rightarrow> q) @ replicate (unat n) 0))
         else None)"

lemma sample_realloc_contract: "realloc_contract sample_realloc"
  by (auto simp: realloc_contract_def sample_realloc_def nth_append split: option.splits)



text \<open>
  C31. dbuf_write at an offset inside the buffer replaces the bytes there and extends the buffer when
  they reach past its end; dbuf_put_self appends a copy of a part of the buffer itself, also when the
  block has to move; dbuf_printf appends the formatted text on both of its paths. A refused allocation
  gives -1, sets the error flag and leaves the contents alone.
\<close>

theorem dbuf_write_self_printf:
  assumes "dbuf_wf s" and "unat off \<le> unat (dsize s)" and "unat off + length data < 2 ^ 32"
    and "unat off2 + unat len \<le> unat (dsize s)" and "unat (dsize s) + unat len < 2 ^ 32"
    and "unat (dsize s) + length out + 1 < 2 ^ 32"
  shows "ok (dbuf_write s off data) (\<lambda>(r, s'). dbuf_wf s' \<and>
       (r = 0 \<and> content s' = take (unat off) (content s) @ data @ drop (unat off + length data) (content s)
        \<or> r = -1 \<and> content s' = content s \<and> derror s'))
    \<and> ok (dbuf_put_self s off2 len) (\<lambda>(r, s'). dbuf_wf s' \<and>
       (r = 0 \<and> content s' = content s @ take (unat len) (drop (unat off2) (content s))
        \<or> r = -1 \<and> content s' = content s \<and> derror s'))
    \<and> ok (dbuf_printf s out) (\<lambda>(r, s'). dbuf_wf s' \<and>
       (r = 0 \<and> content s' = content s @ out \<or> r = -1 \<and> content s' = content s \<and> derror s'))"
  using dbuf_write_ok [OF assms(1-3)] dbuf_put_self_ok [OF assms(1,4,5)] dbuf_printf_ok [OF assms(1,6)]
  by (intro conjI; (elim ok_mono)?; auto simp: appends_def)

theorem dbuf_write_self_printf_witness:
  "ok (dbuf_write (dbuf_init2 sample_realloc 8 None) 0 [1, 2]) (\<lambda>(r, s').
     r = 0 \<and> content s' = [1, 2] \<or> r = -1 \<and> content s' = [] \<and> derror s')"
proof -
  let ?s = "dbuf_init2 sample_realloc 8 None"
  have s: "dbuf_wf ?s" "content ?s = []" "dsize ?s = 0"
    using dbuf_init2_wf [where f = None and dflt = sample_realloc and opq = 8] sample_realloc_contract
    by (auto simp: dbuf_init2_def)
  show ?thesis
    using dbuf_write_self_printf [OF s(1), of 0 "[1, 2]" 0 0 "[]"] s by (auto elim!: ok_mono)
qed

text \<open>
  C32. dbuf_insert opens a gap of len bytes at pos and keeps every byte before and after it - but only
  when the allocation succeeds: the result of dbuf_realloc is not tested, and when it is refused the
  memmove that follows writes past the end of the block.
\<close>

theorem dbuf_insert_needs_memory:
  assumes "dbuf_wf s" and "pos < unat (dsize s)" and "unat (dsize s) + len < 2 ^ 32"
    and "dbuf_realloc s (dsize s + word_of_nat len) = Some (r, s1)"
  shows "if r = 0
     then ok (dbuf_insert s pos len) (\<lambda>s'. dbuf_wf s' \<and>
       (\<exists>gap. length gap = len \<and> content s' = take pos (content s) @ gap @ drop pos (content s)))
     else dbuf_insert s pos len = None"
  using dbuf_insert_ok [OF assms(1) less_imp_le [OF assms(2)] assms(3)]
    dbuf_insert_refused [OF assms(1,2,3)] assms(4)
  by (auto elim!: ok_mono)

definition sample_buf :: "nat DynBuf" where
  "sample_buf = \<lparr>buf = Some [1, 2], dsize = 2, allocated_size = 2, derror = False,
                 realloc_func = Some sample_realloc, opaque = 4\<rparr>"

theorem dbuf_insert_needs_memory_witness:
  "dbuf_insert sample_buf 1 5 = None \<and>
   ok (dbuf_insert sample_buf 1 2) (\<lambda>s'. \<exists>gap. length gap = 2 \<and> content s' = [1] @ gap @ [2])"
proof -
  have wf: "dbuf_wf sample_buf" "content sample_buf = [1, 2]" "dsize sample_buf = 2"
    using sample_realloc_contract
    by (auto simp: sample_buf_def dbuf_wf_def mem_def content_def)
  have "replicate 4 (0 :: u8) = [0, 0, 0, 0]" by (simp add: numeral_eq_Suc)
  then have "dbuf_realloc sample_buf (dsize sample_buf + word_of_nat 5) = Some (-1, sample_buf\<lparr>derror := True\<rparr>)"
    and "dbuf_realloc sample_buf (dsize sample_buf + word_of_nat 2)
         = Some (0, sample_buf\<lparr>buf := Some [1, 2, 0, 0], allocated_size := 4\<rparr>)"
    by (simp_all add: sample_buf_def dbuf_realloc_def sample_realloc_def Let_def)
  with dbuf_insert_needs_memory [OF wf(1), of 1 5 "-1" "sample_buf\<lparr>derror := True\<rparr>"]
    dbuf_insert_needs_memory [OF wf(1), of 1 2 0] wf
  show ?thesis by (auto elim!: ok_mono)
qed

end
