(* ===== verification/Utf8.thy ===== *)
theory Utf8
  imports Cutils
begin

unbundle bit_operations_syntax

text \<open>
  The UTF-8 codec of src/quickjs/cutils.c. \<open>unicode_to_utf8\<close> returns the bytes it stores (no byte
  for the return value 0). \<open>unicode_from_utf8\<close> gives \<^term>\<open>None\<close> when it reads past the input,
  \<^term>\<open>Some None\<close> for its error value -1 and otherwise the code point with the rest of the input
  (the updated \<open>*pp\<close>).
\<close>

definition unicode_to_utf8 :: "u32 \<Rightarrow> u8 list" where
  "unicode_to_utf8 c =
     (if c < 0x80 then [ucast c]
      else if c < 0x800 then [ucast (drop_bit 6 c OR 0xc0), ucast ((c AND 0x3f) OR 0x80)]
      else if c < 0x10000 then
        [ucast (drop_bit 12 c OR 0xe0), ucast ((drop_bit 6 c AND 0x3f) OR 0x80),
         ucast ((c AND 0x3f) OR 0x80)]
      else if c < 0x00200000 then
        [ucast (drop_bit 18 c OR 0xf0), ucast ((drop_bit 12 c AND 0x3f) OR 0x80),
         ucast ((drop_bit 6 c AND 0x3f) OR 0x80), ucast ((c AND 0x3f) OR 0x80)]
      else if c < 0x04000000 then
        [ucast (drop_bit 24 c OR 0xf8), ucast ((drop_bit 18 c AND 0x3f) OR 0x80),
         ucast ((drop_bit 12 c AND 0x3f) OR 0x80), ucast ((drop_bit 6 c AND 0x3f) OR 0x80),
         ucast ((c AND 0x3f) OR 0x80)]
      else if c < 0x80000000 then
        [ucast (drop_bit 30 c OR 0xfc), ucast ((drop_bit 24 c AND 0x3f) OR 0x80),
         ucast ((drop_bit 18 c AND 0x3f) OR 0x80), ucast ((drop_bit 12 c AND 0x3f) OR 0x80),
         ucast ((drop_bit 6 c AND 0x3f) OR 0x80), ucast ((c AND 0x3f) OR 0x80)]
      else [])"

definition utf8_min_code :: "u32 list" where
  "utf8_min_code = [0x80, 0x800, 0x10000, 0x00200000, 0x04000000]"

definition utf8_first_code_mask :: "u8 list" where
  "utf8_first_code_mask = [0x1f, 0xf, 0x7, 0x3, 0x1]"

text \<open>The number of continuation bytes, from the \<open>switch\<close> on the first byte.\<close>

definition utf8_len :: "u32 \<Rightarrow> nat option" where
  "utf8_len c =
     (if 0xc0 \<le> c \<and> c \<le> 0xdf then Some 1
      else if 0xe0 \<le> c \<and> c \<le> 0xef then Some 2
      else if 0xf0 \<le> c \<and> c \<le> 0xf7 then Some 3
      else if 0xf8 \<le> c \<and> c \<le> 0xfb then Some 4
      else if 0xfc \<le> c \<and> c \<le> 0xfd then Some 5
      else None)"

fun utf8_continue :: "nat \<Rightarrow> u32 \<Rightarrow> u8 list \<Rightarrow> (u32 \<times> u8 list) option option" where
  "utf8_continue 0 c p = Some (Some (c, p))"
| "utf8_continue (Suc n) c p =
     (case p of [] \<Rightarrow> None
      | b # p \<Rightarrow> if b < 0x80 \<or> b \<ge> 0xc0 then Some None
                 else utf8_continue n (push_bit 6 c OR ucast (b AND 0x3f)) p)"

definition unicode_from_utf8 :: "u8 list \<Rightarrow> int \<Rightarrow> (u32 \<times> u8 list) option option" where
  "unicode_from_utf8 p max_len =
     (case p of [] \<Rightarrow> None
      | b # p \<Rightarrow>
         let c = ucast b :: u32 in
         if c < 0x80 then Some (Some (c, p))
         else case utf8_len c of None \<Rightarrow> Some None
              | Some l \<Rightarrow>
                 if int l > max_len - 1 then Some None
                 else do {
                   r \<leftarrow> utf8_continue l (c AND ucast (utf8_first_code_mask ! (l - 1))) p;
                   case r of None \<Rightarrow> Some None
                   | Some (c, p) \<Rightarrow>
                       Some (if c < utf8_min_code ! (l - 1) then None else Some (c, p)) })"

section \<open>The bytes as numbers\<close>

lemma unat_cont_byte: "unat (ucast ((c AND 0x3f) OR 0x80) :: u8) = 128 + unat (c :: u32) mod 64"
proof -
  have "(unat c AND 63) = unat c mod 64" using nat_and_mask [of "unat c" 6] by simp
  moreover have "(unat c mod 64) OR 128 = 128 + unat c mod 64"
    using nat_or_disjoint [of "unat c mod 64" 7 1] by (simp add: or.commute)
  ultimately show ?thesis by (simp add: unat_ucast_u8 unat_or unat_and del: unsigned_ucast_eq)
qed

lemma unat_lead_byte:
  assumes "unat (c :: u32) < 2 ^ (m + k)" and "unat lead = j * 2 ^ k" and "(j + 1) * 2 ^ k \<le> 256"
  shows "unat (ucast (drop_bit m c OR lead) :: u8) = unat lead + unat c div 2 ^ m"
proof -
  have q: "unat c div 2 ^ m < 2 ^ k"
    using assms(1) by (simp add: power_add less_mult_imp_div_less mult.commute)
  have "(unat c div 2 ^ m) OR unat lead = unat lead + unat c div 2 ^ m"
    using nat_or_disjoint [OF q, of j] assms(2) by (simp add: or.commute)
  moreover have "unat lead + unat c div 2 ^ m < 256" using q assms(2,3) by simp
  ultimately show ?thesis by (simp only: unat_ucast_u8 unat_or unat_drop_bit) simp
qed

text \<open>One continuation byte shifts its six bits in.\<close>

lemma unat_continue:
  assumes "unat (c :: u32) < 2 ^ 26"
  shows "unat (push_bit 6 c OR ucast ((b :: u8) AND 0x3f)) = unat c * 64 + unat b mod 64"
proof -
  have 1: "unat (push_bit 6 c) = unat c * 2 ^ 6"
    using assms by (simp only: unsigned_push_bit_eq push_bit_eq_mult [where 'a = nat] take_bit_eq_mod) simp
  have 2: "unat (ucast (b AND 0x3f) :: u32) = unat b mod 64"
    using nat_and_mask [of "unat b" 6] by (simp only: unat_ucast_u32 unat_and) simp
  show ?thesis
    using nat_or_disjoint [of "unat b mod 64" 6 "unat c"] by (simp only: unat_or 1 2) simp
qed

text \<open>The continuation bytes of a code point, most significant first.\<close>

fun cont_bytes :: "nat \<Rightarrow> u32 \<Rightarrow> u8 list" where
  "cont_bytes 0 c = []"
| "cont_bytes (Suc n) c = ucast ((drop_bit (6 * n) c AND 0x3f) OR 0x80) # cont_bytes n c"

lemma cont_bytes_pos:
  "0 < n \<Longrightarrow> cont_bytes n c =
     ucast ((drop_bit (6 * (n - 1)) c AND 0x3f) OR 0x80) # cont_bytes (n - 1) c"
  by (cases n) simp_all

lemma length_cont_bytes [simp]: "length (cont_bytes n c) = n"
  by (induction n) simp_all

lemma cont_byte_range:
  "\<not> (ucast ((c AND 0x3f) OR 0x80) :: u8) < 0x80" "\<not> (ucast (((c :: u32) AND 0x3f) OR 0x80) :: u8) \<ge> 0xc0"
  using unat_cont_byte [of c] by (simp_all add: word_less_nat_alt word_le_nat_alt del: unsigned_ucast_eq)

lemma div_split_64: "(x div 2 ^ (6 * Suc n)) * 64 + (x div 2 ^ (6 * n)) mod 64 = x div (2 ^ (6 * n) :: nat)"
proof -
  have "x div 2 ^ (6 * Suc n) = x div 2 ^ (6 * n) div 64"
    by (simp add: power_add mult.commute [of 64] div_mult2_eq [symmetric])
  then show ?thesis by simp
qed

lemma drop_continue:
  assumes "c < 0x80000000"
  shows "push_bit 6 (drop_bit (6 * Suc n) c) OR
           ucast ((ucast ((drop_bit (6 * n) c AND 0x3f) OR 0x80) :: u8) AND 0x3f) = drop_bit (6 * n) (c :: u32)"
proof -
  have "unat c < 2 ^ 31" using assms by (simp add: word_less_nat_alt)
  moreover have "unat c div 2 ^ (6 * Suc n) \<le> unat c div 64"
    by (rule div_le_mono2) (simp_all add: power_add)
  ultimately have "unat (drop_bit (6 * Suc n) c) < 2 ^ 26" by (simp only: unat_drop_bit) simp
  then show ?thesis
    by (simp only: word_unat_eq_iff unat_continue unat_cont_byte unat_drop_bit)
       (use div_split_64 [of "unat c" n] in \<open>simp add: mod_add_eq [symmetric]\<close>)
qed

lemma utf8_continue_cont_bytes:
  assumes "c < 0x80000000"
  shows "utf8_continue n (drop_bit (6 * n) c) (cont_bytes n c @ rest) = Some (Some (c, rest))"
proof (induction n)
  case (Suc n)
  then show ?case
    using cont_byte_range [of "drop_bit (6 * n) c"] drop_continue [OF assms, of n]
    by (simp del: unsigned_ucast_eq mult_Suc_right)
qed simp

lemma utf8_continue_inv:
  "utf8_continue n c p = Some (Some (c', rest)) \<Longrightarrow> unat c < 2 ^ (31 - 6 * n) \<Longrightarrow> n \<le> 5 \<Longrightarrow>
   p = cont_bytes n c' @ rest \<and> drop_bit (6 * n) c' = c"
proof (induction n arbitrary: c p)
  case (Suc n)
  from Suc.prems(1) obtain b q where p: "p = b # q" and b: "0x80 \<le> b" "b < 0xc0"
    and rec: "utf8_continue n (push_bit 6 c OR ucast (b AND 0x3f)) q = Some (Some (c', rest))"
    by (auto split: list.splits if_splits simp: not_less not_le)
  let ?c1 = "push_bit 6 c OR ucast (b AND 0x3f)"
  have e: "31 - 6 * n = (31 - 6 * Suc n) + 6" using Suc.prems(3) by simp
  have "(2::nat) ^ (31 - 6 * Suc n) \<le> 2 ^ 25" by (rule power_increasing) auto
  with Suc.prems(2) have "unat c < 2 ^ 26" by simp
  note c1 = unat_continue [OF this, of b]
  have "unat c * 64 + unat b mod 64 < 2 ^ (31 - 6 * n)"
    using Suc.prems(2) by (simp only: e power_add) simp
  then have IH: "q = cont_bytes n c' @ rest" "drop_bit (6 * n) c' = ?c1"
    using Suc.IH [OF rec] Suc.prems(3) by (simp_all only: c1)
  have "drop_bit (6 * Suc n) c' = drop_bit 6 ?c1"
    by (simp only: IH(2) [symmetric] drop_bit_drop_bit mult_Suc_right)
  also have "\<dots> = c" by (simp only: word_unat_eq_iff unat_drop_bit c1) simp
  finally have d: "drop_bit (6 * Suc n) c' = c" .
  have "128 \<le> unat b" "unat b < 192" using b by (simp_all add: word_le_nat_alt word_less_nat_alt)
  then have "128 + unat b mod 64 = unat b" using mod_window [of 2 64 "unat b"] by simp
  then have "ucast ((?c1 AND 0x3f) OR 0x80) = b"
    by (simp only: word_unat_eq_iff unat_cont_byte c1) simp
  then show ?case using p IH d by simp
qed simp


section \<open>The lead byte\<close>

lemma one_to_five: "1 \<le> (l :: nat) \<Longrightarrow> l \<le> 5 \<Longrightarrow> l = 1 \<or> l = 2 \<or> l = 3 \<or> l = 4 \<or> l = 5"
  by arith

text \<open>A lead byte with \<open>l\<close> continuation bytes starts at \<open>256 - 2 ^ (7 - l)\<close> and carries \<open>6 - l\<close> bits.\<close>

lemma utf8_len_iff:
  "utf8_len (ucast (b :: u8)) = Some l \<longleftrightarrow>
     1 \<le> l \<and> l \<le> 5 \<and> 256 - 2 ^ (7 - l) \<le> unat b \<and> unat b < 256 - 2 ^ (6 - l)"
proof -
  have u: "unat (ucast b :: u32) = unat b" by (rule unat_ucast_u32)
  have "utf8_len (ucast b) =
      (if 192 \<le> unat b \<and> unat b \<le> 223 then Some 1 else if 224 \<le> unat b \<and> unat b \<le> 239 then Some 2
       else if 240 \<le> unat b \<and> unat b \<le> 247 then Some 3 else if 248 \<le> unat b \<and> unat b \<le> 251 then Some 4
       else if 252 \<le> unat b \<and> unat b \<le> 253 then Some 5 else None)"
    by (simp only: utf8_len_def word_le_nat_alt u unat_numeral) simp
  moreover have "l = 0 \<or> l = 1 \<or> l = 2 \<or> l = 3 \<or> l = 4 \<or> l = 5 \<or> 5 < l" by arith
  ultimately show ?thesis by (elim disjE) auto
qed

lemma lead_mask:
  assumes "1 \<le> l" "l \<le> 5" "256 - 2 ^ (7 - l) \<le> unat b" "unat b < 256 - 2 ^ (6 - l)"
  shows "unat ((ucast (b :: u8) :: u32) AND ucast (utf8_first_code_mask ! (l - 1))) =
           unat b - (256 - 2 ^ (7 - l))"
proof -
  note l = one_to_five [OF assms(1,2)]
  then have m: "unat (utf8_first_code_mask ! (l - 1)) = 2 ^ (6 - l) - 1"
    by (elim disjE) (simp_all add: utf8_first_code_mask_def)
  have "unat ((ucast b :: u32) AND ucast (utf8_first_code_mask ! (l - 1))) = unat b mod 2 ^ (6 - l)"
    by (simp only: unat_and unat_ucast_u32 m nat_and_mask)
  also have "\<dots> = unat b - (256 - 2 ^ (7 - l))"
    using l assms(3,4) mod_window [of "2 ^ (l + 2) - 2" "2 ^ (6 - l)" "unat b"]
    by (elim disjE) simp_all
  finally show ?thesis .
qed

definition utf8_class :: "nat \<Rightarrow> u32 \<Rightarrow> bool" where
  "utf8_class l c \<longleftrightarrow> 1 \<le> l \<and> l \<le> 5 \<and> utf8_min_code ! (l - 1) \<le> c \<and>
     unat c < 2 ^ (5 * l + 6)"

lemma unicode_to_utf8_class:
  assumes "utf8_class l c"
  obtains b where "unicode_to_utf8 c = b # cont_bytes l c"
    "unat b = 256 - 2 ^ (7 - l) + unat c div 2 ^ (6 * l)"
proof -
  have l: "l = 1 \<or> l = 2 \<or> l = 3 \<or> l = 4 \<or> l = 5" 
    using assms one_to_five unfolding utf8_class_def by blast
  have "unicode_to_utf8 c = ucast (drop_bit (6 * l) c OR (of_nat (256 - 2 ^ (7 - l)))) # cont_bytes l c"
    using l assms unfolding utf8_class_def unicode_to_utf8_def utf8_min_code_def
    by (elim disjE) (simp_all add: cont_bytes_pos word_less_nat_alt word_le_nat_alt)
  moreover have "unat (ucast (drop_bit (6 * l) c OR (of_nat (256 - 2 ^ (7 - l)))) :: u8) =
      unat (of_nat (256 - 2 ^ (7 - l)) :: u32) + unat c div 2 ^ (6 * l)"
    by (rule unat_lead_byte [where k = "6 - l" and j = "2 ^ (l + 2) - 2"])
       (use l assms in \<open>auto simp: utf8_class_def\<close>)
  moreover have "unat (of_nat (256 - 2 ^ (7 - l)) :: u32) = 256 - 2 ^ (7 - l)"
    using l by auto
  ultimately show ?thesis using that by metis
qed

text \<open>Every code point below \<open>0x80000000\<close> is one byte or has a class.\<close>

lemma utf8_class_exists:
  assumes "0x80 \<le> c" "c < 0x80000000"
  obtains l where "utf8_class l c"
proof -
  have "128 \<le> unat c" "unat c < 2 ^ 31" using assms by (simp_all add: word_le_nat_alt word_less_nat_alt)
  then consider "unat c < 2 ^ 11" | "2 ^ 11 \<le> unat c" "unat c < 2 ^ 16" | "2 ^ 16 \<le> unat c" "unat c < 2 ^ 21"
    | "2 ^ 21 \<le> unat c" "unat c < 2 ^ 26" | "2 ^ 26 \<le> unat c" by linarith
  then show ?thesis
  proof cases
    case 1 then show ?thesis
      using that [of 1] assms by (simp add: utf8_class_def utf8_min_code_def)
  next
    case 2 then show ?thesis
      using that [of 2] by (simp add: utf8_class_def utf8_min_code_def word_le_nat_alt)
  next
    case 3 then show ?thesis
      using that [of 3] by (simp add: utf8_class_def utf8_min_code_def word_le_nat_alt)
  next
    case 4 then show ?thesis
      using that [of 4] by (simp add: utf8_class_def utf8_min_code_def word_le_nat_alt)
  next
    case 5 then show ?thesis
      using that [of 5] \<open>unat c < 2 ^ 31\<close> by (simp add: utf8_class_def utf8_min_code_def word_le_nat_alt)
  qed
qed

lemma decode_class:
  assumes c: "utf8_class l c" and m: "int l < max_len"
  shows "unicode_from_utf8 (unicode_to_utf8 c @ rest) max_len = Some (Some (c, rest))"
proof -
  from c have l: "1 \<le> l" "l \<le> 5" and lt: "unat c < 2 ^ (5 * l + 6)"
    and min: "\<not> c < utf8_min_code ! (l - 1)" by (auto simp: utf8_class_def)
  obtain b where e: "unicode_to_utf8 c = b # cont_bytes l c"
    and b: "unat b = 256 - 2 ^ (7 - l) + unat c div 2 ^ (6 * l)" using unicode_to_utf8_class [OF c] .
  have "unat c div 2 ^ (6 * l) < 2 ^ (6 - l)"
    using lt l by (simp add: less_mult_imp_div_less power_add [symmetric])
  then have b2: "256 - 2 ^ (7 - l) \<le> unat b" "unat b < 256 - 2 ^ (6 - l)"
    using b one_to_five [OF l] by auto
  then have len: "utf8_len (ucast b) = Some l" using l utf8_len_iff by blast
  have "(ucast b :: u32) AND ucast (utf8_first_code_mask ! (l - 1)) = drop_bit (6 * l) c"
    by (simp only: word_unat_eq_iff lead_mask [OF l b2] b unat_drop_bit diff_add_inverse)
  moreover have "c < 0x80000000"
    using lt one_to_five [OF l] by (auto simp: word_less_nat_alt)
  moreover have "\<not> (ucast b :: u32) < 0x80"
    using b2(1) one_to_five [OF l] by (simp only: word_less_nat_alt unat_ucast_u32) auto
  ultimately show ?thesis
    using utf8_continue_cont_bytes len min m by (simp add: unicode_from_utf8_def e del: unsigned_ucast_eq)
qed

text \<open>What a successful decoding of a multi-byte sequence says about the input.\<close>

lemma decode_inv:
  assumes "unicode_from_utf8 (b # p) max_len = Some (Some (c, rest))" and "\<not> (ucast b :: u32) < 0x80"
  obtains l where "utf8_class l c" "p = cont_bytes l c @ rest" "int l < max_len"
    "unat b = 256 - 2 ^ (7 - l) + unat c div 2 ^ (6 * l)"
proof -
  obtain l where len: "utf8_len (ucast b) = Some l"
    using assms by (cases "utf8_len (ucast b :: u32)") (simp_all add: unicode_from_utf8_def)
  then have m: "int l < max_len"
    using assms by (auto simp: unicode_from_utf8_def split: if_splits)
  define c0 where c0: "c0 = (ucast b :: u32) AND ucast (utf8_first_code_mask ! (l - 1))"
  obtain r where r: "utf8_continue l c0 p = Some r"
    using assms len m by (cases "utf8_continue l c0 p") (simp_all add: unicode_from_utf8_def c0)
  have k: "r = Some (c, rest)" and min: "utf8_min_code ! (l - 1) \<le> c"
    using assms len m r
    by (auto simp: unicode_from_utf8_def c0 not_less split: option.split_asm if_split_asm)
  note k = r [unfolded k]
  from len have l: "1 \<le> l" "l \<le> 5" and b: "256 - 2 ^ (7 - l) \<le> unat b" "unat b < 256 - 2 ^ (6 - l)"
    by (simp_all only: utf8_len_iff)
  have u0: "unat c0 = unat b - (256 - 2 ^ (7 - l))" unfolding c0 by (rule lead_mask [OF l b])
  then have "unat c0 < 2 ^ (6 - l)" using b one_to_five [OF l] by auto
  moreover have "(2::nat) ^ (6 - l) \<le> 2 ^ (31 - 6 * l)" using one_to_five [OF l] by auto
  ultimately have "unat c0 < 2 ^ (31 - 6 * l)" by (rule order_less_le_trans)
  note inv = utf8_continue_inv [OF k this l(2)]
  then have "p = cont_bytes l c @ rest" and d: "drop_bit (6 * l) c = c0" by simp_all
  moreover from d have "unat c div 2 ^ (6 * l) = unat c0" by (metis unat_drop_bit)
  moreover from this have "unat c < 2 ^ (5 * l + 6)"
    using \<open>unat c0 < 2 ^ (6 - l)\<close> dividend_less_times_div [of "2 ^ (6 * l)" "unat c"] one_to_five [OF l]
    by (auto simp: div_less_iff_less_mult)
  ultimately show ?thesis using that [of l] u0 b l min m by (simp add: utf8_class_def)
qed


section \<open>Properties\<close>

text \<open>
  C15. Encoding then decoding: \<open>unicode_to_utf8\<close> of a code point below \<open>0x80000000\<close> writes between
  one and \<open>UTF8_CHAR_LEN_MAX\<close> = 6 bytes, and \<open>unicode_from_utf8\<close> with at least that many bytes
  allowed returns the code point and leaves \<open>*pp\<close> just behind it, whatever follows.
\<close>

theorem utf8_encode_decode:
  assumes "c < 0x80000000" and "int (length (unicode_to_utf8 c)) \<le> max_len"
  shows "length (unicode_to_utf8 c) \<in> {1..6} \<and>
     unicode_from_utf8 (unicode_to_utf8 c @ rest) max_len = Some (Some (c, rest))"
proof (cases "c < 0x80")
  case True
  then have "unat c < 128" by (simp add: word_less_nat_alt)
  then have "ucast (ucast c :: u8) = c"
    by (simp only: word_unat_eq_iff unat_ucast_u32 unat_ucast_u8) simp
  then show ?thesis using True by (simp add: unicode_to_utf8_def unicode_from_utf8_def)
next
  case False
  then obtain l where l: "utf8_class l c" using utf8_class_exists [of c] assms(1) by (auto simp: not_less)
  then have "l \<in> {1..5}" by (simp add: utf8_class_def)
  moreover have "length (unicode_to_utf8 c) = Suc l"
    using unicode_to_utf8_class [OF l] by (metis length_Cons length_cont_bytes)
  ultimately show ?thesis using decode_class [OF l] assms(2) by simp
qed

theorem utf8_encode_decode_witness:
  "unicode_from_utf8 (unicode_to_utf8 0x20ac @ [65]) 3 = Some (Some (0x20ac, [65]))"
  using utf8_encode_decode [of "0x20ac" 3 "[65]"] by (simp add: unicode_to_utf8_def)

text \<open>
  C11. Decoding accepts exactly the canonical sequences: when \<open>unicode_from_utf8\<close> returns a code
  point, the bytes it consumed are the ones \<open>unicode_to_utf8\<close> writes for it (no overlong form is
  accepted), at most \<open>max_len\<close> of them, and the code point is non-negative as an \<open>int\<close>.
\<close>

theorem utf8_decode_canonical:
  assumes "unicode_from_utf8 p max_len = Some (Some (c, rest))" and "1 \<le> max_len"
  shows "p = unicode_to_utf8 c @ rest \<and> int (length p - length rest) \<le> max_len \<and> c < 0x80000000"
proof -
  from assms obtain b q where p: "p = b # q" by (cases p) (auto simp: unicode_from_utf8_def)
  show ?thesis
  proof (cases "(ucast b :: u32) < 0x80")
    case True
    then have cr: "c = ucast b" "q = rest" using assms p by (simp_all add: unicode_from_utf8_def)
    have "unat b < 2 ^ LENGTH(8)" by (rule unsigned_less)
    then have "ucast (ucast b :: u32) = b"
      by (simp only: word_unat_eq_iff unat_ucast_u32 unat_ucast_u8) simp
    moreover have "(ucast b :: u32) < 0x80000000" using True by (rule less_trans) simp
    ultimately show ?thesis using True cr p assms(2) by (simp add: unicode_to_utf8_def)
  next
    case False
    then obtain l where l: "utf8_class l c" and q: "q = cont_bytes l c @ rest" and m: "int l < max_len"
      and b: "unat b = 256 - 2 ^ (7 - l) + unat c div 2 ^ (6 * l)"
      using decode_inv [OF assms(1) [unfolded p]] by blast
    obtain b' where "unicode_to_utf8 c = b' # cont_bytes l c"
      and "unat b' = 256 - 2 ^ (7 - l) + unat c div 2 ^ (6 * l)" using unicode_to_utf8_class [OF l] .
    then have "unicode_to_utf8 c = b # cont_bytes l c" using b word_unat_eq_iff by metis
    moreover have "c < 0x80000000"
      using l one_to_five [of l] by (auto simp: utf8_class_def word_less_nat_alt)
    ultimately show ?thesis using p q m by simp
  qed
qed

theorem utf8_decode_canonical_witness:
  "unicode_from_utf8 [0xe2, 0x82, 0xac, 65] 4 = Some (Some (0x20ac, [65])) \<and>
   [0xe2, 0x82, 0xac, 65] = unicode_to_utf8 0x20ac @ [65] \<and> (0x20ac :: u32) < 0x80000000"
proof -
  have d: "unicode_from_utf8 [0xe2, 0x82, 0xac, 65] 4 = Some (Some (0x20ac, [65]))" by code_simp
  show ?thesis using utf8_decode_canonical [OF d] d by simp
qed

text \<open>
  C30. Memory safety of the decoder: with \<open>max_len\<close> no larger than the number of bytes in the
  buffer and at least 1, no byte outside the buffer is read, whatever the bytes are.
\<close>

lemma utf8_continue_reads: "n \<le> length p \<Longrightarrow> utf8_continue n c p \<noteq> None"
  by (induction n c p rule: utf8_continue.induct) (auto split: list.splits)

theorem utf8_decode_in_bounds:
  assumes "1 \<le> max_len" and "max_len \<le> int (length p)"
  shows "unicode_from_utf8 p max_len \<noteq> None"
proof -
  from assms obtain b q where p: "p = b # q" by (cases p) auto
  show ?thesis
  proof (cases "utf8_len (ucast b :: u32)")
    case (Some l)
    let ?c = "(ucast b :: u32) AND ucast (utf8_first_code_mask ! (l - 1))"
    show ?thesis
    proof (cases "int l > max_len - 1")
      case False
      then obtain r where "utf8_continue l ?c q = Some r"
        using utf8_continue_reads [of l q ?c] assms(2) p by auto
      then show ?thesis using Some False
        by (cases r) (simp_all add: unicode_from_utf8_def p Let_def split: prod.splits)
    qed (use Some p in \<open>simp add: unicode_from_utf8_def Let_def\<close>)
  qed (use p in \<open>simp add: unicode_from_utf8_def Let_def\<close>)
qed

theorem utf8_decode_in_bounds_witness:
  "unicode_from_utf8 [0xfd, 0x80, 0x80] 3 \<noteq> None"
  using utf8_decode_in_bounds [of 3 "[0xfd, 0x80, 0x80]"] by simp

end
