(* ===== verification/Rqsort.thy ===== *)
theory Rqsort
  imports Prelude
begin

text \<open>
  The sort routine of src/quickjs/cutils.c: \<open>heapsortx\<close>, \<open>med3\<close> and \<open>rqsort\<close>, at the level of
  elements. An array is a list, a pointer into it an index (a byte offset divided by the element
  size; the theory \<open>Exchange\<close> relates the byte-level swaps to \<open>exch\<close> and \<open>exch_block\<close> below). Every
  access is checked, and so is the push on the fixed stack of 50 segments: \<^term>\<open>None\<close> is an access
  outside the array or a stack overflow. The comparison function is a parameter with the C result
  convention (negative, zero, positive); \<open>opaque\<close> is part of it. The element size is at least 1 (the
  routine returns at once for size 0), and byte offsets do not wrap: the array is smaller than half of
  the address space.

  The first half holds for an arbitrary comparison function: all accesses are in bounds, the loops
  end, the stack never overflows and the result is a permutation. Sortedness, for a comparison that
  is a total preorder, is in the theory \<open>Rqsort_Sorted\<close>.
\<close>

type_synonym 'a cmp_f = "'a \<Rightarrow> 'a \<Rightarrow> int"

section \<open>The code\<close>

definition exch :: "'a list \<Rightarrow> nat \<Rightarrow> nat \<Rightarrow> 'a list option" where
  "exch xs a b = do { x \<leftarrow> rd xs a; y \<leftarrow> rd xs b; xs \<leftarrow> wr xs a y; wr xs b x }"

fun exch_block :: "nat \<Rightarrow> 'a list \<Rightarrow> nat \<Rightarrow> nat \<Rightarrow> 'a list option" where
  "exch_block 0 xs a b = Some xs"
| "exch_block (Suc n) xs a b = do { xs \<leftarrow> exch xs a b; exch_block n xs (a + 1) (b + 1) }"

definition cmp_at :: "'a cmp_f \<Rightarrow> 'a list \<Rightarrow> nat \<Rightarrow> nat \<Rightarrow> int option" where
  "cmp_at cmp xs a b = do { x \<leftarrow> rd xs a; y \<leftarrow> rd xs b; Some (cmp x y) }"

text \<open>The inner loop of \<open>heapsortx\<close>: sift the element \<open>r\<close> of the heap of \<open>n\<close> elements at \<open>p\<close> down.\<close>

function sift :: "'a cmp_f \<Rightarrow> nat \<Rightarrow> nat \<Rightarrow> nat \<Rightarrow> 'a list \<Rightarrow> 'a list option" where
  "sift cmp p n r xs =
     (if 2 * r + 1 < n then do {
        c \<leftarrow> (if 2 * r + 1 < n - 1 then do {
                d \<leftarrow> cmp_at cmp xs (p + (2 * r + 1)) (p + (2 * r + 1) + 1);
                Some (if d \<le> 0 then 2 * r + 1 + 1 else 2 * r + 1) }
              else Some (2 * r + 1));
        d \<leftarrow> cmp_at cmp xs (p + r) (p + c);
        if d > 0 then Some xs
        else do { xs \<leftarrow> exch xs (p + r) (p + c); sift cmp p n c xs } }
      else Some xs)"
  by pat_completeness auto
termination
  by (relation "measure (\<lambda>(_, _, n, r, _). n - r)") (auto split: if_splits bind_splits)

declare sift.simps [simp del]

fun heap_build :: "'a cmp_f \<Rightarrow> nat \<Rightarrow> nat \<Rightarrow> nat \<Rightarrow> 'a list \<Rightarrow> 'a list option" where
  "heap_build cmp p n 0 xs = Some xs"
| "heap_build cmp p n (Suc i) xs = do { xs \<leftarrow> sift cmp p n i xs; heap_build cmp p n i xs }"

fun heap_extract :: "'a cmp_f \<Rightarrow> nat \<Rightarrow> nat \<Rightarrow> 'a list \<Rightarrow> 'a list option" where
  "heap_extract cmp p 0 xs = Some xs"
| "heap_extract cmp p (Suc i) xs = do {
     xs \<leftarrow> exch xs p (p + Suc i);
     xs \<leftarrow> sift cmp p (Suc i) 0 xs;
     heap_extract cmp p i xs }"

definition heapsortx :: "'a cmp_f \<Rightarrow> nat \<Rightarrow> nat \<Rightarrow> 'a list \<Rightarrow> 'a list option" where
  "heapsortx cmp p nmemb xs =
     (if nmemb > 1 then do {
        xs \<leftarrow> heap_build cmp p nmemb (nmemb div 2) xs;
        heap_extract cmp p (nmemb - 1) xs }
      else Some xs)"

definition med3 :: "'a cmp_f \<Rightarrow> 'a list \<Rightarrow> nat \<Rightarrow> nat \<Rightarrow> nat \<Rightarrow> nat option" where
  "med3 cmp xs a b c = do {
     ab \<leftarrow> cmp_at cmp xs a b;
     bc \<leftarrow> cmp_at cmp xs b c;
     if ab < 0 then
       if bc < 0 then Some b else do { ac \<leftarrow> cmp_at cmp xs a c; Some (if ac < 0 then c else a) }
     else
       if bc > 0 then Some b else do { ac \<leftarrow> cmp_at cmp xs a c; Some (if ac < 0 then a else c) } }"

text \<open>
  The partition loop. In the source every index variable has a pointer that moves with it (\<open>i\<close> and
  \<open>pi\<close>, \<open>lt\<close> and \<open>plt\<close>, \<open>gt\<close> and \<open>pgt\<close>); here each pair is one index relative to \<open>ptr\<close> = \<open>p\<close>.
\<close>

function scan_lt :: "'a cmp_f \<Rightarrow> nat \<Rightarrow> nat \<Rightarrow> nat \<Rightarrow> nat \<Rightarrow> 'a list \<Rightarrow> ('a list \<times> nat \<times> nat) option" where
  "scan_lt cmp p pj i lt xs =
     (if i < pj then do {
        c \<leftarrow> cmp_at cmp xs p (p + i);
        if c \<ge> 0 then
          if c = 0 then do { xs \<leftarrow> exch xs (p + lt) (p + i); scan_lt cmp p pj (i + 1) (lt + 1) xs }
          else scan_lt cmp p pj (i + 1) lt xs
        else Some (xs, i, lt) }
      else Some (xs, i, lt))"
  by pat_completeness auto
termination
  by (relation "measure (\<lambda>(_, _, pj, i, _, _). pj - i)") auto

function scan_gt :: "'a cmp_f \<Rightarrow> nat \<Rightarrow> nat \<Rightarrow> nat \<Rightarrow> nat \<Rightarrow> 'a list \<Rightarrow> ('a list \<times> nat \<times> nat) option" where
  "scan_gt cmp p i pj gt xs =
     (if i < pj - 1 then do {
        c \<leftarrow> cmp_at cmp xs p (p + (pj - 1));
        if c \<le> 0 then
          if c = 0 then do { xs \<leftarrow> exch xs (p + (gt - 1)) (p + (pj - 1)); scan_gt cmp p i (pj - 1) (gt - 1) xs }
          else scan_gt cmp p i (pj - 1) gt xs
        else Some (xs, pj - 1, gt) }
      else Some (xs, pj - 1, gt))"
  by pat_completeness auto
termination
  by (relation "measure (\<lambda>(_, _, _, pj, _, _). pj)") auto

declare scan_lt.simps [simp del] scan_gt.simps [simp del]

text \<open>
  The loop around the two scans has no bound of its own; that it ends is a theorem
  (\<open>part_loop_ok\<close>).
\<close>

partial_function (option) part_loop ::
  "'a cmp_f \<Rightarrow> nat \<Rightarrow> nat \<Rightarrow> nat \<Rightarrow> nat \<Rightarrow> nat \<Rightarrow> 'a list \<Rightarrow> ('a list \<times> nat \<times> nat \<times> nat) option" where
  "part_loop cmp p i lt pj gt xs = do {
     (xs, i, lt) \<leftarrow> scan_lt cmp p pj i lt xs;
     (xs, pj, gt) \<leftarrow> scan_gt cmp p i pj gt xs;
     if i \<ge> pj then Some (xs, i, lt, gt)
     else do { xs \<leftarrow> exch xs (p + i) (p + pj); part_loop cmp p (i + 1) lt pj gt xs } }"

text \<open>One partition step: the pivot choice, the loop, and the two block swaps; the result is \<open>lt\<close>, \<open>gt\<close>.\<close>

definition partition_step :: "'a cmp_f \<Rightarrow> nat \<Rightarrow> nat \<Rightarrow> 'a list \<Rightarrow> ('a list \<times> nat \<times> nat) option" where
  "partition_step cmp p nmemb xs = do {
     let m4 = nmemb div 4;
     m \<leftarrow> med3 cmp xs (p + m4) (p + 2 * m4) (p + 3 * m4);
     xs \<leftarrow> exch xs p m;
     (xs, i, lt, gt) \<leftarrow> part_loop cmp p 1 1 nmemb nmemb xs;
     let span = min lt (i - lt);
     xs \<leftarrow> exch_block span xs p (p + i - span);
     let span = min (nmemb - gt) (gt - i);
     xs \<leftarrow> exch_block span xs (p + i) (p + nmemb - span);
     Some (xs, i - lt, nmemb - (gt - i)) }"

record segment =
  seg_base :: nat
  seg_count :: nat
  seg_depth :: nat

definition push :: "segment list \<Rightarrow> segment \<Rightarrow> segment list option" where
  "push stack s = (if length stack < 50 then Some (s # stack) else None)"

text \<open>The loop \<open>while (nmemb > 6)\<close>; it returns \<open>ptr\<close> and \<open>nmemb\<close> for the insertion sort.\<close>

function quick_loop :: "'a cmp_f \<Rightarrow> nat \<Rightarrow> nat \<Rightarrow> nat \<Rightarrow> segment list \<Rightarrow> 'a list \<Rightarrow>
    (nat \<times> nat \<times> segment list \<times> 'a list) option" where
  "quick_loop cmp p nmemb depth stack xs =
     (if nmemb > 6 then
        if depth + 1 > 50 then do { xs \<leftarrow> heapsortx cmp p nmemb xs; Some (p, 0, stack, xs) }
        else do {
          (xs, lt, gt) \<leftarrow> partition_step cmp p nmemb xs;
          if lt > nmemb - gt then do {
            stack \<leftarrow> push stack \<lparr>seg_base = p, seg_count = lt, seg_depth = depth + 1\<rparr>;
            quick_loop cmp (p + gt) (nmemb - gt) (depth + 1) stack xs }
          else do {
            stack \<leftarrow> push stack \<lparr>seg_base = p + gt, seg_count = nmemb - gt, seg_depth = depth + 1\<rparr>;
            quick_loop cmp p lt (depth + 1) stack xs } }
      else Some (p, nmemb, stack, xs))"
  by pat_completeness auto
termination
  by (relation "measure (\<lambda>(_, _, _, depth, _, _). 51 - depth)") auto

declare quick_loop.simps [simp del]

fun insert_down :: "'a cmp_f \<Rightarrow> nat \<Rightarrow> nat \<Rightarrow> 'a list \<Rightarrow> 'a list option" where
  "insert_down cmp p 0 xs = Some xs"
| "insert_down cmp p (Suc j) xs = do {
     c \<leftarrow> cmp_at cmp xs (p + j) (p + Suc j);
     if c > 0 then do { xs \<leftarrow> exch xs (p + Suc j) (p + j); insert_down cmp p j xs }
     else Some xs }"

function insertion_loop :: "'a cmp_f \<Rightarrow> nat \<Rightarrow> nat \<Rightarrow> nat \<Rightarrow> 'a list \<Rightarrow> 'a list option" where
  "insertion_loop cmp p nmemb i xs =
     (if i < nmemb then do { xs \<leftarrow> insert_down cmp p i xs; insertion_loop cmp p nmemb (i + 1) xs }
      else Some xs)"
  by pat_completeness auto
termination
  by (relation "measure (\<lambda>(_, _, nmemb, i, _). nmemb - i)") auto

declare insertion_loop.simps [simp del]

partial_function (option) rqsort_loop :: "'a cmp_f \<Rightarrow> segment list \<Rightarrow> 'a list \<Rightarrow> 'a list option" where
  "rqsort_loop cmp stack xs =
     (case stack of [] \<Rightarrow> Some xs
      | s # stack \<Rightarrow> do {
          (p, nmemb, stack, xs) \<leftarrow> quick_loop cmp (seg_base s) (seg_count s) (seg_depth s) stack xs;
          xs \<leftarrow> insertion_loop cmp p nmemb 1 xs;
          rqsort_loop cmp stack xs })"

definition rqsort :: "'a cmp_f \<Rightarrow> nat \<Rightarrow> 'a list \<Rightarrow> 'a list option" where
  "rqsort cmp nmemb xs =
     (if nmemb < 2 then Some xs
      else do {
        stack \<leftarrow> push [] \<lparr>seg_base = 0, seg_count = nmemb, seg_depth = 0\<rparr>;
        rqsort_loop cmp stack xs })"


section \<open>Permutations of a segment\<close>

definition perm_on :: "nat \<Rightarrow> nat \<Rightarrow> 'a list \<Rightarrow> 'a list \<Rightarrow> bool" where
  "perm_on lo hi xs ys \<longleftrightarrow> length ys = length xs \<and> mset ys = mset xs \<and>
     (\<forall>k < length xs. k < lo \<or> hi \<le> k \<longrightarrow> ys ! k = xs ! k)"

lemma perm_on_refl [simp, intro]: "perm_on lo hi xs xs"
  by (simp add: perm_on_def)

lemma perm_on_length: "perm_on lo hi xs ys \<Longrightarrow> length ys = length xs"
  by (simp add: perm_on_def)

lemma perm_on_trans: "perm_on lo hi xs ys \<Longrightarrow> perm_on lo hi ys zs \<Longrightarrow> perm_on lo hi xs zs"
  by (auto simp: perm_on_def)

lemma perm_on_mono: "perm_on lo hi xs ys \<Longrightarrow> lo' \<le> lo \<Longrightarrow> hi \<le> hi' \<Longrightarrow> perm_on lo' hi' xs ys"
  by (auto simp: perm_on_def)

lemma perm_on_outside: "perm_on lo hi xs ys \<Longrightarrow> k < lo \<or> hi \<le> k \<Longrightarrow> k < length xs \<Longrightarrow> ys ! k = xs ! k"
  by (auto simp: perm_on_def)

lemma perm_on_swap:
  "lo \<le> a \<Longrightarrow> a < hi \<Longrightarrow> lo \<le> b \<Longrightarrow> b < hi \<Longrightarrow> hi \<le> length xs \<Longrightarrow>
   perm_on lo hi xs (xs[a := xs ! b, b := xs ! a])"
  by (auto simp: perm_on_def nth_list_update)

lemma perm_on_step: "ok m (perm_on lo hi ys) \<Longrightarrow> perm_on lo hi xs ys \<Longrightarrow> ok m (perm_on lo hi xs)"
  by (auto simp: ok_conv intro: perm_on_trans)

lemma perm_on_bind:
  assumes "ok m (perm_on lo hi xs)"
    and "\<And>ys. perm_on lo hi xs ys \<Longrightarrow> length ys = length xs \<Longrightarrow> ok (f ys) (perm_on lo hi ys)"
  shows "ok (m \<bind> f) (perm_on lo hi xs)"
  using assms by (auto simp: ok_conv perm_on_length intro: perm_on_trans) (metis perm_on_length perm_on_trans)

text \<open>Every element of the permuted segment comes from the segment.\<close>

lemma perm_on_from:
  assumes "perm_on lo hi xs ys" "lo \<le> i" "i < hi" "hi \<le> length xs"
  obtains j where "lo \<le> j" "j < hi" "ys ! i = xs ! j"
proof -
  let ?seg = "\<lambda>zs. take (hi - lo) (drop lo zs)"
  have split: "zs = take lo zs @ ?seg zs @ drop hi zs" if "length zs = length xs" for zs :: "'a list"
  proof -
    have "drop hi zs = drop (hi - lo) (drop lo zs)" using assms(2,3) by simp
    then show ?thesis by (metis append_take_drop_id)
  qed
  have len: "length ys = length xs" using assms(1) by (rule perm_on_length)
  have "take lo ys = take lo xs" "drop hi ys = drop hi xs"
    using assms len by (auto intro!: nth_equalityI simp: perm_on_def)
  moreover have "mset ys = mset xs" using assms(1) by (simp add: perm_on_def)
  ultimately have "mset (?seg ys) = mset (?seg xs)"
    using split [OF len] split [OF refl] by (metis add_left_cancel add_right_cancel mset_append)
  then have "set (?seg ys) = set (?seg xs)" by (metis set_mset_mset)
  moreover have "ys ! i \<in> set (?seg ys)"
    unfolding in_set_conv_nth using assms len by (intro exI [of _ "i - lo"]) auto
  ultimately obtain k where "k < hi - lo" "ys ! i = ?seg xs ! k"
    by (metis in_set_conv_nth length_take min_less_iff_conj)
  then show ?thesis using that [of "lo + k"] assms by auto
qed

section \<open>Safety of the building blocks\<close>

lemma ok_exch [wp]:
  "ok (exch xs a b) Q \<longleftrightarrow> a < length xs \<and> b < length xs \<and> Q (xs[a := xs ! b, b := xs ! a])"
  by (auto simp: exch_def wp)

lemma ok_cmp_at [wp]:
  "ok (cmp_at cmp xs a b) Q \<longleftrightarrow> a < length xs \<and> b < length xs \<and> Q (cmp (xs ! a) (xs ! b))"
  by (auto simp: cmp_at_def wp)

lemma exch_Some [simp]: "a < length xs \<Longrightarrow> b < length xs \<Longrightarrow> exch xs a b = Some (xs[a := xs ! b, b := xs ! a])"
  by (simp add: exch_def)

lemma cmp_at_Some [simp]: "a < length xs \<Longrightarrow> b < length xs \<Longrightarrow> cmp_at cmp xs a b = Some (cmp (xs ! a) (xs ! b))"
  by (simp add: cmp_at_def)

definition block_swapped :: "nat \<Rightarrow> nat \<Rightarrow> nat \<Rightarrow> 'a list \<Rightarrow> 'a list \<Rightarrow> bool" where
  "block_swapped n a b xs ys \<longleftrightarrow>
     (\<forall>k < n. ys ! (a + k) = xs ! (b + k) \<and> ys ! (b + k) = xs ! (a + k)) \<and>
     (\<forall>k < length xs. (k < a \<or> a + n \<le> k) \<and> (k < b \<or> b + n \<le> k) \<longrightarrow> ys ! k = xs ! k)"

lemma block_swapped_Suc:
  assumes "block_swapped n (Suc a) (Suc b) (xs[a := xs ! b, b := xs ! a]) ys"
    and "a + Suc n \<le> b" "b + Suc n \<le> length xs"
  shows "block_swapped (Suc n) a b xs ys"
proof -
  let ?xs = "xs[a := xs ! b, b := xs ! a]"
  have in1: "ys ! (Suc a + k) = ?xs ! (Suc b + k)" "ys ! (Suc b + k) = ?xs ! (Suc a + k)" if "k < n" for k
    using assms(1) that by (simp_all add: block_swapped_def)
  have out: "ys ! k = ?xs ! k"
    if "k < length xs" "k < Suc a \<or> Suc a + n \<le> k" "k < Suc b \<or> Suc b + n \<le> k" for k
    using assms(1) that by (simp add: block_swapped_def)
  have "ys ! (a + k) = xs ! (b + k) \<and> ys ! (b + k) = xs ! (a + k)" if "k < Suc n" for k
  proof (cases k)
    case 0
    then show ?thesis using out [of a] out [of b] assms(2,3) by (simp add: nth_list_update)
  next
    case (Suc m)
    then show ?thesis using in1 [of m] that assms(2,3) by (simp add: nth_list_update)
  qed
  moreover have "ys ! k = xs ! k"
    if "k < length xs" "k < a \<or> a + Suc n \<le> k" "k < b \<or> b + Suc n \<le> k" for k
    using out [of k] that assms(2,3) by (auto simp: nth_list_update)
  ultimately show ?thesis by (simp add: block_swapped_def)
qed

lemma exch_block_ok:
  "a + n \<le> b \<Longrightarrow> b + n \<le> length xs \<Longrightarrow>
   ok (exch_block n xs a b) (\<lambda>ys. perm_on a (b + n) xs ys \<and> block_swapped n a b xs ys)"
proof (induction n arbitrary: xs a b)
  case (Suc n)
  let ?xs = "xs[a := xs ! b, b := xs ! a]"
  have sw: "perm_on a (b + Suc n) xs ?xs" using Suc.prems by (intro perm_on_swap) auto
  have "ok (exch_block n ?xs (Suc a) (Suc b))
      (\<lambda>ys. perm_on (Suc a) (Suc b + n) ?xs ys \<and> block_swapped n (Suc a) (Suc b) ?xs ys)"
    by (rule Suc.IH) (use Suc.prems in auto)
  then have "ok (exch_block n ?xs (Suc a) (Suc b))
      (\<lambda>ys. perm_on a (b + Suc n) xs ys \<and> block_swapped (Suc n) a b xs ys)"
    by (rule ok_mono)
       (use Suc.prems sw in \<open>auto intro: block_swapped_Suc perm_on_trans [OF _ perm_on_mono]\<close>)
  then show ?case using Suc.prems by simp
qed (simp add: block_swapped_def)

text \<open>The larger child of \<open>r\<close>, the one \<open>sift\<close> compares with.\<close>

definition big_child :: "'a cmp_f \<Rightarrow> nat \<Rightarrow> nat \<Rightarrow> nat \<Rightarrow> 'a list \<Rightarrow> nat" where
  "big_child cmp p n r xs =
     (if 2 * r + 1 < n - 1 \<and> cmp (xs ! (p + (2 * r + 1))) (xs ! (p + (2 * r + 1) + 1)) \<le> 0
      then 2 * r + 2 else 2 * r + 1)"

lemma big_child_bounds:
  "2 * r + 1 < n \<Longrightarrow> big_child cmp p n r xs < n" "r < big_child cmp p n r xs"
  by (auto simp: big_child_def)

lemma sift_unfold:
  assumes "p + n \<le> length xs"
  shows "sift cmp p n r xs =
     (if 2 * r + 1 < n then
        let c = big_child cmp p n r xs in
        if cmp (xs ! (p + r)) (xs ! (p + c)) > 0 then Some xs
        else sift cmp p n c (xs[p + r := xs ! (p + c), p + c := xs ! (p + r)])
      else Some xs)"
  using assms by (subst sift.simps) (auto simp: big_child_def Let_def)

lemma sift_perm: "p + n \<le> length xs \<Longrightarrow> ok (sift cmp p n r xs) (perm_on p (p + n) xs)"
proof (induction "n - r" arbitrary: r xs rule: less_induct)
  case less
  show ?case
  proof (cases "2 * r + 1 < n")
    case True
    let ?c = "big_child cmp p n r xs"
    let ?xs = "xs[p + r := xs ! (p + ?c), p + ?c := xs ! (p + r)]"
    have c: "?c < n" "r < ?c" using big_child_bounds True by auto
    then have "perm_on p (p + n) xs ?xs" using less.prems by (intro perm_on_swap) auto
    moreover have "ok (sift cmp p n ?c ?xs) (perm_on p (p + n) ?xs)"
      using c less.prems by (intro less.hyps) auto
    ultimately have "ok (sift cmp p n ?c ?xs) (perm_on p (p + n) xs)"
      by (auto elim!: ok_mono intro: perm_on_trans)
    then show ?thesis using less.prems by (simp add: sift_unfold [of p n xs] Let_def)
  qed (simp add: sift_unfold less.prems)
qed

lemma heap_build_perm:
  "p + n \<le> length xs \<Longrightarrow> ok (heap_build cmp p n i xs) (perm_on p (p + n) xs)"
proof (induction i arbitrary: xs)
  case (Suc i)
  then show ?case
    unfolding heap_build.simps by (intro perm_on_bind [OF sift_perm]) auto
qed simp

lemma heap_extract_perm:
  "p + n \<le> length xs \<Longrightarrow> i < n \<Longrightarrow> ok (heap_extract cmp p i xs) (perm_on p (p + n) xs)"
proof (induction i arbitrary: xs)
  case (Suc i)
  let ?xs = "xs[p := xs ! (p + Suc i), p + Suc i := xs ! p]"
  have sw: "perm_on p (p + n) xs ?xs" using Suc.prems by (intro perm_on_swap) auto
  have "ok (sift cmp p (Suc i) 0 ?xs) (perm_on p (p + n) ?xs)"
    using sift_perm [of p "Suc i" ?xs cmp 0] Suc.prems by (auto elim!: ok_mono intro: perm_on_mono)
  then have "ok (sift cmp p (Suc i) 0 ?xs \<bind> heap_extract cmp p i) (perm_on p (p + n) ?xs)"
    by (rule perm_on_bind) (use Suc in auto)
  from perm_on_step [OF this sw] show ?case using Suc.prems by simp
qed simp

lemma heapsortx_perm: "p + n \<le> length xs \<Longrightarrow> ok (heapsortx cmp p n xs) (perm_on p (p + n) xs)"
  unfolding heapsortx_def
  by (cases "n > 1") (auto intro!: perm_on_bind [OF heap_build_perm] heap_extract_perm simp del: ok_bind)

lemma med3_ok:
  "a < length xs \<Longrightarrow> b < length xs \<Longrightarrow> c < length xs \<Longrightarrow> ok (med3 cmp xs a b c) (\<lambda>m. m \<in> {a, b, c})"
  by (simp add: med3_def)

lemma insert_down_perm:
  "p + n \<le> length xs \<Longrightarrow> i < n \<Longrightarrow> ok (insert_down cmp p i xs) (perm_on p (p + n) xs)"
proof (induction i arbitrary: xs)
  case (Suc i)
  have "perm_on p (p + n) xs (xs[p + Suc i := xs ! (p + i), p + i := xs ! (p + Suc i)])"
    using Suc.prems by (intro perm_on_swap) auto
  from perm_on_step [OF _ this] show ?case using Suc by (auto simp: wp)
qed simp

lemma insertion_loop_perm:
  "p + n \<le> length xs \<Longrightarrow> ok (insertion_loop cmp p n i xs) (perm_on p (p + n) xs)"
proof (induction "n - i" arbitrary: i xs rule: less_induct)
  case less
  show ?case
  proof (cases "i < n")
    case True
    have "ok (insert_down cmp p i xs \<bind> insertion_loop cmp p n (i + 1)) (perm_on p (p + n) xs)"
      by (rule perm_on_bind [OF insert_down_perm]) (use less True in auto)
    then show ?thesis using True by (subst insertion_loop.simps) simp
  qed (simp add: insertion_loop.simps)
qed


section \<open>The partition\<close>

text \<open>
  The invariant of the partition loop, for the pivot \<open>v\<close> at position 0 of the segment: the elements
  in \<open>[1..lt[\<close> and \<open>[gt..n[\<close> compare equal to it, those in \<open>[lt..i[\<close> are smaller and those in
  \<open>[pj..gt[\<close> greater.
\<close>

definition part_inv :: "'a cmp_f \<Rightarrow> 'a \<Rightarrow> nat \<Rightarrow> nat \<Rightarrow> nat \<Rightarrow> nat \<Rightarrow> nat \<Rightarrow> nat \<Rightarrow> 'a list \<Rightarrow> bool" where
  "part_inv cmp v p n i lt pj gt xs \<longleftrightarrow>
     1 \<le> lt \<and> lt \<le> i \<and> i \<le> pj \<and> pj \<le> gt \<and> gt \<le> n \<and> p + n \<le> length xs \<and> xs ! p = v \<and>
     (\<forall>k. 1 \<le> k \<and> k < lt \<longrightarrow> cmp v (xs ! (p + k)) = 0) \<and>
     (\<forall>k. lt \<le> k \<and> k < i \<longrightarrow> cmp v (xs ! (p + k)) > 0) \<and>
     (\<forall>k. pj \<le> k \<and> k < gt \<longrightarrow> cmp v (xs ! (p + k)) < 0) \<and>
     (\<forall>k. gt \<le> k \<and> k < n \<longrightarrow> cmp v (xs ! (p + k)) = 0)"

lemma part_inv_eq_lt:
  assumes "part_inv cmp v p n i lt pj gt xs" "i < pj" "cmp v (xs ! (p + i)) = 0"
  shows "part_inv cmp v p n (i + 1) (lt + 1) pj gt (xs[p + lt := xs ! (p + i), p + i := xs ! (p + lt)])"
  using assms by (auto simp: part_inv_def nth_list_update_if less_Suc_eq)

lemma part_inv_less:
  "part_inv cmp v p n i lt pj gt xs \<Longrightarrow> i < pj \<Longrightarrow> cmp v (xs ! (p + i)) > 0 \<Longrightarrow>
   part_inv cmp v p n (i + 1) lt pj gt xs"
  by (auto simp: part_inv_def less_Suc_eq)

lemma part_inv_eq_gt:
  assumes "part_inv cmp v p n i lt (Suc j) gt xs" "i < j" "cmp v (xs ! (p + j)) = 0"
  shows "part_inv cmp v p n i lt j (gt - 1) (xs[p + (gt - 1) := xs ! (p + j), p + j := xs ! (p + (gt - 1))])"
proof -
  obtain g where g: "gt = Suc g" using assms by (cases gt) (auto simp: part_inv_def)
  show ?thesis
  proof (cases "j = g")
    case True
    have "cmp v (xs ! (p + k)) = 0" if "g \<le> k" "k < n" for k
      using assms that g True by (cases "k = g") (auto simp: part_inv_def)
    then show ?thesis using assms g True by (auto simp: part_inv_def)
  next
    case False
    let ?ys = "xs[p + g := xs ! (p + j), p + j := xs ! (p + g)]"
    from False g assms have len: "j < g" "p + g < length xs" by (auto simp: part_inv_def)
    have nth: "?ys ! (p + k) = (if k = j then xs ! (p + g) else if k = g then xs ! (p + j) else xs ! (p + k))"
      for k using len by (auto simp: nth_list_update_if)
    have "?ys ! p = v" using nth [of 0] assms g by (auto simp: part_inv_def)
    moreover have "cmp v (?ys ! (p + k)) = 0" if "g \<le> k" "k < n" for k
      using assms that g len unfolding nth by (cases "k = g") (auto simp: part_inv_def)
    moreover have "cmp v (?ys ! (p + k)) < 0" if "j \<le> k" "k < g" for k
      using assms that g len unfolding nth by (cases "k = j") (auto simp: part_inv_def)
    moreover have "cmp v (?ys ! (p + k)) = 0" if "1 \<le> k" "k < lt" for k
      using assms that g len unfolding nth by (auto simp: part_inv_def)
    moreover have "cmp v (?ys ! (p + k)) > 0" if "lt \<le> k" "k < i" for k
      using assms that g len unfolding nth by (auto simp: part_inv_def)
    ultimately show ?thesis using assms g len by (simp add: part_inv_def)
  qed
qed

lemma part_inv_greater:
  "part_inv cmp v p n i lt (Suc j) gt xs \<Longrightarrow> i \<le> j \<Longrightarrow> cmp v (xs ! (p + j)) < 0 \<Longrightarrow>
   part_inv cmp v p n i lt j gt xs"
  unfolding part_inv_def by (auto simp: Suc_le_eq le_eq_less_or_eq [of j])

lemma part_inv_swap:
  assumes "part_inv cmp v p n i lt (Suc j) gt xs" "i < j"
    and "cmp v (xs ! (p + i)) < 0" "cmp v (xs ! (p + j)) > 0"
  shows "part_inv cmp v p n (i + 1) lt j gt (xs[p + i := xs ! (p + j), p + j := xs ! (p + i)])"
  using assms by (auto simp: part_inv_def nth_list_update_if less_Suc_eq le_Suc_eq)


lemma scan_lt_ok:
  "part_inv cmp v p n i lt pj gt xs \<Longrightarrow>
   ok (scan_lt cmp p pj i lt xs) (\<lambda>(ys, i', lt'). part_inv cmp v p n i' lt' pj gt ys \<and>
     perm_on p (p + n) xs ys \<and> i \<le> i' \<and> (i' < pj \<longrightarrow> cmp v (ys ! (p + i')) < 0))"
proof (induction "pj - i" arbitrary: i lt xs rule: less_induct)
  case less
  note inv = less.prems
  have b: "1 \<le> lt" "lt \<le> i" "i \<le> pj" "pj \<le> n" "p + n \<le> length xs" "xs ! p = v"
    using inv by (auto simp: part_inv_def)
  show ?case
  proof (cases "i < pj")
    case True
    consider "cmp v (xs ! (p + i)) = 0" | "cmp v (xs ! (p + i)) > 0" | "cmp v (xs ! (p + i)) < 0" by linarith
    then show ?thesis
    proof cases
      case 1
      let ?xs = "xs[p + lt := xs ! (p + i), p + i := xs ! (p + lt)]"
      have sw: "perm_on p (p + n) xs ?xs" using b True by (intro perm_on_swap) auto
      have "ok (scan_lt cmp p pj (i + 1) (lt + 1) ?xs) (\<lambda>(ys, i', lt'). part_inv cmp v p n i' lt' pj gt ys \<and>
          perm_on p (p + n) ?xs ys \<and> i + 1 \<le> i' \<and> (i' < pj \<longrightarrow> cmp v (ys ! (p + i')) < 0))"
        by (rule less.hyps) (use True part_inv_eq_lt [OF inv True 1] in auto)
      then have "ok (scan_lt cmp p pj (i + 1) (lt + 1) ?xs) (\<lambda>(ys, i', lt'). part_inv cmp v p n i' lt' pj gt ys \<and>
          perm_on p (p + n) xs ys \<and> i \<le> i' \<and> (i' < pj \<longrightarrow> cmp v (ys ! (p + i')) < 0))"
        by (rule ok_mono) (auto intro: perm_on_trans [OF sw])
      then show ?thesis using True b 1 by (subst scan_lt.simps) simp
    next
      case 2
      have "ok (scan_lt cmp p pj (i + 1) lt xs) (\<lambda>(ys, i', lt'). part_inv cmp v p n i' lt' pj gt ys \<and>
          perm_on p (p + n) xs ys \<and> i + 1 \<le> i' \<and> (i' < pj \<longrightarrow> cmp v (ys ! (p + i')) < 0))"
        by (rule less.hyps) (use True part_inv_less [OF inv True 2] in auto)
      then have "ok (scan_lt cmp p pj (i + 1) lt xs) (\<lambda>(ys, i', lt'). part_inv cmp v p n i' lt' pj gt ys \<and>
          perm_on p (p + n) xs ys \<and> i \<le> i' \<and> (i' < pj \<longrightarrow> cmp v (ys ! (p + i')) < 0))"
        by (rule ok_mono) auto
      then show ?thesis using True b 2 by (subst scan_lt.simps) simp
    next
      case 3
      then show ?thesis using True b inv by (subst scan_lt.simps) simp
    qed
  qed (use inv in \<open>simp add: scan_lt.simps\<close>)
qed

lemma scan_gt_ok:
  "part_inv cmp v p n i lt pj gt xs \<Longrightarrow> (i < pj \<longrightarrow> cmp v (xs ! (p + i)) < 0) \<Longrightarrow>
   ok (scan_gt cmp p i pj gt xs) (\<lambda>(ys, j, gt'). part_inv cmp v p n i lt (j + 1) gt' ys \<and>
     perm_on p (p + n) xs ys \<and> j < pj \<and> (i < j + 1 \<longrightarrow> cmp v (ys ! (p + i)) < 0) \<and>
     (i < j \<longrightarrow> cmp v (ys ! (p + j)) > 0))"
proof (induction pj arbitrary: gt xs)
  case 0
  then have False by (auto simp: part_inv_def)
  then show ?case ..
next
  case (Suc j)
  note inv = Suc.prems(1)
  have b: "1 \<le> lt" "lt \<le> i" "j < gt" "gt \<le> n" "p + n \<le> length xs" "xs ! p = v"
    using inv by (auto simp: part_inv_def)
  let ?Q = "\<lambda>xs (ys, j', gt'). part_inv cmp v p n i lt (j' + 1) gt' ys \<and>
     perm_on p (p + n) xs ys \<and> j' < j \<and> (i < j' + 1 \<longrightarrow> cmp v (ys ! (p + i)) < 0) \<and>
     (i < j' \<longrightarrow> cmp v (ys ! (p + j')) > 0)"
  show ?case
  proof (cases "i < j")
    case True
    consider "cmp v (xs ! (p + j)) = 0" | "cmp v (xs ! (p + j)) < 0" | "cmp v (xs ! (p + j)) > 0" by linarith
    then show ?thesis
    proof cases
      case 1
      let ?xs = "xs[p + (gt - 1) := xs ! (p + j), p + j := xs ! (p + (gt - 1))]"
      have sw: "perm_on p (p + n) xs ?xs" using b True by (intro perm_on_swap) auto
      have "?xs ! (p + i) = xs ! (p + i)" using b True by (simp add: nth_list_update_if)
      then have "ok (scan_gt cmp p i j (gt - 1) ?xs) (?Q ?xs)"
        using part_inv_eq_gt [OF inv True 1] Suc.prems(2) True by (intro Suc.IH) auto
      then show ?thesis using True b 1
        by (subst scan_gt.simps) (auto elim!: ok_mono intro: perm_on_trans [OF sw])
    next
      case 2
      then have "ok (scan_gt cmp p i j gt xs) (?Q xs)"
        using part_inv_greater [OF inv _ 2] Suc.prems(2) True by (intro Suc.IH) auto
      then show ?thesis using True b 2 by (subst scan_gt.simps) (auto elim!: ok_mono)
    next
      case 3
      then show ?thesis using True b inv Suc.prems(2) by (subst scan_gt.simps) simp
    qed
  qed (use inv Suc.prems in \<open>simp add: scan_gt.simps\<close>)
qed


lemma part_loop_ok:
  "part_inv cmp v p n i lt pj gt xs \<Longrightarrow>
   ok (part_loop cmp p i lt pj gt xs) (\<lambda>(ys, i', lt', gt').
     part_inv cmp v p n i' lt' i' gt' ys \<and> perm_on p (p + n) xs ys)"
proof (induction "pj - i" arbitrary: i lt pj gt xs rule: less_induct)
  case less
  obtain xs1 i1 lt1 where s1: "scan_lt cmp p pj i lt xs = Some (xs1, i1, lt1)"
    and inv1: "part_inv cmp v p n i1 lt1 pj gt xs1" and p1: "perm_on p (p + n) xs xs1" and i1: "i \<le> i1"
    and stop1: "i1 < pj \<longrightarrow> cmp v (xs1 ! (p + i1)) < 0"
    using scan_lt_ok [OF less.prems] by (auto simp: ok_conv)
  obtain xs2 j gt2 where s2: "scan_gt cmp p i1 pj gt xs1 = Some (xs2, j, gt2)"
    and inv2: "part_inv cmp v p n i1 lt1 (j + 1) gt2 xs2" and p2: "perm_on p (p + n) xs1 xs2" and j: "j < pj"
    and lo: "i1 < j + 1 \<longrightarrow> cmp v (xs2 ! (p + i1)) < 0" and hi: "i1 < j \<longrightarrow> cmp v (xs2 ! (p + j)) > 0"
    using scan_gt_ok [OF inv1 stop1] by (auto simp: ok_conv)
  have p12: "perm_on p (p + n) xs xs2" using p1 p2 by (rule perm_on_trans)
  show ?case
  proof (cases "i1 \<ge> j")
    case True
    have "part_inv cmp v p n i1 lt1 i1 gt2 xs2"
    proof (cases "j = i1")
      case True
      then show ?thesis using part_inv_greater [of cmp v p n i1 lt1 j gt2 xs2] inv2 lo by simp
    next
      case False
      then have "j + 1 = i1" using True inv2 by (auto simp: part_inv_def)
      then show ?thesis using inv2 by simp
    qed
    then show ?thesis using True p12 by (subst part_loop.simps) (simp add: s1 s2)
  next
    case False
    let ?xs = "xs2[p + i1 := xs2 ! (p + j), p + j := xs2 ! (p + i1)]"
    have b: "j < n" "p + n \<le> length xs2" using inv2 by (auto simp: part_inv_def)
    then have sw: "perm_on p (p + n) xs2 ?xs" using False by (intro perm_on_swap) auto
    have "part_inv cmp v p n (i1 + 1) lt1 j gt2 ?xs"
      using part_inv_swap [of cmp v p n i1 lt1 j gt2 xs2] inv2 lo hi False by simp
    then have "ok (part_loop cmp p (i1 + 1) lt1 j gt2 ?xs) (\<lambda>(ys, i', lt', gt').
        part_inv cmp v p n i' lt' i' gt' ys \<and> perm_on p (p + n) ?xs ys)"
      using False i1 j by (intro less.hyps) auto
    then show ?thesis using False b
      by (subst part_loop.simps)
         (auto simp: s1 s2 elim!: ok_mono intro: perm_on_trans [OF p12 perm_on_trans [OF sw]])
  qed
qed

text \<open>
  Moving the elements equal to the pivot into the middle. Swapping the shorter of two adjacent
  blocks with the far end of the longer one exchanges their contents.
\<close>

lemma rotate_left_part:
  assumes "block_swapped (min lt (i - lt)) p (p + i - min lt (i - lt)) xs ys"
    and "lt \<le> i" "p + i \<le> length xs"
  shows "\<forall>k < i - lt. \<exists>j. lt \<le> j \<and> j < i \<and> ys ! (p + k) = xs ! (p + j)"
    and "\<forall>k. i - lt \<le> k \<and> k < i \<longrightarrow> (\<exists>j < lt. ys ! (p + k) = xs ! (p + j))"
    and "\<forall>k < length xs. k < p \<or> p + i \<le> k \<longrightarrow> ys ! k = xs ! k"
proof -
  let ?s = "min lt (i - lt)"
  have sw: "ys ! (p + k) = xs ! (p + (i - ?s + k))" "ys ! (p + (i - ?s + k)) = xs ! (p + k)" if "k < ?s" for k
    using assms(1,2) that by (auto simp: block_swapped_def algebra_simps)
  have un: "ys ! k = xs ! k" if "k < length xs" "k < p \<or> p + ?s \<le> k" "k < p + (i - ?s) \<or> p + i \<le> k" for k
    using assms(1,2) that by (auto simp: block_swapped_def)
  show "\<forall>k < i - lt. \<exists>j. lt \<le> j \<and> j < i \<and> ys ! (p + k) = xs ! (p + j)"
  proof (intro allI impI)
    fix k assume k: "k < i - lt"
    show "\<exists>j. lt \<le> j \<and> j < i \<and> ys ! (p + k) = xs ! (p + j)"
    proof (cases "k < ?s")
      case True
      then show ?thesis using sw(1) [OF True] k assms(2) by (intro exI [of _ "i - ?s + k"]) auto
    next
      case False
      then have lt: "k < i - ?s" "lt \<le> k" using k by auto
      then have "ys ! (p + k) = xs ! (p + k)" using False k assms(3) by (intro un) auto
      then show ?thesis using lt k by (intro exI [of _ k]) auto
    qed
  qed
  show "\<forall>k. i - lt \<le> k \<and> k < i \<longrightarrow> (\<exists>j < lt. ys ! (p + k) = xs ! (p + j))"
  proof (intro allI impI)
    fix k assume k: "i - lt \<le> k \<and> k < i"
    show "\<exists>j < lt. ys ! (p + k) = xs ! (p + j)"
    proof (cases "i - ?s \<le> k")
      case True
      then obtain l where l: "k = i - ?s + l" by (auto simp: le_iff_add)
      moreover have "?s \<le> i" by simp
      ultimately have "l < ?s" using k by linarith
      then show ?thesis using sw(2) [of l] by (intro exI [of _ l]) (auto simp: l)
    next
      case False
      then show ?thesis using un [of "p + k"] k assms(2,3) by (intro exI [of _ k]) auto
    qed
  qed
  show "\<forall>k < length xs. k < p \<or> p + i \<le> k \<longrightarrow> ys ! k = xs ! k"
    using un assms(2) by auto
qed


text \<open>
  The contract of one partition step: a permutation of the segment, split by a pivot value into
  smaller elements, elements equal to it and greater elements, with at least one in the middle.
\<close>

definition split_by :: "'a cmp_f \<Rightarrow> 'a \<Rightarrow> nat \<Rightarrow> nat \<Rightarrow> nat \<Rightarrow> nat \<Rightarrow> 'a list \<Rightarrow> bool" where
  "split_by cmp v p n lt gt ys \<longleftrightarrow> lt < gt \<and> gt \<le> n \<and>
     (\<forall>k < lt. cmp v (ys ! (p + k)) > 0) \<and>
     (\<forall>k. lt \<le> k \<and> k < gt \<longrightarrow> cmp v (ys ! (p + k)) = 0 \<or> ys ! (p + k) = v) \<and>
     (\<forall>k. gt \<le> k \<and> k < n \<longrightarrow> cmp v (ys ! (p + k)) < 0)"

lemma part_inv_split:
  assumes inv: "part_inv cmp v p n i lt i gt xs"
    and sw1: "block_swapped (min lt (i - lt)) p (p + i - min lt (i - lt)) xs ys" and len: "length ys = length xs"
    and sw2: "block_swapped (min (n - gt) (gt - i)) (p + i) (p + n - min (n - gt) (gt - i)) ys zs"
  shows "split_by cmp v p n (i - lt) (n - (gt - i)) zs"
proof -
  have b: "1 \<le> lt" "lt \<le> i" "i \<le> gt" "gt \<le> n" "p + n \<le> length xs" using inv by (auto simp: part_inv_def)
  have low: "cmp v (xs ! (p + k)) = 0 \<or> xs ! (p + k) = v" if "k < lt" for k
    using inv that by (cases k) (auto simp: part_inv_def)
  note r1 = rotate_left_part [OF sw1]
  have "block_swapped (min (gt - i) (n - i - (gt - i))) (p + i) (p + i + (n - i) - min (gt - i) (n - i - (gt - i))) ys zs"
    using sw2 b by (simp add: min.commute)
  note r2 = rotate_left_part [OF this]
  have gi: "gt - i \<le> n - i" "p + i + (n - i) \<le> length ys" using b len by auto
  note r2 = r2 [OF gi]
  have z1: "zs ! (p + k) = ys ! (p + k)" if "k < i" for k using r2(3) b that len by auto
  have z2: "ys ! (p + k) = xs ! (p + k)" if "i \<le> k" "k < n" for k using r1(3) b that by auto
  have "cmp v (zs ! (p + k)) > 0" if k: "k < i - lt" for k
  proof -
    obtain j where "lt \<le> j" "j < i" "ys ! (p + k) = xs ! (p + j)"
      using r1(1) [rule_format, of k] b k by auto
    then show ?thesis using z1 [of k] inv k by (auto simp: part_inv_def)
  qed
  moreover have "cmp v (zs ! (p + k)) = 0 \<or> zs ! (p + k) = v" if k: "i - lt \<le> k" "k < n - (gt - i)" for k
  proof (cases "k < i")
    case True
    then obtain j where "j < lt" "ys ! (p + k) = xs ! (p + j)" 
      using r1(2) [rule_format, of k] b k by auto
    then show ?thesis using z1 [OF True] low [of j] by auto
  next
    case False
    then have "k - i < n - i - (gt - i)" using b k by auto
    then obtain j where "gt - i \<le> j" "j < n - i" "zs ! (p + i + (k - i)) = ys ! (p + i + j)"
      using r2(1) [rule_format, of "k - i"] by auto
    moreover from this(1,2) have "gt \<le> i + j" "i + j < n" using b by auto
    then have "cmp v (xs ! (p + (i + j))) = 0" using inv by (simp add: part_inv_def)
    ultimately show ?thesis using False z2 [of "i + j"] b by (auto simp: add.assoc)
  qed
  moreover have "cmp v (zs ! (p + k)) < 0" if k: "n - (gt - i) \<le> k" "k < n" for k
  proof -
    have "n - i - (gt - i) \<le> k - i \<and> k - i < n - i" using b k by auto
    then obtain j where "j < gt - i" "zs ! (p + i + (k - i)) = ys ! (p + i + j)"
      using r2(2) [rule_format, of "k - i"] by auto
    moreover from this(1) have "i \<le> i + j" "i + j < gt" using b by auto
    then have "cmp v (xs ! (p + (i + j))) < 0" using inv by (simp add: part_inv_def)
    ultimately show ?thesis using z2 [of "i + j"] b k by (auto simp: add.assoc)
  qed
  ultimately show ?thesis using b by (auto simp: split_by_def)
qed

lemma partition_step_ok:
  assumes "6 < n" "p + n \<le> length xs"
  shows "ok (partition_step cmp p n xs) (\<lambda>(ys, lt, gt).
     perm_on p (p + n) xs ys \<and> (\<exists>v. split_by cmp v p n lt gt ys))"
proof -
  let ?m4 = "n div 4"
  obtain m where m: "med3 cmp xs (p + ?m4) (p + 2 * ?m4) (p + 3 * ?m4) = Some m" "p \<le> m" "m < p + n"
  proof -
    have "3 * ?m4 < n" using assms by simp
    then show ?thesis
      using med3_ok [of "p + ?m4" xs "p + 2 * ?m4" "p + 3 * ?m4" cmp] assms that by (auto simp: ok_conv)
  qed
  define xs1 where "xs1 = xs[p := xs ! m, m := xs ! p]"
  have p1: "perm_on p (p + n) xs xs1" unfolding xs1_def using assms m by (intro perm_on_swap) auto
  have "part_inv cmp (xs1 ! p) p n 1 1 n n xs1" using assms perm_on_length [OF p1] by (auto simp: part_inv_def)
  then obtain xs2 i lt gt where l: "part_loop cmp p 1 1 n n xs1 = Some (xs2, i, lt, gt)"
    and inv: "part_inv cmp (xs1 ! p) p n i lt i gt xs2" and p2: "perm_on p (p + n) xs1 xs2"
    using part_loop_ok by (fastforce simp: ok_conv)
  have b: "1 \<le> lt" "lt \<le> i" "i \<le> gt" "gt \<le> n" "p + n \<le> length xs2" using inv by (auto simp: part_inv_def)
  let ?s = "min lt (i - lt)" and ?t = "min (n - gt) (gt - i)"
  have fit: "p + ?s \<le> p + i - ?s" "p + i + ?t \<le> p + n - ?t" using b by auto
  obtain xs3 where e1: "exch_block ?s xs2 p (p + i - ?s) = Some xs3"
    and sw1: "block_swapped ?s p (p + i - ?s) xs2 xs3" and p3: "perm_on p (p + i - ?s + ?s) xs2 xs3"
    using exch_block_ok [OF fit(1), of xs2] b by (auto simp: ok_conv)
  have p3: "perm_on p (p + n) xs2 xs3" using p3 b by (auto intro: perm_on_mono)
  obtain xs4 where e2: "exch_block ?t xs3 (p + i) (p + n - ?t) = Some xs4"
    and sw2: "block_swapped ?t (p + i) (p + n - ?t) xs3 xs4" and p4: "perm_on (p + i) (p + n - ?t + ?t) xs3 xs4"
    using exch_block_ok [OF fit(2), of xs3] b perm_on_length [OF p3] by (auto simp: ok_conv)
  have p4: "perm_on p (p + n) xs3 xs4" using p4 b by (auto intro: perm_on_mono)
  have "partition_step cmp p n xs = Some (xs4, i - lt, n - (gt - i))"
    using m assms by (simp add: partition_step_def xs1_def [symmetric] l [simplified] Let_def e1 e2)
  moreover have "split_by cmp (xs1 ! p) p n (i - lt) (n - (gt - i)) xs4"
    by (rule part_inv_split [OF inv sw1 perm_on_length [OF p3] sw2])
  ultimately show ?thesis using perm_on_trans [OF p1 perm_on_trans [OF p2 perm_on_trans [OF p3 p4]]] by auto
qed

end
