(* ===== verification/Rqsort_Sorted.thy ===== *)
theory Rqsort_Sorted
  imports Rqsort
begin

text \<open>
  Correctness of \<open>rqsort\<close>. The interface to the comparison function is the locale \<open>comparator\<close>: the
  sign of the result is a total preorder. The sortedness of the heap sort, of the partition and of
  the insertion sort is proved inside it; the invariant of the main loop then combines the safety of
  the theory \<open>Rqsort\<close>, which needs nothing of the comparison, with sortedness under that contract.
\<close>

section \<open>Comparison functions\<close>

locale comparator =
  fixes cmp :: "'a cmp_f"
  assumes opposite: "cmp x y < 0 \<longleftrightarrow> cmp y x > 0"
    and le_trans: "cmp x y \<le> 0 \<Longrightarrow> cmp y z \<le> 0 \<Longrightarrow> cmp x z \<le> 0"

definition seg_sorted :: "'a cmp_f \<Rightarrow> nat \<Rightarrow> nat \<Rightarrow> 'a list \<Rightarrow> bool" where
  "seg_sorted cmp p n xs \<longleftrightarrow> (\<forall>a b. a < b \<and> b < n \<longrightarrow> cmp (xs ! (p + a)) (xs ! (p + b)) \<le> 0)"

text \<open>The heap order from node \<open>k\<close> on, and the heap order with a hole at \<open>r\<close>.\<close>

definition child :: "nat \<Rightarrow> nat \<Rightarrow> bool" where
  "child c r \<longleftrightarrow> c = 2 * r + 1 \<or> c = 2 * r + 2"

definition heap_from :: "'a cmp_f \<Rightarrow> nat \<Rightarrow> nat \<Rightarrow> nat \<Rightarrow> 'a list \<Rightarrow> bool" where
  "heap_from cmp p n k xs \<longleftrightarrow>
     (\<forall>r c. k \<le> r \<and> child c r \<and> c < n \<longrightarrow> cmp (xs ! (p + c)) (xs ! (p + r)) \<le> 0)"

definition heap_but :: "'a cmp_f \<Rightarrow> nat \<Rightarrow> nat \<Rightarrow> nat \<Rightarrow> nat \<Rightarrow> 'a list \<Rightarrow> bool" where
  "heap_but cmp p n k r xs \<longleftrightarrow>
     (\<forall>q c. k \<le> q \<and> q \<noteq> r \<and> child c q \<and> c < n \<longrightarrow> cmp (xs ! (p + c)) (xs ! (p + q)) \<le> 0) \<and>
     (\<forall>q c. k \<le> q \<and> child r q \<and> child c r \<and> c < n \<longrightarrow> cmp (xs ! (p + c)) (xs ! (p + q)) \<le> 0)"

text \<open>Behind position \<open>i\<close> everything is in its final place (the extraction loop).\<close>

definition placed_from :: "'a cmp_f \<Rightarrow> nat \<Rightarrow> nat \<Rightarrow> nat \<Rightarrow> 'a list \<Rightarrow> bool" where
  "placed_from cmp p n i xs \<longleftrightarrow>
     (\<forall>a b. a < b \<and> i < b \<and> b < n \<longrightarrow> cmp (xs ! (p + a)) (xs ! (p + b)) \<le> 0)"

text \<open>Elements of the whole array are in order unless they lie in the same pending segment.\<close>

definition ordered_mod :: "'a cmp_f \<Rightarrow> nat \<Rightarrow> (nat \<times> nat) set \<Rightarrow> 'a list \<Rightarrow> bool" where
  "ordered_mod cmp N S xs \<longleftrightarrow> (\<forall>i j. i < j \<and> j < N \<longrightarrow>
     (\<exists>(p, n) \<in> S. p \<le> i \<and> j < p + n) \<or> cmp (xs ! i) (xs ! j) \<le> 0)"

definition apart :: "nat \<times> nat \<Rightarrow> nat \<times> nat \<Rightarrow> bool" where
  "apart s t \<longleftrightarrow> fst s + snd s \<le> fst t \<or> fst t + snd t \<le> fst s"

context comparator
begin

lemma cmp_refl [simp]: "cmp x x = 0"
  using opposite [of x x] by linarith

lemma ge_iff: "cmp x y \<ge> 0 \<longleftrightarrow> cmp y x \<le> 0"
  using opposite [of x y] by linarith

lemma gt_imp: "cmp x y > 0 \<Longrightarrow> cmp y x \<le> 0"
  using opposite [of y x] by linarith

lemma big_child_max:
  "child d r \<Longrightarrow> d < n \<Longrightarrow> cmp (xs ! (p + d)) (xs ! (p + big_child cmp p n r xs)) \<le> 0"
  by (auto simp: child_def big_child_def not_le intro: gt_imp)

lemma child_big: "2 * r + 1 < n \<Longrightarrow> child (big_child cmp p n r xs) r"
  by (auto simp: child_def big_child_def)

lemma heap_but_stop:
  assumes "heap_but cmp p n k r xs" "2 * r + 1 < n" "cmp (xs ! (p + r)) (xs ! (p + big_child cmp p n r xs)) > 0"
  shows "heap_from cmp p n k xs"
proof -
  have "cmp (xs ! (p + c)) (xs ! (p + r)) \<le> 0" if "child c r" "c < n" for c
    using big_child_max [OF that, of xs p] gt_imp [OF assms(3)] by (rule le_trans)
  then show ?thesis using assms(1) unfolding heap_from_def heap_but_def by metis
qed

lemma heap_but_down:
  assumes h: "heap_but cmp p n k r xs" and k: "k \<le> r" and r: "2 * r + 1 < n" and len: "p + n \<le> length xs"
    and le: "cmp (xs ! (p + r)) (xs ! (p + c)) \<le> 0" and c: "c = big_child cmp p n r xs"
  shows "heap_but cmp p n k c (xs[p + r := xs ! (p + c), p + c := xs ! (p + r)])"
proof -
  let ?ys = "xs[p + r := xs ! (p + c), p + c := xs ! (p + r)]"
  have cn: "c < n" "r < c" "child c r" using big_child_bounds(1) [OF r] big_child_bounds(2) child_big [OF r] c by auto
  have nth: "?ys ! (p + j) = (if j = c then xs ! (p + r) else if j = r then xs ! (p + c) else xs ! (p + j))" for j
    using len cn by (auto simp: nth_list_update_if)
  have parent: "q = r" if "child c q" for q using that cn(3) by (auto simp: child_def)
  have "cmp (?ys ! (p + d)) (?ys ! (p + q)) \<le> 0" if q: "k \<le> q" "q \<noteq> c" "child d q" "d < n" for q d
  proof (cases "q = r")
    case True
    then have "cmp (xs ! (p + d)) (xs ! (p + c)) \<le> 0" "d \<noteq> r" using q big_child_max [of d r n xs p] c
      by (auto simp: child_def)
    then show ?thesis using True cn le unfolding nth by auto
  next
    case False
    then have "d \<noteq> c" using q parent by auto
    then show ?thesis using h q cn False unfolding nth heap_but_def by auto
  qed
  moreover have "cmp (?ys ! (p + d)) (?ys ! (p + q)) \<le> 0" if q: "k \<le> q" "child c q" "child d c" "d < n" for q d
  proof -
    have "d \<noteq> c" "d \<noteq> r" using q(3) cn by (auto simp: child_def)
    then show ?thesis using h q k cn parent [OF q(2)] unfolding nth heap_but_def by auto
  qed
  ultimately show ?thesis by (auto simp: heap_but_def)
qed

lemma sift_heap:
  "heap_but cmp p n k r xs \<Longrightarrow> k \<le> r \<Longrightarrow> p + n \<le> length xs \<Longrightarrow>
   ok (sift cmp p n r xs) (heap_from cmp p n k)"
proof (induction "n - r" arbitrary: r xs rule: less_induct)
  case less
  let ?c = "big_child cmp p n r xs"
  show ?case
  proof (cases "2 * r + 1 < n")
    case True
    show ?thesis
    proof (cases "cmp (xs ! (p + r)) (xs ! (p + ?c)) > 0")
      case True
      with heap_but_stop [OF less.prems(1) \<open>2 * r + 1 < n\<close>] less.prems \<open>2 * r + 1 < n\<close> show ?thesis
        by (simp add: sift_unfold [of p n xs] Let_def)
    next
      case False
      have "ok (sift cmp p n ?c (xs[p + r := xs ! (p + ?c), p + ?c := xs ! (p + r)])) (heap_from cmp p n k)"
        using heap_but_down [OF less.prems(1,2) True less.prems(3) _ refl] False less.prems
          big_child_bounds(1) [OF True, of cmp p xs] big_child_bounds(2) [of r cmp p n xs]
        by (intro less.hyps) auto
      then show ?thesis using False True less.prems by (simp add: sift_unfold [of p n xs] Let_def)
    qed
  next
    case False
    then have "\<not> c < n" if "child c r" for c using that by (auto simp: child_def)
    then have "heap_from cmp p n k xs" using less.prems(1) unfolding heap_from_def heap_but_def by metis
    then show ?thesis using False less.prems by (simp add: sift_unfold)
  qed
qed

lemma heap_build_heap:
  "heap_from cmp p n i xs \<Longrightarrow> p + n \<le> length xs \<Longrightarrow> ok (heap_build cmp p n i xs) (heap_from cmp p n 0)"
proof (induction i arbitrary: xs)
  case (Suc i)
  have "heap_but cmp p n i i xs"
    using Suc.prems(1) unfolding heap_from_def heap_but_def child_def by auto
  from ok_conj [OF sift_heap [OF this order_refl Suc.prems(2)] sift_perm [OF Suc.prems(2)]]
  show ?case using Suc by (auto elim!: ok_mono simp: perm_on_length)
qed simp

lemma heap_root_max: "heap_from cmp p n 0 xs \<Longrightarrow> j < n \<Longrightarrow> cmp (xs ! (p + j)) (xs ! p) \<le> 0"
proof (induction j rule: less_induct)
  case (less j)
  show ?case
  proof (cases j)
    case (Suc m)
    have "child j (m div 2)" unfolding child_def Suc by presburger
    then have "cmp (xs ! (p + j)) (xs ! (p + m div 2)) \<le> 0" using less.prems by (auto simp: heap_from_def)
    moreover have "cmp (xs ! (p + m div 2)) (xs ! p) \<le> 0" using less Suc by auto
    ultimately show ?thesis by (rule le_trans)
  qed simp
qed

lemma placed_step:
  assumes heap: "heap_from cmp p (Suc (Suc i)) 0 xs" and pl: "placed_from cmp p n (Suc i) xs"
    and len: "p + n \<le> length xs" "Suc i < n"
    and perm: "perm_on p (p + Suc (Suc i)) xs ys" and last: "ys ! (p + Suc i) = xs ! p"
  shows "placed_from cmp p n i ys"
proof -
  have "cmp (ys ! (p + a)) (ys ! (p + b)) \<le> 0" if ab: "a < b" "i < b" "b < n" for a b
  proof -
    have from_xs: "\<exists>a' < Suc (Suc i). ys ! (p + a) = xs ! (p + a')" if a: "a < Suc (Suc i)"
    proof -
      obtain j where "p \<le> j" "j < p + Suc (Suc i)" "ys ! (p + a) = xs ! j"
        using perm_on_from [OF perm, of "p + a"] len a by auto
      then show ?thesis by (intro exI [of _ "j - p"]) auto
    qed
    have same: "ys ! (p + j) = xs ! (p + j)" if "Suc i < j" "j < n" for j
      using perm_on_outside [OF perm, of "p + j"] len that by auto
    show ?thesis
    proof (cases "b = Suc i")
      case True
      then obtain a' where "a' < Suc (Suc i)" "ys ! (p + a) = xs ! (p + a')" using from_xs ab by auto
      then show ?thesis using heap_root_max [OF heap] last True by metis
    next
      case False
      then have b: "Suc i < b" using ab by simp
      show ?thesis
      proof (cases "a < Suc (Suc i)")
        case True
        then obtain a' where "a' < Suc (Suc i)" "ys ! (p + a) = xs ! (p + a')" using from_xs by auto
        moreover from this b have "a' < b" by simp
        ultimately show ?thesis using pl b ab same [OF b ab(3)] by (auto simp: placed_from_def)
      next
        case False
        then show ?thesis using pl b ab same [of a] same [of b] unfolding placed_from_def by auto
      qed
    qed
  qed
  then show ?thesis by (auto simp: placed_from_def)
qed

lemma heap_extract_sorted:
  "heap_from cmp p (Suc i) 0 xs \<Longrightarrow> placed_from cmp p n i xs \<Longrightarrow> i < n \<Longrightarrow> p + n \<le> length xs \<Longrightarrow>
   ok (heap_extract cmp p i xs) (seg_sorted cmp p n)"
proof (induction i arbitrary: xs)
  case 0
  then show ?case by (auto simp: placed_from_def seg_sorted_def)
next
  case (Suc i)
  let ?xs = "xs[p := xs ! (p + Suc i), p + Suc i := xs ! p]"
  have sw: "perm_on p (p + Suc (Suc i)) xs ?xs" using Suc.prems by (intro perm_on_swap) auto
  have len: "p + Suc i \<le> length ?xs" using Suc.prems by simp
  have "heap_but cmp p (Suc i) 0 0 ?xs"
    using Suc.prems by (auto simp: heap_but_def heap_from_def child_def nth_list_update_if)
  from ok_conj [OF sift_heap [OF this le0 len] sift_perm [OF len, of cmp 0]]
  obtain ys where ys: "sift cmp p (Suc i) 0 ?xs = Some ys" and heap: "heap_from cmp p (Suc i) 0 ys"
    and perm: "perm_on p (p + Suc i) ?xs ys" by (auto simp: ok_conv)
  have "perm_on p (p + Suc (Suc i)) xs ys"
    using sw perm_on_mono [OF perm, of p "p + Suc (Suc i)"] by (auto intro: perm_on_trans)
  moreover have "ys ! (p + Suc i) = xs ! p"
    using perm_on_outside [OF perm, of "p + Suc i"] Suc.prems by (simp add: nth_list_update_if)
  ultimately have "placed_from cmp p n i ys" using placed_step Suc.prems by blast
  moreover have "length ys = length xs" using perm_on_length [OF perm] by simp
  ultimately show ?case using Suc heap ys by simp
qed

lemma heapsortx_sorted:
  assumes "p + n \<le> length xs"
  shows "ok (heapsortx cmp p n xs) (seg_sorted cmp p n)"
proof (cases "n > 1")
  case True
  have "\<not> c < n" if "n div 2 \<le> r" "child c r" for r c
  proof -
    have "n < 2 * r + 2" using that(1) by linarith
    then show ?thesis using that(2) by (auto simp: child_def)
  qed
  then have "heap_from cmp p n (n div 2) xs" by (auto simp: heap_from_def)
  from ok_conj [OF heap_build_heap [OF this assms] heap_build_perm [OF assms]]
  obtain ys where ys: "heap_build cmp p n (n div 2) xs = Some ys" "heap_from cmp p n 0 ys" "perm_on p (p + n) xs ys"
    by (auto simp: ok_conv)
  have "placed_from cmp p n (n - 1) ys" using True by (simp add: placed_from_def) linarith
  then have "ok (heap_extract cmp p (n - 1) ys) (seg_sorted cmp p n)"
    using heap_extract_sorted [of p "n - 1" ys n] True assms ys perm_on_length [OF ys(3)] by simp
  then show ?thesis using True ys by (simp add: heapsortx_def)
qed (auto simp: heapsortx_def seg_sorted_def)


text \<open>Insertion sort: everything up to \<open>i\<close> is in order except the element on its way down, at \<open>j\<close>.\<close>

lemma insert_down_sorted:
  "(\<forall>a b. a < b \<and> b \<le> i \<and> b \<noteq> j \<longrightarrow> cmp (xs ! (p + a)) (xs ! (p + b)) \<le> 0) \<Longrightarrow> j \<le> i \<Longrightarrow>
   p + i < length xs \<Longrightarrow> ok (insert_down cmp p j xs) (seg_sorted cmp p (Suc i))"
proof (induction j arbitrary: xs)
  case 0
  then show ?case by (auto simp: seg_sorted_def)
next
  case (Suc j)
  note ord = Suc.prems(1) [rule_format]
  show ?case
  proof (cases "cmp (xs ! (p + j)) (xs ! (p + Suc j)) > 0")
    case True
    let ?ys = "xs[p + Suc j := xs ! (p + j), p + j := xs ! (p + Suc j)]"
    have nth: "?ys ! (p + k) = (if k = j then xs ! (p + Suc j) else if k = Suc j then xs ! (p + j) else xs ! (p + k))"
      for k using Suc.prems(2,3) by (auto simp: nth_list_update_if)
    have "cmp (?ys ! (p + a)) (?ys ! (p + b)) \<le> 0" if ab: "a < b" "b \<le> i" "b \<noteq> j" for a b
    proof (cases "b = Suc j")
      case True
      then show ?thesis
        using gt_imp [OF \<open>cmp (xs ! (p + j)) (xs ! (p + Suc j)) > 0\<close>] ord [of a j] ab Suc.prems(2)
        unfolding nth by (cases "a = j") auto
    next
      case False
      then show ?thesis using ord [of a b] ord [of j b] ord [of "Suc j" b] ab unfolding nth by auto
    qed
    then have "ok (insert_down cmp p j ?ys) (seg_sorted cmp p (Suc i))"
      using Suc.prems(2,3) by (intro Suc.IH) auto
    then show ?thesis using True Suc.prems by simp
  next
    case False
    then have le: "cmp (xs ! (p + j)) (xs ! (p + Suc j)) \<le> 0" by simp
    have "cmp (xs ! (p + a)) (xs ! (p + Suc j)) \<le> 0" if "a < Suc j" for a
    proof (cases "a = j")
      case True
      then show ?thesis using le by simp
    next
      case False
      then have "cmp (xs ! (p + a)) (xs ! (p + j)) \<le> 0" using ord [of a j] that Suc.prems(2) by simp
      then show ?thesis using le by (rule le_trans)
    qed
    then have "seg_sorted cmp p (Suc i) xs"
      unfolding seg_sorted_def using ord by (metis less_Suc_eq_le)
    then show ?thesis using False Suc.prems by simp
  qed
qed

lemma insertion_loop_sorted:
  "seg_sorted cmp p i xs \<Longrightarrow> i \<le> n \<Longrightarrow> p + n \<le> length xs \<Longrightarrow> ok (insertion_loop cmp p n i xs) (seg_sorted cmp p n)"
proof (induction "n - i" arbitrary: i xs rule: less_induct)
  case less
  show ?case
  proof (cases "i < n")
    case True
    have "ok (insert_down cmp p i xs) (seg_sorted cmp p (Suc i))"
      using less.prems True by (intro insert_down_sorted) (auto simp: seg_sorted_def)
    from ok_conj [OF this insert_down_perm [OF less.prems(3) True, of cmp]]
    obtain ys where ys: "insert_down cmp p i xs = Some ys" "seg_sorted cmp p (Suc i) ys" "perm_on p (p + n) xs ys"
      by (auto simp: ok_conv)
    have "ok (insertion_loop cmp p n (Suc i) ys) (seg_sorted cmp p n)"
      using less.prems True ys perm_on_length [OF ys(3)] by (intro less.hyps) auto
    then show ?thesis using True ys by (subst insertion_loop.simps) simp
  next
    case False
    then show ?thesis using less.prems by (simp add: insertion_loop.simps)
  qed
qed

lemma insertion_sort_sorted:
  assumes "p + n \<le> length xs"
  shows "ok (insertion_loop cmp p n 1 xs) (seg_sorted cmp p n)"
proof (cases n)
  case 0
  then show ?thesis by (simp add: insertion_loop.simps seg_sorted_def)
next
  case (Suc m)
  then show ?thesis using assms by (intro insertion_loop_sorted) (auto simp: seg_sorted_def)
qed

text \<open>A partition step refines the pending segments.\<close>

lemma split_orders:
  assumes "split_by cmp v p n lt gt ys" "a < b" "b < n" "a < gt" "lt \<le> b"
  shows "cmp (ys ! (p + a)) (ys ! (p + b)) \<le> 0"
proof -
  have le: "cmp (ys ! (p + a)) v \<le> 0"
  proof (cases "a < lt")
    case True
    then show ?thesis using assms by (auto simp: split_by_def intro: gt_imp)
  next
    case False
    then have "cmp v (ys ! (p + a)) = 0 \<or> ys ! (p + a) = v" using assms by (simp add: split_by_def)
    then show ?thesis by (auto simp: ge_iff [symmetric])
  qed
  have ge: "cmp v (ys ! (p + b)) \<le> 0"
  proof (cases "b < gt")
    case True
    then have "cmp v (ys ! (p + b)) = 0 \<or> ys ! (p + b) = v" using assms by (simp add: split_by_def)
    then show ?thesis by auto
  next
    case False
    then have "cmp v (ys ! (p + b)) < 0" using assms by (simp add: split_by_def)
    then show ?thesis by simp
  qed
  from le ge show ?thesis by (rule le_trans)
qed

lemma ordered_mod_split:
  assumes "ordered_mod cmp N (insert (p, n) S) ys" and sp: "split_by cmp v p n lt gt ys"
  shows "ordered_mod cmp N (insert (p, lt) (insert (p + gt, n - gt) S)) ys"
  unfolding ordered_mod_def
proof (intro allI impI)
  fix i j assume ij: "i < j \<and> j < N"
  show "(\<exists>(q, m) \<in> insert (p, lt) (insert (p + gt, n - gt) S). q \<le> i \<and> j < q + m) \<or> cmp (ys ! i) (ys ! j) \<le> 0"
  proof (cases "p \<le> i \<and> j < p + n")
    case True
    then obtain a b where ab: "i = p + a" "j = p + b" using ij by (metis le_iff_add less_imp_le order_trans)
    have "gt \<le> n" using sp by (simp add: split_by_def)
    then consider "b < lt" | "gt \<le> a" "p + b < p + gt + (n - gt)" | "a < gt" "lt \<le> b"
      using True ab by linarith
    then show ?thesis
    proof cases
      case 3
      then show ?thesis using split_orders [OF sp, of a b] True ij ab by simp
    qed (simp_all add: ab)
  next
    case False
    have "(\<exists>(q, m) \<in> insert (p, n) S. q \<le> i \<and> j < q + m) \<or> cmp (ys ! i) (ys ! j) \<le> 0"
      using assms(1) ij unfolding ordered_mod_def by blast
    then show ?thesis using False by auto
  qed
qed

end


section \<open>The main loop\<close>

lemma ordered_mod_perm:
  assumes perm: "perm_on p (p + n) xs ys" and o: "ordered_mod cmp N (insert (p, n) S) xs"
    and ap: "\<forall>s \<in> S. apart (p, n) s" and len: "p + n \<le> N" "N \<le> length xs"
  shows "ordered_mod cmp N (insert (p, n) S) ys"
  unfolding ordered_mod_def
proof (intro allI impI)
  fix i j assume ij: "i < j \<and> j < N"
  let ?cov = "\<lambda>i j. \<exists>(q, m) \<in> insert (p, n) S. q \<le> i \<and> j < q + m"
  have le: "?cov i j \<or> cmp (xs ! i) (xs ! j) \<le> 0" if "i < j" "j < N" for i j
    using o that unfolding ordered_mod_def by blast
  have outside: "ys ! k = xs ! k" if "k < p \<or> p + n \<le> k" "k < N" for k
    using perm_on_outside [OF perm] that len by simp
  have inside: "\<exists>k'. p \<le> k' \<and> k' < p + n \<and> ys ! k = xs ! k'" if k: "p \<le> k" "k < p + n" for k
    using perm_on_from [OF perm k(1) k(2)] len by (metis order_trans)
  have uncov: "\<not> ?cov a b" if "p \<le> a \<and> a < p + n \<and> p + n \<le> b \<or> a < p \<and> p \<le> b \<and> b < p + n" for a b
    using ap that by (fastforce simp: apart_def)
  show "?cov i j \<or> cmp (ys ! i) (ys ! j) \<le> 0"
  proof (cases "p \<le> i \<and> i < p + n"; cases "p \<le> j \<and> j < p + n")
    assume 1: "p \<le> i \<and> i < p + n" and 2: "p \<le> j \<and> j < p + n"
    then show ?thesis by auto
  next
    assume 1: "p \<le> i \<and> i < p + n" and 2: "\<not> (p \<le> j \<and> j < p + n)"
    then obtain i' where i': "p \<le> i'" "i' < p + n" "ys ! i = xs ! i'" using inside by blast
    have j: "p + n \<le> j" using 1 2 ij by linarith
    then show ?thesis using le [of i' j] uncov [of i' j] outside [of j] i' ij by auto
  next
    assume 1: "\<not> (p \<le> i \<and> i < p + n)" and 2: "p \<le> j \<and> j < p + n"
    then obtain j' where j': "p \<le> j'" "j' < p + n" "ys ! j = xs ! j'" using inside by blast
    have i: "i < p" using 1 2 ij by linarith
    then show ?thesis using le [of i j'] uncov [of i j'] outside [of i] j' ij len by auto
  next
    assume 1: "\<not> (p \<le> i \<and> i < p + n)" and 2: "\<not> (p \<le> j \<and> j < p + n)"
    then have "ys ! i = xs ! i" "ys ! j = xs ! j" using outside ij by auto
    then show ?thesis using le ij by simp
  qed
qed

lemma ordered_mod_done:
  assumes "ordered_mod cmp N (insert (p, n) S) xs" "seg_sorted cmp p n xs"
  shows "ordered_mod cmp N S xs"
  unfolding ordered_mod_def
proof (intro allI impI)
  fix i j assume ij: "i < j \<and> j < N"
  show "(\<exists>(q, m) \<in> S. q \<le> i \<and> j < q + m) \<or> cmp (xs ! i) (xs ! j) \<le> 0"
  proof (cases "p \<le> i \<and> j < p + n")
    case True
    then have "cmp (xs ! (p + (i - p))) (xs ! (p + (j - p))) \<le> 0"
      using assms(2) ij unfolding seg_sorted_def by (metis diff_less_mono less_diff_conv2 less_imp_le order_trans add.commute)
    then show ?thesis using True ij by simp
  next
    case False
    have "(\<exists>(q, m) \<in> insert (p, n) S. q \<le> i \<and> j < q + m) \<or> cmp (xs ! i) (xs ! j) \<le> 0"
      using assms(1) ij unfolding ordered_mod_def by blast
    then show ?thesis using False by auto
  qed
qed

text \<open>
  The stack discipline: an entry at stack position \<open>k\<close> has depth at least \<open>k\<close>. As the depth of a
  pushed segment is at most 50 and the loop falls back to the heap sort beyond it, the 50 entries are
  enough, whatever the comparison function returns.
\<close>

fun depth_ok :: "segment list \<Rightarrow> bool" where
  "depth_ok [] \<longleftrightarrow> True"
| "depth_ok (s # st) \<longleftrightarrow> length st \<le> seg_depth s \<and> depth_ok st"

definition seg_of :: "segment \<Rightarrow> nat \<times> nat" where
  "seg_of s = (seg_base s, seg_count s)"

definition weight :: "segment list \<Rightarrow> nat" where
  "weight stack = sum_list (map (\<lambda>s. seg_count s + 1) stack)"

definition stack_inv :: "'a cmp_f \<Rightarrow> nat \<Rightarrow> 'a list \<Rightarrow> segment list \<Rightarrow> (nat \<times> nat) list \<Rightarrow> 'a list \<Rightarrow> bool" where
  "stack_inv cmp N xs0 stack segs xs \<longleftrightarrow> N \<le> length xs \<and> perm_on 0 N xs0 xs \<and> depth_ok stack \<and>
     (\<forall>(p, n) \<in> set segs. p + n \<le> N) \<and> sorted_wrt apart segs \<and>
     (comparator cmp \<longrightarrow> ordered_mod cmp N (set segs) xs)"

lemma stack_inv_perm:
  assumes "stack_inv cmp N xs0 stack ((p, n) # segs) xs" "perm_on p (p + n) xs ys"
  shows "stack_inv cmp N xs0 stack ((p, n) # segs) ys"
proof -
  have b: "p + n \<le> N" "N \<le> length xs" using assms(1) by (auto simp: stack_inv_def)
  have "perm_on 0 N xs0 ys" using assms b by (auto simp: stack_inv_def intro: perm_on_trans [OF _ perm_on_mono])
  moreover have "ordered_mod cmp N (insert (p, n) (set segs)) ys" if "comparator cmp"
    using ordered_mod_perm [OF assms(2) _ _ b] assms(1) that by (auto simp: stack_inv_def)
  ultimately show ?thesis using assms by (auto simp: stack_inv_def perm_on_length)
qed

lemma stack_inv_done:
  assumes "stack_inv cmp N xs0 stack ((p, n) # segs) xs" "comparator cmp \<longrightarrow> seg_sorted cmp p n xs"
  shows "stack_inv cmp N xs0 stack segs xs"
  using assms ordered_mod_done by (auto simp: stack_inv_def)

lemma stack_inv_split:
  assumes inv: "stack_inv cmp N xs0 stack ((p, n) # segs) xs" and sp: "split_by cmp v p n lt gt xs"
  shows "stack_inv cmp N xs0 stack ((p, lt) # (p + gt, n - gt) # segs) xs"
    and "stack_inv cmp N xs0 stack ((p + gt, n - gt) # (p, lt) # segs) xs"
proof -
  have b: "lt < gt" "gt \<le> n" using sp by (auto simp: split_by_def)
  have "ordered_mod cmp N (insert (p, lt) (insert (p + gt, n - gt) (set segs))) xs" if "comparator cmp"
    using comparator.ordered_mod_split [OF that _ sp] inv that by (auto simp: stack_inv_def)
  moreover have "apart (p, lt) s \<and> apart (p + gt, n - gt) s" if "s \<in> set segs" for s
    using inv that b by (fastforce simp: stack_inv_def apart_def)
  ultimately show "stack_inv cmp N xs0 stack ((p, lt) # (p + gt, n - gt) # segs) xs"
    and "stack_inv cmp N xs0 stack ((p + gt, n - gt) # (p, lt) # segs) xs"
    using inv b by (auto simp: stack_inv_def apart_def insert_commute)
qed


lemma stack_inv_push:
  "stack_inv cmp N xs0 stack segs xs \<Longrightarrow> length stack \<le> seg_depth s \<Longrightarrow> stack_inv cmp N xs0 (s # stack) segs xs"
  by (simp add: stack_inv_def)

lemma quick_loop_ok:
  "stack_inv cmp N xs0 stack ((p, n) # map seg_of stack) xs \<Longrightarrow> length stack \<le> depth \<Longrightarrow>
   ok (quick_loop cmp p n depth stack xs) (\<lambda>(p', n', stack', xs').
     stack_inv cmp N xs0 stack' ((p', n') # map seg_of stack') xs' \<and> n' + weight stack' \<le> n + weight stack)"
proof (induction "51 - depth" arbitrary: p n depth stack xs rule: less_induct)
  case less
  note inv = less.prems(1)
  have len: "p + n \<le> length xs" using inv by (auto simp: stack_inv_def)
  show ?case
  proof (cases "n > 6")
    case False
    then show ?thesis using inv by (simp add: quick_loop.simps)
  next
    case n: True
    show ?thesis
    proof (cases "depth + 1 > 50")
      case True
      have "ok (heapsortx cmp p n xs) (\<lambda>ys. comparator cmp \<longrightarrow> seg_sorted cmp p n ys)"
        using comparator.heapsortx_sorted [OF _ len] heapsortx_perm [OF len, of cmp] by (auto simp: ok_conv)
      from ok_conj [OF heapsortx_perm [OF len, of cmp] this]
      obtain ys where ys: "heapsortx cmp p n xs = Some ys" and perm: "perm_on p (p + n) xs ys"
        and sorted: "comparator cmp \<longrightarrow> seg_sorted cmp p n ys" by (auto simp: ok_conv)
      have "stack_inv cmp N xs0 stack (map seg_of stack) ys"
        by (rule stack_inv_done [OF stack_inv_perm [OF inv perm] sorted])
      then have "stack_inv cmp N xs0 stack ((p, 0) # map seg_of stack) ys"
        using stack_inv_perm [OF inv perm] by (auto simp: stack_inv_def apart_def ordered_mod_def)
      then show ?thesis using n True ys by (simp add: quick_loop.simps)
    next
      case False
      obtain ys lt gt v where part: "partition_step cmp p n xs = Some (ys, lt, gt)"
        and perm: "perm_on p (p + n) xs ys" and sp: "split_by cmp v p n lt gt ys"
        using partition_step_ok [OF n len, of cmp] by (auto simp: ok_conv)
      note sinv = stack_inv_split [OF stack_inv_perm [OF inv perm] sp]
      have b: "lt < gt" "gt \<le> n" using sp by (auto simp: split_by_def)
      have room: "length stack < 50" using less.prems(2) False by simp
      let ?l = "\<lparr>seg_base = p, seg_count = lt, seg_depth = depth + 1\<rparr>"
      let ?r = "\<lparr>seg_base = p + gt, seg_count = n - gt, seg_depth = depth + 1\<rparr>"
      have "ok (quick_loop cmp (p + gt) (n - gt) (depth + 1) (?l # stack) ys) (\<lambda>(p', n', stack', xs').
          stack_inv cmp N xs0 stack' ((p', n') # map seg_of stack') xs' \<and>
          n' + weight stack' \<le> n - gt + weight (?l # stack))"
        using sinv(2) less.prems(2) False
        by (intro less.hyps) (auto simp: seg_of_def intro!: stack_inv_push)
      moreover have "ok (quick_loop cmp p lt (depth + 1) (?r # stack) ys) (\<lambda>(p', n', stack', xs').
          stack_inv cmp N xs0 stack' ((p', n') # map seg_of stack') xs' \<and>
          n' + weight stack' \<le> lt + weight (?r # stack))"
        using sinv(1) less.prems(2) False
        by (intro less.hyps) (auto simp: seg_of_def intro!: stack_inv_push)
      ultimately show ?thesis
        using n False part room b by (subst quick_loop.simps) (auto simp: push_def weight_def elim!: ok_mono)
    qed
  qed
qed

lemma rqsort_loop_ok:
  "stack_inv cmp N xs0 stack (map seg_of stack) xs \<Longrightarrow>
   ok (rqsort_loop cmp stack xs) (\<lambda>ys. stack_inv cmp N xs0 [] [] ys)"
proof (induction "weight stack" arbitrary: stack xs rule: less_induct)
  case less
  show ?case
  proof (cases stack)
    case Nil
    then show ?thesis using less.prems by (simp add: rqsort_loop.simps)
  next
    case (Cons s st)
    have "stack_inv cmp N xs0 st ((seg_base s, seg_count s) # map seg_of st) xs" "length st \<le> seg_depth s"
      using less.prems Cons by (auto simp: stack_inv_def seg_of_def)
    from quick_loop_ok [OF this] obtain p n stack1 xs1
      where q: "quick_loop cmp (seg_base s) (seg_count s) (seg_depth s) st xs = Some (p, n, stack1, xs1)"
        and inv1: "stack_inv cmp N xs0 stack1 ((p, n) # map seg_of stack1) xs1"
        and w: "n + weight stack1 \<le> seg_count s + weight st" by (auto simp: ok_conv)
    have len: "p + n \<le> length xs1" using inv1 by (auto simp: stack_inv_def)
    have "ok (insertion_loop cmp p n 1 xs1) (\<lambda>ys. comparator cmp \<longrightarrow> seg_sorted cmp p n ys)"
      using comparator.insertion_sort_sorted [OF _ len] insertion_loop_perm [OF len, of cmp 1] by (auto simp: ok_conv)
    from ok_conj [OF insertion_loop_perm [OF len, of cmp 1] this]
    obtain xs2 where i: "insertion_loop cmp p n 1 xs1 = Some xs2" and perm: "perm_on p (p + n) xs1 xs2"
      and sorted: "comparator cmp \<longrightarrow> seg_sorted cmp p n xs2" by (auto simp: ok_conv)
    have "stack_inv cmp N xs0 stack1 (map seg_of stack1) xs2"
      by (rule stack_inv_done [OF stack_inv_perm [OF inv1 perm] sorted])
    then have "ok (rqsort_loop cmp stack1 xs2) (\<lambda>ys. stack_inv cmp N xs0 [] [] ys)"
      using w Cons by (intro less.hyps) (auto simp: weight_def)
    then show ?thesis using q i Cons by (subst rqsort_loop.simps) simp
  qed
qed

lemma rqsort_ok:
  assumes "N \<le> length xs"
  shows "ok (rqsort cmp N xs) (\<lambda>ys. perm_on 0 N xs ys \<and> (comparator cmp \<longrightarrow> seg_sorted cmp 0 N ys))"
proof (cases "N < 2")
  case True
  then show ?thesis by (auto simp: rqsort_def seg_sorted_def)
next
  case False
  let ?s = "\<lparr>seg_base = 0, seg_count = N, seg_depth = 0\<rparr>"
  have "stack_inv cmp N xs [?s] (map seg_of [?s]) xs"
    using assms by (auto simp: stack_inv_def seg_of_def ordered_mod_def)
  from rqsort_loop_ok [OF this] show ?thesis
    using False by (auto simp: rqsort_def push_def stack_inv_def ordered_mod_def seg_sorted_def elim!: ok_mono)
qed


section \<open>The comparison functions of the callers\<close>

text \<open>
  The typed-array comparators of src/quickjs/quickjs.c on the loaded values, and \<open>num_keys_cmp\<close> on
  the two array indices it has read from its atoms.
\<close>

definition js_TA_cmp_int8 :: "u8 cmp_f" where
  "js_TA_cmp_int8 a b = sint a - sint b"

definition js_TA_cmp_uint8 :: "u8 cmp_f" where
  "js_TA_cmp_uint8 a b = uint a - uint b"

definition js_TA_cmp_int16 :: "u16 cmp_f" where
  "js_TA_cmp_int16 a b = sint a - sint b"

definition js_TA_cmp_uint16 :: "u16 cmp_f" where
  "js_TA_cmp_uint16 a b = uint a - uint b"

definition js_TA_cmp_int32 :: "u32 cmp_f" where
  "js_TA_cmp_int32 x y = of_bool (y <s x) - of_bool (x <s y)"

definition js_TA_cmp_uint32 :: "u32 cmp_f" where
  "js_TA_cmp_uint32 x y = of_bool (y < x) - of_bool (x < y)"

definition js_TA_cmp_int64 :: "u64 cmp_f" where
  "js_TA_cmp_int64 x y = of_bool (y <s x) - of_bool (x <s y)"

definition js_TA_cmp_uint64 :: "u64 cmp_f" where
  "js_TA_cmp_uint64 x y = of_bool (y < x) - of_bool (x < y)"

definition num_keys_cmp :: "u32 cmp_f" where
  "num_keys_cmp v1 v2 = (if v1 < v2 then -1 else if v1 = v2 then 0 else 1)"

interpretation ta_int8: comparator js_TA_cmp_int8
  by unfold_locales (auto simp: js_TA_cmp_int8_def)

interpretation ta_uint8: comparator js_TA_cmp_uint8
  by unfold_locales (auto simp: js_TA_cmp_uint8_def)

interpretation ta_int16: comparator js_TA_cmp_int16
  by unfold_locales (auto simp: js_TA_cmp_int16_def)

interpretation ta_uint16: comparator js_TA_cmp_uint16
  by unfold_locales (auto simp: js_TA_cmp_uint16_def)

interpretation ta_int32: comparator js_TA_cmp_int32
  by unfold_locales (auto simp: js_TA_cmp_int32_def of_bool_def word_sless_alt split: if_splits)

interpretation ta_uint32: comparator js_TA_cmp_uint32
  by unfold_locales (auto simp: js_TA_cmp_uint32_def of_bool_def split: if_splits)

interpretation ta_int64: comparator js_TA_cmp_int64
  by unfold_locales (auto simp: js_TA_cmp_int64_def of_bool_def word_sless_alt split: if_splits)

interpretation ta_uint64: comparator js_TA_cmp_uint64
  by unfold_locales (auto simp: js_TA_cmp_uint64_def of_bool_def split: if_splits)

interpretation num_keys: comparator num_keys_cmp
  by unfold_locales (auto simp: num_keys_cmp_def split: if_splits)

text \<open>What \<open>cmp x y \<le> 0\<close> means for the values.\<close>

lemma ta_le_signed [simp]:
  "js_TA_cmp_int8 a b \<le> 0 \<longleftrightarrow> sint a \<le> sint b" "js_TA_cmp_int16 c d \<le> 0 \<longleftrightarrow> sint c \<le> sint d"
  "js_TA_cmp_int32 e f \<le> 0 \<longleftrightarrow> sint e \<le> sint f" "js_TA_cmp_int64 g h \<le> 0 \<longleftrightarrow> sint g \<le> sint h"
  by (auto simp: js_TA_cmp_int8_def js_TA_cmp_int16_def js_TA_cmp_int32_def js_TA_cmp_int64_def
      word_sless_alt of_bool_def split: if_splits)

lemma ta_le_unsigned [simp]:
  "js_TA_cmp_uint8 a b \<le> 0 \<longleftrightarrow> a \<le> b" "js_TA_cmp_uint16 c d \<le> 0 \<longleftrightarrow> c \<le> d"
  "js_TA_cmp_uint32 e f \<le> 0 \<longleftrightarrow> e \<le> f" "js_TA_cmp_uint64 g h \<le> 0 \<longleftrightarrow> g \<le> h"
  "num_keys_cmp e f \<le> 0 \<longleftrightarrow> e \<le> f"
  by (simp_all only: js_TA_cmp_uint8_def js_TA_cmp_uint16_def word_le_def [of a] word_le_def [of c])
     (auto simp: js_TA_cmp_uint32_def js_TA_cmp_uint64_def num_keys_cmp_def of_bool_def split: if_splits)

section \<open>Properties\<close>

lemma perm_on_prefix:
  assumes "perm_on 0 n xs ys" "n \<le> length xs"
  shows "mset (take n ys) = mset (take n xs)" "drop n ys = drop n xs"
proof -
  show d: "drop n ys = drop n xs"
    using assms by (auto intro!: nth_equalityI simp: perm_on_def)
  have "mset (take n ys) + mset (drop n ys) = mset (take n xs) + mset (drop n xs)"
    using assms by (simp add: perm_on_def flip: mset_append)
  then show "mset (take n ys) = mset (take n xs)" using d by simp
qed

lemma seg_sorted_prefix:
  "seg_sorted cmp 0 n ys \<Longrightarrow> sorted_wrt (\<lambda>x y. cmp x y \<le> 0) (take n ys)"
  by (auto simp: seg_sorted_def sorted_wrt_iff_nth_less)

text \<open>
  C6. Whatever the comparison function returns - also when its answers are inconsistent, as those
  of a script may be - \<open>rqsort\<close> accesses only the \<open>nmemb\<close> elements it was given, its loops end, its
  stack of 50 segments does not overflow, and it permutes the elements.
\<close>

theorem rqsort_permutes:
  assumes "nmemb \<le> length xs"
  shows "ok (rqsort cmp nmemb xs) (\<lambda>ys. length ys = length xs \<and>
     mset (take nmemb ys) = mset (take nmemb xs) \<and> drop nmemb ys = drop nmemb xs)"
  by (rule ok_mono [OF rqsort_ok [OF assms]])
     (auto intro: perm_on_prefix(1) [OF _ assms] perm_on_prefix(2) [OF _ assms] simp: perm_on_length)

theorem rqsort_permutes_witness:
  "ok (rqsort (\<lambda>_ _. 1) 7 [3, 1, 2, 5, 4, 7, 6, 9 :: nat]) (\<lambda>ys. mset (take 7 ys) = {# 1, 2, 3, 4, 5, 6, 7 #} \<and>
     drop 7 ys = [9])"
  by (rule ok_mono [OF rqsort_permutes]) (auto simp: add_mset_commute)

text \<open>
  C7. When the sign of the comparison function is a total preorder (the locale \<open>comparator\<close>),
  \<open>rqsort\<close> sorts: the quick sort, its fall-back to the heap sort beyond depth 50 and the insertion
  sort of small segments together leave the elements in order.
\<close>

theorem rqsort_sorts:
  assumes "comparator cmp" and "nmemb \<le> length xs"
  shows "ok (rqsort cmp nmemb xs) (\<lambda>ys. sorted_wrt (\<lambda>x y. cmp x y \<le> 0) (take nmemb ys) \<and>
     mset (take nmemb ys) = mset (take nmemb xs))"
  by (rule ok_mono [OF rqsort_ok [OF assms(2)]])
     (auto simp: assms(1) intro: seg_sorted_prefix perm_on_prefix(1) [OF _ assms(2)])

theorem rqsort_sorts_witness:
  "ok (rqsort js_TA_cmp_int8 9 [5, 0xff, 3, 0x80, 7, 0, 2, 9, 1]) (\<lambda>ys.
     sorted_wrt (\<lambda>x y. sint x \<le> sint y) (take 9 ys))"
  using rqsort_sorts [OF ta_int8.comparator_axioms, of 9 "[5, 0xff, 3, 0x80, 7, 0, 2, 9, 1]"]
  by (auto elim!: ok_mono)

text \<open>
  C27. The comparators of \<open>TypedArray.prototype.sort\<close> and of the property enumeration give the
  numeric order of the element type: sorting with them yields a list that is sorted as signed or
  unsigned numbers, including the values where a difference at the element's width would wrap.
\<close>

theorem typed_array_sort:
  assumes "len \<le> length as" "len \<le> length bs" "len \<le> length cs" "len \<le> length ds"
  shows "ok (rqsort js_TA_cmp_int8 len as) (\<lambda>ys. sorted (map sint (take len ys))) \<and>
    ok (rqsort js_TA_cmp_uint8 len as) (\<lambda>ys. sorted (take len ys)) \<and>
    ok (rqsort js_TA_cmp_int16 len bs) (\<lambda>ys. sorted (map sint (take len ys))) \<and>
    ok (rqsort js_TA_cmp_uint16 len bs) (\<lambda>ys. sorted (take len ys)) \<and>
    ok (rqsort js_TA_cmp_int32 len cs) (\<lambda>ys. sorted (map sint (take len ys))) \<and>
    ok (rqsort js_TA_cmp_uint32 len cs) (\<lambda>ys. sorted (take len ys)) \<and>
    ok (rqsort js_TA_cmp_int64 len ds) (\<lambda>ys. sorted (map sint (take len ys))) \<and>
    ok (rqsort js_TA_cmp_uint64 len ds) (\<lambda>ys. sorted (take len ys)) \<and>
    ok (rqsort num_keys_cmp len cs) (\<lambda>ys. sorted (take len ys))"
proof -
  have s: "ok (rqsort cmp len xs) (\<lambda>ys. sorted_wrt (\<lambda>x y. cmp x y \<le> 0) (take len ys))"
    if "comparator cmp" "len \<le> length xs" for cmp :: "'x cmp_f" and xs
    by (rule ok_mono [OF rqsort_ok [OF that(2)]]) (auto simp: that(1) intro: seg_sorted_prefix)
  show ?thesis
    using s [OF ta_int8.comparator_axioms assms(1)] s [OF ta_uint8.comparator_axioms assms(1)]
      s [OF ta_int16.comparator_axioms assms(2)] s [OF ta_uint16.comparator_axioms assms(2)]
      s [OF ta_int32.comparator_axioms assms(3)] s [OF ta_uint32.comparator_axioms assms(3)]
      s [OF ta_int64.comparator_axioms assms(4)] s [OF ta_uint64.comparator_axioms assms(4)]
      s [OF num_keys.comparator_axioms assms(3)]
    by (simp add: sorted_wrt_map)
qed

theorem typed_array_sort_witness:
  "ok (rqsort js_TA_cmp_int8 2 [0x7f, 0x80]) (\<lambda>ys. sorted (map sint (take 2 ys)))"
  using typed_array_sort [of 2 "[0x7f, 0x80]" "[0, 0]" "[0, 0]" "[0, 0]"] by simp

end
