(* ===== verification/Exchange.thy ===== *)
theory Exchange
  imports Rqsort
begin

unbundle bit_operations_syntax

text \<open>
  The byte-level exchange functions of src/quickjs/cutils.c and their selection by \<open>exchange_func\<close>.
  Memory is a list of bytes indexed by address. A \<open>k\<close>-byte integer is the list of its \<open>k\<close> bytes (it
  is only loaded and stored here); an access that is not aligned to \<open>k\<close> or that leaves the memory is
  \<^term>\<open>None\<close>. The main results relate the chosen function to \<open>exch\<close> and \<open>exch_block\<close>, the exchange
  of elements used in the theory \<open>Rqsort\<close>.
\<close>

type_synonym bytes = "u8 list"
type_synonym exchange_f = "bytes \<Rightarrow> nat \<Rightarrow> nat \<Rightarrow> nat \<Rightarrow> bytes option"

definition ld_unit :: "nat \<Rightarrow> bytes \<Rightarrow> nat \<Rightarrow> bytes option" where
  "ld_unit k m a = (if a mod k = 0 then slice m a k else None)"

definition st_unit :: "nat \<Rightarrow> bytes \<Rightarrow> nat \<Rightarrow> bytes \<Rightarrow> bytes option" where
  "st_unit k m a v = (if a mod k = 0 then blit m a v else None)"

text \<open>\<open>t = *ap; *ap = *bp; *bp = t;\<close> with \<open>k\<close>-byte integers, and the loop around it.\<close>

definition exchange_unit :: "nat \<Rightarrow> bytes \<Rightarrow> nat \<Rightarrow> nat \<Rightarrow> bytes option" where
  "exchange_unit k m a b = do {
     t \<leftarrow> ld_unit k m a; u \<leftarrow> ld_unit k m b; m \<leftarrow> st_unit k m a u; st_unit k m b t }"

fun exchange_units :: "nat \<Rightarrow> nat \<Rightarrow> bytes \<Rightarrow> nat \<Rightarrow> nat \<Rightarrow> bytes option" where
  "exchange_units k 0 m a b = Some m"
| "exchange_units k (Suc n) m a b = do { m \<leftarrow> exchange_unit k m a b; exchange_units k n m (a + k) (b + k) }"

definition exchange_bytes :: exchange_f where
  "exchange_bytes m a b sz = exchange_units 1 sz m a b"

definition exchange_one_byte :: exchange_f where
  "exchange_one_byte m a b sz = exchange_unit 1 m a b"

definition exchange_int16s :: exchange_f where
  "exchange_int16s m a b sz = exchange_units 2 (sz div 2) m a b"

definition exchange_one_int16 :: exchange_f where
  "exchange_one_int16 m a b sz = exchange_unit 2 m a b"

definition exchange_int32s :: exchange_f where
  "exchange_int32s m a b sz = exchange_units 4 (sz div 4) m a b"

definition exchange_one_int32 :: exchange_f where
  "exchange_one_int32 m a b sz = exchange_unit 4 m a b"

definition exchange_int64s :: exchange_f where
  "exchange_int64s m a b sz = exchange_units 8 (sz div 8) m a b"

definition exchange_one_int64 :: exchange_f where
  "exchange_one_int64 m a b sz = exchange_unit 8 m a b"

definition exchange_one_int128 :: exchange_f where
  "exchange_one_int128 m a b sz = do {
     t \<leftarrow> ld_unit 8 m a; u \<leftarrow> ld_unit 8 m (a + 8);
     v \<leftarrow> ld_unit 8 m b; m \<leftarrow> st_unit 8 m a v;
     w \<leftarrow> ld_unit 8 m (b + 8); m \<leftarrow> st_unit 8 m (a + 8) w;
     m \<leftarrow> st_unit 8 m b t; st_unit 8 m (b + 8) u }"

fun exchange_int128_loop :: "nat \<Rightarrow> bytes \<Rightarrow> nat \<Rightarrow> nat \<Rightarrow> bytes option" where
  "exchange_int128_loop 0 m a b = Some m"
| "exchange_int128_loop (Suc n) m a b = do {
     m \<leftarrow> exchange_one_int128 m a b 16; exchange_int128_loop n m (a + 16) (b + 16) }"

definition exchange_int128s :: exchange_f where
  "exchange_int128s m a b sz = exchange_int128_loop (sz div 16) m a b"

definition exchange_func :: "nat \<Rightarrow> nat \<Rightarrow> exchange_f" where
  "exchange_func base sz =
     (let k = (base OR sz) AND 15 in
      if k = 0 then (if sz = 16 then exchange_one_int128 else exchange_int128s)
      else if k = 8 then (if sz = 8 then exchange_one_int64 else exchange_int64s)
      else if k = 4 \<or> k = 12 then (if sz = 4 then exchange_one_int32 else exchange_int32s)
      else if k = 2 \<or> k = 6 \<or> k = 10 \<or> k = 14 then (if sz = 2 then exchange_one_int16 else exchange_int16s)
      else (if sz = 1 then exchange_one_byte else exchange_bytes))"

section \<open>Swapping two blocks of bytes\<close>

definition blocks_ok :: "nat \<Rightarrow> nat \<Rightarrow> nat \<Rightarrow> 'a list \<Rightarrow> bool" where
  "blocks_ok n a b m \<longleftrightarrow> (a = b \<or> a + n \<le> b \<or> b + n \<le> a) \<and> a + n \<le> length m \<and> b + n \<le> length m"

lemma nth_blit:
  "at + length src \<le> length dst \<Longrightarrow> k < length dst \<Longrightarrow>
   (take at dst @ src @ drop (at + length src) dst) ! k =
     (if at \<le> k \<and> k < at + length src then src ! (k - at) else dst ! k)"
  by (auto simp: nth_append min_def)

definition swapped :: "nat \<Rightarrow> nat \<Rightarrow> nat \<Rightarrow> 'a list \<Rightarrow> 'a list \<Rightarrow> bool" where
  "swapped n a b xs ys \<longleftrightarrow> length ys = length xs \<and> block_swapped n a b xs ys"

lemma exchange_unit_ok:
  assumes "blocks_ok k a b m" "a mod k = 0" "b mod k = 0"
  shows "ok (exchange_unit k m a b) (swapped k a b m)"
proof -
  let ?t = "take k (drop a m)" and ?u = "take k (drop b m)"
  have len: "length ?t = k" "length ?u = k" "a + k \<le> length m" "b + k \<le> length m"
    and d: "a = b \<or> a + k \<le> b \<or> b + k \<le> a"
    using assms by (auto simp: blocks_ok_def)
  define m1 where m1_def: "m1 = take a m @ ?u @ drop (a + k) m"
  define m2 where m2_def: "m2 = take b m1 @ ?t @ drop (b + k) m1"
  have l1: "length m1 = length m" using len by (simp add: m1_def)
  then have l2: "length m2 = length m" using len by (simp add: m2_def)
  have n1: "m1 ! i = (if a \<le> i \<and> i < a + k then m ! (b + (i - a)) else m ! i)" if "i < length m" for i
    using nth_blit [of a ?u m i] that len by (auto simp: m1_def)
  have n2: "m2 ! i = (if b \<le> i \<and> i < b + k then m ! (a + (i - b)) else m1 ! i)" if "i < length m" for i
    using nth_blit [of b ?t m1 i] that len l1 by (auto simp: m2_def)
  have "m2 ! (a + i) = m ! (b + i) \<and> m2 ! (b + i) = m ! (a + i)" if i: "i < k" for i
  proof -
    have "a + i < length m" "b + i < length m" using i len by linarith+
    moreover have "a = b \<or> a + i < b \<or> b + k \<le> a + i" using d i by linarith
    ultimately show ?thesis using n1 [of "a + i"] n2 [of "a + i"] n2 [of "b + i"] i by (elim disjE) simp_all
  qed
  moreover have "m2 ! i = m ! i" if "i < length m" "i < a \<or> a + k \<le> i" "i < b \<or> b + k \<le> i" for i
    using n1 [OF that(1)] n2 [OF that(1)] that(2,3) by auto
  ultimately have "swapped k a b m m2" using l2 by (simp add: swapped_def block_swapped_def)
  then show ?thesis
    using assms len l1 by (simp add: exchange_unit_def ld_unit_def st_unit_def slice_def blit_def m1_def m2_def)
qed


lemma swapped_trans:
  assumes "swapped m a b xs ys" "swapped n (a + m) (b + m) ys zs" "blocks_ok (m + n) a b xs"
  shows "swapped (m + n) a b xs zs"
proof -
  have len: "length ys = length xs" "length zs = length xs" using assms by (auto simp: swapped_def)
  have d: "a = b \<or> a + (m + n) \<le> b \<or> b + (m + n) \<le> a" "a + (m + n) \<le> length xs" "b + (m + n) \<le> length xs"
    using assms(3) by (auto simp: blocks_ok_def)
  have in1: "ys ! (a + k) = xs ! (b + k)" "ys ! (b + k) = xs ! (a + k)" if "k < m" for k
    using assms(1) that by (auto simp: swapped_def block_swapped_def)
  have out1: "ys ! k = xs ! k" if "k < length xs" "k < a \<or> a + m \<le> k" "k < b \<or> b + m \<le> k" for k
    using assms(1) that by (auto simp: swapped_def block_swapped_def)
  have in2: "zs ! (a + m + k) = ys ! (b + m + k)" "zs ! (b + m + k) = ys ! (a + m + k)" if "k < n" for k
    using assms(2) that by (auto simp: swapped_def block_swapped_def)
  have out2: "zs ! k = ys ! k" if "k < length xs" "k < a + m \<or> a + m + n \<le> k" "k < b + m \<or> b + m + n \<le> k" for k
    using assms(2) that len by (auto simp: swapped_def block_swapped_def)
  have "zs ! (a + k) = xs ! (b + k) \<and> zs ! (b + k) = xs ! (a + k)" if k: "k < m + n" for k
  proof (cases "k < m")
    case True
    have "zs ! (a + k) = ys ! (a + k)" "zs ! (b + k) = ys ! (b + k)" using d True by (auto intro!: out2)
    then show ?thesis using in1 [OF True] by simp
  next
    case False
    then obtain l where l: "k = m + l" by (metis le_iff_add not_less)
    then have "l < n" using k by simp
    moreover have "ys ! (a + m + l) = xs ! (a + m + l)" "ys ! (b + m + l) = xs ! (b + m + l)"
      using d \<open>l < n\<close> by (auto intro!: out1)
    ultimately show ?thesis using in2 [of l] by (simp add: l add.assoc)
  qed
  moreover have "zs ! k = xs ! k" if "k < length xs" "k < a \<or> a + (m + n) \<le> k" "k < b \<or> b + (m + n) \<le> k" for k
    using out1 [of k] out2 [of k] that by auto
  ultimately show ?thesis using len by (simp add: swapped_def block_swapped_def)
qed


lemma blocks_ok_split:
  assumes "blocks_ok (m + n) a b xs"
  shows "blocks_ok m a b xs" "blocks_ok n (a + m) (b + m) xs"
  using assms by (auto simp: blocks_ok_def)

lemma exchange_units_ok:
  "blocks_ok (k * n) a b m \<Longrightarrow> a mod k = 0 \<Longrightarrow> b mod k = 0 \<Longrightarrow>
   ok (exchange_units k n m a b) (swapped (k * n) a b m)"
proof (induction n arbitrary: m a b)
  case 0
  then show ?case by (simp add: swapped_def block_swapped_def)
next
  case (Suc n)
  have ok: "blocks_ok (k + k * n) a b m" using Suc.prems by simp
  obtain m1 where m1: "exchange_unit k m a b = Some m1" and s1: "swapped k a b m m1"
    using exchange_unit_ok [OF blocks_ok_split(1) [OF ok]] Suc.prems by (auto simp: ok_conv)
  have "blocks_ok (k * n) (a + k) (b + k) m1"
    using blocks_ok_split(2) [OF ok] s1 by (simp add: blocks_ok_def swapped_def)
  then obtain m2 where m2: "exchange_units k n m1 (a + k) (b + k) = Some m2"
    and s2: "swapped (k * n) (a + k) (b + k) m1 m2"
    using Suc.IH [of "a + k" "b + k" m1] Suc.prems by (auto simp: ok_conv)
  show ?case using m1 m2 swapped_trans [OF s1 s2 ok] by simp
qed

lemma exchange_one_int128_ok:
  assumes "blocks_ok 16 a b m" "a mod 8 = 0" "b mod 8 = 0"
  shows "ok (exchange_one_int128 m a b sz) (swapped 16 a b m)"
proof -
  have len: "a + 16 \<le> length m" "b + 16 \<le> length m" and d: "a = b \<or> a + 16 \<le> b \<or> b + 16 \<le> a"
    using assms by (auto simp: blocks_ok_def)
  define t u v where tuv: "t = take 8 (drop a m)" "u = take 8 (drop (a + 8) m)" "v = take 8 (drop b m)"
  define m1 where "m1 = take a m @ v @ drop (a + 8) m"
  define w where "w = take 8 (drop (b + 8) m1)"
  define m2 where "m2 = take (a + 8) m1 @ w @ drop (a + 8 + 8) m1"
  define m3 where "m3 = take b m2 @ t @ drop (b + 8) m2"
  define m4 where "m4 = take (b + 8) m3 @ u @ drop (b + 8 + 8) m3"
  have lt: "length t = 8" "length u = 8" "length v = 8" using len by (simp_all add: tuv)
  have l1: "length m1 = length m" using len lt by (simp add: m1_def)
  have lw: "length w = 8" using len l1 by (simp add: w_def)
  have l2: "length m2 = length m" using len l1 lw by (simp add: m2_def)
  have l3: "length m3 = length m" using len l2 lt by (simp add: m3_def)
  have l4: "length m4 = length m" using len l3 lt by (simp add: m4_def)
  have run: "exchange_one_int128 m a b sz = Some m4"
  proof -
    have al: "(a + 8) mod 8 = 0" "(b + 8) mod 8 = 0" using assms(2,3) by (simp_all add: mod_add_self2)
    have "ld_unit 8 m a = Some t" "ld_unit 8 m (a + 8) = Some u" "ld_unit 8 m b = Some v"
      using assms(2,3) al len by (simp_all only: ld_unit_def slice_def tuv) auto
    moreover have "st_unit 8 m a v = Some m1" using assms(2) len lt by (simp add: st_unit_def blit_def m1_def)
    moreover have "ld_unit 8 m1 (b + 8) = Some w" using al len l1 by (simp only: ld_unit_def slice_def w_def) auto
    moreover have "st_unit 8 m1 (a + 8) w = Some m2"
      using al len lw l1 by (simp only: st_unit_def blit_def m2_def) auto
    moreover have "st_unit 8 m2 b t = Some m3" using assms(3) len lt l2 by (simp add: st_unit_def blit_def m3_def)
    moreover have "st_unit 8 m3 (b + 8) u = Some m4"
      using al len lt l3 by (simp only: st_unit_def blit_def m4_def) auto
    ultimately show ?thesis by (simp add: exchange_one_int128_def)
  qed
  have n1: "m1 ! i = (if a \<le> i \<and> i < a + 8 then m ! (b + (i - a)) else m ! i)" if "i < length m" for i
    using nth_blit [of a v m i] that len lt by (auto simp: m1_def tuv)
  have n2: "m2 ! i = (if a + 8 \<le> i \<and> i < a + 16 then m1 ! (b + 8 + (i - (a + 8))) else m1 ! i)" if "i < length m" for i
    using nth_blit [of "a + 8" w m1 i] that len lw l1 by (auto simp: m2_def w_def)
  have n3: "m3 ! i = (if b \<le> i \<and> i < b + 8 then m ! (a + (i - b)) else m2 ! i)" if "i < length m" for i
    using nth_blit [of b t m2 i] that len lt l2 by (auto simp: m3_def tuv)
  have n4: "m4 ! i = (if b + 8 \<le> i \<and> i < b + 16 then m ! (a + 8 + (i - (b + 8))) else m3 ! i)" if "i < length m" for i
    using nth_blit [of "b + 8" u m3 i] that len lt l3 by (auto simp: m4_def tuv)
  have "m4 ! (b + i) = m ! (a + i)" if "i < 16" for i
    using n4 [of "b + i"] n3 [of "b + i"] that len by (cases "i < 8") simp_all
  moreover have "m4 ! (a + i) = m ! (b + i)" if "i < 16" for i
  proof (cases "a = b")
    case True
    then show ?thesis using calculation [OF that] by simp
  next
    case False
    then have "\<not> (b \<le> a + i \<and> a + i < b + 16)" "\<not> (a \<le> b + i \<and> b + i < a + 16)" using d that by linarith+
    then show ?thesis
      using n4 [of "a + i"] n3 [of "a + i"] n2 [of "a + i"] n1 [of "a + i"] n1 [of "b + i"] that len
      by (cases "i < 8") auto
  qed
  moreover have "m4 ! i = m ! i" if "i < length m" "i < a \<or> a + 16 \<le> i" "i < b \<or> b + 16 \<le> i" for i
    using n4 [OF that(1)] n3 [OF that(1)] n2 [OF that(1)] n1 [OF that(1)] that(2,3) by auto
  ultimately have "swapped 16 a b m m4" using l4 by (simp add: swapped_def block_swapped_def)
  then show ?thesis using run by simp
qed


lemma exchange_int128_loop_ok:
  "blocks_ok (16 * n) a b m \<Longrightarrow> a mod 8 = 0 \<Longrightarrow> b mod 8 = 0 \<Longrightarrow>
   ok (exchange_int128_loop n m a b) (swapped (16 * n) a b m)"
proof (induction n arbitrary: m a b)
  case 0
  then show ?case by (simp add: swapped_def block_swapped_def)
next
  case (Suc n)
  have ok: "blocks_ok (16 + 16 * n) a b m" using Suc.prems by simp
  obtain m1 where m1: "exchange_one_int128 m a b 16 = Some m1" and s1: "swapped 16 a b m m1"
    using exchange_one_int128_ok [OF blocks_ok_split(1) [OF ok]] Suc.prems by (auto simp: ok_conv)
  have al: "(a + 16) mod 8 = 0" "(b + 16) mod 8 = 0" using Suc.prems(2,3) by presburger+
  have "blocks_ok (16 * n) (a + 16) (b + 16) m1"
    using blocks_ok_split(2) [OF ok] s1 by (simp add: blocks_ok_def swapped_def)
  then obtain m2 where m2: "exchange_int128_loop n m1 (a + 16) (b + 16) = Some m2"
    and s2: "swapped (16 * n) (a + 16) (b + 16) m1 m2"
    using Suc.IH [OF _ al, of m1] by (auto simp: ok_conv)
  show ?case using m1 m2 swapped_trans [OF s1 s2 ok] by simp
qed

section \<open>The choice of the exchange function\<close>

lemma dvd_or: "2 ^ t dvd (a OR b) \<longleftrightarrow> 2 ^ t dvd a \<and> 2 ^ t dvd (b :: nat)"
  by (simp flip: take_bit_eq_0_iff) (auto simp: bit_eq_iff bit_or_iff)

lemma and_15: "x AND 15 = x mod (16 :: nat)"
  using nat_and_mask [of x 4] by simp

text \<open>The unit of the chosen function divides the base address and the element size.\<close>

lemma exchange_func_cases:
  obtains (c16) "16 dvd base OR sz" "exchange_func base sz = (if sz = 16 then exchange_one_int128 else exchange_int128s)"
  | (c8) "8 dvd base OR sz" "exchange_func base sz = (if sz = 8 then exchange_one_int64 else exchange_int64s)"
  | (c4) "4 dvd base OR sz" "exchange_func base sz = (if sz = 4 then exchange_one_int32 else exchange_int32s)"
  | (c2) "2 dvd base OR sz" "exchange_func base sz = (if sz = 2 then exchange_one_int16 else exchange_int16s)"
  | (c1) "exchange_func base sz = (if sz = 1 then exchange_one_byte else exchange_bytes)"
proof -
  define x where "x = base OR sz"
  have k: "x AND 15 = x mod 16" by (rule and_15)
  consider "x mod 16 = 0" | "x mod 16 = 8" | "x mod 16 = 4 \<or> x mod 16 = 12"
    | "x mod 16 = 2 \<or> x mod 16 = 6 \<or> x mod 16 = 10 \<or> x mod 16 = 14"
    | "x mod 16 \<notin> {0, 8, 4, 12, 2, 6, 10, 14}" by auto
  then show ?thesis
  proof cases
    case 1 then show ?thesis using c16 k by (auto simp: exchange_func_def Let_def x_def)
  next
    case 2
    then have "8 dvd x" by presburger
    then show ?thesis using c8 k 2 by (simp add: exchange_func_def Let_def flip: x_def)
  next
    case 3
    then have "4 dvd x" by presburger
    then show ?thesis using c4 k 3 by (auto simp: exchange_func_def Let_def simp flip: x_def)
  next
    case 4
    then have "2 dvd x" by presburger
    then show ?thesis using c2 k 4 by (auto simp: exchange_func_def Let_def simp flip: x_def)
  next
    case 5 then show ?thesis using c1 k by (simp add: exchange_func_def Let_def flip: x_def)
  qed
qed

text \<open>The single-integer functions are the loops at their own size.\<close>

lemma exchange_one_eq:
  "exchange_one_byte m a b 1 = exchange_bytes m a b 1" "exchange_one_int16 m a b 2 = exchange_int16s m a b 2"
  "exchange_one_int32 m a b 4 = exchange_int32s m a b 4" "exchange_one_int64 m a b 8 = exchange_int64s m a b 8"
  "exchange_one_int128 m a b 16 = exchange_int128s m a b 16"
  by (simp_all add: exchange_bytes_def exchange_one_byte_def exchange_int16s_def exchange_one_int16_def
      exchange_int32s_def exchange_one_int32_def exchange_int64s_def exchange_one_int64_def exchange_int128s_def
      numeral_eq_Suc [of Num.One] bind_eq_Some_conv)


lemma exchange_loops_ok:
  assumes "blocks_ok n a b m"
  shows "ok (exchange_bytes m a b n) (swapped n a b m)"
    and "2 dvd a \<Longrightarrow> 2 dvd b \<Longrightarrow> 2 dvd n \<Longrightarrow> ok (exchange_int16s m a b n) (swapped n a b m)"
    and "4 dvd a \<Longrightarrow> 4 dvd b \<Longrightarrow> 4 dvd n \<Longrightarrow> ok (exchange_int32s m a b n) (swapped n a b m)"
    and "8 dvd a \<Longrightarrow> 8 dvd b \<Longrightarrow> 8 dvd n \<Longrightarrow> ok (exchange_int64s m a b n) (swapped n a b m)"
    and "16 dvd a \<Longrightarrow> 16 dvd b \<Longrightarrow> 16 dvd n \<Longrightarrow> ok (exchange_int128s m a b n) (swapped n a b m)"
proof -
  show "ok (exchange_bytes m a b n) (swapped n a b m)"
    using exchange_units_ok [of 1 n a b m] assms by (simp add: exchange_bytes_def)
  show "ok (exchange_int16s m a b n) (swapped n a b m)" if "2 dvd a" "2 dvd b" "2 dvd n"
    using exchange_units_ok [of 2 "n div 2" a b m] assms that by (simp add: exchange_int16s_def)
  show "ok (exchange_int32s m a b n) (swapped n a b m)" if "4 dvd a" "4 dvd b" "4 dvd n"
    using exchange_units_ok [of 4 "n div 4" a b m] assms that by (simp add: exchange_int32s_def)
  show "ok (exchange_int64s m a b n) (swapped n a b m)" if "8 dvd a" "8 dvd b" "8 dvd n"
    using exchange_units_ok [of 8 "n div 8" a b m] assms that by (simp add: exchange_int64s_def)
  show "ok (exchange_int128s m a b n) (swapped n a b m)" if d: "16 dvd a" "16 dvd b" "16 dvd n"
  proof -
    have "a mod 8 = 0" "b mod 8 = 0" using d(1,2) by presburger+
    then show ?thesis
      using exchange_int128_loop_ok [of "n div 16" a b m] assms d by (simp add: exchange_int128s_def)
  qed
qed

lemma exchange_func_loop:
  assumes b: "blocks_ok n a b m" and n: "sz = n \<or> 16 < sz"
    and d: "\<And>t. 2 ^ t dvd base OR sz \<Longrightarrow> t \<le> 4 \<Longrightarrow> 2 ^ t dvd a \<and> 2 ^ t dvd b \<and> 2 ^ t dvd n"
  shows "ok (exchange_func base sz m a b n) (swapped n a b m)"
proof (cases rule: exchange_func_cases [of base sz])
  case c16
  then have "exchange_func base sz m a b n = exchange_int128s m a b n" using n by (auto simp: exchange_one_eq)
  then show ?thesis using exchange_loops_ok(5) [OF b] d [of 4] c16(1) by simp
next
  case c8
  then have "exchange_func base sz m a b n = exchange_int64s m a b n" using n by (auto simp: exchange_one_eq)
  then show ?thesis using exchange_loops_ok(4) [OF b] d [of 3] c8(1) by simp
next
  case c4
  then have "exchange_func base sz m a b n = exchange_int32s m a b n" using n by (auto simp: exchange_one_eq)
  then show ?thesis using exchange_loops_ok(3) [OF b] d [of 2] c4(1) by simp
next
  case c2
  then have "exchange_func base sz m a b n = exchange_int16s m a b n" using n by (auto simp: exchange_one_eq)
  then show ?thesis using exchange_loops_ok(2) [OF b] d [of 1] c2(1) by simp
next
  case c1
  then have "exchange_func base sz m a b n = exchange_bytes m a b n" using n exchange_one_eq(1) by auto
  then show ?thesis using exchange_loops_ok(1) [OF b] by simp
qed

text \<open>
  The function chosen for (\<open>base\<close>, \<open>sz\<close>) exchanges two elements; the one chosen for (\<open>base\<close>,
  \<open>sz | 128\<close>) exchanges two runs of \<open>c\<close> elements.
\<close>

lemma or_128_big: "16 < sz OR (128 :: nat)"
proof -
  have "128 \<le> sz OR (128 :: nat)"
    using or_greater_eq [of "int sz" 128] by (simp add: or_nat_def or.commute)
  then show ?thesis by simp
qed

lemma exchange_func_ok:
  assumes "blocks_ok (c * sz) (base + i * sz) (base + j * sz) m" "sz' = sz \<and> c = 1 \<or> sz' = sz OR 128"
  shows "ok (exchange_func base sz' m (base + i * sz) (base + j * sz) (c * sz))
           (swapped (c * sz) (base + i * sz) (base + j * sz) m)"
proof (rule exchange_func_loop [OF assms(1)])
  show "sz' = c * sz \<or> 16 < sz'" using assms(2) or_128_big by auto
next
  fix t assume "2 ^ t dvd base OR sz'"
  then have "2 ^ t dvd base" "2 ^ t dvd sz" using assms(2) by (auto simp: dvd_or)
  then show "2 ^ t dvd base + i * sz \<and> 2 ^ t dvd base + j * sz \<and> 2 ^ t dvd c * sz" by simp
qed

section \<open>Elements\<close>

text \<open>The array of \<open>n\<close> elements of \<open>sz\<close> bytes at address \<open>base\<close>.\<close>

definition elem :: "nat \<Rightarrow> nat \<Rightarrow> bytes \<Rightarrow> nat \<Rightarrow> bytes" where
  "elem base sz m i = take sz (drop (base + i * sz) m)"

definition elems :: "nat \<Rightarrow> nat \<Rightarrow> nat \<Rightarrow> bytes \<Rightarrow> bytes list" where
  "elems base sz n m = map (elem base sz m) [0..<n]"

lemma elem_eqI:
  assumes "base + i * sz + sz \<le> length m" "base' + j * sz + sz \<le> length m'"
    and "\<And>k. k < sz \<Longrightarrow> m ! (base + i * sz + k) = m' ! (base' + j * sz + k)"
  shows "elem base sz m i = elem base' sz m' j"
  using assms by (auto simp: elem_def intro!: nth_equalityI)

lemma elem_fits: "base + n * sz \<le> length m \<Longrightarrow> i < n \<Longrightarrow> base + i * sz + sz \<le> length (m :: bytes)"
proof -
  assume "base + n * sz \<le> length m" "i < n"
  moreover from this(2) have "Suc i * sz \<le> n * sz" by (intro mult_le_mono1) simp
  ultimately show ?thesis by simp
qed

lemma swapped_elems:
  assumes sw: "swapped (c * sz) (base + i * sz) (base + j * sz) m m'"
    and fit: "base + n * sz \<le> length m" and ij: "i + c \<le> n" "j + c \<le> n"
  shows "block_swapped c i j (elems base sz n m) (elems base sz n m')"
proof -
  have len: "length m' = length m" using sw by (simp add: swapped_def)
  have nth: "elems base sz n x ! k = elem base sz x k" if "k < n" for x k using that by (simp add: elems_def)
  have inn: "l * sz + k < c * sz" if "l < c" "k < sz" for l k
  proof -
    have "l * sz + k < Suc l * sz" using that by simp
    also have "\<dots> \<le> c * sz" using that by (intro mult_le_mono1) simp
    finally show ?thesis .
  qed
  have "elem base sz m' (i + l) = elem base sz m (j + l) \<and> elem base sz m' (j + l) = elem base sz m (i + l)"
    if l: "l < c" for l
  proof -
    have e: "base + (x + l) * sz + k = base + x * sz + (l * sz + k)" for x k by (simp add: algebra_simps)
    have f: "base + (i + l) * sz + sz \<le> length m" "base + (j + l) * sz + sz \<le> length m"
      using ij l by (auto intro!: elem_fits [OF fit])
    show ?thesis
      using sw inn [OF l] f len by (auto intro!: elem_eqI simp: e swapped_def block_swapped_def)
  qed
  moreover have "elem base sz m' k = elem base sz m k"
    if k: "k < n" "k < i \<or> i + c \<le> k" "k < j \<or> j + c \<le> k" for k
  proof -
    have f: "base + k * sz + sz \<le> length m" using k by (intro elem_fits [OF fit])
    have out: "base + k * sz + x < base + y * sz \<or> base + y * sz + c * sz \<le> base + k * sz + x"
      if "x < sz" "k < y \<or> y + c \<le> k" for x y
    proof (cases "k < y")
      case True
      then have "Suc k * sz \<le> y * sz" by (intro mult_le_mono1) simp
      then show ?thesis using that by simp
    next
      case False
      then have "(y + c) * sz \<le> k * sz" using that by (intro mult_le_mono1) simp
      then show ?thesis by (simp add: algebra_simps)
    qed
    show ?thesis
      using sw out k f len by (intro elem_eqI) (auto simp: swapped_def block_swapped_def)
  qed
  ultimately show ?thesis using ij nth by (simp add: block_swapped_def elems_def)
qed


lemma block_swapped_unique:
  assumes "block_swapped c i j xs ys" "block_swapped c i j xs zs" "length ys = length xs" "length zs = length xs"
  shows "ys = zs"
proof (rule nth_equalityI)
  fix k assume k: "k < length ys"
  consider l where "k = i + l" "l < c" | l where "k = j + l" "l < c"
    | "(k < i \<or> i + c \<le> k) \<and> (k < j \<or> j + c \<le> k)"
    by (metis add_less_cancel_left le_add_diff_inverse not_less)
  then show "ys ! k = zs ! k"
    using assms k by cases (auto simp: block_swapped_def)
qed (use assms in simp)

lemma swapped_outside:
  assumes "swapped c a b m m'" "lo \<le> a" "lo \<le> b" "a + c \<le> hi" "b + c \<le> hi"
  shows "take lo m' = take lo m" "drop hi m' = drop hi m"
  using assms by (auto simp: swapped_def block_swapped_def intro!: nth_equalityI)

lemma length_elems [simp]: "length (elems base sz n m) = n"
  by (simp add: elems_def)

lemma exch_swapped:
  "i < length xs \<Longrightarrow> j < length xs \<Longrightarrow> ok (exch xs i j) (\<lambda>ys. length ys = length xs \<and> block_swapped 1 i j xs ys)"
  by (auto simp: wp block_swapped_def nth_list_update_if)

lemma element_fits2:
  assumes "i + c \<le> n"
  shows "base + i * sz + c * sz \<le> base + n * (sz :: nat)"
proof -
  have "(i + c) * sz \<le> n * sz" using assms by (rule mult_le_mono1)
  then show ?thesis by (simp add: algebra_simps)
qed

lemma exchange_elements_ok:
  assumes "base + n * sz \<le> length m" "i + c \<le> n" "j + c \<le> n" "i = j \<or> i + c \<le> j \<or> j + c \<le> i"
    and "sz' = sz \<and> c = 1 \<or> sz' = sz OR 128"
  shows "ok (exchange_func base sz' m (base + i * sz) (base + j * sz) (c * sz)) (\<lambda>m'.
     length m' = length m \<and> block_swapped c i j (elems base sz n m) (elems base sz n m') \<and>
     take base m' = take base m \<and> drop (base + n * sz) m' = drop (base + n * sz) m)"
proof -
  have "blocks_ok (c * sz) (base + i * sz) (base + j * sz) m"
    using assms(1,4) element_fits2 [OF assms(2), of base sz] element_fits2 [OF assms(3), of base sz]
      element_fits2 [of i c j base sz] element_fits2 [of j c i base sz]
    by (auto simp: blocks_ok_def)
  from exchange_func_ok [OF this assms(5)] show ?thesis
  proof (rule ok_mono)
    fix m' assume sw: "swapped (c * sz) (base + i * sz) (base + j * sz) m m'"
    then show "length m' = length m \<and> block_swapped c i j (elems base sz n m) (elems base sz n m') \<and>
      take base m' = take base m \<and> drop (base + n * sz) m' = drop (base + n * sz) m"
      using swapped_elems [OF sw assms(1-3)]
        swapped_outside [OF sw le_add1 le_add1 element_fits2 [OF assms(2)] element_fits2 [OF assms(3)]]
      by (simp add: swapped_def)
  qed
qed

section \<open>Properties\<close>

text \<open>
  C16. The byte-level swaps implement the element swaps of \<open>rqsort\<close>: for every element size and every
  alignment of the array, the function \<open>exchange_func\<close> selects exchanges two elements as \<open>exch\<close> does,
  and the one it selects for \<open>size | 128\<close> exchanges two disjoint runs as \<open>exch_block\<close> does, with
  aligned accesses only, and no byte outside the array changes.
\<close>

theorem exchange_refines:
  assumes "base + n * sz \<le> length m" and "i < n" "j < n" and "a + c \<le> b" "b + c \<le> n"
  shows "ok (exchange_func base sz m (base + i * sz) (base + j * sz) sz) (\<lambda>m'.
       exch (elems base sz n m) i j = Some (elems base sz n m') \<and>
       take base m' = take base m \<and> drop (base + n * sz) m' = drop (base + n * sz) m) \<and>
     ok (exchange_func base (sz OR 128) m (base + a * sz) (base + b * sz) (c * sz)) (\<lambda>m'.
       exch_block c (elems base sz n m) a b = Some (elems base sz n m') \<and>
       take base m' = take base m \<and> drop (base + n * sz) m' = drop (base + n * sz) m)"
proof
  have "ok (exchange_func base sz m (base + i * sz) (base + j * sz) (1 * sz)) (\<lambda>m'.
      block_swapped 1 i j (elems base sz n m) (elems base sz n m') \<and>
      take base m' = take base m \<and> drop (base + n * sz) m' = drop (base + n * sz) m)"
    by (rule ok_mono [OF exchange_elements_ok [OF assms(1)]]) (use assms in auto)
  moreover obtain ys where "exch (elems base sz n m) i j = Some ys" "length ys = n"
    "block_swapped 1 i j (elems base sz n m) ys"
    using exch_swapped [of i "elems base sz n m" j] assms by (auto simp: ok_conv)
  ultimately show "ok (exchange_func base sz m (base + i * sz) (base + j * sz) sz) (\<lambda>m'.
       exch (elems base sz n m) i j = Some (elems base sz n m') \<and>
       take base m' = take base m \<and> drop (base + n * sz) m' = drop (base + n * sz) m)"
    by (auto elim!: ok_mono intro: block_swapped_unique)
  have "ok (exchange_func base (sz OR 128) m (base + a * sz) (base + b * sz) (c * sz)) (\<lambda>m'.
      block_swapped c a b (elems base sz n m) (elems base sz n m') \<and>
      take base m' = take base m \<and> drop (base + n * sz) m' = drop (base + n * sz) m)"
    by (rule ok_mono [OF exchange_elements_ok [OF assms(1)]]) (use assms in auto)
  moreover obtain ys where "exch_block c (elems base sz n m) a b = Some ys" "length ys = n"
    "block_swapped c a b (elems base sz n m) ys"
    using exch_block_ok [OF assms(4), of "elems base sz n m"] assms by (auto simp: ok_conv perm_on_length)
  ultimately show "ok (exchange_func base (sz OR 128) m (base + a * sz) (base + b * sz) (c * sz)) (\<lambda>m'.
       exch_block c (elems base sz n m) a b = Some (elems base sz n m') \<and>
       take base m' = take base m \<and> drop (base + n * sz) m' = drop (base + n * sz) m)"
    by (auto elim!: ok_mono intro: block_swapped_unique)
qed

theorem exchange_refines_witness:
  "ok (exchange_func 2 2 [9, 9, 1, 2, 3, 4, 5, 6, 7, 8] (2 + 0 * 2) (2 + 3 * 2) 2) (\<lambda>m'.
     exch [[1, 2], [3, 4], [5, 6], [7, 8]] 0 3 = Some (elems 2 2 4 m') \<and> take 2 m' = [9, 9])"
proof -
  have "elems 2 2 4 [9, 9, 1, 2, 3, 4, 5, 6, 7, 8] = [[1, 2], [3, 4], [5, 6], [7, 8]]" by code_simp
  then show ?thesis
    using exchange_refines [of 2 4 2 "[9, 9, 1, 2, 3, 4, 5, 6, 7, 8]" 0 3 0 1 1] by (auto elim!: ok_mono)
qed

end
