(* ===== verification/Jobs.thy ===== *)
theory Jobs
  imports Klist
begin

text \<open>
  The job queue of the runtime: \<open>JS_EnqueueJob\<close>, \<open>JS_IsJobPending\<close>, \<open>JS_ExecutePendingJob\<close> and the
  job part of \<open>JS_FreeRuntime\<close> in src/quickjs/quickjs.c, and the task loop around them in
  src/io_js.h. Jobs are allocated nodes on the circular list \<open>rt->job_list\<close> of the theory \<open>Klist\<close>.

  Parameters: \<open>alloc\<close> stands for \<open>js_malloc\<close> (\<^term>\<open>None\<close> when out of memory), \<open>job\<close> for the code
  a job function runs: from the job and the state of the script it gives the result, the jobs it
  passes to \<open>JS_EnqueueJob\<close>, in order, and the new state; \<open>gc\<close> for \<open>JS_RunGC\<close>. The counts \<open>refc\<close> are
  the references the queue takes and drops with \<open>JS_DupValue\<close> and \<open>JS_FreeValue\<close>.
\<close>

datatype 'v js_result = Exception | Result 'v

record ('v, 'c, 'f) JSJobEntry =
  job_ctx :: 'c
  job_func :: 'f
  job_argv :: "'v list"

record ('v, 'c, 'f, 's) JSRuntime =
  links :: lheap
  entries :: "addr \<rightharpoonup> ('v, 'c, 'f) JSJobEntry"
  refc :: "'v \<Rightarrow> int"
  script :: 's
  dumped :: "'c list"
  signals :: nat

text \<open>The address of the list head embedded in the runtime.\<close>

abbreviation job_list :: addr where
  "job_list \<equiv> 0"

definition JS_DupValue :: "'v \<Rightarrow> ('v, 'c, 'f, 's) JSRuntime \<Rightarrow> ('v, 'c, 'f, 's) JSRuntime" where
  "JS_DupValue v rt = rt\<lparr>refc := (refc rt)(v := refc rt v + 1)\<rparr>"

definition JS_FreeValue :: "'v \<Rightarrow> ('v, 'c, 'f, 's) JSRuntime \<Rightarrow> ('v, 'c, 'f, 's) JSRuntime" where
  "JS_FreeValue v rt = rt\<lparr>refc := (refc rt)(v := refc rt v - 1)\<rparr>"

definition JS_EnqueueJob :: "(lheap \<Rightarrow> addr option) \<Rightarrow> 'c \<Rightarrow> 'f \<Rightarrow> 'v list \<Rightarrow>
    ('v, 'c, 'f, 's) JSRuntime \<Rightarrow> (int \<times> ('v, 'c, 'f, 's) JSRuntime) option" where
  "JS_EnqueueJob alloc ctx f argv rt =
     (case alloc (links rt) of None \<Rightarrow> Some (-1, rt)
      | Some e \<Rightarrow> do {
          let rt = rt\<lparr>links := (links rt)(e \<mapsto> \<lparr>lprev = None, lnext = None\<rparr>),
                      entries := (entries rt)(e \<mapsto> \<lparr>job_ctx = ctx, job_func = f, job_argv = argv\<rparr>)\<rparr>;
          let rt = fold JS_DupValue argv rt;
          h \<leftarrow> list_add_tail (links rt) (Some e) (Some job_list);
          Some (0, rt\<lparr>links := h\<rparr>) })"

definition JS_IsJobPending :: "('v, 'c, 'f, 's) JSRuntime \<Rightarrow> bool option" where
  "JS_IsJobPending rt = map_option Not (list_empty (links rt) (Some job_list))"

text \<open>
  A call of a job function: the script runs, its requests go through \<open>JS_EnqueueJob\<close> (whose result
  the promise code of quickjs.c ignores), and a result other than an exception is a new reference.
\<close>

fun enqueue_all :: "(lheap \<Rightarrow> addr option) \<Rightarrow> ('v, 'c, 'f) JSJobEntry list \<Rightarrow>
    ('v, 'c, 'f, 's) JSRuntime \<Rightarrow> ('v, 'c, 'f, 's) JSRuntime option" where
  "enqueue_all alloc [] rt = Some rt"
| "enqueue_all alloc (j # js) rt = do {
     (_, rt) \<leftarrow> JS_EnqueueJob alloc (job_ctx j) (job_func j) (job_argv j) rt;
     enqueue_all alloc js rt }"

type_synonym ('v, 'c, 'f, 's) job_code =
  "('v, 'c, 'f) JSJobEntry \<Rightarrow> 's \<Rightarrow> 'v js_result \<times> ('v, 'c, 'f) JSJobEntry list \<times> 's"

definition call_job :: "(lheap \<Rightarrow> addr option) \<Rightarrow> ('v, 'c, 'f, 's) job_code \<Rightarrow> ('v, 'c, 'f) JSJobEntry \<Rightarrow>
    ('v, 'c, 'f, 's) JSRuntime \<Rightarrow> ('v js_result \<times> ('v, 'c, 'f, 's) JSRuntime) option" where
  "call_job alloc job j rt =
     (case job j (script rt) of (res, new, s) \<Rightarrow> do {
        rt \<leftarrow> enqueue_all alloc new (rt\<lparr>script := s\<rparr>);
        Some (res, case res of Exception \<Rightarrow> rt | Result v \<Rightarrow> JS_DupValue v rt) })"

text \<open>The result is the return value and \<open>*pctx\<close>.\<close>

definition JS_ExecutePendingJob :: "(lheap \<Rightarrow> addr option) \<Rightarrow> ('v, 'c, 'f, 's) job_code \<Rightarrow>
    ('v, 'c, 'f, 's) JSRuntime \<Rightarrow> (int \<times> 'c option \<times> ('v, 'c, 'f, 's) JSRuntime) option" where
  "JS_ExecutePendingJob alloc job rt = do {
     emp \<leftarrow> list_empty (links rt) (Some job_list);
     if emp then Some (0, None, rt)
     else do {
       e \<leftarrow> first_el (links rt) job_list;
       h \<leftarrow> list_del (links rt) (Some e);
       let rt = rt\<lparr>links := h\<rparr>;
       j \<leftarrow> entries rt e;
       (res, rt) \<leftarrow> call_job alloc job j rt;
       j \<leftarrow> entries rt e;
       let rt = fold JS_FreeValue (job_argv j) rt;
       let (ret, rt) = (case res of Exception \<Rightarrow> (-1, rt) | Result v \<Rightarrow> (1, JS_FreeValue v rt));
       Some (ret, Some (job_ctx j), rt\<lparr>links := (links rt)(e := None), entries := (entries rt)(e := None)\<rparr>) } }"

definition io_js_enqueue_task :: "(lheap \<Rightarrow> addr option) \<Rightarrow> 'c \<Rightarrow> 'f \<Rightarrow> 'v list \<Rightarrow>
    ('v, 'c, 'f, 's) JSRuntime \<Rightarrow> (int \<times> ('v, 'c, 'f, 's) JSRuntime) option" where
  "io_js_enqueue_task alloc ctx f argv rt = do {
     (r, rt) \<leftarrow> JS_EnqueueJob alloc ctx f argv rt;
     Some (r, rt\<lparr>signals := signals rt + 1\<rparr>) }"

partial_function (option) io_js_do_tasks :: "(lheap \<Rightarrow> addr option) \<Rightarrow> ('v, 'c, 'f, 's) job_code \<Rightarrow>
    ('s \<Rightarrow> 's) \<Rightarrow> ('v, 'c, 'f, 's) JSRuntime \<Rightarrow> ('v, 'c, 'f, 's) JSRuntime option" where
  "io_js_do_tasks alloc job gc rt = do {
     p \<leftarrow> JS_IsJobPending rt;
     if p then do {
       (err, ctx, rt) \<leftarrow> JS_ExecutePendingJob alloc job rt;
       rt \<leftarrow> (if err < 0 then do { c \<leftarrow> ctx; Some (rt\<lparr>dumped := dumped rt @ [c]\<rparr>) } else Some rt);
       io_js_do_tasks alloc job gc (rt\<lparr>script := gc (script rt)\<rparr>) }
     else Some rt }"

text \<open>The loop of \<open>JS_FreeRuntime\<close> over the pending jobs: each entry is freed while the list is walked.\<close>

definition free_job :: "addr \<Rightarrow> lheap \<times> ('v, 'c, 'f, 's) JSRuntime \<Rightarrow> (lheap \<times> ('v, 'c, 'f, 's) JSRuntime) option" where
  "free_job e hr = (case hr of (h, rt) \<Rightarrow> do {
     j \<leftarrow> entries rt e;
     let rt = fold JS_FreeValue (job_argv j) rt;
     Some (h(e := None), rt\<lparr>entries := (entries rt)(e := None)\<rparr>) })"

definition free_job_list :: "('v, 'c, 'f, 's) JSRuntime \<Rightarrow> ('v, 'c, 'f, 's) JSRuntime option" where
  "free_job_list rt = do {
     (h, rt) \<leftarrow> list_for_each_safe free_job (Some job_list) (links rt, rt);
     h \<leftarrow> init_list_head h (Some job_list);
     Some (rt\<lparr>links := h\<rparr>) }"

section \<open>The queue a runtime holds\<close>

definition jobs_inv :: "('v, 'c, 'f, 's) JSRuntime \<Rightarrow> addr list \<Rightarrow> ('v, 'c, 'f) JSJobEntry list \<Rightarrow> bool" where
  "jobs_inv rt as js \<longleftrightarrow> ring (links rt) job_list as \<and> map (entries rt) as = map Some js \<and>
     finite (dom (links rt)) \<and> dom (entries rt) = dom (links rt) - {job_list}"

definition alloc_ok :: "(lheap \<Rightarrow> addr option) \<Rightarrow> bool" where
  "alloc_ok alloc \<longleftrightarrow> (\<forall>h. finite (dom h) \<longrightarrow> (\<exists>a. alloc h = Some a \<and> a \<notin> dom h))"

text \<open>The references held by a list of jobs.\<close>

definition job_refs :: "('v, 'c, 'f) JSJobEntry list \<Rightarrow> 'v \<Rightarrow> int" where
  "job_refs js v = int (count_list (concat (map job_argv js)) v)"

lemma job_refs_Nil [simp]: "job_refs [] v = 0"
  and job_refs_append [simp]: "job_refs (js @ ks) v = job_refs js v + job_refs ks v"
  by (simp_all add: job_refs_def)

lemma fold_Dup: "fold JS_DupValue vs rt = rt\<lparr>refc := \<lambda>v. refc rt v + int (count_list vs v)\<rparr>"
  by (induction vs arbitrary: rt) (auto simp: JS_DupValue_def fun_eq_iff)

lemma fold_Free: "fold JS_FreeValue vs rt = rt\<lparr>refc := \<lambda>v. refc rt v - int (count_list vs v)\<rparr>"
  by (induction vs arbitrary: rt) (auto simp: JS_FreeValue_def fun_eq_iff)


lemma ring_cong:
  assumes "ring h head xs" "\<And>x. x \<in> set (head # xs) \<Longrightarrow> h' x = h x"
  shows "ring h' head xs"
proof -
  have "linked h' x y" if "linked h x y" "x \<in> set (head # xs)" "y \<in> set (head # xs)" for x y
    using that assms(2) [of x] assms(2) [of y] by (auto simp: linked_def nxt_def prv_def)
  moreover have "list_all2 (linked h) (head # xs) (xs @ [head])" using assms(1) by (simp add: ring_def)
  ultimately have "list_all2 (linked h') (head # xs) (xs @ [head])"
    by (elim list.rel_mono_strong) auto
  then show ?thesis using assms(1) by (simp add: ring_def)
qed

text \<open>What a sequence of enqueue calls may change of a runtime.\<close>

definition grows :: "('v, 'c, 'f, 's) JSRuntime \<Rightarrow> ('v, 'c, 'f, 's) JSRuntime \<Rightarrow> ('v, 'c, 'f) JSJobEntry list \<Rightarrow> bool" where
  "grows rt rt' new \<longleftrightarrow> (\<forall>a \<in> dom (entries rt). entries rt' a = entries rt a) \<and>
     refc rt' = (\<lambda>v. refc rt v + job_refs new v) \<and>
     script rt' = script rt \<and> dumped rt' = dumped rt \<and> signals rt' = signals rt"

lemma JS_EnqueueJob_ok:
  assumes inv: "jobs_inv rt as js" and e: "alloc (links rt) = Some e" "e \<notin> dom (links rt)"
    and j: "j = \<lparr>job_ctx = c, job_func = f, job_argv = argv\<rparr>"
  shows "ok (JS_EnqueueJob alloc c f argv rt) (\<lambda>(r, rt').
     r = 0 \<and> jobs_inv rt' (as @ [e]) (js @ [j]) \<and> grows rt rt' [j])"
proof -
  let ?n = "\<lparr>lprev = None, lnext = None\<rparr>"
  have ring: "ring (links rt) job_list as" using inv by (simp add: jobs_inv_def)
  have nodes: "set (job_list # as) \<subseteq> dom (links rt)" using ring_nodes(1,2) [OF ring] by simp
  then have e2: "e \<notin> set (job_list # as)" using e(2) by blast
  have "ring ((links rt)(e \<mapsto> ?n)) job_list as" by (rule ring_cong [OF ring]) (use e2 in auto)
  from list_add_tail_ok [OF this _ e2] obtain h
    where h: "list_add_tail ((links rt)(e \<mapsto> ?n)) (Some e) (Some job_list) = Some h"
      and r: "ring h job_list (as @ [e])" and so: "same_outside (set (e # job_list # as)) ((links rt)(e \<mapsto> ?n)) h"
    by (auto simp: ok_conv)
  have dom: "dom h = insert e (dom (links rt))" using so by (simp add: same_outside_def)
  have ent: "map ((entries rt)(e \<mapsto> j)) (as @ [e]) = map Some (js @ [j])"
    using inv e2 by (auto simp: jobs_inv_def)
  let ?rt = "(fold JS_DupValue argv (rt\<lparr>links := (links rt)(e \<mapsto> ?n), entries := (entries rt)(e \<mapsto> j)\<rparr>))\<lparr>links := h\<rparr>"
  have "JS_EnqueueJob alloc c f argv rt = Some (0, ?rt)"
    using e h by (simp add: JS_EnqueueJob_def j fold_Dup Let_def)
  moreover have "jobs_inv ?rt (as @ [e]) (js @ [j])"
    using r ent dom inv e e2 by (auto simp: jobs_inv_def fold_Dup)
  moreover have "grows rt ?rt [j]"
    using inv e by (auto simp: grows_def fold_Dup job_refs_def j jobs_inv_def)
  ultimately show ?thesis by simp
qed

lemma JS_EnqueueJob_no_memory:
  "alloc (links rt) = None \<Longrightarrow> JS_EnqueueJob alloc c f argv rt = Some (-1, rt)"
  by (simp add: JS_EnqueueJob_def)

lemma grows_trans: "grows rt rt1 js \<Longrightarrow> grows rt1 rt2 ks \<Longrightarrow> grows rt rt2 (js @ ks)"
  unfolding grows_def by (auto simp: fun_eq_iff dom_def)

lemma enqueue_all_ok:
  assumes "alloc_ok alloc"
  shows "jobs_inv rt as js \<Longrightarrow> ok (enqueue_all alloc new rt) (\<lambda>rt'.
     (\<exists>as'. jobs_inv rt' (as @ as') (js @ new) \<and> set as' \<inter> dom (links rt) = {}) \<and> grows rt rt' new \<and>
     dom (links rt) \<subseteq> dom (links rt'))"
proof (induction new arbitrary: rt as js)
  case Nil
  then show ?case by (auto simp: grows_def intro: exI [of _ "[]"])
next
  case (Cons j new)
  obtain e where e: "alloc (links rt) = Some e" "e \<notin> dom (links rt)"
    using assms [unfolded alloc_ok_def, rule_format, of "links rt"] Cons.prems by (auto simp: jobs_inv_def)
  obtain rt1 where rt1: "JS_EnqueueJob alloc (job_ctx j) (job_func j) (job_argv j) rt = Some (0, rt1)"
    and inv1: "jobs_inv rt1 (as @ [e]) (js @ [j])" and g1: "grows rt rt1 [j]"
    using JS_EnqueueJob_ok [of rt as js alloc e j, OF Cons.prems e, of "job_ctx j" "job_func j" "job_argv j"]
    by (auto simp: ok_conv)
  have "dom (entries rt) \<subseteq> dom (entries rt1)" using g1 by (auto simp: grows_def dom_def)
  then have d1: "dom (links rt) \<subseteq> dom (links rt1)"
  proof -
    have "job_list \<in> dom (links rt1)" using inv1 ring_nodes(1) unfolding jobs_inv_def by blast
    moreover have "dom (links rt) - {job_list} \<subseteq> dom (links rt1)"
      using \<open>dom (entries rt) \<subseteq> dom (entries rt1)\<close> Cons.prems inv1 unfolding jobs_inv_def by auto
    ultimately show ?thesis by blast
  qed
  obtain rt2 as2 where rt2: "enqueue_all alloc new rt1 = Some rt2"
    and inv2: "jobs_inv rt2 ((as @ [e]) @ as2) ((js @ [j]) @ new)" "set as2 \<inter> dom (links rt1) = {}"
    and g2: "grows rt1 rt2 new" and d2: "dom (links rt1) \<subseteq> dom (links rt2)"
    using Cons.IH [OF inv1] by (auto simp: ok_conv)
  have "\<exists>as'. jobs_inv rt2 (as @ as') (js @ j # new) \<and> set as' \<inter> dom (links rt) = {}"
    using inv2 d1 e by (intro exI [of _ "e # as2"]) (auto simp del: domIff, blast)
  then show ?case using rt1 rt2 grows_trans [OF g1 g2] d1 d2 by simp
qed


lemma call_job_ok:
  assumes "alloc_ok alloc" and inv: "jobs_inv rt as js" and res: "job j (script rt) = (res, new, s)"
  shows "ok (call_job alloc job j rt) (\<lambda>(r, rt'). r = res \<and>
     (\<exists>as'. jobs_inv rt' (as @ as') (js @ new) \<and> set as' \<inter> dom (links rt) = {}) \<and>
     grows (rt\<lparr>script := s\<rparr>) (case res of Exception \<Rightarrow> rt' | Result v \<Rightarrow> JS_FreeValue v rt') new)"
proof -
  have "jobs_inv (rt\<lparr>script := s\<rparr>) as js" using inv by (simp add: jobs_inv_def)
  from enqueue_all_ok [OF assms(1) this, of new] show ?thesis
    by (auto simp: call_job_def res elim!: ok_mono split: js_result.split)
       (auto simp: JS_DupValue_def JS_FreeValue_def jobs_inv_def grows_def fun_eq_iff)
qed

lemma JS_ExecutePendingJob_ok:
  assumes al: "alloc_ok alloc" and inv: "jobs_inv rt (a # as) (j # js)" and res: "job j (script rt) = (res, new, s)"
  shows "ok (JS_ExecutePendingJob alloc job rt) (\<lambda>(ret, ctx, rt').
     ret = (if res = Exception then -1 else 1) \<and> ctx = Some (job_ctx j) \<and>
     (\<exists>as'. jobs_inv rt' (as @ as') (js @ new)) \<and>
     refc rt' = (\<lambda>v. refc rt v - job_refs [j] v + job_refs new v) \<and>
     script rt' = s \<and> dumped rt' = dumped rt \<and> signals rt' = signals rt)"
proof -
  have ring: "ring (links rt) job_list (a # as)" and ent: "entries rt a = Some j" "map (entries rt) as = map Some js"
    using inv by (auto simp: jobs_inv_def)
  have a: "a \<noteq> job_list" "a \<notin> set as" "a \<in> dom (links rt)" using ring_nodes(2,5) [OF ring] by auto
  obtain h where h: "list_del (links rt) (Some a) = Some h" "ring h job_list as" "dom h = dom (links rt)"
  proof -
    obtain h where h: "list_del (links rt) (Some a) = Some h" "ring h job_list as"
      and d: "(\<lambda>x. x \<in> dom h) = (\<lambda>x. x \<in> dom (links rt))"
      using klist.unlink_ok [OF ring] by (auto simp: ok_conv simp del: domIff)
    from d have "dom h = dom (links rt)" unfolding fun_eq_iff by blast
    then show ?thesis using h that by blast
  qed
  let ?rt = "rt\<lparr>links := h\<rparr>"
  have inv1: "jobs_inv ?rt as js" using inv h ent by (simp add: jobs_inv_def)
  have "job j (script ?rt) = (res, new, s)" using res by simp
  from call_job_ok [where job = job, OF al inv1 this] obtain rt1 as'
    where c: "call_job alloc job j ?rt = Some (res, rt1)" and inv2: "jobs_inv rt1 (as @ as') (js @ new)"
      and new: "set as' \<inter> dom h = {}"
      and g: "grows (?rt\<lparr>script := s\<rparr>) (case res of Exception \<Rightarrow> rt1 | Result v \<Rightarrow> JS_FreeValue v rt1) new"
    by (auto simp: ok_conv)
  have ent1: "entries rt1 a = Some j"
    using g ent(1) by (auto simp: grows_def JS_FreeValue_def dom_def split: js_result.splits)
  have a2: "a \<notin> set (job_list # as @ as')" using a new h(3) by auto
  have drop: "jobs_inv (rt2\<lparr>links := (links rt1)(a := None), entries := (entries rt1)(a := None)\<rparr>) (as @ as') (js @ new)"
    for rt2 :: "('a, 'b, 'c, 'd) JSRuntime"
  proof -
    have "ring ((links rt1)(a := None)) job_list (as @ as')"
      by (rule ring_cong [of "links rt1"]) (use inv2 a2 in \<open>auto simp: jobs_inv_def\<close>)
    moreover have "map ((entries rt1)(a := None)) (as @ as') = map (entries rt1) (as @ as')" using a2 by auto
    ultimately show ?thesis
      using inv2 unfolding jobs_inv_def by (simp only: JSRuntime.simps) auto
  qed
  have "list_empty (links rt) (Some job_list) = Some False" using klist.empty_ok [OF ring] by simp
  moreover have "first_el (links rt) job_list = Some a" by (rule klist.first_ok [OF ring])
  moreover have "script rt1 = s" "dumped rt1 = dumped rt" "signals rt1 = signals rt"
    using g by (auto simp: grows_def JS_FreeValue_def split: js_result.splits)
  moreover have "refc rt1 = (\<lambda>v. refc rt v + job_refs new v + (case res of Exception \<Rightarrow> 0 | Result x \<Rightarrow> of_bool (v = x)))"
  proof
    fix v
    have "refc (case res of Exception \<Rightarrow> rt1 | Result v \<Rightarrow> JS_FreeValue v rt1) v = refc rt v + job_refs new v"
      using g by (simp add: grows_def)
    then show "refc rt1 v = refc rt v + job_refs new v + (case res of Exception \<Rightarrow> 0 | Result x \<Rightarrow> of_bool (v = x))"
      by (cases res) (auto simp: JS_FreeValue_def split: if_splits)
  qed
  ultimately show ?thesis
    using h(1) ent(1) c ent1 drop
    by (cases res)
       (simp_all add: JS_ExecutePendingJob_def fold_Free JS_FreeValue_def job_refs_def fun_eq_iff
         exI [where x = as'])
qed

section \<open>The abstract machine\<close>

text \<open>
  What the task loop promises: jobs run one at a time in the order of their enqueueing; the jobs a
  job enqueues go behind those already waiting; after each job the collector runs. The trace lists
  the executed jobs with their results.
\<close>

inductive fifo_run :: "('v, 'c, 'f, 's) job_code \<Rightarrow> ('s \<Rightarrow> 's) \<Rightarrow> ('v, 'c, 'f) JSJobEntry list \<Rightarrow> 's \<Rightarrow>
    (('v, 'c, 'f) JSJobEntry \<times> 'v js_result) list \<Rightarrow> 's \<Rightarrow> bool" for job gc where
  idle: "fifo_run job gc [] s [] s"
| step: "job j s = (res, new, s1) \<Longrightarrow> fifo_run job gc (js @ new) (gc s1) tr s2 \<Longrightarrow>
         fifo_run job gc (j # js) s ((j, res) # tr) s2"

inductive_simps fifo_run_Nil [simp]: "fifo_run job gc [] s tr s'"

inductive_simps fifo_run_Cons: "fifo_run job gc (j # js) s tr s'"

definition failed_ctxs :: "(('v, 'c, 'f) JSJobEntry \<times> 'v js_result) list \<Rightarrow> 'c list" where
  "failed_ctxs tr = map (job_ctx \<circ> fst) (filter (\<lambda>(_, r). r = Exception) tr)"

lemma do_tasks_ok:
  assumes al: "alloc_ok alloc"
  shows "fifo_run job gc js s tr s' \<Longrightarrow> jobs_inv rt as js \<Longrightarrow> script rt = s \<Longrightarrow>
    ok (io_js_do_tasks alloc job gc rt) (\<lambda>rt'. jobs_inv rt' [] [] \<and> script rt' = s' \<and>
      dumped rt' = dumped rt @ failed_ctxs tr \<and> refc rt' = (\<lambda>v. refc rt v - job_refs js v) \<and>
      signals rt' = signals rt)"
proof (induction arbitrary: rt as rule: fifo_run.induct)
  case (idle s)
  then have "ring (links rt) job_list as" "as = []" by (auto simp: jobs_inv_def)
  then show ?case
    using klist.empty_ok [of "links rt" job_list "[]"] idle
    by (subst io_js_do_tasks.simps) (simp add: JS_IsJobPending_def failed_ctxs_def)
next
  case (step j s res new s1 js tr s2)
  obtain a as1 where as: "as = a # as1" using step.prems by (cases as) (auto simp: jobs_inv_def)
  have p: "JS_IsJobPending rt = Some True"
    using klist.empty_ok [of "links rt" job_list as] step.prems as by (simp add: JS_IsJobPending_def jobs_inv_def)
  have "job j (script rt) = (res, new, s1)" using step by simp
  from JS_ExecutePendingJob_ok [where job = job, OF al _ this] obtain ret rt1 as'
    where x: "JS_ExecutePendingJob alloc job rt = Some (ret, Some (job_ctx j), rt1)"
      and ret: "ret = (if res = Exception then -1 else 1)" and inv1: "jobs_inv rt1 (as1 @ as') (js @ new)"
      and r1: "refc rt1 = (\<lambda>v. refc rt v - job_refs [j] v + job_refs new v)" "script rt1 = s1"
        "dumped rt1 = dumped rt" "signals rt1 = signals rt"
    using step.prems(1) as by (fastforce simp: ok_conv)
  let ?rt = "(if ret < 0 then rt1\<lparr>dumped := dumped rt1 @ [job_ctx j]\<rparr> else rt1)\<lparr>script := gc s1\<rparr>"
  have "jobs_inv ?rt (as1 @ as') (js @ new)" using inv1 by (simp add: jobs_inv_def)
  from step.IH [OF this] have "ok (io_js_do_tasks alloc job gc ?rt) (\<lambda>rt'. jobs_inv rt' [] [] \<and> script rt' = s2 \<and>
      dumped rt' = dumped ?rt @ failed_ctxs tr \<and> refc rt' = (\<lambda>v. refc ?rt v - job_refs (js @ new) v) \<and>
      signals rt' = signals ?rt)" by simp
  moreover have "job_refs (j # js) v = job_refs [j] v + job_refs js v" for v by (simp add: job_refs_def)
  moreover have "io_js_do_tasks alloc job gc rt = io_js_do_tasks alloc job gc ?rt"
    using p x r1 by (subst io_js_do_tasks.simps) (simp add: ret)
  ultimately show ?case
    by (auto simp: r1 ret failed_ctxs_def fun_eq_iff elim!: ok_mono)
qed


section \<open>Freeing the queue\<close>

lemma free_job_loop:
  "ring h job_list (as @ bs) \<Longrightarrow> h' = (\<lambda>x. if x \<in> set as then None else h x) \<Longrightarrow>
   map (entries rt) bs = map Some js \<Longrightarrow>
   ok (for_each_safe_loop lnext free_job (Some (hd (bs @ [job_list]))) (Some (hd (tl bs @ [job_list])))
         (Some job_list) (h', rt))
     (\<lambda>(h'', rt'). h'' = (\<lambda>x. if x \<in> set (as @ bs) then None else h x) \<and>
        rt' = rt\<lparr>refc := \<lambda>v. refc rt v - job_refs js v,
                 entries := \<lambda>x. if x \<in> set bs then None else entries rt x\<rparr>)"
proof (induction bs arbitrary: as h' rt js)
  case Nil
  then show ?case by (simp add: for_each_safe_loop.simps)
next
  case (Cons b bs)
  have dist: "distinct (job_list # as @ b # bs)" by (rule ring_nodes(5) [OF Cons.prems(1)])
  obtain j js1 where js: "js = j # js1" "entries rt b = Some j" "map (entries rt) bs = map Some js1"
    using Cons.prems(3) by (cases js) auto
  let ?rt = "rt\<lparr>refc := \<lambda>v. refc rt v - int (count_list (job_argv j) v), entries := (entries rt)(b := None)\<rparr>"
  let ?h = "\<lambda>x. if x \<in> set (as @ [b]) then None else h x"
  have body: "free_job b (h', rt) = Some (?h, ?rt)"
    using js(2) by (auto simp: free_job_def Cons.prems(2) fold_Free fun_eq_iff)
  have nx: "hd (bs @ [job_list]) \<notin> set (as @ [b])" using dist by (cases bs) auto
  have "ok (ld h (Some (hd (bs @ [job_list])))) (\<lambda>n. bs \<noteq> [] \<longrightarrow> lnext n = Some (hd (tl bs @ [job_list])))"
  proof (cases bs)
    case Nil
    then show ?thesis using ring_head_step [OF Cons.prems(1)] by (auto simp: ok_conv)
  next
    case (Cons c cs)
    then show ?thesis
      using ring_step [of h job_list "as @ [b]" c cs] Cons.prems(1) by (auto simp: ok_conv)
  qed
  then obtain n where n: "ld ?h (Some (hd (bs @ [job_list]))) = Some n" "bs \<noteq> [] \<longrightarrow> lnext n = Some (hd (tl bs @ [job_list]))"
    using nx by (auto simp: ok_conv ld_def)
  have ent: "map (entries ?rt) bs = map Some js1" using js(3) dist by (auto simp: map_eq_conv)
  have unroll: "for_each_safe_loop lnext free_job (Some b) (Some (hd (bs @ [job_list]))) (Some job_list) (h', rt) =
      for_each_safe_loop lnext free_job (Some (hd (bs @ [job_list]))) (lnext n) (Some job_list) (?h, ?rt)"
    using dist body n(1) by (subst for_each_safe_loop.simps) simp
  show ?case
  proof (cases bs)
    case Nil
    then show ?thesis
      using js unroll by (auto simp: for_each_safe_loop.simps job_refs_def fun_eq_iff)
  next
    case (Cons c cs)
    have "ok (for_each_safe_loop lnext free_job (Some (hd (bs @ [job_list]))) (Some (hd (tl bs @ [job_list])))
         (Some job_list) (?h, ?rt))
     (\<lambda>(h'', rt'). h'' = (\<lambda>x. if x \<in> set ((as @ [b]) @ bs) then None else h x) \<and>
        rt' = ?rt\<lparr>refc := \<lambda>v. refc ?rt v - job_refs js1 v,
                 entries := \<lambda>x. if x \<in> set bs then None else entries ?rt x\<rparr>)"
      using Cons.IH [of "as @ [b]" ?h ?rt js1] Cons.prems(1) ent by (simp only: append_assoc append_Cons append_Nil)
    moreover have "lnext n = Some (hd (tl bs @ [job_list]))" using n(2) Cons by simp
    ultimately show ?thesis
      using unroll js(1) by (auto simp: job_refs_def fun_eq_iff elim!: ok_mono)
  qed
qed


lemma free_job_list_ok:
  assumes inv: "jobs_inv rt as js"
  shows "ok (free_job_list rt) (\<lambda>rt'. jobs_inv rt' [] [] \<and>
     refc rt' = (\<lambda>v. refc rt v - job_refs js v) \<and> dom (entries rt') = dom (entries rt) - set as)"
proof -
  have ring: "ring (links rt) job_list as" and ent: "map (entries rt) as = map Some js"
    using inv by (simp_all add: jobs_inv_def)
  have dist: "distinct (job_list # as)" by (rule ring_nodes(5) [OF ring])
  let ?h = "\<lambda>x. if x \<in> set as then None else links rt x"
  let ?rt = "rt\<lparr>refc := \<lambda>v. refc rt v - job_refs js v, entries := \<lambda>x. if x \<in> set as then None else entries rt x\<rparr>"
  have loop: "list_for_each_safe free_job (Some job_list) (links rt, rt) = Some (?h, ?rt)"
  proof -
    obtain n where n: "ld (links rt) (Some job_list) = Some n" "lnext n = Some (hd (as @ [job_list]))"
      using ring_head_step [OF ring] by (auto simp: ok_conv)
    have "\<exists>n1. ld (links rt) (Some (hd (as @ [job_list]))) = Some n1 \<and>
        (as \<noteq> [] \<longrightarrow> lnext n1 = Some (hd (tl as @ [job_list])))"
      using n ring_step [of "links rt" job_list "[]"] ring by (cases as) (auto simp: ok_conv)
    then obtain n1 where n1: "ld (links rt) (Some (hd (as @ [job_list]))) = Some n1"
      "as \<noteq> [] \<longrightarrow> lnext n1 = Some (hd (tl as @ [job_list]))" by blast
    have "for_each_safe_loop lnext free_job (Some (hd (as @ [job_list]))) (Some (hd (tl as @ [job_list])))
        (Some job_list) (links rt, rt) = Some (?h, ?rt)"
      using free_job_loop [of "links rt" "[]" as "links rt" rt js] ring ent by (auto simp: ok_conv)
    then show ?thesis
      using n n1 ent by (cases as) (auto simp: list_for_each_safe_def for_each_safe_loop.simps)
  qed
  have hd: "job_list \<in> dom ?h" using ring_nodes(1) [OF ring] dist by auto
  from init_list_head_ok [OF this] obtain h where h: "init_list_head ?h (Some job_list) = Some h" "ring h job_list []"
    "same_outside {job_list} ?h h" by (auto simp: ok_conv)
  have dom: "dom h = dom (links rt) - set as" using h(3) by (auto simp: same_outside_def split: if_splits)
  have "dom (entries ?rt) = dom (entries rt) - set as" by (auto split: if_splits)
  then show ?thesis
    using loop h dom inv by (simp add: free_job_list_def jobs_inv_def) blast
qed

section \<open>Properties\<close>

definition sample_rt :: "(nat, nat, nat, nat list) JSRuntime" where
  "sample_rt = \<lparr>links = [0 \<mapsto> \<lparr>lprev = Some 0, lnext = Some 0\<rparr>], entries = Map.empty, refc = \<lambda>_. 0,
     script = [], dumped = [], signals = 0\<rparr>"

definition sample_alloc :: "lheap \<Rightarrow> addr option" where
  "sample_alloc h = Some (LEAST a. a \<notin> dom h)"

text \<open>Job 7 enqueues job 8; each job logs its function number; job 9 throws.\<close>

definition sample_job :: "(nat, nat, nat, nat list) job_code" where
  "sample_job j s = (if job_func j = 9 then Exception else Result 0,
     if job_func j = 7 then [j\<lparr>job_func := 8\<rparr>] else [], s @ [job_func j])"

lemma sample_rt_inv: "jobs_inv sample_rt [] []"
  by (auto simp: jobs_inv_def sample_rt_def ring_def linked_def nxt_def prv_def)

lemma sample_alloc_ok: "alloc_ok sample_alloc"
  unfolding alloc_ok_def sample_alloc_def
proof (intro allI impI exI conjI)
  fix h :: lheap
  assume "finite (dom h)"
  then have "\<exists>a. a \<notin> dom h" by (rule ex_new_if_finite [OF infinite_UNIV_nat])
  then show "(LEAST a. a \<notin> dom h) \<notin> dom h" by (rule LeastI_ex)
qed simp





text \<open>
  C29. The clean-up loop of \<open>JS_FreeRuntime\<close> frees every pending entry while it walks the list, yet
  never follows a pointer into an entry it has freed: it releases all references the queue holds,
  leaves no entry of the queue allocated and re-initialises the list as empty.
\<close>

theorem free_job_list_safe:
  assumes "jobs_inv rt as js"
  shows "ok (free_job_list rt) (\<lambda>rt'. jobs_inv rt' [] [] \<and>
     refc rt' = (\<lambda>v. refc rt v - job_refs js v) \<and> dom (entries rt') = dom (entries rt) - set as)"
  using assms by (rule free_job_list_ok)

theorem free_job_list_safe_witness:
  "ok (enqueue_all sample_alloc [\<lparr>job_ctx = 1, job_func = 7, job_argv = [5]\<rparr>] sample_rt) (\<lambda>rt.
     ok (free_job_list rt) (\<lambda>rt'. jobs_inv rt' [] [] \<and> refc rt' 5 = 0))"
proof -
  let ?js = "[\<lparr>job_ctx = 1, job_func = 7, job_argv = [5]\<rparr>] :: (nat, nat, nat) JSJobEntry list"
  obtain rt as where r: "enqueue_all sample_alloc ?js sample_rt = Some rt" and inv: "jobs_inv rt as ?js"
    and g: "grows sample_rt rt ?js"
    using enqueue_all_ok [OF sample_alloc_ok sample_rt_inv, of ?js] by (auto simp: ok_conv)
  have "ok (free_job_list rt) (\<lambda>rt'. jobs_inv rt' [] [] \<and> refc rt' 5 = 0)"
    using free_job_list_safe [OF inv] g by (auto simp: grows_def sample_rt_def elim!: ok_mono)
  then show ?thesis using r by simp
qed

end
