(* ===== verification/Char_Range.thy ===== *)
theory Char_Range
  imports Cutils
begin

text \<open>
  The character ranges of src/quickjs/libunicode.c and libunicode.h. A \<open>CharRange\<close> is a growable
  array of points; the points at even positions start an interval and those at odd positions end it
  (exclusively). The operations are modelled on the array, with checked accesses, with the allocator
  as a parameter (the field \<open>cr_realloc_func\<close>; sizes in points) and with its failures: each returns 0
  or -1 and the range. The theorems relate them to sets of code points.
\<close>

type_synonym 'm cr_alloc = "'m \<Rightarrow> u32 list option \<Rightarrow> nat \<Rightarrow> 'm \<times> u32 list option"

record 'm CharRange =
  cr_len :: nat
  cr_size :: nat
  points :: "u32 list option"
  mem_opaque :: 'm
  cr_realloc_func :: "'m cr_alloc"

datatype CharRangeOpEnum = CR_OP_UNION | CR_OP_INTER | CR_OP_XOR

definition pts :: "'m CharRange \<Rightarrow> u32 list" where
  "pts cr = (case points cr of None \<Rightarrow> [] | Some p \<Rightarrow> p)"

definition cr_init :: "'m cr_alloc \<Rightarrow> 'm \<Rightarrow> 'm cr_alloc option \<Rightarrow> 'm CharRange" where
  "cr_init cr_default_realloc opq f =
     \<lparr>cr_len = 0, cr_size = 0, points = None, mem_opaque = opq,
      cr_realloc_func = (case f of None \<Rightarrow> cr_default_realloc | Some g \<Rightarrow> g)\<rparr>"

text \<open>The caller of \<open>cr_free\<close> does not use the range any more; what is left is the allocator's state.\<close>

definition cr_free :: "'m CharRange \<Rightarrow> 'm" where
  "cr_free cr = fst (cr_realloc_func cr (mem_opaque cr) (points cr) 0)"

definition cr_realloc :: "'m CharRange \<Rightarrow> nat \<Rightarrow> int \<times> 'm CharRange" where
  "cr_realloc cr sz =
     (if sz > cr_size cr then
        let new_size = max sz (cr_size cr * 3 div 2) in
        case cr_realloc_func cr (mem_opaque cr) (points cr) new_size of
          (m, None) \<Rightarrow> (-1, cr\<lparr>mem_opaque := m\<rparr>)
        | (m, Some b) \<Rightarrow> (0, cr\<lparr>mem_opaque := m, points := Some b, cr_size := new_size\<rparr>)
      else (0, cr))"

definition put_point :: "'m CharRange \<Rightarrow> nat \<Rightarrow> u32 \<Rightarrow> 'm CharRange option" where
  "put_point cr i v = do { p \<leftarrow> points cr; p \<leftarrow> wr p i v; Some (cr\<lparr>points := Some p\<rparr>) }"

definition cr_copy :: "'m CharRange \<Rightarrow> 'm CharRange \<Rightarrow> (int \<times> 'm CharRange) option" where
  "cr_copy cr cr1 =
     (case cr_realloc cr (cr_len cr1) of (r, cr) \<Rightarrow>
        if r \<noteq> 0 then Some (-1, cr)
        else do {
          src \<leftarrow> slice (pts cr1) 0 (cr_len cr1);
          p \<leftarrow> blit (pts cr) 0 src;
          Some (0, cr\<lparr>points := if points cr = None then None else Some p, cr_len := cr_len cr1\<rparr>) })"

text \<open>\<open>cr_compress\<close>: the inner loop looks for the end of a run of adjoining intervals.\<close>

function run_scan :: "u32 list \<Rightarrow> nat \<Rightarrow> nat \<Rightarrow> nat option" where
  "run_scan p len j =
     (if j + 3 < len then do {
        a \<leftarrow> rd p (j + 1); b \<leftarrow> rd p (j + 2);
        if a = b then run_scan p len (j + 2) else Some j }
      else Some j)"
  by pat_completeness auto
termination by (relation "measure (\<lambda>(_, len, j). len - j)") auto

declare run_scan.simps [simp del]

partial_function (option) compress_loop :: "nat \<Rightarrow> u32 list \<Rightarrow> nat \<Rightarrow> nat \<Rightarrow> (u32 list \<times> nat) option" where
  "compress_loop len p i k =
     (if i + 1 < len then do {
        a \<leftarrow> rd p i; b \<leftarrow> rd p (i + 1);
        if a = b then compress_loop len p (i + 2) k
        else do {
          j \<leftarrow> run_scan p len i;
          a \<leftarrow> rd p i; p \<leftarrow> wr p k a;
          b \<leftarrow> rd p (j + 1); p \<leftarrow> wr p (k + 1) b;
          compress_loop len p (j + 2) (k + 2) } }
      else Some (p, k))"

definition cr_compress :: "'m CharRange \<Rightarrow> 'm CharRange option" where
  "cr_compress cr = do {
     (p, k) \<leftarrow> compress_loop (cr_len cr) (pts cr) 0 0;
     Some (cr\<lparr>points := if points cr = None then None else Some p, cr_len := k\<rparr>) }"

definition cr_add_point :: "'m CharRange \<Rightarrow> u32 \<Rightarrow> (int \<times> 'm CharRange) option" where
  "cr_add_point cr v =
     (case (if cr_len cr \<ge> cr_size cr then cr_realloc cr (cr_len cr + 1) else (0, cr)) of (r, cr) \<Rightarrow>
        if r \<noteq> 0 then Some (-1, cr)
        else do { cr \<leftarrow> put_point cr (cr_len cr) v; Some (0, cr\<lparr>cr_len := cr_len cr + 1\<rparr>) })"

definition cr_add_interval :: "'m CharRange \<Rightarrow> u32 \<Rightarrow> u32 \<Rightarrow> (int \<times> 'm CharRange) option" where
  "cr_add_interval cr c1 c2 =
     (case (if cr_len cr + 2 > cr_size cr then cr_realloc cr (cr_len cr + 2) else (0, cr)) of (r, cr) \<Rightarrow>
        if r \<noteq> 0 then Some (-1, cr)
        else do {
          cr \<leftarrow> put_point cr (cr_len cr) c1; let cr = cr\<lparr>cr_len := cr_len cr + 1\<rparr>;
          cr \<leftarrow> put_point cr (cr_len cr) c2; Some (0, cr\<lparr>cr_len := cr_len cr + 1\<rparr>) })"

text \<open>The in/out status after \<open>a_idx\<close> points of the first and \<open>b_idx\<close> points of the second range.\<close>

fun is_in :: "CharRangeOpEnum \<Rightarrow> bool \<Rightarrow> bool \<Rightarrow> bool" where
  "is_in CR_OP_UNION a b = (a \<or> b)"
| "is_in CR_OP_INTER a b = (a \<and> b)"
| "is_in CR_OP_XOR a b = (a \<noteq> b)"

text \<open>The next point of two sorted arrays, with the advanced indices; \<^term>\<open>None\<close> when both are used up.\<close>

definition next_point :: "u32 list \<Rightarrow> u32 list \<Rightarrow> nat \<Rightarrow> nat \<Rightarrow> (u32 \<times> nat \<times> nat) option" where
  "next_point a_pt b_pt a_idx b_idx =
     (if a_idx < length a_pt \<and> b_idx < length b_pt then
        if a_pt ! a_idx < b_pt ! b_idx then Some (a_pt ! a_idx, a_idx + 1, b_idx)
        else if a_pt ! a_idx = b_pt ! b_idx then Some (a_pt ! a_idx, a_idx + 1, b_idx + 1)
        else Some (b_pt ! b_idx, a_idx, b_idx + 1)
      else if a_idx < length a_pt then Some (a_pt ! a_idx, a_idx + 1, b_idx)
      else if b_idx < length b_pt then Some (b_pt ! b_idx, a_idx, b_idx + 1)
      else None)"

function cr_op_loop :: "CharRangeOpEnum \<Rightarrow> u32 list \<Rightarrow> u32 list \<Rightarrow> nat \<Rightarrow> nat \<Rightarrow> 'm CharRange \<Rightarrow>
    (int \<times> 'm CharRange) option" where
  "cr_op_loop op a_pt b_pt a_idx b_idx cr =
     (case next_point a_pt b_pt a_idx b_idx of
        None \<Rightarrow> Some (0, cr)
      | Some (v, a_idx, b_idx) \<Rightarrow>
          if is_in op (odd a_idx) (odd b_idx) \<noteq> odd (cr_len cr) then do {
            (r, cr) \<leftarrow> cr_add_point cr v;
            if r \<noteq> 0 then Some (-1, cr) else cr_op_loop op a_pt b_pt a_idx b_idx cr }
          else cr_op_loop op a_pt b_pt a_idx b_idx cr)"
  by pat_completeness auto
termination
  by (relation "measure (\<lambda>(_, a, b, i, j, _). (length a - i) + (length b - j))")
     (auto simp: next_point_def split: if_splits)

declare cr_op_loop.simps [simp del]

definition cr_op :: "'m CharRange \<Rightarrow> u32 list \<Rightarrow> u32 list \<Rightarrow> CharRangeOpEnum \<Rightarrow> (int \<times> 'm CharRange) option" where
  "cr_op cr a_pt b_pt op = do {
     (r, cr) \<leftarrow> cr_op_loop op a_pt b_pt 0 0 cr;
     if r \<noteq> 0 then Some (-1, cr)
     else do { cr \<leftarrow> cr_compress cr; Some (0, cr) } }"

definition cr_union1 :: "'m CharRange \<Rightarrow> u32 list \<Rightarrow> (int \<times> 'm CharRange) option" where
  "cr_union1 cr b_pt = do {
     a_pt \<leftarrow> slice (pts cr) 0 (cr_len cr);
     (ret, cr') \<leftarrow> cr_op (cr\<lparr>cr_len := 0, cr_size := 0, points := None\<rparr>) a_pt b_pt CR_OP_UNION;
     Some (ret, cr'\<lparr>mem_opaque := cr_free (cr\<lparr>mem_opaque := mem_opaque cr'\<rparr>)\<rparr>) }"

definition cr_union_interval :: "'m CharRange \<Rightarrow> u32 \<Rightarrow> u32 \<Rightarrow> (int \<times> 'm CharRange) option" where
  "cr_union_interval cr c1 c2 = cr_union1 cr [c1, c2 + 1]"

definition cr_invert :: "'m CharRange \<Rightarrow> (int \<times> 'm CharRange) option" where
  "cr_invert cr =
     (let len = cr_len cr in
      case cr_realloc cr (len + 2) of (r, cr) \<Rightarrow>
        if r \<noteq> 0 then Some (-1, cr)
        else do {
          src \<leftarrow> slice (pts cr) 0 len;
          p \<leftarrow> points cr; p \<leftarrow> blit p 1 src;
          p \<leftarrow> wr p 0 0; p \<leftarrow> wr p (len + 1) (- 1);
          cr \<leftarrow> cr_compress (cr\<lparr>points := Some p, cr_len := len + 2\<rparr>);
          Some (0, cr) })"


section \<open>The array\<close>

definition cr_alloc_ok :: "'m cr_alloc \<Rightarrow> bool" where
  "cr_alloc_ok f \<longleftrightarrow> (\<forall>m p n m' b. f m p n = (m', Some b) \<longrightarrow>
     length b = n \<and> (\<forall>old. p = Some old \<longrightarrow> take (min n (length old)) b = take (min n (length old)) old))"

definition cr_wf :: "'m CharRange \<Rightarrow> bool" where
  "cr_wf cr \<longleftrightarrow> cr_alloc_ok (cr_realloc_func cr) \<and> length (pts cr) = cr_size cr \<and> cr_len cr \<le> cr_size cr"

definition cr_content :: "'m CharRange \<Rightarrow> u32 list" where
  "cr_content cr = take (cr_len cr) (pts cr)"

lemma length_cr_content [simp]: "cr_wf cr \<Longrightarrow> length (cr_content cr) = cr_len cr"
  by (simp add: cr_wf_def cr_content_def)

lemma cr_init_wf:
  assumes "cr_alloc_ok dflt" "\<And>g. f = Some g \<Longrightarrow> cr_alloc_ok g"
  shows "cr_wf (cr_init dflt opq f)" "cr_content (cr_init dflt opq f) = []"
  using assms by (auto simp: cr_init_def cr_wf_def cr_content_def pts_def split: option.splits)

lemma cr_realloc_ok:
  assumes "cr_wf cr"
  shows "case cr_realloc cr sz of (r, cr') \<Rightarrow> cr_wf cr' \<and> cr_content cr' = cr_content cr \<and>
     cr_len cr' = cr_len cr \<and> (r = 0 \<and> sz \<le> cr_size cr' \<or> r = -1)"
proof (cases "sz > cr_size cr")
  case True
  let ?n = "max sz (cr_size cr * 3 div 2)"
  obtain m b where f: "cr_realloc_func cr (mem_opaque cr) (points cr) ?n = (m, b)" by fastforce
  show ?thesis
  proof (cases b)
    case None
    then show ?thesis using True f assms by (simp add: cr_realloc_def Let_def cr_wf_def cr_content_def pts_def)
  next
    case (Some p)
    then have p: "length p = ?n" "\<And>old. points cr = Some old \<Longrightarrow> take (min ?n (length old)) p = take (min ?n (length old)) old"
      using assms f by (auto simp: cr_wf_def cr_alloc_ok_def)
    have "take (cr_len cr) p = take (cr_len cr) (pts cr)"
    proof (cases "points cr")
      case None
      then show ?thesis using assms by (simp add: cr_wf_def pts_def)
    next
      case (Some old)
      have "cr_len cr \<le> length old" "length old \<le> ?n" using assms Some True by (auto simp: cr_wf_def pts_def)
      then show ?thesis using p(2) [OF Some] Some
        by (metis (no_types, lifting) min.absorb1 min_absorb2 option.simps(5) pts_def take_take)
    qed
    then show ?thesis
      using True f Some p assms
      by (simp add: cr_realloc_def Let_def cr_wf_def cr_content_def pts_def le_max_iff_disj)
  qed
next
  case False
  then show ?thesis using assms by (simp add: cr_realloc_def)
qed

lemma put_point_end:
  assumes "cr_wf cr" "cr_len cr < cr_size cr"
  shows "ok (put_point cr (cr_len cr) v) (\<lambda>cr'. cr_wf (cr'\<lparr>cr_len := cr_len cr + 1\<rparr>) \<and> cr_len cr' = cr_len cr \<and>
     cr_size cr' = cr_size cr \<and> cr_content (cr'\<lparr>cr_len := cr_len cr + 1\<rparr>) = cr_content cr @ [v])"
proof -
  obtain p where p: "points cr = Some p" using assms by (cases "points cr") (auto simp: cr_wf_def pts_def)
  then show ?thesis
    using assms by (auto simp: put_point_def cr_wf_def pts_def cr_content_def take_Suc_conv_app_nth)
qed

lemma cr_add_point_ok:
  assumes "cr_wf cr"
  shows "ok (cr_add_point cr v) (\<lambda>(r, cr'). cr_wf cr' \<and>
     (r = 0 \<and> cr_content cr' = cr_content cr @ [v] \<and> cr_len cr' = cr_len cr + 1 \<or> r = -1))"
proof -
  obtain r cr1 where e: "(if cr_len cr \<ge> cr_size cr then cr_realloc cr (cr_len cr + 1) else (0, cr)) = (r, cr1)"
    by fastforce
  then have 1: "cr_wf cr1" "cr_content cr1 = cr_content cr" "cr_len cr1 = cr_len cr"
    "r = 0 \<and> cr_len cr < cr_size cr1 \<or> r = -1"
    using cr_realloc_ok [OF assms, of "cr_len cr + 1"] assms by (auto split: if_splits)
  show ?thesis
  proof (cases "r = 0")
    case True
    then show ?thesis
      using put_point_end [of cr1 v] 1 unfolding cr_add_point_def e by (auto elim!: ok_mono)
  next
    case False
    then show ?thesis using 1 unfolding cr_add_point_def e by simp
  qed
qed

lemma cr_add_interval_ok:
  assumes "cr_wf cr"
  shows "ok (cr_add_interval cr c1 c2) (\<lambda>(r, cr'). cr_wf cr' \<and>
     (r = 0 \<and> cr_content cr' = cr_content cr @ [c1, c2] \<or> r = -1))"
proof -
  obtain r cr1 where e: "(if cr_len cr + 2 > cr_size cr then cr_realloc cr (cr_len cr + 2) else (0, cr)) = (r, cr1)"
    by fastforce
  then have 1: "cr_wf cr1" "cr_content cr1 = cr_content cr" "cr_len cr1 = cr_len cr"
    "r = 0 \<and> cr_len cr + 2 \<le> cr_size cr1 \<or> r = -1"
    using cr_realloc_ok [OF assms, of "cr_len cr + 2"] assms by (auto split: if_splits)
  show ?thesis
  proof (cases "r = 0")
    case True
    then obtain cr2 where p: "put_point cr1 (cr_len cr1) c1 = Some cr2" and
      2: "cr_wf (cr2\<lparr>cr_len := cr_len cr + 1\<rparr>)" "cr_len cr2 = cr_len cr" "cr_size cr2 = cr_size cr1"
        "cr_content (cr2\<lparr>cr_len := cr_len cr + 1\<rparr>) = cr_content cr @ [c1]"
      using put_point_end [of cr1 c1] 1 by (auto simp: ok_conv)
    from put_point_end [OF 2(1), of c2] show ?thesis
      using True 1 2 p unfolding cr_add_interval_def e by (auto elim!: ok_mono)
  next
    case False
    then show ?thesis using 1 unfolding cr_add_interval_def e by simp
  qed
qed

section \<open>Compression\<close>

text \<open>The effect of \<open>cr_compress\<close> on the list of points.\<close>

fun run_end :: "u32 \<Rightarrow> u32 list \<Rightarrow> u32 \<times> u32 list" where
  "run_end b (c # d # r) = (if b = c then run_end d r else (b, c # d # r))"
| "run_end b r = (b, r)"

lemma run_end_length: "length (snd (run_end b r)) \<le> length r"
  by (induction b r rule: run_end.induct) auto

function squeeze :: "u32 list \<Rightarrow> u32 list" where
  "squeeze (a # b # r) =
     (if a = b then squeeze r else a # fst (run_end b r) # squeeze (snd (run_end b r)))"
| "squeeze [] = []"
| "squeeze [a] = []"
  by pat_completeness auto
termination
  by (relation "measure length") (auto simp: le_imp_less_Suc run_end_length less_SucI)

lemma length_squeeze: "length (squeeze r) \<le> length r"
proof (induction r rule: squeeze.induct)
  case (1 a b r)
  then show ?case using run_end_length [of b r] by auto
qed simp_all

lemma drop_ConsD: "drop j xs = y # ys \<Longrightarrow> j < length xs \<and> xs ! j = y \<and> drop (Suc j) xs = ys"
  by (metis Cons_nth_drop_Suc drop_eq_Nil2 linorder_not_less list.distinct(1) list.inject)

lemma drop_take_ConsD:
  assumes "drop j (take len p) = y # ys" "len \<le> length p"
  shows "j < len" "p ! j = y" "drop (j + 1) (take len p) = ys"
  using drop_ConsD [OF assms(1)] assms(2) by auto

lemma run_scan_run_end:
  assumes len: "len \<le> length p"
  shows "drop j (take len p) = a # b # r \<Longrightarrow> \<exists>j'. run_scan p len j = Some j' \<and> j \<le> j' \<and> j' + 1 < len \<and>
     p ! (j' + 1) = fst (run_end b r) \<and> drop (j' + 2) (take len p) = snd (run_end b r)"
proof (induction b r arbitrary: a j rule: run_end.induct [case_names step short1 short2])
  case (step b c d r)
  note d0 = drop_take_ConsD [OF step(2) len]
  note d1 = drop_take_ConsD [OF d0(3) len]
  note d2 = drop_take_ConsD [OF d1(3) len]
  note d3 = drop_take_ConsD [OF d2(3) len]
  have "run_scan p len j = (if b = c then run_scan p len (j + 2) else Some j)"
    using d0 d1 d2 d3 len by (subst run_scan.simps) (simp add: add.assoc)
  moreover have "drop (j + 2) (take len p) = c # d # r" using d1(3) by (simp add: add.assoc)
  ultimately show ?case
    using step(1) [of "j + 2" c] d0 d1 by (cases "b = c") (auto simp: add.assoc)
next
  case (short1 b)
  note d0 = drop_take_ConsD [OF short1 len]
  note d1 = drop_take_ConsD [OF d0(3) len]
  have "len \<le> j + 2" using d1(3) len by (auto simp: add.assoc)
  then have "run_scan p len j = Some j" by (subst run_scan.simps) simp
  then show ?case using d0 d1 by (auto simp: add.assoc)
next
  case (short2 b c)
  note d0 = drop_take_ConsD [OF short2 len]
  note d1 = drop_take_ConsD [OF d0(3) len]
  note d2 = drop_take_ConsD [OF d1(3) len]
  have "len \<le> j + 3" using d2(3) len by (auto simp: add.assoc)
  then have "run_scan p len j = Some j" by (subst run_scan.simps) simp
  then show ?case using d0 d1 by (auto simp: add.assoc)
qed

lemma compress_loop_ok:
  "len \<le> length p \<Longrightarrow> k \<le> i \<Longrightarrow> drop i (take len p) = r \<Longrightarrow> i \<le> len \<Longrightarrow>
   ok (compress_loop len p i k) (\<lambda>(p', k'). k' = k + length (squeeze r) \<and> k' \<le> len \<and>
     take k' p' = take k p @ squeeze r \<and> length p' = length p)"
proof (induction r arbitrary: p i k rule: squeeze.induct)
  case (1 a b r)
  note len = \<open>len \<le> length p\<close>
  note d0 = drop_take_ConsD [OF 1(5) len]
  note d1 = drop_take_ConsD [OF d0(3) len]
  have i: "i + 1 < len" using d1(1) .
  show ?case
  proof (cases "a = b")
    case True
    have "drop (i + 2) (take len p) = r" using d1(3) by (simp add: add.assoc)
    from 1(1) [OF True len _ this] show ?thesis
      using 1 i d0 d1 len True by (subst compress_loop.simps) simp
  next
    case False
    obtain j where j: "run_scan p len i = Some j" "i \<le> j" "j + 1 < len" "p ! (j + 1) = fst (run_end b r)"
      "drop (j + 2) (take len p) = snd (run_end b r)"
      using run_scan_run_end [OF len 1(5)] by blast
    define q where "q = p[k := a, k + 1 := fst (run_end b r)]"
    have k: "k \<le> j" using 1(4) j by simp
    have "drop (j + 2) (take len q) = drop (j + 2) (take len p)"
      using k by (simp add: q_def drop_take)
    then have "ok (compress_loop len q (j + 2) (k + 2)) (\<lambda>(p', k'). k' = k + 2 + length (squeeze (snd (run_end b r))) \<and>
        k' \<le> len \<and> take k' p' = take (k + 2) q @ squeeze (snd (run_end b r)) \<and> length p' = length q)"
      using j k len by (intro 1(2) [OF False]) (auto simp: q_def)
    moreover have "take (k + 2) q = take k p @ [a, fst (run_end b r)]"
      using k j len by (simp add: q_def take_Suc_conv_app_nth numeral_2_eq_2)
    moreover have "compress_loop len p i k = compress_loop len q (j + 2) (k + 2)"
      using i d0 d1 len False j k by (subst compress_loop.simps) (simp add: q_def)
    ultimately show ?thesis using False by (auto simp: q_def elim!: ok_mono)
  qed
next
  case 2
  then show ?case by (subst compress_loop.simps) auto
next
  case (3 a)
  then have "len = i + 1" by (metis add_diff_cancel_left' add_diff_inverse_nat length_Cons length_drop length_take list.size(3) min.absorb2 not_less One_nat_def)
  then show ?case using 3 by (subst compress_loop.simps) auto
qed

lemma cr_compress_ok:
  assumes "cr_wf cr"
  shows "ok (cr_compress cr) (\<lambda>cr'. cr_wf cr' \<and> cr_content cr' = squeeze (cr_content cr))"
proof -
  obtain p k where "compress_loop (cr_len cr) (pts cr) 0 0 = Some (p, k)" "k \<le> cr_len cr"
    "take k p = squeeze (cr_content cr)" "length p = length (pts cr)"
    using compress_loop_ok [of "cr_len cr" "pts cr" 0 0 "cr_content cr"] assms
    by (auto simp: cr_wf_def cr_content_def ok_conv)
  then show ?thesis
    using assms by (auto simp: cr_compress_def cr_wf_def cr_content_def pts_def split: option.splits)
qed


section \<open>The set of code points\<close>

text \<open>A code point is in the range when an odd number of points is at or below it.\<close>

definition cnt :: "u32 list \<Rightarrow> u32 \<Rightarrow> nat" where
  "cnt ps c = length (filter (\<lambda>p. p \<le> c) ps)"

definition cr_in :: "u32 list \<Rightarrow> u32 \<Rightarrow> bool" where
  "cr_in ps c = odd (cnt ps c)"

lemma cnt_simps [simp]:
  "cnt [] c = 0" "cnt (p # ps) c = (if p \<le> c then 1 else 0) + cnt ps c" "cnt (ps @ qs) c = cnt ps c + cnt qs c"
  by (simp_all add: cnt_def)

lemma cnt_none: "(\<And>x. x \<in> set ps \<Longrightarrow> c < x) \<Longrightarrow> cnt ps c = 0"
  by (induction ps) (auto simp: not_le)

lemma cnt_all: "cnt ps (- 1) = length ps"
  by (simp add: cnt_def)

lemma run_end_parity: "odd (cnt (fst (run_end b r) # snd (run_end b r)) c) = odd (cnt (b # r) c)"
  by (induction b r rule: run_end.induct) auto

lemma run_end_even: "even (length (snd (run_end b r))) = even (length r)"
  by (induction b r rule: run_end.induct) auto

lemma squeeze_in: "even (length r) \<Longrightarrow> cr_in (squeeze r) c = cr_in r c"
proof (induction r rule: squeeze.induct)
  case (1 a b r)
  show ?case
  proof (cases "a = b")
    case True
    then show ?thesis using 1 by (simp add: cr_in_def)
  next
    case False
    then have "odd (cnt (squeeze (snd (run_end b r))) c) = odd (cnt (snd (run_end b r)) c)"
      using 1 run_end_even [of b r] by (simp add: cr_in_def)
    then show ?thesis using False run_end_parity [of b r c] by (simp add: cr_in_def)
  qed
qed simp_all

text \<open>Compression of sorted points makes them strictly increasing.\<close>

lemma run_end_sorted:
  "sorted (b # r) \<Longrightarrow> b \<le> fst (run_end b r) \<and> sorted (snd (run_end b r)) \<and>
   (\<forall>x \<in> set (snd (run_end b r)). even (length r) \<longrightarrow> fst (run_end b r) < x) \<and>
   set (snd (run_end b r)) \<subseteq> set r \<and> fst (run_end b r) \<in> set (b # r)"
  by (induction b r rule: run_end.induct) (auto simp: order.strict_iff_order intro: order_trans)

lemma squeeze_subset: "set (squeeze r) \<subseteq> set r"
proof (induction r rule: squeeze.induct)
  case (1 a b r)
  have "set (snd (run_end b r)) \<subseteq> set r" "fst (run_end b r) \<in> set (b # r)"
    by (induction b r rule: run_end.induct) auto
  then show ?case using 1 by (cases "a = b") fastforce+
qed simp_all

lemma squeeze_strict: "sorted r \<Longrightarrow> even (length r) \<Longrightarrow> sorted_wrt (<) (squeeze r) \<and> even (length (squeeze r))"
proof (induction r rule: squeeze.induct)
  case (1 a b r)
  show ?case
  proof (cases "a = b")
    case True
    then show ?thesis using 1 by simp
  next
    case False
    have s: "sorted (b # r)" "a < b" using 1(3) False by auto
    note re = run_end_sorted [OF s(1)]
    have IH: "sorted_wrt (<) (squeeze (snd (run_end b r)))" "even (length (squeeze (snd (run_end b r))))"
      using 1(2) [OF False] re 1(4) run_end_even [of b r] by auto
    have "fst (run_end b r) < x" if "x \<in> set (squeeze (snd (run_end b r)))" for x
      using re that squeeze_subset [of "snd (run_end b r)"] 1(4) by auto
    moreover have "a < fst (run_end b r)" using re s(2) by auto
    ultimately show ?thesis using IH False by (auto intro: less_trans)
  qed
qed simp_all

lemma next_point_Some:
  assumes np: "next_point a b i j = Some (v, i', j')" and s: "sorted a" "sorted b"
  shows "(length a - i') + (length b - j') < (length a - i) + (length b - j)"
    and "\<And>x. x \<in> set (drop i a) \<union> set (drop j b) \<Longrightarrow> v \<le> x"
    and "set (drop i' a) \<subseteq> set (drop i a)" "set (drop j' b) \<subseteq> set (drop j b)" "v \<in> set (drop i a) \<union> set (drop j b)"
    and "v \<le> c \<Longrightarrow> i' + cnt (drop i' a) c = i + cnt (drop i a) c"
    and "v \<le> c \<Longrightarrow> j' + cnt (drop j' b) c = j + cnt (drop j b) c"
proof -
  have da: "drop i a = a ! i # drop (Suc i) a" "\<forall>x \<in> set (drop i a). a ! i \<le> x" if "i < length a"
    using that Cons_nth_drop_Suc [OF that] sorted_wrt_drop [OF s(1), of i] by (metis sorted_simps(2) set_ConsD order_refl)+
  have db: "drop j b = b ! j # drop (Suc j) b" "\<forall>x \<in> set (drop j b). b ! j \<le> x" if "j < length b"
    using that Cons_nth_drop_Suc [OF that] sorted_wrt_drop [OF s(2), of j] by (metis sorted_simps(2) set_ConsD order_refl)+
  consider "i < length a" "j < length b" "a ! i < b ! j" "v = a ! i" "i' = Suc i" "j' = j"
    | "i < length a" "j < length b" "a ! i = b ! j" "v = a ! i" "i' = Suc i" "j' = Suc j"
    | "i < length a" "j < length b" "b ! j < a ! i" "v = b ! j" "i' = i" "j' = Suc j"
    | "i < length a" "\<not> j < length b" "v = a ! i" "i' = Suc i" "j' = j"
    | "\<not> i < length a" "j < length b" "v = b ! j" "i' = i" "j' = Suc j"
  proof (cases "i < length a"; cases "j < length b")
    assume ij: "i < length a" "j < length b"
    then consider "a ! i < b ! j" | "a ! i = b ! j" | "b ! j < a ! i" using less_linear by blast
    then show thesis
    proof cases
      case 1 show ?thesis by (rule that(1)) (use np ij 1 in \<open>auto simp: next_point_def\<close>)
    next
      case 2 show ?thesis by (rule that(2)) (use np ij 2 in \<open>auto simp: next_point_def\<close>)
    next
      case 3 show ?thesis by (rule that(3)) (use np ij 3 less_asym [OF 3] in \<open>auto simp: next_point_def split: if_splits\<close>)
    qed
  next
    assume ij: "i < length a" "\<not> j < length b"
    show thesis by (rule that(4)) (use np ij in \<open>auto simp: next_point_def\<close>)
  next
    assume ij: "\<not> i < length a" "j < length b"
    show thesis by (rule that(5)) (use np ij in \<open>auto simp: next_point_def\<close>)
  next
    assume "\<not> i < length a" "\<not> j < length b"
    then show thesis using np by (simp add: next_point_def)
  qed
  note cases = this
  show "(length a - i') + (length b - j') < (length a - i) + (length b - j)" using cases by cases auto
  show "v \<le> x" if "x \<in> set (drop i a) \<union> set (drop j b)" for x
    using cases da(2) db(2) that by cases (auto intro: order_trans less_imp_le)
  show "set (drop i' a) \<subseteq> set (drop i a)" "set (drop j' b) \<subseteq> set (drop j b)"
    using cases by (cases; simp add: set_drop_subset_set_drop)+
  have ca: "a ! i \<in> set (drop i a)" "cnt (drop i a) c = (if a ! i \<le> c then 1 else 0) + cnt (drop (Suc i) a) c"
    if "i < length a" using da(1) [OF that] by (metis list.set_intros(1), metis cnt_simps(2))
  have cb: "b ! j \<in> set (drop j b)" "cnt (drop j b) c = (if b ! j \<le> c then 1 else 0) + cnt (drop (Suc j) b) c"
    if "j < length b" using db(1) [OF that] by (metis list.set_intros(1), metis cnt_simps(2))
  show "v \<in> set (drop i a) \<union> set (drop j b)" using cases ca(1) cb(1) by cases auto
  show "i' + cnt (drop i' a) c = i + cnt (drop i a) c" if "v \<le> c" using cases ca(2) that by cases simp_all
  show "j' + cnt (drop j' b) c = j + cnt (drop j b) c" if "v \<le> c" using cases cb(2) that by cases simp_all
qed

lemma next_point_None: "next_point a b i j = None \<Longrightarrow> drop i a = [] \<and> drop j b = []"
  by (auto simp: next_point_def split: if_splits)


lemma cr_op_loop_ok:
  assumes s: "sorted a" "sorted b"
  shows "cr_wf cr \<Longrightarrow> odd (cr_len cr) = is_in op (odd i) (odd j) \<Longrightarrow>
   ok (cr_op_loop op a b i j cr) (\<lambda>(r, cr'). cr_wf cr' \<and> (r = -1 \<or> r = 0 \<and>
     (\<exists>ns. cr_content cr' = cr_content cr @ ns \<and> sorted ns \<and> set ns \<subseteq> set (drop i a) \<union> set (drop j b) \<and>
        (\<forall>c. odd (cr_len cr + cnt ns c) = is_in op (odd (i + cnt (drop i a) c)) (odd (j + cnt (drop j b) c))))))"
proof (induction "(length a - i) + (length b - j)" arbitrary: i j cr rule: less_induct)
  case less
  show ?case
  proof (cases "next_point a b i j")
    case None
    then show ?thesis
      using less.prems next_point_None [OF None] by (subst cr_op_loop.simps) (auto intro!: exI [of _ "[]"])
  next
    case (Some t)
    obtain v i' j' where t: "t = (v, i', j')" by (cases t)
    note np = next_point_Some [OF Some [unfolded t] s]
    let ?R = "\<lambda>cr ns. sorted ns \<and> set ns \<subseteq> set (drop i' a) \<union> set (drop j' b) \<and>
        (\<forall>c. odd (cr_len cr + cnt ns c) = is_in op (odd (i' + cnt (drop i' a) c)) (odd (j' + cnt (drop j' b) c)))"
    have low: "cnt (drop i a) c = 0" "cnt (drop j b) c = 0" "cnt ns c = 0"
      if "\<not> v \<le> c" "set ns \<subseteq> set (drop i' a) \<union> set (drop j' b)" for c ns
    proof -
      have "c < x" if "x \<in> set (drop i a) \<union> set (drop j b)" for x
        using np(2) [OF that] \<open>\<not> v \<le> c\<close> by simp
      then show "cnt (drop i a) c = 0" "cnt (drop j b) c = 0" "cnt ns c = 0"
        using np(3,4) that(2) by (auto intro!: cnt_none)
    qed
    show ?thesis
    proof (cases "is_in op (odd i') (odd j') \<noteq> odd (cr_len cr)")
      case True
      obtain r cr1 where add: "cr_add_point cr v = Some (r, cr1)" and wf1: "cr_wf cr1"
        and c1: "r = 0 \<and> cr_content cr1 = cr_content cr @ [v] \<and> cr_len cr1 = cr_len cr + 1 \<or> r = -1"
        using cr_add_point_ok [OF less.prems(1), of v] by (auto simp: ok_conv)
      show ?thesis
      proof (cases "r = 0")
        case False
        then show ?thesis using True add Some t wf1 by (subst cr_op_loop.simps) simp
      next
        case r: True
        have IH: "ok (cr_op_loop op a b i' j' cr1) (\<lambda>(r, cr'). cr_wf cr' \<and> (r = -1 \<or> r = 0 \<and>
            (\<exists>ns. cr_content cr' = cr_content cr1 @ ns \<and> ?R cr1 ns)))"
          using True c1 r wf1 np(1) by (intro less.hyps) auto
        have ext: "sorted (v # ns) \<and> set (v # ns) \<subseteq> set (drop i a) \<union> set (drop j b) \<and>
            (\<forall>c. odd (cr_len cr + cnt (v # ns) c) = is_in op (odd (i + cnt (drop i a) c)) (odd (j + cnt (drop j b) c)))"
          if R: "?R cr1 ns" for ns
        proof (intro conjI allI)
          show "sorted (v # ns)" using R np(2-4) by auto
          show "set (v # ns) \<subseteq> set (drop i a) \<union> set (drop j b)" using R np(3-5) by auto
          fix c
          show "odd (cr_len cr + cnt (v # ns) c) = is_in op (odd (i + cnt (drop i a) c)) (odd (j + cnt (drop j b) c))"
          proof (cases "v \<le> c")
            case True
            have "odd (cr_len cr1 + cnt ns c) = is_in op (odd (i + cnt (drop i a) c)) (odd (j + cnt (drop j b) c))"
              using R by (simp only: np(6,7) [OF True])
            then show ?thesis using True c1 r by simp
          next
            case False
            have "cnt (drop i a) c = 0" "cnt (drop j b) c = 0" "cnt ns c = 0" using low [OF False, of ns] R by auto
            then show ?thesis using less.prems(2) False by simp
          qed
        qed
        have unroll: "cr_op_loop op a b i j cr = cr_op_loop op a b i' j' cr1"
          using True add Some t r by (subst cr_op_loop.simps) simp
        show ?thesis
          unfolding unroll
        proof (rule ok_mono [OF IH], goal_cases)
          case (1 x)
          obtain r2 cr2 where x: "x = (r2, cr2)" by (cases x)
          show ?case
          proof (cases "r2 = 0")
            case True
            then obtain ns where "cr_content cr2 = cr_content cr1 @ ns" "?R cr1 ns" using 1(2) x by auto
            then have "cr_content cr2 = cr_content cr @ v # ns" using c1 r by simp
            then show ?thesis using 1(2) x True ext [OF \<open>?R cr1 ns\<close>] by blast
          qed (use 1(2) x in auto)
        qed
      qed
    next
      case False
      have IH: "ok (cr_op_loop op a b i' j' cr) (\<lambda>(r, cr'). cr_wf cr' \<and> (r = -1 \<or> r = 0 \<and>
            (\<exists>ns. cr_content cr' = cr_content cr @ ns \<and> ?R cr ns)))"
        using False less.prems np(1) by (intro less.hyps) auto
      have ext: "set ns \<subseteq> set (drop i a) \<union> set (drop j b) \<and>
            (\<forall>c. odd (cr_len cr + cnt ns c) = is_in op (odd (i + cnt (drop i a) c)) (odd (j + cnt (drop j b) c)))"
        if R: "?R cr ns" for ns
      proof (intro conjI allI)
        show "set ns \<subseteq> set (drop i a) \<union> set (drop j b)" using R np(3,4) by auto
        fix c
        show "odd (cr_len cr + cnt ns c) = is_in op (odd (i + cnt (drop i a) c)) (odd (j + cnt (drop j b) c))"
        proof (cases "v \<le> c")
          case True
          show ?thesis using R by (simp only: np(6,7) [OF True])
        next
          case False
          have "cnt (drop i a) c = 0" "cnt (drop j b) c = 0" "cnt ns c = 0" using low [OF False, of ns] R by auto
          then show ?thesis using less.prems(2) by simp
        qed
      qed
      have unroll: "cr_op_loop op a b i j cr = cr_op_loop op a b i' j' cr"
        using False Some t by (subst cr_op_loop.simps) simp
      show ?thesis
        unfolding unroll
      proof (rule ok_mono [OF IH], goal_cases)
        case (1 x)
        obtain r2 cr2 where x: "x = (r2, cr2)" by (cases x)
        show ?case
        proof (cases "r2 = 0")
          case True
          then obtain ns where "cr_content cr2 = cr_content cr @ ns" "?R cr ns" using 1(2) x by auto
          then show ?thesis using 1(2) x True ext [OF \<open>?R cr ns\<close>] by blast
        qed (use 1(2) x in auto)
      qed
    qed
  qed
qed


section \<open>The set operations\<close>

text \<open>
  \<open>cr_rep cr S\<close>: the range holds strictly increasing points, an even number of them, and its code
  points are those of \<open>S\<close>.
\<close>

definition points_of :: "u32 list \<Rightarrow> u32 set \<Rightarrow> bool" where
  "points_of ps S \<longleftrightarrow> sorted_wrt (<) ps \<and> even (length ps) \<and> S = {c. cr_in ps c}"

definition cr_rep :: "'m CharRange \<Rightarrow> u32 set \<Rightarrow> bool" where
  "cr_rep cr S \<longleftrightarrow> cr_wf cr \<and> points_of (cr_content cr) S"

text \<open>\<open>cr_holds cr S\<close>: the same for points that are only sorted, as they are before compression.\<close>

definition cr_holds :: "'m CharRange \<Rightarrow> u32 set \<Rightarrow> bool" where
  "cr_holds cr S \<longleftrightarrow> cr_wf cr \<and> sorted (cr_content cr) \<and> even (length (cr_content cr)) \<and> S = {c. cr_in (cr_content cr) c}"

fun set_op :: "CharRangeOpEnum \<Rightarrow> u32 set \<Rightarrow> u32 set \<Rightarrow> u32 set" where
  "set_op CR_OP_UNION A B = A \<union> B"
| "set_op CR_OP_INTER A B = A \<inter> B"
| "set_op CR_OP_XOR A B = (A - B) \<union> (B - A)"

lemma set_op_is_in: "set_op op {c. P c} {c. Q c} = {c. is_in op (P c) (Q c)}"
  by (cases op) auto

lemma points_of_sorted: "points_of ps S \<Longrightarrow> sorted ps"
  by (simp add: points_of_def strict_sorted_iff)

lemma cr_rep_holds: "cr_rep cr S \<Longrightarrow> cr_holds cr S"
  using points_of_sorted by (auto simp: cr_rep_def cr_holds_def points_of_def)

lemma cr_mem_simps [simp]:
  "cr_wf (cr\<lparr>mem_opaque := m\<rparr>) = cr_wf cr" "cr_content (cr\<lparr>mem_opaque := m\<rparr>) = cr_content cr"
  "cr_rep (cr\<lparr>mem_opaque := m\<rparr>) S = cr_rep cr S" "cr_holds (cr\<lparr>mem_opaque := m\<rparr>) S = cr_holds cr S"
  by (simp_all add: cr_rep_def cr_holds_def cr_wf_def pts_def cr_content_def)

lemma squeeze_points_of:
  assumes "sorted ps" "even (length ps)" shows "points_of (squeeze ps) {c. cr_in ps c}"
  using squeeze_strict [OF assms] squeeze_in [OF assms(2)] by (simp add: points_of_def)

lemma cr_op_ok:
  assumes wf: "cr_wf cr" "cr_len cr = 0" and a: "sorted a" "even (length a)" and b: "sorted b" "even (length b)"
  shows "ok (cr_op cr a b op) (\<lambda>(r, cr'). cr_wf cr' \<and>
     (r = 0 \<and> cr_rep cr' (set_op op {c. cr_in a c} {c. cr_in b c}) \<or> r = -1))"
proof -
  have p0: "odd (cr_len cr) = is_in op (odd 0) (odd 0)" using wf by (cases op) auto
  obtain r cr1 where l: "cr_op_loop op a b 0 0 cr = Some (r, cr1)" and wf1: "cr_wf cr1" and
    res: "r = -1 \<or> r = 0 \<and> (\<exists>ns. cr_content cr1 = cr_content cr @ ns \<and> sorted ns \<and>
       (\<forall>c. odd (cr_len cr + cnt ns c) = is_in op (odd (0 + cnt (drop 0 a) c)) (odd (0 + cnt (drop 0 b) c))))"
    using cr_op_loop_ok [OF a(1) b(1) wf(1) p0] by (auto simp: ok_conv)
  show ?thesis
  proof (cases "r = 0")
    case True
    then obtain ns where ns: "cr_content cr1 = ns" "sorted ns"
      "\<And>c. odd (cnt ns c) = is_in op (odd (cnt a c)) (odd (cnt b c))"
      using res wf by (auto simp: cr_content_def)
    have "even (length ns)" using ns(3) [of "- 1"] a(2) b(2) by (cases op) (auto simp: cnt_all)
    then have "points_of (squeeze ns) {c. cr_in ns c}" using squeeze_points_of ns(2) by blast
    moreover have "{c. cr_in ns c} = set_op op {c. cr_in a c} {c. cr_in b c}"
      using ns(3) by (simp add: set_op_is_in cr_in_def)
    ultimately show ?thesis
      using cr_compress_ok [OF wf1] True l ns(1) by (auto simp: cr_op_def cr_rep_def elim!: ok_mono)
  next
    case False
    then show ?thesis using l wf1 res by (auto simp: cr_op_def)
  qed
qed


lemma cr_union1_ok:
  assumes cr: "cr_rep cr S" and b: "sorted b" "even (length b)"
  shows "ok (cr_union1 cr b) (\<lambda>(r, cr'). cr_wf cr' \<and> (r = 0 \<and> cr_rep cr' (S \<union> {c. cr_in b c}) \<or> r = -1))"
proof -
  have wf: "cr_wf cr" and ps: "points_of (cr_content cr) S" using cr by (auto simp: cr_rep_def)
  let ?e = "cr\<lparr>cr_len := 0, cr_size := 0, points := None\<rparr>"
  have e: "cr_wf ?e" "cr_len ?e = 0" using wf by (simp_all add: cr_wf_def pts_def)
  have sl: "slice (pts cr) 0 (cr_len cr) = Some (cr_content cr)" using wf by (simp add: slice_def cr_wf_def cr_content_def)
  have S: "S = {c. cr_in (cr_content cr) c}" "sorted (cr_content cr)" "even (length (cr_content cr))"
    using ps points_of_sorted by (auto simp: points_of_def)
  show ?thesis
    using cr_op_ok [OF e S(2,3) b, of CR_OP_UNION] S(1) by (auto simp: cr_union1_def sl elim!: ok_mono)
qed

lemma cr_in_interval: "c1 \<le> c2 \<Longrightarrow> c2 < - 1 \<Longrightarrow> {c. cr_in [c1, c2 + 1] c} = {c1..c2}"
proof -
  assume c: "c1 \<le> c2" "c2 < (- 1 :: u32)"
  have gt: "c2 + 1 \<le> x \<longleftrightarrow> c2 < x" for x using c by (auto simp: inc_less_eq_iff)
  have "cr_in [c1, c2 + 1] x = (c1 \<le> x \<and> x \<le> c2)" for x
  proof (cases "c2 < x")
    case True
    then have "c1 \<le> x" "\<not> x \<le> c2" using c(1) by (simp_all add: less_imp_le order_trans [OF _ less_imp_le])
    then show ?thesis using True by (simp add: cr_in_def gt)
  next
    case False
    then have "x \<le> c2" by simp
    then show ?thesis using False by (simp add: cr_in_def gt)
  qed
  then show ?thesis by (simp only: set_eq_iff mem_Collect_eq atLeastAtMost_iff simp_thms)
qed

lemma interval_sorted: "c1 \<le> c2 \<Longrightarrow> c2 < - 1 \<Longrightarrow> sorted [c1, c2 + (1 :: u32)]"
proof -
  assume c: "c1 \<le> c2" "c2 < (- 1 :: u32)"
  then have "\<not> c2 + 1 \<le> c2" by (auto simp: inc_less_eq_iff)
  then show ?thesis using c by auto
qed

lemma cr_union_interval_ok:
  assumes "cr_rep cr S" "c1 \<le> c2" "c2 < - 1"
  shows "ok (cr_union_interval cr c1 c2) (\<lambda>(r, cr'). cr_wf cr' \<and> (r = 0 \<and> cr_rep cr' (S \<union> {c1..c2}) \<or> r = -1))"
  using cr_union1_ok [OF assms(1) interval_sorted [OF assms(2,3)]] cr_in_interval [OF assms(2,3)]
  by (simp add: cr_union_interval_def)

lemma cr_copy_ok:
  assumes "cr_wf cr" "cr_wf cr1"
  shows "ok (cr_copy cr cr1) (\<lambda>(r, cr'). cr_wf cr' \<and> (r = 0 \<and> cr_content cr' = cr_content cr1 \<or> r = -1))"
proof -
  obtain r cr2 where e: "cr_realloc cr (cr_len cr1) = (r, cr2)" by fastforce
  then have 2: "cr_wf cr2" "r = 0 \<and> cr_len cr1 \<le> cr_size cr2 \<or> r = -1"
    using cr_realloc_ok [OF assms(1), of "cr_len cr1"] by auto
  have sl: "slice (pts cr1) 0 (cr_len cr1) = Some (cr_content cr1)"
    using assms(2) by (simp add: slice_def cr_wf_def cr_content_def)
  show ?thesis
  proof (cases "r = 0")
    case True
    then have fit: "length (cr_content cr1) \<le> length (pts cr2)" using 2 assms(2) by (simp add: cr_wf_def)
    have "length (cr_content cr1) = cr_len cr1" using assms(2) by simp
    moreover have "points cr2 = None \<Longrightarrow> cr_content cr1 = []" using fit by (auto simp: pts_def)
    ultimately show ?thesis
      using True e sl fit 2 assms(2)
      by (cases "points cr2") (auto simp: cr_copy_def blit_def cr_wf_def cr_content_def pts_def)
  qed (use e 2 in \<open>simp add: cr_copy_def\<close>)
qed

lemma cr_invert_holds:
  assumes "cr_holds cr S"
  shows "ok (cr_invert cr) (\<lambda>(r, cr'). cr_wf cr' \<and> (r = 0 \<and> cr_rep cr' (UNIV - {- 1} - S) \<or> r = -1))"
proof -
  have wf: "cr_wf cr" and ps: "sorted (cr_content cr)" "even (length (cr_content cr))" "S = {c. cr_in (cr_content cr) c}"
    using assms by (auto simp: cr_holds_def)
  let ?len = "cr_len cr"
  obtain r cr1 where e: "cr_realloc cr (?len + 2) = (r, cr1)" by fastforce
  then have 1: "cr_wf cr1" "cr_content cr1 = cr_content cr" "cr_len cr1 = ?len" "r = 0 \<and> ?len + 2 \<le> cr_size cr1 \<or> r = -1"
    using cr_realloc_ok [OF wf, of "?len + 2"] by auto
  show ?thesis
  proof (cases "r = 0")
    case True
    then obtain p where p: "points cr1 = Some p" "length p = cr_size cr1" "?len + 2 \<le> length p"
      using 1 by (cases "points cr1") (auto simp: cr_wf_def pts_def)
    have c: "take ?len p = cr_content cr" "length (cr_content cr) = ?len"
      using 1 p wf by (simp_all add: cr_content_def [of cr1] pts_def [of cr1])
    define q where "q = (take 1 p @ cr_content cr @ drop (1 + ?len) p)[0 := 0, ?len + 1 := - 1]"
    have q: "take (?len + 2) q = 0 # cr_content cr @ [- 1]" "length q = length p"
    proof -
      have "take 1 p = [p ! 0]" using p(3) by (cases p) auto
      then show "take (?len + 2) q = 0 # cr_content cr @ [- 1]"
        using c p(3) by (simp add: q_def list_update_append take_Suc_conv_app_nth [of ?len] drop_Suc
            Cons_nth_drop_Suc [symmetric])
      show "length q = length p" using c p(3) by (simp add: q_def)
    qed
    let ?cr = "cr1\<lparr>points := Some q, cr_len := ?len + 2\<rparr>"
    have wf2: "cr_wf ?cr" "cr_content ?cr = 0 # cr_content cr @ [- 1]"
      using 1 p q by (auto simp: cr_wf_def cr_content_def pts_def)
    have "sorted (0 # cr_content cr @ [- 1])" "even (length (0 # cr_content cr @ [- 1]))"
      using ps by (auto simp: sorted_append)
    moreover have "{c. cr_in (0 # cr_content cr @ [- 1]) c} = UNIV - {- 1} - S"
      using ps by (auto simp: cr_in_def cnt_all word_order.extremum_unique)
    ultimately have "points_of (squeeze (0 # cr_content cr @ [- 1])) (UNIV - {- 1} - S)"
      using squeeze_points_of by metis
    moreover have "cr_invert cr = do { cr \<leftarrow> cr_compress ?cr; Some (0, cr) }"
      using True e p c q(2) by (simp add: cr_invert_def Let_def slice_def blit_def pts_def q_def)
    ultimately show ?thesis
      using cr_compress_ok [OF wf2(1)] wf2(2) by (auto simp: cr_rep_def elim!: ok_mono)
  qed (use e 1 in \<open>simp add: cr_invert_def Let_def\<close>)
qed

lemmas cr_invert_ok = cr_invert_holds [OF cr_rep_holds]

lemma points_unique:
  "sorted_wrt (<) ps \<Longrightarrow> sorted_wrt (<) qs \<Longrightarrow> (\<And>c. cr_in ps c = cr_in qs c) \<Longrightarrow> ps = qs"
proof (induction ps arbitrary: qs)
  case Nil
  then show ?case
  proof (cases qs)
    case (Cons q qs')
    have "cnt qs' q = 0" using Nil Cons by (auto intro: cnt_none)
    then show ?thesis using Nil(3) [of q] Cons by (simp add: cr_in_def)
  qed simp
next
  case (Cons p ps)
  have p0: "cnt ps c = 0" if "c \<le> p" for c using Cons.prems(1) that by (auto intro!: cnt_none)
  show ?case
  proof (cases qs)
    case Nil
    then show ?thesis using Cons.prems(3) [of p] p0 [of p] by (simp add: cr_in_def)
  next
    case (Cons q qs')
    have q0: "cnt qs' c = 0" if "c \<le> q" for c using Cons.prems(2) Cons that by (auto intro!: cnt_none)
    have "p = q"
    proof (cases p q rule: linorder_cases)
      case less
      then have "\<not> q \<le> p" "p \<le> q" by simp_all
      then show ?thesis using Cons.prems(3) [of p] p0 [of p] q0 [of p] Cons by (simp add: cr_in_def not_le)
    next
      case greater
      then have "\<not> p \<le> q" "q \<le> p" by simp_all
      then show ?thesis using Cons.prems(3) [of q] p0 [of q] q0 [of q] Cons by (simp add: cr_in_def not_le)
    qed
    moreover have "cr_in ps c = cr_in qs' c" for c
      using Cons.prems(3) [of c] p0 [of c] q0 [of c] Cons \<open>p = q\<close> by (cases "p \<le> c") (auto simp: cr_in_def)
    ultimately show ?thesis using Cons.IH [of qs'] Cons.prems Cons by simp
  qed
qed


section \<open>The interface for the builders of character classes\<close>

text \<open>
  The parsers and the Unicode property code build a class by adding intervals one at a time and
  inverting the result on demand; a failed call ends the construction with -1.
\<close>

fun class_build :: "('r \<Rightarrow> u32 \<Rightarrow> u32 \<Rightarrow> (int \<times> 'r) option) \<Rightarrow> ('r \<Rightarrow> (int \<times> 'r) option) \<Rightarrow>
    bool \<Rightarrow> 'r \<Rightarrow> (u32 \<times> u32) list \<Rightarrow> (int \<times> 'r) option" where
  "class_build add compl neg r [] = (if neg then compl r else Some (0, r))"
| "class_build add compl neg r ((c1, c2) # ivs) = do {
     (e, r) \<leftarrow> add r c1 c2;
     if e \<noteq> 0 then Some (-1, r) else class_build add compl neg r ivs }"

definition class_set :: "bool \<Rightarrow> u32 set \<Rightarrow> u32 set" where
  "class_set neg S = (if neg then UNIV - {- 1} - S else S)"

locale interval_store =
  fixes rep :: "'r \<Rightarrow> u32 set \<Rightarrow> bool"
    and add :: "'r \<Rightarrow> u32 \<Rightarrow> u32 \<Rightarrow> (int \<times> 'r) option"
    and compl :: "'r \<Rightarrow> (int \<times> 'r) option"
  assumes add_ok: "rep r S \<Longrightarrow> c1 \<le> c2 \<Longrightarrow> c2 < - 1 \<Longrightarrow>
      ok (add r c1 c2) (\<lambda>(e, r'). e = 0 \<and> rep r' (S \<union> {c1..c2}) \<or> e = -1)"
    and compl_ok: "rep r S \<Longrightarrow> ok (compl r) (\<lambda>(e, r'). e = 0 \<and> rep r' (UNIV - {- 1} - S) \<or> e = -1)"
begin

lemma class_build_ok:
  "rep r S \<Longrightarrow> \<forall>(c1, c2) \<in> set ivs. c1 \<le> c2 \<and> c2 < - 1 \<Longrightarrow>
   ok (class_build add compl neg r ivs) (\<lambda>(e, r').
     e = 0 \<and> rep r' (class_set neg (S \<union> (\<Union>(c1, c2) \<in> set ivs. {c1..c2}))) \<or> e = -1)"
proof (induction ivs arbitrary: r S)
  case Nil
  then show ?case using compl_ok [of r S] by (auto simp: class_set_def)
next
  case (Cons iv ivs)
  obtain c1 c2 where iv: "iv = (c1, c2)" by fastforce
  obtain e r1 where a: "add r c1 c2 = Some (e, r1)" "e = 0 \<and> rep r1 (S \<union> {c1..c2}) \<or> e = -1"
    using add_ok [OF Cons.prems(1), of c1 c2] Cons.prems(2) iv by (auto simp: ok_conv)
  show ?case
  proof (cases "e = 0")
    case True
    then show ?thesis using Cons.IH [of r1 "S \<union> {c1..c2}"] Cons.prems(2) a iv by (simp add: Un_assoc)
  next
    case False
    then show ?thesis using a iv by simp
  qed
qed

end

interpretation cr: interval_store cr_rep cr_union_interval cr_invert
proof
  show "ok (cr_union_interval r c1 c2) (\<lambda>(e, r'). e = 0 \<and> cr_rep r' (S \<union> {c1..c2}) \<or> e = -1)"
    if "cr_rep r S" "c1 \<le> c2" "c2 < - 1" for r :: "'a CharRange" and S c1 c2
    using cr_union_interval_ok [OF that] by (auto elim!: ok_mono)
  show "ok (cr_invert r) (\<lambda>(e, r'). e = 0 \<and> cr_rep r' (UNIV - {- 1} - S) \<or> e = -1)"
    if "cr_rep r S" for r :: "'a CharRange" and S
    using cr_invert_ok [OF that] by (auto elim!: ok_mono)
qed

section \<open>Properties\<close>

text \<open>An allocator that always succeeds and one that has run out, for the witnesses.\<close>

definition sample_cr_alloc :: "unit cr_alloc" where
  "sample_cr_alloc m p n = ((), Some (take n (case p of None \<Rightarrow> [] | Some q \<Rightarrow> q) @
     replicate (n - length (case p of None \<Rightarrow> [] | Some q \<Rightarrow> q)) 0))"

lemma sample_cr_alloc_ok: "cr_alloc_ok sample_cr_alloc"
  by (auto simp: cr_alloc_ok_def sample_cr_alloc_def)

lemma sample_cr_rep: "cr_rep (cr_init sample_cr_alloc () None) {}"
  using cr_init_wf [of sample_cr_alloc None "()"] sample_cr_alloc_ok
  by (simp add: cr_rep_def points_of_def cr_in_def)

text \<open>
  C10. \<open>cr_op\<close> computes the union, the intersection or the symmetric difference of two ranges: on
  sorted arrays of points it never accesses memory out of bounds, and unless memory runs out (-1) the
  result denotes exactly that set and is canonical - strictly increasing points, an even number of
  them - so that no other canonical array of points denotes the same set.
\<close>

theorem cr_op_set:
  assumes "cr_wf cr" "cr_len cr = 0" and "sorted a" "even (length a)" and "sorted b" "even (length b)"
  shows "ok (cr_op cr a b op) (\<lambda>(r, cr'). r = -1 \<or> r = 0 \<and> sorted_wrt (<) (cr_content cr') \<and>
     even (length (cr_content cr')) \<and>
     {c. cr_in (cr_content cr') c} = set_op op {c. cr_in a c} {c. cr_in b c} \<and>
     (\<forall>ps. sorted_wrt (<) ps \<and> {c. cr_in ps c} = set_op op {c. cr_in a c} {c. cr_in b c} \<longrightarrow> ps = cr_content cr'))"
  by (rule ok_mono [OF cr_op_ok [OF assms]])
     (auto simp: cr_rep_def points_of_def intro!: points_unique)

theorem cr_op_set_witness:
  "ok (cr_op (cr_init sample_cr_alloc () None) [10, 20, 30, 40] [15, 35] CR_OP_XOR) (\<lambda>(r, cr').
     r = -1 \<or> r = 0 \<and> cr_content cr' = [10, 15, 20, 30, 35, 40])"
proof -
  let ?A = "{c. cr_in [10, 20, 30, 40] c}" and ?B = "{c. cr_in [15, 35] c}"
  let ?ps = "[10, 15, 20, 30, 35, 40] :: u32 list"
  have parity: "odd (cnt (p # ps) c) = ((p \<le> c) \<noteq> odd (cnt ps c))" for p c ps by simp
  have xor: "(p \<noteq> (q \<noteq> (r \<noteq> (s \<noteq> (t \<noteq> (u \<noteq> odd (0::nat))))))) =
      ((p \<noteq> (r \<noteq> (s \<noteq> (u \<noteq> odd (0::nat))))) \<noteq> (q \<noteq> (t \<noteq> odd (0::nat))))" for p q r s t u
    by (cases p; cases q; cases r; cases s; cases t; cases u; simp)
  have "{c. cr_in ?ps c} = set_op CR_OP_XOR ?A ?B"
    by (simp only: set_op_is_in cr_in_def parity is_in.simps cnt_simps(1)) (rule Collect_cong, rule xor)
  then have eq: "sorted_wrt (<) ?ps \<and> {c. cr_in ?ps c} = set_op CR_OP_XOR ?A ?B" by simp
  have wf: "cr_wf (cr_init sample_cr_alloc () None)" "cr_len (cr_init sample_cr_alloc () None) = 0"
    using cr_init_wf [of sample_cr_alloc None "()"] sample_cr_alloc_ok by (simp_all add: cr_init_def)
  show ?thesis
  proof (rule ok_mono [OF cr_op_set [OF wf, of "[10, 20, 30, 40]" "[15, 35]" CR_OP_XOR]], goal_cases)
    case (5 x)
    obtain r cr' where x: "x = (r, cr')" by (cases x)
    from 5 [unfolded x prod.case] eq show ?case unfolding x prod.case by metis
  qed simp_all
qed

text \<open>
  C17. Building a character class: starting from an empty range, adding intervals with
  \<open>cr_union_interval\<close> in any order, overlapping or not, and inverting the result with \<open>cr_invert\<close>
  when asked to, leaves a range that denotes the union of the intervals, or its complement in
  \<open>[0, UINT32_MAX[\<close>, unless an allocation fails (-1).
\<close>

theorem char_class_set:
  assumes "cr_rep cr {}" and "\<forall>(c1, c2) \<in> set ivs. c1 \<le> c2 \<and> c2 < - 1"
  shows "ok (class_build cr_union_interval cr_invert neg cr ivs) (\<lambda>(e, cr').
     e = 0 \<and> cr_rep cr' (class_set neg (\<Union>(c1, c2) \<in> set ivs. {c1..c2})) \<or> e = -1)"
  using cr.class_build_ok [OF assms(1), of ivs neg] assms(2) by simp

theorem char_class_set_witness:
  "ok (class_build cr_union_interval cr_invert True (cr_init sample_cr_alloc () None) [(97, 122), (48, 57), (100, 130)])
     (\<lambda>(e, cr'). e = 0 \<and> cr_rep cr' (UNIV - {- 1} - ({97..122} \<union> {48..57} \<union> {100..130})) \<or> e = -1)"
  using char_class_set [OF sample_cr_rep, of "[(97, 122), (48, 57), (100, 130)]" True]
  by (simp add: class_set_def Un_assoc)

end
