(* ===== verification/Unicode_Lookup.thy ===== *)
theory Unicode_Lookup
  imports Unicode_Tables Char_Range
begin

unbundle bit_operations_syntax

text \<open>
  Table lookup in src/quickjs/libunicode.c: the run-length encoded property tables with their sparse
  index (\<open>get_index_pos\<close>, \<open>lre_is_in_table\<close>) and the predicates built on them. A table is the list
  of its bytes; \<^term>\<open>None\<close> is an access outside it. The results: on a well-formed pair of table
  and index - a property the checker \<open>index_ok\<close> decides - the indexed lookup is total and agrees
  with decoding the table from its start, and the tables of the sources pass the check.
\<close>

section \<open>The code\<close>

definition get_le24 :: "u8 list \<Rightarrow> nat \<Rightarrow> u32 option" where
  "get_le24 t i = do {
     a \<leftarrow> rd t i; b \<leftarrow> rd t (i + 1); c \<leftarrow> rd t (i + 2);
     Some (ucast a OR push_bit 8 (ucast b) OR push_bit 16 (ucast c)) }"

definition UNICODE_INDEX_BLOCK_LEN :: nat where
  "UNICODE_INDEX_BLOCK_LEN = 32"

definition code_mask :: u32 where
  "code_mask = 0x1fffff"

function index_search :: "u8 list \<Rightarrow> u32 \<Rightarrow> nat \<Rightarrow> nat \<Rightarrow> nat option" where
  "index_search t c idx_min idx_max =
     (if idx_max - idx_min > 1 then do {
        let idx = (idx_max + idx_min) div 2;
        v \<leftarrow> get_le24 t (idx * 3);
        if c < v AND code_mask then index_search t c idx_min idx
        else index_search t c idx idx_max }
      else Some idx_min)"
  by pat_completeness auto
termination
  by (relation "measure (\<lambda>(_, _, lo, hi). hi - lo)") auto

declare index_search.simps [simp del]

text \<open>The result: the offset (\<^term>\<open>None\<close> inside for -1) and \<open>*pcode\<close>.\<close>

definition get_index_pos :: "u32 \<Rightarrow> u8 list \<Rightarrow> nat \<Rightarrow> (nat \<times> u32) option option" where
  "get_index_pos c index_table index_table_len = do {
     v \<leftarrow> get_le24 index_table 0;
     if c < v AND code_mask then Some (Some (0, 0))
     else do {
       let idx_max = index_table_len - 1;
       code \<leftarrow> get_le24 index_table (idx_max * 3);
       if c \<ge> code then Some None
       else do {
         idx_min \<leftarrow> index_search index_table c 0 idx_max;
         v \<leftarrow> get_le24 index_table (idx_min * 3);
         Some (Some ((idx_min + 1) * UNICODE_INDEX_BLOCK_LEN + unat (drop_bit 21 v), v AND code_mask)) } } }"

fun in_table_loop :: "u32 \<Rightarrow> u32 \<Rightarrow> bool \<Rightarrow> u8 list \<Rightarrow> bool option" where
  "in_table_loop c code inb [] = None"
| "in_table_loop c code inb (b0 # p) =
     (let b = ucast b0 :: u32 in
      if b < 64 then
        let code = code + drop_bit 3 b + 1 in
        if c < code then Some inb
        else let code = code + (b AND 7) + 1 in
             if c < code then Some (\<not> inb) else in_table_loop c code inb p
      else if b \<ge> 0x80 then
        let code = code + (b - 0x80 + 1) in
        if c < code then Some inb else in_table_loop c code (\<not> inb) p
      else if b < 0x60 then
        (case p of [] \<Rightarrow> None
         | p0 # p \<Rightarrow>
             let code = code + ((push_bit 8 (b - 0x40) OR ucast p0) + 1) in
             if c < code then Some inb else in_table_loop c code (\<not> inb) p)
      else
        (case p of p0 # p1 # p \<Rightarrow>
             let code = code + ((push_bit 16 (b - 0x60) OR push_bit 8 (ucast p0) OR ucast p1) + 1) in
             if c < code then Some inb else in_table_loop c code (\<not> inb) p
         | _ \<Rightarrow> None))"

definition lre_is_in_table :: "u32 \<Rightarrow> u8 list \<Rightarrow> u8 list \<Rightarrow> nat \<Rightarrow> bool option" where
  "lre_is_in_table c table index_table index_table_len = do {
     r \<leftarrow> get_index_pos c index_table index_table_len;
     case r of None \<Rightarrow> Some False
     | Some (pos, code) \<Rightarrow> in_table_loop c code False (drop pos table) }"

definition lre_is_case_ignorable :: "u32 \<Rightarrow> bool option" where
  "lre_is_case_ignorable c =
     lre_is_in_table c unicode_prop_Case_Ignorable_table unicode_prop_Case_Ignorable_index
       (length unicode_prop_Case_Ignorable_index div 3)"

definition lre_is_id_start :: "u32 \<Rightarrow> bool option" where
  "lre_is_id_start c =
     lre_is_in_table c unicode_prop_ID_Start_table unicode_prop_ID_Start_index
       (length unicode_prop_ID_Start_index div 3)"

definition lre_is_id_continue :: "u32 \<Rightarrow> bool option" where
  "lre_is_id_continue c = do {
     s \<leftarrow> lre_is_id_start c;
     if s then Some True
     else lre_is_in_table c unicode_prop_ID_Continue1_table unicode_prop_ID_Continue1_index
            (length unicode_prop_ID_Continue1_index div 3) }"


section \<open>Decoding a table from its start\<close>

text \<open>
  The reference: a table encodes the lengths of alternating runs outside and inside the set. One
  opcode gives one or two run lengths and takes one to three bytes; the points of a table are the
  run ends, and a code point is in the set when an odd number of points is at or below it.
\<close>

fun op_runs :: "int list \<Rightarrow> (int list \<times> int \<times> int list) option" where
  "op_runs [] = None"
| "op_runs (b # p) =
     (if b < 64 then Some ([b div 8 + 1, b mod 8 + 1], 1, p)
      else if b \<ge> 128 then Some ([b - 127], 1, p)
      else if b < 96 then (case p of [] \<Rightarrow> None | x # p \<Rightarrow> Some ([(b - 64) * 256 + x + 1], 2, p))
      else (case p of x # y # p \<Rightarrow> Some ([(b - 96) * 65536 + x * 256 + y + 1], 3, p) | _ \<Rightarrow> None))"

lemma op_runs_rest: "op_runs t = Some (rs, n, rest) \<Longrightarrow> 1 \<le> n \<and> rest = drop (nat n) t \<and> nat n \<le> length t"
  by (cases t) (auto split: if_splits list.splits)

fun run_ends :: "int \<Rightarrow> int list \<Rightarrow> int list" where
  "run_ends code [] = []"
| "run_ends code (r # rs) = (code + r) # run_ends (code + r) rs"

function table_points :: "int \<Rightarrow> int list \<Rightarrow> int list option" where
  "table_points code t =
     (if t = [] then Some []
      else case op_runs t of None \<Rightarrow> None
           | Some (rs, n, rest) \<Rightarrow>
               map_option ((@) (run_ends code rs)) (table_points (last (code # run_ends code rs)) rest))"
  by pat_completeness auto
termination
  by (relation "measure (\<lambda>(_, t). length t)") (auto dest!: op_runs_rest)

declare table_points.simps [simp del]

definition bytes_ok :: "int list \<Rightarrow> bool" where
  "bytes_ok t \<longleftrightarrow> (\<forall>b \<in> set t. 0 \<le> b \<and> b < 256)"

lemma bytes_ok_uint [simp]: "bytes_ok (map uint (t :: u8 list))"
  using uint_lt2p [where 'a = 8] by (auto simp: bytes_ok_def)

lemma bytes_ok_drop: "bytes_ok t \<Longrightarrow> bytes_ok (drop n t)"
  by (auto simp: bytes_ok_def dest: in_set_dropD)

lemma op_runs_pos: "op_runs t = Some (rs, n, rest) \<Longrightarrow> bytes_ok t \<Longrightarrow> \<forall>r \<in> set rs. 1 \<le> r"
  by (cases t) (auto simp: bytes_ok_def split: if_splits list.splits)

lemma run_ends_sorted: "\<forall>r \<in> set rs. 1 \<le> r \<Longrightarrow> sorted_wrt (<) (code # run_ends code rs)"
proof (induction rs arbitrary: code)
  case (Cons r rs)
  then have "sorted_wrt (<) ((code + r) # run_ends (code + r) rs)" "code < code + r" by auto
  then show ?case by (auto intro: less_trans)
qed simp

lemma last_ge: "sorted_wrt (<) (x # xs) \<Longrightarrow> y \<in> set (x # xs) \<Longrightarrow> y \<le> last (x # (xs :: int list))"
  by (induction xs arbitrary: x) (auto intro: less_imp_le)

lemma table_points_sorted:
  "table_points code t = Some ps \<Longrightarrow> bytes_ok t \<Longrightarrow> sorted_wrt (<) (code # ps)"
proof (induction code t arbitrary: ps rule: table_points.induct)
  case (1 code t)
  show ?case
  proof (cases "t = []")
    case True
    then show ?thesis using 1 by (simp add: table_points.simps)
  next
    case False
    then obtain rs n rest qs where o: "op_runs t = Some (rs, n, rest)" and
      q: "table_points (last (code # run_ends code rs)) rest = Some qs" and ps: "ps = run_ends code rs @ qs"
      using 1(2) by (subst (asm) table_points.simps) (auto split: option.splits)
    let ?l = "last (code # run_ends code rs)"
    have b: "bytes_ok rest" using op_runs_rest [OF o] 1(3) bytes_ok_drop by simp
    have s1: "sorted_wrt (<) (code # run_ends code rs)" using run_ends_sorted op_runs_pos [OF o 1(3)] by blast
    have s2: "sorted_wrt (<) (?l # qs)" by (rule 1(1) [OF False o refl refl q b])
    have "x < y" if "x \<in> set (code # run_ends code rs)" "y \<in> set qs" for x y
      using last_ge [OF s1 that(1)] s2 that(2) by auto
    then have "sorted_wrt (<) ((code # run_ends code rs) @ qs)" using s1 s2 by (simp only: sorted_wrt_append) auto
    then show ?thesis using ps by simp
  qed
qed


section \<open>The arithmetic of the opcodes\<close>

lemma unat_byte_less: "unat (b :: u8) < 256"
  using unsigned_less [of b, where 'a = nat] by simp

lemma uint_byte_less: "uint (b :: u8) < 256"
  using uint_lt2p [of b] by simp

lemma uint_add_small: "uint a + uint b < 2 ^ 32 \<Longrightarrow> uint (a + b :: u32) = uint a + uint b"
  by (simp add: uint_word_ariths)

lemma unat_push: "unat (w :: u32) * 2 ^ k < 2 ^ 32 \<Longrightarrow> unat (push_bit k w) = unat w * 2 ^ k"
  by (simp only: unsigned_push_bit_eq push_bit_eq_mult [where 'a = nat] take_bit_eq_mod) simp

lemma op_short:
  "uint (drop_bit 3 (ucast (b :: u8) :: u32) + 1) = uint b div 8 + 1"
  "uint (((ucast b :: u32) AND 7) + 1) = uint b mod 8 + 1"
proof -
  have 1: "unat (drop_bit 3 (ucast b :: u32)) = unat b div 8" by (simp only: unat_drop_bit unat_ucast_u32) simp
  have 2: "unat ((ucast b :: u32) AND 7) = unat b mod 8"
    using nat_and_mask [of "unat b" 3] by (simp only: unat_and unat_ucast_u32) simp
  show "uint (drop_bit 3 (ucast b :: u32) + 1) = uint b div 8 + 1"
    using uint_byte_less [of b] by (subst uint_add_small) (simp_all only: uint_nat 1 zdiv_int, simp_all)
  show "uint (((ucast b :: u32) AND 7) + 1) = uint b mod 8 + 1"
    by (subst uint_add_small) (simp_all only: uint_nat 2 zmod_int, simp_all)
qed

lemma unat_sub_byte: "k \<le> unat b \<Longrightarrow> k < 256 \<Longrightarrow> unat ((ucast (b :: u8) :: u32) - of_nat k) = unat b - k"
proof -
  assume k: "k \<le> unat b" "k < 256"
  then have u: "unat (of_nat k :: u32) = k" by (simp add: unat_of_nat)
  have "(of_nat k :: u32) \<le> ucast b" using k by (simp only: word_le_nat_alt unat_ucast_u32 u)
  then show ?thesis by (simp only: unat_sub unat_ucast_u32 u)
qed

lemma op_medium:
  assumes "128 \<le> unat (b :: u8)" shows "uint ((ucast b :: u32) - 0x80 + 1) = uint b - 127"
proof -
  have 1: "unat ((ucast b :: u32) - 0x80) = unat b - 128" using unat_sub_byte [OF assms] by simp
  show ?thesis
    using uint_byte_less [of b] assms by (subst uint_add_small) (simp_all only: uint_nat 1, simp_all add: of_nat_diff)
qed

lemma op_long2:
  assumes "64 \<le> unat (b :: u8)" "unat b < 96"
  shows "uint ((push_bit 8 ((ucast b :: u32) - 0x40) OR ucast (x :: u8)) + 1) = (uint b - 64) * 256 + uint x + 1"
proof -
  have 1: "unat ((ucast b :: u32) - 0x40) = unat b - 64" using unat_sub_byte [OF assms(1)] by simp
  have 2: "unat (push_bit 8 ((ucast b :: u32) - 0x40)) = (unat b - 64) * 2 ^ 8"
    using assms by (subst unat_push) (simp_all only: 1, simp)
  have 3: "unat (push_bit 8 ((ucast b :: u32) - 0x40) OR ucast x) = (unat b - 64) * 256 + unat x"
    using nat_or_disjoint [of "unat x" 8 "unat b - 64"] unat_byte_less [of x]
    by (simp only: unat_or 2 unat_ucast_u32) simp
  show ?thesis
    using uint_byte_less [of x] uint_byte_less [of b] assms
    by (subst uint_add_small) (simp_all only: uint_nat 3, simp_all add: of_nat_diff)
qed

lemma op_long3:
  assumes "96 \<le> unat (b :: u8)" "unat b < 128"
  shows "uint ((push_bit 16 ((ucast b :: u32) - 0x60) OR push_bit 8 (ucast (x :: u8)) OR ucast (y :: u8)) + 1) =
     (uint b - 96) * 65536 + uint x * 256 + uint y + 1"
proof -
  have 1: "unat ((ucast b :: u32) - 0x60) = unat b - 96" using unat_sub_byte [OF assms(1)] by simp
  have 2: "unat (push_bit 16 ((ucast b :: u32) - 0x60)) = (unat b - 96) * 2 ^ 16"
    using assms by (subst unat_push) (simp_all only: 1, simp)
  have 3: "unat (push_bit 8 (ucast x :: u32)) = unat x * 2 ^ 8"
    using unat_byte_less [of x] by (subst unat_push) (simp_all only: unat_ucast_u32, simp)
  have 4: "unat (push_bit 8 (ucast x :: u32) OR ucast y) = unat x * 256 + unat y"
    using nat_or_disjoint [of "unat y" 8 "unat x"] unat_byte_less [of y]
    by (simp only: unat_or 3 unat_ucast_u32) simp
  have lt: "unat x * 256 + unat y < 2 ^ 16" using unat_byte_less [of x] unat_byte_less [of y] by simp
  have 5: "unat (push_bit 16 ((ucast b :: u32) - 0x60) OR push_bit 8 (ucast x) OR ucast y) =
      (unat b - 96) * 65536 + (unat x * 256 + unat y)"
    using nat_or_disjoint [OF lt, of "unat b - 96"] by (simp only: or.assoc unat_or [of "push_bit 16 _"] 2 4) simp
  show ?thesis
    using uint_byte_less [of x] uint_byte_less [of y] uint_byte_less [of b] assms by (subst uint_add_small) (simp_all only: uint_nat 5, simp_all add: of_nat_diff)
qed


section \<open>The loop of \<open>lre_is_in_table\<close>\<close>

definition pcount :: "int list \<Rightarrow> int \<Rightarrow> nat" where
  "pcount ps c = length (filter (\<lambda>p. p \<le> c) ps)"

lemma pcount_simps [simp]:
  "pcount [] c = 0" "pcount (p # ps) c = (if p \<le> c then 1 else 0) + pcount ps c"
  "pcount (ps @ qs) c = pcount ps c + pcount qs c"
  by (simp_all add: pcount_def)

lemma pcount_none: "\<forall>p \<in> set ps. c < p \<Longrightarrow> pcount ps c = 0"
  by (induction ps) auto

lemma pcount_all: "\<forall>p \<in> set ps. p \<le> c \<Longrightarrow> pcount ps c = length ps"
  by (simp add: pcount_def)

text \<open>One opcode at word level: the four forms, with the code points reached.\<close>

lemma op_words:
  fixes t :: "u8 list" and code :: u32
  assumes op: "op_runs (map uint t) = Some (rs, n, rest)" and small: "uint code + sum_list rs < 2 ^ 32"
  obtains (short) b p c1 c2 where "t = b # p" "(ucast b :: u32) < 64" "rest = map uint p"
      "c1 = code + (drop_bit 3 (ucast b) + 1)" "c2 = c1 + ((ucast b AND 7) + 1)"
      "rs = [uint c1 - uint code, uint c2 - uint c1]"
    | (byte) b p c1 where "t = b # p" "\<not> (ucast b :: u32) < 64" "(ucast b :: u32) \<ge> 0x80" "rest = map uint p"
      "c1 = code + (ucast b - 0x80 + 1)" "rs = [uint c1 - uint code]"
    | (two) b x p c1 where "t = b # x # p" "\<not> (ucast b :: u32) < 64" "\<not> (ucast b :: u32) \<ge> 0x80" "(ucast b :: u32) < 0x60"
      "rest = map uint p" "c1 = code + ((push_bit 8 (ucast b - 0x40) OR ucast x) + 1)" "rs = [uint c1 - uint code]"
    | (three) b x y p c1 where "t = b # x # y # p" "\<not> (ucast b :: u32) < 64" "\<not> (ucast b :: u32) \<ge> 0x80" "\<not> (ucast b :: u32) < 0x60"
      "rest = map uint p" "c1 = code + ((push_bit 16 (ucast b - 0x60) OR push_bit 8 (ucast x) OR ucast y) + 1)"
      "rs = [uint c1 - uint code]"
proof -
  obtain b p where t: "t = b # p" using op by (cases t) auto
  have ub: "uint (ucast b :: u32) = uint b" by (simp only: uint_nat unat_ucast_u32)
  have lt: "(ucast b :: u32) < k \<longleftrightarrow> uint b < uint k" "(ucast b :: u32) \<ge> k \<longleftrightarrow> uint b \<ge> uint k" for k
    by (simp_all only: word_less_def word_le_def ub)
  have nat: "unat b = nat (uint b)" by (rule unat_eq_nat_uint)
  consider "uint b < 64" | "uint b \<ge> 128" | "64 \<le> uint b" "uint b < 96" | "96 \<le> uint b" "uint b < 128" by linarith
  then show ?thesis
  proof cases
    case 1
    let ?c1 = "code + (drop_bit 3 (ucast b) + 1)"
    have rs: "rs = [uint b div 8 + 1, uint b mod 8 + 1]" "rest = map uint p" using op t 1 by auto
    have u1: "uint ?c1 = uint code + (uint b div 8 + 1)"
      using uint_add_small [of code "drop_bit 3 (ucast b) + 1", unfolded op_short(1)] small rs by simp
    have u2: "uint (?c1 + ((ucast b AND 7) + 1)) = uint ?c1 + (uint b mod 8 + 1)"
      using uint_add_small [of ?c1 "(ucast b AND 7) + 1", unfolded op_short(2)] small rs u1 by simp
    show ?thesis by (rule short [OF t _ rs(2) refl refl]) (use 1 lt(1) [of 64] rs(1) u1 u2 in simp_all)
  next
    case 2
    have rs: "rs = [uint b - 127]" "rest = map uint p" using op t 2 by auto
    have "128 \<le> unat b" using 2 nat by linarith
    from uint_add_small [of code "ucast b - 0x80 + 1", unfolded op_medium [OF this]] small rs
    have u1: "uint (code + (ucast b - 0x80 + 1)) = uint code + (uint b - 127)" by simp
    show ?thesis by (rule byte [OF t _ _ rs(2) refl]) (use 2 lt(1) [of 64] lt(2) [of "0x80"] rs(1) u1 in simp_all)
  next
    case 3
    obtain x q where p: "p = x # q" using op t 3 by (cases p) auto
    have rs: "rs = [(uint b - 64) * 256 + uint x + 1]" "rest = map uint q" using op t p 3 by auto
    have "64 \<le> unat b" "unat b < 96" using 3 nat by linarith+
    from uint_add_small [of code "(push_bit 8 (ucast b - 0x40) OR ucast x) + 1", unfolded op_long2 [OF this]] small rs
    have u1: "uint (code + ((push_bit 8 (ucast b - 0x40) OR ucast x) + 1)) = uint code + ((uint b - 64) * 256 + uint x + 1)"
      by simp
    show ?thesis
      by (rule two [OF t [unfolded p] _ _ _ rs(2) refl])
         (use 3 lt(1) [of 64] lt(2) [of "0x80"] lt(1) [of "0x60"] rs(1) u1 in simp_all)
  next
    case 4
    obtain x y q where p: "p = x # y # q" using op t 4 by (cases p) (auto split: list.splits)
    have rs: "rs = [(uint b - 96) * 65536 + uint x * 256 + uint y + 1]" "rest = map uint q" using op t p 4 by auto
    have "96 \<le> unat b" "unat b < 128" using 4 nat by linarith+
    from uint_add_small [of code "(push_bit 16 (ucast b - 0x60) OR push_bit 8 (ucast x) OR ucast y) + 1",
        unfolded op_long3 [OF this]] small rs
    have u1: "uint (code + ((push_bit 16 (ucast b - 0x60) OR push_bit 8 (ucast x) OR ucast y) + 1)) =
        uint code + ((uint b - 96) * 65536 + uint x * 256 + uint y + 1)" by simp
    show ?thesis
      by (rule three [OF t [unfolded p] _ _ _ rs(2) refl])
         (use 4 lt(1) [of 64] lt(2) [of "0x80"] lt(1) [of "0x60"] rs(1) u1 in simp_all)
  qed
qed

lemma loop_step:
  assumes op: "op_runs (map uint t) = Some (rs, n, rest)" and small: "uint code + sum_list rs < 2 ^ 32"
  obtains (one) r code' t' where "rs = [r]" "uint code' = uint code + r" "rest = map uint t'" "length t' < length t"
      "\<And>c inb. in_table_loop c code inb t =
         (if uint c < uint code + r then Some inb else in_table_loop c code' (\<not> inb) t')"
    | (two) r1 r2 code' t' where "rs = [r1, r2]" "uint code' = uint code + r1 + r2" "rest = map uint t'"
      "length t' < length t"
      "\<And>c inb. in_table_loop c code inb t =
         (if uint c < uint code + r1 then Some inb
          else if uint c < uint code + r1 + r2 then Some (\<not> inb) else in_table_loop c code' inb t')"
proof -
  have e: "uint code + (uint c1 - uint code) = uint c1" "uint code + (uint c1 - uint code) + (uint c2 - uint c1) = uint c2"
    for c1 c2 :: u32 by simp_all
  note one' = one [of "uint c1 - uint code" c1 for c1, unfolded e]
    and two' = two [of "uint c1 - uint code" "uint c2 - uint c1" c2 for c1 c2, unfolded e]
  show ?thesis using op small
  proof (cases rule: op_words)
    case (short b p c1 c2)
    have "in_table_loop c code inb t = (if c < c1 then Some inb else if c < c2 then Some (\<not> inb) else in_table_loop c c2 inb p)"
      for c inb using short by (simp only: in_table_loop.simps Let_def add.assoc [symmetric] if_True)
    then show ?thesis using short(1,3,6) by (intro two' [of c1 c2 p]) (simp_all add: word_less_def)
  next
    case (byte b p c1)
    have "in_table_loop c code inb t = (if c < c1 then Some inb else in_table_loop c c1 (\<not> inb) p)" for c inb
      using byte by (simp only: in_table_loop.simps Let_def if_True if_False)
    then show ?thesis using byte(1,4,6) by (intro one' [of c1 p]) (simp_all add: word_less_def)
  next
    case (two b x p c1)
    have "in_table_loop c code inb t = (if c < c1 then Some inb else in_table_loop c c1 (\<not> inb) p)" for c inb
      using two by (simp only: in_table_loop.simps(2) [of _ _ _ b] Let_def if_True if_False list.case)
    then show ?thesis using two(1,5,7) by (intro one' [of c1 p]) (simp_all add: word_less_def)
  next
    case (three b x y p c1)
    have "in_table_loop c code inb t = (if c < c1 then Some inb else in_table_loop c c1 (\<not> inb) p)" for c inb
      using three by (simp only: in_table_loop.simps(2) [of _ _ _ b] Let_def if_True if_False list.case)
    then show ?thesis using three(1,5,7) by (intro one' [of c1 p]) (simp_all add: word_less_def)
  qed
qed

lemma in_table_loop_points:
  "table_points (uint code) (map uint t) = Some ps \<Longrightarrow> \<forall>p \<in> set ps. p < 2 ^ 32 \<Longrightarrow>
   in_table_loop c code inb t =
     (if \<exists>p \<in> set ps. uint c < p then Some (inb \<noteq> odd (pcount ps (uint c))) else None)"
proof (induction "length t" arbitrary: t code inb ps rule: less_induct)
  case less
  show ?case
  proof (cases "t = []")
    case True
    then show ?thesis using less.prems by (simp add: table_points.simps)
  next
    case False
    then obtain rs n rest qs where o: "op_runs (map uint t) = Some (rs, n, rest)" and
      q: "table_points (last (uint code # run_ends (uint code) rs)) rest = Some qs" and
      ps: "ps = run_ends (uint code) rs @ qs"
      using less.prems(1) by (subst (asm) table_points.simps) (auto split: option.splits)
    have pos: "\<forall>r \<in> set rs. 1 \<le> r" by (rule op_runs_pos [OF o]) simp
    have last: "last (uint code # run_ends (uint code) rs) = uint code + sum_list rs" for code :: u32
    proof -
      have "last (x # run_ends x rs) = x + sum_list rs" for x by (induction rs arbitrary: x) auto
      then show ?thesis .
    qed
    have "rs \<noteq> []" using o by (cases "map uint t") (auto split: if_splits list.splits)
    then have "uint code + sum_list rs \<in> set ps" using ps last [of code]
      by (metis Un_iff last.simps last_in_set run_ends.simps(2) set_append neq_Nil_conv list.distinct(1))
    then have small: "uint code + sum_list rs < 2 ^ 32" using less.prems(2) by blast
    have sorted: "sorted_wrt (<) (uint code # ps)" by (rule table_points_sorted [OF less.prems(1)]) simp
    show ?thesis
    proof (cases rule: loop_step [OF o small, case_names one two])
      case (one r code' t')
      have "table_points (uint code') (map uint t') = Some qs" using q one last [of code] by simp
      then have IH: "in_table_loop c code' (\<not> inb) t' =
          (if \<exists>p \<in> set qs. uint c < p then Some ((\<not> inb) \<noteq> odd (pcount qs (uint c))) else None)"
        using less.hyps [OF one(4)] less.prems(2) ps by simp
      have ps': "ps = (uint code + r) # qs" using ps one by simp
      show ?thesis
      proof (cases "uint c < uint code + r")
        case True
        then have "pcount ps (uint c) = 0" using sorted ps' by (intro pcount_none) auto
        then show ?thesis using True one(5) ps' by simp
      next
        case False
        then show ?thesis using one(5) IH ps' by auto
      qed
    next
      case (two r1 r2 code' t')
      have "table_points (uint code') (map uint t') = Some qs" using q two last [of code] by (simp add: add.assoc)
      then have IH: "in_table_loop c code' inb t' =
          (if \<exists>p \<in> set qs. uint c < p then Some (inb \<noteq> odd (pcount qs (uint c))) else None)"
        using less.hyps [OF two(4)] less.prems(2) ps by simp
      have ps': "ps = (uint code + r1) # (uint code + r1 + r2) # qs" using ps two by simp
      consider "uint c < uint code + r1" | "\<not> uint c < uint code + r1" "uint c < uint code + r1 + r2"
        | "\<not> uint c < uint code + r1 + r2" "\<not> uint c < uint code + r1"
        using pos two(1) by fastforce
      then show ?thesis
      proof cases
        case 1
        then have "pcount ps (uint c) = 0" using sorted ps' by (intro pcount_none) auto
        then show ?thesis using 1 two(5) ps' by simp
      next
        case 2
        then have "pcount qs (uint c) = 0" using sorted ps' by (intro pcount_none) auto
        then show ?thesis using 2 two(5) ps' by simp
      next
        case 3
        then show ?thesis using two(5) IH ps' by auto
      qed
    qed
  qed
qed


section \<open>The index\<close>

text \<open>
  An index entry holds the code point reached at a position of the table. The checker walks table and
  index once: at the position of every entry but the last the decoder must be between two opcodes,
  outside the set, at the code of the entry; the last entry holds the end of the last run.
\<close>

fun dec_index :: "int \<Rightarrow> int list \<Rightarrow> (int \<times> int) list" where
  "dec_index q (a # b # c # r) =
     (q + (a + 256 * b + 65536 * c) div 2097152, (a + 256 * b + 65536 * c) mod 2097152) # dec_index (q + 32) r"
| "dec_index q _ = []"

function walk :: "int \<Rightarrow> int \<Rightarrow> bool \<Rightarrow> int list \<Rightarrow> (int \<times> int) list \<Rightarrow> bool" where
  "walk pos code out t ix =
     (case ix of [] \<Rightarrow> False
      | (q, k) # ix' \<Rightarrow>
          if ix' \<noteq> [] \<and> q = pos then code = k \<and> out \<and> walk pos code out t ix'
          else if t = [] then ix' = [] \<and> code = k \<and> out
          else (case op_runs t of None \<Rightarrow> False
                | Some (rs, n, rest) \<Rightarrow>
                    walk (pos + n) (code + sum_list rs) (if even (length rs) then out else \<not> out) rest ix))"
  by pat_completeness auto
termination
  by (relation "measure (\<lambda>(_, _, _, t, ix). length t + length ix)") (auto dest!: op_runs_rest)

declare walk.simps [simp del]

lemma walk_entry:
  "ix \<noteq> [] \<Longrightarrow> walk pos code out t ((pos, k) # ix) \<longleftrightarrow> code = k \<and> out \<and> walk pos code out t ix"
  by (subst walk.simps) simp

definition index_ok :: "int list \<Rightarrow> int list \<Rightarrow> bool" where
  "index_ok t ix \<longleftrightarrow> length ix mod 3 = 0 \<and> walk 0 0 True t (dec_index 32 ix) \<and>
     ix ! (length ix - 1) < 32"

text \<open>What an entry promises about the points of the table from a decoder state.\<close>

definition entry_ok :: "int \<Rightarrow> int \<Rightarrow> bool \<Rightarrow> int list \<Rightarrow> int list \<Rightarrow> int \<times> int \<Rightarrow> bool" where
  "entry_ok pos code out t ps e \<longleftrightarrow> (case e of (q, k) \<Rightarrow> pos \<le> q \<and> code \<le> k \<and> k \<le> last (code # ps) \<and>
     (\<exists>pre qs. ps = pre @ qs \<and> even (length pre) = out \<and> (\<forall>p \<in> set pre. p \<le> k) \<and>
        table_points k (drop (nat (q - pos)) t) = Some qs))"

lemma run_ends_simps: "length (run_ends code rs) = length rs" "last (code # run_ends code rs) = code + sum_list rs"
  by (induction rs arbitrary: code) auto

lemma table_points_op:
  assumes "op_runs t = Some (rs, n, rest)" "table_points (code + sum_list rs) rest = Some ps"
  shows "table_points code t = Some (run_ends code rs @ ps)"
  using assms run_ends_simps(2) [of code rs] by (subst table_points.simps) (auto simp del: last.simps)

lemma walk_sound:
  "walk pos code out t ix \<Longrightarrow> bytes_ok t \<Longrightarrow> ix \<noteq> [] \<and> (\<exists>ps. table_points code t = Some ps \<and>
     even (length ps) = out \<and> snd (last ix) = last (code # ps) \<and> (\<forall>e \<in> set (butlast ix). entry_ok pos code out t ps e))"
proof (induction pos code out t ix rule: walk.induct)
  case (1 pos code out t ix)
  obtain q k ix' where ix: "ix = (q, k) # ix'" using 1(3) by (cases ix) (auto simp: walk.simps)
  consider (entry) "ix' \<noteq> []" "q = pos" | (fin) "\<not> (ix' \<noteq> [] \<and> q = pos)" "t = []"
    | (op) "\<not> (ix' \<noteq> [] \<and> q = pos)" "t \<noteq> []" by blast
  then show ?case
  proof cases
    case entry
    then have w: "code = k" "out" "walk pos code out t ix'" using walk_entry [of ix' pos code out t k] 1(3) [unfolded ix] by blast+
    from 1(1) [OF ix refl _ w(3) 1(4)] entry obtain ps where ps: "table_points code t = Some ps" "even (length ps) = out"
      "snd (last ix') = last (code # ps)" "\<forall>e \<in> set (butlast ix'). entry_ok pos code out t ps e" by auto
    have "code \<le> last (code # ps)" using last_ge [OF table_points_sorted [OF ps(1) 1(4)]] by simp
    then have "entry_ok pos code out t ps (q, k)"
      unfolding entry_ok_def using ps(1) w entry by (auto intro!: exI [of _ "[]"] simp del: last.simps)
    then show ?thesis using ps ix entry by auto
  next
    case fin
    then have "ix' = []" "code = k" "out" using 1(3) [unfolded ix] by (auto simp: walk.simps [of _ _ _ _ "(q, k) # ix'"] split: if_splits)
    then show ?thesis using fin ix by (simp add: table_points.simps)
  next
    case op
    then obtain rs n rest where o: "op_runs t = Some (rs, n, rest)"
      and w: "walk (pos + n) (code + sum_list rs) (if even (length rs) then out else \<not> out) rest ix"
      using 1(3) unfolding ix by (subst (asm) walk.simps) (auto split: option.splits)
    note r = op_runs_rest [OF o]
    have b: "bytes_ok rest" using r 1(4) bytes_ok_drop by simp
    from 1(2) [OF ix refl op(1) op(2) o refl refl w b] obtain ps where
      ps: "table_points (code + sum_list rs) rest = Some ps" "even (length ps) = (if even (length rs) then out else \<not> out)"
        "snd (last ix) = last ((code + sum_list rs) # ps)"
        "\<forall>e \<in> set (butlast ix). entry_ok (pos + n) (code + sum_list rs) (if even (length rs) then out else \<not> out) rest ps e" by blast
    note tp = table_points_op [OF o ps(1)]
    have "entry_ok pos code out t (run_ends code rs @ ps) e" if "e \<in> set (butlast ix)" for e
    proof -
      obtain q k where e: "e = (q, k)" by force
      have "entry_ok (pos + n) (code + sum_list rs) (if even (length rs) then out else \<not> out) rest ps (q, k)"
        using ps(4) that e by blast
      then obtain pre qs where pq: "pos + n \<le> q" "code + sum_list rs \<le> k" "ps = pre @ qs" "even (length pre) = (if even (length rs) then out else \<not> out)"
        "\<forall>p \<in> set pre. p \<le> k" "table_points k (drop (nat (q - (pos + n))) rest) = Some qs"
        "k \<le> last ((code + sum_list rs) # ps)"
        unfolding entry_ok_def prod.case by blast
      have d: "drop (nat (q - (pos + n))) rest = drop (nat (q - pos)) t"
      proof -
        have "nat (q - (pos + n)) + nat n = nat (q - pos)" using r pq(1) by (simp add: nat_add_distrib [symmetric])
        then show ?thesis using r by simp
      qed
      have s: "sorted_wrt (<) (code # run_ends code rs)" using run_ends_sorted op_runs_pos [OF o 1(4)] by blast
      have k: "p \<le> k" if "p \<in> set (code # run_ends code rs)" for p
        using last_ge [OF s that] run_ends_simps(2) [of code rs] pq(2) by simp
      have p: "pos \<le> q" "code \<le> k" using pq(1) r k by simp_all
      have "k \<le> last (code # run_ends code rs @ ps)"
        using pq(7) run_ends_simps(2) [of code rs] by (cases "ps = []") auto
      moreover have "even (length (run_ends code rs @ pre)) = out" using pq(4) run_ends_simps(1) [of code rs] by (simp split: if_splits)
      moreover have "\<forall>p \<in> set (run_ends code rs @ pre). p \<le> k" using k pq(5) by auto
      moreover have "run_ends code rs @ ps = (run_ends code rs @ pre) @ qs" using pq(3) by simp
      moreover note pq(6) [unfolded d]
      ultimately show ?thesis unfolding e entry_ok_def prod.case using p by blast
    qed
    then show ?thesis using tp ps ix run_ends_simps [of code rs] by (auto split: if_splits)
  qed
qed


lemma get_le24_value:
  assumes "i + 2 < length t"
  shows "\<exists>v. get_le24 t i = Some v \<and> uint v = uint (t ! i) + 256 * uint (t ! (i + 1)) + 65536 * uint (t ! (i + 2))"
proof -
  let ?a = "t ! i" and ?b = "t ! (i + 1)" and ?c = "t ! (i + 2)"
  let ?v = "ucast ?a OR push_bit 8 (ucast ?b) OR push_bit 16 (ucast ?c) :: u32"
  note lt = unat_byte_less [of ?a] unat_byte_less [of ?b] unat_byte_less [of ?c]
  have b: "unat (push_bit 8 (ucast ?b :: u32)) = unat ?b * 2 ^ 8"
    using lt(2) by (subst unat_push) (simp_all only: unat_ucast_u32, simp)
  have c: "unat (push_bit 16 (ucast ?c :: u32)) = unat ?c * 2 ^ 16"
    using lt(3) by (subst unat_push) (simp_all only: unat_ucast_u32, simp)
  have "unat (ucast ?a OR push_bit 8 (ucast ?b) :: u32) = unat ?b * 2 ^ 8 + unat ?a"
    using nat_or_disjoint [of "unat ?a" 8 "unat ?b"] lt(1)
    by (simp only: or.commute [of "ucast ?a"] unat_or b unat_ucast_u32) simp
  moreover have "unat ?b * 2 ^ 8 + unat ?a < 2 ^ 16" using lt by simp
  moreover have "?v = push_bit 16 (ucast ?c) OR (ucast ?a OR push_bit 8 (ucast ?b))" by (simp only: ac_simps)
  ultimately have "unat ?v = unat ?c * 2 ^ 16 + (unat ?b * 2 ^ 8 + unat ?a)"
    using nat_or_disjoint [of "unat ?b * 2 ^ 8 + unat ?a" 16 "unat ?c"]
    by (simp only: unat_or [of "push_bit 16 (ucast ?c)"] c)
  then have "uint ?v = uint ?a + 256 * uint ?b + 65536 * uint ?c" by (simp only: uint_nat) simp
  then show ?thesis using assms by (auto simp: get_le24_def)
qed

lemma length_dec_index: "length (dec_index q ix) = length ix div 3"
  by (induction q ix rule: dec_index.induct) auto

lemma dec_index_nth:
  "i < length ix div 3 \<Longrightarrow> dec_index q ix ! i =
     (let v = ix ! (3 * i) + 256 * ix ! (3 * i + 1) + 65536 * ix ! (3 * i + 2)
      in (q + 32 * int i + v div 2097152, v mod 2097152))"
proof (induction q ix arbitrary: i rule: dec_index.induct)
  case (1 q a b c r)
  then show ?case by (cases i) (auto simp: Let_def algebra_simps)
qed auto

text \<open>The entry read by \<open>get_le24\<close>: its code and its position.\<close>

lemma index_entry:
  assumes "i < length ix div 3"
  shows "\<exists>v. get_le24 ix (i * 3) = Some v \<and>
     dec_index 32 (map uint ix) ! i = (int ((i + 1) * 32 + unat (drop_bit 21 v)), uint (v AND code_mask))"
proof -
  have i: "i * 3 + 2 < length ix" using assms by presburger
  obtain v where v: "get_le24 ix (i * 3) = Some v"
    "uint v = uint (ix ! (i * 3)) + 256 * uint (ix ! (i * 3 + 1)) + 65536 * uint (ix ! (i * 3 + 2))"
    using get_le24_value [OF i] by auto
  have m: "uint (v AND code_mask) = uint v mod 2097152"
    using nat_and_mask [of "unat v" 21] by (simp only: uint_nat unat_and code_mask_def) (simp add: zmod_int)
  have d: "int (unat (drop_bit 21 v)) = uint v div 2097152" by (simp only: uint_nat unat_drop_bit) (simp add: zdiv_int)
  have "dec_index 32 (map uint ix) ! i = (32 + 32 * int i + uint v div 2097152, uint v mod 2097152)"
    using dec_index_nth [of i "map uint ix" 32] assms i v(2) by (simp add: Let_def mult.commute)
  then show ?thesis using v(1) m d by (auto simp: algebra_simps)
qed

lemma index_search_ok:
  "length ix div 3 = Suc m \<Longrightarrow> lo < hi \<Longrightarrow> hi \<le> m \<Longrightarrow> snd (dec_index 32 (map uint ix) ! lo) \<le> uint c \<Longrightarrow>
   ok (index_search ix c lo hi) (\<lambda>j. lo \<le> j \<and> j < hi \<and> snd (dec_index 32 (map uint ix) ! j) \<le> uint c)"
proof (induction ix c lo hi rule: index_search.induct)
  case (1 t c lo hi)
  show ?case
  proof (cases "hi - lo > 1")
    case True
    let ?i = "(hi + lo) div 2"
    have i: "lo < ?i" "?i < hi" "?i < length t div 3" using True 1(4,5) 1(3) by simp_all
    obtain v where v: "get_le24 t (?i * 3) = Some v" "snd (dec_index 32 (map uint t) ! ?i) = uint (v AND code_mask)"
      using index_entry [OF i(3)] by auto
    have "ok (index_search t c lo ?i) (\<lambda>j. lo \<le> j \<and> j < ?i \<and> snd (dec_index 32 (map uint t) ! j) \<le> uint c)"
      if "c < v AND code_mask"
      using 1(1) [OF True refl v(1) that 1(3)] i 1(5,6) by simp
    moreover have "ok (index_search t c ?i hi) (\<lambda>j. ?i \<le> j \<and> j < hi \<and> snd (dec_index 32 (map uint t) ! j) \<le> uint c)"
      if "\<not> c < v AND code_mask"
      using 1(2) [OF True refl v(1) that 1(3)] i 1(5) v(2) that by (simp add: word_less_def)
    ultimately show ?thesis
      using True v(1) i by (subst index_search.simps) (auto simp: Let_def elim!: ok_mono)
  next
    case False
    then show ?thesis using 1(4,6) by (subst index_search.simps) simp
  qed
qed


section \<open>The indexed lookup equals decoding from the start\<close>

definition table_set :: "u8 list \<Rightarrow> int set" where
  "table_set t = {c. odd (pcount (the (table_points 0 (map uint t))) c)}"

definition index_agrees :: "u8 list \<Rightarrow> u8 list \<Rightarrow> bool" where
  "index_agrees t ix \<longleftrightarrow> index_ok (map uint t) (map uint ix)"

lemma last_index_entry:
  assumes ix: "length ix mod 3 = 0" "ix \<noteq> []" "uint (last ix) < 32"
  shows "get_le24 ix ((length ix div 3 - 1) * 3) =
     Some (word_of_int (snd (last (dec_index 32 (map uint ix)))))"
proof -
  let ?m = "length ix div 3 - 1"
  have m: "?m < length ix div 3" "?m * 3 + 2 = length ix - 1" "?m * 3 + 2 < length ix"
    using ix(1,2) by (cases ix; simp; presburger)+
  obtain v where v: "get_le24 ix (?m * 3) = Some v"
    "uint v = uint (ix ! (?m * 3)) + 256 * uint (ix ! (?m * 3 + 1)) + 65536 * uint (ix ! (?m * 3 + 2))"
    using get_le24_value [OF m(3)] by auto
  obtain v' where v': "get_le24 ix (?m * 3) = Some v'" "snd (dec_index 32 (map uint ix) ! ?m) = uint (v' AND code_mask)"
    using index_entry [OF m(1)] by auto
  have "uint v < 2097152"
    using v(2) ix(2,3) m(2) uint_byte_less [of "ix ! (?m * 3)"] uint_byte_less [of "ix ! (?m * 3 + 1)"]
    by (simp add: last_conv_nth)
  then have "uint (v AND code_mask) = uint v"
    using nat_and_mask [of "unat v" 21] by (simp only: uint_nat unat_and code_mask_def) (simp add: zmod_int)
  moreover have "dec_index 32 (map uint ix) \<noteq> []" using m(1) length_dec_index [of 32 "map uint ix"] by auto
  ultimately have "snd (last (dec_index 32 (map uint ix))) = uint v"
    using v(1) v' length_dec_index [of 32 "map uint ix"] by (simp add: last_conv_nth)
  then show ?thesis using v(1) by simp
qed

lemma points_split:
  assumes "ps = pre @ qs" "even (length pre)" "\<forall>p \<in> set pre. p \<le> k" "k \<le> c"
  shows "odd (pcount qs c) \<longleftrightarrow> odd (pcount ps c)"
  using assms pcount_all [of pre c] by fastforce

lemma lre_is_in_table_ok:
  assumes ok: "index_agrees t ix"
  shows "lre_is_in_table c t ix (length ix div 3) = Some (uint c \<in> table_set t)"
proof -
  let ?es = "dec_index 32 (map uint ix)" and ?m = "length ix div 3 - 1"
  have w: "walk 0 0 True (map uint t) ?es" and l3: "length ix mod 3 = 0" and l32: "map uint ix ! (length ix - 1) < 32"
    using ok by (simp_all add: index_agrees_def index_ok_def)
  obtain ps where es: "?es \<noteq> []" and ps: "table_points 0 (map uint t) = Some ps" "even (length ps)"
    "snd (last ?es) = last (0 # ps)" "\<forall>e \<in> set (butlast ?es). entry_ok 0 0 True (map uint t) ps e"
    using walk_sound [OF w] by auto
  have "0 < length ix div 3" using es length_dec_index [of 32 "map uint ix"] by (metis length_greater_0_conv length_map)
  then have ne: "ix \<noteq> []" and len: "length ix div 3 = Suc ?m" "length ?es = Suc ?m"
    using length_dec_index [of 32 "map uint ix"] by auto
  have sorted: "sorted_wrt (<) (0 # ps)" by (rule table_points_sorted [OF ps(1)]) simp
  define L where "L = last (0 # ps)"
  have L: "snd (last ?es) = L" "0 \<le> L" "p \<in> set ps \<Longrightarrow> p \<le> L" for p
    using ps(3) last_ge [OF sorted] by (auto simp: L_def)
  have "\<exists>v. last ?es = (int ((?m + 1) * 32 + unat (drop_bit 21 v)), uint (v AND code_mask))"
    using index_entry [of ?m ix] len es by (auto simp: last_conv_nth)
  then have Llt: "L < 2 ^ 32" using L(1) uint_lt2p [where 'a = 32] by auto
  have lastv: "get_le24 ix (?m * 3) = Some (word_of_int L)"
    using last_index_entry [OF l3 ne] l32 ne L(1) by (simp add: last_conv_nth)
  have uL: "uint (word_of_int L :: u32) = L" using L(2) Llt by (simp add: uint_word_of_int)
  have set: "table_set t = {c. odd (pcount ps c)}" by (simp add: table_set_def ps(1))
  have e0: "snd (?es ! 0) \<le> L \<and> (?m = 0 \<longrightarrow> snd (?es ! 0) = L)"
  proof (cases "?m = 0")
    case True
    then show ?thesis using L(1) len(2) es by (simp add: last_conv_nth)
  next
    case False
    then have "?es ! 0 \<in> set (butlast ?es)" using len(2) by (metis length_butlast nth_butlast nth_mem diff_Suc_1 neq0_conv)
    then have "entry_ok 0 0 True (map uint t) ps (?es ! 0)" using ps(4) by blast
    then show ?thesis using False unfolding entry_ok_def L_def by (auto split: prod.splits simp del: last.simps)
  qed
  obtain v0 where v0: "get_le24 ix 0 = Some v0" "snd (?es ! 0) = uint (v0 AND code_mask)"
    using index_entry [of 0 ix] len by auto
  have loop: "in_table_loop c code False (drop pos t) = Some (odd (pcount ps (uint c)))"
    if "table_points (uint code) (map uint (drop pos t)) = Some qs" "ps = pre @ qs" "even (length pre)"
      "\<forall>p \<in> set pre. p \<le> uint code" "uint code \<le> uint c" "uint c < L" for code pos pre qs
  proof -
    have "L \<notin> set pre" using that(4,5,6) by fastforce
    moreover have "ps \<noteq> []" using that(5,6) uint_ge_0 [of code] by (auto simp: L_def simp del: uint_ge_0)
    then have "L \<in> set ps" by (simp add: L_def)
    ultimately have "qs \<noteq> []" using that(2) by auto
    then have "L \<in> set qs" using that(2) by (simp add: L_def)
    then have "\<exists>p \<in> set qs. uint c < p" using that(6) by blast
    moreover have "\<forall>p \<in> set qs. p < 2 ^ 32" using L(3) Llt that(2) by fastforce
    ultimately have "in_table_loop c code False (drop pos t) = Some (odd (pcount qs (uint c)))"
      using in_table_loop_points [OF that(1)] by simp
    then show ?thesis using points_split [OF that(2,3,4,5)] by simp
  qed
  consider (first) "c < v0 AND code_mask" | (beyond) "\<not> c < v0 AND code_mask" "L \<le> uint c"
    | (inside) "\<not> c < v0 AND code_mask" "uint c < L" by linarith
  then show ?thesis
  proof cases
    case first
    have "uint c < L" using e0 first v0(2) by (simp add: word_less_def)
    then have "in_table_loop c 0 False (drop 0 t) = Some (odd (pcount ps (uint c)))"
      using ps(1) by (intro loop [of _ _ _ "[]"]) auto
    then show ?thesis using first v0(1) set by (simp add: lre_is_in_table_def get_index_pos_def)
  next
    case beyond
    have "pcount ps (uint c) = length ps" using L(3) beyond(2) by (intro pcount_all) fastforce
    then show ?thesis
      using beyond v0(1) lastv uL ps(2) set by (simp add: lre_is_in_table_def get_index_pos_def word_le_def)
  next
    case inside
    have "?m > 0" using inside e0 v0(2) by (auto simp: word_less_def)
    have "ok (index_search ix c 0 ?m) (\<lambda>j. 0 \<le> j \<and> j < ?m \<and> snd (?es ! j) \<le> uint c)"
      using inside v0(2) \<open>?m > 0\<close> by (intro index_search_ok [OF len(1)]) (auto simp: word_less_def)
    then obtain j where j: "index_search ix c 0 ?m = Some j" "j < ?m" "snd (?es ! j) \<le> uint c" by (auto elim: okE)
    obtain v where v: "get_le24 ix (j * 3) = Some v"
      "?es ! j = (int ((j + 1) * 32 + unat (drop_bit 21 v)), uint (v AND code_mask))"
      using index_entry [of j ix] j(2) len(1) by auto
    have "?es ! j \<in> set (butlast ?es)" using j(2) len(2) by (metis One_nat_def diff_Suc_1 length_butlast nth_butlast nth_mem)
    then have "entry_ok 0 0 True (map uint t) ps (?es ! j)" using ps(4) by blast
    then obtain pre qs where e: "ps = pre @ qs" "even (length pre)" "\<forall>p \<in> set pre. p \<le> uint (v AND code_mask)"
      "table_points (uint (v AND code_mask)) (drop ((j + 1) * 32 + unat (drop_bit 21 v)) (map uint t)) = Some qs"
      unfolding v(2) entry_ok_def by (auto simp del: of_nat_add of_nat_mult)
    have "in_table_loop c (v AND code_mask) False (drop ((j + 1) * 32 + unat (drop_bit 21 v)) t) =
        Some (odd (pcount ps (uint c)))"
      by (rule loop [OF _ e(1,2,3)]) (use e(4) j(3) v(2) inside(2) in \<open>simp_all add: drop_map\<close>)
    then show ?thesis using inside v0(1) lastv uL j(1) v(1) set
      by (simp add: lre_is_in_table_def get_index_pos_def word_le_def UNICODE_INDEX_BLOCK_LEN_def)
  qed
qed


section \<open>The tables of the sources\<close>

text \<open>
  The check of a table is a linear evaluation: the congruence rules keep the simplifier out of the
  rest of the table, so that one rewrite step handles one opcode.
\<close>

lemma walk_cong: "pos = pos' \<Longrightarrow> code = code' \<Longrightarrow> out = out' \<Longrightarrow> walk pos code out t ix = walk pos' code' out' t ix"
  by simp

lemma walk_ix_cong: "ix = ix' \<Longrightarrow> walk pos code out t ix = walk pos code out t ix'" by simp

lemma walk_exec:
  "q = pos \<Longrightarrow> walk pos code out t ((q, k) # e # ix) \<longleftrightarrow> code = k \<and> out \<and> walk pos code out t (e # ix)"
  "q \<noteq> pos \<Longrightarrow> uint b < 64 \<Longrightarrow> walk pos code out (map uint ((b # p) @ r)) ((q, k) # e # ix) =
     walk (pos + 1) (code + (uint b div 8 + uint b mod 8 + 2)) out (map uint (p @ r)) ((q, k) # e # ix)"
  "q \<noteq> pos \<Longrightarrow> uint b \<ge> 128 \<Longrightarrow> walk pos code out (map uint ((b # p) @ r)) ((q, k) # e # ix) =
     walk (pos + 1) (code + (uint b - 127)) (\<not> out) (map uint (p @ r)) ((q, k) # e # ix)"
  "q \<noteq> pos \<Longrightarrow> 64 \<le> uint b \<Longrightarrow> uint b < 96 \<Longrightarrow> walk pos code out (map uint ((b # x # p) @ r)) ((q, k) # e # ix) =
     walk (pos + 2) (code + ((uint b - 64) * 256 + uint x + 1)) (\<not> out) (map uint (p @ r)) ((q, k) # e # ix)"
  "q \<noteq> pos \<Longrightarrow> 96 \<le> uint b \<Longrightarrow> uint b < 128 \<Longrightarrow> walk pos code out (map uint ((b # x # y # p) @ r)) ((q, k) # e # ix) =
     walk (pos + 3) (code + ((uint b - 96) * 65536 + uint x * 256 + uint y + 1)) (\<not> out) (map uint (p @ r)) ((q, k) # e # ix)"
  "uint b < 64 \<Longrightarrow> walk pos code out (map uint ((b # p) @ r)) [e] =
     walk (pos + 1) (code + (uint b div 8 + uint b mod 8 + 2)) out (map uint (p @ r)) [e]"
  "uint b \<ge> 128 \<Longrightarrow> walk pos code out (map uint ((b # p) @ r)) [e] =
     walk (pos + 1) (code + (uint b - 127)) (\<not> out) (map uint (p @ r)) [e]"
  "64 \<le> uint b \<Longrightarrow> uint b < 96 \<Longrightarrow> walk pos code out (map uint ((b # x # p) @ r)) [e] =
     walk (pos + 2) (code + ((uint b - 64) * 256 + uint x + 1)) (\<not> out) (map uint (p @ r)) [e]"
  "96 \<le> uint b \<Longrightarrow> uint b < 128 \<Longrightarrow> walk pos code out (map uint ((b # x # y # p) @ r)) [e] =
     walk (pos + 3) (code + ((uint b - 96) * 65536 + uint x * 256 + uint y + 1)) (\<not> out) (map uint (p @ r)) [e]"
  "walk pos code out (map uint []) [(q, k)] \<longleftrightarrow> code = k \<and> out"
  by (cases e; subst walk.simps; simp add: ac_simps)+

lemma walk_next_piece: "walk pos code out (map uint ([] @ r)) ix = walk pos code out (map uint r) ix"
  by simp

text \<open>The bigger tables are given in pieces; a piece is unfolded when the walk reaches it.\<close>

lemmas walk_pieces =
  arg_cong [OF unicode_prop_Cased1_table_def, of "\<lambda>t. walk pos code out (map uint (t @ r)) ix" for pos code out r ix]
  arg_cong [OF unicode_prop_Case_Ignorable_table_0_def, of "\<lambda>t. walk pos code out (map uint (t @ r)) ix" for pos code out r ix]
  arg_cong [OF unicode_prop_Case_Ignorable_table_1_def, of "\<lambda>t. walk pos code out (map uint (t @ r)) ix" for pos code out r ix]
  arg_cong [OF unicode_prop_Case_Ignorable_table_2_def, of "\<lambda>t. walk pos code out (map uint (t @ r)) ix" for pos code out r ix]
  arg_cong [OF unicode_prop_Case_Ignorable_table_3_def, of "\<lambda>t. walk pos code out (map uint (t @ r)) ix" for pos code out r ix]
  arg_cong [OF unicode_prop_ID_Start_table_0_def, of "\<lambda>t. walk pos code out (map uint (t @ r)) ix" for pos code out r ix]
  arg_cong [OF unicode_prop_ID_Start_table_1_def, of "\<lambda>t. walk pos code out (map uint (t @ r)) ix" for pos code out r ix]
  arg_cong [OF unicode_prop_ID_Start_table_2_def, of "\<lambda>t. walk pos code out (map uint (t @ r)) ix" for pos code out r ix]
  arg_cong [OF unicode_prop_ID_Start_table_3_def, of "\<lambda>t. walk pos code out (map uint (t @ r)) ix" for pos code out r ix]
  arg_cong [OF unicode_prop_ID_Start_table_4_def, of "\<lambda>t. walk pos code out (map uint (t @ r)) ix" for pos code out r ix]
  arg_cong [OF unicode_prop_ID_Start_table_5_def, of "\<lambda>t. walk pos code out (map uint (t @ r)) ix" for pos code out r ix]
  arg_cong [OF unicode_prop_ID_Continue1_table_0_def, of "\<lambda>t. walk pos code out (map uint (t @ r)) ix" for pos code out r ix]
  arg_cong [OF unicode_prop_ID_Continue1_table_1_def, of "\<lambda>t. walk pos code out (map uint (t @ r)) ix" for pos code out r ix]
  arg_cong [OF unicode_prop_ID_Continue1_table_2_def, of "\<lambda>t. walk pos code out (map uint (t @ r)) ix" for pos code out r ix]
  arg_cong [OF unicode_prop_ID_Continue1_table_3_def, of "\<lambda>t. walk pos code out (map uint (t @ r)) ix" for pos code out r ix]

lemma Cased1_agrees: "index_agrees unicode_prop_Cased1_table unicode_prop_Cased1_index"
proof -
  have e: "unicode_prop_Cased1_table = unicode_prop_Cased1_table @ []" by simp
  show ?thesis unfolding index_agrees_def index_ok_def unicode_prop_Cased1_index_def
    by (simp cong: walk_ix_cong, subst e)
       (simp del: list.map append.simps append_Nil2 map_append add: walk_exec walk_next_piece walk_pieces cong: walk_cong)
qed

lemma Case_Ignorable_agrees: "index_agrees unicode_prop_Case_Ignorable_table unicode_prop_Case_Ignorable_index"
proof -
  have e: "unicode_prop_Case_Ignorable_table = unicode_prop_Case_Ignorable_table_0 @ unicode_prop_Case_Ignorable_table_1 @ unicode_prop_Case_Ignorable_table_2 @ unicode_prop_Case_Ignorable_table_3 @ []"
    by (simp add: unicode_prop_Case_Ignorable_table_def)
  show ?thesis unfolding index_agrees_def index_ok_def unicode_prop_Case_Ignorable_index_def
    by (simp cong: walk_ix_cong, subst e)
       (simp del: list.map append.simps append_Nil2 map_append add: walk_exec walk_next_piece walk_pieces cong: walk_cong)
qed

lemma ID_Start_agrees: "index_agrees unicode_prop_ID_Start_table unicode_prop_ID_Start_index"
proof -
  have e: "unicode_prop_ID_Start_table = unicode_prop_ID_Start_table_0 @ unicode_prop_ID_Start_table_1 @ unicode_prop_ID_Start_table_2 @ unicode_prop_ID_Start_table_3 @ unicode_prop_ID_Start_table_4 @ unicode_prop_ID_Start_table_5 @ []"
    by (simp add: unicode_prop_ID_Start_table_def)
  show ?thesis unfolding index_agrees_def index_ok_def unicode_prop_ID_Start_index_def
    by (simp cong: walk_ix_cong, subst e)
       (simp del: list.map append.simps append_Nil2 map_append add: walk_exec walk_next_piece walk_pieces cong: walk_cong)
qed

lemma ID_Continue1_agrees: "index_agrees unicode_prop_ID_Continue1_table unicode_prop_ID_Continue1_index"
proof -
  have e: "unicode_prop_ID_Continue1_table = unicode_prop_ID_Continue1_table_0 @ unicode_prop_ID_Continue1_table_1 @ unicode_prop_ID_Continue1_table_2 @ unicode_prop_ID_Continue1_table_3 @ []"
    by (simp add: unicode_prop_ID_Continue1_table_def)
  show ?thesis unfolding index_agrees_def index_ok_def unicode_prop_ID_Continue1_index_def
    by (simp cong: walk_ix_cong, subst e)
       (simp del: list.map append.simps append_Nil2 map_append add: walk_exec walk_next_piece walk_pieces cong: walk_cong)
qed


section \<open>Properties\<close>

text \<open>
  C8. For every table whose index agrees with it and every 32-bit argument, the indexed lookup
  \<open>lre_is_in_table\<close> reads only inside table and index, returns, and answers whether the argument lies
  in the set obtained by decoding the run lengths from the start of the table.
\<close>

theorem lookup_equals_decoding:
  "index_agrees t ix \<Longrightarrow> lre_is_in_table c t ix (length ix div 3) = Some (uint c \<in> table_set t)"
  by (rule lre_is_in_table_ok)

theorem lookup_equals_decoding_witness:
  "index_agrees unicode_prop_ID_Continue1_table unicode_prop_ID_Continue1_index \<and>
   lre_is_in_table 0x30 unicode_prop_ID_Continue1_table unicode_prop_ID_Continue1_index
     (length unicode_prop_ID_Continue1_index div 3) = Some (0x30 \<in> table_set unicode_prop_ID_Continue1_table)"
  using lookup_equals_decoding [OF ID_Continue1_agrees, of "0x30"] ID_Continue1_agrees by simp

text \<open>
  C35. The identifier and case predicates are total on 32-bit arguments and equal membership in the
  sets their tables encode; every \<open>ID_Start\<close> character is an \<open>ID_Continue\<close> character.
\<close>

theorem identifier_predicates:
  "lre_is_id_start c = Some (uint c \<in> table_set unicode_prop_ID_Start_table) \<and>
   lre_is_id_continue c = Some (uint c \<in> table_set unicode_prop_ID_Start_table \<union> table_set unicode_prop_ID_Continue1_table) \<and>
   lre_is_case_ignorable c = Some (uint c \<in> table_set unicode_prop_Case_Ignorable_table)"
  using lre_is_in_table_ok [OF ID_Start_agrees] lre_is_in_table_ok [OF ID_Continue1_agrees]
    lre_is_in_table_ok [OF Case_Ignorable_agrees]
  by (simp add: lre_is_id_start_def lre_is_id_continue_def lre_is_case_ignorable_def)

end
