(* ===== verification/Case_Conv.thy ===== *)
theory Case_Conv
  imports Unicode_Lookup
begin

unbundle bit_operations_syntax

text \<open>
  Case conversion in src/quickjs/libunicode.c: \<open>lre_case_conv\<close> with its binary search over the runs of
  \<open>case_conv_table1\<close>, and \<open>lre_is_cased\<close>. The result of a conversion is the list of code points the
  code stores in \<open>res\<close>; \<^term>\<open>None\<close> is an access outside a table. A checker over the runs of the
  sources gives that every conversion is total, stores one to three valid code points and leaves
  code points outside the runs alone.
\<close>

section \<open>The code\<close>

datatype RUN_TYPE = RUN_TYPE_U | RUN_TYPE_L | RUN_TYPE_UF | RUN_TYPE_LF | RUN_TYPE_UL | RUN_TYPE_LSU
  | RUN_TYPE_U2L_399_EXT2 | RUN_TYPE_UF_D20 | RUN_TYPE_UF_D1_EXT | RUN_TYPE_U_EXT | RUN_TYPE_LF_EXT
  | RUN_TYPE_U_EXT2 | RUN_TYPE_L_EXT2 | RUN_TYPE_U_EXT3

text \<open>The switch over the four bits of the type: unused values take the default branch.\<close>

definition run_type :: "u32 \<Rightarrow> RUN_TYPE" where
  "run_type type =
     (if type = 0 then RUN_TYPE_U else if type = 1 then RUN_TYPE_L else if type = 2 then RUN_TYPE_UF
      else if type = 3 then RUN_TYPE_LF else if type = 4 then RUN_TYPE_UL else if type = 5 then RUN_TYPE_LSU
      else if type = 6 then RUN_TYPE_U2L_399_EXT2 else if type = 7 then RUN_TYPE_UF_D20
      else if type = 8 then RUN_TYPE_UF_D1_EXT else if type = 9 then RUN_TYPE_U_EXT
      else if type = 10 then RUN_TYPE_LF_EXT else if type = 11 then RUN_TYPE_U_EXT2
      else if type = 12 then RUN_TYPE_L_EXT2 else RUN_TYPE_U_EXT3)"

definition run_code :: "u32 \<Rightarrow> u32" where
  "run_code v = drop_bit 15 v"

definition run_len :: "u32 \<Rightarrow> u32" where
  "run_len v = drop_bit 8 v AND 0x7f"

text \<open>The search in \<open>case_conv_table1\<close> shared by \<open>lre_is_cased\<close> and \<open>lre_case_conv\<close>: the index of the run.\<close>

function case_search :: "u32 \<Rightarrow> int \<Rightarrow> int \<Rightarrow> nat option option" where
  "case_search c idx_min idx_max =
     (if idx_min \<le> idx_max then do {
        let idx = (idx_max + idx_min) div 2;
        v \<leftarrow> rd case_conv_table1 (nat idx);
        if c < run_code v then case_search c idx_min (idx - 1)
        else if c \<ge> run_code v + run_len v then case_search c (idx + 1) idx_max
        else Some (Some (nat idx)) }
      else Some None)"
  by pat_completeness auto
termination
  by (relation "measure (\<lambda>(_, lo, hi). nat (hi - lo + 1))") (auto simp: Let_def)

declare case_search.simps [simp del]

definition ext :: "u32 \<Rightarrow> u32 option" where
  "ext i = map_option ucast (rd case_conv_ext (unat i))"

text \<open>The body of the conversion once the run \<open>idx\<close> is found: the stored code points.\<close>

definition conv_run :: "u32 \<Rightarrow> u32 \<Rightarrow> u32 \<Rightarrow> nat \<Rightarrow> u32 list option" where
  "conv_run c conv_type v idx = do {
     b \<leftarrow> rd case_conv_table2 idx;
     let code = run_code v;
     let is_lower = (if conv_type \<noteq> 0 then 1 else 0);
     let type = drop_bit 4 v AND 0xf;
     let data = push_bit 8 (v AND 0xf) OR ucast b;
     case run_type type of
       RUN_TYPE_UL \<Rightarrow>
         (let a = c - code in if (a AND 1) \<noteq> 1 - is_lower then Some [c] else Some [(a XOR 1) + code])
     | RUN_TYPE_LSU \<Rightarrow>
         (let a = c - code in
          if a = 1 then Some [c + (2 * is_lower - 1)]
          else if a = (1 - is_lower) * 2 then Some [c + (2 * is_lower - 1) * 2]
          else Some [c])
     | RUN_TYPE_U2L_399_EXT2 \<Rightarrow>
         (if is_lower = 0 then do { e \<leftarrow> ext (drop_bit 6 data); Some [c - code + e, 0x399] }
          else do { e \<leftarrow> ext (data AND 0x3f); Some [c - code + e] })
     | RUN_TYPE_UF_D20 \<Rightarrow>
         (if conv_type = 1 then Some [c] else Some [data + (if conv_type = 2 then 1 else 0) * 0x20])
     | RUN_TYPE_UF_D1_EXT \<Rightarrow>
         (if conv_type = 1 then Some [c]
          else do { e \<leftarrow> ext data; Some [e + (if conv_type = 2 then 1 else 0)] })
     | RUN_TYPE_U_EXT \<Rightarrow> if is_lower \<noteq> type - 9 then Some [c] else do { e \<leftarrow> ext data; Some [e] }
     | RUN_TYPE_LF_EXT \<Rightarrow> if is_lower \<noteq> type - 9 then Some [c] else do { e \<leftarrow> ext data; Some [e] }
     | RUN_TYPE_U_EXT2 \<Rightarrow>
         (if conv_type \<noteq> type - 11 then Some [c]
          else do { e \<leftarrow> ext (drop_bit 6 data); e' \<leftarrow> ext (data AND 0x3f); Some [c - code + e, e'] })
     | RUN_TYPE_L_EXT2 \<Rightarrow>
         (if conv_type \<noteq> type - 11 then Some [c]
          else do { e \<leftarrow> ext (drop_bit 6 data); e' \<leftarrow> ext (data AND 0x3f); Some [c - code + e, e'] })
     | RUN_TYPE_U_EXT3 \<Rightarrow>
         (if conv_type \<noteq> 0 then Some [c]
          else do { e \<leftarrow> ext (drop_bit 8 data); e' \<leftarrow> ext (drop_bit 4 data AND 0xf); e'' \<leftarrow> ext (data AND 0xf);
                    Some [e, e', e''] })
     | _ \<Rightarrow>
         (if conv_type = (type AND 1) \<or> (type \<ge> 2 \<and> conv_type = 2)
          then do { w \<leftarrow> rd case_conv_table1 (unat data); Some [c - code + run_code w] }
          else Some [c]) }"

definition lre_case_conv :: "u32 \<Rightarrow> u32 \<Rightarrow> u32 list option" where
  "lre_case_conv c conv_type =
     (if c < 128 then
        if conv_type \<noteq> 0 then
          if c \<ge> 0x41 \<and> c \<le> 0x5a then Some [c - 0x41 + 0x61] else Some [c]
        else
          if c \<ge> 0x61 \<and> c \<le> 0x7a then Some [c - 0x61 + 0x41] else Some [c]
      else do {
        r \<leftarrow> case_search c 0 (int (length case_conv_table1) - 1);
        case r of None \<Rightarrow> Some [c]
        | Some idx \<Rightarrow> do { v \<leftarrow> rd case_conv_table1 idx; conv_run c conv_type v idx } })"

definition lre_is_cased :: "u32 \<Rightarrow> bool option" where
  "lre_is_cased c = do {
     r \<leftarrow> case_search c 0 (int (length case_conv_table1) - 1);
     case r of Some idx \<Rightarrow> Some True
     | None \<Rightarrow> lre_is_in_table c unicode_prop_Cased1_table unicode_prop_Cased1_index
                (length unicode_prop_Cased1_index div 3) }"


section \<open>The binary search\<close>

definition in_run :: "u32 \<Rightarrow> u32 \<Rightarrow> bool" where
  "in_run v c \<longleftrightarrow> run_code v \<le> c \<and> c < run_code v + run_len v"

fun runs_sorted :: "u32 list \<Rightarrow> bool" where
  "runs_sorted (v # w # vs) \<longleftrightarrow> run_code v + run_len v \<le> run_code w \<and> runs_sorted (w # vs)"
| "runs_sorted _ \<longleftrightarrow> True"

lemma run_bounds: "unat (run_code v) < 2 ^ 17" "unat (run_len v) < 2 ^ 7"
  "unat (run_code v + run_len v) = unat (run_code v) + unat (run_len v)"
proof -
  show 1: "unat (run_code v) < 2 ^ 17"
    using unsigned_less [of v, where 'a = nat] by (simp only: run_code_def unat_drop_bit) simp
  show 2: "unat (run_len v) < 2 ^ 7"
    using nat_and_mask [of "unat (drop_bit 8 v)" 7] by (simp only: run_len_def unat_and) simp
  show "unat (run_code v + run_len v) = unat (run_code v) + unat (run_len v)"
    using 1 2 by (simp add: unat_word_ariths)
qed

lemma run_code_le_end: "run_code v \<le> run_code v + run_len v"
  using run_bounds(3) [of v] by (simp add: word_le_nat_alt)

lemma runs_sorted_wrt:
  "runs_sorted vs \<Longrightarrow> sorted_wrt (\<lambda>v w. run_code v + run_len v \<le> run_code w) vs"
proof (induction vs rule: runs_sorted.induct)
  case (1 v w vs)
  then have s: "sorted_wrt (\<lambda>v w. run_code v + run_len v \<le> run_code w) (w # vs)"
    and v: "run_code v + run_len v \<le> run_code w" by simp_all
  have "run_code v + run_len v \<le> run_code x" if "x \<in> set vs" for x
    using s that v run_code_le_end [of w] by (auto intro: order_trans)
  then show ?case using s v by simp
qed simp_all

lemma table1_sorted: "runs_sorted case_conv_table1"
  unfolding case_conv_table1_def by (simp add: run_code_def run_len_def)

lemma run_order:
  "i < j \<Longrightarrow> j < length case_conv_table1 \<Longrightarrow>
   run_code (case_conv_table1 ! i) + run_len (case_conv_table1 ! i) \<le> run_code (case_conv_table1 ! j)"
  using sorted_wrt_nth_less [OF runs_sorted_wrt [OF table1_sorted]] by blast

lemma case_search_ok:
  "0 \<le> lo \<Longrightarrow> hi < int (length case_conv_table1) \<Longrightarrow>
   ok (case_search c lo hi) (\<lambda>r. case r of
     Some i \<Rightarrow> i < length case_conv_table1 \<and> in_run (case_conv_table1 ! i) c
   | None \<Rightarrow> \<forall>i. lo \<le> int i \<and> int i \<le> hi \<longrightarrow> \<not> in_run (case_conv_table1 ! i) c)"
proof (induction c lo hi rule: case_search.induct)
  case (1 c lo hi)
  let ?n = "length case_conv_table1" and ?idx = "(hi + lo) div 2"
  show ?case
  proof (cases "lo \<le> hi")
    case True
    define k where "k = nat ?idx"
    define v where "v = case_conv_table1 ! k"
    have k: "lo \<le> int k" "int k \<le> hi" "k < ?n" "?idx = int k" using True 1(3,4) by (auto simp: k_def)
    have rd: "rd case_conv_table1 (nat ?idx) = Some v" using k(3) by (simp add: v_def k_def)
    note unfold = case_search.simps [of c lo hi]
    consider (below) "c < run_code v" | (above) "\<not> c < run_code v" "run_code v + run_len v \<le> c" | (hit) "in_run v c"
      unfolding in_run_def by fastforce
    then show ?thesis
    proof cases
      case below
      have no: "\<not> in_run (case_conv_table1 ! i) c" if "k \<le> i" "i < ?n" for i
      proof (cases "i = k")
        case False
        then have "run_code v + run_len v \<le> run_code (case_conv_table1 ! i)" using run_order that unfolding v_def by simp
        then show ?thesis using below run_code_le_end [of v] by (auto simp: in_run_def)
      qed (use below in \<open>auto simp: in_run_def v_def\<close>)
      have IH: "ok (case_search c lo (int k - 1)) (\<lambda>r. case r of
          Some i \<Rightarrow> i < ?n \<and> in_run (case_conv_table1 ! i) c
        | None \<Rightarrow> \<forall>i. lo \<le> int i \<and> int i \<le> int k - 1 \<longrightarrow> \<not> in_run (case_conv_table1 ! i) c)"
        using 1(1) [OF True refl rd below 1(3), unfolded k(4)] k 1(4) by simp
      have out: "\<not> in_run (case_conv_table1 ! i) c" if "\<not> int i \<le> int k - 1" "int i \<le> hi" for i
        using no [of i] that k 1(4) by linarith
      have "case_search c lo hi = case_search c lo (int k - 1)" unfolding unfold using True rd below k(4) by (simp add: Let_def)
      then show ?thesis by (simp only:) (rule ok_mono [OF IH], use out in \<open>auto split: option.splits\<close>)
    next
      case above
      have no: "\<not> in_run (case_conv_table1 ! i) c" if "i \<le> k" for i
      proof (cases "i = k")
        case False
        then have "run_code (case_conv_table1 ! i) + run_len (case_conv_table1 ! i) \<le> run_code v"
          using run_order that k(3) unfolding v_def by simp
        then show ?thesis using above run_code_le_end [of v] by (auto simp: in_run_def)
      qed (use above in \<open>auto simp: in_run_def v_def\<close>)
      have IH: "ok (case_search c (int k + 1) hi) (\<lambda>r. case r of
          Some i \<Rightarrow> i < ?n \<and> in_run (case_conv_table1 ! i) c
        | None \<Rightarrow> \<forall>i. int k + 1 \<le> int i \<and> int i \<le> hi \<longrightarrow> \<not> in_run (case_conv_table1 ! i) c)"
        using 1(2) [OF True refl rd above _ 1(4), unfolded k(4)] k 1(3) by simp
      have out: "\<not> in_run (case_conv_table1 ! i) c" if "\<not> int k + 1 \<le> int i" for i
        using no [of i] that k by linarith
      have "case_search c lo hi = case_search c (int k + 1) hi" unfolding unfold using True rd above k(4) by (simp add: Let_def)
      then show ?thesis by (simp only:) (rule ok_mono [OF IH], use out in \<open>auto split: option.splits\<close>)
    next
      case hit
      then have "\<not> c < run_code v" "\<not> run_code v + run_len v \<le> c" by (auto simp: in_run_def)
      then show ?thesis unfolding unfold using True rd hit k(3,4) by (simp add: Let_def v_def)
    qed
  next
    case False
    then show ?thesis by (subst case_search.simps) auto
  qed
qed


section \<open>The runs of the sources\<close>

text \<open>The table indices computed for a run are in range.\<close>

definition run_ok :: "u32 \<Rightarrow> u8 \<Rightarrow> bool" where
  "run_ok v b = (let data = push_bit 8 (v AND 0xf) OR ucast b :: u32;
      n = unat data in
     case run_type (drop_bit 4 v AND 0xf) of
       RUN_TYPE_UL \<Rightarrow> True | RUN_TYPE_LSU \<Rightarrow> True | RUN_TYPE_UF_D20 \<Rightarrow> True | RUN_TYPE_U_EXT3 \<Rightarrow> True
     | RUN_TYPE_U2L_399_EXT2 \<Rightarrow> unat (drop_bit 6 data) < 58 \<and> unat (data AND 0x3f) < 58
     | RUN_TYPE_U_EXT2 \<Rightarrow> unat (drop_bit 6 data) < 58 \<and> unat (data AND 0x3f) < 58
     | RUN_TYPE_L_EXT2 \<Rightarrow> unat (drop_bit 6 data) < 58 \<and> unat (data AND 0x3f) < 58
     | RUN_TYPE_UF_D1_EXT \<Rightarrow> n < 58 | RUN_TYPE_U_EXT \<Rightarrow> n < 58 | RUN_TYPE_LF_EXT \<Rightarrow> n < 58
     | _ \<Rightarrow> n < 361)"

lemma table_lengths: "length case_conv_table1 = 361" "length case_conv_table2 = 361" "length case_conv_ext = 58"
  by (simp_all add: case_conv_table1_def case_conv_table2_def case_conv_ext_def)

lemma runs_ok: "list_all2 run_ok case_conv_table1 case_conv_table2"
  unfolding case_conv_table1_def case_conv_table2_def
  by (simp add: run_ok_def run_type_def Let_def)

lemma ext_ok: "unat i < 58 \<Longrightarrow> ok (ext i) (\<lambda>e. unat e < 0x10000)"
  using unsigned_less [of "case_conv_ext ! unat i", where 'a = nat]
  by (simp add: ext_def rd_Some table_lengths ok_conv unsigned_ucast_eq take_bit_eq_mod)

lemma unat_add_le: "unat (a + b :: u32) \<le> unat a + unat b"
  by (simp add: unat_word_ariths)

lemma run_offset:
  assumes "in_run v c" shows "unat (c - run_code v) < 128" "c = run_code v + (c - run_code v)"
  using assms run_bounds [of v] by (auto simp: in_run_def word_less_nat_alt unat_sub)

lemma in_run_small: "in_run v c \<Longrightarrow> unat c < 0x20080"
  using run_bounds [of v] by (auto simp: in_run_def word_less_nat_alt)

lemma uint_less_pow: "uint w < 2 ^ n \<longleftrightarrow> unat (w :: 'a :: len word) < 2 ^ n"
  using of_nat_less_iff [of "unat w" "2 ^ n", where 'a = int] by (simp only: uint_nat of_nat_power of_nat_numeral)

lemma run_data_small: "unat (push_bit 8 (v AND 0xf) OR ucast (b :: u8) :: u32) < 0x1000"
proof -
  have "unat (push_bit 8 (v AND 0xf :: u32)) \<le> 15 * 2 ^ 8"
    using nat_and_mask [of "unat v" 4] by (subst unat_push) (simp_all only: unat_and, simp_all)
  then have "uint (push_bit 8 (v AND 0xf :: u32)) < 2 ^ 12" by (simp only: uint_less_pow) simp
  moreover have "uint (ucast b :: u32) < 2 ^ 12" using uint_byte_less [of b] by (simp add: unsigned_ucast_eq take_bit_eq_mod)
  ultimately have "uint (push_bit 8 (v AND 0xf) OR ucast b :: u32) < 2 ^ 12" unfolding uint_or by (intro OR_upper) auto
  then show ?thesis by (simp only: uint_less_pow) simp
qed

text \<open>One to three code points of the Unicode range.\<close>

definition conv_result :: "u32 list \<Rightarrow> bool" where
  "conv_result rs \<longleftrightarrow> rs \<noteq> [] \<and> length rs \<le> 3 \<and> (\<forall>r \<in> set rs. unat r \<le> 0x10ffff)"

lemma conv_run_ok:
  assumes v: "idx < 361" "v = case_conv_table1 ! idx" and c: "in_run v c" and ct: "ct \<in> {0, 1, 2}"
  shows "ok (conv_run c ct v idx) conv_result"
proof -
  define b where "b = case_conv_table2 ! idx"
  have rd: "rd case_conv_table2 idx = Some b" using v by (simp add: b_def table_lengths)
  have r: "run_ok v b" using list_all2_nthD [OF runs_ok, of idx] v table_lengths by (simp add: b_def)
  define data where "data = (push_bit 8 (v AND 0xf) OR ucast b :: u32)"
  define a where "a = c - run_code v"
  have a: "unat a < 128" "c = run_code v + a" using run_offset [OF c] by (simp_all only: a_def)
  have cv: "unat c \<le> 0x10ffff" using in_run_small [OF c] by simp
  have sum: "unat (a + e) \<le> 0x10ffff" if "unat e < 0x20000" for e
    using unat_add_le [of a e] a(1) that by linarith
  have ex: "ok (ext i) (\<lambda>e. unat e < 0x20000)" if "unat i < 58" for i
    by (rule ok_mono [OF ext_ok [OF that]]) simp
  have code: "unat (run_code w) < 0x20000" for w using run_bounds(1) [of w] by simp
  note cr = conv_run_def [of c ct v idx, unfolded rd Let_def Option.bind.simps, folded a_def data_def]
  have xor: "unat (a XOR 1) \<le> 128"
  proof -
    have "uint a < 2 ^ 7" using a(1) by (simp only: uint_less_pow) simp
    then have "uint (a XOR 1) < 2 ^ 7" using XOR_upper [of "uint a" 7 1] by (simp add: uint_xor)
    then show ?thesis by (simp only: uint_less_pow) simp
  qed
  have d: "unat data < 0x1000" unfolding data_def by (rule run_data_small)
  have small: "unat (w AND 0xf) < 58" for w :: u32
    using nat_and_mask [of "unat w" 4] by (simp only: unat_and) simp
  have cr1: "conv_result [x]" if "unat x \<le> 0x10ffff" for x using that by (simp add: conv_result_def)
  have sums: "conv_result [c]" "conv_result [data]" "conv_result [data + 32]" "conv_result [(a XOR 1) + run_code v]"
      "conv_result [a + run_code w]" "a = 0 \<Longrightarrow> conv_result [c + 2]" "a = 1 \<Longrightarrow> conv_result [c + 1]"
      "a = 2 \<Longrightarrow> conv_result [c - 2]" "a = 1 \<Longrightarrow> conv_result [c - 1]" for w
    using cv d unat_add_le [of data 32] unat_add_le [of "a XOR 1" "run_code v"] xor code [of v] sum [OF code [of w]]
      unat_add_le [of c 2] unat_add_le [of c 1] in_run_small [OF c] a(2)
    by (auto intro!: cr1)
  have exts: "ok (ext i) (\<lambda>x. conv_result [x])" "ok (ext i) (\<lambda>x. conv_result [x + 1])"
      "ok (ext i) (\<lambda>x. conv_result [a + x])" "ok (ext i) (\<lambda>x. conv_result [a + x, 921])"
    if "unat i < 58" for i
  proof -
    have "unat (x + 1) \<le> 0x10ffff" if "unat x < 0x20000" for x :: u32 using unat_add_le [of x 1] that by simp
    then show "ok (ext i) (\<lambda>x. conv_result [x + 1])" by (intro ok_mono [OF ex [OF that]] cr1) blast
  qed (rule ok_mono [OF ex [OF that]]; use sum in \<open>force simp: conv_result_def\<close>)+
  have pairs: "ok (ext i) (\<lambda>x. ok (ext j) (\<lambda>y. conv_result [a + x, y]))" if "unat i < 58" "unat j < 58" for i j
    using ex [OF that(1)] ex [OF that(2)] sum by (auto simp: ok_conv conv_result_def)
  have triples: "ok (ext i) (\<lambda>x. ok (ext j) (\<lambda>y. ok (ext k) (\<lambda>z. conv_result [x, y, z])))"
    if "unat i < 58" "unat j < 58" "unat k < 58" for i j k
    using ex [OF that(1)] ex [OF that(2)] ex [OF that(3)] by (auto simp: ok_conv conv_result_def)
  have top: "unat (drop_bit 8 data) < 58" using d by (simp only: unat_drop_bit) simp
  note ro = r [unfolded run_ok_def Let_def, folded data_def]
  show ?thesis
    using ro sums top small
    by (cases "run_type (drop_bit 4 v AND 0xf)") (simp_all add: cr exts pairs triples ok_rd table_lengths)
qed

lemma search_all:
  "ok (case_search c 0 (int (length case_conv_table1) - 1)) (\<lambda>r. case r of
     Some i \<Rightarrow> i < length case_conv_table1 \<and> in_run (case_conv_table1 ! i) c
   | None \<Rightarrow> \<forall>v \<in> set case_conv_table1. \<not> in_run v c)"
proof (rule ok_mono [OF case_search_ok [of 0 "int (length case_conv_table1) - 1" c]])
  show "case r of Some i \<Rightarrow> i < length case_conv_table1 \<and> in_run (case_conv_table1 ! i) c
      | None \<Rightarrow> \<forall>v \<in> set case_conv_table1. \<not> in_run v c"
    if "case r of Some i \<Rightarrow> i < length case_conv_table1 \<and> in_run (case_conv_table1 ! i) c
      | None \<Rightarrow> \<forall>i. 0 \<le> int i \<and> int i \<le> int (length case_conv_table1) - 1 \<longrightarrow> \<not> in_run (case_conv_table1 ! i) c"
    for r using that by (auto split: option.splits simp: in_set_conv_nth)
qed simp_all


lemma case_conv_ok:
  assumes c: "unat c \<le> 0x10ffff" and ct: "conv_type \<in> {0, 1, 2}"
  shows "\<exists>rs. lre_case_conv c conv_type = Some rs \<and> rs \<noteq> [] \<and> length rs \<le> 3 \<and> (\<forall>r \<in> set rs. unat r \<le> 0x10ffff) \<and>
     (128 \<le> unat c \<and> (\<forall>v \<in> set case_conv_table1. \<not> in_run v c) \<longrightarrow> rs = [c])"
proof (cases "c < 128")
  case True
  then have u: "unat c < 128" by (simp add: word_less_nat_alt)
  have up: "unat (c - 0x41 + 0x61) \<le> 0x10ffff" using unat_add_le [of "0x20" c] u by simp
  have "unat (c - 0x61 + 0x41) \<le> 0x10ffff" if "0x61 \<le> c"
    using that u unat_add_le [of "c - 0x61" "0x41"] by (simp add: unat_sub word_le_nat_alt)
  then show ?thesis using True u c up by (auto simp: lre_case_conv_def)
next
  case False
  obtain r where r: "case_search c 0 (int (length case_conv_table1) - 1) = Some r" "case r of
       Some i \<Rightarrow> i < length case_conv_table1 \<and> in_run (case_conv_table1 ! i) c
     | None \<Rightarrow> \<forall>v \<in> set case_conv_table1. \<not> in_run v c"
    using search_all [of c] by (rule okE)
  show ?thesis
  proof (cases r)
    case None
    then show ?thesis using False r c by (simp add: lre_case_conv_def)
  next
    case (Some i)
    then have i: "i < 361" "in_run (case_conv_table1 ! i) c" using r table_lengths by simp_all
    have eq: "lre_case_conv c conv_type = conv_run c conv_type (case_conv_table1 ! i) i"
      using False r Some i(1) table_lengths by (simp add: lre_case_conv_def)
    obtain rs where "lre_case_conv c conv_type = Some rs" "conv_result rs"
      using conv_run_ok [OF i(1) refl i(2) ct] unfolding eq by (rule okE)
    moreover have "case_conv_table1 ! i \<in> set case_conv_table1" using i(1) table_lengths by simp
    ultimately show ?thesis using i(2) by (auto simp: conv_result_def)
  qed
qed

section \<open>Properties\<close>

text \<open>
  C25. Case conversion is total on the Unicode range for the three conversion types: it reads only inside
  its tables and stores one, two or three code points of the Unicode range;
  a code point beyond ASCII in no run of the table is stored unchanged.
\<close>

theorem case_conv_total:
  assumes "unat c \<le> 0x10ffff" and "conv_type \<in> {0, 1, 2}"
  shows "\<exists>rs. lre_case_conv c conv_type = Some rs \<and> rs \<noteq> [] \<and> length rs \<le> 3 \<and> (\<forall>r \<in> set rs. unat r \<le> 0x10ffff) \<and>
     (128 \<le> unat c \<and> (\<forall>v \<in> set case_conv_table1. \<not> in_run v c) \<longrightarrow> rs = [c])"
  using assms by (rule case_conv_ok)

theorem case_conv_total_witness:
  "\<exists>rs. lre_case_conv 0xdf 0 = Some rs \<and> rs \<noteq> [] \<and> length rs \<le> 3 \<and> (\<forall>r \<in> set rs. unat r \<le> 0x10ffff)"
  using case_conv_total [of "0xdf" 0] by auto

text \<open>
  C36. \<open>lre_is_cased\<close> is total: it holds of the code points in a run of the conversion table and of those
  in the additional set \<open>Cased1\<close>.
\<close>

theorem is_cased_correct:
  "lre_is_cased c = Some ((\<exists>v \<in> set case_conv_table1. in_run v c) \<or> uint c \<in> table_set unicode_prop_Cased1_table)"
proof -
  obtain r where r: "case_search c 0 (int (length case_conv_table1) - 1) = Some r" "case r of
       Some i \<Rightarrow> i < length case_conv_table1 \<and> in_run (case_conv_table1 ! i) c
     | None \<Rightarrow> \<forall>v \<in> set case_conv_table1. \<not> in_run v c"
    using search_all [of c] by (rule okE)
  then show ?thesis using lre_is_in_table_ok [OF Cased1_agrees, of c]
    by (cases r) (auto simp: lre_is_cased_def)
qed

end
