(* ===== verification/Unicode_Prop_Tables.thy ===== *)
theory Unicode_Prop_Tables
  imports Unicode_Gc_Tables
begin

text \<open>
  Literal data of src/quickjs/libunicode-table.h for the binary properties: one run-length encoded table
  per property, the array of the tables, the property numbers and the names.
\<close>

definition unicode_prop_Hyphen_table :: "u8 list" where
  "unicode_prop_Hyphen_table =
   [0xac, 0x80, 0xfe, 0x80, 0x44, 0xdb, 0x80, 0x52, 0x7a, 0x80, 0x48, 0x08, 0x81, 0x4e, 0x04,
    0x80, 0x42, 0xe2, 0x80, 0x60, 0xcd, 0x66, 0x80, 0x40, 0xa8, 0x80, 0xd6, 0x80]"

definition unicode_prop_Other_Math_table :: "u8 list" where
  "unicode_prop_Other_Math_table =
   [0xdd, 0x80, 0x43, 0x70, 0x11, 0x80, 0x99, 0x09, 0x81, 0x5c, 0x1f, 0x80, 0x9a, 0x82, 0x8a,
    0x80, 0x9f, 0x83, 0x97, 0x81, 0x8d, 0x81, 0xc0, 0x8c, 0x18, 0x11, 0x1c, 0x91, 0x03, 0x01,
    0x89, 0x00, 0x14, 0x28, 0x11, 0x09, 0x02, 0x05, 0x13, 0x24, 0xca, 0x21, 0x18, 0x08, 0x08,
    0x00, 0x21, 0x0b, 0x0b, 0x91, 0x09, 0x00, 0x06, 0x00, 0x29, 0x41, 0x21, 0x83, 0x40, 0xa7,
    0x08, 0x80, 0x97, 0x80, 0x90, 0x80, 0x41, 0xbc, 0x81, 0x8b, 0x88, 0x24, 0x21, 0x09, 0x14,
    0x8d, 0x00, 0x01, 0x85, 0x97, 0x81, 0xb8, 0x00, 0x80, 0x9c, 0x83, 0x88, 0x81, 0x41, 0x55,
    0x81, 0x9e, 0x89, 0x41, 0x92, 0x95, 0xbe, 0x83, 0x9f, 0x81, 0x60, 0xd4, 0x62, 0x00, 0x03,
    0x80, 0x40, 0xd2, 0x00, 0x80, 0x60, 0xd4, 0xc0, 0xd4, 0x80, 0xc6, 0x01, 0x08, 0x09, 0x0b,
    0x80, 0x8b, 0x00, 0x06, 0x80, 0xc0, 0x03, 0x0f, 0x06, 0x80, 0x9b, 0x03, 0x04, 0x00, 0x16,
    0x80, 0x41, 0x53, 0x81, 0x98, 0x80, 0x98, 0x80, 0x9e, 0x80, 0x98, 0x80, 0x9e, 0x80, 0x98,
    0x80, 0x9e, 0x80, 0x98, 0x80, 0x9e, 0x80, 0x98, 0x07, 0x81, 0xb1, 0x55, 0xff, 0x18, 0x9a,
    0x01, 0x00, 0x08, 0x80, 0x89, 0x03, 0x00, 0x00, 0x28, 0x18, 0x00, 0x00, 0x02, 0x01, 0x00,
    0x08, 0x00, 0x00, 0x00, 0x00, 0x01, 0x00, 0x0b, 0x06, 0x03, 0x03, 0x00, 0x80, 0x89, 0x80,
    0x90, 0x22, 0x04, 0x80, 0x90]"

definition unicode_prop_Other_Alphabetic_table :: "u8 list" where
  "unicode_prop_Other_Alphabetic_table =
   [0x43, 0x44, 0x80, 0x42, 0x69, 0x8d, 0x00, 0x01, 0x01, 0x00, 0xc7, 0x8a, 0xaf, 0x8c, 0x06,
    0x8f, 0x80, 0xe4, 0x33, 0x19, 0x0b, 0x80, 0xa2, 0x80, 0x9d, 0x8f, 0xe5, 0x8a, 0xe4, 0x0a,
    0x88, 0x02, 0x03, 0x40, 0xa6, 0x8b, 0x16, 0x85, 0x93, 0xb5, 0x09, 0x8e, 0x01, 0x22, 0x89,
    0x81, 0x9c, 0x82, 0xb9, 0x31, 0x09, 0x81, 0x89, 0x80, 0x89, 0x81, 0x9c, 0x82, 0xb9, 0x23,
    0x09, 0x0b, 0x80, 0x9d, 0x0a, 0x80, 0x8a, 0x82, 0xb9, 0x38, 0x10, 0x81, 0x94, 0x81, 0x95,
    0x13, 0x82, 0xb9, 0x31, 0x09, 0x81, 0x88, 0x81, 0x89, 0x81, 0x9d, 0x80, 0xba, 0x22, 0x10,
    0x82, 0x89, 0x80, 0xa7, 0x83, 0xb9, 0x30, 0x10, 0x17, 0x81, 0x8a, 0x81, 0x9c, 0x82, 0xb9,
    0x30, 0x10, 0x17, 0x81, 0x8a, 0x81, 0x9b, 0x83, 0xb9, 0x30, 0x10, 0x82, 0x89, 0x80, 0x89,
    0x81, 0x9c, 0x82, 0xca, 0x28, 0x00, 0x87, 0x91, 0x81, 0xbc, 0x01, 0x86, 0x91, 0x80, 0xe2,
    0x01, 0x28, 0x81, 0x8f, 0x80, 0x40, 0xa2, 0x90, 0x8a, 0x8a, 0x80, 0xa3, 0xed, 0x8b, 0x00,
    0x0b, 0x96, 0x1b, 0x10, 0x11, 0x32, 0x83, 0x8c, 0x8b, 0x00, 0x89, 0x83, 0x46, 0x73, 0x81,
    0x9d, 0x81, 0x9d, 0x81, 0x9d, 0x81, 0xc1, 0x92, 0x40, 0xbb, 0x81, 0xa1, 0x80, 0xf5, 0x8b,
    0x83, 0x88, 0x40, 0xdd, 0x84, 0xb8, 0x89, 0x81, 0x93, 0xc9, 0x81, 0xbe, 0x84, 0xaf, 0x8e,
    0xbb, 0x82, 0x9d, 0x88, 0x09, 0xb8, 0x8a, 0xb1, 0x92, 0x41, 0xaf, 0x8d, 0x46, 0xc0, 0xb3,
    0x48, 0xf5, 0x9f, 0x60, 0x78, 0x73, 0x87, 0xa1, 0x81, 0x41, 0x61, 0x07, 0x80, 0x96, 0x84,
    0xd7, 0x81, 0xb1, 0x8f, 0x00, 0xb8, 0x80, 0xa5, 0x84, 0x9b, 0x8b, 0xac, 0x83, 0xaf, 0x8b,
    0xa4, 0x80, 0xc2, 0x8d, 0x8b, 0x07, 0x81, 0xac, 0x82, 0xb1, 0x00, 0x11, 0x0c, 0x80, 0xab,
    0x24, 0x80, 0x40, 0xec, 0x87, 0x60, 0x4f, 0x32, 0x80, 0x48, 0x56, 0x84, 0x46, 0x85, 0x10,
    0x0c, 0x83, 0x43, 0x13, 0x83, 0x41, 0x82, 0x81, 0x41, 0x52, 0x82, 0xb4, 0x8d, 0xbb, 0x80,
    0xac, 0x88, 0xc6, 0x82, 0xa3, 0x8b, 0x91, 0x81, 0xb8, 0x82, 0xaf, 0x8c, 0x8d, 0x81, 0xdb,
    0x88, 0x08, 0x28, 0x40, 0x9f, 0x89, 0x96, 0x83, 0xb9, 0x31, 0x09, 0x81, 0x89, 0x80, 0x89,
    0x81, 0x40, 0xd0, 0x8c, 0x02, 0xe9, 0x91, 0x40, 0xec, 0x31, 0x86, 0x9c, 0x81, 0xd1, 0x8e,
    0x00, 0xe9, 0x8a, 0xe6, 0x8d, 0x41, 0x00, 0x8c, 0x40, 0xf6, 0x28, 0x09, 0x0a, 0x00, 0x80,
    0x40, 0x8d, 0x31, 0x2b, 0x80, 0x9b, 0x89, 0xa9, 0x20, 0x83, 0x91, 0x8a, 0xad, 0x8d, 0x41,
    0x96, 0x38, 0x86, 0xd2, 0x95, 0x80, 0x8d, 0xf9, 0x2a, 0x00, 0x08, 0x10, 0x02, 0x80, 0xc1,
    0x20, 0x08, 0x83, 0x41, 0x5b, 0x83, 0x60, 0x50, 0x57, 0x00, 0xb6, 0x33, 0xdc, 0x81, 0x60,
    0x4c, 0xab, 0x80, 0x60, 0x23, 0x60, 0x30, 0x90, 0x0e, 0x01, 0x04, 0x49, 0x1b, 0x80, 0x47,
    0xe7, 0x99, 0x85, 0x99, 0x85, 0x99]"

definition unicode_prop_Other_Lowercase_table :: "u8 list" where
  "unicode_prop_Other_Lowercase_table =
   [0x40, 0xa9, 0x80, 0x8e, 0x80, 0x41, 0xf4, 0x88, 0x31, 0x9d, 0x84, 0xdf, 0x80, 0xb3, 0x80,
    0x59, 0xb0, 0xbe, 0x8c, 0x80, 0xa1, 0xa4, 0x42, 0xb0, 0x80, 0x8c, 0x80, 0x8f, 0x8c, 0x40,
    0xd2, 0x8f, 0x43, 0x4f, 0x99, 0x47, 0x91, 0x81, 0x60, 0x7a, 0x1d, 0x81, 0x40, 0xd1, 0x80,
    0x40, 0x86, 0x81, 0x43, 0x61, 0x83]"

definition unicode_prop_Other_Uppercase_table :: "u8 list" where
  "unicode_prop_Other_Uppercase_table =
   [0x60, 0x21, 0x5f, 0x8f, 0x43, 0x45, 0x99, 0x61, 0xcc, 0x5f, 0x99, 0x85, 0x99, 0x85, 0x99]"

definition unicode_prop_Other_Grapheme_Extend_table :: "u8 list" where
  "unicode_prop_Other_Grapheme_Extend_table =
   [0x49, 0xbd, 0x80, 0x97, 0x80, 0x41, 0x65, 0x80, 0x97, 0x80, 0xe5, 0x80, 0x97, 0x80, 0x40,
    0xe9, 0x80, 0x91, 0x81, 0xe6, 0x80, 0x97, 0x80, 0xf6, 0x80, 0x8e, 0x80, 0x4d, 0x54, 0x80,
    0x44, 0xd5, 0x80, 0x50, 0x20, 0x81, 0x60, 0xcf, 0x6d, 0x81, 0x53, 0x9d, 0x80, 0x97, 0x80,
    0x41, 0x57, 0x80, 0x8b, 0x80, 0x40, 0xf0, 0x80, 0x43, 0x7f, 0x80, 0x60, 0xb8, 0x33, 0x07,
    0x84, 0x6c, 0x2e, 0xac, 0xdf]"

definition unicode_prop_Other_Default_Ignorable_Code_Point_table :: "u8 list" where
  "unicode_prop_Other_Default_Ignorable_Code_Point_table =
   [0x43, 0x4e, 0x80, 0x4e, 0x0e, 0x81, 0x46, 0x52, 0x81, 0x48, 0xae, 0x80, 0x50, 0xfd, 0x80,
    0x60, 0xce, 0x3a, 0x80, 0xce, 0x88, 0x6d, 0x00, 0x06, 0x00, 0x9d, 0xdf, 0xff, 0x40, 0xef,
    0x4e, 0x0f]"

definition unicode_prop_Other_ID_Start_table :: "u8 list" where
  "unicode_prop_Other_ID_Start_table =
   [0x58, 0x84, 0x81, 0x48, 0x90, 0x80, 0x94, 0x80, 0x4f, 0x6b, 0x81]"

definition unicode_prop_Other_ID_Continue_table :: "u8 list" where
  "unicode_prop_Other_ID_Continue_table =
   [0x40, 0xb6, 0x80, 0x42, 0xce, 0x80, 0x4f, 0xe0, 0x88, 0x46, 0x67, 0x80]"

definition unicode_prop_Prepended_Concatenation_Mark_table :: "u8 list" where
  "unicode_prop_Prepended_Concatenation_Mark_table =
   [0x45, 0xff, 0x85, 0x40, 0xd6, 0x80, 0xb0, 0x80, 0x41, 0xd1, 0x80, 0x61, 0x07, 0xd9, 0x80,
    0x8e, 0x80]"

definition unicode_prop_XID_Start1_table :: "u8 list" where
  "unicode_prop_XID_Start1_table =
   [0x43, 0x79, 0x80, 0x4a, 0xb7, 0x80, 0xfe, 0x80, 0x60, 0x21, 0xe6, 0x81, 0x60, 0xcb, 0xc0,
    0x85, 0x41, 0x95, 0x81, 0xf3, 0x00, 0x00, 0x00, 0x00, 0x00, 0x00, 0x00, 0x80, 0x41, 0x1e, 0x81]"

definition unicode_prop_XID_Continue1_table :: "u8 list" where
  "unicode_prop_XID_Continue1_table =
   [0x43, 0x79, 0x80, 0x60, 0x2d, 0x1f, 0x81, 0x60, 0xcb, 0xc0, 0x85, 0x41, 0x95, 0x81, 0xf3,
    0x00, 0x00, 0x00, 0x00, 0x00, 0x00, 0x00, 0x80]"

definition unicode_prop_Changes_When_Titlecased1_table :: "u8 list" where
  "unicode_prop_Changes_When_Titlecased1_table =
   [0x41, 0xc3, 0x08, 0x08, 0x81, 0xa4, 0x81, 0x4e, 0xdc, 0xaa, 0x0a, 0x4e, 0x87, 0x3f, 0x3f,
    0x87, 0x8b, 0x80, 0x8e, 0x80, 0xae, 0x80]"

definition unicode_prop_Changes_When_Casefolded1_table :: "u8 list" where
  "unicode_prop_Changes_When_Casefolded1_table =
   [0x40, 0xde, 0x80, 0xcf, 0x80, 0x97, 0x80, 0x44, 0x3c, 0x80, 0x59, 0x11, 0x80, 0x40, 0xe4,
    0x3f, 0x3f, 0x87, 0x89, 0x11, 0x05, 0x02, 0x11, 0x80, 0xa9, 0x11, 0x80, 0x60, 0xdb, 0x07,
    0x86, 0x8b, 0x84]"

definition unicode_prop_Changes_When_NFKC_Casefolded1_table :: "u8 list" where
  "unicode_prop_Changes_When_NFKC_Casefolded1_table =
   [0x40, 0x9f, 0x06, 0x00, 0x01, 0x00, 0x01, 0x12, 0x10, 0x82, 0x9f, 0x80, 0xcf, 0x01, 0x80,
    0x8b, 0x07, 0x80, 0xfb, 0x01, 0x01, 0x80, 0xa5, 0x80, 0x40, 0xbb, 0x88, 0x9e, 0x29, 0x84,
    0xda, 0x08, 0x81, 0x89, 0x80, 0xa3, 0x04, 0x02, 0x04, 0x08, 0x80, 0xc9, 0x82, 0x9c, 0x80,
    0x41, 0x93, 0x80, 0x40, 0x93, 0x80, 0xd7, 0x83, 0x42, 0xde, 0x87, 0xfb, 0x08, 0x80, 0xd2,
    0x01, 0x80, 0xa1, 0x11, 0x80, 0x40, 0xfc, 0x81, 0x42, 0xd4, 0x80, 0xfe, 0x80, 0xa7, 0x81,
    0xad, 0x80, 0xb5, 0x80, 0x88, 0x03, 0x03, 0x03, 0x80, 0x8b, 0x80, 0x88, 0x00, 0x26, 0x80,
    0x90, 0x80, 0x88, 0x03, 0x03, 0x03, 0x80, 0x8b, 0x80, 0x41, 0x41, 0x80, 0xe1, 0x81, 0x46,
    0x52, 0x81, 0xd4, 0x83, 0x45, 0x1c, 0x10, 0x8a, 0x80, 0x91, 0x80, 0x9b, 0x8c, 0x80, 0xa1,
    0xa4, 0x40, 0xd9, 0x80, 0x40, 0xd5, 0x00, 0x00, 0x00, 0x00, 0x00, 0x00, 0x01, 0x3f, 0x3f,
    0x87, 0x89, 0x11, 0x04, 0x00, 0x29, 0x04, 0x12, 0x80, 0x88, 0x12, 0x80, 0x88, 0x11, 0x11,
    0x04, 0x08, 0x8f, 0x00, 0x20, 0x8b, 0x12, 0x2a, 0x08, 0x0b, 0x00, 0x07, 0x82, 0x8c, 0x06,
    0x92, 0x81, 0x9a, 0x80, 0x8c, 0x8a, 0x80, 0xd6, 0x18, 0x10, 0x8a, 0x01, 0x0c, 0x0a, 0x00,
    0x10, 0x11, 0x02, 0x06, 0x05, 0x1c, 0x85, 0x8f, 0x8f, 0x8f, 0x88, 0x80, 0x40, 0xa1, 0x08,
    0x81, 0x40, 0xf7, 0x81, 0x41, 0x34, 0xd5, 0x99, 0x9a, 0x45, 0x20, 0x80, 0xe6, 0x82, 0xe4,
    0x80, 0x41, 0x9e, 0x81, 0x40, 0xf0, 0x80, 0x41, 0x2e, 0x80, 0xd2, 0x80, 0x8b, 0x40, 0xd5,
    0xa9, 0x80, 0xb4, 0x00, 0x82, 0xdf, 0x09, 0x80, 0xde, 0x80, 0xb0, 0xdd, 0x82, 0x8d, 0xdf,
    0x9e, 0x80, 0xa7, 0x87, 0xae, 0x80, 0x41, 0x7f, 0x60, 0x72, 0x9b, 0x81, 0x40, 0xd1, 0x80,
    0x40, 0x86, 0x81, 0x43, 0x61, 0x83, 0x88, 0x80, 0x60, 0x4d, 0x95, 0x41, 0x0d, 0x08, 0x00,
    0x81, 0x89, 0x00, 0x00, 0x09, 0x82, 0xc3, 0x81, 0xe9, 0xa5, 0x86, 0x8b, 0x24, 0x00, 0x97,
    0x04, 0x00, 0x01, 0x01, 0x80, 0xeb, 0xa0, 0x41, 0x6a, 0x91, 0xbf, 0x81, 0xb5, 0xa7, 0x8c,
    0x82, 0x99, 0x95, 0x94, 0x81, 0x8b, 0x80, 0x92, 0x03, 0x1a, 0x00, 0x80, 0x40, 0x86, 0x08,
    0x80, 0x9f, 0x99, 0x40, 0x83, 0x15, 0x0d, 0x0d, 0x0a, 0x16, 0x06, 0x80, 0x88, 0x60, 0xbc,
    0xa6, 0x83, 0x54, 0xb9, 0x86, 0x8d, 0x87, 0xbf, 0x85, 0x42, 0x3e, 0xd4, 0x80, 0xc6, 0x01,
    0x08, 0x09, 0x0b, 0x80, 0x8b, 0x00, 0x06, 0x80, 0xc0, 0x03, 0x0f, 0x06, 0x80, 0x9b, 0x03,
    0x04, 0x00, 0x16, 0x80, 0x41, 0x53, 0x81, 0x41, 0x23, 0x81, 0xb1, 0x55, 0xff, 0x18, 0x9a,
    0x01, 0x00, 0x08, 0x80, 0x89, 0x03, 0x00, 0x00, 0x28, 0x18, 0x00, 0x00, 0x02, 0x01, 0x00,
    0x08, 0x00, 0x00, 0x00, 0x00, 0x01, 0x00, 0x0b, 0x06, 0x03, 0x03, 0x00, 0x80, 0x89, 0x80,
    0x90, 0x22, 0x04, 0x80, 0x90, 0x42, 0x43, 0x8a, 0x84, 0x9e, 0x80, 0x9f, 0x99, 0x82, 0xa2,
    0x80, 0xee, 0x82, 0x8c, 0xab, 0x83, 0x88, 0x31, 0x49, 0x9d, 0x89, 0x60, 0xfc, 0x05, 0x42,
    0x1d, 0x6b, 0x05, 0xe1, 0x4f, 0xff]"

definition unicode_prop_ASCII_Hex_Digit_table :: "u8 list" where
  "unicode_prop_ASCII_Hex_Digit_table =
   [0xaf, 0x89, 0x35, 0x99, 0x85]"

definition unicode_prop_Bidi_Control_table :: "u8 list" where
  "unicode_prop_Bidi_Control_table =
   [0x46, 0x1b, 0x80, 0x59, 0xf0, 0x81, 0x99, 0x84, 0xb6, 0x83]"

definition unicode_prop_Dash_table :: "u8 list" where
  "unicode_prop_Dash_table =
   [0xac, 0x80, 0x45, 0x5b, 0x80, 0xb2, 0x80, 0x4e, 0x40, 0x80, 0x44, 0x04, 0x80, 0x48, 0x08,
    0x85, 0xbc, 0x80, 0xa6, 0x80, 0x8e, 0x80, 0x41, 0x85, 0x80, 0x4c, 0x03, 0x01, 0x80, 0x9e,
    0x0b, 0x80, 0x41, 0xda, 0x80, 0x92, 0x80, 0xee, 0x80, 0x60, 0xcd, 0x8f, 0x81, 0xa4, 0x80,
    0x89, 0x80, 0x40, 0xa8, 0x80, 0x4f, 0x9e, 0x80]"

definition unicode_prop_Deprecated_table :: "u8 list" where
  "unicode_prop_Deprecated_table =
   [0x41, 0x48, 0x80, 0x45, 0x28, 0x80, 0x49, 0x02, 0x00, 0x80, 0x48, 0x28, 0x81, 0x48, 0xc4,
    0x85, 0x42, 0xb8, 0x81, 0x6d, 0xdc, 0xd5, 0x80]"

definition unicode_prop_Diacritic_table :: "u8 list" where
  "unicode_prop_Diacritic_table =
   [0xdd, 0x00, 0x80, 0xc6, 0x05, 0x03, 0x01, 0x81, 0x41, 0xf6, 0x40, 0x9e, 0x07, 0x25, 0x90,
    0x0b, 0x80, 0x88, 0x81, 0x40, 0xfc, 0x84, 0x40, 0xd0, 0x80, 0xb6, 0x90, 0x80, 0x9a, 0x00,
    0x01, 0x00, 0x40, 0x85, 0x3b, 0x81, 0x40, 0x85, 0x0b, 0x0a, 0x82, 0xc2, 0x9a, 0xda, 0x8a,
    0xb9, 0x8a, 0xa1, 0x81, 0x40, 0xc8, 0x9b, 0xbc, 0x80, 0x8f, 0x02, 0x83, 0x9b, 0x80, 0xc9,
    0x80, 0x8f, 0x80, 0xed, 0x80, 0x8f, 0x80, 0xed, 0x80, 0x8f, 0x80, 0xae, 0x82, 0xbb, 0x80,
    0x8f, 0x06, 0x80, 0xf6, 0x80, 0xfe, 0x80, 0xed, 0x80, 0x8f, 0x80, 0xec, 0x81, 0x8f, 0x80,
    0xfb, 0x80, 0xfb, 0x28, 0x80, 0xea, 0x80, 0x8c, 0x84, 0xca, 0x81, 0x9a, 0x00, 0x00, 0x03,
    0x81, 0xc1, 0x10, 0x81, 0xbd, 0x80, 0xef, 0x00, 0x81, 0xa7, 0x0b, 0x84, 0x98, 0x30, 0x80,
    0x89, 0x81, 0x42, 0xc0, 0x82, 0x44, 0x68, 0x8a, 0x88, 0x80, 0x41, 0x5a, 0x82, 0x41, 0x38,
    0x39, 0x80, 0xaf, 0x8d, 0xf5, 0x80, 0x8e, 0x80, 0xa5, 0x88, 0xb5, 0x81, 0x40, 0x89, 0x81,
    0xbf, 0x85, 0xd1, 0x98, 0x18, 0x28, 0x0a, 0xb1, 0xbe, 0xd8, 0x8b, 0xa4, 0x22, 0x82, 0x41,
    0xbc, 0x00, 0x82, 0x8a, 0x82, 0x8c, 0x82, 0x8c, 0x82, 0x8c, 0x81, 0x4c, 0xef, 0x82, 0x41,
    0x3c, 0x80, 0x41, 0xf9, 0x85, 0xe8, 0x83, 0xde, 0x80, 0x60, 0x75, 0x71, 0x80, 0x8b, 0x08,
    0x80, 0x9b, 0x81, 0xd1, 0x81, 0x8d, 0xa1, 0xe5, 0x82, 0xec, 0x81, 0x40, 0xc9, 0x80, 0x9a,
    0x91, 0xb8, 0x83, 0xa3, 0x80, 0xde, 0x80, 0x8b, 0x80, 0xa3, 0x80, 0x40, 0x94, 0x82, 0xc0,
    0x83, 0xb2, 0x80, 0xe3, 0x84, 0x88, 0x82, 0xff, 0x81, 0x60, 0x4f, 0x2f, 0x80, 0x43, 0x00,
    0x8f, 0x41, 0x0d, 0x00, 0x80, 0xae, 0x80, 0xac, 0x81, 0xc2, 0x80, 0x42, 0xfb, 0x80, 0x48,
    0x03, 0x81, 0x42, 0x3a, 0x85, 0x42, 0x1d, 0x8a, 0x41, 0x67, 0x81, 0xf7, 0x81, 0xbd, 0x80,
    0xcb, 0x80, 0x88, 0x82, 0xe7, 0x81, 0x40, 0xb1, 0x81, 0xd0, 0x80, 0x8f, 0x80, 0x97, 0x32,
    0x84, 0x40, 0xcc, 0x02, 0x80, 0xfa, 0x81, 0x40, 0xfa, 0x81, 0xfd, 0x80, 0xf5, 0x81, 0xf2,
    0x80, 0x41, 0x0c, 0x81, 0x41, 0x01, 0x0b, 0x80, 0x40, 0x9b, 0x80, 0xd2, 0x80, 0x91, 0x80,
    0xd0, 0x80, 0x41, 0xa4, 0x80, 0x41, 0x01, 0x00, 0x81, 0xd0, 0x80, 0x60, 0x4d, 0x57, 0x84,
    0xba, 0x86, 0x44, 0x57, 0x90, 0xcf, 0x81, 0x60, 0x61, 0x74, 0x12, 0x2f, 0x39, 0x86, 0x9d,
    0x83, 0x4f, 0x81, 0x86, 0x41, 0xb4, 0x83, 0x45, 0xdf, 0x86, 0xec, 0x10, 0x82]"

definition unicode_prop_Extender_table :: "u8 list" where
  "unicode_prop_Extender_table =
   [0x40, 0xb6, 0x80, 0x42, 0x17, 0x81, 0x43, 0x6d, 0x80, 0x41, 0xb8, 0x80, 0x43, 0x59, 0x80,
    0x42, 0xef, 0x80, 0xfe, 0x80, 0x49, 0x42, 0x80, 0xb7, 0x80, 0x42, 0x62, 0x80, 0x41, 0x8d,
    0x80, 0xc3, 0x80, 0x53, 0x88, 0x80, 0xaa, 0x84, 0xe6, 0x81, 0xdc, 0x82, 0x60, 0x6f, 0x15,
    0x80, 0x45, 0xf5, 0x80, 0x43, 0xc1, 0x80, 0x95, 0x80, 0x40, 0x88, 0x80, 0xeb, 0x80, 0x94,
    0x81, 0x60, 0x54, 0x7a, 0x80, 0x53, 0xeb, 0x80, 0x42, 0x67, 0x82, 0x44, 0xce, 0x80, 0x60,
    0x50, 0xa8, 0x81, 0x44, 0x9b, 0x08, 0x80, 0x60, 0x71, 0x57, 0x81, 0x48, 0x05, 0x82]"

definition unicode_prop_Hex_Digit_table :: "u8 list" where
  "unicode_prop_Hex_Digit_table =
   [0xaf, 0x89, 0x35, 0x99, 0x85, 0x60, 0xfe, 0xa8, 0x89, 0x35, 0x99, 0x85]"

definition unicode_prop_IDS_Binary_Operator_table :: "u8 list" where
  "unicode_prop_IDS_Binary_Operator_table =
   [0x60, 0x2f, 0xef, 0x09, 0x87]"

definition unicode_prop_IDS_Trinary_Operator_table :: "u8 list" where
  "unicode_prop_IDS_Trinary_Operator_table =
   [0x60, 0x2f, 0xf1, 0x81]"

definition unicode_prop_Ideographic_table :: "u8 list" where
  "unicode_prop_Ideographic_table =
   [0x60, 0x30, 0x05, 0x81, 0x98, 0x88, 0x8d, 0x82, 0x43, 0xc4, 0x59, 0xbf, 0xbf, 0x60, 0x51,
    0xfc, 0x60, 0x59, 0x02, 0x41, 0x6d, 0x81, 0xe9, 0x60, 0x75, 0x09, 0x80, 0x9a, 0x57, 0xf7,
    0x87, 0x44, 0xd5, 0xa9, 0x88, 0x60, 0x24, 0x66, 0x41, 0x8b, 0x60, 0x4d, 0x03, 0x60, 0xa6,
    0xdd, 0xa1, 0x50, 0x34, 0x8a, 0x40, 0xdd, 0x81, 0x56, 0x81, 0x8d, 0x5d, 0x30, 0x4c, 0x1e,
    0x42, 0x1d, 0x45, 0xe1, 0x53, 0x4a]"

definition unicode_prop_Join_Control_table :: "u8 list" where
  "unicode_prop_Join_Control_table =
   [0x60, 0x20, 0x0b, 0x81]"

definition unicode_prop_Logical_Order_Exception_table :: "u8 list" where
  "unicode_prop_Logical_Order_Exception_table =
   [0x4e, 0x3f, 0x84, 0xfa, 0x84, 0x4a, 0xef, 0x11, 0x80, 0x60, 0x90, 0xf9, 0x09, 0x00, 0x81]"

definition unicode_prop_Noncharacter_Code_Point_table :: "u8 list" where
  "unicode_prop_Noncharacter_Code_Point_table =
   [0x60, 0xfd, 0xcf, 0x9f, 0x42, 0x0d, 0x81, 0x60, 0xff, 0xfd, 0x81, 0x60, 0xff, 0xfd, 0x81,
    0x60, 0xff, 0xfd, 0x81, 0x60, 0xff, 0xfd, 0x81, 0x60, 0xff, 0xfd, 0x81, 0x60, 0xff, 0xfd,
    0x81, 0x60, 0xff, 0xfd, 0x81, 0x60, 0xff, 0xfd, 0x81, 0x60, 0xff, 0xfd, 0x81, 0x60, 0xff,
    0xfd, 0x81, 0x60, 0xff, 0xfd, 0x81, 0x60, 0xff, 0xfd, 0x81, 0x60, 0xff, 0xfd, 0x81, 0x60,
    0xff, 0xfd, 0x81, 0x60, 0xff, 0xfd, 0x81, 0x60, 0xff, 0xfd, 0x81]"

definition unicode_prop_Pattern_Syntax_table :: "u8 list" where
  "unicode_prop_Pattern_Syntax_table =
   [0xa0, 0x8e, 0x89, 0x86, 0x99, 0x18, 0x80, 0x99, 0x83, 0xa1, 0x30, 0x00, 0x08, 0x00, 0x0b,
    0x03, 0x02, 0x80, 0x96, 0x80, 0x9e, 0x80, 0x5f, 0x17, 0x97, 0x87, 0x8e, 0x81, 0x92, 0x80,
    0x89, 0x41, 0x30, 0x42, 0xcf, 0x40, 0x9f, 0x42, 0x75, 0x9d, 0x44, 0x6b, 0x41, 0xff, 0xff,
    0x41, 0x80, 0x13, 0x98, 0x8e, 0x80, 0x60, 0xcd, 0x0c, 0x81, 0x41, 0x04, 0x81]"

definition unicode_prop_Pattern_White_Space_table :: "u8 list" where
  "unicode_prop_Pattern_White_Space_table =
   [0x88, 0x84, 0x91, 0x80, 0xe3, 0x80, 0x5f, 0x87, 0x81, 0x97, 0x81]"

definition unicode_prop_Quotation_Mark_table :: "u8 list" where
  "unicode_prop_Quotation_Mark_table =
   [0xa1, 0x03, 0x80, 0x40, 0x82, 0x80, 0x8e, 0x80, 0x5f, 0x5b, 0x87, 0x98, 0x81, 0x4e, 0x06,
    0x80, 0x41, 0xc8, 0x83, 0x8c, 0x82, 0x60, 0xce, 0x20, 0x83, 0x40, 0xbc, 0x03, 0x80, 0xd9, 0x81]"

definition unicode_prop_Radical_table :: "u8 list" where
  "unicode_prop_Radical_table =
   [0x60, 0x2e, 0x7f, 0x99, 0x80, 0xd8, 0x8b, 0x40, 0xd5]"

definition unicode_prop_Regional_Indicator_table :: "u8 list" where
  "unicode_prop_Regional_Indicator_table =
   [0x61, 0xf1, 0xe5, 0x99]"

definition unicode_prop_Sentence_Terminal_table :: "u8 list" where
  "unicode_prop_Sentence_Terminal_table =
   [0xa0, 0x80, 0x8b, 0x80, 0x8f, 0x80, 0x45, 0x48, 0x80, 0x40, 0x93, 0x81, 0x40, 0xb3, 0x80,
    0xaa, 0x82, 0x40, 0xf5, 0x80, 0xbc, 0x00, 0x02, 0x81, 0x41, 0x24, 0x81, 0x46, 0xe3, 0x81,
    0x43, 0x15, 0x03, 0x81, 0x43, 0x04, 0x80, 0x40, 0xc5, 0x81, 0x40, 0xcb, 0x04, 0x80, 0x41,
    0x39, 0x81, 0x41, 0x61, 0x83, 0x40, 0xad, 0x09, 0x81, 0x40, 0xda, 0x81, 0xc0, 0x81, 0x43,
    0xbb, 0x81, 0x88, 0x82, 0x4d, 0xe3, 0x80, 0x8c, 0x80, 0x41, 0xc4, 0x80, 0x60, 0x74, 0xfb,
    0x80, 0x41, 0x0d, 0x81, 0x40, 0xe2, 0x02, 0x80, 0x41, 0x7d, 0x81, 0xd5, 0x81, 0xde, 0x80,
    0x40, 0x97, 0x81, 0x40, 0x92, 0x82, 0x40, 0x8f, 0x81, 0x40, 0xf8, 0x80, 0x60, 0x52, 0x65,
    0x02, 0x81, 0x40, 0xa8, 0x80, 0x8b, 0x80, 0x8f, 0x80, 0xc0, 0x80, 0x4a, 0xf3, 0x81, 0x44,
    0xfc, 0x84, 0x40, 0xec, 0x81, 0xf4, 0x83, 0xfe, 0x82, 0x40, 0x80, 0x0d, 0x80, 0x8f, 0x81,
    0xd7, 0x08, 0x81, 0xeb, 0x80, 0x41, 0xa0, 0x81, 0x41, 0x74, 0x0c, 0x8e, 0xe8, 0x81, 0x40,
    0xf8, 0x82, 0x42, 0x04, 0x00, 0x80, 0x40, 0xfa, 0x81, 0xd6, 0x81, 0x41, 0xa3, 0x81, 0x42,
    0xb3, 0x81, 0x60, 0x4b, 0x74, 0x81, 0x40, 0x84, 0x80, 0xc0, 0x81, 0x8a, 0x80, 0x43, 0x52,
    0x80, 0x60, 0x4e, 0x05, 0x80, 0x5d, 0xe7, 0x80]"

definition unicode_prop_Soft_Dotted_table :: "u8 list" where
  "unicode_prop_Soft_Dotted_table =
   [0xe8, 0x81, 0x40, 0xc3, 0x80, 0x41, 0x18, 0x80, 0x9d, 0x80, 0xb3, 0x80, 0x93, 0x80, 0x41,
    0x3f, 0x80, 0xe1, 0x00, 0x80, 0x59, 0x08, 0x80, 0xb2, 0x80, 0x8c, 0x02, 0x80, 0x40, 0x83,
    0x80, 0x40, 0x9c, 0x80, 0x41, 0xa4, 0x80, 0x40, 0xd5, 0x81, 0x4b, 0x31, 0x80, 0x61, 0xa7,
    0xa4, 0x81, 0xb1, 0x81, 0xb1, 0x81, 0xb1, 0x81, 0xb1, 0x81, 0xb1, 0x81, 0xb1, 0x81, 0xb1,
    0x81, 0xb1, 0x81, 0xb1, 0x81, 0xb1, 0x81, 0xb1, 0x81, 0xb1, 0x81]"

definition unicode_prop_Terminal_Punctuation_table :: "u8 list" where
  "unicode_prop_Terminal_Punctuation_table =
   [0xa0, 0x80, 0x89, 0x00, 0x80, 0x8a, 0x0a, 0x80, 0x43, 0x3d, 0x07, 0x80, 0x42, 0x00, 0x80,
    0xb8, 0x80, 0xc7, 0x80, 0x8d, 0x01, 0x81, 0x40, 0xb3, 0x80, 0xaa, 0x8a, 0x00, 0x40, 0xea,
    0x81, 0xb5, 0x8e, 0x9e, 0x80, 0x41, 0x04, 0x81, 0x44, 0xf3, 0x81, 0x40, 0xab, 0x03, 0x85,
    0x41, 0x36, 0x81, 0x43, 0x14, 0x87, 0x43, 0x04, 0x80, 0xfb, 0x82, 0xc6, 0x81, 0x40, 0x9c,
    0x12, 0x80, 0xa6, 0x19, 0x81, 0x41, 0x39, 0x81, 0x41, 0x61, 0x83, 0x40, 0xad, 0x08, 0x82,
    0x40, 0xda, 0x84, 0xbd, 0x81, 0x43, 0xbb, 0x81, 0x88, 0x82, 0x4d, 0xe3, 0x80, 0x8c, 0x03,
    0x80, 0x89, 0x00, 0x81, 0x41, 0xb0, 0x81, 0x60, 0x74, 0xfa, 0x81, 0x41, 0x0c, 0x82, 0x40,
    0xe2, 0x84, 0x41, 0x7d, 0x81, 0xd5, 0x81, 0xde, 0x80, 0x40, 0x96, 0x82, 0x40, 0x92, 0x82,
    0xfe, 0x80, 0x8f, 0x81, 0x40, 0xf8, 0x80, 0x60, 0x52, 0x63, 0x10, 0x83, 0x40, 0xa8, 0x80,
    0x89, 0x00, 0x80, 0x8a, 0x0a, 0x80, 0xc0, 0x01, 0x80, 0x44, 0x39, 0x80, 0xaf, 0x80, 0x44,
    0x85, 0x80, 0x40, 0xc6, 0x80, 0x41, 0x35, 0x81, 0x40, 0x97, 0x85, 0xc3, 0x85, 0xd8, 0x83,
    0x43, 0xb7, 0x84, 0x40, 0xec, 0x86, 0xef, 0x83, 0xfe, 0x82, 0x40, 0x80, 0x0d, 0x80, 0x8f,
    0x81, 0xd7, 0x84, 0xeb, 0x80, 0x41, 0xa0, 0x82, 0x8b, 0x81, 0x41, 0x65, 0x1a, 0x8e, 0xe8,
    0x81, 0x40, 0xf8, 0x82, 0x42, 0x04, 0x00, 0x80, 0x40, 0xfa, 0x81, 0xd6, 0x0b, 0x81, 0x41,
    0x9d, 0x82, 0xac, 0x80, 0x42, 0x84, 0x81, 0x45, 0x76, 0x84, 0x60, 0x45, 0xf8, 0x81, 0x40,
    0x84, 0x80, 0xc0, 0x82, 0x89, 0x80, 0x43, 0x51, 0x81, 0x60, 0x4e, 0x05, 0x80, 0x5d, 0xe6, 0x83]"

definition unicode_prop_Unified_Ideograph_table :: "u8 list" where
  "unicode_prop_Unified_Ideograph_table =
   [0x60, 0x33, 0xff, 0x59, 0xbf, 0xbf, 0x60, 0x51, 0xfc, 0x60, 0x5a, 0x10, 0x08, 0x00, 0x81,
    0x89, 0x00, 0x00, 0x09, 0x82, 0x61, 0x05, 0xd5, 0x60, 0xa6, 0xdd, 0xa1, 0x50, 0x34, 0x8a,
    0x40, 0xdd, 0x81, 0x56, 0x81, 0x8d, 0x5d, 0x30, 0x54, 0x1e, 0x53, 0x4a]"

definition unicode_prop_Variation_Selector_table :: "u8 list" where
  "unicode_prop_Variation_Selector_table =
   [0x58, 0x0a, 0x82, 0x60, 0xe5, 0xf1, 0x8f, 0x6d, 0x02, 0xef, 0x40, 0xef]"

definition unicode_prop_White_Space_table :: "u8 list" where
  "unicode_prop_White_Space_table =
   [0x88, 0x84, 0x91, 0x80, 0xe3, 0x80, 0x99, 0x80, 0x55, 0xde, 0x80, 0x49, 0x7e, 0x8a, 0x9c,
    0x0c, 0x80, 0xae, 0x80, 0x4f, 0x9f, 0x80]"

definition unicode_prop_Bidi_Mirrored_table :: "u8 list" where
  "unicode_prop_Bidi_Mirrored_table =
   [0xa7, 0x81, 0x91, 0x00, 0x80, 0x9b, 0x00, 0x80, 0x9c, 0x00, 0x80, 0xac, 0x80, 0x8e, 0x80,
    0x4e, 0x7d, 0x83, 0x47, 0x5c, 0x81, 0x49, 0x9b, 0x81, 0x89, 0x81, 0xb5, 0x81, 0x8d, 0x81,
    0x40, 0xb0, 0x80, 0x40, 0xbf, 0x1a, 0x2a, 0x02, 0x0a, 0x18, 0x18, 0x00, 0x03, 0x88, 0x20,
    0x80, 0x91, 0x23, 0x88, 0x08, 0x00, 0x39, 0x9e, 0x0b, 0x20, 0x88, 0x09, 0x92, 0x21, 0x88,
    0x21, 0x0b, 0x97, 0x81, 0x8f, 0x3b, 0x93, 0x0e, 0x81, 0x44, 0x3c, 0x8d, 0xc9, 0x01, 0x18,
    0x08, 0x14, 0x1c, 0x12, 0x8d, 0x41, 0x92, 0x95, 0x0d, 0x80, 0x8d, 0x38, 0x35, 0x10, 0x1c,
    0x01, 0x0c, 0x18, 0x02, 0x09, 0x89, 0x29, 0x81, 0x8b, 0x92, 0x03, 0x08, 0x00, 0x08, 0x03,
    0x21, 0x2a, 0x97, 0x81, 0x8a, 0x0b, 0x18, 0x09, 0x0b, 0xaa, 0x0f, 0x80, 0xa7, 0x20, 0x00,
    0x14, 0x22, 0x18, 0x14, 0x00, 0x40, 0xff, 0x80, 0x42, 0x02, 0x1a, 0x08, 0x81, 0x8d, 0x09,
    0x89, 0x41, 0xdd, 0x89, 0x0f, 0x60, 0xce, 0x3c, 0x2c, 0x81, 0x40, 0xa1, 0x81, 0x91, 0x00,
    0x80, 0x9b, 0x00, 0x80, 0x9c, 0x00, 0x00, 0x08, 0x81, 0x60, 0xd7, 0x76, 0x80, 0xb8, 0x80,
    0xb8, 0x80, 0xb8, 0x80, 0xb8, 0x80]"

definition unicode_prop_Emoji_table :: "u8 list" where
  "unicode_prop_Emoji_table =
   [0xa2, 0x05, 0x04, 0x89, 0xee, 0x03, 0x80, 0x5f, 0x8c, 0x80, 0x8b, 0x80, 0x40, 0xd7, 0x80,
    0x95, 0x80, 0xd9, 0x85, 0x8e, 0x81, 0x41, 0x6e, 0x81, 0x8b, 0x80, 0x40, 0xa5, 0x80, 0x98,
    0x8a, 0x1a, 0x40, 0xc6, 0x80, 0x40, 0xe6, 0x81, 0x89, 0x80, 0x88, 0x80, 0xb9, 0x18, 0x84,
    0x88, 0x01, 0x01, 0x09, 0x03, 0x01, 0x00, 0x09, 0x02, 0x02, 0x0f, 0x14, 0x00, 0x04, 0x8b,
    0x8a, 0x09, 0x00, 0x08, 0x80, 0x91, 0x01, 0x81, 0x91, 0x28, 0x00, 0x0a, 0x0c, 0x01, 0x0b,
    0x81, 0x8a, 0x0c, 0x09, 0x04, 0x08, 0x00, 0x81, 0x93, 0x0c, 0x28, 0x19, 0x03, 0x01, 0x01,
    0x28, 0x01, 0x00, 0x00, 0x05, 0x02, 0x05, 0x80, 0x89, 0x81, 0x8e, 0x01, 0x03, 0x00, 0x03,
    0x10, 0x80, 0x8a, 0x81, 0xaf, 0x82, 0x88, 0x80, 0x8d, 0x80, 0x8d, 0x80, 0x41, 0x73, 0x81,
    0x41, 0xce, 0x82, 0x92, 0x81, 0xb2, 0x03, 0x80, 0x44, 0xd9, 0x80, 0x8b, 0x80, 0x42, 0x58,
    0x00, 0x80, 0x61, 0xbd, 0x69, 0x80, 0x40, 0xc9, 0x80, 0x40, 0x9f, 0x81, 0x8b, 0x81, 0x8d,
    0x01, 0x89, 0xca, 0x99, 0x01, 0x96, 0x80, 0x93, 0x01, 0x88, 0x94, 0x81, 0x40, 0xad, 0xa1,
    0x81, 0xef, 0x09, 0x02, 0x81, 0xd2, 0x0a, 0x80, 0x41, 0x06, 0x80, 0xbe, 0x8a, 0x28, 0x97,
    0x31, 0x0f, 0x8b, 0x01, 0x19, 0x03, 0x81, 0x8c, 0x09, 0x07, 0x81, 0x88, 0x04, 0x82, 0x8b,
    0x17, 0x11, 0x00, 0x03, 0x05, 0x02, 0x05, 0xd5, 0xaf, 0xc5, 0x27, 0x0a, 0x3d, 0x10, 0x01,
    0x10, 0x81, 0x89, 0x40, 0xe2, 0x8b, 0x41, 0x1f, 0xae, 0x80, 0x89, 0x80, 0xb1, 0x80, 0xd1,
    0x80, 0xb2, 0xef, 0x22, 0x14, 0x86, 0x88, 0x98, 0x36, 0x88, 0x82, 0x8c, 0x86]"

definition unicode_prop_Emoji_Component_table :: "u8 list" where
  "unicode_prop_Emoji_Component_table =
   [0xa2, 0x05, 0x04, 0x89, 0x5f, 0xd2, 0x80, 0x40, 0xd4, 0x80, 0x60, 0xdd, 0x2a, 0x80, 0x60,
    0xf3, 0xd5, 0x99, 0x41, 0xfa, 0x84, 0x45, 0xaf, 0x83, 0x6c, 0x06, 0x6b, 0xdf]"

definition unicode_prop_Emoji_Modifier_table :: "u8 list" where
  "unicode_prop_Emoji_Modifier_table =
   [0x61, 0xf3, 0xfa, 0x84]"

definition unicode_prop_Emoji_Modifier_Base_table :: "u8 list" where
  "unicode_prop_Emoji_Modifier_Base_table =
   [0x60, 0x26, 0x1c, 0x80, 0x40, 0xda, 0x80, 0x8f, 0x83, 0x61, 0xcc, 0x76, 0x80, 0xbb, 0x11,
    0x01, 0x82, 0xf4, 0x09, 0x8a, 0x94, 0x92, 0x10, 0x1a, 0x02, 0x30, 0x00, 0x97, 0x80, 0x40,
    0xc8, 0x0b, 0x80, 0x94, 0x03, 0x81, 0x40, 0xad, 0x12, 0x84, 0xd2, 0x80, 0x8f, 0x82, 0x88,
    0x80, 0x8a, 0x80, 0x42, 0x3e, 0x01, 0x07, 0x3d, 0x80, 0x88, 0x89, 0x0a, 0xb7, 0x80, 0xbc,
    0x08, 0x08, 0x80, 0x90, 0x10, 0x8c]"

definition unicode_prop_Emoji_Presentation_table :: "u8 list" where
  "unicode_prop_Emoji_Presentation_table =
   [0x60, 0x23, 0x19, 0x81, 0x40, 0xcc, 0x1a, 0x01, 0x80, 0x42, 0x08, 0x81, 0x94, 0x81, 0xb1,
    0x8b, 0xaa, 0x80, 0x92, 0x80, 0x8c, 0x07, 0x81, 0x90, 0x0c, 0x0f, 0x04, 0x80, 0x94, 0x06,
    0x08, 0x03, 0x01, 0x06, 0x03, 0x81, 0x9b, 0x80, 0xa2, 0x00, 0x03, 0x10, 0x80, 0xbc, 0x82,
    0x97, 0x80, 0x8d, 0x80, 0x43, 0x5a, 0x81, 0xb2, 0x03, 0x80, 0x61, 0xc4, 0xad, 0x80, 0x40,
    0xc9, 0x80, 0x40, 0xbd, 0x01, 0x89, 0xca, 0x99, 0x00, 0x97, 0x80, 0x93, 0x01, 0x20, 0x82,
    0x94, 0x81, 0x40, 0xad, 0xa0, 0x8b, 0x88, 0x80, 0xc5, 0x80, 0x95, 0x8b, 0xaa, 0x1c, 0x8b,
    0x90, 0x10, 0x82, 0xc6, 0x00, 0x80, 0x40, 0xba, 0x81, 0xbe, 0x8c, 0x18, 0x97, 0x91, 0x80,
    0x99, 0x81, 0x8c, 0x80, 0xd5, 0xd4, 0xaf, 0xc5, 0x28, 0x12, 0x0a, 0x92, 0x0e, 0x88, 0x40,
    0xe2, 0x8b, 0x41, 0x1f, 0xae, 0x80, 0x89, 0x80, 0xb1, 0x80, 0xd1, 0x80, 0xb2, 0xef, 0x22,
    0x14, 0x86, 0x88, 0x98, 0x36, 0x88, 0x82, 0x8c, 0x86]"

definition unicode_prop_Extended_Pictographic_table :: "u8 list" where
  "unicode_prop_Extended_Pictographic_table =
   [0x40, 0xa8, 0x03, 0x80, 0x5f, 0x8c, 0x80, 0x8b, 0x80, 0x40, 0xd7, 0x80, 0x95, 0x80, 0xd9,
    0x85, 0x8e, 0x81, 0x41, 0x6e, 0x81, 0x8b, 0x80, 0xde, 0x80, 0xc5, 0x80, 0x98, 0x8a, 0x1a,
    0x40, 0xc6, 0x80, 0x40, 0xe6, 0x81, 0x89, 0x80, 0x88, 0x80, 0xb9, 0x18, 0x28, 0x8b, 0x80,
    0xf1, 0x89, 0xf5, 0x81, 0x8a, 0x00, 0x00, 0x28, 0x10, 0x28, 0x89, 0x81, 0x8e, 0x01, 0x03,
    0x00, 0x03, 0x10, 0x80, 0x8a, 0x84, 0xac, 0x82, 0x88, 0x80, 0x8d, 0x80, 0x8d, 0x80, 0x41,
    0x73, 0x81, 0x41, 0xce, 0x82, 0x92, 0x81, 0xb2, 0x03, 0x80, 0x44, 0xd9, 0x80, 0x8b, 0x80,
    0x42, 0x58, 0x00, 0x80, 0x61, 0xbd, 0x65, 0x40, 0xff, 0x8c, 0x82, 0x9e, 0x80, 0xbb, 0x85,
    0x8b, 0x81, 0x8d, 0x01, 0x89, 0x91, 0xb8, 0x9a, 0x8e, 0x89, 0x80, 0x93, 0x01, 0x88, 0x03,
    0x88, 0x41, 0xb1, 0x84, 0x41, 0x3d, 0x87, 0x41, 0x09, 0xaf, 0xff, 0xf3, 0x8b, 0xd4, 0xaa,
    0x8b, 0x83, 0xb7, 0x87, 0x89, 0x85, 0xa7, 0x87, 0x9d, 0xd1, 0x8b, 0xae, 0x80, 0x89, 0x80,
    0x41, 0xb8, 0x40, 0xff, 0x43, 0xfd]"

definition unicode_prop_Default_Ignorable_Code_Point_table :: "u8 list" where
  "unicode_prop_Default_Ignorable_Code_Point_table =
   [0x40, 0xac, 0x80, 0x42, 0xa0, 0x80, 0x42, 0xcb, 0x80, 0x4b, 0x41, 0x81, 0x46, 0x52, 0x81,
    0xd4, 0x83, 0x47, 0xfb, 0x84, 0x99, 0x84, 0xb0, 0x8f, 0x50, 0xf3, 0x80, 0x60, 0xcc, 0x9a,
    0x8f, 0x40, 0xee, 0x80, 0x40, 0x9f, 0x80, 0xce, 0x88, 0x60, 0xbc, 0xa6, 0x83, 0x54, 0xce,
    0x87, 0x6c, 0x2e, 0x84, 0x4f, 0xff]"

definition unicode_prop_table :: "u8 list list" where
  "unicode_prop_table =
   [unicode_prop_Hyphen_table, unicode_prop_Other_Math_table,
    unicode_prop_Other_Alphabetic_table, unicode_prop_Other_Lowercase_table,
    unicode_prop_Other_Uppercase_table, unicode_prop_Other_Grapheme_Extend_table,
    unicode_prop_Other_Default_Ignorable_Code_Point_table, unicode_prop_Other_ID_Start_table,
    unicode_prop_Other_ID_Continue_table, unicode_prop_Prepended_Concatenation_Mark_table,
    unicode_prop_ID_Continue1_table, unicode_prop_XID_Start1_table,
    unicode_prop_XID_Continue1_table, unicode_prop_Changes_When_Titlecased1_table,
    unicode_prop_Changes_When_Casefolded1_table,
    unicode_prop_Changes_When_NFKC_Casefolded1_table, unicode_prop_ASCII_Hex_Digit_table,
    unicode_prop_Bidi_Control_table, unicode_prop_Dash_table, unicode_prop_Deprecated_table,
    unicode_prop_Diacritic_table, unicode_prop_Extender_table, unicode_prop_Hex_Digit_table,
    unicode_prop_IDS_Binary_Operator_table, unicode_prop_IDS_Trinary_Operator_table,
    unicode_prop_Ideographic_table, unicode_prop_Join_Control_table,
    unicode_prop_Logical_Order_Exception_table, unicode_prop_Noncharacter_Code_Point_table,
    unicode_prop_Pattern_Syntax_table, unicode_prop_Pattern_White_Space_table,
    unicode_prop_Quotation_Mark_table, unicode_prop_Radical_table,
    unicode_prop_Regional_Indicator_table, unicode_prop_Sentence_Terminal_table,
    unicode_prop_Soft_Dotted_table, unicode_prop_Terminal_Punctuation_table,
    unicode_prop_Unified_Ideograph_table, unicode_prop_Variation_Selector_table,
    unicode_prop_White_Space_table, unicode_prop_Bidi_Mirrored_table, unicode_prop_Emoji_table,
    unicode_prop_Emoji_Component_table, unicode_prop_Emoji_Modifier_table,
    unicode_prop_Emoji_Modifier_Base_table, unicode_prop_Emoji_Presentation_table,
    unicode_prop_Extended_Pictographic_table, unicode_prop_Default_Ignorable_Code_Point_table,
    unicode_prop_ID_Start_table, unicode_prop_Case_Ignorable_table]"

definition unicode_prop_len_table :: "u16 list" where
  "unicode_prop_len_table = map (\<lambda>t. of_nat (length t)) unicode_prop_table"

definition UNICODE_PROP_Hyphen :: nat where "UNICODE_PROP_Hyphen = 0"
definition UNICODE_PROP_Other_Math :: nat where "UNICODE_PROP_Other_Math = 1"
definition UNICODE_PROP_Other_Alphabetic :: nat where "UNICODE_PROP_Other_Alphabetic = 2"
definition UNICODE_PROP_Other_Lowercase :: nat where "UNICODE_PROP_Other_Lowercase = 3"
definition UNICODE_PROP_Other_Uppercase :: nat where "UNICODE_PROP_Other_Uppercase = 4"
definition UNICODE_PROP_Other_Grapheme_Extend :: nat where "UNICODE_PROP_Other_Grapheme_Extend = 5"
definition UNICODE_PROP_Other_Default_Ignorable_Code_Point :: nat where "UNICODE_PROP_Other_Default_Ignorable_Code_Point = 6"
definition UNICODE_PROP_Other_ID_Start :: nat where "UNICODE_PROP_Other_ID_Start = 7"
definition UNICODE_PROP_Other_ID_Continue :: nat where "UNICODE_PROP_Other_ID_Continue = 8"
definition UNICODE_PROP_Prepended_Concatenation_Mark :: nat where "UNICODE_PROP_Prepended_Concatenation_Mark = 9"
definition UNICODE_PROP_ID_Continue1 :: nat where "UNICODE_PROP_ID_Continue1 = 10"
definition UNICODE_PROP_XID_Start1 :: nat where "UNICODE_PROP_XID_Start1 = 11"
definition UNICODE_PROP_XID_Continue1 :: nat where "UNICODE_PROP_XID_Continue1 = 12"
definition UNICODE_PROP_Changes_When_Titlecased1 :: nat where "UNICODE_PROP_Changes_When_Titlecased1 = 13"
definition UNICODE_PROP_Changes_When_Casefolded1 :: nat where "UNICODE_PROP_Changes_When_Casefolded1 = 14"
definition UNICODE_PROP_Changes_When_NFKC_Casefolded1 :: nat where "UNICODE_PROP_Changes_When_NFKC_Casefolded1 = 15"
definition UNICODE_PROP_ASCII_Hex_Digit :: nat where "UNICODE_PROP_ASCII_Hex_Digit = 16"
definition UNICODE_PROP_Bidi_Control :: nat where "UNICODE_PROP_Bidi_Control = 17"
definition UNICODE_PROP_Dash :: nat where "UNICODE_PROP_Dash = 18"
definition UNICODE_PROP_Deprecated :: nat where "UNICODE_PROP_Deprecated = 19"
definition UNICODE_PROP_Diacritic :: nat where "UNICODE_PROP_Diacritic = 20"
definition UNICODE_PROP_Extender :: nat where "UNICODE_PROP_Extender = 21"
definition UNICODE_PROP_Hex_Digit :: nat where "UNICODE_PROP_Hex_Digit = 22"
definition UNICODE_PROP_IDS_Binary_Operator :: nat where "UNICODE_PROP_IDS_Binary_Operator = 23"
definition UNICODE_PROP_IDS_Trinary_Operator :: nat where "UNICODE_PROP_IDS_Trinary_Operator = 24"
definition UNICODE_PROP_Ideographic :: nat where "UNICODE_PROP_Ideographic = 25"
definition UNICODE_PROP_Join_Control :: nat where "UNICODE_PROP_Join_Control = 26"
definition UNICODE_PROP_Logical_Order_Exception :: nat where "UNICODE_PROP_Logical_Order_Exception = 27"
definition UNICODE_PROP_Noncharacter_Code_Point :: nat where "UNICODE_PROP_Noncharacter_Code_Point = 28"
definition UNICODE_PROP_Pattern_Syntax :: nat where "UNICODE_PROP_Pattern_Syntax = 29"
definition UNICODE_PROP_Pattern_White_Space :: nat where "UNICODE_PROP_Pattern_White_Space = 30"
definition UNICODE_PROP_Quotation_Mark :: nat where "UNICODE_PROP_Quotation_Mark = 31"
definition UNICODE_PROP_Radical :: nat where "UNICODE_PROP_Radical = 32"
definition UNICODE_PROP_Regional_Indicator :: nat where "UNICODE_PROP_Regional_Indicator = 33"
definition UNICODE_PROP_Sentence_Terminal :: nat where "UNICODE_PROP_Sentence_Terminal = 34"
definition UNICODE_PROP_Soft_Dotted :: nat where "UNICODE_PROP_Soft_Dotted = 35"
definition UNICODE_PROP_Terminal_Punctuation :: nat where "UNICODE_PROP_Terminal_Punctuation = 36"
definition UNICODE_PROP_Unified_Ideograph :: nat where "UNICODE_PROP_Unified_Ideograph = 37"
definition UNICODE_PROP_Variation_Selector :: nat where "UNICODE_PROP_Variation_Selector = 38"
definition UNICODE_PROP_White_Space :: nat where "UNICODE_PROP_White_Space = 39"
definition UNICODE_PROP_Bidi_Mirrored :: nat where "UNICODE_PROP_Bidi_Mirrored = 40"
definition UNICODE_PROP_Emoji :: nat where "UNICODE_PROP_Emoji = 41"
definition UNICODE_PROP_Emoji_Component :: nat where "UNICODE_PROP_Emoji_Component = 42"
definition UNICODE_PROP_Emoji_Modifier :: nat where "UNICODE_PROP_Emoji_Modifier = 43"
definition UNICODE_PROP_Emoji_Modifier_Base :: nat where "UNICODE_PROP_Emoji_Modifier_Base = 44"
definition UNICODE_PROP_Emoji_Presentation :: nat where "UNICODE_PROP_Emoji_Presentation = 45"
definition UNICODE_PROP_Extended_Pictographic :: nat where "UNICODE_PROP_Extended_Pictographic = 46"
definition UNICODE_PROP_Default_Ignorable_Code_Point :: nat where "UNICODE_PROP_Default_Ignorable_Code_Point = 47"
definition UNICODE_PROP_ID_Start :: nat where "UNICODE_PROP_ID_Start = 48"
definition UNICODE_PROP_Case_Ignorable :: nat where "UNICODE_PROP_Case_Ignorable = 49"
definition UNICODE_PROP_ASCII :: nat where "UNICODE_PROP_ASCII = 50"
definition UNICODE_PROP_Alphabetic :: nat where "UNICODE_PROP_Alphabetic = 51"
definition UNICODE_PROP_Any :: nat where "UNICODE_PROP_Any = 52"
definition UNICODE_PROP_Assigned :: nat where "UNICODE_PROP_Assigned = 53"
definition UNICODE_PROP_Cased :: nat where "UNICODE_PROP_Cased = 54"
definition UNICODE_PROP_Changes_When_Casefolded :: nat where "UNICODE_PROP_Changes_When_Casefolded = 55"
definition UNICODE_PROP_Changes_When_Casemapped :: nat where "UNICODE_PROP_Changes_When_Casemapped = 56"
definition UNICODE_PROP_Changes_When_Lowercased :: nat where "UNICODE_PROP_Changes_When_Lowercased = 57"
definition UNICODE_PROP_Changes_When_NFKC_Casefolded :: nat where "UNICODE_PROP_Changes_When_NFKC_Casefolded = 58"
definition UNICODE_PROP_Changes_When_Titlecased :: nat where "UNICODE_PROP_Changes_When_Titlecased = 59"
definition UNICODE_PROP_Changes_When_Uppercased :: nat where "UNICODE_PROP_Changes_When_Uppercased = 60"
definition UNICODE_PROP_Grapheme_Base :: nat where "UNICODE_PROP_Grapheme_Base = 61"
definition UNICODE_PROP_Grapheme_Extend :: nat where "UNICODE_PROP_Grapheme_Extend = 62"
definition UNICODE_PROP_ID_Continue :: nat where "UNICODE_PROP_ID_Continue = 63"
definition UNICODE_PROP_Lowercase :: nat where "UNICODE_PROP_Lowercase = 64"
definition UNICODE_PROP_Math :: nat where "UNICODE_PROP_Math = 65"
definition UNICODE_PROP_Uppercase :: nat where "UNICODE_PROP_Uppercase = 66"
definition UNICODE_PROP_XID_Continue :: nat where "UNICODE_PROP_XID_Continue = 67"
definition UNICODE_PROP_XID_Start :: nat where "UNICODE_PROP_XID_Start = 68"
definition UNICODE_PROP_Cased1 :: nat where "UNICODE_PROP_Cased1 = 69"
definition UNICODE_PROP_COUNT :: nat where "UNICODE_PROP_COUNT = 70"

definition unicode_prop_name_table_entries :: "string list" where
  "unicode_prop_name_table_entries =
   [''ASCII_Hex_Digit,AHex'', ''Bidi_Control,Bidi_C'', ''Dash'', ''Deprecated,Dep'',
    ''Diacritic,Dia'', ''Extender,Ext'', ''Hex_Digit,Hex'', ''IDS_Binary_Operator,IDSB'',
    ''IDS_Trinary_Operator,IDST'', ''Ideographic,Ideo'', ''Join_Control,Join_C'',
    ''Logical_Order_Exception,LOE'', ''Noncharacter_Code_Point,NChar'',
    ''Pattern_Syntax,Pat_Syn'', ''Pattern_White_Space,Pat_WS'', ''Quotation_Mark,QMark'',
    ''Radical'', ''Regional_Indicator,RI'', ''Sentence_Terminal,STerm'', ''Soft_Dotted,SD'',
    ''Terminal_Punctuation,Term'', ''Unified_Ideograph,UIdeo'', ''Variation_Selector,VS'',
    ''White_Space,space'', ''Bidi_Mirrored,Bidi_M'', ''Emoji'', ''Emoji_Component,EComp'',
    ''Emoji_Modifier,EMod'', ''Emoji_Modifier_Base,EBase'', ''Emoji_Presentation,EPres'',
    ''Extended_Pictographic,ExtPict'', ''Default_Ignorable_Code_Point,DI'', ''ID_Start,IDS'',
    ''Case_Ignorable,CI'', ''ASCII'', ''Alphabetic,Alpha'', ''Any'', ''Assigned'', ''Cased'',
    ''Changes_When_Casefolded,CWCF'', ''Changes_When_Casemapped,CWCM'',
    ''Changes_When_Lowercased,CWL'', ''Changes_When_NFKC_Casefolded,CWKCF'',
    ''Changes_When_Titlecased,CWT'', ''Changes_When_Uppercased,CWU'', ''Grapheme_Base,Gr_Base'',
    ''Grapheme_Extend,Gr_Ext'', ''ID_Continue,IDC'', ''Lowercase,Lower'', ''Math'',
    ''Uppercase,Upper'', ''XID_Continue,XIDC'', ''XID_Start,XIDS'']"

definition unicode_prop_name_table :: "char list" where
  "unicode_prop_name_table = name_table unicode_prop_name_table_entries"

end
