(* ===== verification/Unicode_Prop.thy ===== *)
theory Unicode_Prop
  imports Case_Conv Unicode_Prop_Tables
begin

unbundle bit_operations_syntax

text \<open>
  Sets of characters by Unicode property, from src/quickjs/libunicode.c: the search in the name
  tables, the decoders that fill a \<open>CharRange\<close> from the category table, from a property table and
  from the case conversion runs, the stack machine \<open>unicode_prop_ops\<close> and the entry points
  \<open>unicode_general_category\<close> and \<open>unicode_prop\<close>. Results are 0, -1 (out of memory) or -2 (unknown
  name) with the range; \<^term>\<open>None\<close> is an access outside an array or a failed assertion.
\<close>

section \<open>Names\<close>

definition c_string :: "char list \<Rightarrow> string option" where
  "c_string p = (if CHR 0x00 \<in> set p then Some (takeWhile (\<lambda>x. x \<noteq> CHR 0x00) p) else None)"

definition comma_at :: "string \<Rightarrow> nat option" where
  "comma_at s = (if CHR 0x2C \<in> set s then Some (length (takeWhile (\<lambda>x. x \<noteq> CHR 0x2C) s)) else None)"

text \<open>The inner loop over the aliases of one entry: the name was found, or the rest of the table.\<close>

function find_alias :: "char list \<Rightarrow> string \<Rightarrow> (bool \<times> char list) option" where
  "find_alias p name = do {
     s \<leftarrow> c_string p;
     let len = (case comma_at s of None \<Rightarrow> length s | Some k \<Rightarrow> k);
     if len = length name \<and> take len p = name then Some (True, p)
     else if comma_at s = None then Some (False, drop (len + 1) p)
     else find_alias (drop (len + 1) p) name }"
  by pat_completeness auto
termination
  by (relation "measure (\<lambda>(p, _). length p)") (auto simp: c_string_def split: if_splits dest!: length_pos_if_in_set)

declare find_alias.simps [simp del]

lemma find_alias_eq:
  assumes "c_string p = Some s" "len = (case comma_at s of None \<Rightarrow> length s | Some k \<Rightarrow> k)"
  shows "find_alias p name = (if len = length name \<and> take len p = name then Some (True, p)
     else if comma_at s = None then Some (False, drop (len + 1) p) else find_alias (drop (len + 1) p) name)"
  by (subst find_alias.simps) (simp only: assms Let_def Option.bind.simps)

lemma find_alias_shorter: "find_alias p name = Some (False, q) \<Longrightarrow> length q < length p"
proof (induction p name rule: find_alias.induct)
  case (1 p name)
  obtain s where s: "c_string p = Some s" using 1(2) by (subst (asm) find_alias.simps) (auto simp: bind_eq_Some_conv)
  then have p: "0 < length p" by (auto simp: c_string_def split: if_splits dest: length_pos_if_in_set)
  define len where "len = (case comma_at s of None \<Rightarrow> length s | Some k \<Rightarrow> k)"
  note eq = find_alias_eq [OF s len_def, of name]
  have no: "\<not> (len = length name \<and> take len p = name)" and
    q: "comma_at s = None \<and> q = drop (len + 1) p \<or> comma_at s \<noteq> None \<and> find_alias (drop (len + 1) p) name = Some (False, q)"
    using 1(2) unfolding eq by (auto split: if_splits)
  from q show ?case
  proof (elim disjE conjE)
    assume "comma_at s \<noteq> None" "find_alias (drop (len + 1) p) name = Some (False, q)"
    then have "length q < length (drop (len + 1) p)" using 1(1) [OF s len_def] no by blast
    then show ?thesis by simp
  qed (use p in simp)
qed

function find_name_loop :: "char list \<Rightarrow> int \<Rightarrow> string \<Rightarrow> int option" where
  "find_name_loop p pos name = do {
     c \<leftarrow> rd p 0;
     if c = CHR 0x00 then Some (-1)
     else (case find_alias p name of None \<Rightarrow> None
       | Some (found, q) \<Rightarrow> if found then Some pos else find_name_loop q (pos + 1) name) }"
  by pat_completeness auto
termination
  by (relation "measure (\<lambda>(p, _, _). length p)") (auto dest: find_alias_shorter)

declare find_name_loop.simps [simp del]

definition unicode_find_name :: "char list \<Rightarrow> string \<Rightarrow> int option" where
  "unicode_find_name tab name = find_name_loop tab 0 name"


section \<open>General categories\<close>

fun next_byte :: "u8 list \<Rightarrow> (u32 \<times> u8 list) option" where
  "next_byte [] = None"
| "next_byte (b # p) = Some (ucast b, p)"

definition M_gc :: "nat \<Rightarrow> u32" where
  "M_gc i = push_bit i 1"

text \<open>The length of a run: three bits, or one to three further bytes.\<close>

definition gc_run_len :: "u32 \<Rightarrow> u8 list \<Rightarrow> (u32 \<times> u8 list) option" where
  "gc_run_len n p =
     (if n = 7 then do {
        (n, p) \<leftarrow> next_byte p;
        if n < 128 then Some (n + 7, p)
        else if n < 128 + 64 then do {
          (x, p) \<leftarrow> next_byte p;
          Some ((push_bit 8 (n - 128) OR x) + (7 + 128), p) }
        else do {
          (x, p) \<leftarrow> next_byte p; (y, p) \<leftarrow> next_byte p;
          Some ((push_bit 16 (n - 128 - 64) OR push_bit 8 x OR y) + (7 + 128 + push_bit 14 1), p) } }
      else Some (n, p))"

lemma next_byte_length: "next_byte p = Some (x, q) \<Longrightarrow> length p = Suc (length q)"
  by (cases p) auto

lemma gc_run_len_length: "gc_run_len n p = Some (n', q) \<Longrightarrow> length q \<le> length p"
  by (cases p; cases "tl p"; cases "tl (tl p)") (auto simp: gc_run_len_def split: if_splits)

partial_function (option) every_other :: "'m CharRange \<Rightarrow> u32 \<Rightarrow> u32 \<Rightarrow> (int \<times> 'm CharRange) option" where
  "every_other cr c0 c =
     (if c0 < c then do {
        (r, cr) \<leftarrow> cr_add_interval cr c0 (c0 + 1);
        if r \<noteq> 0 then Some (-1, cr) else every_other cr (c0 + 2) c }
      else Some (0, cr))"

definition gc_add_run :: "u32 \<Rightarrow> 'm CharRange \<Rightarrow> u32 \<Rightarrow> u32 \<Rightarrow> u32 \<Rightarrow> (int \<times> 'm CharRange) option" where
  "gc_add_run gc_mask cr v c0 c =
     (if v = 31 then
        let b = gc_mask AND (M_gc UNICODE_GC_Lu OR M_gc UNICODE_GC_Ll) in
        if b \<noteq> 0 then
          if b = (M_gc UNICODE_GC_Lu OR M_gc UNICODE_GC_Ll) then cr_add_interval cr c0 c
          else every_other cr (c0 + (if gc_mask AND M_gc UNICODE_GC_Ll \<noteq> 0 then 1 else 0)) c
        else Some (0, cr)
      else if drop_bit (unat v) gc_mask AND 1 \<noteq> 0 then cr_add_interval cr c0 c
      else Some (0, cr))"

function gc_loop :: "u32 \<Rightarrow> 'm CharRange \<Rightarrow> u32 \<Rightarrow> u8 list \<Rightarrow> (int \<times> 'm CharRange) option" where
  "gc_loop gc_mask cr c [] = Some (0, cr)"
| "gc_loop gc_mask cr c (b0 # p) =
     (let b = ucast b0 in
      case gc_run_len (drop_bit 5 b) p of None \<Rightarrow> None
      | Some (n, q) \<Rightarrow> do {
          (r, cr) \<leftarrow> gc_add_run gc_mask cr (b AND 0x1f) c (c + (n + 1));
          if r \<noteq> 0 then Some (-1, cr) else gc_loop gc_mask cr (c + (n + 1)) q })"
  by pat_completeness auto
termination
  by (relation "measure (\<lambda>(_, _, _, p). length p)") (auto dest: gc_run_len_length)

definition unicode_general_category1 :: "'m CharRange \<Rightarrow> u32 \<Rightarrow> (int \<times> 'm CharRange) option" where
  "unicode_general_category1 cr gc_mask = gc_loop gc_mask cr 0 unicode_gc_table"


section \<open>Binary properties from a table\<close>

fun prop1_loop :: "'m CharRange \<Rightarrow> u32 \<Rightarrow> bool \<Rightarrow> u8 list \<Rightarrow> (int \<times> 'm CharRange) option" where
  "prop1_loop cr c inb [] = Some (0, cr)"
| "prop1_loop cr c inb (b0 # p) =
     (let b = ucast b0 :: u32 in
      if b < 64 then
        let c1 = c + (drop_bit 3 b + 1); c2 = c1 + ((b AND 7) + 1) in do {
          (r, cr) \<leftarrow> (if inb then cr_add_interval cr c c1 else Some (0, cr));
          if r \<noteq> 0 then Some (-1, cr)
          else do {
            (r, cr) \<leftarrow> (if \<not> inb then cr_add_interval cr c1 c2 else Some (0, cr));
            if r \<noteq> 0 then Some (-1, cr) else prop1_loop cr c2 inb p } }
      else if b \<ge> 0x80 then
        let c1 = c + (b - 0x80 + 1) in do {
          (r, cr) \<leftarrow> (if inb then cr_add_interval cr c c1 else Some (0, cr));
          if r \<noteq> 0 then Some (-1, cr) else prop1_loop cr c1 (\<not> inb) p }
      else if b < 0x60 then
        (case p of [] \<Rightarrow> None
         | p0 # p \<Rightarrow>
             let c1 = c + ((push_bit 8 (b - 0x40) OR ucast p0) + 1) in do {
               (r, cr) \<leftarrow> (if inb then cr_add_interval cr c c1 else Some (0, cr));
               if r \<noteq> 0 then Some (-1, cr) else prop1_loop cr c1 (\<not> inb) p })
      else
        (case p of p0 # p1 # p \<Rightarrow>
             let c1 = c + ((push_bit 16 (b - 0x60) OR push_bit 8 (ucast p0) OR ucast p1) + 1) in do {
               (r, cr) \<leftarrow> (if inb then cr_add_interval cr c c1 else Some (0, cr));
               if r \<noteq> 0 then Some (-1, cr) else prop1_loop cr c1 (\<not> inb) p }
         | _ \<Rightarrow> None))"

definition unicode_prop1 :: "'m CharRange \<Rightarrow> nat \<Rightarrow> (int \<times> 'm CharRange) option" where
  "unicode_prop1 cr prop_idx = do {
     p \<leftarrow> rd unicode_prop_table prop_idx;
     n \<leftarrow> rd unicode_prop_len_table prop_idx;
     t \<leftarrow> slice p 0 (unat n);
     prop1_loop cr 0 False t }"


section \<open>Characters changed by a case conversion\<close>

definition CASE_U :: u32 where "CASE_U = 1"
definition CASE_L :: u32 where "CASE_L = 2"
definition CASE_F :: u32 where "CASE_F = 4"

primrec run_num :: "RUN_TYPE \<Rightarrow> nat" where
  "run_num RUN_TYPE_U = 0" | "run_num RUN_TYPE_L = 1" | "run_num RUN_TYPE_UF = 2" | "run_num RUN_TYPE_LF = 3"
| "run_num RUN_TYPE_UL = 4" | "run_num RUN_TYPE_LSU = 5" | "run_num RUN_TYPE_U2L_399_EXT2 = 6"
| "run_num RUN_TYPE_UF_D20 = 7" | "run_num RUN_TYPE_UF_D1_EXT = 8" | "run_num RUN_TYPE_U_EXT = 9"
| "run_num RUN_TYPE_LF_EXT = 10" | "run_num RUN_TYPE_U_EXT2 = 11" | "run_num RUN_TYPE_L_EXT2 = 12"
| "run_num RUN_TYPE_U_EXT3 = 13"

definition MR :: "RUN_TYPE list \<Rightarrow> u32" where
  "MR ts = foldr (\<lambda>t m. push_bit (run_num t) 1 OR m) ts 0"

definition tab_run_mask :: "u32 list" where
  "tab_run_mask =
     [MR [RUN_TYPE_U, RUN_TYPE_UF, RUN_TYPE_UL, RUN_TYPE_LSU, RUN_TYPE_U2L_399_EXT2, RUN_TYPE_UF_D20,
          RUN_TYPE_UF_D1_EXT, RUN_TYPE_U_EXT, RUN_TYPE_U_EXT2, RUN_TYPE_U_EXT3],
      MR [RUN_TYPE_L, RUN_TYPE_LF, RUN_TYPE_UL, RUN_TYPE_LSU, RUN_TYPE_U2L_399_EXT2, RUN_TYPE_LF_EXT, RUN_TYPE_L_EXT2],
      MR [RUN_TYPE_UF, RUN_TYPE_LF, RUN_TYPE_UL, RUN_TYPE_LSU, RUN_TYPE_U2L_399_EXT2, RUN_TYPE_LF_EXT,
          RUN_TYPE_UF_D20, RUN_TYPE_UF_D1_EXT, RUN_TYPE_LF_EXT]]"

definition case_run_mask :: "u32 \<Rightarrow> u32" where
  "case_run_mask case_mask =
     fold (\<lambda>i mask. if drop_bit i case_mask AND 1 \<noteq> 0 then mask OR tab_run_mask ! i else mask) [0..<3] 0"

function ul_loop :: "'m CharRange \<Rightarrow> u32 \<Rightarrow> nat \<Rightarrow> nat \<Rightarrow> (int \<times> 'm CharRange) option" where
  "ul_loop cr code len i =
     (if i < len then do {
        (r, cr) \<leftarrow> cr_add_interval cr (code + of_nat i) (code + of_nat i + 1);
        if r \<noteq> 0 then Some (-1, cr) else ul_loop cr code len (i + 2) }
      else Some (0, cr))"
  by pat_completeness auto
termination by (relation "measure (\<lambda>(_, _, len, i). len - i)") auto

declare ul_loop.simps [simp del]

definition case1_run :: "u32 \<Rightarrow> u32 \<Rightarrow> 'm CharRange \<Rightarrow> u32 \<Rightarrow> (int \<times> 'm CharRange) option" where
  "case1_run case_mask rmask cr v =
     (let type = drop_bit 4 v AND 0xf; code = run_code v; len = run_len v;
          both = (case_mask AND CASE_U \<noteq> 0 \<and> case_mask AND (CASE_L OR CASE_F) \<noteq> 0) in
      if drop_bit (unat type) rmask AND 1 \<noteq> 0 then
        if run_type type = RUN_TYPE_UL \<and> \<not> both then
          ul_loop cr (code + (if case_mask AND CASE_U \<noteq> 0 then 1 else 0)) (unat len) 0
        else if run_type type = RUN_TYPE_LSU \<and> \<not> both then do {
          (r, cr) \<leftarrow> (if case_mask AND CASE_U = 0 then cr_add_interval cr code (code + 1) else Some (0, cr));
          if r \<noteq> 0 then Some (-1, cr)
          else do {
            (r, cr) \<leftarrow> cr_add_interval cr (code + 1) (code + 2);
            if r \<noteq> 0 then Some (-1, cr)
            else if case_mask AND CASE_U \<noteq> 0 then cr_add_interval cr (code + 2) (code + 3)
            else Some (0, cr) } }
        else cr_add_interval cr code (code + len)
      else Some (0, cr))"

fun case1_loop :: "u32 \<Rightarrow> u32 \<Rightarrow> 'm CharRange \<Rightarrow> u32 list \<Rightarrow> (int \<times> 'm CharRange) option" where
  "case1_loop case_mask rmask cr [] = Some (0, cr)"
| "case1_loop case_mask rmask cr (v # vs) = do {
     (r, cr) \<leftarrow> case1_run case_mask rmask cr v;
     if r \<noteq> 0 then Some (-1, cr) else case1_loop case_mask rmask cr vs }"

definition unicode_case1 :: "'m CharRange \<Rightarrow> u32 \<Rightarrow> (int \<times> 'm CharRange) option" where
  "unicode_case1 cr case_mask =
     (if case_mask = 0 then Some (0, cr)
      else case1_loop case_mask (case_run_mask case_mask) cr case_conv_table1)"


section \<open>The stack machine\<close>

datatype PropOPEnum = POP_GC u32 | POP_PROP nat | POP_CASE u32 | POP_UNION | POP_INTER | POP_XOR | POP_INVERT | POP_END

definition POP_STACK_LEN_MAX :: nat where "POP_STACK_LEN_MAX = 4"

text \<open>
  The ranges on the stack share the allocator of the result: its state is threaded through the calls
  and stored in the range an operation works on.
\<close>

definition fresh :: "'m CharRange \<Rightarrow> 'm \<Rightarrow> 'm CharRange" where
  "fresh cr m = cr_init (cr_realloc_func cr) m (Some (cr_realloc_func cr))"

definition pop_push :: "('m CharRange \<Rightarrow> (int \<times> 'm CharRange) option) \<Rightarrow> 'm CharRange \<Rightarrow> 'm \<Rightarrow> 'm CharRange list \<Rightarrow>
    (int \<times> 'm \<times> 'm CharRange list) option" where
  "pop_push fill cr m st =
     (if length st < POP_STACK_LEN_MAX then do {
        (r, x) \<leftarrow> fill (fresh cr m);
        Some (if r \<noteq> 0 then -1 else 0, mem_opaque x, st @ [x]) }
      else None)"

definition pop_binary :: "CharRangeOpEnum \<Rightarrow> 'm CharRange \<Rightarrow> 'm \<Rightarrow> 'm CharRange list \<Rightarrow>
    (int \<times> 'm \<times> 'm CharRange list) option" where
  "pop_binary op cr m st =
     (let n = length st in
      if n \<ge> 2 \<and> n < POP_STACK_LEN_MAX then do {
        let cr1 = st ! (n - 2); let cr2 = st ! (n - 1);
        a \<leftarrow> slice (pts cr1) 0 (cr_len cr1); b \<leftarrow> slice (pts cr2) 0 (cr_len cr2);
        (r, cr3) \<leftarrow> cr_op (fresh cr m) a b op;
        if r \<noteq> 0 then Some (-1, mem_opaque cr3, st @ [cr3])
        else do {
          let m = cr_free (cr1\<lparr>mem_opaque := mem_opaque cr3\<rparr>);
          let m = cr_free (cr2\<lparr>mem_opaque := m\<rparr>);
          Some (0, m, take (n - 2) st @ [cr3]) } }
      else None)"

definition pop_invert :: "'m \<Rightarrow> 'm CharRange list \<Rightarrow> (int \<times> 'm \<times> 'm CharRange list) option" where
  "pop_invert m st =
     (if length st \<ge> 1 then do {
        (r, x) \<leftarrow> cr_invert ((last st)\<lparr>mem_opaque := m\<rparr>);
        Some (if r \<noteq> 0 then -1 else 0, mem_opaque x, butlast st @ [x]) }
      else None)"

fun pop_step :: "'m CharRange \<Rightarrow> PropOPEnum \<Rightarrow> 'm \<Rightarrow> 'm CharRange list \<Rightarrow> (int \<times> 'm \<times> 'm CharRange list) option" where
  "pop_step cr (POP_GC a) m st = pop_push (\<lambda>x. unicode_general_category1 x a) cr m st"
| "pop_step cr (POP_PROP a) m st = pop_push (\<lambda>x. unicode_prop1 x a) cr m st"
| "pop_step cr (POP_CASE a) m st = pop_push (\<lambda>x. unicode_case1 x a) cr m st"
| "pop_step cr POP_UNION m st = pop_binary CR_OP_UNION cr m st"
| "pop_step cr POP_INTER m st = pop_binary CR_OP_INTER cr m st"
| "pop_step cr POP_XOR m st = pop_binary CR_OP_XOR cr m st"
| "pop_step cr POP_INVERT m st = pop_invert m st"
| "pop_step cr POP_END m st = Some (0, m, st)"

fun pop_loop :: "'m CharRange \<Rightarrow> PropOPEnum list \<Rightarrow> 'm \<Rightarrow> 'm CharRange list \<Rightarrow> (int \<times> 'm \<times> 'm CharRange list) option" where
  "pop_loop cr [] m st = None"
| "pop_loop cr (op # ops) m st =
     (if op = POP_END then Some (0, m, st)
      else do {
        (r, m, st) \<leftarrow> pop_step cr op m st;
        if r \<noteq> 0 then Some (-1, m, st) else pop_loop cr ops m st })"

definition unicode_prop_ops :: "'m CharRange \<Rightarrow> PropOPEnum list \<Rightarrow> (int \<times> 'm CharRange) option" where
  "unicode_prop_ops cr ops = do {
     (r, m, st) \<leftarrow> pop_loop cr ops (mem_opaque cr) [];
     if r = 0 then
       (case st of [x] \<Rightarrow> do {
            (ret, cr) \<leftarrow> cr_copy (cr\<lparr>mem_opaque := m\<rparr>) x;
            Some (ret, cr\<lparr>mem_opaque := cr_free (x\<lparr>mem_opaque := mem_opaque cr\<rparr>)\<rparr>) }
        | _ \<Rightarrow> None)
     else Some (-1, cr\<lparr>mem_opaque := fold (\<lambda>x m. cr_free (x\<lparr>mem_opaque := m\<rparr>)) st m\<rparr>) }"


section \<open>The entry points\<close>

definition unicode_gc_mask_table :: "u32 list" where
  "unicode_gc_mask_table =
     [M_gc UNICODE_GC_Lu OR M_gc UNICODE_GC_Ll OR M_gc UNICODE_GC_Lt,
      M_gc UNICODE_GC_Lu OR M_gc UNICODE_GC_Ll OR M_gc UNICODE_GC_Lt OR M_gc UNICODE_GC_Lm OR
         M_gc UNICODE_GC_Lo,
      M_gc UNICODE_GC_Mn OR M_gc UNICODE_GC_Mc OR M_gc UNICODE_GC_Me,
      M_gc UNICODE_GC_Nd OR M_gc UNICODE_GC_Nl OR M_gc UNICODE_GC_No,
      M_gc UNICODE_GC_Sm OR M_gc UNICODE_GC_Sc OR M_gc UNICODE_GC_Sk OR M_gc UNICODE_GC_So,
      M_gc UNICODE_GC_Pc OR M_gc UNICODE_GC_Pd OR M_gc UNICODE_GC_Ps OR M_gc UNICODE_GC_Pe OR
         M_gc UNICODE_GC_Pi OR M_gc UNICODE_GC_Pf OR M_gc UNICODE_GC_Po,
      M_gc UNICODE_GC_Zs OR M_gc UNICODE_GC_Zl OR M_gc UNICODE_GC_Zp,
      M_gc UNICODE_GC_Cc OR M_gc UNICODE_GC_Cf OR M_gc UNICODE_GC_Cs OR M_gc UNICODE_GC_Co OR
         M_gc UNICODE_GC_Cn]"

definition unicode_general_category :: "'m CharRange \<Rightarrow> string \<Rightarrow> (int \<times> 'm CharRange) option" where
  "unicode_general_category cr gc_name = do {
     gc_idx \<leftarrow> unicode_find_name unicode_gc_name_table gc_name;
     if gc_idx < 0 then Some (-2, cr)
     else do {
       gc_mask \<leftarrow> (if gc_idx \<le> int UNICODE_GC_Co then Some (push_bit (nat gc_idx) 1)
                  else rd unicode_gc_mask_table (nat gc_idx - UNICODE_GC_LC));
       unicode_general_category1 cr gc_mask } }"

text \<open>The arguments of the \<open>unicode_prop_ops\<close> calls in \<open>unicode_prop\<close>; \<^term>\<open>None\<close> for the other properties.\<close>

definition prop_program :: "nat \<Rightarrow> PropOPEnum list option" where
  "prop_program prop_idx =
     (if prop_idx = UNICODE_PROP_Assigned then Some
         [POP_GC (M_gc UNICODE_GC_Cn), POP_INVERT, POP_END]
      else if prop_idx = UNICODE_PROP_Math then Some
         [POP_GC (M_gc UNICODE_GC_Sm), POP_PROP UNICODE_PROP_Other_Math, POP_UNION, POP_END]
      else if prop_idx = UNICODE_PROP_Lowercase then Some
         [POP_GC (M_gc UNICODE_GC_Ll), POP_PROP UNICODE_PROP_Other_Lowercase, POP_UNION, POP_END]
      else if prop_idx = UNICODE_PROP_Uppercase then Some
         [POP_GC (M_gc UNICODE_GC_Lu), POP_PROP UNICODE_PROP_Other_Uppercase, POP_UNION, POP_END]
      else if prop_idx = UNICODE_PROP_Cased then Some
         [POP_GC (M_gc UNICODE_GC_Lu OR M_gc UNICODE_GC_Ll OR M_gc UNICODE_GC_Lt),
          POP_PROP UNICODE_PROP_Other_Uppercase, POP_UNION, POP_PROP UNICODE_PROP_Other_Lowercase,
          POP_UNION, POP_END]
      else if prop_idx = UNICODE_PROP_Alphabetic then Some
         [POP_GC (M_gc UNICODE_GC_Lu OR M_gc UNICODE_GC_Ll OR M_gc UNICODE_GC_Lt OR M_gc UNICODE_GC_Lm
          OR M_gc UNICODE_GC_Lo OR M_gc UNICODE_GC_Nl), POP_PROP UNICODE_PROP_Other_Uppercase,
          POP_UNION, POP_PROP UNICODE_PROP_Other_Lowercase, POP_UNION,
          POP_PROP UNICODE_PROP_Other_Alphabetic, POP_UNION, POP_END]
      else if prop_idx = UNICODE_PROP_Grapheme_Base then Some
         [POP_GC (M_gc UNICODE_GC_Cc OR M_gc UNICODE_GC_Cf OR M_gc UNICODE_GC_Cs OR M_gc UNICODE_GC_Co
          OR M_gc UNICODE_GC_Cn OR M_gc UNICODE_GC_Zl OR M_gc UNICODE_GC_Zp OR M_gc UNICODE_GC_Me OR
          M_gc UNICODE_GC_Mn), POP_PROP UNICODE_PROP_Other_Grapheme_Extend, POP_UNION, POP_INVERT,
          POP_END]
      else if prop_idx = UNICODE_PROP_Grapheme_Extend then Some
         [POP_GC (M_gc UNICODE_GC_Me OR M_gc UNICODE_GC_Mn),
          POP_PROP UNICODE_PROP_Other_Grapheme_Extend, POP_UNION, POP_END]
      else if prop_idx = UNICODE_PROP_XID_Start then Some
         [POP_GC (M_gc UNICODE_GC_Lu OR M_gc UNICODE_GC_Ll OR M_gc UNICODE_GC_Lt OR M_gc UNICODE_GC_Lm
          OR M_gc UNICODE_GC_Lo OR M_gc UNICODE_GC_Nl), POP_PROP UNICODE_PROP_Other_ID_Start,
          POP_UNION, POP_PROP UNICODE_PROP_Pattern_Syntax, POP_PROP UNICODE_PROP_Pattern_White_Space,
          POP_UNION, POP_PROP UNICODE_PROP_XID_Start1, POP_UNION, POP_INVERT, POP_INTER, POP_END]
      else if prop_idx = UNICODE_PROP_XID_Continue then Some
         [POP_GC (M_gc UNICODE_GC_Lu OR M_gc UNICODE_GC_Ll OR M_gc UNICODE_GC_Lt OR M_gc UNICODE_GC_Lm
          OR M_gc UNICODE_GC_Lo OR M_gc UNICODE_GC_Nl OR M_gc UNICODE_GC_Mn OR M_gc UNICODE_GC_Mc OR
          M_gc UNICODE_GC_Nd OR M_gc UNICODE_GC_Pc), POP_PROP UNICODE_PROP_Other_ID_Start, POP_UNION,
          POP_PROP UNICODE_PROP_Other_ID_Continue, POP_UNION, POP_PROP UNICODE_PROP_Pattern_Syntax,
          POP_PROP UNICODE_PROP_Pattern_White_Space, POP_UNION, POP_PROP UNICODE_PROP_XID_Continue1,
          POP_UNION, POP_INVERT, POP_INTER, POP_END]
      else if prop_idx = UNICODE_PROP_Changes_When_Titlecased then Some
         [POP_CASE CASE_U, POP_PROP UNICODE_PROP_Changes_When_Titlecased1, POP_XOR, POP_END]
      else if prop_idx = UNICODE_PROP_Changes_When_Casefolded then Some
         [POP_CASE CASE_F, POP_PROP UNICODE_PROP_Changes_When_Casefolded1, POP_XOR, POP_END]
      else if prop_idx = UNICODE_PROP_Changes_When_NFKC_Casefolded then Some
         [POP_CASE CASE_F, POP_PROP UNICODE_PROP_Changes_When_NFKC_Casefolded1, POP_XOR, POP_END]
      else if prop_idx = UNICODE_PROP_ID_Continue then Some
         [POP_PROP UNICODE_PROP_ID_Start, POP_PROP UNICODE_PROP_ID_Continue1, POP_XOR, POP_END]
      else None)"

definition unicode_prop :: "'m CharRange \<Rightarrow> string \<Rightarrow> (int \<times> 'm CharRange) option" where
  "unicode_prop cr prop_name = do {
     idx \<leftarrow> unicode_find_name unicode_prop_name_table prop_name;
     if idx < 0 then Some (-2, cr)
     else
       let prop_idx = nat idx + UNICODE_PROP_ASCII_Hex_Digit in
       if prop_idx = UNICODE_PROP_ASCII then cr_add_interval cr 0 (0x7f + 1)
       else if prop_idx = UNICODE_PROP_Any then cr_add_interval cr 0 (0x10ffff + 1)
       else if prop_idx = UNICODE_PROP_Changes_When_Uppercased then unicode_case1 cr CASE_U
       else if prop_idx = UNICODE_PROP_Changes_When_Lowercased then unicode_case1 cr CASE_L
       else if prop_idx = UNICODE_PROP_Changes_When_Casemapped then unicode_case1 cr (CASE_U OR CASE_L OR CASE_F)
       else case prop_program prop_idx of
         Some ops \<Rightarrow> unicode_prop_ops cr ops
       | None \<Rightarrow>
           if prop_idx \<ge> length unicode_prop_table then Some (-2, cr)
           else unicode_prop1 cr prop_idx }"

end
