(* ===== verification/Range_Fill.thy ===== *)
theory Range_Fill
  imports Unicode_Prop
begin

unbundle bit_operations_syntax

text \<open>
  Filling a \<open>CharRange\<close> with a list of intervals, the effect the decoders of src/quickjs/libunicode.c have
  in common: each of them is shown to add a list of intervals computed from its table, and this
  theory says what set the range holds then.
\<close>

section \<open>Adding a list of intervals\<close>

fun add_all :: "'m CharRange \<Rightarrow> (u32 \<times> u32) list \<Rightarrow> (int \<times> 'm CharRange) option" where
  "add_all cr [] = Some (0, cr)"
| "add_all cr ((a, b) # ivs) = do {
     (r, cr) \<leftarrow> cr_add_interval cr a b;
     if r \<noteq> 0 then Some (-1, cr) else add_all cr ivs }"

definition flat :: "('a \<times> 'a) list \<Rightarrow> 'a list" where
  "flat ivs = concat (map (\<lambda>(a, b). [a, b]) ivs)"

lemma flat_simps [simp]: "flat [] = []" "flat ((a, b) # ivs) = a # b # flat ivs" "flat (xs @ ys) = flat xs @ flat ys"
  by (simp_all add: flat_def)

lemma even_length_flat [simp]: "even (length (flat ivs))"
  by (induction ivs) auto

text \<open>The idiom of the code: return -1 when the call fails, else go on.\<close>

definition or_fail :: "(int \<times> 'm CharRange) option \<Rightarrow> ('m CharRange \<Rightarrow> (int \<times> 'm CharRange) option) \<Rightarrow> (int \<times> 'm CharRange) option" where
  "or_fail m f = do { (r, cr) \<leftarrow> m; if r \<noteq> 0 then Some (-1, cr) else f cr }"

lemma or_fail_simps [simp]: "or_fail None f = None" "or_fail (Some (0, cr)) f = f cr"
  "r \<noteq> 0 \<Longrightarrow> or_fail (Some (r, cr)) f = Some (-1, cr)"
  by (simp_all add: or_fail_def)

lemma or_fail_assoc: "or_fail (or_fail m f) g = or_fail m (\<lambda>cr. or_fail (f cr) g)"
proof (cases m)
  case (Some x)
  obtain r cr where "x = (r, cr)" by force
  then show ?thesis using Some by (cases "r = 0") simp_all
qed simp

lemma add_all_Cons: "add_all cr ((a, b) # ivs) = or_fail (cr_add_interval cr a b) (\<lambda>cr. add_all cr ivs)"
  by (simp add: or_fail_def)

lemma add_all_append: "add_all cr (xs @ ys) = or_fail (add_all cr xs) (\<lambda>cr. add_all cr ys)"
proof (induction xs arbitrary: cr)
  case (Cons x xs)
  then show ?case by (cases x) (simp only: append_Cons add_all_Cons or_fail_assoc)
qed simp

lemma add_one: "or_fail (add_all cr [(a, b)]) f = or_fail (cr_add_interval cr a b) f"
  by (simp only: add_all_Cons or_fail_assoc add_all.simps or_fail_simps)

lemma or_fail_all: "or_fail (add_all cr xs) (\<lambda>cr. Some (0, cr)) = add_all cr xs"
  using add_all_append [of cr xs "[]"] by simp

lemma add_all_fail: "add_all cr xs = Some (r, cr') \<Longrightarrow> r = 0 \<or> r = -1"
  by (induction xs arbitrary: cr) (auto simp: bind_eq_Some_conv split: if_splits)

lemma add_all_ok:
  "cr_wf cr \<Longrightarrow> ok (add_all cr ivs) (\<lambda>(r, cr'). cr_wf cr' \<and> (r = 0 \<and> cr_content cr' = cr_content cr @ flat ivs \<or> r = -1))"
proof (induction ivs arbitrary: cr)
  case (Cons iv ivs)
  obtain a b where iv: "iv = (a, b)" by force
  obtain r cr' where e: "cr_add_interval cr a b = Some (r, cr')" "cr_wf cr'"
    "r = 0 \<and> cr_content cr' = cr_content cr @ [a, b] \<or> r = -1"
    using cr_add_interval_ok [OF Cons.prems, of a b] by (auto simp: ok_conv)
  show ?case using Cons.IH [OF e(2)] e iv by (auto elim!: ok_mono)
qed simp

section \<open>Intervals of integers\<close>

definition wivs :: "(int \<times> int) list \<Rightarrow> (u32 \<times> u32) list" where
  "wivs = map (map_prod word_of_int word_of_int)"

lemma flat_wivs: "flat (wivs ivs) = map word_of_int (flat ivs)"
  by (induction ivs) (auto simp: wivs_def)

lemma wivs_simps [simp]: "wivs [] = []" "wivs ((a, b) # r) = (word_of_int a, word_of_int b) # wivs r" "wivs (x @ y) = wivs x @ wivs y"
  by (simp_all add: wivs_def)

text \<open>The points of a table as an array of a range.\<close>

lemma cnt_points:
  assumes "\<forall>p \<in> set ps. 0 \<le> p \<and> p < 2 ^ 32" shows "cnt (map word_of_int ps) c = pcount ps (uint c)"
  using assms by (induction ps) (auto simp: word_le_def uint_word_of_int)

lemma sorted_word_points:
  "sorted ps \<Longrightarrow> \<forall>p \<in> set ps. 0 \<le> p \<and> p < 2 ^ 32 \<Longrightarrow> sorted (map (word_of_int :: int \<Rightarrow> u32) ps)"
  by (induction ps) (auto simp: word_le_def uint_word_of_int)

lemma holds_points:
  assumes "sorted ps" "\<forall>p \<in> set ps. 0 \<le> p \<and> p < 2 ^ 32" "cr_wf cr" "cr_content cr = map word_of_int ps" "even (length ps)"
  shows "cr_holds cr {c. odd (pcount ps (uint c))}"
  using assms sorted_word_points [OF assms(1,2)] by (simp add: cr_holds_def cr_in_def cnt_points)

text \<open>Every other code point of a range.\<close>

function alt :: "int \<Rightarrow> int \<Rightarrow> (int \<times> int) list" where
  "alt a b = (if a < b then (a, a + 1) # alt (a + 2) b else [])"
  by pat_completeness auto
termination by (relation "measure (\<lambda>(a, b). nat (b - a))") auto

declare alt.simps [simp del]

lemma alt_points:
  "a \<le> b + 1 \<Longrightarrow> sorted (flat (alt a b)) \<and> (\<forall>p \<in> set (flat (alt a b)). a \<le> p \<and> p \<le> b) \<and>
   (c < b \<longrightarrow> odd (pcount (flat (alt a b)) c) = (a \<le> c \<and> even (c - a)))"
proof (induction a b rule: alt.induct)
  case (1 a b)
  show ?case
  proof (cases "a < b")
    case True
    have al: "alt a b = (a, a + 1) # alt (a + 2) b" using True by (subst alt.simps) simp
    have IH: "sorted (flat (alt (a + 2) b))" "\<forall>p \<in> set (flat (alt (a + 2) b)). a + 2 \<le> p \<and> p \<le> b"
      "c < b \<Longrightarrow> odd (pcount (flat (alt (a + 2) b)) c) = (a + 2 \<le> c \<and> even (c - (a + 2)))"
      using 1(1) [OF True] True by auto
    have "odd (pcount (flat (alt a b)) c) = (a \<le> c \<and> even (c - a))" if "c < b"
      using IH(3) [OF that] unfolding al by auto presburger+
    then show ?thesis using IH(1,2) True unfolding al by fastforce
  next
    case False
    then show ?thesis using 1(2) by (subst (1 2 3) alt.simps) auto
  qed
qed

lemma alt_trim: "even (b - a) \<Longrightarrow> alt a b = alt a (b - 1)"
proof (induction a b rule: alt.induct)
  case (1 a b)
  show ?case
  proof (cases "a < b")
    case True
    then have "a < b - 1" "even (b - (a + 2))" using 1(2) by presburger+
    then show ?thesis using True 1(1) by (subst (1 2) alt.simps) simp
  next
    case False
    then show ?thesis by (subst (1 2) alt.simps) simp
  qed
qed

lemma or_bytes2:
  assumes "k \<le> unat (b :: u8)" "k < 256"
  shows "uint (push_bit 8 ((ucast b :: u32) - of_nat k) OR ucast (x :: u8)) = (uint b - int k) * 256 + uint x"
proof -
  have 1: "unat ((ucast b :: u32) - of_nat k) = unat b - k" by (rule unat_sub_byte [OF assms])
  have 2: "unat (push_bit 8 ((ucast b :: u32) - of_nat k)) = (unat b - k) * 2 ^ 8"
    using unat_byte_less [of b] by (subst unat_push) (simp_all only: 1, simp)
  have "unat (push_bit 8 ((ucast b :: u32) - of_nat k) OR ucast x) = (unat b - k) * 256 + unat x"
    using nat_or_disjoint [of "unat x" 8 "unat b - k"] unat_byte_less [of x]
    by (simp only: unat_or 2 unat_ucast_u32) simp
  then show ?thesis using assms by (simp only: uint_nat) (simp add: of_nat_diff)
qed

lemma or_bytes3:
  assumes "k \<le> unat (b :: u8)" "k < 256"
  shows "uint (push_bit 16 ((ucast b :: u32) - of_nat k) OR push_bit 8 (ucast (x :: u8)) OR ucast (y :: u8)) =
     (uint b - int k) * 65536 + uint x * 256 + uint y"
proof -
  have 1: "unat ((ucast b :: u32) - of_nat k) = unat b - k" by (rule unat_sub_byte [OF assms])
  have 2: "unat (push_bit 16 ((ucast b :: u32) - of_nat k)) = (unat b - k) * 2 ^ 16"
    using unat_byte_less [of b] by (subst unat_push) (simp_all only: 1, simp)
  have 3: "unat (push_bit 8 (ucast x :: u32) OR ucast y) = unat x * 256 + unat y"
  proof -
    have "uint (push_bit 8 (ucast x :: u32) OR ucast y) = uint x * 256 + uint y" using or_bytes2 [of 0 x y] by simp
    then have "int (unat (push_bit 8 (ucast x :: u32) OR ucast y)) = int (unat x * 256 + unat y)"
      by (simp only: uint_nat of_nat_add of_nat_mult of_nat_numeral)
    then show ?thesis by (simp only: of_nat_eq_iff)
  qed
  have lt: "unat x * 256 + unat y < 2 ^ 16" using unat_byte_less [of x] unat_byte_less [of y] by simp
  have "unat (push_bit 16 ((ucast b :: u32) - of_nat k) OR push_bit 8 (ucast x) OR ucast y) =
      (unat b - k) * 65536 + (unat x * 256 + unat y)"
    using nat_or_disjoint [OF lt, of "unat b - k"] by (simp only: or.assoc unat_or [of "push_bit 16 _"] 2 3) simp
  then show ?thesis using assms by (simp only: uint_nat) (simp add: of_nat_diff)
qed

end
