(* ===== verification/Label_Runs.thy ===== *)
theory Label_Runs
  imports Range_Fill
begin

unbundle bit_operations_syntax

text \<open>
  Tables of labelled runs: consecutive runs of code points, each with a label, as the script tables of
  src/quickjs/libunicode-table.h hold them. The locale \<open>run_fill\<close> is the contract of a loop that decodes such a
  table and adds the runs with a wanted label to a range; its lemma gives the set the range then holds.
\<close>

section \<open>Runs\<close>

text \<open>Decoding with an operation that gives the label, the length of the run and the rest of the table.\<close>

function lruns :: "(int list \<Rightarrow> ('v \<times> int \<times> int list) option) \<Rightarrow> int \<Rightarrow> int list \<Rightarrow> (int \<times> int \<times> 'v) list option" where
  "lruns op c t =
     (if t = [] then Some []
      else case op t of None \<Rightarrow> None
           | Some (v, n, rest) \<Rightarrow>
               if 1 \<le> n \<and> length rest < length t then map_option ((#) (c, c + n, v)) (lruns op (c + n) rest) else None)"
  by pat_completeness auto
termination by (relation "measure (\<lambda>(_, _, t). length t)") auto

declare lruns.simps [simp del]

lemma lruns_Cons:
  assumes "lruns op c t = Some rs" "t \<noteq> []"
  obtains v n rest rs' where "op t = Some (v, n, rest)" "1 \<le> n" "length rest < length t"
    "lruns op (c + n) rest = Some rs'" "rs = (c, c + n, v) # rs'"
  using assms by (subst (asm) lruns.simps) (auto split: option.splits if_splits)

definition runs_end :: "int \<Rightarrow> (int \<times> int \<times> 'v) list \<Rightarrow> int" where
  "runs_end c rs = last (c # map (fst \<circ> snd) rs)"

lemma runs_end_simps [simp]: "runs_end c [] = c" "runs_end c ((a, b, v) # rs) = runs_end b rs"
  by (simp_all add: runs_end_def)

text \<open>The runs whose label is wanted, and the code points in them.\<close>

fun picked :: "('v \<Rightarrow> bool) \<Rightarrow> (int \<times> int \<times> 'v) list \<Rightarrow> (int \<times> int) list" where
  "picked P [] = []"
| "picked P ((a, b, v) # rs) = (if P v then [(a, b)] else []) @ picked P rs"

definition labelled :: "(int \<times> int \<times> 'v) list \<Rightarrow> ('v \<Rightarrow> bool) \<Rightarrow> u32 set" where
  "labelled rs P = {c. \<exists>(a, b, v) \<in> set rs. a \<le> uint c \<and> uint c < b \<and> P v}"

lemma lruns_order: "lruns op c t = Some rs \<Longrightarrow> c \<le> runs_end c rs \<and> (\<forall>(a, b, v) \<in> set rs. c \<le> a \<and> a < b \<and> b \<le> runs_end c rs)"
proof (induction op c t arbitrary: rs rule: lruns.induct)
  case (1 op c t)
  show ?case
  proof (cases "t = []")
    case True
    then show ?thesis using 1(2) by (simp add: lruns.simps)
  next
    case False
    obtain v n rest rs' where o: "op t = Some (v, n, rest)" "1 \<le> n" "length rest < length t"
      "lruns op (c + n) rest = Some rs'" "rs = (c, c + n, v) # rs'" by (rule lruns_Cons [OF 1(2) False])
    have "c + n \<le> runs_end (c + n) rs'" "\<forall>(a, b, v) \<in> set rs'. c + n \<le> a \<and> a < b \<and> b \<le> runs_end (c + n) rs'"
      using 1(1) [OF False o(1) refl refl _ o(4)] o(2,3) by blast+
    then show ?thesis using o(2,5) by fastforce
  qed
qed

lemma picked_points:
  "lruns op k t = Some rs \<Longrightarrow> sorted (flat (picked P rs)) \<and> (\<forall>p \<in> set (flat (picked P rs)). k \<le> p \<and> p \<le> runs_end k rs) \<and>
   odd (pcount (flat (picked P rs)) c) = (\<exists>(a, b, v) \<in> set rs. a \<le> c \<and> c < b \<and> P v)"
proof (induction op k t arbitrary: rs rule: lruns.induct)
  case (1 op k t)
  show ?case
  proof (cases "t = []")
    case True
    then show ?thesis using 1(2) by (simp add: lruns.simps)
  next
    case False
    obtain v n rest rs' where o: "op t = Some (v, n, rest)" "1 \<le> n" "length rest < length t"
      "lruns op (k + n) rest = Some rs'" "rs = (k, k + n, v) # rs'" by (rule lruns_Cons [OF 1(2) False])
    have IH: "sorted (flat (picked P rs'))" "\<forall>p \<in> set (flat (picked P rs')). k + n \<le> p \<and> p \<le> runs_end (k + n) rs'"
      "odd (pcount (flat (picked P rs')) c) = (\<exists>(a, b, v) \<in> set rs'. a \<le> c \<and> c < b \<and> P v)"
      using 1(1) [OF False o(1) refl refl _ o(4)] o(2,3) by blast+
    have le: "k + n \<le> runs_end (k + n) rs'" using lruns_order [OF o(4)] by blast
    have bounds: "\<forall>p \<in> set (flat (picked P rs)). k \<le> p \<and> p \<le> runs_end k rs"
      using IH(2) le o(2) by (auto simp: o(5) split: if_splits)
    have sorted: "sorted (flat (picked P rs))" using IH(1,2) o(2) by (auto simp: o(5) sorted_append)
    have none: "pcount (flat (picked P rs')) c = 0" if "c < k + n" using IH(2) that by (intro pcount_none) force
    have later: "\<not> (\<exists>(a, b, v) \<in> set rs'. a \<le> c \<and> c < b \<and> P v)" if "c < k + n" using lruns_order [OF o(4)] that by force
    have "odd (pcount (flat (picked P rs)) c) = (\<exists>(a, b, v) \<in> set rs. a \<le> c \<and> c < b \<and> P v)"
    proof (cases "c < k + n")
      case True
      then show ?thesis using none later o(2) by (auto simp: o(5))
    next
      case False
      then show ?thesis using IH(3) o(2) by (auto simp: o(5))
    qed
    then show ?thesis using bounds sorted by blast
  qed
qed


text \<open>The end of the last run, to be evaluated on the tables.\<close>

function lend :: "(int list \<Rightarrow> ('v \<times> int \<times> int list) option) \<Rightarrow> int \<Rightarrow> int list \<Rightarrow> int option" where
  "lend op c t =
     (if t = [] then Some c
      else case op t of None \<Rightarrow> None
           | Some (v, n, rest) \<Rightarrow> if 1 \<le> n \<and> length rest < length t then lend op (c + n) rest else None)"
  by pat_completeness auto
termination by (relation "measure (\<lambda>(_, _, t). length t)") auto

declare lend.simps [simp del]

lemma lend_runs: "lend op c t = Some e \<Longrightarrow> \<exists>rs. lruns op c t = Some rs \<and> runs_end c rs = e"
proof (induction op c t rule: lend.induct)
  case (1 op c t)
  show ?case
  proof (cases "t = []")
    case True
    then show ?thesis using 1(2) by (simp add: lruns.simps lend.simps)
  next
    case False
    then obtain v n rest where o: "op t = Some (v, n, rest)" "1 \<le> n \<and> length rest < length t" "lend op (c + n) rest = Some e"
      using 1(2) by (subst (asm) lend.simps) (auto split: option.splits if_splits)
    from 1(1) [OF False o(1) refl refl o(2,3)] obtain rs where "lruns op (c + n) rest = Some rs" "runs_end (c + n) rs = e" by blast
    then show ?thesis using False o by (subst lruns.simps) simp
  qed
qed

lemma lend_op:
  "map_option snd (op t) = Some (n, rest) \<Longrightarrow> 1 \<le> n \<Longrightarrow> length rest < length t \<Longrightarrow> lend op c t = lend op (c + n) rest"
  by (subst lend.simps) auto

lemma lend_cong: "c = c' \<Longrightarrow> lend op c t = lend op c' t"
  by simp

lemma lend_piece: "lend op c (map uint ([] @ r)) = lend op c (map uint r)" "lend op c (map uint []) = Some c"
  by (simp_all add: lend.simps)


section \<open>The contract of a decoding loop\<close>

locale run_fill =
  fixes op :: "int list \<Rightarrow> ('v \<times> int \<times> int list) option"
    and wanted :: "'v \<Rightarrow> bool"
    and loop :: "'m CharRange \<Rightarrow> u32 \<Rightarrow> u8 list \<Rightarrow> (int \<times> 'm CharRange) option"
  assumes loop_Nil: "loop cr c [] = Some (0, cr)"
    and loop_op: "op (map uint t) = Some (v, n, rest) \<Longrightarrow> 1 \<le> n \<Longrightarrow> uint c + n < 2 ^ 32 \<Longrightarrow>
      \<exists>t' c'. rest = map uint t' \<and> uint c' = uint c + n \<and>
        (\<forall>cr. loop cr c t = or_fail (add_all cr (if wanted v then [(c, c')] else [])) (\<lambda>cr. loop cr c' t'))"
begin

lemma loop_runs:
  "lruns op (uint c) (map uint t) = Some rs \<Longrightarrow> runs_end (uint c) rs < 2 ^ 32 \<Longrightarrow> loop cr c t = add_all cr (wivs (picked wanted rs))"
proof (induction "length t" arbitrary: t c cr rs rule: less_induct)
  case less
  show ?case
  proof (cases "t = []")
    case True
    then show ?thesis using less.prems by (simp add: lruns.simps loop_Nil)
  next
    case False
    then have ne: "map uint t \<noteq> []" by simp
    obtain v n rest rs' where o: "op (map uint t) = Some (v, n, rest)" "1 \<le> n" "length rest < length (map uint t)"
      "lruns op (uint c + n) rest = Some rs'" "rs = (uint c, uint c + n, v) # rs'"
      by (rule lruns_Cons [OF less.prems(1) ne])
    have small: "uint c + n < 2 ^ 32" using lruns_order [OF o(4)] less.prems(2) o(5) by simp
    obtain t' c' where t': "rest = map uint t'" "uint c' = uint c + n" and
      eq: "\<And>cr. loop cr c t = or_fail (add_all cr (if wanted v then [(c, c')] else [])) (\<lambda>cr. loop cr c' t')"
      using loop_op [OF o(1,2) small] by blast
    have IH: "loop x c' t' = add_all x (wivs (picked wanted rs'))" for x
      using less.hyps [of t' c' rs' x] o(3,4,5) t' less.prems(2) by simp
    have w: "wivs (picked wanted rs) = (if wanted v then [(c, c')] else []) @ wivs (picked wanted rs')"
      using t'(2) [symmetric] by (simp add: o(5))
    show ?thesis unfolding eq IH w add_all_append by simp
  qed
qed

lemma loop_holds:
  assumes rs: "lruns op 0 (map uint t) = Some rs" and small: "runs_end 0 rs < 2 ^ 32"
    and wf: "cr_wf cr" and empty: "cr_content cr = []"
  shows "ok (loop cr 0 t) (\<lambda>(r, cr'). cr_wf cr' \<and> (r = 0 \<and> cr_holds cr' (labelled rs wanted) \<or> r = -1))"
proof -
  let ?ps = "flat (picked wanted rs)"
  note pts = picked_points [OF rs, where P = wanted]
  have eq: "loop cr 0 t = add_all cr (wivs (picked wanted rs))" using loop_runs [of 0 t rs cr] rs small by simp
  have r: "sorted ?ps" "\<forall>p \<in> set ?ps. 0 \<le> p \<and> p < 2 ^ 32" using pts small by fastforce+
  have "{c. odd (pcount ?ps (uint c))} = labelled rs wanted" using pts by (auto simp: labelled_def)
  then show ?thesis unfolding eq
    using add_all_ok [OF wf, of "wivs (picked wanted rs)"] empty holds_points [OF r]
    by (auto simp: flat_wivs elim!: ok_mono)
qed

end

end
