(* ===== verification/Cr_Memory.thy ===== *)
theory Cr_Memory
  imports Range_Fill
begin

text \<open>
  When the range operations of src/quickjs/libunicode.c fail: they keep the allocator of the range, and they
  return an error only when an allocation was refused. With an allocator that never refuses every
  operation succeeds.
\<close>

definition never_fails :: "'m cr_alloc \<Rightarrow> bool" where
  "never_fails f \<longleftrightarrow> (\<forall>m p n. snd (f m p n) \<noteq> None)"

text \<open>A result: the allocator is kept, and with one that never fails the call succeeded.\<close>

definition kept :: "'m CharRange \<Rightarrow> int \<times> 'm CharRange \<Rightarrow> bool" where
  "kept cr x \<longleftrightarrow> cr_realloc_func (snd x) = cr_realloc_func cr \<and> (never_fails (cr_realloc_func cr) \<longrightarrow> fst x = 0)"

named_theorems keeps

lemma kept_refl [simp]: "kept cr (0, cr)"
  by (simp add: kept_def)

lemma cr_realloc_kept: "kept cr (cr_realloc cr n)"
proof (cases "n > cr_size cr")
  case True
  obtain m p where e: "cr_realloc_func cr (mem_opaque cr) (points cr) (max n (cr_size cr * 3 div 2)) = (m, p)" by force
  have "never_fails (cr_realloc_func cr) \<Longrightarrow> p \<noteq> None" using e unfolding never_fails_def by (metis snd_conv)
  then show ?thesis using True e by (cases p) (auto simp: kept_def cr_realloc_def Let_def)
qed (simp add: cr_realloc_def kept_def)

lemma put_point_keeps: "put_point cr i v = Some cr' \<Longrightarrow> cr_realloc_func cr' = cr_realloc_func cr"
  by (auto simp: put_point_def bind_eq_Some_conv)

lemma cr_add_point_kept [keeps]: "cr_add_point cr v = Some x \<Longrightarrow> kept cr x"
proof -
  let ?m = "if cr_len cr \<ge> cr_size cr then cr_realloc cr (cr_len cr + 1) else (0, cr)"
  obtain r cr1 where m: "?m = (r, cr1)" by force
  have k: "kept cr (r, cr1)" using cr_realloc_kept [of cr "cr_len cr + 1"] unfolding m [symmetric] by simp
  assume "cr_add_point cr v = Some x"
  then show ?thesis using k unfolding cr_add_point_def m prod.case
    by (auto simp: kept_def bind_eq_Some_conv split: if_splits dest!: put_point_keeps)
qed

lemma cr_add_interval_kept [keeps]: "cr_add_interval cr a b = Some x \<Longrightarrow> kept cr x"
proof -
  let ?m = "if cr_len cr + 2 > cr_size cr then cr_realloc cr (cr_len cr + 2) else (0, cr)"
  obtain r cr1 where m: "?m = (r, cr1)" by force
  have k: "kept cr (r, cr1)" using cr_realloc_kept [of cr "cr_len cr + 2"] unfolding m [symmetric] by simp
  assume "cr_add_interval cr a b = Some x"
  then show ?thesis using k unfolding cr_add_interval_def m prod.case
    by (auto simp: kept_def Let_def bind_eq_Some_conv split: if_splits dest!: put_point_keeps)
qed

lemma add_all_kept [keeps]: "add_all cr ivs = Some x \<Longrightarrow> kept cr x"
proof (induction ivs arbitrary: cr)
  case (Cons iv ivs)
  obtain a b where iv: "iv = (a, b)" by force
  obtain r cr1 where a: "cr_add_interval cr a b = Some (r, cr1)"
    and x: "(if r \<noteq> 0 then Some (-1, cr1) else add_all cr1 ivs) = Some x"
    using Cons.prems unfolding iv by (auto simp: bind_eq_Some_conv)
  show ?case using cr_add_interval_kept [OF a] Cons.IH [of cr1] x
    by (cases x) (auto simp: kept_def split: if_splits)
qed auto

lemma cr_compress_keeps: "cr_compress cr = Some cr' \<Longrightarrow> cr_realloc_func cr' = cr_realloc_func cr"
  by (auto simp: cr_compress_def bind_eq_Some_conv)

lemma cr_op_loop_kept: "cr_op_loop op a b i j cr = Some x \<Longrightarrow> kept cr x"
proof (induction op a b i j cr rule: cr_op_loop.induct)
  case (1 op a b i j cr)
  show ?case
  proof (cases "next_point a b i j")
    case None
    then show ?thesis using 1(3) by (subst (asm) cr_op_loop.simps) auto
  next
    case (Some y)
    obtain v i' j' where y: "y = (v, i', j')" by (cases y)
    show ?thesis
    proof (cases "is_in op (odd i') (odd j') \<noteq> odd (cr_len cr)")
      case True
      obtain r cr1 where a: "cr_add_point cr v = Some (r, cr1)"
        and x: "(if r \<noteq> 0 then Some (-1, cr1) else cr_op_loop op a b i' j' cr1) = Some x"
        using 1(3) Some y True by (subst (asm) cr_op_loop.simps) (auto simp: bind_eq_Some_conv)
      show ?thesis using cr_add_point_kept [OF a] 1(1) [OF Some y [symmetric] refl True a refl] x
        by (cases x) (auto simp: kept_def split: if_splits)
    next
      case False
      then show ?thesis using 1(3) Some y 1(2) [OF Some y [symmetric] refl False] by (subst (asm) cr_op_loop.simps) auto
    qed
  qed
qed

lemma cr_op_kept [keeps]: "cr_op cr a b op = Some x \<Longrightarrow> kept cr x"
proof -
  assume "cr_op cr a b op = Some x"
  then obtain r cr1 where l: "cr_op_loop op a b 0 0 cr = Some (r, cr1)"
    and x: "(if r \<noteq> 0 then Some (-1, cr1) else do { cr \<leftarrow> cr_compress cr1; Some (0, cr) }) = Some x"
    by (auto simp: cr_op_def bind_eq_Some_conv)
  show ?thesis using cr_op_loop_kept [OF l] x
    by (auto simp: kept_def bind_eq_Some_conv split: if_splits dest!: cr_compress_keeps)
qed

lemma cr_invert_kept [keeps]: "cr_invert cr = Some x \<Longrightarrow> kept cr x"
proof -
  assume i: "cr_invert cr = Some x"
  obtain r cr1 where m: "cr_realloc cr (cr_len cr + 2) = (r, cr1)" by force
  have k: "kept cr (r, cr1)" using cr_realloc_kept [of cr "cr_len cr + 2"] unfolding m .
  show ?thesis using i k unfolding cr_invert_def Let_def m prod.case
    by (auto simp: kept_def bind_eq_Some_conv split: if_splits dest!: cr_compress_keeps)
qed

lemma cr_copy_kept [keeps]: "cr_copy cr cr1 = Some x \<Longrightarrow> kept cr x"
proof -
  assume i: "cr_copy cr cr1 = Some x"
  obtain r cr2 where m: "cr_realloc cr (cr_len cr1) = (r, cr2)" by force
  have k: "kept cr (r, cr2)" using cr_realloc_kept [of cr "cr_len cr1"] unfolding m .
  show ?thesis using i k unfolding cr_copy_def m prod.case
    by (auto simp: kept_def bind_eq_Some_conv split: if_splits)
qed

text \<open>A call that returns 0 or -1, on a range whose allocator never fails.\<close>

lemma ok_no_failure:
  assumes "ok m (\<lambda>(r, cr'). Q r cr')" and "\<And>x. m = Some x \<Longrightarrow> kept cr x" and "never_fails (cr_realloc_func cr)"
  shows "ok m (\<lambda>(r, cr'). r = 0 \<and> Q 0 cr' \<and> cr_realloc_func cr' = cr_realloc_func cr)"
  using assms by (fastforce simp: ok_conv kept_def)

end
