(* ===== verification/Case_Set.thy ===== *)
theory Case_Set
  imports Range_Fill
begin

unbundle bit_operations_syntax

text \<open>
  \<open>unicode_case1\<close> of src/quickjs/libunicode.c builds the set of the characters a case conversion changes
  from the runs of the conversion table, without converting anything. This theory shows that it is
  the set of the characters \<open>lre_case_conv\<close> changes, for the masks the sources use.
\<close>

section \<open>What the conversion changes\<close>

text \<open>The characters of a run a conversion changes, by the type of the run and the offset in it.\<close>

fun changes :: "RUN_TYPE \<Rightarrow> u32 \<Rightarrow> int \<Rightarrow> bool" where
  "changes RUN_TYPE_U ct a = (ct = 0)"
| "changes RUN_TYPE_L ct a = (ct = 1)"
| "changes RUN_TYPE_UF ct a = (ct \<noteq> 1)"
| "changes RUN_TYPE_LF ct a = (ct \<noteq> 0)"
| "changes RUN_TYPE_UL ct a = (if ct = 0 then odd a else even a)"
| "changes RUN_TYPE_LSU ct a = (if ct = 0 then a = 1 \<or> a = 2 else a = 0 \<or> a = 1)"
| "changes RUN_TYPE_U2L_399_EXT2 ct a = True"
| "changes RUN_TYPE_UF_D20 ct a = (ct \<noteq> 1)"
| "changes RUN_TYPE_UF_D1_EXT ct a = (ct \<noteq> 1)"
| "changes RUN_TYPE_U_EXT ct a = (ct = 0)"
| "changes RUN_TYPE_LF_EXT ct a = (ct \<noteq> 0)"
| "changes RUN_TYPE_U_EXT2 ct a = (ct = 0)"
| "changes RUN_TYPE_L_EXT2 ct a = (ct = 1)"
| "changes RUN_TYPE_U_EXT3 ct a = (ct = 0)"

definition ext_at :: "u32 \<Rightarrow> u32" where
  "ext_at i = ucast (case_conv_ext ! unat i)"

text \<open>The condition on a run of the table under which its conversion really changes what it should.\<close>

definition run_changes :: "nat \<Rightarrow> u32 \<Rightarrow> u8 \<Rightarrow> bool" where
  "run_changes i v b = (let data = push_bit 8 (v AND 0xf) OR ucast b :: u32; type = drop_bit 4 v AND 0xf in
     run_len v \<noteq> 0 \<and> type \<le> 13 \<and>
     (case run_type type of
       RUN_TYPE_UL \<Rightarrow> even (unat (run_len v)) | RUN_TYPE_LSU \<Rightarrow> run_len v = 3
     | RUN_TYPE_U2L_399_EXT2 \<Rightarrow> ext_at (data AND 0x3f) \<noteq> run_code v
     | RUN_TYPE_UF_D20 \<Rightarrow> \<not> in_run v data \<and> \<not> in_run v (data + 0x20)
     | RUN_TYPE_UF_D1_EXT \<Rightarrow> \<not> in_run v (ext_at data) \<and> \<not> in_run v (ext_at data + 1)
     | RUN_TYPE_U_EXT \<Rightarrow> \<not> in_run v (ext_at data) | RUN_TYPE_LF_EXT \<Rightarrow> \<not> in_run v (ext_at data)
     | RUN_TYPE_U_EXT2 \<Rightarrow> True | RUN_TYPE_L_EXT2 \<Rightarrow> True | RUN_TYPE_U_EXT3 \<Rightarrow> True
     | _ \<Rightarrow> unat data \<noteq> i))"

fun check_runs :: "nat \<Rightarrow> u32 list \<Rightarrow> u8 list \<Rightarrow> bool" where
  "check_runs i (v # vs) (b # bs) \<longleftrightarrow> run_changes i v b \<and> check_runs (Suc i) vs bs"
| "check_runs i _ _ \<longleftrightarrow> True"

lemma check_runs_cong: "i = i' \<Longrightarrow> check_runs i vs bs = check_runs i' vs bs"
  by simp

lemma check_runs_nth:
  "check_runs i vs bs \<Longrightarrow> length vs = length bs \<Longrightarrow> j < length vs \<Longrightarrow> run_changes (i + j) (vs ! j) (bs ! j)"
proof (induction i vs bs arbitrary: j rule: check_runs.induct)
  case (1 i v vs b bs)
  then show ?case by (cases j) auto
qed auto

lemma table_runs_change: "check_runs 0 case_conv_table1 case_conv_table2"
  unfolding case_conv_table1_def case_conv_table2_def
  by (simp add: run_changes_def run_type_def Let_def run_code_def run_len_def in_run_def ext_at_def case_conv_ext_def
      cong: check_runs_cong)


lemma distinct_codes:
  assumes "i < 361" "j < 361" "i \<noteq> j"
  shows "run_code (case_conv_table1 ! i) \<noteq> run_code (case_conv_table1 ! j)"
proof -
  have pos: "unat (run_len (case_conv_table1 ! k)) > 0" if "k < 361" for k
    using check_runs_nth [OF table_runs_change, of k] that table_lengths
    by (auto simp: run_changes_def Let_def word_less_nat_alt unat_gt_0)
  have lt: "run_code (case_conv_table1 ! k) < run_code (case_conv_table1 ! l)" if "k < l" "l < 361" for k l
    using run_order [of k l] that table_lengths pos [of k] run_bounds(3) [of "case_conv_table1 ! k"]
    by (simp add: word_less_nat_alt word_le_nat_alt)
  show ?thesis using assms lt [of i j] lt [of j i] by (cases "i < j") auto
qed

lemma run_type_value:
  "run_type t = RUN_TYPE_U \<Longrightarrow> t = 0" "run_type t = RUN_TYPE_L \<Longrightarrow> t = 1" "run_type t = RUN_TYPE_UF \<Longrightarrow> t = 2"
  "run_type t = RUN_TYPE_LF \<Longrightarrow> t = 3" "run_type t = RUN_TYPE_UL \<Longrightarrow> t = 4" "run_type t = RUN_TYPE_LSU \<Longrightarrow> t = 5"
  "run_type t = RUN_TYPE_U2L_399_EXT2 \<Longrightarrow> t = 6" "run_type t = RUN_TYPE_UF_D20 \<Longrightarrow> t = 7"
  "run_type t = RUN_TYPE_UF_D1_EXT \<Longrightarrow> t = 8" "run_type t = RUN_TYPE_U_EXT \<Longrightarrow> t = 9" "run_type t = RUN_TYPE_LF_EXT \<Longrightarrow> t = 10"
  "run_type t = RUN_TYPE_U_EXT2 \<Longrightarrow> t = 11" "run_type t = RUN_TYPE_L_EXT2 \<Longrightarrow> t = 12"
  by (simp_all add: run_type_def split: if_splits)

lemma run_type_last: "run_type t = RUN_TYPE_U_EXT3 \<Longrightarrow> t \<le> 13 \<Longrightarrow> t = 13"
proof -
  assume t: "run_type t = RUN_TYPE_U_EXT3" "t \<le> 13"
  have "unat t \<noteq> k" if "k \<le> 12" for k
  proof
    assume "unat t = k"
    then have "t = of_nat k" by auto
    moreover have "k \<in> {0,1,2,3,4,5,6,7,8,9,10,11,12}" using that by (simp; arith)
    ultimately show False using t(1) by (auto simp: run_type_def split: if_splits)
  qed
  then have "\<not> unat t \<le> 12" by blast
  moreover have "unat t \<le> 13" using t(2) by (simp add: word_le_nat_alt)
  ultimately have "unat t = 13" by linarith
  then show "t = 13" by (simp add: word_unat_eq_iff)
qed

lemma conv_run_changes:
  assumes i: "i < 361" and v: "v = case_conv_table1 ! i" and c: "in_run v c" and ct: "ct \<in> {0, 1, 2}"
  shows "(conv_run c ct v i \<noteq> Some [c]) = changes (run_type (drop_bit 4 v AND 0xf)) ct (uint c - uint (run_code v))"
proof -
  define b where "b = case_conv_table2 ! i"
  have rd: "rd case_conv_table2 i = Some b" using i by (simp add: b_def table_lengths)
  have r: "run_ok v b" "run_changes i v b"
    using list_all2_nthD [OF runs_ok, of i] check_runs_nth [OF table_runs_change, of i] i v table_lengths by (simp_all add: b_def)
  define data where "data = (push_bit 8 (v AND 0xf) OR ucast b :: u32)"
  define a where "a = c - run_code v"
  have a: "unat a < 128" "c = run_code v + a" using run_offset [OF c] by (simp_all only: a_def)
  have ua: "uint c - uint (run_code v) = uint a"
    using c run_bounds [of v] by (simp add: a_def in_run_def uint_sub_if' word_le_def)
  note ro = r(1) [unfolded run_ok_def Let_def, folded data_def]
  note rc = r(2) [unfolded run_changes_def Let_def, folded data_def]
  note cr = conv_run_def [of c ct v i, unfolded rd Let_def Option.bind.simps, folded a_def data_def]
  have ext: "ext j = Some (ext_at j)" if "unat j < 58" for j using that by (simp add: ext_def ext_at_def table_lengths)
  have off: "a + e = c \<longleftrightarrow> e = run_code v" for e using a(2) by (metis add.commute add_left_cancel)
  have in_c: "e \<noteq> c" if "\<not> in_run v e" for e using c that by auto
  have small: "unat (w AND 0xf) < 58" for w :: u32
    using nat_and_mask [of "unat w" 4] by (simp only: unat_and) simp
  have "unat data < 0x1000" unfolding data_def by (rule run_data_small)
  then have top: "unat (drop_bit 8 data) < 58" by (simp only: unat_drop_bit) simp
  have tgt: "run_code (case_conv_table1 ! unat data) \<noteq> run_code v" if "unat data < 361" "unat data \<noteq> i"
    using distinct_codes [OF that(1) i that(2)] v by simp
  have low: "\<not> 2 \<le> drop_bit 4 v AND 15" if "run_type (drop_bit 4 v AND 0xf) = RUN_TYPE_L"
    using run_type_value(2) [OF that] by (simp add: word_le_def)
  show ?thesis unfolding ua
  proof (cases "run_type (drop_bit 4 v AND 0xf)")
    case RUN_TYPE_UL
    have par: "(a AND 1 = 1) = odd (uint a)" "(a AND 1 = 0) = even (uint a)"
      using bit_uint_iff [of a 0]
      by (simp_all add: and_one_eq odd_iff_mod_2_eq_one [symmetric] even_iff_mod_2_eq_zero [symmetric] bit_0)
    have "(a XOR 1) + run_code v \<noteq> c"
    proof
      assume "(a XOR 1) + run_code v = c"
      then have "a XOR 1 = a" using a(2) by (metis add.commute add_right_cancel)
      then have "bit (a XOR 1) 0 = bit a 0" by simp
      then show False by (simp only: bit_xor_iff) simp
    qed
    then show "(conv_run c ct v i \<noteq> Some [c]) = changes (run_type (drop_bit 4 v AND 0xf)) ct (uint a)"
      using RUN_TYPE_UL ct par by (auto simp: cr)
  next
    case RUN_TYPE_LSU
    have "unat c < unat (run_code v) + 3" using rc RUN_TYPE_LSU c run_bounds(3) [of v] by (simp add: in_run_def word_less_nat_alt)
    moreover have "unat (run_code v) \<le> unat c" "unat a = unat c - unat (run_code v)"
      using c by (simp_all add: in_run_def word_le_nat_alt a_def unat_sub)
    ultimately have "unat a < 3" by linarith
    then have "unat a = 0 \<or> unat a = 1 \<or> unat a = 2" by linarith
    then have "a = 0 \<or> a = 1 \<or> a = 2" by (simp add: word_unat_eq_iff)
    then show "(conv_run c ct v i \<noteq> Some [c]) = changes (run_type (drop_bit 4 v AND 0xf)) ct (uint a)"
      using RUN_TYPE_LSU ct by (auto simp: cr)
  qed (use ro rc ct tgt top small in_c [of data] in_c [of "data + 32"] in_c [of "ext_at data"] in_c [of "ext_at data + 1"] low in
    \<open>auto simp: cr off ext table_lengths dest: run_type_value\<close>)
qed

section \<open>What \<open>unicode_case1\<close> adds\<close>

lemma case_run_masks:
  "case_run_mask CASE_U = 0x2bf5" "case_run_mask CASE_L = 0x147a" "case_run_mask CASE_F = 0x5fc"
  "case_run_mask (CASE_U OR CASE_L OR CASE_F) = 0x3fff"
  by (simp_all add: case_run_mask_def tab_run_mask_def MR_def CASE_U_def CASE_L_def CASE_F_def upt_conv_Cons)

text \<open>The masks of the sources, with the conversions they stand for.\<close>

definition case_convs :: "u32 \<Rightarrow> u32 set" where
  "case_convs m = (if bit m 0 then {0} else {}) \<union> (if bit m 1 then {1} else {}) \<union> (if bit m 2 then {2} else {})"

definition case_ivs :: "u32 \<Rightarrow> u32 \<Rightarrow> (int \<times> int) list" where
  "case_ivs m v = (let type = drop_bit 4 v AND 0xf; code = uint (run_code v); len = uint (run_len v);
      both = (bit m 0 \<and> (bit m 1 \<or> bit m 2)) in
     if bit (case_run_mask m) (unat type) then
       if run_type type = RUN_TYPE_UL \<and> \<not> both then
         (if bit m 0 then alt (code + 1) (code + 1 + len) else alt code (code + len))
       else if run_type type = RUN_TYPE_LSU \<and> \<not> both then
         (if bit m 0 then [(code + 1, code + 2), (code + 2, code + 3)] else [(code, code + 1), (code + 1, code + 2)])
       else [(code, code + len)]
     else [])"

definition sources_masks :: "u32 set" where
  "sources_masks = {CASE_U, CASE_L, CASE_F, CASE_U OR CASE_L OR CASE_F}"

lemma mask_values: "m \<in> sources_masks \<Longrightarrow> m = 1 \<or> m = 2 \<or> m = 4 \<or> m = 7"
  by (auto simp: sources_masks_def CASE_U_def CASE_L_def CASE_F_def)

lemma masks_of: "case_run_mask 1 = 0x2bf5" "case_run_mask 2 = 0x147a" "case_run_mask 4 = 0x5fc" "case_run_mask 7 = 0x3fff"
  using case_run_masks by (simp_all add: CASE_U_def CASE_L_def CASE_F_def)

lemma convs_of: "case_convs 1 = {0}" "case_convs 2 = {1}" "case_convs 4 = {2}" "case_convs 7 = {0, 1, 2}"
  by (auto simp: case_convs_def)

lemma mask_changes:
  assumes "m \<in> sources_masks" "run_type t \<noteq> RUN_TYPE_UL" "run_type t \<noteq> RUN_TYPE_LSU" "t \<le> 13"
  shows "bit (case_run_mask m) (unat t) = (\<exists>ct \<in> case_convs m. changes (run_type t) ct a)"
  using mask_values [OF assms(1)] assms(2,3)
  by (cases "run_type t") (auto simp: masks_of convs_of dest!: run_type_value run_type_last [OF _ assms(4)])

lemma case_ivs_points:
  assumes m: "m \<in> sources_masks" and i: "i < 361" and v: "v = case_conv_table1 ! i"
  defines "k \<equiv> uint (run_code v)" and "l \<equiv> uint (run_len v)"
  shows "sorted (flat (case_ivs m v)) \<and> (\<forall>p \<in> set (flat (case_ivs m v)). k \<le> p \<and> p \<le> k + l) \<and>
    (k \<le> c \<and> c < k + l \<longrightarrow> odd (pcount (flat (case_ivs m v)) c) =
       (\<exists>ct \<in> case_convs m. changes (run_type (drop_bit 4 v AND 0xf)) ct (c - k)))"
proof -
  let ?t = "drop_bit 4 v AND 0xf :: u32"
  have rc: "run_changes i v (case_conv_table2 ! i)"
    using check_runs_nth [OF table_runs_change, of i] i v table_lengths by simp
  have t: "?t \<le> 13" using rc by (simp add: run_changes_def Let_def)
  have ul: "l = int (unat (run_len v))" unfolding l_def by (rule uint_nat)
  have l: "0 < l" "l < 128"
    using rc run_bounds(2) [of v] unfolding ul by (auto simp: run_changes_def Let_def unat_gt_0 simp del: of_nat_unat)
  show ?thesis
  proof (cases "run_type ?t = RUN_TYPE_UL \<or> run_type ?t = RUN_TYPE_LSU")
    case False
    then have iv: "case_ivs m v = (if (\<exists>ct \<in> case_convs m. changes (run_type ?t) ct (c - k)) then [(k, k + l)] else [])"
      using mask_changes [OF m _ _ t, of "c - k"] by (simp add: case_ivs_def Let_def k_def l_def)
    show ?thesis unfolding iv using l by auto
  next
    case True
    then show ?thesis
    proof
      assume ult: "run_type ?t = RUN_TYPE_UL"
      then have e: "even l" using rc unfolding ul(1) by (simp add: run_changes_def Let_def del: of_nat_unat)
      have t4: "unat ?t = 4" using run_type_value(5) [OF ult] by simp
      have odds: "alt (k + 1) (k + 1 + l) = alt (k + 1) (k + l)" using alt_trim [of "k + 1 + l" "k + 1"] e by simp
      have iv: "case_ivs m v = (if m = 7 then [(k, k + l)] else if m = 1 then alt (k + 1) (k + l) else alt k (k + l))"
        using mask_values [OF m] odds by (auto simp: case_ivs_def ult t4 masks_of Let_def k_def [symmetric] l_def [symmetric])
      have ch: "(\<exists>ct \<in> case_convs m. changes (run_type ?t) ct (c - k)) = (if m = 7 then True else if m = 1 then odd (c - k) else even (c - k))"
        using mask_values [OF m] by (auto simp: ult convs_of)
      have par: "k \<le> c \<Longrightarrow> (k + 1 \<le> c \<and> even (c - (k + 1))) = odd (c - k)" by presburger
      show ?thesis unfolding iv ch using alt_points [of "k + 1" "k + l" c] alt_points [of k "k + l" c] par l by auto
    next
      assume lsu: "run_type ?t = RUN_TYPE_LSU"
      then have l3: "l = 3" using rc by (simp add: run_changes_def Let_def l_def)
      have t5: "unat ?t = 5" using run_type_value(6) [OF lsu] by simp
      show ?thesis using mask_values [OF m] by (auto simp: case_ivs_def lsu t5 masks_of convs_of Let_def k_def [symmetric] l_def [symmetric] l3)
    qed
  qed
qed

lemma ul_loop_alt:
  "uint code + int len + 2 < 2 ^ 32 \<Longrightarrow> i \<le> len + 1 \<Longrightarrow>
   ul_loop cr code len i = add_all cr (wivs (alt (uint code + int i) (uint code + int len)))"
proof (induction "len - i" arbitrary: cr i rule: less_induct)
  case (less i cr)
  have w: "code + of_nat i = word_of_int (uint code + int i)" "word_of_int (uint code + int i) + 1 = (word_of_int (uint code + int i + 1) :: u32)" by simp_all
  show ?case
  proof (cases "i < len")
    case True
    have "ul_loop x code len (i + 2) = add_all x (wivs (alt (uint code + int (i + 2)) (uint code + int len)))" for x :: "'a CharRange"
      using less.prems True by (intro less.hyps) simp_all
    then have "ul_loop x code len (i + 2) = add_all x (wivs (alt (uint code + int i + 2) (uint code + int len)))" for x :: "'a CharRange"
      by (simp only: of_nat_add of_nat_numeral add.assoc)
    moreover have "ul_loop cr code len i = or_fail (cr_add_interval cr (code + of_nat i) (code + of_nat i + 1)) (\<lambda>cr. ul_loop cr code len (i + 2))"
      using True by (subst ul_loop.simps) (simp only: or_fail_def if_True)
    moreover have "alt (uint code + int i) (uint code + int len) =
        (uint code + int i, uint code + int i + 1) # alt (uint code + int i + 2) (uint code + int len)"
      using True by (subst alt.simps) simp
    ultimately show ?thesis by (simp only: wivs_simps add_all_Cons w)
  next
    case False
    then show ?thesis by (subst ul_loop.simps, subst alt.simps) simp
  qed
qed

lemma case1_run_ivs:
  assumes m: "m \<in> sources_masks"
  shows "or_fail (case1_run m (case_run_mask m) cr v) f = or_fail (add_all cr (wivs (case_ivs m v))) f"
proof -
  let ?k = "uint (run_code v)" and ?t = "drop_bit 4 v AND 0xf :: u32"
  have k: "?k < 2 ^ 17" "uint (run_len v) < 2 ^ 7" using run_bounds [of v] by (simp_all only: uint_less_pow)
  have ln: "int (unat (run_len v)) = uint (run_len v)" by (rule uint_nat [symmetric])
  have b: "(drop_bit (unat ?t) rm AND 1 \<noteq> 0) = bit rm (unat ?t)" for rm :: u32
    by (simp add: and_one_eq bit_iff_odd_drop_bit odd_iff_mod_2_eq_one)
  have loop0: "ul_loop cr (run_code v) (unat (run_len v)) 0 = add_all cr (wivs (alt ?k (?k + uint (run_len v))))"
    using ul_loop_alt [of "run_code v" "unat (run_len v)" 0 cr] k ln by simp
  have "uint (run_code v + 1) = ?k + 1" using uint_add_small [of "run_code v" 1] k by simp
  then have loop1: "ul_loop cr (run_code v + 1) (unat (run_len v)) 0 = add_all cr (wivs (alt (?k + 1) (?k + 1 + uint (run_len v))))"
    using ul_loop_alt [of "run_code v + 1" "unat (run_len v)" 0 cr] k ln by simp
  have w: "word_of_int ?k = run_code v" "word_of_int (?k + 1) = run_code v + 1" "word_of_int (?k + 2) = run_code v + 2"
    "word_of_int (?k + 3) = run_code v + 3" "word_of_int (?k + uint (run_len v)) = run_code v + run_len v" by simp_all
  show ?thesis
  proof (cases "bit (case_run_mask m) (unat ?t)")
    case False
    then show ?thesis by (simp add: case1_run_def case_ivs_def Let_def b)
  next
    case True
    consider (ul) "run_type ?t = RUN_TYPE_UL" "m \<noteq> 7" | (lsu) "run_type ?t = RUN_TYPE_LSU" "m \<noteq> 7"
      | (all) "m = 7 \<or> run_type ?t \<noteq> RUN_TYPE_UL \<and> run_type ?t \<noteq> RUN_TYPE_LSU" by blast
    then show ?thesis
    proof cases
      case ul
      then show ?thesis using mask_values [OF m] True loop0 loop1
        by (auto simp: case1_run_def case_ivs_def Let_def b CASE_U_def CASE_L_def CASE_F_def)
    next
      case lsu
      then show ?thesis using mask_values [OF m] True
        by (auto simp: case1_run_def case_ivs_def Let_def b CASE_U_def CASE_L_def CASE_F_def w or_fail_assoc add_all_Cons or_fail_def [symmetric] simp del: add_all.simps(2))
    next
      case all
      then have "case1_run m (case_run_mask m) cr v = cr_add_interval cr (run_code v) (run_code v + run_len v)"
        using mask_values [OF m] True by (auto simp: case1_run_def Let_def b CASE_U_def CASE_L_def CASE_F_def)
      moreover have "case_ivs m v = [(?k, ?k + uint (run_len v))]"
        using mask_values [OF m] True all by (auto simp: case_ivs_def Let_def)
      ultimately show ?thesis by (simp only: wivs_simps w add_one)
    qed
  qed
qed

lemma case1_loop_ivs:
  assumes m: "m \<in> sources_masks"
  shows "case1_loop m (case_run_mask m) cr vs = add_all cr (wivs (concat (map (case_ivs m) vs)))"
proof (induction vs arbitrary: cr)
  case (Cons v vs)
  have "case1_loop m (case_run_mask m) cr (v # vs) = or_fail (case1_run m (case_run_mask m) cr v) (\<lambda>cr. case1_loop m (case_run_mask m) cr vs)"
    by (simp only: case1_loop.simps or_fail_def)
  then show ?case using Cons by (simp only: case1_run_ivs [OF m] list.map concat.simps wivs_simps add_all_append)
qed simp

definition case_points :: "u32 \<Rightarrow> u32 list \<Rightarrow> int list" where
  "case_points m vs = flat (concat (map (case_ivs m) vs))"

definition own_points :: "u32 \<Rightarrow> u32 \<Rightarrow> bool" where
  "own_points m v \<longleftrightarrow> sorted (flat (case_ivs m v)) \<and>
     (\<forall>p \<in> set (flat (case_ivs m v)). uint (run_code v) \<le> p \<and> p \<le> uint (run_code v) + uint (run_len v))"

lemma run_ends_int:
  "in_run v c \<longleftrightarrow> uint (run_code v) \<le> uint c \<and> uint c < uint (run_code v) + uint (run_len v)"
  "run_code v + run_len v \<le> run_code w \<longleftrightarrow> uint (run_code v) + uint (run_len v) \<le> uint (run_code w)"
proof -
  have e: "uint (run_code v + run_len v) = uint (run_code v) + uint (run_len v)"
    using run_bounds(3) [of v] by (simp only: uint_nat of_nat_add)
  show "in_run v c \<longleftrightarrow> uint (run_code v) \<le> uint c \<and> uint c < uint (run_code v) + uint (run_len v)"
    by (simp add: in_run_def word_le_def word_less_def e)
  show "run_code v + run_len v \<le> run_code w \<longleftrightarrow> uint (run_code v) + uint (run_len v) \<le> uint (run_code w)"
    by (simp add: word_le_def e)
qed

lemma case_points_ok:
  "sorted_wrt (\<lambda>v w. run_code v + run_len v \<le> run_code w) vs \<Longrightarrow> \<forall>v \<in> set vs. own_points m v \<Longrightarrow>
   sorted (case_points m vs) \<and> (\<forall>p \<in> set (case_points m vs). \<exists>v \<in> set vs. uint (run_code v) \<le> p \<and> p \<le> uint (run_code v) + uint (run_len v)) \<and>
   odd (pcount (case_points m vs) (uint c)) = (\<exists>v \<in> set vs. in_run v c \<and> odd (pcount (flat (case_ivs m v)) (uint c)))"
proof (induction vs)
  case Nil
  then show ?case by (simp add: case_points_def)
next
  case (Cons v vs)
  let ?own = "flat (case_ivs m v)" and ?rest = "case_points m vs"
  have pts: "case_points m (v # vs) = ?own @ ?rest" by (simp add: case_points_def)
  define e where "e = uint (run_code v) + uint (run_len v)"
  have own: "sorted ?own" "\<forall>p \<in> set ?own. uint (run_code v) \<le> p \<and> p \<le> e" using Cons.prems(2) by (auto simp: own_points_def e_def)
  have after: "e \<le> uint (run_code w)" if "w \<in> set vs" for w using Cons.prems(1) that by (simp add: run_ends_int e_def)
  have IH: "sorted ?rest" "\<forall>p \<in> set ?rest. \<exists>w \<in> set vs. uint (run_code w) \<le> p \<and> p \<le> uint (run_code w) + uint (run_len w)"
    "odd (pcount ?rest (uint c)) = (\<exists>v \<in> set vs. in_run v c \<and> odd (pcount (flat (case_ivs m v)) (uint c)))"
    using Cons by auto
  have later: "e \<le> p" if "p \<in> set ?rest" for p using IH(2) that after by fastforce
  have sorted: "sorted (case_points m (v # vs))" unfolding pts sorted_append using own IH(1) later by force
  have mem: "\<forall>p \<in> set (case_points m (v # vs)). \<exists>w \<in> set (v # vs). uint (run_code w) \<le> p \<and> p \<le> uint (run_code w) + uint (run_len w)"
    unfolding pts using own(2) IH(2) by (auto simp: e_def)
  have "odd (pcount (case_points m (v # vs)) (uint c)) = (\<exists>w \<in> set (v # vs). in_run w c \<and> odd (pcount (flat (case_ivs m w)) (uint c)))"
  proof (cases "uint c < e")
    case True
    then have r0: "pcount ?rest (uint c) = 0" using later by (intro pcount_none) force
    have none: "\<not> in_run w c" if "w \<in> set vs" for w using after [OF that] True by (simp add: run_ends_int)
    have "pcount ?own (uint c) = 0" if "\<not> in_run v c"
      using that True own(2) by (intro pcount_none) (auto simp: run_ends_int e_def)
    then show ?thesis using r0 none unfolding pts by (cases "in_run v c") auto
  next
    case False
    then have "pcount ?own (uint c) = length ?own" using own(2) by (intro pcount_all) force
    then have "odd (pcount (case_points m (v # vs)) (uint c)) = odd (pcount ?rest (uint c))" unfolding pts by simp
    moreover have "\<not> in_run v c" using False by (simp add: run_ends_int e_def)
    ultimately show ?thesis using IH(3) by auto
  qed
  then show ?case using sorted mem by blast
qed

section \<open>The two agree\<close>

abbreviation type_of_run :: "nat \<Rightarrow> RUN_TYPE" where
  "type_of_run i \<equiv> run_type (drop_bit 4 (case_conv_table1 ! i) AND 0xf)"

abbreviation offset_in :: "nat \<Rightarrow> u32 \<Rightarrow> int" where
  "offset_in i c \<equiv> uint c - uint (run_code (case_conv_table1 ! i))"

lemma run_unique:
  assumes "i < 361" "j < 361" "in_run (case_conv_table1 ! i) c" "in_run (case_conv_table1 ! j) c" shows "i = j"
proof -
  have "\<not> k < l" if "k < 361" "l < 361" "in_run (case_conv_table1 ! k) c" "in_run (case_conv_table1 ! l) c" for k l
    using run_order [of k l] that table_lengths by (auto simp: run_ends_int)
  then show ?thesis using assms by (meson linorder_neqE_nat)
qed

lemma first_runs:
  "case_conv_table1 ! 0 = 0x00209a30" "case_conv_table1 ! Suc 0 = 0x00309a00" "run_code (case_conv_table1 ! 2) = 0xb5"
  by (simp_all add: case_conv_table1_def run_code_def)

lemma ascii_runs:
  assumes "unat c < 128"
  shows "(\<exists>i < 361. in_run (case_conv_table1 ! i) c \<and> P i) \<longleftrightarrow>
     0x41 \<le> unat c \<and> unat c \<le> 0x5a \<and> P 0 \<or> 0x61 \<le> unat c \<and> unat c \<le> 0x7a \<and> P 1"
proof -
  have r: "in_run (case_conv_table1 ! 0) c \<longleftrightarrow> 0x41 \<le> unat c \<and> unat c \<le> 0x5a" "in_run (case_conv_table1 ! 1) c \<longleftrightarrow> 0x61 \<le> unat c \<and> unat c \<le> 0x7a"
    by (auto simp: first_runs in_run_def run_code_def run_len_def word_le_nat_alt word_less_nat_alt)
  have "\<not> in_run (case_conv_table1 ! i) c" if "2 \<le> i" "i < 361" for i
  proof -
    have "uint (0xb5 :: u32) \<le> uint (run_code (case_conv_table1 ! i))"
    proof (cases "i = 2")
      case False
      then have "run_code (case_conv_table1 ! 2) + run_len (case_conv_table1 ! 2) \<le> run_code (case_conv_table1 ! i)"
        using run_order [of 2 i] that table_lengths by simp
      then show ?thesis using run_code_le_end [of "case_conv_table1 ! 2"] first_runs(3) by (auto simp: word_le_def)
    qed (simp add: first_runs)
    moreover have "uint c < 128" using assms by (simp only: uint_nat)
    ultimately show ?thesis by (simp add: run_ends_int)
  qed
  then have "i = 0 \<or> i = 1" if "i < 361" "in_run (case_conv_table1 ! i) c" for i
    using that by (metis One_nat_def Suc_1 Suc_leI le_neq_implies_less less_one not_less)
  then have "(\<exists>i < 361. in_run (case_conv_table1 ! i) c \<and> P i) \<longleftrightarrow> in_run (case_conv_table1 ! 0) c \<and> P 0 \<or> in_run (case_conv_table1 ! 1) c \<and> P 1"
    by (auto intro: exI [of _ 0] exI [of _ 1])
  then show ?thesis unfolding r by simp
qed

lemma case_conv_changes:
  assumes ct: "ct \<in> {0, 1, 2}"
  shows "(lre_case_conv c ct \<noteq> Some [c]) = (\<exists>i < 361. in_run (case_conv_table1 ! i) c \<and> changes (type_of_run i) ct (offset_in i c))"
proof (cases "c < 128")
  case True
  then have c: "unat c < 128" by (simp add: word_less_nat_alt)
  have t: "type_of_run 0 = RUN_TYPE_LF" "type_of_run 1 = RUN_TYPE_U" by (simp_all add: first_runs run_type_def)
  show ?thesis unfolding ascii_runs [OF c] t changes.simps using ct True
    by (auto simp: lre_case_conv_def word_le_nat_alt)
next
  case False
  obtain r where r: "case_search c 0 (int (length case_conv_table1) - 1) = Some r" "case r of
       Some i \<Rightarrow> i < length case_conv_table1 \<and> in_run (case_conv_table1 ! i) c
     | None \<Rightarrow> \<forall>v \<in> set case_conv_table1. \<not> in_run v c"
    using search_all [of c] by (rule okE)
  show ?thesis
  proof (cases r)
    case None
    then have "\<not> in_run (case_conv_table1 ! i) c" if "i < 361" for i using r that table_lengths by simp
    then show ?thesis using False r None by (auto simp: lre_case_conv_def)
  next
    case (Some i)
    then have i: "i < 361" "in_run (case_conv_table1 ! i) c" using r table_lengths by simp_all
    have eq: "lre_case_conv c ct = conv_run c ct (case_conv_table1 ! i) i"
      using False r Some i(1) table_lengths by (simp add: lre_case_conv_def)
    show ?thesis unfolding eq conv_run_changes [OF i(1) refl i(2) ct] using i run_unique by blast
  qed
qed

lemma case1_ok:
  assumes m: "m \<in> sources_masks" and wf: "cr_wf cr" and empty: "cr_content cr = []"
  shows "ok (unicode_case1 cr m) (\<lambda>(r, cr'). cr_wf cr' \<and>
     (r = 0 \<and> cr_holds cr' {c. \<exists>ct \<in> case_convs m. lre_case_conv c ct \<noteq> Some [c]} \<or> r = -1))"
proof -
  let ?T = case_conv_table1 and ?ps = "case_points m case_conv_table1"
  have own: "\<forall>v \<in> set ?T. own_points m v"
    using case_ivs_points [OF m _ refl] table_lengths unfolding own_points_def by (metis in_set_conv_nth)
  note cp = case_points_ok [OF runs_sorted_wrt [OF table1_sorted] own]
  have bound: "\<forall>p \<in> set ?ps. 0 \<le> p \<and> p < 2 ^ 32"
  proof
    fix p assume "p \<in> set ?ps"
    then obtain v where "uint (run_code v) \<le> p" "p \<le> uint (run_code v) + uint (run_len v)" using cp by blast
    moreover have "uint (run_code v) < 2 ^ 17" "uint (run_len v) < 2 ^ 7" using run_bounds [of v] by (simp_all only: uint_less_pow)
    ultimately show "0 \<le> p \<and> p < 2 ^ 32" using uint_ge_0 [of "run_code v"] by (intro conjI) (linarith, simp)
  qed
  have convs: "case_convs m \<subseteq> {0, 1, 2}" by (auto simp: case_convs_def)
  have mem: "odd (pcount ?ps (uint c)) = (\<exists>ct \<in> case_convs m. lre_case_conv c ct \<noteq> Some [c])" for c
  proof -
    have each: "odd (pcount (flat (case_ivs m (?T ! i))) (uint c)) = (\<exists>ct \<in> case_convs m. changes (type_of_run i) ct (offset_in i c))"
      if "i < 361" "in_run (?T ! i) c" for i
      using case_ivs_points [OF m that(1) refl, of "uint c"] that(2) unfolding run_ends_int by blast
    have "odd (pcount ?ps (uint c)) = (\<exists>i < 361. in_run (?T ! i) c \<and> odd (pcount (flat (case_ivs m (?T ! i))) (uint c)))"
      using cp table_lengths(1) by (metis in_set_conv_nth)
    also have "\<dots> = (\<exists>i < 361. in_run (?T ! i) c \<and> (\<exists>ct \<in> case_convs m. changes (type_of_run i) ct (offset_in i c)))"
      by (rule ex_cong1) (use each in auto)
    also have "\<dots> = (\<exists>ct \<in> case_convs m. \<exists>i < 361. in_run (?T ! i) c \<and> changes (type_of_run i) ct (offset_in i c))"
      by blast
    also have "\<dots> = (\<exists>ct \<in> case_convs m. lre_case_conv c ct \<noteq> Some [c])"
      by (rule bex_cong [OF refl]) (use case_conv_changes convs in blast)
    finally show ?thesis .
  qed
  have "m \<noteq> 0" using mask_values [OF m] by auto
  then have eq: "unicode_case1 cr m = add_all cr (wivs (concat (map (case_ivs m) ?T)))"
    by (simp add: unicode_case1_def case1_loop_ivs [OF m])
  have "even (length ?ps)" by (simp add: case_points_def)
  then show ?thesis unfolding eq
    using add_all_ok [OF wf, of "wivs (concat (map (case_ivs m) ?T))"] empty holds_points [of ?ps, OF _ bound] cp mem
    by (auto simp: flat_wivs case_points_def [symmetric] elim!: ok_mono)
qed

end
