(* ===== verification/Gc_Set.thy ===== *)
theory Gc_Set
  imports Range_Fill
begin

unbundle bit_operations_syntax

text \<open>
  \<open>unicode_general_category1\<close> of src/quickjs/libunicode.c: the category table encodes a function from code
  points to categories, and the range holds the code points whose category is in the mask.
\<close>

section \<open>The category table\<close>

text \<open>The reference: runs of code points with a category; 31 stands for alternating \<open>Lu\<close> and \<open>Ll\<close>.\<close>

fun gc_op :: "int list \<Rightarrow> (int \<times> int \<times> int list) option" where
  "gc_op [] = None"
| "gc_op (b # p) =
     (if b div 32 \<noteq> 7 then Some (b mod 32, b div 32 + 1, p)
      else case p of [] \<Rightarrow> None
        | x # p \<Rightarrow>
            if x < 128 then Some (b mod 32, x + 8, p)
            else if x < 192 then (case p of [] \<Rightarrow> None | y # p \<Rightarrow> Some (b mod 32, (x - 128) * 256 + y + 136, p))
            else (case p of y # z # p \<Rightarrow> Some (b mod 32, (x - 192) * 65536 + y * 256 + z + 16520, p) | _ \<Rightarrow> None))"

lemma gc_op_rest: "gc_op t = Some (v, n, rest) \<Longrightarrow> length rest < length t"
  by (cases t) (auto split: if_splits list.splits)

function gc_runs :: "int \<Rightarrow> int list \<Rightarrow> (int \<times> int \<times> int) list option" where
  "gc_runs c t =
     (if t = [] then Some []
      else case gc_op t of None \<Rightarrow> None
           | Some (v, n, rest) \<Rightarrow> map_option ((#) (c, c + n, v)) (gc_runs (c + n) rest))"
  by pat_completeness auto
termination by (relation "measure (\<lambda>(_, t). length t)") (auto dest: gc_op_rest)

declare gc_runs.simps [simp del]

definition run_category :: "int \<times> int \<times> int \<Rightarrow> int \<Rightarrow> nat" where
  "run_category rn c = (case rn of (c0, c1, v) \<Rightarrow>
     if v = 31 then (if even (c - c0) then UNICODE_GC_Lu else UNICODE_GC_Ll) else nat v)"

fun category :: "(int \<times> int \<times> int) list \<Rightarrow> int \<Rightarrow> nat option" where
  "category [] c = None"
| "category (rn # rs) c = (if c < fst (snd rn) then Some (run_category rn c) else category rs c)"

definition run_ivs :: "u32 \<Rightarrow> int \<times> int \<times> int \<Rightarrow> (int \<times> int) list" where
  "run_ivs gm rn = (case rn of (c0, c1, v) \<Rightarrow>
     if v = 31 then
       if bit gm UNICODE_GC_Lu \<and> bit gm UNICODE_GC_Ll then [(c0, c1)]
       else if bit gm UNICODE_GC_Lu then alt c0 c1
       else if bit gm UNICODE_GC_Ll then alt (c0 + 1) c1
       else []
     else if bit gm (nat v) then [(c0, c1)] else [])"

lemma every_other_alt:
  assumes "c < 2 ^ 32 - 2" "0 \<le> c" "0 \<le> c0" "c0 \<le> c + 1"
  shows "every_other cr (word_of_int c0) (word_of_int c) = add_all cr (wivs (alt c0 c))"
  using assms
proof (induction c0 c arbitrary: cr rule: alt.induct)
  case (1 c0 c)
  have u: "uint (word_of_int k :: u32) = k" if "0 \<le> k" "k < 2 ^ 32" for k using that by (simp add: uint_word_of_int)
  have w: "word_of_int c0 + 1 = (word_of_int (c0 + 1) :: u32)" "word_of_int c0 + 2 = (word_of_int (c0 + 2) :: u32)" by simp_all
  have lt: "(word_of_int c0 :: u32) < word_of_int c \<longleftrightarrow> c0 < c" using u [of c0] u [of c] 1(2-5) by (auto simp: word_less_def)
  show ?case
  proof (cases "c0 < c")
    case True
    have "every_other x (word_of_int (c0 + 2)) (word_of_int c) = add_all x (wivs (alt (c0 + 2) c))" for x :: "'a CharRange"
      using 1(1) [OF True 1(2,3)] True 1(4) by simp
    moreover have "every_other cr (word_of_int c0) (word_of_int c) =
        or_fail (cr_add_interval cr (word_of_int c0) (word_of_int (c0 + 1))) (\<lambda>cr. every_other cr (word_of_int (c0 + 2)) (word_of_int c))"
      using True lt by (subst every_other.simps) (simp only: w or_fail_def if_True simp_thms)
    moreover have "alt c0 c = (c0, c0 + 1) # alt (c0 + 2) c" using True by (subst alt.simps) simp
    ultimately show ?thesis by (simp only: wivs_simps add_all_Cons)
  next
    case False
    then show ?thesis using lt by (subst every_other.simps, subst alt.simps) simp
  qed
qed

lemma gc_step:
  fixes t :: "u8 list" and c :: u32
  assumes op: "gc_op (map uint t) = Some (v, n, rest)" and small: "uint c + n < 2 ^ 32"
  obtains b p q w where "t = b # p" "gc_run_len (drop_bit 5 (ucast b)) p = Some (w, q)" "rest = map uint q"
    "uint (c + (w + 1)) = uint c + n" "uint (ucast b AND (0x1f :: u32)) = v"
proof -
  note that' = that
  obtain b p where t: "t = b # p" using op by (cases t) auto
  have v: "uint (ucast b AND (0x1f :: u32)) = uint b mod 32" "v = uint b mod 32"
  proof -
    show "uint (ucast b AND (0x1f :: u32)) = uint b mod 32"
      using nat_and_mask [of "unat b" 5] by (simp only: uint_nat unat_and unat_ucast_u32) (simp add: zmod_int)
    show "v = uint b mod 32" using op t by (auto split: if_splits list.splits)
  qed
  have hi: "uint (drop_bit 5 (ucast b :: u32)) = uint b div 32"
    by (simp only: uint_nat unat_drop_bit unat_ucast_u32) (simp add: zdiv_int)
  have seven: "drop_bit 5 (ucast b :: u32) = 7 \<longleftrightarrow> uint b div 32 = 7" by (simp add: word_uint_eq_iff hi)
  have fin: ?thesis if "gc_run_len (drop_bit 5 (ucast b)) p = Some (w, q)" "rest = map uint q" "uint w = n - 1" for w q
  proof -
    have "0 < n" using that(3) uint_ge_0 [of w] by linarith
    moreover have "n < 2 ^ 32" using small uint_ge_0 [of c] by linarith
    ultimately have "uint (w + 1) = n" using uint_add_small [of w 1] that(3) by simp
    moreover from this have "uint (c + (w + 1)) = uint c + n" using uint_add_small [of c "w + 1"] small by simp
    ultimately show ?thesis using t that v by (intro that') auto
  qed
  have ux: "uint (ucast b' :: u32) = uint b'" for b' :: u8 by (simp only: uint_nat unat_ucast_u32)
  have lt: "(ucast b' :: u32) < k \<longleftrightarrow> uint b' < uint k" for b' :: u8 and k
    by (simp only: word_less_def ux)
  consider "uint b div 32 \<noteq> 7" | x q where "uint b div 32 = 7" "p = x # q" "uint x < 128"
    | x y q where "uint b div 32 = 7" "p = x # y # q" "\<not> uint x < 128" "uint x < 192"
    | x y z q where "uint b div 32 = 7" "p = x # y # z # q" "\<not> uint x < 192"
    using op t by (cases p rule: list.exhaust [case_product list.exhaust]) (auto split: if_splits list.splits)
  then show ?thesis
  proof cases
    case 1
    then show ?thesis using op t seven hi by (intro fin [of "drop_bit 5 (ucast b)" p]) (auto simp: gc_run_len_def)
  next
    case (2 x q)
    have "uint ((ucast x :: u32) + 7) = uint x + 7"
      using uint_add_small [of "ucast x" 7] uint_byte_less [of x] by (simp add: ux)
    then show ?thesis using op t seven 2 lt [of x 128] by (intro fin [of "ucast x + 7" q]) (auto simp: gc_run_len_def)
  next
    case (3 x y q)
    define w where "w = (push_bit 8 ((ucast x :: u32) - 128) OR ucast y)"
    have k: "128 \<le> unat x" using 3(3) unat_eq_nat_uint [of x] by linarith
    have w: "uint w = (uint x - 128) * 256 + uint y" using or_bytes2 [OF k, of y] by (simp add: w_def)
    have "uint (w + (7 + 128)) = uint w + 135"
      using uint_add_small [of w "7 + 128"] w 3(4) uint_byte_less [of y] by simp
    moreover have "gc_run_len (drop_bit 5 (ucast b)) p = Some (w + (7 + 128), q)"
      using seven 3 lt [of x 128] lt [of x "128 + 64"] by (simp add: gc_run_len_def w_def)
    ultimately show ?thesis using op t 3 w by (intro fin) auto
  next
    case (4 x y z q)
    define w where "w = (push_bit 16 ((ucast x :: u32) - 128 - 64) OR push_bit 8 (ucast y) OR ucast z)"
    have k: "192 \<le> unat x" using 4(3) unat_eq_nat_uint [of x] by linarith
    have w: "uint w = (uint x - 192) * 65536 + uint y * 256 + uint z" using or_bytes3 [OF k, of y z] by (simp add: w_def diff_diff_eq)
    have "uint (w + (7 + 128 + push_bit 14 1)) = uint w + 16519"
      using uint_add_small [of w "7 + 128 + push_bit 14 1"] w uint_byte_less [of x] uint_byte_less [of y] uint_byte_less [of z] by simp
    moreover have "gc_run_len (drop_bit 5 (ucast b)) p = Some (w + (7 + 128 + push_bit 14 1), q)"
      using seven 4 lt [of x 128] lt [of x "128 + 64"] by (simp add: gc_run_len_def w_def)
    ultimately show ?thesis using op t 4 w by (intro fin) auto
  qed
qed

lemma mask_bits:
  "(drop_bit i gm AND 1 \<noteq> 0) = bit (gm :: u32) i"
  "(gm AND M_gc i \<noteq> 0) = bit gm i" if "i < 32"
proof -
  show "(drop_bit i gm AND 1 \<noteq> 0) = bit gm i"
    by (simp add: and_one_eq bit_iff_odd_drop_bit odd_iff_mod_2_eq_one)
  show "(gm AND M_gc i \<noteq> 0) = bit gm i"
    by (simp add: M_gc_def push_bit_eq_mult and_exp_eq_0_iff_not_bit)
qed

lemma lu_ll_bits:
  fixes gm :: u32 defines "b \<equiv> gm AND (M_gc UNICODE_GC_Lu OR M_gc UNICODE_GC_Ll)"
  shows "(b \<noteq> 0) = (bit gm UNICODE_GC_Lu \<or> bit gm UNICODE_GC_Ll)"
    "(b = (M_gc UNICODE_GC_Lu OR M_gc UNICODE_GC_Ll)) = (bit gm UNICODE_GC_Lu \<and> bit gm UNICODE_GC_Ll)"
proof -
  have m: "M_gc UNICODE_GC_Lu OR M_gc UNICODE_GC_Ll = 6" by (simp add: M_gc_def UNICODE_GC_Lu_def UNICODE_GC_Ll_def)
  have six: "bit (6 :: u32) i = (i = 1 \<or> i = 2)" for i by (auto simp: bit_numeral_rec bit_1_iff split: nat.splits)
  have bits: "bit b i = (bit gm i \<and> (i = 1 \<or> i = 2))" for i unfolding b_def m bit_and_iff six ..
  have "b = 0 \<longleftrightarrow> \<not> bit gm 1 \<and> \<not> bit gm 2"
  proof
    assume "b = 0"
    then show "\<not> bit gm 1 \<and> \<not> bit gm 2" using bits [of 1] bits [of 2] by simp
  next
    assume "\<not> bit gm 1 \<and> \<not> bit gm 2"
    then have "\<not> bit b i" for i using bits [of i] by auto
    then show "b = 0" by (intro bit_eqI) simp
  qed
  then show "(b \<noteq> 0) = (bit gm UNICODE_GC_Lu \<or> bit gm UNICODE_GC_Ll)" by (auto simp: UNICODE_GC_Lu_def UNICODE_GC_Ll_def)
  have "b = 6 \<longleftrightarrow> bit gm 1 \<and> bit gm 2"
  proof
    assume "b = 6"
    then show "bit gm 1 \<and> bit gm 2" using bits [of 1] bits [of 2] six [of 1] six [of 2] by simp
  next
    assume "bit gm 1 \<and> bit gm 2"
    then have "bit b i = bit (6 :: u32) i" for i unfolding bits six by auto
    then show "b = 6" by (intro bit_eqI) simp
  qed
  then show "(b = (M_gc UNICODE_GC_Lu OR M_gc UNICODE_GC_Ll)) = (bit gm UNICODE_GC_Lu \<and> bit gm UNICODE_GC_Ll)"
    unfolding m by (simp add: UNICODE_GC_Lu_def UNICODE_GC_Ll_def)
qed

lemma gc_add_run_ivs:
  assumes c: "uint c0 < uint c" "uint c < 2 ^ 32 - 2" and v: "uint v < 32"
  shows "or_fail (gc_add_run gm cr v c0 c) f = or_fail (add_all cr (wivs (run_ivs gm (uint c0, uint c, uint v)))) f"
proof (cases "v = 31")
  case True
  have w: "word_of_int (uint x) = x" for x :: u32 by simp
  have eo: "every_other cr c0 c = add_all cr (wivs (alt (uint c0) (uint c)))"
    using every_other_alt [of "uint c" "uint c0" cr] c by (simp add: uint_ge_0)
  have "uint (c0 + 1) = uint c0 + 1" using uint_add_small [of c0 1] c by simp
  then have eo1: "every_other cr (c0 + 1) c = add_all cr (wivs (alt (uint c0 + 1) (uint c)))"
    using every_other_alt [of "uint c" "uint c0 + 1" cr] c by (simp add: uint_ge_0)
  consider (both) "bit gm UNICODE_GC_Lu" "bit gm UNICODE_GC_Ll" | (lu) "bit gm UNICODE_GC_Lu" "\<not> bit gm UNICODE_GC_Ll"
    | (ll) "\<not> bit gm UNICODE_GC_Lu" "bit gm UNICODE_GC_Ll" | (none) "\<not> bit gm UNICODE_GC_Lu" "\<not> bit gm UNICODE_GC_Ll" by blast
  then show ?thesis
  proof cases
    case both
    then show ?thesis using True lu_ll_bits [of gm] by (simp add: gc_add_run_def run_ivs_def Let_def add_one del: add_all.simps(2))
  next
    case lu
    then show ?thesis using True lu_ll_bits [of gm] mask_bits(2) [of UNICODE_GC_Ll gm] eo
      by (simp add: gc_add_run_def run_ivs_def Let_def UNICODE_GC_Ll_def del: add_all.simps(2))
  next
    case ll
    then show ?thesis using True lu_ll_bits [of gm] mask_bits(2) [of UNICODE_GC_Ll gm] eo1
      by (simp add: gc_add_run_def run_ivs_def Let_def UNICODE_GC_Ll_def del: add_all.simps(2))
  next
    case none
    then show ?thesis using True lu_ll_bits [of gm] by (simp add: gc_add_run_def run_ivs_def Let_def)
  qed
next
  case False
  have n: "nat (uint v) = unat v" by (rule unat_eq_nat_uint [symmetric])
  moreover have "unat v < 32" using v n uint_ge_0 [of v] by linarith
  moreover have "uint v \<noteq> 31" using False by (auto simp: word_uint_eq_iff)
  ultimately show ?thesis using mask_bits(1) [of "unat v" gm] False add_one [of cr c0 c f]
    by (simp add: gc_add_run_def run_ivs_def del: add_all.simps(2))
qed

lemma gc_runs_Cons:
  assumes "gc_runs c t = Some rs" "t \<noteq> []"
  obtains v n rest rs' where "gc_op t = Some (v, n, rest)" "gc_runs (c + n) rest = Some rs'" "rs = (c, c + n, v) # rs'"
proof (cases "gc_op t")
  case None
  then show ?thesis using assms by (simp add: gc_runs.simps [of c t])
next
  case (Some x)
  obtain v n rest where x: "x = (v, n, rest)" by (cases x)
  have "map_option ((#) (c, c + n, v)) (gc_runs (c + n) rest) = Some rs"
    using assms Some x by (simp add: gc_runs.simps [of c t])
  then show ?thesis using that Some x by (cases "gc_runs (c + n) rest") auto
qed

lemma gc_op_set: "gc_op t = Some (v, n, rest) \<Longrightarrow> set rest \<subseteq> set t"
  by (cases t) (auto split: if_splits list.splits)

lemma gc_op_range:
  assumes "gc_op t = Some (v, n, rest)" "bytes_ok t"
  shows "1 \<le> n" "0 \<le> v" "v < 32" "n \<le> 8388608"
  using assms by (cases t; auto simp: bytes_ok_def split: if_splits list.splits)+

lemma gc_loop_runs:
  "gc_runs (uint c) (map uint t) = Some rs \<Longrightarrow> \<forall>(c0, c1, v) \<in> set rs. c1 < 2 ^ 32 - 2 \<Longrightarrow>
   gc_loop gm cr c t = add_all cr (wivs (concat (map (run_ivs gm) rs)))"
proof (induction "length t" arbitrary: t c rs cr rule: less_induct)
  case less
  show ?case
  proof (cases "t = []")
    case True
    then show ?thesis using less.prems by (simp add: gc_runs.simps)
  next
    case False
    then obtain v n rest rs' where o: "gc_op (map uint t) = Some (v, n, rest)" and
      q: "gc_runs (uint c + n) rest = Some rs'" and rs: "rs = (uint c, uint c + n, v) # rs'"
      using gc_runs_Cons [OF less.prems(1)] by blast
    have small: "uint c + n < 2 ^ 32 - 2" using less.prems(2) rs by simp
    note range = gc_op_range [OF o bytes_ok_uint]
    have small': "uint c + n < 2 ^ 32" using small by simp
    obtain b p q' w where st: "t = b # p" "gc_run_len (drop_bit 5 (ucast b)) p = Some (w, q')" "rest = map uint q'"
      "uint (c + (w + 1)) = uint c + n" "uint (ucast b AND (0x1f :: u32)) = v"
      by (rule gc_step [OF o small'])
    have len: "length q' < length t" using st(1) gc_run_len_length [OF st(2)] by simp
    have v: "uint (ucast b AND (0x1f :: u32)) < 32" using st(5) range(3) by simp
    have IH: "gc_loop gm x (c + (w + 1)) q' = add_all x (wivs (concat (map (run_ivs gm) rs')))" for x :: "'a CharRange"
      using q st(3,4) less.prems(2) rs by (intro less.hyps [OF len]) auto
    have "gc_loop gm cr c t = or_fail (gc_add_run gm cr (ucast b AND 0x1f) c (c + (w + 1))) (\<lambda>cr. gc_loop gm cr (c + (w + 1)) q')"
      by (simp only: st(1,2) gc_loop.simps Let_def option.case prod.case or_fail_def)
    also have "\<dots> = or_fail (add_all cr (wivs (run_ivs gm (uint c, uint c + n, v)))) (\<lambda>cr. gc_loop gm cr (c + (w + 1)) q')"
      using gc_add_run_ivs [of c "c + (w + 1)" "ucast b AND 0x1f" gm cr] st(4,5) small range(1) v by simp
    finally show ?thesis by (simp add: IH rs add_all_append)
  qed
qed

text \<open>The points of one run: sorted, inside the run, and odd in number below exactly the members.\<close>

lemma run_points:
  assumes "c0 < c1"
  shows "sorted (flat (run_ivs gm (c0, c1, v))) \<and> (\<forall>p \<in> set (flat (run_ivs gm (c0, c1, v))). c0 \<le> p \<and> p \<le> c1) \<and>
   (c0 \<le> c \<and> c < c1 \<longrightarrow> odd (pcount (flat (run_ivs gm (c0, c1, v))) c) = bit gm (run_category (c0, c1, v) c))"
proof -
  have a0: "sorted (flat (alt c0 c1)) \<and> (\<forall>p \<in> set (flat (alt c0 c1)). c0 \<le> p \<and> p \<le> c1) \<and>
     (c < c1 \<longrightarrow> odd (pcount (flat (alt c0 c1)) c) = (c0 \<le> c \<and> even (c - c0)))"
    using alt_points [of c0 c1 c] assms by simp
  have a1: "sorted (flat (alt (c0 + 1) c1)) \<and> (\<forall>p \<in> set (flat (alt (c0 + 1) c1)). c0 + 1 \<le> p \<and> p \<le> c1) \<and>
     (c < c1 \<longrightarrow> odd (pcount (flat (alt (c0 + 1) c1)) c) = (c0 + 1 \<le> c \<and> even (c - (c0 + 1))))"
    using alt_points [of "c0 + 1" c1 c] assms by simp
  have par: "c0 \<le> c \<Longrightarrow> (c0 + 1 \<le> c \<and> even (c - (c0 + 1))) = odd (c - c0)" by presburger
  consider (lu) "v = 31" "bit gm UNICODE_GC_Lu" "\<not> bit gm UNICODE_GC_Ll" | (ll) "v = 31" "\<not> bit gm UNICODE_GC_Lu" "bit gm UNICODE_GC_Ll"
    | (all) "run_ivs gm (c0, c1, v) = [(c0, c1)]" "bit gm (run_category (c0, c1, v) c)"
    | (none) "run_ivs gm (c0, c1, v) = []" "\<not> bit gm (run_category (c0, c1, v) c)"
    unfolding run_ivs_def run_category_def prod.case by (cases "v = 31"; cases "even (c - c0)"; cases "bit gm UNICODE_GC_Lu"; cases "bit gm UNICODE_GC_Ll"; cases "bit gm (nat v)") simp_all
  then show ?thesis
  proof cases
    case lu
    then have "run_ivs gm (c0, c1, v) = alt c0 c1" "bit gm (run_category (c0, c1, v) c) = even (c - c0)"
      by (simp_all add: run_ivs_def run_category_def)
    then show ?thesis using a0 by presburger
  next
    case ll
    then have e: "run_ivs gm (c0, c1, v) = alt (c0 + 1) c1" "bit gm (run_category (c0, c1, v) c) = odd (c - c0)"
      by (simp_all add: run_ivs_def run_category_def)
    show ?thesis unfolding e using a1 par by fastforce
  qed (use assms in auto)
qed

definition gc_points :: "u32 \<Rightarrow> (int \<times> int \<times> int) list \<Rightarrow> int list" where
  "gc_points gm rs = flat (concat (map (run_ivs gm) rs))"

lemma last_ge_runs: "gc_runs k t = Some rs \<Longrightarrow> bytes_ok t \<Longrightarrow> k \<le> last (k # map (fst \<circ> snd) rs)"
proof (induction k t arbitrary: rs rule: gc_runs.induct)
  case (1 k t)
  show ?case
  proof (cases "t = []")
    case False
    obtain v n rest rs' where o: "gc_op t = Some (v, n, rest)" and q: "gc_runs (k + n) rest = Some rs'"
      and rs: "rs = (k, k + n, v) # rs'" by (rule gc_runs_Cons [OF 1(2) False])
    have b: "bytes_ok rest" using gc_op_set [OF o] 1(3) by (auto simp: bytes_ok_def)
    show ?thesis using 1(1) [OF False o refl refl q b] gc_op_range(1) [OF o 1(3)] by (simp add: rs)
  qed (use 1 in \<open>simp add: gc_runs.simps\<close>)
qed

lemma gc_points_ok:
  "gc_runs k t = Some rs \<Longrightarrow> bytes_ok t \<Longrightarrow> sorted (gc_points gm rs) \<and>
     (\<forall>p \<in> set (gc_points gm rs). k \<le> p \<and> p \<le> last (k # map (fst \<circ> snd) rs)) \<and>
     (k \<le> c \<longrightarrow> odd (pcount (gc_points gm rs) c) = (\<exists>i. category rs c = Some i \<and> bit gm i))"
proof (induction k t arbitrary: rs rule: gc_runs.induct)
  case (1 k t)
  show ?case
  proof (cases "t = []")
    case True
    then show ?thesis using 1(2) by (simp add: gc_runs.simps gc_points_def)
  next
    case False
    obtain v n rest rs' where o: "gc_op t = Some (v, n, rest)" and q: "gc_runs (k + n) rest = Some rs'"
      and rs: "rs = (k, k + n, v) # rs'" by (rule gc_runs_Cons [OF 1(2) False])
    have b: "bytes_ok rest" using gc_op_set [OF o] 1(3) by (auto simp: bytes_ok_def)
    note n = gc_op_range [OF o 1(3)]
    let ?L = "last ((k + n) # map (fst \<circ> snd) rs')" and ?r = "flat (run_ivs gm (k, k + n, v))"
    have IH: "sorted (gc_points gm rs')" "\<forall>p \<in> set (gc_points gm rs'). k + n \<le> p \<and> p \<le> ?L"
      "k + n \<le> c \<Longrightarrow> odd (pcount (gc_points gm rs') c) = (\<exists>i. category rs' c = Some i \<and> bit gm i)"
      using 1(1) [OF False o refl refl q b] by blast+
    have run: "sorted ?r" "\<forall>p \<in> set ?r. k \<le> p \<and> p \<le> k + n"
      "k \<le> c \<Longrightarrow> c < k + n \<Longrightarrow> odd (pcount ?r c) = bit gm (run_category (k, k + n, v) c)"
      using run_points [of k "k + n" gm v c] n(1) by auto
    have pts: "gc_points gm rs = ?r @ gc_points gm rs'" by (simp add: gc_points_def rs)
    have "last (k # map (fst \<circ> snd) rs) = ?L" by (simp add: rs)
    moreover have "k + n \<le> ?L" using last_ge_runs [OF q b] .
    ultimately have bounds: "\<forall>p \<in> set (gc_points gm rs). k \<le> p \<and> p \<le> last (k # map (fst \<circ> snd) rs)"
      unfolding pts using run(2) IH(2) n(1) by force
    have sorted: "sorted (gc_points gm rs)" unfolding pts sorted_append using run(1,2) IH(1,2) by force
    have "odd (pcount (gc_points gm rs) c) = (\<exists>i. category rs c = Some i \<and> bit gm i)" if "k \<le> c"
    proof (cases "c < k + n")
      case True
      then have "pcount (gc_points gm rs') c = 0" using IH(2) by (intro pcount_none) force
      then have "odd (pcount (gc_points gm rs) c) = odd (pcount ?r c)" by (simp add: pts)
      then show ?thesis using run(3) [OF that True] True by (simp add: rs)
    next
      case False
      then have "pcount ?r c = length ?r" using run(2) by (intro pcount_all) force
      then have "odd (pcount (gc_points gm rs) c) = odd (pcount (gc_points gm rs') c)" by (simp add: pts)
      then show ?thesis using False IH(3) by (simp add: rs)
    qed
    then show ?thesis using bounds sorted by blast
  qed
qed


section \<open>The table of the sources\<close>

function gc_end :: "int \<Rightarrow> int list \<Rightarrow> int option" where
  "gc_end c t =
     (if t = [] then Some c
      else case gc_op t of None \<Rightarrow> None | Some (v, n, rest) \<Rightarrow> if v = 30 then None else gc_end (c + n) rest)"
  by pat_completeness auto
termination by (relation "measure (\<lambda>(_, t). length t)") (auto dest: gc_op_rest)

declare gc_end.simps [simp del]

text \<open>The end of the last run, for a table without the value 30, which names no category.\<close>

lemma gc_end_runs:
  "gc_end c t = Some e \<Longrightarrow> \<exists>rs. gc_runs c t = Some rs \<and> last (c # map (fst \<circ> snd) rs) = e \<and> (\<forall>(c0, c1, v) \<in> set rs. v \<noteq> 30)"
proof (induction c t rule: gc_end.induct)
  case (1 c t)
  show ?case
  proof (cases "t = []")
    case True
    then show ?thesis using 1(2) by (simp add: gc_runs.simps gc_end.simps)
  next
    case False
    then obtain v n rest where o: "gc_op t = Some (v, n, rest)" and v: "v \<noteq> 30" and e: "gc_end (c + n) rest = Some e"
      using 1(2) by (subst (asm) gc_end.simps) (auto split: option.splits if_splits)
    from 1(1) [OF False o refl refl v e] obtain rs where "gc_runs (c + n) rest = Some rs"
      "last ((c + n) # map (fst \<circ> snd) rs) = e" "\<forall>(c0, c1, v) \<in> set rs. v \<noteq> 30" by blast
    then show ?thesis using False o v by (subst gc_runs.simps) (simp add: comp_def)
  qed
qed

lemma gc_end_cong: "c = c' \<Longrightarrow> gc_end c t = gc_end c' t"
  by simp

lemma gc_hi: "uint (b :: u8) div 32 = 7 \<longleftrightarrow> 224 \<le> uint b"
  using uint_byte_less [of b] uint_ge_0 [of b] by presburger

lemma gc_end_exec:
  "gc_end c (map uint ([] :: u8 list)) = Some c"
  "gc_end c (map uint ([] @ r :: u8 list)) = gc_end c (map uint r)"
  "uint b mod 32 \<noteq> 30 \<Longrightarrow> uint b < 224 \<Longrightarrow> gc_end c (map uint ((b # p) @ r :: u8 list)) = gc_end (c + (uint b div 32 + 1)) (map uint (p @ r))"
  "uint b mod 32 \<noteq> 30 \<Longrightarrow> uint b \<ge> 224 \<Longrightarrow> uint x < 128 \<Longrightarrow> gc_end c (map uint ((b # x # p) @ r :: u8 list)) = gc_end (c + (uint x + 8)) (map uint (p @ r))"
  "uint b mod 32 \<noteq> 30 \<Longrightarrow> uint b \<ge> 224 \<Longrightarrow> uint x \<ge> 128 \<Longrightarrow> uint x < 192 \<Longrightarrow> gc_end c (map uint ((b # x # y # p) @ r :: u8 list)) =
     gc_end (c + ((uint x - 128) * 256 + uint y + 136)) (map uint (p @ r))"
  "uint b mod 32 \<noteq> 30 \<Longrightarrow> uint b \<ge> 224 \<Longrightarrow> uint x \<ge> 192 \<Longrightarrow> gc_end c (map uint ((b # x # y # z # p) @ r :: u8 list)) =
     gc_end (c + ((uint x - 192) * 65536 + uint y * 256 + uint z + 16520)) (map uint (p @ r))"
  by (subst gc_end.simps; simp add: gc_hi)+

lemmas gc_chunks =
  arg_cong [OF unicode_gc_table_0_def, of "\<lambda>t. gc_end c (map uint (t @ r))" for c r]
  arg_cong [OF unicode_gc_table_1_def, of "\<lambda>t. gc_end c (map uint (t @ r))" for c r]
  arg_cong [OF unicode_gc_table_2_def, of "\<lambda>t. gc_end c (map uint (t @ r))" for c r]
  arg_cong [OF unicode_gc_table_3_def, of "\<lambda>t. gc_end c (map uint (t @ r))" for c r]
  arg_cong [OF unicode_gc_table_4_def, of "\<lambda>t. gc_end c (map uint (t @ r))" for c r]
  arg_cong [OF unicode_gc_table_5_def, of "\<lambda>t. gc_end c (map uint (t @ r))" for c r]
  arg_cong [OF unicode_gc_table_6_def, of "\<lambda>t. gc_end c (map uint (t @ r))" for c r]
  arg_cong [OF unicode_gc_table_7_def, of "\<lambda>t. gc_end c (map uint (t @ r))" for c r]
  arg_cong [OF unicode_gc_table_8_def, of "\<lambda>t. gc_end c (map uint (t @ r))" for c r]
  arg_cong [OF unicode_gc_table_9_def, of "\<lambda>t. gc_end c (map uint (t @ r))" for c r]
  arg_cong [OF unicode_gc_table_10_def, of "\<lambda>t. gc_end c (map uint (t @ r))" for c r]

lemma gc_table_end: "gc_end 0 (map uint unicode_gc_table) = Some 0x110000"
proof -
  have e: "unicode_gc_table = unicode_gc_table_0 @ unicode_gc_table_1 @ unicode_gc_table_2 @ unicode_gc_table_3 @ unicode_gc_table_4 @ unicode_gc_table_5 @ unicode_gc_table_6 @ unicode_gc_table_7 @ unicode_gc_table_8 @ unicode_gc_table_9 @ unicode_gc_table_10 @ []"
    by (simp add: unicode_gc_table_def)
  show ?thesis unfolding e by (simp del: list.map append.simps append_Nil2 map_append add: gc_end_exec gc_chunks cong: gc_end_cong)
qed


definition gc_table_runs :: "(int \<times> int \<times> int) list" where
  "gc_table_runs = the (gc_runs 0 (map uint unicode_gc_table))"

lemma gc_table_runs:
  "gc_runs 0 (map uint unicode_gc_table) = Some gc_table_runs" "last (0 # map (fst \<circ> snd) gc_table_runs) = 0x110000"
  "\<forall>(c0, c1, v) \<in> set gc_table_runs. v \<noteq> 30"
  using gc_end_runs [OF gc_table_end] by (auto simp: gc_table_runs_def)

lemma runs_increasing:
  "gc_runs k t = Some rs \<Longrightarrow> bytes_ok t \<Longrightarrow> (c0, c1, v) \<in> set rs \<Longrightarrow> k \<le> c0 \<and> c0 < c1 \<and> c1 \<le> last (k # map (fst \<circ> snd) rs) \<and> 0 \<le> v \<and> v < 32"
proof (induction k t arbitrary: rs rule: gc_runs.induct)
  case (1 k t)
  show ?case
  proof (cases "t = []")
    case True
    then show ?thesis using 1 by (simp add: gc_runs.simps)
  next
    case False
    obtain w n rest rs' where o: "gc_op t = Some (w, n, rest)" and q: "gc_runs (k + n) rest = Some rs'"
      and rs: "rs = (k, k + n, w) # rs'" by (rule gc_runs_Cons [OF 1(2) False])
    have b: "bytes_ok rest" using gc_op_set [OF o] 1(3) by (auto simp: bytes_ok_def)
    note n = gc_op_range [OF o 1(3)]
    consider "(c0, c1, v) = (k, k + n, w)" | "(c0, c1, v) \<in> set rs'" using 1(4) rs by auto
    then show ?thesis
    proof cases
      case 1
      then show ?thesis using last_ge_runs [OF q b] n by (simp add: rs comp_def)
    next
      case 2
      then show ?thesis using 1(1) [OF False o refl refl q b 2] n by (simp add: rs comp_def)
    qed
  qed
qed

text \<open>The category of a code point, according to the table.\<close>

definition gc_of :: "u32 \<Rightarrow> nat option" where
  "gc_of c = category gc_table_runs (uint c)"

lemma general_category1_ok:
  assumes wf: "cr_wf cr" and empty: "cr_content cr = []"
  shows "ok (unicode_general_category1 cr gm) (\<lambda>(r, cr'). cr_wf cr' \<and>
     (r = 0 \<and> cr_holds cr' {c. \<exists>i. gc_of c = Some i \<and> bit gm i} \<or> r = -1))"
proof -
  let ?rs = gc_table_runs
  have small: "\<forall>(c0, c1, v) \<in> set ?rs. c1 < 2 ^ 32 - 2"
    using runs_increasing [OF gc_table_runs(1) bytes_ok_uint] gc_table_runs(2) by fastforce
  have eq: "unicode_general_category1 cr gm = add_all cr (wivs (concat (map (run_ivs gm) ?rs)))"
    using gc_loop_runs [of 0 unicode_gc_table ?rs gm cr] gc_table_runs(1) small by (simp add: unicode_general_category1_def)
  let ?ps = "gc_points gm ?rs"
  have pts: "sorted ?ps" "\<forall>p \<in> set ?ps. 0 \<le> p \<and> p < 2 ^ 32"
    using gc_points_ok [OF gc_table_runs(1) bytes_ok_uint, of gm 0] unfolding gc_table_runs(2) by fastforce+
  have mem: "odd (pcount ?ps (uint c)) = (\<exists>i. gc_of c = Some i \<and> bit gm i)" for c
    using gc_points_ok [OF gc_table_runs(1) bytes_ok_uint, of gm "uint c"] uint_ge_0 [of c] unfolding gc_of_def by blast
  have "even (length ?ps)" by (simp add: gc_points_def)
  then show ?thesis unfolding eq
    using add_all_ok [OF wf, of "wivs (concat (map (run_ivs gm) ?rs))"] empty
      holds_points [OF pts(1,2)] mem
    by (auto simp: flat_wivs gc_points_def [symmetric] elim!: ok_mono)
qed

lemma category_total:
  "\<forall>(c0, c1, v) \<in> set rs. 0 \<le> v \<and> v < 32 \<and> v \<noteq> 30 \<Longrightarrow> c < last (k # map (fst \<circ> snd) rs) \<Longrightarrow> k \<le> c \<Longrightarrow>
   \<exists>i. category rs c = Some i \<and> i < 30"
proof (induction rs arbitrary: k)
  case (Cons rn rs)
  obtain c0 c1 v where rn: "rn = (c0, c1, v)" by (cases rn)
  show ?case
  proof (cases "c < c1")
    case True
    then show ?thesis using Cons.prems(1) rn by (simp add: run_category_def UNICODE_GC_Lu_def UNICODE_GC_Ll_def nat_less_iff)
  next
    case False
    then show ?thesis using Cons.IH [of c1] Cons.prems rn by auto
  qed
qed simp

lemma gc_of_total: "uint c < 0x110000 \<Longrightarrow> \<exists>i. gc_of c = Some i \<and> i < 30"
  using category_total [of gc_table_runs "uint c" 0] gc_table_runs(2,3)
    runs_increasing [OF gc_table_runs(1) bytes_ok_uint] uint_ge_0 [of c] unfolding gc_of_def by fastforce

end
