(* ===== verification/Prop_Table_Set.thy ===== *)
theory Prop_Table_Set
  imports Range_Fill
begin

unbundle bit_operations_syntax

text \<open>
  \<open>unicode_prop1\<close> of src/quickjs/libunicode.c: on a table that decodes completely the range holds the set of
  the table, the same set \<open>lre_is_in_table\<close> looks up; and every table of the sources decodes.
\<close>

section \<open>A property table\<close>

fun pair_up :: "'a list \<Rightarrow> ('a \<times> 'a) list" where
  "pair_up (a # b # r) = (a, b) # pair_up r"
| "pair_up _ = []"

lemma flat_pair_up: "even (length ps) \<Longrightarrow> flat (pair_up ps) = ps"
  by (induction ps rule: pair_up.induct) auto

lemma prop1_step:
  assumes op: "op_runs (map uint t) = Some (rs, n, rest)" and small: "uint c + sum_list rs < 2 ^ 32"
  obtains (one) c1 t' where "rs = [uint c1 - uint c]" "rest = map uint t'" "length t' < length t"
      "\<And>inb (cr :: 'm CharRange). prop1_loop cr c inb t = or_fail (add_all cr (if inb then [(c, c1)] else [])) (\<lambda>cr. prop1_loop cr c1 (\<not> inb) t')"
    | (two) c1 c2 t' where "rs = [uint c1 - uint c, uint c2 - uint c1]" "rest = map uint t'" "length t' < length t"
      "\<And>inb (cr :: 'm CharRange). prop1_loop cr c inb t = or_fail (add_all cr (if inb then [(c, c1)] else [(c1, c2)])) (\<lambda>cr. prop1_loop cr c2 inb t')"
proof -
  have pick: "or_fail (if inb then cr_add_interval cr a b else Some (0, cr)) f = or_fail (add_all cr (if inb then [(a, b)] else [])) f"
    for inb a b and cr :: "'m CharRange" and f by (cases inb) (simp_all only: add_one if_True if_False add_all.simps(1))
  note eqs = prop1_loop.simps(2) Let_def or_fail_def [symmetric] if_True if_False list.case
  show ?thesis using op small
  proof (cases rule: op_words)
    case (short b p c1 c2)
    have "prop1_loop cr c inb t = or_fail (if inb then cr_add_interval cr c c1 else Some (0, cr))
        (\<lambda>cr. or_fail (if \<not> inb then cr_add_interval cr c1 c2 else Some (0, cr)) (\<lambda>cr. prop1_loop cr c2 inb p))"
      for inb and cr :: "'m CharRange" using short(1,2,4,5) by (simp only: eqs)
    then have "prop1_loop cr c inb t = or_fail (add_all cr (if inb then [(c, c1)] else [(c1, c2)])) (\<lambda>cr. prop1_loop cr c2 inb p)"
      for inb and cr :: "'m CharRange" unfolding pick by (cases inb) (simp_all only: if_True if_False add_all.simps(1) or_fail_simps simp_thms)
    then show ?thesis using short by (intro two [OF short(6,3)]) (simp_all only: list.size)
  next
    case (byte b p c1)
    have "prop1_loop cr c inb t = or_fail (if inb then cr_add_interval cr c c1 else Some (0, cr)) (\<lambda>cr. prop1_loop cr c1 (\<not> inb) p)"
      for inb and cr :: "'m CharRange" using byte(1-3,5) by (simp only: eqs)
    then show ?thesis unfolding pick by (intro one [OF byte(6,4)]) (simp add: byte(1))
  next
    case (two b x p c1)
    have "prop1_loop cr c inb t = or_fail (if inb then cr_add_interval cr c c1 else Some (0, cr)) (\<lambda>cr. prop1_loop cr c1 (\<not> inb) p)"
      for inb and cr :: "'m CharRange" using two(1-4,6) by (simp only: eqs)
    then show ?thesis unfolding pick by (intro one [OF two(7,5)]) (simp add: two(1))
  next
    case (three b x y p c1)
    have "prop1_loop cr c inb t = or_fail (if inb then cr_add_interval cr c c1 else Some (0, cr)) (\<lambda>cr. prop1_loop cr c1 (\<not> inb) p)"
      for inb and cr :: "'m CharRange" using three(1-4,6) by (simp only: eqs)
    then show ?thesis unfolding pick by (intro one [OF three(7,5)]) (simp add: three(1))
  qed
qed

lemma prop1_loop_points:
  "table_points (uint c) (map uint t) = Some ps \<Longrightarrow> \<forall>p \<in> set ps. p < 2 ^ 32 \<Longrightarrow> even (length ps) = (\<not> inb) \<Longrightarrow>
   prop1_loop cr c inb t = add_all cr (pair_up ((if inb then [c] else []) @ map word_of_int ps))"
proof (induction "length t" arbitrary: t c inb ps cr rule: less_induct)
  case less
  show ?case
  proof (cases "t = []")
    case True
    then show ?thesis using less.prems by (simp add: table_points.simps)
  next
    case False
    then obtain rs n rest qs where o: "op_runs (map uint t) = Some (rs, n, rest)" and
      q: "table_points (last (uint c # run_ends (uint c) rs)) rest = Some qs" and
      ps: "ps = run_ends (uint c) rs @ qs"
      using less.prems(1) by (subst (asm) table_points.simps) (auto split: option.splits)
    have "rs \<noteq> []" using o by (cases "map uint t") (auto split: if_splits list.splits)
    then have "uint c + sum_list rs \<in> set ps"
      using ps run_ends_simps(2) [of "uint c" rs] last_in_set [of "run_ends (uint c) rs"] by (cases rs) auto
    then have small: "uint c + sum_list rs < 2 ^ 32" using less.prems(2) by blast
    show ?thesis using o small
    proof (cases rule: prop1_step [where 'm = 'a])
      case (one c1 t')
      then have "table_points (uint c1) (map uint t') = Some qs" "ps = uint c1 # qs" using q ps by simp_all
      then have "prop1_loop x c1 (\<not> inb) t' = add_all x (pair_up ((if \<not> inb then [c1] else []) @ map word_of_int qs))" for x :: "'a CharRange"
        using less.prems(2,3) by (intro less.hyps [OF one(3)]) simp_all
      then show ?thesis using one(4) \<open>ps = uint c1 # qs\<close> by (cases inb) (simp_all add: add_all_append [symmetric] del: add_all.simps(2))
    next
      case (two c1 c2 t')
      then have "table_points (uint c2) (map uint t') = Some qs" "ps = uint c1 # uint c2 # qs" using q ps by simp_all
      then have "prop1_loop x c2 inb t' = add_all x (pair_up ((if inb then [c2] else []) @ map word_of_int qs))" for x :: "'a CharRange"
        using less.prems(2,3) by (intro less.hyps [OF two(3)]) simp_all
      then show ?thesis using two(4) \<open>ps = uint c1 # uint c2 # qs\<close>
        by (cases inb) (simp_all add: add_all_append [symmetric] del: add_all.simps(2))
    qed
  qed
qed

lemma table_points_bound:
  "table_points code t = Some ps \<Longrightarrow> bytes_ok t \<Longrightarrow> p \<in> set ps \<Longrightarrow> code < p \<and> p \<le> code + 2097152 * int (length t)"
proof (induction code t arbitrary: ps p rule: table_points.induct)
  case (1 code t)
  show ?case
  proof (cases "t = []")
    case False
    then obtain rs n rest qs where o: "op_runs t = Some (rs, n, rest)" and
      q: "table_points (last (code # run_ends code rs)) rest = Some qs" and ps: "ps = run_ends code rs @ qs"
      using 1(2) by (subst (asm) table_points.simps) (auto split: option.splits)
    note r = op_runs_rest [OF o]
    have sum: "sum_list rs \<le> 2097152 * n \<and> length rs \<le> 2" using o 1(3) by (cases t) (auto simp: bytes_ok_def split: if_splits list.splits)
    have srt: "sorted_wrt (<) (code # ps)" by (rule table_points_sorted [OF 1(2,3)])
    have lt: "code < p" using srt 1(4) by simp
    have b: "bytes_ok rest" using r 1(3) bytes_ok_drop by simp
    have len: "int (length rest) = int (length t) - n" using r by (auto simp: of_nat_diff)
    show ?thesis
    proof (cases "p \<in> set qs")
      case True
      then show ?thesis using 1(1) [OF False o refl refl q b True] lt sum len run_ends_simps(2) [of code rs] by (simp add: algebra_simps)
    next
      case False
      then have "p \<in> set (code # run_ends code rs)" using 1(4) ps by simp
      then have "p \<le> code + sum_list rs"
        using last_ge [of code "run_ends code rs" p] run_ends_simps(2) [of code rs] srt ps by (simp add: sorted_wrt_append)
      moreover have "2097152 * n \<le> 2097152 * int (length t)" using r by linarith
      ultimately show ?thesis using lt sum by linarith
    qed
  qed (use 1 in \<open>simp add: table_points.simps\<close>)
qed

section \<open>The tables of the sources decode\<close>

function even_runs :: "bool \<Rightarrow> int list \<Rightarrow> bool" where
  "even_runs out t =
     (if t = [] then out
      else case op_runs t of None \<Rightarrow> False
           | Some (rs, n, rest) \<Rightarrow> even_runs (if even (length rs) then out else \<not> out) rest)"
  by pat_completeness auto
termination
  by (relation "measure (\<lambda>(_, t). length t)") (auto dest!: op_runs_rest)

declare even_runs.simps [simp del]

lemma even_runs_sound:
  "even_runs out t \<Longrightarrow> \<exists>ps. table_points code t = Some ps \<and> even (length ps) = out"
proof (induction out t arbitrary: code rule: even_runs.induct)
  case (1 out t)
  show ?case
  proof (cases "t = []")
    case True
    then show ?thesis using 1(2) by (simp add: table_points.simps even_runs.simps)
  next
    case False
    then obtain rs n rest where o: "op_runs t = Some (rs, n, rest)"
      and e: "even_runs (if even (length rs) then out else \<not> out) rest"
      using 1(2) by (subst (asm) even_runs.simps) (auto split: option.splits)
    from 1(1) [OF False o refl refl e] obtain ps where
      ps: "table_points (code + sum_list rs) rest = Some ps" "even (length ps) = (if even (length rs) then out else \<not> out)" by blast
    show ?thesis using table_points_op [OF o ps(1)] ps(2) run_ends_simps(1) [of code rs] by (auto split: if_splits)
  qed
qed

lemma even_runs_cong: "out = out' \<Longrightarrow> even_runs out t = even_runs out' t"
  by simp

lemma even_runs_exec:
  "even_runs out (map uint []) = out"
  "uint b < 64 \<Longrightarrow> even_runs out (map uint (b # p)) = even_runs out (map uint p)"
  "uint b \<ge> 128 \<Longrightarrow> even_runs out (map uint (b # p)) = even_runs (\<not> out) (map uint p)"
  "64 \<le> uint b \<Longrightarrow> uint b < 96 \<Longrightarrow> even_runs out (map uint (b # x # p)) = even_runs (\<not> out) (map uint p)"
  "96 \<le> uint b \<Longrightarrow> uint b < 128 \<Longrightarrow> even_runs out (map uint (b # x # y # p)) = even_runs (\<not> out) (map uint p)"
  by (subst even_runs.simps; simp)+

text \<open>A table that decodes to an even number of points and is short enough for its codes to stay in range.\<close>

definition table_ok :: "u8 list \<Rightarrow> bool" where
  "table_ok t \<longleftrightarrow> (\<exists>ps. table_points 0 (map uint t) = Some ps \<and> even (length ps)) \<and> length t < 2048"

lemma table_okI: "even_runs True (map uint t) \<Longrightarrow> length t < 2048 \<Longrightarrow> table_ok t"
  using even_runs_sound [of True "map uint t" 0] by (auto simp: table_ok_def)

lemma indexed_table_ok: "index_agrees t ix \<Longrightarrow> length t < 2048 \<Longrightarrow> table_ok t"
  using walk_sound [of 0 0 True "map uint t"] by (fastforce simp: index_agrees_def index_ok_def table_ok_def)

lemmas table_piece_defs =
  unicode_prop_Case_Ignorable_table_def
  unicode_prop_Case_Ignorable_table_0_def
  unicode_prop_Case_Ignorable_table_1_def
  unicode_prop_Case_Ignorable_table_2_def
  unicode_prop_Case_Ignorable_table_3_def
  unicode_prop_ID_Start_table_def
  unicode_prop_ID_Start_table_0_def
  unicode_prop_ID_Start_table_1_def
  unicode_prop_ID_Start_table_2_def
  unicode_prop_ID_Start_table_3_def
  unicode_prop_ID_Start_table_4_def
  unicode_prop_ID_Start_table_5_def
  unicode_prop_ID_Continue1_table_def
  unicode_prop_ID_Continue1_table_0_def
  unicode_prop_ID_Continue1_table_1_def
  unicode_prop_ID_Continue1_table_2_def
  unicode_prop_ID_Continue1_table_3_def

lemma indexed_tables_ok:
  "table_ok unicode_prop_ID_Continue1_table" "table_ok unicode_prop_ID_Start_table" "table_ok unicode_prop_Case_Ignorable_table"
proof -
  have "length unicode_prop_ID_Continue1_table < 2048" "length unicode_prop_ID_Start_table < 2048" "length unicode_prop_Case_Ignorable_table < 2048"
    by (simp_all add: table_piece_defs)
  then show "table_ok unicode_prop_ID_Continue1_table" "table_ok unicode_prop_ID_Start_table" "table_ok unicode_prop_Case_Ignorable_table"
    using indexed_table_ok ID_Continue1_agrees ID_Start_agrees Case_Ignorable_agrees by blast+
qed

lemma prop_tables_ok: "\<forall>t \<in> set unicode_prop_table. table_ok t"
  unfolding unicode_prop_table_def list.set ball_simps
    unicode_prop_Hyphen_table_def
    unicode_prop_Other_Math_table_def
    unicode_prop_Other_Alphabetic_table_def
    unicode_prop_Other_Lowercase_table_def
    unicode_prop_Other_Uppercase_table_def
    unicode_prop_Other_Grapheme_Extend_table_def
    unicode_prop_Other_Default_Ignorable_Code_Point_table_def
    unicode_prop_Other_ID_Start_table_def
    unicode_prop_Other_ID_Continue_table_def
    unicode_prop_Prepended_Concatenation_Mark_table_def
    unicode_prop_XID_Start1_table_def
    unicode_prop_XID_Continue1_table_def
    unicode_prop_Changes_When_Titlecased1_table_def
    unicode_prop_Changes_When_Casefolded1_table_def
    unicode_prop_Changes_When_NFKC_Casefolded1_table_def
    unicode_prop_ASCII_Hex_Digit_table_def
    unicode_prop_Bidi_Control_table_def
    unicode_prop_Dash_table_def
    unicode_prop_Deprecated_table_def
    unicode_prop_Diacritic_table_def
    unicode_prop_Extender_table_def
    unicode_prop_Hex_Digit_table_def
    unicode_prop_IDS_Binary_Operator_table_def
    unicode_prop_IDS_Trinary_Operator_table_def
    unicode_prop_Ideographic_table_def
    unicode_prop_Join_Control_table_def
    unicode_prop_Logical_Order_Exception_table_def
    unicode_prop_Noncharacter_Code_Point_table_def
    unicode_prop_Pattern_Syntax_table_def
    unicode_prop_Pattern_White_Space_table_def
    unicode_prop_Quotation_Mark_table_def
    unicode_prop_Radical_table_def
    unicode_prop_Regional_Indicator_table_def
    unicode_prop_Sentence_Terminal_table_def
    unicode_prop_Soft_Dotted_table_def
    unicode_prop_Terminal_Punctuation_table_def
    unicode_prop_Unified_Ideograph_table_def
    unicode_prop_Variation_Selector_table_def
    unicode_prop_White_Space_table_def
    unicode_prop_Bidi_Mirrored_table_def
    unicode_prop_Emoji_table_def
    unicode_prop_Emoji_Component_table_def
    unicode_prop_Emoji_Modifier_table_def
    unicode_prop_Emoji_Modifier_Base_table_def
    unicode_prop_Emoji_Presentation_table_def
    unicode_prop_Extended_Pictographic_table_def
    unicode_prop_Default_Ignorable_Code_Point_table_def
  by (intro conjI TrueI indexed_tables_ok; rule table_okI) (simp_all add: even_runs_exec del: list.map cong: even_runs_cong)


definition table_codes :: "u8 list \<Rightarrow> u32 set" where
  "table_codes t = {c. uint c \<in> table_set t}"

lemma prop1_table:
  assumes t: "table_ok t" and wf: "cr_wf cr" and empty: "cr_content cr = []"
  shows "ok (prop1_loop cr 0 False t) (\<lambda>(r, cr'). cr_wf cr' \<and> (r = 0 \<and> cr_holds cr' (table_codes t) \<or> r = -1))"
proof -
  obtain ps where ps: "table_points 0 (map uint t) = Some ps" "even (length ps)"
    using t by (auto simp: table_ok_def)
  have range: "\<forall>p \<in> set ps. 0 \<le> p \<and> p < 2 ^ 32"
  proof
    fix p assume "p \<in> set ps"
    then have "0 < p" "p \<le> 2097152 * int (length t)" using table_points_bound [OF ps(1)] by auto
    moreover have "int (length t) \<le> 2047" using t by (simp add: table_ok_def)
    ultimately show "0 \<le> p \<and> p < 2 ^ 32" by simp
  qed
  have sorted: "sorted ps" using table_points_sorted [OF ps(1)] by (simp add: strict_sorted_iff)
  have eq: "prop1_loop cr 0 False t = add_all cr (pair_up (map word_of_int ps))"
    using prop1_loop_points [of 0 t ps False cr] ps range by simp
  have flat: "flat (pair_up (map word_of_int ps)) = (map word_of_int ps :: u32 list)" using ps(2) by (simp add: flat_pair_up)
  have set: "table_codes t = {c. odd (pcount ps (uint c))}" by (simp add: table_codes_def table_set_def ps(1))
  show ?thesis unfolding eq
    using add_all_ok [OF wf, of "pair_up (map word_of_int ps)"] empty holds_points [OF sorted range] ps(2)
    by (auto simp: flat set elim!: ok_mono)
qed

lemma prop_table_length: "length unicode_prop_table = 50" "length unicode_prop_len_table = 50"
  by (simp_all add: unicode_prop_table_def unicode_prop_len_table_def)

definition prop_set :: "nat \<Rightarrow> u32 set" where
  "prop_set i = table_codes (unicode_prop_table ! i)"

lemma unicode_prop1_ok:
  assumes i: "i < 50" and wf: "cr_wf cr" and empty: "cr_content cr = []"
  shows "ok (unicode_prop1 cr i) (\<lambda>(r, cr'). cr_wf cr' \<and> (r = 0 \<and> cr_holds cr' (prop_set i) \<or> r = -1))"
proof -
  let ?t = "unicode_prop_table ! i"
  have t: "table_ok ?t" using prop_tables_ok i prop_table_length(1) by (simp add: nth_mem)
  have n: "unicode_prop_len_table ! i = of_nat (length ?t)" "unat (of_nat (length ?t) :: u16) = length ?t"
    using i t prop_table_length by (simp_all add: unicode_prop_len_table_def table_ok_def unat_of_nat)
  have "unicode_prop1 cr i = prop1_loop cr 0 False ?t"
    using i n prop_table_length by (simp add: unicode_prop1_def slice_def)
  then show ?thesis using prop1_table [OF t wf empty] by (simp add: prop_set_def)
qed

section \<open>Disjoint tables\<close>

text \<open>
  A walk over the points of two tables at once: where it succeeds no code point lies in both sets.
\<close>

fun disj :: "bool \<Rightarrow> int list \<Rightarrow> bool \<Rightarrow> int list \<Rightarrow> bool" where
  "disj ia [] ib [] \<longleftrightarrow> \<not> (ia \<and> ib)"
| "disj ia (p # ps) ib [] \<longleftrightarrow> \<not> (ia \<and> ib) \<and> disj (\<not> ia) ps ib []"
| "disj ia [] ib (q # qs) \<longleftrightarrow> \<not> (ia \<and> ib) \<and> disj ia [] (\<not> ib) qs"
| "disj ia (p # ps) ib (q # qs) \<longleftrightarrow> \<not> (ia \<and> ib) \<and>
     (if p < q then disj (\<not> ia) ps ib (q # qs)
      else if p = q then disj (\<not> ia) ps (\<not> ib) qs
      else disj ia (p # ps) (\<not> ib) qs)"

lemma disj_sound:
  "disj ia ps ib qs \<Longrightarrow> sorted_wrt (<) ps \<Longrightarrow> sorted_wrt (<) qs \<Longrightarrow>
   \<not> (ia \<noteq> odd (pcount ps c) \<and> ib \<noteq> odd (pcount qs c))"
proof (induction ia ps ib qs rule: disj.induct)
  case (1 ia ib)
  then show ?case by simp
next
  case (2 ia p ps ib)
  have "c < p \<Longrightarrow> pcount ps c = 0" using 2(3) by (auto intro!: pcount_none)
  then show ?case using 2 by (cases "p \<le> c") auto
next
  case (3 ia ib q qs)
  have "c < q \<Longrightarrow> pcount qs c = 0" using 3(4) by (auto intro!: pcount_none)
  then show ?case using 3 by (cases "q \<le> c") auto
next
  case (4 ia p ps ib q qs)
  have zp: "c < p \<Longrightarrow> pcount ps c = 0" "c < q \<Longrightarrow> pcount qs c = 0"
    using 4(5,6) by (auto intro!: pcount_none)
  consider "p < q" | "p = q" | "q < p" by linarith
  then show ?case
  proof cases
    case 1
    then show ?thesis using 4(1) 4(4-6) zp by (cases "p \<le> c") auto
  next
    case 2
    then show ?thesis using 4(2) 4(4-6) zp by (cases "p \<le> c") auto
  next
    case 3
    then show ?thesis using 4(3) 4(4-6) zp by (cases "q \<le> c") auto
  qed
qed

lemma op_runs_len: "op_runs t = Some (rs, n, rest) \<Longrightarrow> length rs \<le> 2 \<and> length rest < length t"
  by (cases t) (auto split: if_splits list.splits)

function dwalk :: "bool \<Rightarrow> int list \<Rightarrow> int \<Rightarrow> int list \<Rightarrow> bool \<Rightarrow> int list \<Rightarrow> int \<Rightarrow> int list \<Rightarrow> bool" where
  "dwalk ia p1 c1 t1 ib p2 c2 t2 =
     (if p1 = [] \<and> t1 \<noteq> [] then
        (case op_runs t1 of None \<Rightarrow> False
         | Some (rs, n, rest) \<Rightarrow> dwalk ia (run_ends c1 rs) (c1 + sum_list rs) rest ib p2 c2 t2)
      else if p2 = [] \<and> t2 \<noteq> [] then
        (case op_runs t2 of None \<Rightarrow> False
         | Some (rs, n, rest) \<Rightarrow> dwalk ia p1 c1 t1 ib (run_ends c2 rs) (c2 + sum_list rs) rest)
      else \<not> (ia \<and> ib) \<and>
        (case p1 of
           [] \<Rightarrow> (case p2 of [] \<Rightarrow> True | q # qs \<Rightarrow> dwalk ia [] c1 t1 (\<not> ib) qs c2 t2)
         | p # ps \<Rightarrow> (case p2 of [] \<Rightarrow> dwalk (\<not> ia) ps c1 t1 ib [] c2 t2
             | q # qs \<Rightarrow>
                 if p < q then dwalk (\<not> ia) ps c1 t1 ib (q # qs) c2 t2
                 else if p = q then dwalk (\<not> ia) ps c1 t1 (\<not> ib) qs c2 t2
                 else dwalk ia (p # ps) c1 t1 (\<not> ib) qs c2 t2)))"
  by pat_completeness auto
termination
  by (relation "measure (\<lambda>(_, p1, _, t1, _, p2, _, t2). length p1 + length p2 + 3 * (length t1 + length t2))")
     (auto simp: run_ends_simps dest!: op_runs_len)

declare dwalk.simps [simp del]

lemma table_points_split:
  assumes "op_runs t = Some (rs, n, rest)" "table_points c t = Some q"
  shows "\<exists>qs. table_points (c + sum_list rs) rest = Some qs \<and> q = run_ends c rs @ qs"
proof -
  have "t \<noteq> []" using assms(1) by auto
  then have "map_option ((@) (run_ends c rs)) (table_points (last (c # run_ends c rs)) rest) = Some q"
    using assms by (simp add: table_points.simps [of c t] del: last.simps)
  then show ?thesis unfolding run_ends_simps by auto
qed

lemma dwalk_disj:
  "dwalk ia p1 c1 t1 ib p2 c2 t2 \<Longrightarrow> table_points c1 t1 = Some q1 \<Longrightarrow> table_points c2 t2 = Some q2 \<Longrightarrow>
   disj ia (p1 @ q1) ib (p2 @ q2)"
proof (induction ia p1 c1 t1 ib p2 c2 t2 arbitrary: q1 q2 rule: dwalk.induct)
  case (1 ia p1 c1 t1 ib p2 c2 t2)
  note w = 1(8) and tp = 1(9,10)
  show ?case
  proof (cases "p1 = [] \<and> t1 \<noteq> []")
    case True
    then obtain rs n rest where o: "op_runs t1 = Some (rs, n, rest)"
      "dwalk ia (run_ends c1 rs) (c1 + sum_list rs) rest ib p2 c2 t2"
      using w by (subst (asm) dwalk.simps) (auto split: option.splits)
    obtain qs where "table_points (c1 + sum_list rs) rest = Some qs" "q1 = run_ends c1 rs @ qs" using table_points_split [OF o(1) tp(1)] by blast
    then show ?thesis using 1(1) [OF True o(1) refl refl o(2) _ tp(2)] True by simp
  next
    case f1: False
    show ?thesis
    proof (cases "p2 = [] \<and> t2 \<noteq> []")
      case True
      then obtain rs n rest where o: "op_runs t2 = Some (rs, n, rest)"
        "dwalk ia p1 c1 t1 ib (run_ends c2 rs) (c2 + sum_list rs) rest"
        using w f1 by (subst (asm) dwalk.simps) (simp split: option.splits prod.splits)
      obtain qs where "table_points (c2 + sum_list rs) rest = Some qs" "q2 = run_ends c2 rs @ qs" using table_points_split [OF o(1) tp(2)] by blast
      then show ?thesis using 1(2) [OF f1 True o(1) refl refl o(2) tp(1)] True by simp
    next
      case f2: False
      have e: "p1 = [] \<Longrightarrow> q1 = []" "p2 = [] \<Longrightarrow> q2 = []" using f1 f2 tp by (auto simp: table_points.simps)
      have w': "\<not> (ia \<and> ib)" "case p1 of
           [] \<Rightarrow> (case p2 of [] \<Rightarrow> True | q # qs \<Rightarrow> dwalk ia [] c1 t1 (\<not> ib) qs c2 t2)
         | p # ps \<Rightarrow> (case p2 of [] \<Rightarrow> dwalk (\<not> ia) ps c1 t1 ib [] c2 t2
             | q # qs \<Rightarrow>
                 if p < q then dwalk (\<not> ia) ps c1 t1 ib (q # qs) c2 t2
                 else if p = q then dwalk (\<not> ia) ps c1 t1 (\<not> ib) qs c2 t2
                 else dwalk ia (p # ps) c1 t1 (\<not> ib) qs c2 t2)"
        using w f1 f2 by (subst (asm) dwalk.simps, simp)+
      show ?thesis
      proof (cases p1)
        case Nil
        then show ?thesis using 1(3) [OF f1 f2] w' e tp by (cases p2) auto
      next
        case p: (Cons p ps)
        show ?thesis
        proof (cases p2)
          case Nil
          then show ?thesis using 1(4) [OF f1 f2 p Nil] w' e tp p by simp
        next
          case q: (Cons q qs)
          then show ?thesis using 1(5-7) [OF f1 f2 p q] w' tp p by (simp split: if_splits)
        qed
      qed
    qed
  qed
qed

lemma dwalk_cong:
  "ia = ia' \<Longrightarrow> p1 = p1' \<Longrightarrow> c1 = c1' \<Longrightarrow> ib = ib' \<Longrightarrow> p2 = p2' \<Longrightarrow> c2 = c2' \<Longrightarrow>
   dwalk ia p1 c1 t1 ib p2 c2 t2 = dwalk ia' p1' c1' t1 ib' p2' c2' t2"
  by simp

lemma dwalk_refill1:
  "uint b < 64 \<Longrightarrow> dwalk ia [] c1 (map uint ((b # p) @ r)) ib p2 c2 t2 =
     dwalk ia [c1 + (uint b div 8 + 1), c1 + (uint b div 8 + uint b mod 8 + 2)] (c1 + (uint b div 8 + uint b mod 8 + 2)) (map uint (p @ r)) ib p2 c2 t2"
  "uint b \<ge> 128 \<Longrightarrow> dwalk ia [] c1 (map uint ((b # p) @ r)) ib p2 c2 t2 =
     dwalk ia [c1 + (uint b - 127)] (c1 + (uint b - 127)) (map uint (p @ r)) ib p2 c2 t2"
  "64 \<le> uint b \<Longrightarrow> uint b < 96 \<Longrightarrow> dwalk ia [] c1 (map uint ((b # x # p) @ r)) ib p2 c2 t2 =
     dwalk ia [c1 + ((uint b - 64) * 256 + uint x + 1)] (c1 + ((uint b - 64) * 256 + uint x + 1)) (map uint (p @ r)) ib p2 c2 t2"
  "96 \<le> uint b \<Longrightarrow> uint b < 128 \<Longrightarrow> dwalk ia [] c1 (map uint ((b # x # y # p) @ r)) ib p2 c2 t2 =
     dwalk ia [c1 + ((uint b - 96) * 65536 + uint x * 256 + uint y + 1)] (c1 + ((uint b - 96) * 65536 + uint x * 256 + uint y + 1)) (map uint (p @ r)) ib p2 c2 t2"
  by (subst dwalk.simps; simp add: algebra_simps)+

lemma dwalk_refill2:
  "uint b < 64 \<Longrightarrow> dwalk ia (q # qs) c1 t1 ib [] c2 (map uint ((b # p) @ r)) =
     dwalk ia (q # qs) c1 t1 ib [c2 + (uint b div 8 + 1), c2 + (uint b div 8 + uint b mod 8 + 2)] (c2 + (uint b div 8 + uint b mod 8 + 2)) (map uint (p @ r))"
  "uint b \<ge> 128 \<Longrightarrow> dwalk ia (q # qs) c1 t1 ib [] c2 (map uint ((b # p) @ r)) =
     dwalk ia (q # qs) c1 t1 ib [c2 + (uint b - 127)] (c2 + (uint b - 127)) (map uint (p @ r))"
  "64 \<le> uint b \<Longrightarrow> uint b < 96 \<Longrightarrow> dwalk ia (q # qs) c1 t1 ib [] c2 (map uint ((b # x # p) @ r)) =
     dwalk ia (q # qs) c1 t1 ib [c2 + ((uint b - 64) * 256 + uint x + 1)] (c2 + ((uint b - 64) * 256 + uint x + 1)) (map uint (p @ r))"
  "96 \<le> uint b \<Longrightarrow> uint b < 128 \<Longrightarrow> dwalk ia (q # qs) c1 t1 ib [] c2 (map uint ((b # x # y # p) @ r)) =
     dwalk ia (q # qs) c1 t1 ib [c2 + ((uint b - 96) * 65536 + uint x * 256 + uint y + 1)] (c2 + ((uint b - 96) * 65536 + uint x * 256 + uint y + 1)) (map uint (p @ r))"
  by (subst dwalk.simps; simp add: algebra_simps)+

lemma dwalk_refill3:
  "uint b < 64 \<Longrightarrow> dwalk ia [] c1 (map uint ([] :: u8 list)) ib [] c2 (map uint ((b # p) @ r)) =
     dwalk ia [] c1 (map uint ([] :: u8 list)) ib [c2 + (uint b div 8 + 1), c2 + (uint b div 8 + uint b mod 8 + 2)] (c2 + (uint b div 8 + uint b mod 8 + 2)) (map uint (p @ r))"
  "uint b \<ge> 128 \<Longrightarrow> dwalk ia [] c1 (map uint ([] :: u8 list)) ib [] c2 (map uint ((b # p) @ r)) =
     dwalk ia [] c1 (map uint ([] :: u8 list)) ib [c2 + (uint b - 127)] (c2 + (uint b - 127)) (map uint (p @ r))"
  "64 \<le> uint b \<Longrightarrow> uint b < 96 \<Longrightarrow> dwalk ia [] c1 (map uint ([] :: u8 list)) ib [] c2 (map uint ((b # x # p) @ r)) =
     dwalk ia [] c1 (map uint ([] :: u8 list)) ib [c2 + ((uint b - 64) * 256 + uint x + 1)] (c2 + ((uint b - 64) * 256 + uint x + 1)) (map uint (p @ r))"
  "96 \<le> uint b \<Longrightarrow> uint b < 128 \<Longrightarrow> dwalk ia [] c1 (map uint ([] :: u8 list)) ib [] c2 (map uint ((b # x # y # p) @ r)) =
     dwalk ia [] c1 (map uint ([] :: u8 list)) ib [c2 + ((uint b - 96) * 65536 + uint x * 256 + uint y + 1)] (c2 + ((uint b - 96) * 65536 + uint x * 256 + uint y + 1)) (map uint (p @ r))"
  by (subst dwalk.simps; simp add: algebra_simps)+

lemma dwalk_points:
  "p < q \<Longrightarrow> dwalk ia (p # ps) c1 t1 ib (q # qs) c2 t2 \<longleftrightarrow> \<not> (ia \<and> ib) \<and> dwalk (\<not> ia) ps c1 t1 ib (q # qs) c2 t2"
  "p = q \<Longrightarrow> dwalk ia (p # ps) c1 t1 ib (q # qs) c2 t2 \<longleftrightarrow> \<not> (ia \<and> ib) \<and> dwalk (\<not> ia) ps c1 t1 (\<not> ib) qs c2 t2"
  "q < p \<Longrightarrow> dwalk ia (p # ps) c1 t1 ib (q # qs) c2 t2 \<longleftrightarrow> \<not> (ia \<and> ib) \<and> dwalk ia (p # ps) c1 t1 (\<not> ib) qs c2 t2"
  "dwalk ia (p # ps) c1 t1 ib [] c2 (map uint ([] :: u8 list)) \<longleftrightarrow> \<not> (ia \<and> ib) \<and> dwalk (\<not> ia) ps c1 t1 ib [] c2 (map uint ([] :: u8 list))"
  "dwalk ia [] c1 (map uint ([] :: u8 list)) ib (q # qs) c2 t2 \<longleftrightarrow> \<not> (ia \<and> ib) \<and> dwalk ia [] c1 (map uint ([] :: u8 list)) (\<not> ib) qs c2 t2"
  "dwalk ia [] c1 (map uint ([] :: u8 list)) ib [] c2 (map uint ([] :: u8 list)) \<longleftrightarrow> \<not> (ia \<and> ib)"
  by (subst dwalk.simps; simp)+

lemma dwalk_next_piece:
  "dwalk ia p1 c1 (map uint ([] @ r)) ib p2 c2 t2 = dwalk ia p1 c1 (map uint r) ib p2 c2 t2"
  "dwalk ia p1 c1 t1 ib p2 c2 (map uint ([] @ r)) = dwalk ia p1 c1 t1 ib p2 c2 (map uint r)"
  by simp_all

lemmas dwalk_pieces =
  arg_cong [OF unicode_prop_ID_Start_table_0_def, of "\<lambda>t. dwalk ia p1 c1 (map uint (t @ r)) ib p2 c2 t2" for ia p1 c1 r ib p2 c2 t2]
  arg_cong [OF unicode_prop_ID_Start_table_1_def, of "\<lambda>t. dwalk ia p1 c1 (map uint (t @ r)) ib p2 c2 t2" for ia p1 c1 r ib p2 c2 t2]
  arg_cong [OF unicode_prop_ID_Start_table_2_def, of "\<lambda>t. dwalk ia p1 c1 (map uint (t @ r)) ib p2 c2 t2" for ia p1 c1 r ib p2 c2 t2]
  arg_cong [OF unicode_prop_ID_Start_table_3_def, of "\<lambda>t. dwalk ia p1 c1 (map uint (t @ r)) ib p2 c2 t2" for ia p1 c1 r ib p2 c2 t2]
  arg_cong [OF unicode_prop_ID_Start_table_4_def, of "\<lambda>t. dwalk ia p1 c1 (map uint (t @ r)) ib p2 c2 t2" for ia p1 c1 r ib p2 c2 t2]
  arg_cong [OF unicode_prop_ID_Start_table_5_def, of "\<lambda>t. dwalk ia p1 c1 (map uint (t @ r)) ib p2 c2 t2" for ia p1 c1 r ib p2 c2 t2]
  arg_cong [OF unicode_prop_ID_Continue1_table_0_def, of "\<lambda>t. dwalk ia p1 c1 t1 ib p2 c2 (map uint (t @ r))" for ia p1 c1 t1 ib p2 c2 r]
  arg_cong [OF unicode_prop_ID_Continue1_table_1_def, of "\<lambda>t. dwalk ia p1 c1 t1 ib p2 c2 (map uint (t @ r))" for ia p1 c1 t1 ib p2 c2 r]
  arg_cong [OF unicode_prop_ID_Continue1_table_2_def, of "\<lambda>t. dwalk ia p1 c1 t1 ib p2 c2 (map uint (t @ r))" for ia p1 c1 t1 ib p2 c2 r]
  arg_cong [OF unicode_prop_ID_Continue1_table_3_def, of "\<lambda>t. dwalk ia p1 c1 t1 ib p2 c2 (map uint (t @ r))" for ia p1 c1 t1 ib p2 c2 r]

lemma id_walk:
  "dwalk False [] 0 (map uint unicode_prop_ID_Start_table) False [] 0 (map uint unicode_prop_ID_Continue1_table)"
proof -
  have e: "unicode_prop_ID_Start_table = unicode_prop_ID_Start_table_0 @ unicode_prop_ID_Start_table_1 @ unicode_prop_ID_Start_table_2 @ unicode_prop_ID_Start_table_3 @ unicode_prop_ID_Start_table_4 @ unicode_prop_ID_Start_table_5 @ []"
    "unicode_prop_ID_Continue1_table = unicode_prop_ID_Continue1_table_0 @ unicode_prop_ID_Continue1_table_1 @ unicode_prop_ID_Continue1_table_2 @ unicode_prop_ID_Continue1_table_3 @ []"
    by (simp_all add: unicode_prop_ID_Start_table_def unicode_prop_ID_Continue1_table_def)
  show ?thesis unfolding e
    by (simp del: list.map append.simps append_Nil2 map_append add: dwalk_refill1 dwalk_refill2 dwalk_refill3 dwalk_points
        dwalk_next_piece dwalk_pieces cong: dwalk_cong)
qed

lemma id_tables_disjoint:
  "table_codes unicode_prop_ID_Start_table \<inter> table_codes unicode_prop_ID_Continue1_table = {}"
proof -
  obtain ps qs where t: "table_points 0 (map uint unicode_prop_ID_Start_table) = Some ps"
      "table_points 0 (map uint unicode_prop_ID_Continue1_table) = Some qs"
    using indexed_tables_ok by (auto simp: table_ok_def)
  have s: "sorted_wrt (<) ps" "sorted_wrt (<) qs" using table_points_sorted [OF t(1)] table_points_sorted [OF t(2)] by simp_all
  have "disj False ps False qs" using dwalk_disj [OF id_walk t] by simp
  from disj_sound [OF this s] show ?thesis by (auto simp: table_codes_def table_set_def t)
qed

end
