(* ===== verification/Unicode_Prop_Sets.thy ===== *)
theory Unicode_Prop_Sets
  imports Case_Set Gc_Set Prop_Table_Set
begin

unbundle bit_operations_syntax

text \<open>
  The sets of characters \<open>\p{...}\<close> stands for: the name search of src/quickjs/libunicode.c against
  its reference, the stack machine \<open>unicode_prop_ops\<close> against its denotation in sets, and the two entry
  points \<open>unicode_general_category\<close> and \<open>unicode_prop\<close> against the definition of each property. The three
  decoders the machine calls share one contract, the locale \<open>range_source\<close>.
\<close>

section \<open>Names\<close>

text \<open>The reference for the search: the aliases of an entry and the first entry that has a given one.\<close>

function aliases :: "string \<Rightarrow> string list" where
  "aliases s = (case comma_at s of None \<Rightarrow> [s] | Some k \<Rightarrow> take k s # aliases (drop (k + 1) s))"
  by pat_completeness auto
termination
  by (relation "measure length") (auto simp: comma_at_def split: if_splits dest: length_pos_if_in_set)

declare aliases.simps [simp del]

fun entry_index :: "string \<Rightarrow> string list \<Rightarrow> nat option" where
  "entry_index name [] = None"
| "entry_index name (e # es) = (if name \<in> set (aliases e) then Some 0 else map_option Suc (entry_index name es))"

lemma comma_at_less: "comma_at s = Some k \<Longrightarrow> k < length s"
proof -
  assume "comma_at s = Some k"
  then have "CHR 0x2C \<in> set s" "k = length (takeWhile (\<lambda>x. x \<noteq> CHR 0x2C) s)" by (auto simp: comma_at_def split: if_splits)
  then show ?thesis by (induction s arbitrary: k) auto
qed

lemma c_string_entry: "CHR 0x00 \<notin> set e \<Longrightarrow> c_string (e @ CHR 0x00 # rest) = Some e"
  by (simp add: c_string_def, subst takeWhile_append2) auto

lemma find_alias_entry:
  "CHR 0x00 \<notin> set e \<Longrightarrow> \<exists>q. find_alias (e @ CHR 0x00 # rest) name = Some (name \<in> set (aliases e), q) \<and>
     (name \<notin> set (aliases e) \<longrightarrow> q = rest)"
proof (induction "length e" arbitrary: e rule: less_induct)
  case less
  let ?p = "e @ CHR 0x00 # rest"
  define len where "len = (case comma_at e of None \<Rightarrow> length e | Some k \<Rightarrow> k)"
  have le: "len \<le> length e" using comma_at_less [of e] by (auto simp: len_def split: option.splits)
  note eq = find_alias_eq [OF c_string_entry [OF less.prems] len_def, of rest name]
  have tk: "take len ?p = take len e" "drop (len + 1) ?p = (if comma_at e = None then rest else drop (len + 1) e @ CHR 0x00 # rest)"
    using le comma_at_less [of e] by (auto simp: len_def split: option.splits)
  have hit: "(len = length name \<and> take len e = name) = (take len e = name)" using le by auto
  show ?case
  proof (cases "comma_at e")
    case None
    then show ?thesis using eq tk hit by (auto simp: aliases.simps [of e] len_def)
  next
    case (Some k)
    have "length (drop (k + 1) e) < length e" "CHR 0x00 \<notin> set (drop (k + 1) e)"
      using comma_at_less [OF Some] less.prems by (auto dest: in_set_dropD)
    from less.hyps [OF this] obtain q where q: "find_alias (drop (k + 1) e @ CHR 0x00 # rest) name = Some (name \<in> set (aliases (drop (k + 1) e)), q)"
      "name \<notin> set (aliases (drop (k + 1) e)) \<longrightarrow> q = rest" by blast
    have len: "len = k" by (simp add: len_def Some)
    show ?thesis
    proof (cases "take k e = name")
      case True
      then show ?thesis using eq tk hit Some len by (simp add: aliases.simps [of e])
    next
      case False
      then show ?thesis using eq tk hit Some len q by (simp add: aliases.simps [of e])
    qed
  qed
qed

lemma find_name_entries:
  "\<forall>e \<in> set es. e \<noteq> [] \<and> CHR 0x00 \<notin> set e \<Longrightarrow> find_name_loop (name_table es) pos name =
     Some (case entry_index name es of None \<Rightarrow> -1 | Some i \<Rightarrow> pos + int i)"
proof (induction es arbitrary: pos)
  case Nil
  then show ?case by (subst find_name_loop.simps) (simp add: name_table_def)
next
  case (Cons e es)
  have t: "name_table (e # es) = e @ CHR 0x00 # name_table es" by (simp add: name_table_def)
  obtain x xs where e: "e = x # xs" "x \<noteq> CHR 0x00" using Cons.prems by (cases e) auto
  have hd: "rd (name_table (e # es)) 0 = Some x" using t e(1) by (simp add: rd_def)
  obtain q where q: "find_alias (name_table (e # es)) name = Some (name \<in> set (aliases e), q)"
    "name \<notin> set (aliases e) \<longrightarrow> q = name_table es" using find_alias_entry [of e "name_table es" name] Cons.prems unfolding t by auto
  have "find_name_loop (name_table (e # es)) pos name =
      (if name \<in> set (aliases e) then Some pos else find_name_loop q (pos + 1) name)"
    using hd q(1) e(2) by (subst find_name_loop.simps) simp
  then show ?case using q(2) Cons.IH [of "pos + 1"] Cons.prems by (auto split: option.splits)
qed

section \<open>The stack machine\<close>

text \<open>
  The contract of the three decoders the machine calls: on an empty range they return 0 and the range
  holds a fixed set, or they return -1.
\<close>

locale range_source =
  fixes fill :: "'a \<Rightarrow> 'm CharRange \<Rightarrow> (int \<times> 'm CharRange) option"
    and valid :: "'a \<Rightarrow> bool" and denotes :: "'a \<Rightarrow> u32 set"
  assumes fill_ok: "valid a \<Longrightarrow> cr_wf cr \<Longrightarrow> cr_content cr = [] \<Longrightarrow>
     ok (fill a cr) (\<lambda>(r, cr'). cr_wf cr' \<and> (r = 0 \<and> cr_holds cr' (denotes a) \<or> r = -1))"
begin

lemma pop_push_ok:
  assumes "valid a" "cr_wf cr" "length st < POP_STACK_LEN_MAX" "list_all2 cr_holds st Ss"
  shows "ok (pop_push (fill a) cr m st) (\<lambda>(r, m', st'). r = 0 \<and> list_all2 cr_holds st' (Ss @ [denotes a]) \<or> r = -1)"
proof -
  have "cr_wf (fresh cr m)" "cr_content (fresh cr m) = []"
    using cr_init_wf [of "cr_realloc_func cr" "Some (cr_realloc_func cr)" m] assms(2) by (simp_all add: fresh_def cr_wf_def)
  from fill_ok [OF assms(1) this] show ?thesis
    using assms(3,4) by (auto simp: pop_push_def intro: list_all2_appendI elim!: ok_mono)
qed

end

definition gc_set :: "u32 \<Rightarrow> u32 set" where
  "gc_set gm = {c. \<exists>i. gc_of c = Some i \<and> bit gm i}"

definition case_set :: "u32 \<Rightarrow> u32 set" where
  "case_set m = {c. \<exists>ct \<in> case_convs m. lre_case_conv c ct \<noteq> Some [c]}"

interpretation gc: range_source "\<lambda>a x. unicode_general_category1 x a" "\<lambda>_. True" gc_set
  by unfold_locales (unfold gc_set_def, rule general_category1_ok)

interpretation ptab: range_source "\<lambda>i x. unicode_prop1 x i" "\<lambda>i. i < 50" prop_set
  by unfold_locales (rule unicode_prop1_ok)

interpretation chg: range_source "\<lambda>m x. unicode_case1 x m" "\<lambda>m. m \<in> sources_masks" case_set
  by unfold_locales (unfold case_set_def, rule case1_ok)

text \<open>The machine on sets: what a program of operations denotes.\<close>

definition pop_sets :: "CharRangeOpEnum \<Rightarrow> u32 set list \<Rightarrow> u32 set list option" where
  "pop_sets op Ss =
     (if 2 \<le> length Ss \<and> length Ss < 4 then
        Some (take (length Ss - 2) Ss @ [set_op op (Ss ! (length Ss - 2)) (Ss ! (length Ss - 1))])
      else None)"

fun pop_apply :: "PropOPEnum \<Rightarrow> u32 set list \<Rightarrow> u32 set list option" where
  "pop_apply (POP_GC a) Ss = (if length Ss < 4 then Some (Ss @ [gc_set a]) else None)"
| "pop_apply (POP_PROP i) Ss = (if length Ss < 4 \<and> i < 50 then Some (Ss @ [prop_set i]) else None)"
| "pop_apply (POP_CASE m) Ss = (if length Ss < 4 \<and> m \<in> sources_masks then Some (Ss @ [case_set m]) else None)"
| "pop_apply POP_INVERT Ss = (if Ss = [] then None else Some (butlast Ss @ [UNIV - {- 1} - last Ss]))"
| "pop_apply POP_UNION Ss = pop_sets CR_OP_UNION Ss"
| "pop_apply POP_INTER Ss = pop_sets CR_OP_INTER Ss"
| "pop_apply POP_XOR Ss = pop_sets CR_OP_XOR Ss"
| "pop_apply POP_END Ss = None"

fun pop_eval :: "PropOPEnum list \<Rightarrow> u32 set list \<Rightarrow> u32 set option" where
  "pop_eval [] Ss = None"
| "pop_eval (op # ops) Ss =
     (if op = POP_END then (case Ss of [S] \<Rightarrow> Some S | _ \<Rightarrow> None)
      else do { Ss \<leftarrow> pop_apply op Ss; pop_eval ops Ss })"

lemma pop_binary_ok:
  assumes wf: "cr_wf cr" and n: "2 \<le> length st" "length st < POP_STACK_LEN_MAX" and st: "list_all2 cr_holds st Ss"
  shows "ok (pop_binary op cr m st) (\<lambda>(r, m', st'). r = 0 \<and> list_all2 cr_holds st'
     (take (length Ss - 2) Ss @ [set_op op (Ss ! (length Ss - 2)) (Ss ! (length Ss - 1))]) \<or> r = -1)"
proof -
  let ?n = "length st" and ?a = "st ! (length st - 2)" and ?b = "st ! (length st - 1)"
  have len: "length Ss = ?n" using st by (simp add: list_all2_lengthD)
  have h: "cr_holds ?a (Ss ! (?n - 2))" "cr_holds ?b (Ss ! (?n - 1))" using st n by (auto simp: list_all2_conv_all_nth)
  have sl: "slice (pts x) 0 (cr_len x) = Some (cr_content x)" if "cr_holds x S" for x :: "'a CharRange" and S
    using that by (simp add: slice_def cr_holds_def cr_wf_def cr_content_def)
  have f: "cr_wf (fresh cr m)" "cr_len (fresh cr m) = 0"
    using cr_init_wf [of "cr_realloc_func cr" "Some (cr_realloc_func cr)" m] wf by (simp_all add: fresh_def cr_wf_def cr_init_def)
  have op: "ok (cr_op (fresh cr m) (cr_content ?a) (cr_content ?b) op) (\<lambda>(r, cr'). cr_wf cr' \<and>
     (r = 0 \<and> cr_rep cr' (set_op op (Ss ! (?n - 2)) (Ss ! (?n - 1))) \<or> r = -1))"
  proof -
    have s: "sorted (cr_content ?a)" "even (length (cr_content ?a))" "sorted (cr_content ?b)" "even (length (cr_content ?b))"
      "Ss ! (?n - 2) = {c. cr_in (cr_content ?a) c}" "Ss ! (?n - 1) = {c. cr_in (cr_content ?b) c}"
      using h unfolding cr_holds_def by blast+
    show ?thesis unfolding s(5,6) by (rule cr_op_ok [OF f s(1-4)])
  qed
  have take: "list_all2 cr_holds (take (?n - 2) st) (take (?n - 2) Ss)" using st by (rule list_all2_takeI)
  have fin: "list_all2 cr_holds (take (?n - 2) st @ [x]) (take (?n - 2) Ss @ [S])" if "cr_rep x S" for x :: "'a CharRange" and S
    using take cr_rep_holds [OF that] by (intro list_all2_appendI) simp_all
  show ?thesis
    using op n sl [OF h(1)] sl [OF h(2)] fin len by (auto simp: pop_binary_def Let_def elim!: ok_mono)
qed

lemma pop_invert_ok:
  assumes st: "list_all2 cr_holds st Ss" "st \<noteq> []"
  shows "ok (pop_invert m st) (\<lambda>(r, m', st'). r = 0 \<and> list_all2 cr_holds st' (butlast Ss @ [UNIV - {- 1} - last Ss]) \<or> r = -1)"
proof -
  obtain xs x where x: "st = xs @ [x]" using st(2) by (cases st rule: rev_cases) auto
  then obtain ys y where y: "Ss = ys @ [y]" "list_all2 cr_holds xs ys" "cr_holds x y"
    using st(1) by (auto simp: list_all2_append1 list_all2_Cons1)
  have h: "list_all2 cr_holds (butlast st) (butlast Ss)" "cr_holds (last st) (last Ss)" using x y by simp_all
  have inv: "ok (cr_invert ((last st)\<lparr>mem_opaque := m\<rparr>)) (\<lambda>(r, cr'). cr_wf cr' \<and> (r = 0 \<and> cr_rep cr' (UNIV - {- 1} - last Ss) \<or> r = -1))"
    by (rule cr_invert_holds) (simp add: h)
  have fin: "list_all2 cr_holds (butlast st @ [x]) (butlast Ss @ [S])" if "cr_rep x S" for x :: "'a CharRange" and S
    using h cr_rep_holds [OF that] by (intro list_all2_appendI) simp_all
  show ?thesis using inv st(2) fin by (auto simp: pop_invert_def Suc_le_eq elim!: ok_mono)
qed

lemma pop_step_ok:
  assumes "cr_wf cr" "list_all2 cr_holds st Ss" "pop_apply op Ss = Some Ss'"
  shows "ok (pop_step cr op m st) (\<lambda>(r, m', st'). r = 0 \<and> list_all2 cr_holds st' Ss' \<or> r = -1)"
proof -
  have len: "length st = length Ss" using assms(2) by (rule list_all2_lengthD)
  have bin: "ok (pop_binary b cr m st) (\<lambda>(r, m', st'). r = 0 \<and> list_all2 cr_holds st' Ss' \<or> r = -1)"
    if "pop_sets b Ss = Some Ss'" for b
    using pop_binary_ok [OF assms(1) _ _ assms(2), of b m] that len
    by (auto simp: pop_sets_def POP_STACK_LEN_MAX_def split: if_splits)
  have push: "length st < POP_STACK_LEN_MAX" if "length Ss < 4" using that len by (simp add: POP_STACK_LEN_MAX_def)
  have ne: "Ss \<noteq> [] \<Longrightarrow> st \<noteq> []" using len by auto
  show ?thesis
    using assms(3) bin ne gc.pop_push_ok [OF TrueI assms(1) push assms(2)] ptab.pop_push_ok [OF _ assms(1) push assms(2)]
      chg.pop_push_ok [OF _ assms(1) push assms(2)] pop_invert_ok [OF assms(2)] len
    by (cases op) (auto split: if_splits)
qed

lemma pop_loop_ok:
  assumes wf: "cr_wf cr"
  shows "list_all2 cr_holds st Ss \<Longrightarrow> pop_eval ops Ss = Some S \<Longrightarrow>
     ok (pop_loop cr ops m st) (\<lambda>(r, m', st'). r = 0 \<and> list_all2 cr_holds st' [S] \<or> r = -1)"
proof (induction ops arbitrary: st Ss m)
  case (Cons op ops)
  show ?case
  proof (cases "op = POP_END")
    case True
    then show ?thesis using Cons.prems by (auto split: list.splits)
  next
    case False
    then obtain Ss' where s: "pop_apply op Ss = Some Ss'" "pop_eval ops Ss' = Some S"
      using Cons.prems(2) by (auto simp: bind_eq_Some_conv)
    show ?thesis using pop_step_ok [OF wf Cons.prems(1) s(1), of m] Cons.IH [OF _ s(2)] False by (auto elim!: ok_mono)
  qed
qed simp

lemma prop_ops_ok:
  assumes wf: "cr_wf cr" and ev: "pop_eval ops [] = Some S"
  shows "ok (unicode_prop_ops cr ops) (\<lambda>(r, cr'). cr_wf cr' \<and> (r = 0 \<and> cr_holds cr' S \<or> r = -1))"
proof -
  obtain r m st where l: "pop_loop cr ops (mem_opaque cr) [] = Some (r, m, st)" "r = 0 \<and> list_all2 cr_holds st [S] \<or> r = -1"
    using pop_loop_ok [OF wf _ ev, of "[]" "mem_opaque cr"] by (auto simp: ok_conv)
  show ?thesis
  proof (cases "r = 0")
    case True
    then obtain x where st: "st = [x]" "cr_holds x S" using l(2) by (auto simp: list_all2_Cons2)
    have copy: "ok (cr_copy (cr\<lparr>mem_opaque := m\<rparr>) x) (\<lambda>(r, cr'). cr_wf cr' \<and> (r = 0 \<and> cr_content cr' = cr_content x \<or> r = -1))"
      using cr_copy_ok [of "cr\<lparr>mem_opaque := m\<rparr>" x] wf st(2) by (simp add: cr_holds_def)
    show ?thesis using copy l(1) True st
      by (auto simp: unicode_prop_ops_def cr_holds_def elim!: ok_mono)
  next
    case False
    then show ?thesis using l wf by (auto simp: unicode_prop_ops_def)
  qed
qed

section \<open>The properties as sets\<close>

text \<open>The Unicode properties in set notation, over the categories, the tables and the case conversions.\<close>

abbreviation letters :: u32 where
  "letters \<equiv> M_gc UNICODE_GC_Lu OR M_gc UNICODE_GC_Ll OR M_gc UNICODE_GC_Lt OR M_gc UNICODE_GC_Lm OR M_gc UNICODE_GC_Lo OR M_gc UNICODE_GC_Nl"

definition patterns :: "u32 set" where
  "patterns = prop_set UNICODE_PROP_Pattern_Syntax \<union> prop_set UNICODE_PROP_Pattern_White_Space"

definition sym_diff_set :: "u32 set \<Rightarrow> u32 set \<Rightarrow> u32 set" where
  "sym_diff_set A B = (A - B) \<union> (B - A)"

definition prop_spec :: "nat \<Rightarrow> u32 set" where
  "prop_spec i =
     (if i = UNICODE_PROP_ASCII then {c. c < 0x80}
      else if i = UNICODE_PROP_Any then {c. c < 0x110000}
      else if i = UNICODE_PROP_Changes_When_Uppercased then case_set CASE_U
      else if i = UNICODE_PROP_Changes_When_Lowercased then case_set CASE_L
      else if i = UNICODE_PROP_Changes_When_Casemapped then case_set (CASE_U OR CASE_L OR CASE_F)
      else if i = UNICODE_PROP_Assigned then UNIV - {- 1} - gc_set (M_gc UNICODE_GC_Cn)
      else if i = UNICODE_PROP_Math then gc_set (M_gc UNICODE_GC_Sm) \<union> prop_set UNICODE_PROP_Other_Math
      else if i = UNICODE_PROP_Lowercase then gc_set (M_gc UNICODE_GC_Ll) \<union> prop_set UNICODE_PROP_Other_Lowercase
      else if i = UNICODE_PROP_Uppercase then gc_set (M_gc UNICODE_GC_Lu) \<union> prop_set UNICODE_PROP_Other_Uppercase
      else if i = UNICODE_PROP_Cased then
        gc_set (M_gc UNICODE_GC_Lu OR M_gc UNICODE_GC_Ll OR M_gc UNICODE_GC_Lt) \<union>
        prop_set UNICODE_PROP_Other_Uppercase \<union> prop_set UNICODE_PROP_Other_Lowercase
      else if i = UNICODE_PROP_Alphabetic then
        gc_set letters \<union> prop_set UNICODE_PROP_Other_Uppercase \<union> prop_set UNICODE_PROP_Other_Lowercase \<union>
        prop_set UNICODE_PROP_Other_Alphabetic
      else if i = UNICODE_PROP_Grapheme_Base then
        UNIV - {- 1} - (gc_set (M_gc UNICODE_GC_Cc OR M_gc UNICODE_GC_Cf OR M_gc UNICODE_GC_Cs OR M_gc UNICODE_GC_Co OR
          M_gc UNICODE_GC_Cn OR M_gc UNICODE_GC_Zl OR M_gc UNICODE_GC_Zp OR M_gc UNICODE_GC_Me OR M_gc UNICODE_GC_Mn) \<union>
          prop_set UNICODE_PROP_Other_Grapheme_Extend)
      else if i = UNICODE_PROP_Grapheme_Extend then
        gc_set (M_gc UNICODE_GC_Me OR M_gc UNICODE_GC_Mn) \<union> prop_set UNICODE_PROP_Other_Grapheme_Extend
      else if i = UNICODE_PROP_XID_Start then
        (gc_set letters \<union> prop_set UNICODE_PROP_Other_ID_Start) \<inter> (UNIV - {- 1} - (patterns \<union> prop_set UNICODE_PROP_XID_Start1))
      else if i = UNICODE_PROP_XID_Continue then
        (gc_set (M_gc UNICODE_GC_Lu OR M_gc UNICODE_GC_Ll OR M_gc UNICODE_GC_Lt OR M_gc UNICODE_GC_Lm OR M_gc UNICODE_GC_Lo OR
           M_gc UNICODE_GC_Nl OR M_gc UNICODE_GC_Mn OR M_gc UNICODE_GC_Mc OR M_gc UNICODE_GC_Nd OR M_gc UNICODE_GC_Pc) \<union>
         prop_set UNICODE_PROP_Other_ID_Start \<union> prop_set UNICODE_PROP_Other_ID_Continue) \<inter>
        (UNIV - {- 1} - (patterns \<union> prop_set UNICODE_PROP_XID_Continue1))
      else if i = UNICODE_PROP_Changes_When_Titlecased then
        sym_diff_set (case_set CASE_U) (prop_set UNICODE_PROP_Changes_When_Titlecased1)
      else if i = UNICODE_PROP_Changes_When_Casefolded then
        sym_diff_set (case_set CASE_F) (prop_set UNICODE_PROP_Changes_When_Casefolded1)
      else if i = UNICODE_PROP_Changes_When_NFKC_Casefolded then
        sym_diff_set (case_set CASE_F) (prop_set UNICODE_PROP_Changes_When_NFKC_Casefolded1)
      else if i = UNICODE_PROP_ID_Continue then prop_set UNICODE_PROP_ID_Start \<union> prop_set UNICODE_PROP_ID_Continue1
      else prop_set i)"

lemmas prop_numbers =
  UNICODE_PROP_Hyphen_def UNICODE_PROP_Other_Math_def UNICODE_PROP_Other_Alphabetic_def
  UNICODE_PROP_Other_Lowercase_def UNICODE_PROP_Other_Uppercase_def UNICODE_PROP_Other_Grapheme_Extend_def
  UNICODE_PROP_Other_Default_Ignorable_Code_Point_def UNICODE_PROP_Other_ID_Start_def UNICODE_PROP_Other_ID_Continue_def
  UNICODE_PROP_Prepended_Concatenation_Mark_def UNICODE_PROP_ID_Continue1_def UNICODE_PROP_XID_Start1_def
  UNICODE_PROP_XID_Continue1_def UNICODE_PROP_Changes_When_Titlecased1_def UNICODE_PROP_Changes_When_Casefolded1_def
  UNICODE_PROP_Changes_When_NFKC_Casefolded1_def UNICODE_PROP_ASCII_Hex_Digit_def UNICODE_PROP_Bidi_Control_def
  UNICODE_PROP_Dash_def UNICODE_PROP_Deprecated_def UNICODE_PROP_Diacritic_def
  UNICODE_PROP_Extender_def UNICODE_PROP_Hex_Digit_def UNICODE_PROP_IDS_Binary_Operator_def
  UNICODE_PROP_IDS_Trinary_Operator_def UNICODE_PROP_Ideographic_def UNICODE_PROP_Join_Control_def
  UNICODE_PROP_Logical_Order_Exception_def UNICODE_PROP_Noncharacter_Code_Point_def UNICODE_PROP_Pattern_Syntax_def
  UNICODE_PROP_Pattern_White_Space_def UNICODE_PROP_Quotation_Mark_def UNICODE_PROP_Radical_def
  UNICODE_PROP_Regional_Indicator_def UNICODE_PROP_Sentence_Terminal_def UNICODE_PROP_Soft_Dotted_def
  UNICODE_PROP_Terminal_Punctuation_def UNICODE_PROP_Unified_Ideograph_def UNICODE_PROP_Variation_Selector_def
  UNICODE_PROP_White_Space_def UNICODE_PROP_Bidi_Mirrored_def UNICODE_PROP_Emoji_def
  UNICODE_PROP_Emoji_Component_def UNICODE_PROP_Emoji_Modifier_def UNICODE_PROP_Emoji_Modifier_Base_def
  UNICODE_PROP_Emoji_Presentation_def UNICODE_PROP_Extended_Pictographic_def UNICODE_PROP_Default_Ignorable_Code_Point_def
  UNICODE_PROP_ID_Start_def UNICODE_PROP_Case_Ignorable_def UNICODE_PROP_ASCII_def
  UNICODE_PROP_Alphabetic_def UNICODE_PROP_Any_def UNICODE_PROP_Assigned_def
  UNICODE_PROP_Cased_def UNICODE_PROP_Changes_When_Casefolded_def UNICODE_PROP_Changes_When_Casemapped_def
  UNICODE_PROP_Changes_When_Lowercased_def UNICODE_PROP_Changes_When_NFKC_Casefolded_def UNICODE_PROP_Changes_When_Titlecased_def
  UNICODE_PROP_Changes_When_Uppercased_def UNICODE_PROP_Grapheme_Base_def UNICODE_PROP_Grapheme_Extend_def
  UNICODE_PROP_ID_Continue_def UNICODE_PROP_Lowercase_def UNICODE_PROP_Math_def
  UNICODE_PROP_Uppercase_def UNICODE_PROP_XID_Continue_def UNICODE_PROP_XID_Start_def
  UNICODE_PROP_Cased1_def UNICODE_PROP_COUNT_def

lemma mask_members: "CASE_U \<in> sources_masks" "CASE_L \<in> sources_masks" "CASE_F \<in> sources_masks" "CASE_U OR CASE_L OR CASE_F \<in> sources_masks"
  by (auto simp: sources_masks_def)

lemma prop_set_ids:
  "prop_set UNICODE_PROP_ID_Start = table_codes unicode_prop_ID_Start_table"
  "prop_set UNICODE_PROP_ID_Continue1 = table_codes unicode_prop_ID_Continue1_table"
  "prop_set UNICODE_PROP_Case_Ignorable = table_codes unicode_prop_Case_Ignorable_table"
  by (simp_all add: prop_set_def unicode_prop_table_def UNICODE_PROP_ID_Start_def UNICODE_PROP_ID_Continue1_def
      UNICODE_PROP_Case_Ignorable_def)

lemma program_denotes:
  "prop_program i = Some ops \<Longrightarrow> pop_eval ops [] = Some (prop_spec i)"
  using id_tables_disjoint [folded prop_set_ids]
  by (auto simp: prop_program_def prop_spec_def prop_numbers pop_sets_def mask_members patterns_def sym_diff_set_def Un_assoc split: if_splits)


section \<open>The entry points\<close>

lemma find_name_in:
  assumes "\<forall>e \<in> set es. e \<noteq> [] \<and> CHR 0x00 \<notin> set e"
  shows "unicode_find_name (name_table es) name = Some (case entry_index name es of None \<Rightarrow> -1 | Some i \<Rightarrow> int i)"
  using find_name_entries [OF assms, of 0 name] by (simp add: unicode_find_name_def split: option.splits)

lemma entry_index_less: "entry_index name es = Some i \<Longrightarrow> i < length es"
  by (induction es arbitrary: i) (auto split: if_splits)

lemma prop_names_ok: "\<forall>e \<in> set unicode_prop_name_table_entries. e \<noteq> [] \<and> CHR 0x00 \<notin> set e"
  by (simp add: unicode_prop_name_table_entries_def)

lemma gc_names_ok: "\<forall>e \<in> set unicode_gc_name_table_entries. e \<noteq> [] \<and> CHR 0x00 \<notin> set e"
  by (simp add: unicode_gc_name_table_entries_def)

lemma interval_ok:
  assumes "cr_wf cr" "cr_content cr = []" "0 < b"
  shows "ok (cr_add_interval cr 0 b) (\<lambda>(r, cr'). cr_wf cr' \<and> (r = 0 \<and> cr_holds cr' {c. c < b} \<or> r = -1))"
proof -
  have "cr_holds x {c. c < b}" if "cr_wf x" "cr_content x = [0, b]" for x :: "'a CharRange"
    using that assms(3) by (auto simp: cr_holds_def cr_in_def)
  then show ?thesis using cr_add_interval_ok [OF assms(1), of 0 b] assms(2) by (auto elim!: ok_mono)
qed

text \<open>Every name leads to a table, a program or one of the directly computed properties.\<close>

lemma prop_names_complete:
  assumes "i < length unicode_prop_name_table_entries" "prop_program (i + UNICODE_PROP_ASCII_Hex_Digit) = None"
    "i + UNICODE_PROP_ASCII_Hex_Digit \<notin> {UNICODE_PROP_ASCII, UNICODE_PROP_Any, UNICODE_PROP_Changes_When_Uppercased,
       UNICODE_PROP_Changes_When_Lowercased, UNICODE_PROP_Changes_When_Casemapped}"
  shows "i + UNICODE_PROP_ASCII_Hex_Digit < 50 \<and>
     prop_spec (i + UNICODE_PROP_ASCII_Hex_Digit) = prop_set (i + UNICODE_PROP_ASCII_Hex_Digit)"
proof -
  have "length unicode_prop_name_table_entries = 53" by (simp add: unicode_prop_name_table_entries_def)
  then have "i \<in> {34..<53} \<or> i < 34" using assms(1) by auto
  moreover have "{34..<53} = {34, 35, 36, 37, 38, 39, 40, 41, 42, 43, 44, 45, 46, 47, 48, 49, 50, 51, 52 :: nat}" by (simp add: atLeastLessThan_nat_numeral insert_commute)
  ultimately show ?thesis using assms(2,3) by (elim disjE; simp add: prop_program_def prop_spec_def prop_numbers split: if_splits)
qed

lemma unicode_prop_ok:
  assumes wf: "cr_wf cr" and empty: "cr_content cr = []" and name: "entry_index name unicode_prop_name_table_entries = Some i"
  shows "ok (unicode_prop cr name) (\<lambda>(r, cr'). cr_wf cr' \<and>
     (r = 0 \<and> cr_holds cr' (prop_spec (i + UNICODE_PROP_ASCII_Hex_Digit)) \<or> r = -1))"
proof -
  let ?i = "i + UNICODE_PROP_ASCII_Hex_Digit"
  let ?done = "\<lambda>x. ok x (\<lambda>(r, cr' :: 'a CharRange). cr_wf cr' \<and> (r = 0 \<and> cr_holds cr' (prop_spec ?i) \<or> r = -1))"
  note find = find_name_in [OF prop_names_ok, of name, folded unicode_prop_name_table_def]
  have i: "i < length unicode_prop_name_table_entries" using entry_index_less [OF name] .
  consider (direct) "?i \<in> {UNICODE_PROP_ASCII, UNICODE_PROP_Any, UNICODE_PROP_Changes_When_Uppercased,
       UNICODE_PROP_Changes_When_Lowercased, UNICODE_PROP_Changes_When_Casemapped}"
    | (program) ops where "?i \<notin> {UNICODE_PROP_ASCII, UNICODE_PROP_Any, UNICODE_PROP_Changes_When_Uppercased,
       UNICODE_PROP_Changes_When_Lowercased, UNICODE_PROP_Changes_When_Casemapped}" "prop_program ?i = Some ops"
    | (table) "?i \<notin> {UNICODE_PROP_ASCII, UNICODE_PROP_Any, UNICODE_PROP_Changes_When_Uppercased,
       UNICODE_PROP_Changes_When_Lowercased, UNICODE_PROP_Changes_When_Casemapped}" "prop_program ?i = None" by blast
  then show ?thesis
  proof cases
    case direct
    have "?done (cr_add_interval cr 0 0x80)" if "?i = UNICODE_PROP_ASCII"
      using interval_ok [OF wf empty, of "0x80"] that by (simp add: prop_spec_def)
    moreover have "?done (cr_add_interval cr 0 0x110000)" if "?i = UNICODE_PROP_Any"
      using interval_ok [OF wf empty, of "0x110000"] that by (simp add: prop_spec_def prop_numbers)
    moreover note case_ok = chg.fill_ok [OF _ wf empty]
    moreover have "?done (unicode_case1 cr CASE_U)" if "?i = UNICODE_PROP_Changes_When_Uppercased"
      using case_ok [OF mask_members(1)] that by (simp add: prop_spec_def prop_numbers)
    moreover have "?done (unicode_case1 cr CASE_L)" if "?i = UNICODE_PROP_Changes_When_Lowercased"
      using case_ok [OF mask_members(2)] that by (simp add: prop_spec_def prop_numbers)
    moreover have "?done (unicode_case1 cr (CASE_U OR CASE_L OR CASE_F))" if "?i = UNICODE_PROP_Changes_When_Casemapped"
      using case_ok [OF mask_members(4)] that by (simp add: prop_spec_def prop_numbers)
    ultimately show ?thesis using direct name find by (auto simp: unicode_prop_def Let_def)
  next
    case program
    then have "unicode_prop cr name = unicode_prop_ops cr ops" using name find by (auto simp: unicode_prop_def Let_def)
    then show ?thesis using prop_ops_ok [OF wf program_denotes [OF program(2)]] by simp
  next
    case table
    note t = prop_names_complete [OF i table(2,1)]
    have "unicode_prop cr name = unicode_prop1 cr ?i" using table name find t prop_table_length(1) by (auto simp: unicode_prop_def Let_def)
    then show ?thesis using unicode_prop1_ok [OF conjunct1 [OF t] wf empty] t by simp
  qed
qed

text \<open>The categories a category name stands for: one category, or the members of a group.\<close>

definition gc_members :: "nat \<Rightarrow> nat set" where
  "gc_members i =
     (if i \<le> UNICODE_GC_Co then {i}
      else [{UNICODE_GC_Lu, UNICODE_GC_Ll, UNICODE_GC_Lt},
            {UNICODE_GC_Lu, UNICODE_GC_Ll, UNICODE_GC_Lt, UNICODE_GC_Lm, UNICODE_GC_Lo},
            {UNICODE_GC_Mn, UNICODE_GC_Mc, UNICODE_GC_Me},
            {UNICODE_GC_Nd, UNICODE_GC_Nl, UNICODE_GC_No},
            {UNICODE_GC_Sm, UNICODE_GC_Sc, UNICODE_GC_Sk, UNICODE_GC_So},
            {UNICODE_GC_Pc, UNICODE_GC_Pd, UNICODE_GC_Ps, UNICODE_GC_Pe, UNICODE_GC_Pi, UNICODE_GC_Pf, UNICODE_GC_Po},
            {UNICODE_GC_Zs, UNICODE_GC_Zl, UNICODE_GC_Zp},
            {UNICODE_GC_Cc, UNICODE_GC_Cf, UNICODE_GC_Cs, UNICODE_GC_Co, UNICODE_GC_Cn}] ! (i - UNICODE_GC_LC))"

lemmas gc_numbers = 
  UNICODE_GC_Cn_def UNICODE_GC_Lu_def UNICODE_GC_Ll_def UNICODE_GC_Lt_def UNICODE_GC_Lm_def UNICODE_GC_Lo_def
  UNICODE_GC_Mn_def UNICODE_GC_Mc_def UNICODE_GC_Me_def UNICODE_GC_Nd_def UNICODE_GC_Nl_def UNICODE_GC_No_def
  UNICODE_GC_Sm_def UNICODE_GC_Sc_def UNICODE_GC_Sk_def UNICODE_GC_So_def UNICODE_GC_Pc_def UNICODE_GC_Pd_def
  UNICODE_GC_Ps_def UNICODE_GC_Pe_def UNICODE_GC_Pi_def UNICODE_GC_Pf_def UNICODE_GC_Po_def UNICODE_GC_Zs_def
  UNICODE_GC_Zl_def UNICODE_GC_Zp_def UNICODE_GC_Cc_def UNICODE_GC_Cf_def UNICODE_GC_Cs_def UNICODE_GC_Co_def
  UNICODE_GC_LC_def UNICODE_GC_L_def UNICODE_GC_M_def UNICODE_GC_N_def UNICODE_GC_S_def UNICODE_GC_P_def
  UNICODE_GC_Z_def UNICODE_GC_C_def UNICODE_GC_COUNT_def

lemma bit_M_gc: "i < 32 \<Longrightarrow> bit (M_gc i) k \<longleftrightarrow> k = i"
  by (auto simp: M_gc_def bit_simps)

lemma gc_group_bits:
  assumes "j < 8" shows "bit (unicode_gc_mask_table ! j) k \<longleftrightarrow> k \<in> gc_members (UNICODE_GC_LC + j)"
proof -
  have "j \<in> {0, 1, 2, 3, 4, 5, 6, 7}" using assms by auto
  then show ?thesis
    by (auto simp: unicode_gc_mask_table_def gc_members_def bit_or_iff bit_M_gc gc_numbers)
qed

lemma unicode_general_category_ok:
  assumes wf: "cr_wf cr" and empty: "cr_content cr = []" and name: "entry_index name unicode_gc_name_table_entries = Some i"
  shows "ok (unicode_general_category cr name) (\<lambda>(r, cr'). cr_wf cr' \<and>
     (r = 0 \<and> cr_holds cr' {c. \<exists>k \<in> gc_members i. gc_of c = Some k} \<or> r = -1))"
proof -
  note find = find_name_in [OF gc_names_ok, of name, folded unicode_gc_name_table_def]
  have i: "i < 38" using entry_index_less [OF name] by (simp add: unicode_gc_name_table_entries_def)
  have len: "length unicode_gc_mask_table = 8" by (simp add: unicode_gc_mask_table_def)
  define gm where "gm = (if i \<le> UNICODE_GC_Co then push_bit i 1 else unicode_gc_mask_table ! (i - UNICODE_GC_LC))"
  have eq: "unicode_general_category cr name = unicode_general_category1 cr gm"
    using name find i len by (auto simp: unicode_general_category_def gm_def gc_numbers)
  have bits: "bit gm k \<longleftrightarrow> k \<in> gc_members i" for k
  proof (cases "i \<le> UNICODE_GC_Co")
    case True
    then show ?thesis using bit_M_gc [of i k] by (simp add: gm_def gc_members_def M_gc_def gc_numbers)
  next
    case False
    then show ?thesis using gc_group_bits [of "i - UNICODE_GC_LC" k] i by (simp add: gm_def gc_numbers)
  qed
  have "{c. \<exists>k. gc_of c = Some k \<and> bit gm k} = {c. \<exists>k \<in> gc_members i. gc_of c = Some k}" using bits by auto
  then show ?thesis unfolding eq using general_category1_ok [OF wf empty, of gm] by simp
qed

section \<open>Properties\<close>

lemma alias_exec:
  "aliases [] = [[]]"
  "aliases (CHR 0x2C # s) = [] # aliases s"
  "x \<noteq> CHR 0x2C \<Longrightarrow> aliases (x # s) = (case aliases s of [] \<Rightarrow> [[x]] | a # as \<Rightarrow> (x # a) # as)"
  by (subst aliases.simps; simp add: comma_at_def; subst (2) aliases.simps; simp add: comma_at_def split: option.splits)+

lemma sample_cr_empty: "cr_wf (cr_init sample_cr_alloc () None)" "cr_content (cr_init sample_cr_alloc () None) = []"
  using cr_init_wf [of sample_cr_alloc None "()"] sample_cr_rep by (simp_all add: cr_rep_def sample_cr_alloc_ok)

lemma entry_examples:
  "entry_index ''ID_Start'' unicode_prop_name_table_entries = Some 32"
  "entry_index ''ID_Continue'' unicode_prop_name_table_entries = Some 47"
  "entry_index ''Case_Ignorable'' unicode_prop_name_table_entries = Some 33"
  "entry_index ''Mark'' unicode_gc_name_table_entries = Some 32"
  by (simp_all add: unicode_prop_name_table_entries_def unicode_gc_name_table_entries_def alias_exec)


text \<open>
  The name search: \<open>unicode_find_name\<close> on the name tables of the sources reads only inside the
  table, returns, and gives the position of the first entry with the name among its comma-separated
  aliases, or -1 when no entry has it.
\<close>

theorem find_name_correct:
  "unicode_find_name unicode_prop_name_table name =
     Some (case entry_index name unicode_prop_name_table_entries of None \<Rightarrow> -1 | Some i \<Rightarrow> int i) \<and>
   unicode_find_name unicode_gc_name_table name =
     Some (case entry_index name unicode_gc_name_table_entries of None \<Rightarrow> -1 | Some i \<Rightarrow> int i)"
  unfolding unicode_prop_name_table_def unicode_gc_name_table_def
  using find_name_in [OF prop_names_ok] find_name_in [OF gc_names_ok] by simp

text \<open>
  C12. Refinement of the stack machine: a program that denotes a set of characters, its operands the
  categories, tables and case conversions of the sources, runs in \<open>unicode_prop_ops\<close> without touching the
  stack outside its four slots, and leaves a range that holds exactly that set, or fails with -1 for lack
  of memory.
\<close>

theorem prop_ops_refines:
  assumes "cr_wf cr" and "pop_eval ops [] = Some S"
  shows "ok (unicode_prop_ops cr ops) (\<lambda>(r, cr'). r = 0 \<and> cr_holds cr' S \<or> r = -1)"
  using prop_ops_ok [OF assms] by (auto elim!: ok_mono)

theorem prop_ops_refines_witness:
  "ok (unicode_prop_ops (cr_init sample_cr_alloc () None) [POP_GC (M_gc UNICODE_GC_Sm), POP_PROP UNICODE_PROP_Other_Math, POP_UNION, POP_END])
     (\<lambda>(r, cr'). r = 0 \<and> cr_holds cr' (gc_set (M_gc UNICODE_GC_Sm) \<union> prop_set UNICODE_PROP_Other_Math) \<or> r = -1)"
  by (rule prop_ops_refines) (simp_all add: sample_cr_empty pop_sets_def prop_numbers)

text \<open>
  C4. \<open>unicode_prop\<close>, the set behind \<open>\p{name}\<close> of a regular expression: for an unknown name it returns
  -2 and leaves the range alone; for each of the 53 property names and their aliases the range holds
  exactly the characters of the property - the definition of the property over the categories, the
  tables and the case conversions - or the call fails with -1 for lack of memory.
\<close>

theorem unicode_prop_correct:
  assumes "cr_wf cr" "cr_content cr = []"
  shows "case entry_index name unicode_prop_name_table_entries of
       None \<Rightarrow> unicode_prop cr name = Some (-2, cr)
     | Some i \<Rightarrow> ok (unicode_prop cr name) (\<lambda>(r, cr').
         r = 0 \<and> cr_holds cr' (prop_spec (i + UNICODE_PROP_ASCII_Hex_Digit)) \<or> r = -1)"
proof (cases "entry_index name unicode_prop_name_table_entries")
  case None
  then show ?thesis using find_name_in [OF prop_names_ok, of name, folded unicode_prop_name_table_def] by (simp add: unicode_prop_def)
next
  case (Some i)
  then show ?thesis using unicode_prop_ok [OF assms Some] by (auto elim!: ok_mono)
qed

theorem unicode_prop_correct_witness:
  "ok (unicode_prop (cr_init sample_cr_alloc () None) ''ID_Continue'') (\<lambda>(r, cr').
     r = 0 \<and> cr_holds cr' (prop_set UNICODE_PROP_ID_Start \<union> prop_set UNICODE_PROP_ID_Continue1) \<or> r = -1)"
  using unicode_prop_correct [OF sample_cr_empty, of "''ID_Continue''"]
  by (simp add: entry_examples prop_spec_def prop_numbers)

text \<open>
  C24. \<open>unicode_general_category\<close>: an unknown name gives -2 and leaves the range alone; a category name or
  alias gives the code points of that category, a group name (as \<open>L\<close>, \<open>Mark\<close> or \<open>P\<close>) those of its
  member categories, or -1 for lack of memory.
\<close>

theorem general_category_correct:
  assumes "cr_wf cr" "cr_content cr = []"
  shows "case entry_index name unicode_gc_name_table_entries of
       None \<Rightarrow> unicode_general_category cr name = Some (-2, cr)
     | Some i \<Rightarrow> ok (unicode_general_category cr name) (\<lambda>(r, cr').
         r = 0 \<and> cr_holds cr' {c. \<exists>k \<in> gc_members i. gc_of c = Some k} \<or> r = -1)"
proof (cases "entry_index name unicode_gc_name_table_entries")
  case None
  then show ?thesis using find_name_in [OF gc_names_ok, of name, folded unicode_gc_name_table_def] by (simp add: unicode_general_category_def)
next
  case (Some i)
  then show ?thesis using unicode_general_category_ok [OF assms Some] by (auto elim!: ok_mono)
qed

theorem general_category_correct_witness:
  "ok (unicode_general_category (cr_init sample_cr_alloc () None) ''Mark'') (\<lambda>(r, cr').
     r = 0 \<and> cr_holds cr' {c. \<exists>k \<in> {UNICODE_GC_Mn, UNICODE_GC_Mc, UNICODE_GC_Me}. gc_of c = Some k} \<or> r = -1)"
  using general_category_correct [OF sample_cr_empty, of "''Mark''"]
  by (simp add: entry_examples gc_members_def gc_numbers)

text \<open>
  C23. The categories partition the code space: every code point below \<open>0x110000\<close> has one category
  among the thirty, such that the range computed for a category contains the code point for that
  category and for no other.
\<close>

theorem categories_partition:
  assumes "cr_wf cr" "cr_content cr = []" and "c < 0x110000"
  shows "\<exists>i < 30. \<forall>j < 30. ok (unicode_general_category1 cr (M_gc j)) (\<lambda>(r, cr').
     r = 0 \<and> cr_in (cr_content cr') c = (j = i) \<or> r = -1)"
proof -
  obtain i where i: "gc_of c = Some i" "i < 30" using gc_of_total [of c] assms(3) by (auto simp: word_less_def)
  have "ok (unicode_general_category1 cr (M_gc j)) (\<lambda>(r, cr'). r = 0 \<and> cr_in (cr_content cr') c = (j = i) \<or> r = -1)" if "j < 30" for j
  proof (rule ok_mono [OF general_category1_ok [OF assms(1,2), of "M_gc j"]])
    fix x :: "int \<times> 'a CharRange"
    assume "case x of (r, cr') \<Rightarrow> cr_wf cr' \<and> (r = 0 \<and> cr_holds cr' {c. \<exists>k. gc_of c = Some k \<and> bit (M_gc j) k} \<or> r = -1)"
    then show "case x of (r, cr') \<Rightarrow> r = 0 \<and> cr_in (cr_content cr') c = (j = i) \<or> r = -1"
      using i bit_M_gc [of j i] that by (cases x) (auto simp: cr_holds_def set_eq_iff dest!: spec [of _ c])
  qed
  then show ?thesis using i(2) by blast
qed

theorem categories_partition_witness:
  "\<exists>i < 30. \<forall>j < 30. ok (unicode_general_category1 (cr_init sample_cr_alloc () None) (M_gc j)) (\<lambda>(r, cr').
     r = 0 \<and> cr_in (cr_content cr') 0x41 = (j = i) \<or> r = -1)"
  by (rule categories_partition) (simp_all add: sample_cr_empty)

text \<open>
  C13. The range \<open>unicode_case1\<close> computes for the conversions to upper case, to lower case and to folded
  case, alone or together, holds exactly the characters that \<open>lre_case_conv\<close> maps to something else under
  one of these conversions, though the two functions decode the table of runs in different ways.
\<close>

theorem case_ranges_agree:
  assumes "cr_wf cr" "cr_content cr = []" and "m \<in> {CASE_U, CASE_L, CASE_F, CASE_U OR CASE_L OR CASE_F}"
  shows "ok (unicode_case1 cr m) (\<lambda>(r, cr').
     r = 0 \<and> (\<forall>c. cr_in (cr_content cr') c \<longleftrightarrow> (\<exists>ct \<in> case_convs m. lre_case_conv c ct \<noteq> Some [c])) \<or> r = -1)"
  using case1_ok [of m cr] assms by (auto simp: sources_masks_def cr_holds_def set_eq_iff elim!: ok_mono)

theorem case_ranges_agree_witness:
  "ok (unicode_case1 (cr_init sample_cr_alloc () None) CASE_L) (\<lambda>(r, cr').
     r = 0 \<and> (\<forall>c. cr_in (cr_content cr') c \<longleftrightarrow> (\<exists>ct \<in> case_convs CASE_L. lre_case_conv c ct \<noteq> Some [c])) \<or> r = -1)"
  by (rule case_ranges_agree) (simp_all add: sample_cr_empty)

text \<open>
  C14. The engine's two ways to decide the identifier properties agree: the ranges of \<open>\p{ID_Start}\<close>,
  \<open>\p{ID_Continue}\<close> and \<open>\p{Case_Ignorable}\<close>, built by decoding the tables, contain a character exactly
  when the indexed lookups \<open>lre_is_id_start\<close>, \<open>lre_is_id_continue\<close> and \<open>lre_is_case_ignorable\<close> accept it.
\<close>

theorem identifier_ranges_agree:
  assumes "cr_wf cr" "cr_content cr = []"
  shows "(name, f) \<in> {(''ID_Start'', lre_is_id_start), (''ID_Continue'', lre_is_id_continue), (''Case_Ignorable'', lre_is_case_ignorable)} \<Longrightarrow>
     ok (unicode_prop cr name) (\<lambda>(r, cr'). r = 0 \<and> (\<forall>c. f c = Some (cr_in (cr_content cr') c)) \<or> r = -1)"
proof -
  let ?idx = "{(''ID_Start'', lre_is_id_start), (''ID_Continue'', lre_is_id_continue), (''Case_Ignorable'', lre_is_case_ignorable)}"
  assume "(name, f) \<in> ?idx"
  then obtain i where "entry_index name unicode_prop_name_table_entries = Some i"
    "\<forall>c. f c = Some (c \<in> prop_spec (i + UNICODE_PROP_ASCII_Hex_Digit))"
    using lre_is_in_table_ok [OF ID_Start_agrees] lre_is_in_table_ok [OF ID_Continue1_agrees] lre_is_in_table_ok [OF Case_Ignorable_agrees]
    by (auto simp: entry_examples prop_spec_def prop_numbers prop_set_ids [unfolded prop_numbers] table_codes_def
        lre_is_id_start_def lre_is_id_continue_def lre_is_case_ignorable_def)
  then show ?thesis using unicode_prop_ok [OF assms, of name i] by (auto simp: cr_holds_def elim!: ok_mono)
qed

theorem identifier_ranges_agree_witness:
  "ok (unicode_prop (cr_init sample_cr_alloc () None) ''ID_Start'') (\<lambda>(r, cr').
     r = 0 \<and> (\<forall>c. lre_is_id_start c = Some (cr_in (cr_content cr') c)) \<or> r = -1)"
  by (rule identifier_ranges_agree) (simp_all add: sample_cr_empty)

end
