(* ===== verification/Unicode_Script_Tables.thy ===== *)
theory Unicode_Script_Tables
  imports Unicode_Gc_Tables
begin

text \<open>
  Literal data of src/quickjs/libunicode-table.h for the scripts: the run-length encoded script table and
  the script extensions, in consecutive pieces, the script numbers the code names and the names.
\<close>

definition unicode_script_table_0 :: "u8 list" where
  "unicode_script_table_0 =
   [0xc0, 0x19, 0x99, 0x45, 0x85, 0x19, 0x99, 0x45, 0xae, 0x19, 0x80, 0x45, 0x8e, 0x19, 0x80,
    0x45, 0x84, 0x19, 0x96, 0x45, 0x80, 0x19, 0x9e, 0x45, 0x80, 0x19, 0xe1, 0x60, 0x45, 0xa6,
    0x19, 0x84, 0x45, 0x84, 0x19, 0x81, 0x0d, 0x93, 0x19, 0xe0, 0x0f, 0x37, 0x83, 0x2b, 0x80,
    0x19, 0x82, 0x2b, 0x01, 0x83, 0x2b, 0x80, 0x19, 0x80, 0x2b, 0x03, 0x80, 0x2b, 0x80, 0x19,
    0x80, 0x2b, 0x80, 0x19, 0x82, 0x2b, 0x00, 0x80, 0x2b, 0x00, 0x93, 0x2b, 0x00, 0xbe, 0x2b,
    0x8d, 0x1a, 0x8f, 0x2b, 0xe0, 0x24, 0x1d, 0x81, 0x37, 0xe0, 0x48, 0x1d, 0x00, 0xa5, 0x05,
    0x01, 0xb1, 0x05, 0x01, 0x82, 0x05, 0x00, 0xb6, 0x34, 0x07, 0x9a, 0x34, 0x03, 0x85, 0x34,
    0x0a, 0x84, 0x04, 0x80, 0x19, 0x85, 0x04, 0x80, 0x19, 0x8d, 0x04, 0x80, 0x19, 0x80, 0x04,
    0x00, 0x80, 0x04, 0x80, 0x19, 0x9f, 0x04, 0x80, 0x19, 0x89, 0x04, 0x8a, 0x37, 0x99, 0x04,
    0x80, 0x37, 0xe0, 0x0b, 0x04, 0x80, 0x19, 0xa1, 0x04, 0x8d, 0x87, 0x00, 0xbb, 0x87, 0x01,
    0x82, 0x87, 0xaf, 0x04, 0xb1, 0x91, 0x0d, 0xba, 0x63, 0x01, 0x82, 0x63, 0xad, 0x7b, 0x01,
    0x8e, 0x7b, 0x00, 0x9b, 0x50, 0x01, 0x80, 0x50, 0x00, 0x8a, 0x87, 0x34, 0x94, 0x04, 0x00,
    0x91, 0x04, 0x0a, 0x8e, 0x04, 0x80, 0x19, 0x9c, 0x04, 0xd0, 0x1f, 0x83, 0x37, 0x8e, 0x1f,
    0x81, 0x19, 0x99, 0x1f, 0x83, 0x0b, 0x00, 0x87, 0x0b, 0x01, 0x81, 0x0b, 0x01, 0x95, 0x0b,
    0x00, 0x86, 0x0b, 0x00, 0x80, 0x0b, 0x02, 0x83, 0x0b, 0x01, 0x88, 0x0b, 0x01, 0x81, 0x0b,
    0x01, 0x83, 0x0b, 0x07, 0x80, 0x0b, 0x03, 0x81, 0x0b, 0x00, 0x84, 0x0b, 0x01, 0x98, 0x0b,
    0x01, 0x82, 0x2e, 0x00, 0x85, 0x2e, 0x03, 0x81, 0x2e, 0x01, 0x95, 0x2e, 0x00, 0x86, 0x2e,
    0x00, 0x81, 0x2e, 0x00, 0x81, 0x2e, 0x00, 0x81, 0x2e, 0x01, 0x80, 0x2e, 0x00, 0x84, 0x2e,
    0x03, 0x81, 0x2e, 0x01, 0x82, 0x2e, 0x02, 0x80, 0x2e, 0x06, 0x83, 0x2e, 0x00, 0x80, 0x2e,
    0x06, 0x90, 0x2e, 0x09, 0x82, 0x2c, 0x00, 0x88, 0x2c, 0x00, 0x82, 0x2c, 0x00, 0x95, 0x2c,
    0x00, 0x86, 0x2c, 0x00, 0x81, 0x2c, 0x00, 0x84, 0x2c, 0x01, 0x89, 0x2c, 0x00, 0x82, 0x2c,
    0x00, 0x82, 0x2c, 0x01, 0x80, 0x2c, 0x0e, 0x83, 0x2c, 0x01, 0x8b, 0x2c, 0x06, 0x86, 0x2c,
    0x00, 0x82, 0x70, 0x00, 0x87, 0x70, 0x01, 0x81, 0x70, 0x01, 0x95, 0x70, 0x00, 0x86, 0x70,
    0x00, 0x81, 0x70, 0x00, 0x84, 0x70, 0x01, 0x88, 0x70, 0x01, 0x81, 0x70, 0x01, 0x82, 0x70,
    0x06, 0x82, 0x70, 0x03, 0x81, 0x70, 0x00, 0x84, 0x70, 0x01, 0x91, 0x70, 0x09, 0x81, 0x8e,
    0x00, 0x85, 0x8e, 0x02, 0x82, 0x8e, 0x00, 0x83, 0x8e]"

definition unicode_script_table_1 :: "u8 list" where
  "unicode_script_table_1 =
   [0x02, 0x81, 0x8e, 0x00, 0x80, 0x8e, 0x00, 0x81, 0x8e, 0x02, 0x81, 0x8e, 0x02, 0x82, 0x8e,
    0x02, 0x8b, 0x8e, 0x03, 0x84, 0x8e, 0x02, 0x82, 0x8e, 0x00, 0x83, 0x8e, 0x01, 0x80, 0x8e,
    0x05, 0x80, 0x8e, 0x0d, 0x94, 0x8e, 0x04, 0x8c, 0x90, 0x00, 0x82, 0x90, 0x00, 0x96, 0x90,
    0x00, 0x8f, 0x90, 0x02, 0x87, 0x90, 0x00, 0x82, 0x90, 0x00, 0x83, 0x90, 0x06, 0x81, 0x90,
    0x00, 0x82, 0x90, 0x04, 0x83, 0x90, 0x01, 0x89, 0x90, 0x06, 0x88, 0x90, 0x8c, 0x3c, 0x00,
    0x82, 0x3c, 0x00, 0x96, 0x3c, 0x00, 0x89, 0x3c, 0x00, 0x84, 0x3c, 0x01, 0x88, 0x3c, 0x00,
    0x82, 0x3c, 0x00, 0x83, 0x3c, 0x06, 0x81, 0x3c, 0x06, 0x80, 0x3c, 0x00, 0x83, 0x3c, 0x01,
    0x89, 0x3c, 0x00, 0x81, 0x3c, 0x0c, 0x8c, 0x4f, 0x00, 0x82, 0x4f, 0x00, 0xb2, 0x4f, 0x00,
    0x82, 0x4f, 0x00, 0x85, 0x4f, 0x03, 0x8f, 0x4f, 0x01, 0x99, 0x4f, 0x00, 0x82, 0x81, 0x00,
    0x91, 0x81, 0x02, 0x97, 0x81, 0x00, 0x88, 0x81, 0x00, 0x80, 0x81, 0x01, 0x86, 0x81, 0x02,
    0x80, 0x81, 0x03, 0x85, 0x81, 0x00, 0x80, 0x81, 0x00, 0x87, 0x81, 0x05, 0x89, 0x81, 0x01,
    0x82, 0x81, 0x0b, 0xb9, 0x92, 0x03, 0x80, 0x19, 0x9b, 0x92, 0x24, 0x81, 0x44, 0x00, 0x80,
    0x44, 0x00, 0x84, 0x44, 0x00, 0x97, 0x44, 0x00, 0x80, 0x44, 0x00, 0x96, 0x44, 0x01, 0x84,
    0x44, 0x00, 0x80, 0x44, 0x00, 0x85, 0x44, 0x01, 0x89, 0x44, 0x01, 0x83, 0x44, 0x1f, 0xc7,
    0x93, 0x00, 0xa3, 0x93, 0x03, 0xa6, 0x93, 0x00, 0xa3, 0x93, 0x00, 0x8e, 0x93, 0x00, 0x86,
    0x93, 0x83, 0x19, 0x81, 0x93, 0x24, 0xe0, 0x3f, 0x5e, 0xa5, 0x27, 0x00, 0x80, 0x27, 0x04,
    0x80, 0x27, 0x01, 0xaa, 0x27, 0x80, 0x19, 0x83, 0x27, 0xe0, 0x9f, 0x30, 0xc8, 0x26, 0x00,
    0x83, 0x26, 0x01, 0x86, 0x26, 0x00, 0x80, 0x26, 0x00, 0x83, 0x26, 0x01, 0xa8, 0x26, 0x00,
    0x83, 0x26, 0x01, 0xa0, 0x26, 0x00, 0x83, 0x26, 0x01, 0x86, 0x26, 0x00, 0x80, 0x26, 0x00,
    0x83, 0x26, 0x01, 0x8e, 0x26, 0x00, 0xb8, 0x26, 0x00, 0x83, 0x26, 0x01, 0xc2, 0x26, 0x01,
    0x9f, 0x26, 0x02, 0x99, 0x26, 0x05, 0xd5, 0x17, 0x01, 0x85, 0x17, 0x01, 0xe2, 0x1f, 0x12,
    0x9c, 0x66, 0x02, 0xca, 0x7a, 0x82, 0x19, 0x8a, 0x7a, 0x06, 0x8c, 0x88, 0x00, 0x86, 0x88,
    0x0a, 0x94, 0x32, 0x81, 0x19, 0x08, 0x93, 0x11, 0x0b, 0x8c, 0x89, 0x00, 0x82, 0x89, 0x00,
    0x81, 0x89, 0x0b, 0xdd, 0x40, 0x01, 0x89, 0x40, 0x05, 0x89, 0x40, 0x05, 0x81, 0x5b, 0x81,
    0x19, 0x80, 0x5b, 0x80, 0x19, 0x88, 0x5b, 0x00, 0x89, 0x5b, 0x05, 0xd8, 0x5b, 0x06, 0xaa, 0x5b]"

definition unicode_script_table_2 :: "u8 list" where
  "unicode_script_table_2 =
   [0x04, 0xc5, 0x12, 0x09, 0x9e, 0x47, 0x00, 0x8b, 0x47, 0x03, 0x8b, 0x47, 0x03, 0x80, 0x47,
    0x02, 0x8b, 0x47, 0x9d, 0x8a, 0x01, 0x84, 0x8a, 0x0a, 0xab, 0x61, 0x03, 0x99, 0x61, 0x05,
    0x8a, 0x61, 0x02, 0x81, 0x61, 0x9f, 0x40, 0x9b, 0x10, 0x01, 0x81, 0x10, 0xbe, 0x8b, 0x00,
    0x9c, 0x8b, 0x01, 0x8a, 0x8b, 0x05, 0x89, 0x8b, 0x05, 0x8d, 0x8b, 0x01, 0x90, 0x37, 0x3e,
    0xcb, 0x07, 0x03, 0xac, 0x07, 0x02, 0xbf, 0x85, 0xb3, 0x0a, 0x07, 0x83, 0x0a, 0xb7, 0x46,
    0x02, 0x8e, 0x46, 0x02, 0x82, 0x46, 0xaf, 0x67, 0x88, 0x1d, 0x06, 0xaa, 0x27, 0x01, 0x82,
    0x27, 0x87, 0x85, 0x07, 0x82, 0x37, 0x80, 0x19, 0x8c, 0x37, 0x80, 0x19, 0x86, 0x37, 0x83,
    0x19, 0x80, 0x37, 0x85, 0x19, 0x80, 0x37, 0x82, 0x19, 0x81, 0x37, 0x80, 0x19, 0x04, 0xa5,
    0x45, 0x84, 0x2b, 0x80, 0x1d, 0xb0, 0x45, 0x84, 0x2b, 0x83, 0x45, 0x84, 0x2b, 0x8c, 0x45,
    0x80, 0x1d, 0xc5, 0x45, 0x80, 0x2b, 0xb9, 0x37, 0x00, 0x84, 0x37, 0xe0, 0x9f, 0x45, 0x95,
    0x2b, 0x01, 0x85, 0x2b, 0x01, 0xa5, 0x2b, 0x01, 0x85, 0x2b, 0x01, 0x87, 0x2b, 0x00, 0x80,
    0x2b, 0x00, 0x80, 0x2b, 0x00, 0x80, 0x2b, 0x00, 0x9e, 0x2b, 0x01, 0xb4, 0x2b, 0x00, 0x8e,
    0x2b, 0x00, 0x8d, 0x2b, 0x01, 0x85, 0x2b, 0x00, 0x92, 0x2b, 0x01, 0x82, 0x2b, 0x00, 0x88,
    0x2b, 0x00, 0x8b, 0x19, 0x81, 0x37, 0xd6, 0x19, 0x00, 0x8a, 0x19, 0x80, 0x45, 0x01, 0x8a,
    0x19, 0x80, 0x45, 0x8e, 0x19, 0x00, 0x8c, 0x45, 0x02, 0x9f, 0x19, 0x0f, 0xa0, 0x37, 0x0e,
    0xa5, 0x19, 0x80, 0x2b, 0x82, 0x19, 0x81, 0x45, 0x85, 0x19, 0x80, 0x45, 0x9a, 0x19, 0x80,
    0x45, 0x90, 0x19, 0xa8, 0x45, 0x82, 0x19, 0x03, 0xe2, 0x36, 0x19, 0x18, 0x8a, 0x19, 0x14,
    0xe3, 0x3f, 0x19, 0xe0, 0x9f, 0x0f, 0xe2, 0x13, 0x19, 0x01, 0x9f, 0x19, 0x00, 0xe0, 0x08,
    0x19, 0xae, 0x28, 0x00, 0xae, 0x28, 0x00, 0x9f, 0x45, 0xe0, 0x13, 0x1a, 0x04, 0x86, 0x1a,
    0xa5, 0x27, 0x00, 0x80, 0x27, 0x04, 0x80, 0x27, 0x01, 0xb7, 0x94, 0x06, 0x81, 0x94, 0x0d,
    0x80, 0x94, 0x96, 0x26, 0x08, 0x86, 0x26, 0x00, 0x86, 0x26, 0x00, 0x86, 0x26, 0x00, 0x86,
    0x26, 0x00, 0x86, 0x26, 0x00, 0x86, 0x26, 0x00, 0x86, 0x26, 0x00, 0x86, 0x26, 0x00, 0x9f,
    0x1d, 0xd2, 0x19, 0x2c, 0x99, 0x2f, 0x00, 0xd8, 0x2f, 0x0b, 0xe0, 0x75, 0x2f, 0x19]"

definition unicode_script_table_3 :: "u8 list" where
  "unicode_script_table_3 =
   [0x8b, 0x19, 0x03, 0x84, 0x19, 0x80, 0x2f, 0x80, 0x19, 0x80, 0x2f, 0x98, 0x19, 0x88, 0x2f,
    0x83, 0x37, 0x81, 0x30, 0x87, 0x19, 0x83, 0x2f, 0x83, 0x19, 0x00, 0xd5, 0x35, 0x01, 0x81,
    0x37, 0x81, 0x19, 0x82, 0x35, 0x80, 0x19, 0xd9, 0x3d, 0x81, 0x19, 0x82, 0x3d, 0x04, 0xaa,
    0x0d, 0x00, 0xdd, 0x30, 0x00, 0x8f, 0x19, 0x9f, 0x0d, 0xa3, 0x19, 0x0b, 0x8f, 0x3d, 0x9e,
    0x30, 0x00, 0xbf, 0x19, 0x9e, 0x30, 0xd0, 0x19, 0xae, 0x3d, 0x80, 0x19, 0xd7, 0x3d, 0xe0,
    0x47, 0x19, 0xf0, 0x09, 0x5f, 0x2f, 0xbf, 0x19, 0xf0, 0x41, 0x9c, 0x2f, 0x02, 0xe4, 0x2c,
    0x9b, 0x02, 0xb6, 0x9b, 0x08, 0xaf, 0x4a, 0xe0, 0xcb, 0x97, 0x13, 0xdf, 0x1d, 0xd7, 0x08,
    0x07, 0xa1, 0x19, 0xe0, 0x05, 0x45, 0x82, 0x19, 0xb4, 0x45, 0x01, 0x88, 0x45, 0x29, 0x8a,
    0x45, 0xac, 0x86, 0x02, 0x89, 0x19, 0x05, 0xb7, 0x76, 0x07, 0xc5, 0x7c, 0x07, 0x8b, 0x7c,
    0x05, 0x9f, 0x1f, 0xad, 0x3e, 0x80, 0x19, 0x80, 0x3e, 0xa3, 0x79, 0x0a, 0x80, 0x79, 0x9c,
    0x30, 0x02, 0xcd, 0x3a, 0x00, 0x80, 0x19, 0x89, 0x3a, 0x03, 0x81, 0x3a, 0x9e, 0x5e, 0x00,
    0xb6, 0x16, 0x08, 0x8d, 0x16, 0x01, 0x89, 0x16, 0x01, 0x83, 0x16, 0x9f, 0x5e, 0xc2, 0x8c,
    0x17, 0x84, 0x8c, 0x96, 0x55, 0x09, 0x85, 0x26, 0x01, 0x85, 0x26, 0x01, 0x85, 0x26, 0x08,
    0x86, 0x26, 0x00, 0x86, 0x26, 0x00, 0xaa, 0x45, 0x80, 0x19, 0x88, 0x45, 0x80, 0x2b, 0x83,
    0x45, 0x81, 0x19, 0x03, 0xcf, 0x17, 0xad, 0x55, 0x01, 0x89, 0x55, 0x05, 0xf0, 0x1b, 0x43,
    0x30, 0x0b, 0x96, 0x30, 0x03, 0xb0, 0x30, 0x70, 0x10, 0xa3, 0xe1, 0x0d, 0x2f, 0x01, 0xe0,
    0x09, 0x2f, 0x25, 0x86, 0x45, 0x0b, 0x84, 0x05, 0x04, 0x99, 0x34, 0x00, 0x84, 0x34, 0x00,
    0x80, 0x34, 0x00, 0x81, 0x34, 0x00, 0x81, 0x34, 0x00, 0x89, 0x34, 0xe0, 0x11, 0x04, 0x10,
    0xe1, 0x0a, 0x04, 0x81, 0x19, 0x0f, 0xbf, 0x04, 0x01, 0xb5, 0x04, 0x27, 0x8d, 0x04, 0x01,
    0x8f, 0x37, 0x89, 0x19, 0x05, 0x8d, 0x37, 0x81, 0x1d, 0xa2, 0x19, 0x00, 0x92, 0x19, 0x00,
    0x83, 0x19, 0x03, 0x84, 0x04, 0x00, 0xe0, 0x26, 0x04, 0x01, 0x80, 0x19, 0x00, 0x9f, 0x19,
    0x99, 0x45, 0x85, 0x19, 0x99, 0x45, 0x8a, 0x19, 0x89, 0x3d, 0x80, 0x19, 0xac, 0x3d, 0x81,
    0x19, 0x9e, 0x30, 0x02, 0x85, 0x30, 0x01, 0x85, 0x30, 0x01, 0x85, 0x30, 0x01, 0x82, 0x30,
    0x02, 0x86, 0x19, 0x00, 0x86, 0x19, 0x09, 0x84, 0x19, 0x01, 0x8b, 0x49, 0x00, 0x99, 0x49,
    0x00, 0x92, 0x49, 0x00, 0x81, 0x49, 0x00, 0x8e, 0x49, 0x01, 0x8d, 0x49, 0x21, 0xe0, 0x1a, 0x49]"

definition unicode_script_table_4 :: "u8 list" where
  "unicode_script_table_4 =
   [0x04, 0x82, 0x19, 0x03, 0xac, 0x19, 0x02, 0x88, 0x19, 0xce, 0x2b, 0x00, 0x8c, 0x19, 0x02,
    0x80, 0x2b, 0x2e, 0xac, 0x19, 0x80, 0x37, 0x60, 0x21, 0x9c, 0x4b, 0x02, 0xb0, 0x13, 0x0e,
    0x80, 0x37, 0x9a, 0x19, 0x03, 0xa3, 0x69, 0x08, 0x82, 0x69, 0x9a, 0x29, 0x04, 0xaa, 0x6b,
    0x04, 0x9d, 0x96, 0x00, 0x80, 0x96, 0xa3, 0x6c, 0x03, 0x8d, 0x6c, 0x29, 0xcf, 0x1e, 0xaf,
    0x7e, 0x9d, 0x72, 0x01, 0x89, 0x72, 0x05, 0xa3, 0x71, 0x03, 0xa3, 0x71, 0x03, 0xa7, 0x24,
    0x07, 0xb3, 0x14, 0x0a, 0x80, 0x14, 0x60, 0x2f, 0xe0, 0xd6, 0x48, 0x08, 0x95, 0x48, 0x09,
    0x87, 0x48, 0x60, 0x37, 0x85, 0x1c, 0x01, 0x80, 0x1c, 0x00, 0xab, 0x1c, 0x00, 0x81, 0x1c,
    0x02, 0x80, 0x1c, 0x01, 0x80, 0x1c, 0x95, 0x36, 0x00, 0x88, 0x36, 0x9f, 0x74, 0x9e, 0x5f,
    0x07, 0x88, 0x5f, 0x2f, 0x92, 0x33, 0x00, 0x81, 0x33, 0x04, 0x84, 0x33, 0x9b, 0x77, 0x02,
    0x80, 0x77, 0x99, 0x4c, 0x04, 0x80, 0x4c, 0x3f, 0x9f, 0x58, 0x97, 0x57, 0x03, 0x93, 0x57,
    0x01, 0xad, 0x57, 0x83, 0x3f, 0x00, 0x81, 0x3f, 0x04, 0x87, 0x3f, 0x00, 0x82, 0x3f, 0x00,
    0x9c, 0x3f, 0x01, 0x82, 0x3f, 0x03, 0x89, 0x3f, 0x06, 0x88, 0x3f, 0x06, 0x9f, 0x6e, 0x9f,
    0x6a, 0x1f, 0xa6, 0x51, 0x03, 0x8b, 0x51, 0x08, 0xb5, 0x06, 0x02, 0x86, 0x06, 0x95, 0x39,
    0x01, 0x87, 0x39, 0x92, 0x38, 0x04, 0x87, 0x38, 0x91, 0x78, 0x06, 0x83, 0x78, 0x0b, 0x86,
    0x78, 0x4f, 0xc8, 0x6f, 0x36, 0xb2, 0x68, 0x0c, 0xb2, 0x68, 0x06, 0x85, 0x68, 0xa7, 0x31,
    0x07, 0x89, 0x31, 0x60, 0xc5, 0x9e, 0x04, 0x00, 0xa9, 0x9a, 0x00, 0x82, 0x9a, 0x01, 0x81,
    0x9a, 0x4d, 0xa7, 0x6d, 0x07, 0xa9, 0x82, 0x55, 0x9b, 0x18, 0x13, 0x96, 0x25, 0x08, 0xcd,
    0x0e, 0x03, 0x9d, 0x0e, 0x0e, 0x80, 0x0e, 0xc1, 0x3b, 0x0a, 0x80, 0x3b, 0x01, 0x98, 0x83,
    0x06, 0x89, 0x83, 0x05, 0xb4, 0x15, 0x00, 0x91, 0x15, 0x07, 0xa6, 0x4e, 0x08, 0xdf, 0x7d,
    0x00, 0x93, 0x81, 0x0a, 0x91, 0x41, 0x00, 0xab, 0x41, 0x40, 0x86, 0x5d, 0x00, 0x80, 0x5d,
    0x00, 0x83, 0x5d, 0x00, 0x8e, 0x5d, 0x00, 0x8a, 0x5d, 0x05, 0xba, 0x43, 0x04, 0x89, 0x43,
    0x05, 0x83, 0x2a, 0x00, 0x87, 0x2a, 0x01, 0x81, 0x2a, 0x01, 0x95, 0x2a, 0x00, 0x86, 0x2a,
    0x00, 0x81, 0x2a, 0x00, 0x84, 0x2a, 0x00, 0x80, 0x37, 0x88, 0x2a, 0x01, 0x81, 0x2a, 0x01,
    0x82, 0x2a, 0x01, 0x80, 0x2a, 0x05, 0x80, 0x2a, 0x04, 0x86, 0x2a, 0x01, 0x86, 0x2a, 0x02]"

definition unicode_script_table_5 :: "u8 list" where
  "unicode_script_table_5 =
   [0x84, 0x2a, 0x60, 0x2a, 0xdb, 0x62, 0x00, 0x84, 0x62, 0x1d, 0xc7, 0x95, 0x07, 0x89, 0x95,
    0x60, 0x45, 0xb5, 0x7f, 0x01, 0xa5, 0x7f, 0x21, 0xc4, 0x5a, 0x0a, 0x89, 0x5a, 0x05, 0x8c,
    0x5b, 0x12, 0xb8, 0x8d, 0x06, 0x89, 0x8d, 0x35, 0x9a, 0x02, 0x01, 0x8e, 0x02, 0x03, 0x8f,
    0x02, 0x60, 0x5f, 0xbb, 0x21, 0x60, 0x03, 0xd2, 0x99, 0x0b, 0x80, 0x99, 0x86, 0x20, 0x01,
    0x80, 0x20, 0x01, 0x87, 0x20, 0x00, 0x81, 0x20, 0x00, 0x9d, 0x20, 0x00, 0x81, 0x20, 0x01,
    0x8b, 0x20, 0x08, 0x89, 0x20, 0x45, 0x87, 0x60, 0x01, 0xad, 0x60, 0x01, 0x8a, 0x60, 0x1a,
    0xc7, 0x9c, 0x07, 0xd2, 0x84, 0x1c, 0xb8, 0x75, 0x60, 0xa6, 0x88, 0x0c, 0x00, 0xac, 0x0c,
    0x00, 0x8d, 0x0c, 0x09, 0x9c, 0x0c, 0x02, 0x9f, 0x52, 0x01, 0x95, 0x52, 0x00, 0x8d, 0x52,
    0x48, 0x86, 0x53, 0x00, 0x81, 0x53, 0x00, 0xab, 0x53, 0x02, 0x80, 0x53, 0x00, 0x81, 0x53,
    0x00, 0x88, 0x53, 0x07, 0x89, 0x53, 0x05, 0x85, 0x2d, 0x00, 0x81, 0x2d, 0x00, 0xa4, 0x2d,
    0x00, 0x81, 0x2d, 0x00, 0x85, 0x2d, 0x06, 0x89, 0x2d, 0x60, 0xd5, 0x98, 0x4d, 0x60, 0x56,
    0x80, 0x4a, 0x0e, 0xb1, 0x8e, 0x0c, 0x80, 0x8e, 0xe3, 0x39, 0x1b, 0x60, 0x05, 0xe0, 0x0e,
    0x1b, 0x00, 0x84, 0x1b, 0x0a, 0xe0, 0x63, 0x1b, 0x6a, 0x5b, 0xe3, 0xce, 0x23, 0x00, 0x88,
    0x23, 0x6f, 0x66, 0xe1, 0xe6, 0x03, 0x70, 0x11, 0x58, 0xe1, 0xd8, 0x08, 0x06, 0x9e, 0x5c,
    0x00, 0x89, 0x5c, 0x03, 0x81, 0x5c, 0x5f, 0x9d, 0x09, 0x01, 0x85, 0x09, 0x09, 0xc5, 0x73,
    0x09, 0x89, 0x73, 0x00, 0x86, 0x73, 0x00, 0x94, 0x73, 0x04, 0x92, 0x73, 0x62, 0x4f, 0xda,
    0x54, 0x60, 0x04, 0xca, 0x59, 0x03, 0xb8, 0x59, 0x06, 0x90, 0x59, 0x3f, 0x80, 0x8f, 0x80,
    0x64, 0x81, 0x19, 0x80, 0x42, 0x0a, 0x81, 0x2f, 0x0d, 0xf0, 0x07, 0x97, 0x8f, 0x07, 0xe2,
    0x9f, 0x8f, 0xe1, 0x75, 0x42, 0x29, 0x88, 0x8f, 0x70, 0x12, 0x96, 0x80, 0x3d, 0xe0, 0xbd,
    0x35, 0x30, 0x82, 0x35, 0x10, 0x83, 0x3d, 0x07, 0xe1, 0x2b, 0x64, 0x68, 0xa3, 0xe0, 0x0a,
    0x22, 0x04, 0x8c, 0x22, 0x02, 0x88, 0x22, 0x06, 0x89, 0x22, 0x01, 0x83, 0x22, 0x83, 0x19,
    0x70, 0x02, 0xfb, 0xe0, 0x95, 0x19, 0x09, 0xa6, 0x19, 0x01, 0xbd, 0x19, 0x82, 0x37, 0x90,
    0x19, 0x87, 0x37, 0x81, 0x19, 0x86, 0x37, 0x9d, 0x19, 0x83, 0x37, 0xba, 0x19, 0x16, 0xc5,
    0x2b, 0x60, 0x39, 0x93, 0x19, 0x0b, 0xd6, 0x19, 0x08, 0x98, 0x19, 0x60, 0x26, 0xd4, 0x19,
    0x00, 0xc6, 0x19, 0x00, 0x81, 0x19, 0x01, 0x80, 0x19, 0x01, 0x81, 0x19, 0x01, 0x83, 0x19,
    0x00, 0x8b, 0x19, 0x00, 0x80, 0x19, 0x00, 0x86, 0x19]"

definition unicode_script_table_6 :: "u8 list" where
  "unicode_script_table_6 =
   [0x00, 0xc0, 0x19, 0x00, 0x83, 0x19, 0x01, 0x87, 0x19, 0x00, 0x86, 0x19, 0x00, 0x9b, 0x19,
    0x00, 0x83, 0x19, 0x00, 0x84, 0x19, 0x00, 0x80, 0x19, 0x02, 0x86, 0x19, 0x00, 0xe0, 0xf3,
    0x19, 0x01, 0xe0, 0xc3, 0x19, 0x01, 0xb1, 0x19, 0xe2, 0x2b, 0x80, 0x0e, 0x84, 0x80, 0x00,
    0x8e, 0x80, 0x64, 0xef, 0x86, 0x28, 0x00, 0x90, 0x28, 0x01, 0x86, 0x28, 0x00, 0x81, 0x28,
    0x00, 0x84, 0x28, 0x60, 0x74, 0xac, 0x65, 0x02, 0x8d, 0x65, 0x01, 0x89, 0x65, 0x03, 0x81,
    0x65, 0x61, 0x0f, 0xb9, 0x98, 0x04, 0x80, 0x98, 0x64, 0x9f, 0xe0, 0x64, 0x56, 0x01, 0x8f,
    0x56, 0x28, 0xcb, 0x01, 0x03, 0x89, 0x01, 0x03, 0x81, 0x01, 0x62, 0xb0, 0xc3, 0x19, 0x4b,
    0xbc, 0x19, 0x60, 0x61, 0x83, 0x04, 0x00, 0x9a, 0x04, 0x00, 0x81, 0x04, 0x00, 0x80, 0x04,
    0x01, 0x80, 0x04, 0x00, 0x89, 0x04, 0x00, 0x83, 0x04, 0x00, 0x80, 0x04, 0x00, 0x80, 0x04,
    0x05, 0x80, 0x04, 0x03, 0x80, 0x04, 0x00, 0x80, 0x04, 0x00, 0x80, 0x04, 0x00, 0x82, 0x04,
    0x00, 0x81, 0x04, 0x00, 0x80, 0x04, 0x01, 0x80, 0x04, 0x00, 0x80, 0x04, 0x00, 0x80, 0x04,
    0x00, 0x80, 0x04, 0x00, 0x80, 0x04, 0x00, 0x81, 0x04, 0x00, 0x80, 0x04, 0x01, 0x83, 0x04,
    0x00, 0x86, 0x04, 0x00, 0x83, 0x04, 0x00, 0x83, 0x04, 0x00, 0x80, 0x04, 0x00, 0x89, 0x04,
    0x00, 0x90, 0x04, 0x04, 0x82, 0x04, 0x00, 0x84, 0x04, 0x00, 0x90, 0x04, 0x33, 0x81, 0x04,
    0x60, 0xad, 0xab, 0x19, 0x03, 0xe0, 0x03, 0x19, 0x0b, 0x8e, 0x19, 0x01, 0x8e, 0x19, 0x00,
    0x8e, 0x19, 0x00, 0xa4, 0x19, 0x09, 0xe0, 0x4d, 0x19, 0x37, 0x99, 0x19, 0x80, 0x35, 0x81,
    0x19, 0x0c, 0xab, 0x19, 0x03, 0x88, 0x19, 0x06, 0x81, 0x19, 0x0d, 0x85, 0x19, 0x60, 0x39,
    0xe3, 0x77, 0x19, 0x07, 0x8c, 0x19, 0x02, 0x8c, 0x19, 0x02, 0xe0, 0x13, 0x19, 0x0b, 0xd8,
    0x19, 0x06, 0x8b, 0x19, 0x13, 0x8b, 0x19, 0x03, 0xb7, 0x19, 0x07, 0x89, 0x19, 0x05, 0xa7,
    0x19, 0x07, 0x9d, 0x19, 0x01, 0x81, 0x19, 0x4d, 0xe0, 0x18, 0x19, 0x00, 0xd1, 0x19, 0x00,
    0xe0, 0x26, 0x19, 0x0b, 0x8d, 0x19, 0x01, 0x84, 0x19, 0x02, 0x82, 0x19, 0x04, 0x86, 0x19,
    0x08, 0x98, 0x19, 0x06, 0x86, 0x19, 0x08, 0x82, 0x19, 0x0c, 0x86, 0x19, 0x28, 0xe0, 0x32,
    0x19, 0x00, 0xb6, 0x19, 0x24, 0x89, 0x19, 0x63, 0xa5, 0xf0, 0x96, 0x7d, 0x2f, 0x21, 0xef,
    0xd4, 0x2f, 0x0a, 0xe0, 0x7d, 0x2f, 0x01, 0xf0, 0x06, 0x21, 0x2f, 0x0d, 0xf0, 0x0c, 0xd0,
    0x2f, 0x6b, 0xbe, 0xe1, 0xbd, 0x2f, 0x65, 0x81]"

definition unicode_script_table_7 :: "u8 list" where
  "unicode_script_table_7 =
   [0xf0, 0x02, 0xea, 0x2f, 0x7a, 0xdc, 0x55, 0x80, 0x19, 0x1d, 0xdf, 0x19, 0x60, 0x1f, 0xe0,
    0x8f, 0x37]"

definition unicode_script_table :: "u8 list" where
  "unicode_script_table =
    unicode_script_table_0 @ unicode_script_table_1 @ unicode_script_table_2 @
    unicode_script_table_3 @ unicode_script_table_4 @ unicode_script_table_5 @
    unicode_script_table_6 @ unicode_script_table_7"

definition unicode_script_ext_table_0 :: "u8 list" where
  "unicode_script_ext_table_0 =
   [0x82, 0xc1, 0x00, 0x00, 0x01, 0x2b, 0x01, 0x00, 0x00, 0x01, 0x2b, 0x1c, 0x00, 0x0c, 0x01,
    0x45, 0x80, 0x92, 0x00, 0x00, 0x02, 0x1d, 0x6b, 0x00, 0x02, 0x1d, 0x28, 0x01, 0x02, 0x1d,
    0x45, 0x00, 0x02, 0x1d, 0x28, 0x81, 0x03, 0x00, 0x00, 0x05, 0x04, 0x31, 0x87, 0x91, 0x9a,
    0x0d, 0x00, 0x00, 0x05, 0x04, 0x31, 0x87, 0x91, 0x9a, 0x00, 0x03, 0x04, 0x87, 0x91, 0x01,
    0x00, 0x00, 0x05, 0x04, 0x31, 0x87, 0x91, 0x9a, 0x1f, 0x00, 0x00, 0x08, 0x01, 0x04, 0x50,
    0x51, 0x78, 0x31, 0x82, 0x87, 0x09, 0x00, 0x0a, 0x02, 0x04, 0x87, 0x09, 0x00, 0x09, 0x03,
    0x04, 0x91, 0x9a, 0x05, 0x00, 0x00, 0x02, 0x04, 0x87, 0x62, 0x00, 0x00, 0x02, 0x04, 0x31,
    0x81, 0xfb, 0x00, 0x00, 0x0d, 0x0b, 0x1f, 0x2a, 0x2c, 0x2e, 0x3c, 0x45, 0x4f, 0x70, 0x7d,
    0x8e, 0x90, 0x95, 0x00, 0x0c, 0x0b, 0x1f, 0x2a, 0x2c, 0x2e, 0x3c, 0x45, 0x4f, 0x70, 0x8e,
    0x90, 0x95, 0x10, 0x00, 0x00, 0x14, 0x0b, 0x1f, 0x21, 0x2d, 0x53, 0x2a, 0x2c, 0x2e, 0x3c,
    0x4e, 0x4f, 0x60, 0x70, 0x43, 0x81, 0x86, 0x8d, 0x8e, 0x90, 0x95, 0x00, 0x15, 0x0b, 0x1f,
    0x21, 0x2d, 0x53, 0x2a, 0x2c, 0x2e, 0x3c, 0x47, 0x4e, 0x4f, 0x60, 0x70, 0x43, 0x81, 0x86,
    0x8d, 0x8e, 0x90, 0x95, 0x09, 0x04, 0x1f, 0x21, 0x3b, 0x4e, 0x75, 0x00, 0x09, 0x03, 0x0b,
    0x15, 0x86, 0x75, 0x00, 0x09, 0x02, 0x2e, 0x5d, 0x75, 0x00, 0x09, 0x02, 0x2c, 0x41, 0x80,
    0x75, 0x00, 0x0d, 0x02, 0x2a, 0x8e, 0x80, 0x71, 0x00, 0x09, 0x02, 0x3c, 0x60, 0x82, 0xcf,
    0x00, 0x09, 0x03, 0x15, 0x5e, 0x8a, 0x80, 0x30, 0x00, 0x00, 0x02, 0x27, 0x45, 0x85, 0xb8,
    0x00, 0x01, 0x04, 0x11, 0x32, 0x89, 0x88, 0x80, 0x4a, 0x00, 0x01, 0x02, 0x5b, 0x76, 0x00,
    0x00, 0x00, 0x02, 0x5b, 0x76, 0x84, 0x49, 0x00, 0x00, 0x04, 0x0b, 0x1f, 0x2a, 0x3c, 0x00,
    0x01, 0x1f, 0x00, 0x04, 0x0b, 0x1f, 0x2a, 0x3c, 0x00, 0x02, 0x1f, 0x2a, 0x00, 0x01, 0x1f,
    0x01, 0x02, 0x0b, 0x1f, 0x00, 0x02, 0x1f, 0x7d, 0x00, 0x02, 0x0b, 0x1f, 0x00, 0x02, 0x1f,
    0x7d, 0x00, 0x06, 0x1f, 0x3c, 0x4f, 0x70, 0x8e, 0x90, 0x00, 0x01, 0x1f, 0x01, 0x02, 0x1f,
    0x7d, 0x01, 0x01, 0x1f, 0x00, 0x02, 0x1f, 0x7d, 0x00, 0x02, 0x0b, 0x1f, 0x06, 0x01, 0x1f,
    0x00, 0x02, 0x1f, 0x60, 0x00, 0x02, 0x0b, 0x1f, 0x01, 0x01, 0x1f, 0x00, 0x02, 0x0b, 0x1f,
    0x03, 0x01, 0x1f, 0x00, 0x08, 0x0b, 0x1f, 0x2a, 0x3c, 0x60, 0x70, 0x90, 0x95, 0x00, 0x02,
    0x1f, 0x2a, 0x00, 0x03, 0x1f, 0x2a, 0x3c, 0x01, 0x02, 0x0b, 0x1f, 0x00, 0x01, 0x0b, 0x01,
    0x02, 0x1f, 0x2a, 0x00, 0x01, 0x60, 0x80, 0x44, 0x00]"

definition unicode_script_ext_table_1 :: "u8 list" where
  "unicode_script_ext_table_1 =
   [0x01, 0x01, 0x2b, 0x35, 0x00, 0x00, 0x02, 0x1d, 0x87, 0x81, 0xb5, 0x00, 0x00, 0x02, 0x45,
    0x5b, 0x80, 0x3f, 0x00, 0x00, 0x03, 0x1f, 0x2a, 0x45, 0x8c, 0xd1, 0x00, 0x00, 0x02, 0x1d,
    0x28, 0x81, 0x3c, 0x00, 0x01, 0x06, 0x0d, 0x30, 0x2f, 0x35, 0x3d, 0x9b, 0x00, 0x05, 0x0d,
    0x30, 0x2f, 0x35, 0x3d, 0x01, 0x00, 0x00, 0x01, 0x2f, 0x00, 0x00, 0x09, 0x06, 0x0d, 0x30,
    0x2f, 0x35, 0x3d, 0x9b, 0x00, 0x00, 0x00, 0x05, 0x0d, 0x30, 0x2f, 0x35, 0x3d, 0x07, 0x06,
    0x0d, 0x30, 0x2f, 0x35, 0x3d, 0x9b, 0x03, 0x05, 0x0d, 0x30, 0x2f, 0x35, 0x3d, 0x09, 0x00,
    0x03, 0x02, 0x0d, 0x2f, 0x01, 0x00, 0x00, 0x05, 0x0d, 0x30, 0x2f, 0x35, 0x3d, 0x04, 0x02,
    0x35, 0x3d, 0x00, 0x00, 0x00, 0x05, 0x0d, 0x30, 0x2f, 0x35, 0x3d, 0x03, 0x00, 0x01, 0x03,
    0x2f, 0x35, 0x3d, 0x01, 0x01, 0x2f, 0x58, 0x00, 0x03, 0x02, 0x35, 0x3d, 0x02, 0x00, 0x00,
    0x02, 0x35, 0x3d, 0x59, 0x00, 0x00, 0x06, 0x0d, 0x30, 0x2f, 0x35, 0x3d, 0x9b, 0x00, 0x02,
    0x35, 0x3d, 0x80, 0x12, 0x00, 0x0f, 0x01, 0x2f, 0x1f, 0x00, 0x23, 0x01, 0x2f, 0x3b, 0x00,
    0x27, 0x01, 0x2f, 0x37, 0x00, 0x30, 0x01, 0x2f, 0x0e, 0x00, 0x0b, 0x01, 0x2f, 0x32, 0x00,
    0x00, 0x01, 0x2f, 0x57, 0x00, 0x18, 0x01, 0x2f, 0x09, 0x00, 0x04, 0x01, 0x2f, 0x5f, 0x00,
    0x1e, 0x01, 0x2f, 0xc0, 0x31, 0xef, 0x00, 0x00, 0x02, 0x1d, 0x28, 0x80, 0x0f, 0x00, 0x07,
    0x02, 0x2f, 0x45, 0x80, 0xa7, 0x00, 0x02, 0x0e, 0x1f, 0x21, 0x2c, 0x2e, 0x41, 0x3c, 0x3b,
    0x4e, 0x4f, 0x5a, 0x60, 0x43, 0x8d, 0x95, 0x02, 0x0d, 0x1f, 0x21, 0x2c, 0x2e, 0x41, 0x3c,
    0x3b, 0x4e, 0x5a, 0x60, 0x43, 0x8d, 0x95, 0x03, 0x0b, 0x1f, 0x21, 0x2c, 0x2e, 0x41, 0x3b,
    0x4e, 0x5a, 0x43, 0x8d, 0x95, 0x80, 0x36, 0x00, 0x00, 0x02, 0x0b, 0x1f, 0x00, 0x00, 0x00,
    0x02, 0x1f, 0x8e, 0x39, 0x00, 0x00, 0x03, 0x3e, 0x45, 0x5e, 0x80, 0x1f, 0x00, 0x00, 0x02,
    0x10, 0x3a, 0xc0, 0x13, 0xa1, 0x00, 0x00, 0x02, 0x04, 0x91, 0x09, 0x00, 0x00, 0x02, 0x04,
    0x91, 0x46, 0x00, 0x01, 0x05, 0x0d, 0x30, 0x2f, 0x35, 0x3d, 0x80, 0x99, 0x00, 0x04, 0x06,
    0x0d, 0x30, 0x2f, 0x35, 0x3d, 0x9b, 0x09, 0x00, 0x00, 0x02, 0x35, 0x3d, 0x2c, 0x00, 0x01,
    0x02, 0x35, 0x3d, 0x80, 0xdf, 0x00, 0x02, 0x02, 0x1c, 0x49, 0x03, 0x00, 0x2c, 0x03, 0x1c,
    0x48, 0x49, 0x02, 0x00, 0x08, 0x02, 0x1c, 0x49, 0x81, 0x1f, 0x00, 0x1b, 0x02, 0x04, 0x1a]"

definition unicode_script_ext_table_2 :: "u8 list" where
  "unicode_script_ext_table_2 =
   [0x8f, 0x84, 0x00, 0x00, 0x02, 0x2a, 0x8e, 0x00, 0x00, 0x00, 0x02, 0x2a, 0x8e, 0x36, 0x00,
    0x01, 0x02, 0x2a, 0x8e, 0x8c, 0x12, 0x00, 0x01, 0x02, 0x2a, 0x8e, 0x00, 0x00, 0x00, 0x02,
    0x2a, 0x8e, 0xc0, 0x5c, 0x4b, 0x00, 0x03, 0x01, 0x22, 0x96, 0x3b, 0x00, 0x11, 0x01, 0x2f,
    0x9e, 0x5d, 0x00, 0x01, 0x01, 0x2f, 0xce, 0xcd, 0x2d, 0x00]"

definition unicode_script_ext_table :: "u8 list" where
  "unicode_script_ext_table =
    unicode_script_ext_table_0 @ unicode_script_ext_table_1 @ unicode_script_ext_table_2"

definition UNICODE_SCRIPT_Unknown :: nat where "UNICODE_SCRIPT_Unknown = 0"
definition UNICODE_SCRIPT_Common :: nat where "UNICODE_SCRIPT_Common = 25"
definition UNICODE_SCRIPT_Inherited :: nat where "UNICODE_SCRIPT_Inherited = 55"
definition UNICODE_SCRIPT_COUNT :: nat where "UNICODE_SCRIPT_COUNT = 157"

definition unicode_script_name_table_entries :: "string list" where
  "unicode_script_name_table_entries =
   [''Adlam,Adlm'', ''Ahom,Ahom'', ''Anatolian_Hieroglyphs,Hluw'', ''Arabic,Arab'',
    ''Armenian,Armn'', ''Avestan,Avst'', ''Balinese,Bali'', ''Bamum,Bamu'', ''Bassa_Vah,Bass'',
    ''Batak,Batk'', ''Bengali,Beng'', ''Bhaiksuki,Bhks'', ''Bopomofo,Bopo'', ''Brahmi,Brah'',
    ''Braille,Brai'', ''Buginese,Bugi'', ''Buhid,Buhd'', ''Canadian_Aboriginal,Cans'',
    ''Carian,Cari'', ''Caucasian_Albanian,Aghb'', ''Chakma,Cakm'', ''Cham,Cham'',
    ''Cherokee,Cher'', ''Chorasmian,Chrs'', ''Common,Zyyy'', ''Coptic,Copt,Qaac'',
    ''Cuneiform,Xsux'', ''Cypriot,Cprt'', ''Cyrillic,Cyrl'', ''Deseret,Dsrt'',
    ''Devanagari,Deva'', ''Dives_Akuru,Diak'', ''Dogra,Dogr'', ''Duployan,Dupl'',
    ''Egyptian_Hieroglyphs,Egyp'', ''Elbasan,Elba'', ''Elymaic,Elym'', ''Ethiopic,Ethi'',
    ''Georgian,Geor'', ''Glagolitic,Glag'', ''Gothic,Goth'', ''Grantha,Gran'', ''Greek,Grek'',
    ''Gujarati,Gujr'', ''Gunjala_Gondi,Gong'', ''Gurmukhi,Guru'', ''Han,Hani'', ''Hangul,Hang'',
    ''Hanifi_Rohingya,Rohg'', ''Hanunoo,Hano'', ''Hatran,Hatr'', ''Hebrew,Hebr'',
    ''Hiragana,Hira'', ''Imperial_Aramaic,Armi'', ''Inherited,Zinh,Qaai'',
    ''Inscriptional_Pahlavi,Phli'', ''Inscriptional_Parthian,Prti'', ''Javanese,Java'',
    ''Kaithi,Kthi'', ''Kannada,Knda'', ''Katakana,Kana'', ''Kayah_Li,Kali'',
    ''Kharoshthi,Khar'', ''Khmer,Khmr'', ''Khojki,Khoj'', ''Khitan_Small_Script,Kits'',
    ''Khudawadi,Sind'', ''Lao,Laoo'', ''Latin,Latn'', ''Lepcha,Lepc'', ''Limbu,Limb'',
    ''Linear_A,Lina'', ''Linear_B,Linb'', ''Lisu,Lisu'', ''Lycian,Lyci'', ''Lydian,Lydi'',
    ''Makasar,Maka'', ''Mahajani,Mahj'', ''Malayalam,Mlym'', ''Mandaic,Mand'',
    ''Manichaean,Mani'', ''Marchen,Marc'', ''Masaram_Gondi,Gonm'', ''Medefaidrin,Medf'',
    ''Meetei_Mayek,Mtei'', ''Mende_Kikakui,Mend'', ''Meroitic_Cursive,Merc'',
    ''Meroitic_Hieroglyphs,Mero'', ''Miao,Plrd'', ''Modi,Modi'', ''Mongolian,Mong'',
    ''Mro,Mroo'', ''Multani,Mult'', ''Myanmar,Mymr'', ''Nabataean,Nbat'', ''Nandinagari,Nand'',
    ''New_Tai_Lue,Talu'', ''Newa,Newa'', ''Nko,Nkoo'', ''Nushu,Nshu'',
    ''Nyiakeng_Puachue_Hmong,Hmnp'', ''Ogham,Ogam'', ''Ol_Chiki,Olck'', ''Old_Hungarian,Hung'',
    ''Old_Italic,Ital'', ''Old_North_Arabian,Narb'', ''Old_Permic,Perm'', ''Old_Persian,Xpeo'',
    ''Old_Sogdian,Sogo'', ''Old_South_Arabian,Sarb'', ''Old_Turkic,Orkh'', ''Oriya,Orya'',
    ''Osage,Osge'', ''Osmanya,Osma'', ''Pahawh_Hmong,Hmng'', ''Palmyrene,Palm'',
    ''Pau_Cin_Hau,Pauc'', ''Phags_Pa,Phag'', ''Phoenician,Phnx'', ''Psalter_Pahlavi,Phlp'',
    ''Rejang,Rjng'', ''Runic,Runr'', ''Samaritan,Samr'', ''Saurashtra,Saur'', ''Sharada,Shrd'',
    ''Shavian,Shaw'', ''Siddham,Sidd'', ''SignWriting,Sgnw'', ''Sinhala,Sinh'',
    ''Sogdian,Sogd'', ''Sora_Sompeng,Sora'', ''Soyombo,Soyo'', ''Sundanese,Sund'',
    ''Syloti_Nagri,Sylo'', ''Syriac,Syrc'', ''Tagalog,Tglg'', ''Tagbanwa,Tagb'',
    ''Tai_Le,Tale'', ''Tai_Tham,Lana'', ''Tai_Viet,Tavt'', ''Takri,Takr'', ''Tamil,Taml'',
    ''Tangut,Tang'', ''Telugu,Telu'', ''Thaana,Thaa'', ''Thai,Thai'', ''Tibetan,Tibt'',
    ''Tifinagh,Tfng'', ''Tirhuta,Tirh'', ''Ugaritic,Ugar'', ''Vai,Vaii'', ''Wancho,Wcho'',
    ''Warang_Citi,Wara'', ''Yezidi,Yezi'', ''Yi,Yiii'', ''Zanabazar_Square,Zanb'']"

definition unicode_script_name_table :: "char list" where
  "unicode_script_name_table = name_table unicode_script_name_table_entries"

end
