(* ===== verification/Unicode_Script.thy ===== *)
theory Unicode_Script
  imports Label_Runs Cr_Memory Unicode_Prop_Sets Unicode_Script_Tables
begin

unbundle bit_operations_syntax

text \<open>
  \<open>unicode_script\<close> of src/quickjs/libunicode.c: the set of the characters of a script, or of a script with
  its extensions (\<open>\p{Script=...}\<close> and \<open>\p{Script_Extensions=...}\<close> of a regular expression). The label \<open>fail\<close>
  of the function ends in a jump to itself: a call that reaches it never returns, which is the value
  \<^term>\<open>None\<close> of \<open>script_fail\<close>. So the result is stated for allocators that do not fail, and that a
  failing one keeps the call from returning is a theorem of its own.
\<close>

section \<open>The code\<close>

definition script_run_len :: "u32 \<Rightarrow> u8 list \<Rightarrow> (u32 \<times> u8 list) option" where
  "script_run_len n p =
     (if n < 96 then Some (n, p)
      else if n < 112 then do {
        (x, p) \<leftarrow> next_byte p;
        Some ((push_bit 8 (n - 96) OR x) + 96, p) }
      else do {
        (x, p) \<leftarrow> next_byte p; (y, p) \<leftarrow> next_byte p;
        Some ((push_bit 16 (n - 112) OR push_bit 8 x OR y) + (96 + push_bit 12 1), p) })"

definition script_op :: "u8 list \<Rightarrow> (u32 \<times> u32 \<times> u8 list) option" where
  "script_op p = do {
     (b, p) \<leftarrow> next_byte p;
     (n, p) \<leftarrow> script_run_len (b AND 0x7f) p;
     (v, p) \<leftarrow> (if drop_bit 7 b = 0 then Some (0, p) else next_byte p);
     Some (n, v, p) }"

lemma script_run_len_length: "script_run_len n p = Some (n', q) \<Longrightarrow> length q \<le> length p"
  unfolding script_run_len_def by (cases p; cases "tl p") (auto split: if_split_asm simp del: word_neq_0_conv)

lemma script_op_length: "script_op p = Some (n, v, q) \<Longrightarrow> length q < length p"
proof -
  assume "script_op p = Some (n, v, q)"
  then obtain b p1 p2 where "next_byte p = Some (b, p1)" "script_run_len (b AND 0x7f) p1 = Some (n, p2)"
    "(if drop_bit 7 b = 0 then Some (0, p2) else next_byte p2) = Some (v, q)"
    unfolding script_op_def by (auto simp only: bind_eq_Some_conv split_paired_Ex prod.case option.inject prod.inject)
  then show ?thesis using next_byte_length [of p b p1] next_byte_length [of p2 v q] script_run_len_length [of "b AND 0x7f" p1 n p2]
    by (auto split: if_split_asm)
qed

function script_loop :: "nat \<Rightarrow> 'm CharRange \<Rightarrow> u32 \<Rightarrow> u8 list \<Rightarrow> (int \<times> 'm CharRange) option" where
  "script_loop script_idx cr c p =
     (if p = [] then Some (0, cr)
      else case script_op p of None \<Rightarrow> None
      | Some (n, v, q) \<Rightarrow> do {
          (r, cr) \<leftarrow> (if unat v = script_idx then cr_add_interval cr c (c + n + 1) else Some (0, cr));
          if r \<noteq> 0 then Some (-1, cr) else script_loop script_idx cr (c + n + 1) q })"
  by pat_completeness auto
termination by (relation "measure (\<lambda>(_, _, _, p). length p)") (auto dest: script_op_length)

declare script_loop.simps [simp del]

definition ext_run_len :: "u32 \<Rightarrow> u8 list \<Rightarrow> (u32 \<times> u8 list) option" where
  "ext_run_len b p =
     (if b < 128 then Some (b, p)
      else if b < 128 + 64 then do {
        (x, p) \<leftarrow> next_byte p;
        Some ((push_bit 8 (b - 128) OR x) + 128, p) }
      else do {
        (x, p) \<leftarrow> next_byte p; (y, p) \<leftarrow> next_byte p;
        Some ((push_bit 16 (b - 128 - 64) OR push_bit 8 x OR y) + (128 + push_bit 14 1), p) })"

text \<open>One entry of the extension table: the length of the run less one and the scripts of its characters.\<close>

definition ext_op :: "u8 list \<Rightarrow> (u32 \<times> u8 list \<times> u8 list) option" where
  "ext_op p = do {
     (b, p) \<leftarrow> next_byte p;
     (n, p) \<leftarrow> ext_run_len b p;
     (v_len, p) \<leftarrow> next_byte p;
     vs \<leftarrow> slice p 0 (unat v_len);
     Some (n, vs, drop (unat v_len) p) }"

lemma ext_run_len_length: "ext_run_len n p = Some (n', q) \<Longrightarrow> length q \<le> length p"
  unfolding ext_run_len_def by (cases p; cases "tl p") (auto split: if_split_asm simp del: word_neq_0_conv)

lemma ext_op_length: "ext_op p = Some (n, v, q) \<Longrightarrow> length q < length p"
proof -
  assume "ext_op p = Some (n, v, q)"
  then obtain b p1 p2 v_len p3 where "next_byte p = Some (b, p1)" "ext_run_len b p1 = Some (n, p2)"
    "next_byte p2 = Some (v_len, p3)" "q = drop (unat v_len) p3"
    unfolding ext_op_def by (auto simp only: bind_eq_Some_conv split_paired_Ex prod.case option.inject prod.inject)
  then show ?thesis using next_byte_length [of p b p1] next_byte_length [of p2 v_len p3] ext_run_len_length [of b p1 n p2]
    by auto
qed

definition ext_wanted :: "bool \<Rightarrow> nat \<Rightarrow> u8 list \<Rightarrow> bool" where
  "ext_wanted is_common script_idx vs = (if is_common then vs \<noteq> [] else \<exists>v \<in> set vs. unat v = script_idx)"

function ext_loop :: "bool \<Rightarrow> nat \<Rightarrow> 'm CharRange \<Rightarrow> u32 \<Rightarrow> u8 list \<Rightarrow> (int \<times> 'm CharRange) option" where
  "ext_loop is_common script_idx cr c p =
     (if p = [] then Some (0, cr)
      else case ext_op p of None \<Rightarrow> None
      | Some (n, vs, q) \<Rightarrow> do {
          (r, cr) \<leftarrow> (if ext_wanted is_common script_idx vs then cr_add_interval cr c (c + n + 1) else Some (0, cr));
          if r \<noteq> 0 then Some (-1, cr) else ext_loop is_common script_idx cr (c + n + 1) q })"
  by pat_completeness auto
termination by (relation "measure (\<lambda>(_, _, _, _, p). length p)") (auto dest: ext_op_length)

declare ext_loop.simps [simp del]

text \<open>The label \<open>fail\<close>: the local ranges are freed (for the extensions) and control jumps back to the label.\<close>

partial_function (option) script_fail :: "bool \<Rightarrow> 'm CharRange \<Rightarrow> 'm CharRange \<Rightarrow> 'm \<Rightarrow> (int \<times> 'm CharRange) option" where
  "script_fail is_ext cr1 cr2 m =
     (let m = (if is_ext then cr_free (cr2\<lparr>mem_opaque := cr_free (cr1\<lparr>mem_opaque := m\<rparr>)\<rparr>) else m) in
      script_fail is_ext cr1 cr2 m)"

definition unicode_script :: "'m CharRange \<Rightarrow> string \<Rightarrow> bool \<Rightarrow> (int \<times> 'm CharRange) option" where
  "unicode_script cr script_name is_ext = do {
     idx \<leftarrow> unicode_find_name unicode_script_name_table script_name;
     if idx < 0 then Some (-2, cr)
     else do {
       let script_idx = nat idx + UNICODE_SCRIPT_Unknown + 1;
       let is_common = (script_idx = UNICODE_SCRIPT_Common \<or> script_idx = UNICODE_SCRIPT_Inherited);
       if \<not> is_ext then do {
         (r, cr) \<leftarrow> script_loop script_idx cr 0 unicode_script_table;
         if r \<noteq> 0 then script_fail False cr cr (mem_opaque cr) else Some (0, cr) }
       else do {
         (r, cr1) \<leftarrow> script_loop script_idx (fresh cr (mem_opaque cr)) 0 unicode_script_table;
         if r \<noteq> 0 then script_fail True cr1 (fresh cr (mem_opaque cr1)) (mem_opaque cr1)
         else do {
           (r, cr2) \<leftarrow> ext_loop is_common script_idx (fresh cr (mem_opaque cr1)) 0 unicode_script_ext_table;
           if r \<noteq> 0 then script_fail True cr1 cr2 (mem_opaque cr2)
           else do {
             (r, cr2) \<leftarrow> (if is_common then cr_invert cr2 else Some (0, cr2));
             if r \<noteq> 0 then script_fail True cr1 cr2 (mem_opaque cr2)
             else do {
               a \<leftarrow> slice (pts cr1) 0 (cr_len cr1); b \<leftarrow> slice (pts cr2) 0 (cr_len cr2);
               (r, cr) \<leftarrow> cr_op (cr\<lparr>mem_opaque := mem_opaque cr2\<rparr>) a b (if is_common then CR_OP_INTER else CR_OP_UNION);
               if r \<noteq> 0 then script_fail True cr1 cr2 (mem_opaque cr)
               else do {
                 let m = cr_free (cr1\<lparr>mem_opaque := mem_opaque cr\<rparr>);
                 let m = cr_free (cr2\<lparr>mem_opaque := m\<rparr>);
                 Some (0, cr\<lparr>mem_opaque := m\<rparr>) } } } } } } }"

lemma script_fail_diverges: "script_fail is_ext cr1 cr2 m = None"
proof -
  have "script_fail is_ext cr1 cr2 m = Some y \<Longrightarrow> False" for y
    by (rule script_fail.raw_induct [of "\<lambda>is_ext cr1 cr2 m y. False"]) (auto simp: Let_def)
  then show ?thesis by (cases "script_fail is_ext cr1 cr2 m") auto
qed

section \<open>The tables as runs\<close>

text \<open>The reference decoders: label and length of a run.\<close>

fun sc_len :: "int \<Rightarrow> int list \<Rightarrow> (int \<times> int list) option" where
  "sc_len m p =
     (if m < 96 then Some (m + 1, p)
      else if m < 112 then (case p of [] \<Rightarrow> None | x # p \<Rightarrow> Some ((m - 96) * 256 + x + 97, p))
      else (case p of x # y # p \<Rightarrow> Some ((m - 112) * 65536 + x * 256 + y + 4193, p) | _ \<Rightarrow> None))"

declare sc_len.simps [simp del]

fun sc_op :: "int list \<Rightarrow> (int \<times> int \<times> int list) option" where
  "sc_op [] = None"
| "sc_op (b # p) =
     (case sc_len (b mod 128) p of None \<Rightarrow> None
      | Some (n, p) \<Rightarrow> if b < 128 then Some (0, n, p) else (case p of [] \<Rightarrow> None | v # p \<Rightarrow> Some (v, n, p)))"

fun ex_len :: "int \<Rightarrow> int list \<Rightarrow> (int \<times> int list) option" where
  "ex_len b p =
     (if b < 128 then Some (b + 1, p)
      else if b < 192 then (case p of [] \<Rightarrow> None | x # p \<Rightarrow> Some ((b - 128) * 256 + x + 129, p))
      else (case p of x # y # p \<Rightarrow> Some ((b - 192) * 65536 + x * 256 + y + 16513, p) | _ \<Rightarrow> None))"

declare ex_len.simps [simp del]

fun ex_op :: "int list \<Rightarrow> (int list \<times> int \<times> int list) option" where
  "ex_op [] = None"
| "ex_op (b # p) =
     (case ex_len b p of None \<Rightarrow> None
      | Some (n, p) \<Rightarrow> (case p of [] \<Rightarrow> None
          | k # p \<Rightarrow> if nat k \<le> length p then Some (take (nat k) p, n, drop (nat k) p) else None))"

lemma uint_u8_u32: "uint (ucast (b :: u8) :: u32) = uint b"
  by (simp only: uint_nat unat_ucast_u32)

lemma u8_less: "(ucast (b :: u8) :: u32) < k \<longleftrightarrow> uint b < uint k"
  by (simp only: word_less_def uint_u8_u32)

lemma ext_run_len_ref:
  assumes "ex_len (uint b) (map uint p) = Some (n, rest)"
  obtains w q where "ext_run_len (ucast (b :: u8)) p = Some (w, q)" "rest = map uint q" "uint w = n - 1"
proof -
  consider "uint b < 128" | x q where "\<not> uint b < 128" "uint b < 192" "p = x # q"
    | x y q where "\<not> uint b < 192" "p = x # y # q"
    using assms unfolding ex_len.simps [of "uint b"] by (cases p; cases "tl p") (auto split: if_split_asm)
  then show ?thesis
  proof cases
    case 1
    then show ?thesis using assms by (intro that [of "ucast b" p]) (simp_all add: ext_run_len_def ex_len.simps u8_less uint_u8_u32)
  next
    case (2 x q)
    let ?w = "push_bit 8 ((ucast b :: u32) - 128) OR ucast x"
    have k: "128 \<le> unat b" using 2(1) unat_eq_nat_uint [of b] by linarith
    have w: "uint ?w = (uint b - 128) * 256 + uint x" using or_bytes2 [OF k, of x] by simp
    have "uint (?w + 128) = uint ?w + 128" using uint_add_small [of ?w 128] w 2(2) uint_byte_less [of x] by simp
    moreover have "ext_run_len (ucast b) p = Some (?w + 128, q)" using 2 by (simp add: ext_run_len_def u8_less)
    ultimately show ?thesis using assms 2 w by (intro that [of "?w + 128" q]) (auto simp: ex_len.simps)
  next
    case (3 x y q)
    let ?w = "push_bit 16 ((ucast b :: u32) - 192) OR push_bit 8 (ucast x) OR ucast y"
    have k: "192 \<le> unat b" using 3(1) unat_eq_nat_uint [of b] by linarith
    have w: "uint ?w = (uint b - 192) * 65536 + uint x * 256 + uint y" using or_bytes3 [OF k, of x y] by simp
    have lt: "uint b < 256" "uint x < 256" "uint y < 256" using uint_byte_less by blast+
    have "uint (?w + 16512) = uint ?w + 16512" using uint_add_small [of ?w 16512] w lt by simp
    moreover have "ext_run_len (ucast b) p = Some (?w + 16512, q)"
      using 3 by (simp add: ext_run_len_def u8_less diff_diff_eq [symmetric, of "ucast b" 128 64, simplified])
    ultimately show ?thesis using assms 3 w by (intro that [of "?w + 16512" q]) (auto simp: ex_len.simps)
  qed
qed

lemma script_run_len_ref:
  assumes "sc_len (uint b) (map uint p) = Some (n, rest)" and b: "uint b < 128"
  obtains w q where "script_run_len (ucast (b :: u8)) p = Some (w, q)" "rest = map uint q" "uint w = n - 1"
proof -
  consider "uint b < 96" | x q where "\<not> uint b < 96" "uint b < 112" "p = x # q"
    | x y q where "\<not> uint b < 112" "p = x # y # q"
    using assms unfolding sc_len.simps [of "uint b"] by (cases p; cases "tl p") (auto split: if_split_asm)
  then show ?thesis
  proof cases
    case 1
    then show ?thesis using assms by (intro that [of "ucast b" p]) (simp_all add: script_run_len_def sc_len.simps u8_less uint_u8_u32)
  next
    case (2 x q)
    let ?w = "push_bit 8 ((ucast b :: u32) - 96) OR ucast x"
    have k: "96 \<le> unat b" using 2(1) unat_eq_nat_uint [of b] by linarith
    have w: "uint ?w = (uint b - 96) * 256 + uint x" using or_bytes2 [OF k, of x] by simp
    have "uint (?w + 96) = uint ?w + 96" using uint_add_small [of ?w 96] w 2(2) uint_byte_less [of x] by simp
    moreover have "script_run_len (ucast b) p = Some (?w + 96, q)" using 2 by (simp add: script_run_len_def u8_less)
    ultimately show ?thesis using assms 2 w by (intro that [of "?w + 96" q]) (auto simp: sc_len.simps)
  next
    case (3 x y q)
    let ?w = "push_bit 16 ((ucast b :: u32) - 112) OR push_bit 8 (ucast x) OR ucast y"
    have k: "112 \<le> unat b" using 3(1) unat_eq_nat_uint [of b] by linarith
    have w: "uint ?w = (uint b - 112) * 65536 + uint x * 256 + uint y" using or_bytes3 [OF k, of x y] by simp
    have lt: "uint x < 256" "uint y < 256" using uint_byte_less by blast+
    have "uint (?w + 4192) = uint ?w + 4192" using uint_add_small [of ?w 4192] w lt b by simp
    moreover have "script_run_len (ucast b) p = Some (?w + 4192, q)" using 3 by (simp add: script_run_len_def u8_less)
    ultimately show ?thesis using assms 3 w by (intro that [of "?w + 4192" q]) (auto simp: sc_len.simps)
  qed
qed

lemma script_op_ref:
  assumes "sc_op (map uint t) = Some (v, n, rest)"
  obtains w u q where "script_op t = Some (w, u, q)" "rest = map uint q" "uint w = n - 1" "uint u = v"
proof -
  obtain b p where t: "t = b # p" using assms by (cases t) auto
  let ?m = "b AND 0x7f :: u8"
  have m: "uint ?m = uint b mod 128" using nat_and_mask [of "unat b" 7] by (simp only: uint_nat unat_and) (simp add: zmod_int)
  have lo: "(ucast b :: u32) AND 0x7f = ucast ?m" by (rule bit_word_eqI) (auto simp: bit_simps dest: bit_imp_le_length)
  have hi: "drop_bit 7 (ucast b :: u32) = 0 \<longleftrightarrow> uint b < 128"
  proof -
    have "uint (drop_bit 7 (ucast b :: u32)) = uint b div 128" by (simp only: uint_nat unat_drop_bit unat_ucast_u32) (simp add: zdiv_int)
    moreover have "uint b div 128 = 0 \<longleftrightarrow> uint b < 128" using uint_ge_0 [of b] by presburger
    ultimately show ?thesis by (simp add: word_uint_eq_iff)
  qed
  obtain r where l: "sc_len (uint ?m) (map uint p) = Some (n, r)" and
    r: "if uint b < 128 then v = 0 \<and> rest = r else r = v # rest"
    using assms t m by (auto split: option.splits list.splits if_splits)
  obtain w q where q: "script_run_len (ucast ?m) p = Some (w, q)" "r = map uint q" "uint w = n - 1"
    by (rule script_run_len_ref [OF l]) (use m in auto)
  show ?thesis
  proof (cases "uint b < 128")
    case True
    then have "script_op t = Some (w, 0, q)" using q(1) hi by (simp add: script_op_def t lo)
    then show ?thesis using that r q True by auto
  next
    case False
    then obtain x q' where x: "q = x # q'" "uint x = v" "rest = map uint q'" using r q(2) by (cases q) auto
    have "script_op t = Some (w, ucast x, q')" using q(1) hi False x(1) by (simp add: script_op_def t lo)
    then show ?thesis using that x q(3) uint_u8_u32 [of x] by auto
  qed
qed

lemma ext_op_ref:
  assumes "ex_op (map uint t) = Some (v, n, rest)"
  obtains w vs q where "ext_op t = Some (w, vs, q)" "rest = map uint q" "uint w = n - 1" "map uint vs = v"
proof -
  obtain b p where t: "t = b # p" using assms by (cases t) auto
  obtain r k r' where l: "ex_len (uint b) (map uint p) = Some (n, r)" and r: "r = k # r'" "nat k \<le> length r'"
      "v = take (nat k) r'" "rest = drop (nat k) r'"
    using assms t by (auto split: option.splits list.splits if_splits)
  obtain w q where q: "ext_run_len (ucast b) p = Some (w, q)" "r = map uint q" "uint w = n - 1"
    by (rule ext_run_len_ref [OF l])
  obtain x q' where x: "q = x # q'" "uint x = k" "r' = map uint q'" using r(1) q(2) by (cases q) auto
  have u: "unat (ucast x :: u32) = nat k" by (simp only: unat_ucast_u32) (simp add: unat_eq_nat_uint x(2))
  have "ext_op t = Some (w, take (nat k) q', drop (nat k) q')"
    using q(1) x(1,3) r(2) u by (simp add: ext_op_def t slice_def)
  then show ?thesis using that q(3) r(3,4) x(3) by (simp add: take_map drop_map)
qed

lemma next_code: "uint w = n - 1 \<Longrightarrow> 1 \<le> n \<Longrightarrow> uint c + n < 2 ^ 32 \<Longrightarrow> uint (c + w + 1 :: u32) = uint c + n"
  using uint_add_small [of c w] uint_add_small [of "c + w" 1] by simp

lemma script_loop_op:
  assumes "sc_op (map uint t) = Some (v, n, rest)" "1 \<le> n" "uint c + n < 2 ^ 32"
  shows "\<exists>t' c'. rest = map uint t' \<and> uint c' = uint c + n \<and>
    (\<forall>cr. script_loop idx cr c t = or_fail (add_all cr (if v = int idx then [(c, c')] else [])) (\<lambda>cr. script_loop idx cr c' t'))"
proof -
  obtain w u q where q: "script_op t = Some (w, u, q)" "rest = map uint q" "uint w = n - 1" "uint u = v"
    by (rule script_op_ref [OF assms(1)])
  have ne: "t \<noteq> []" using assms(1) by auto
  have v: "unat u = idx \<longleftrightarrow> v = int idx" using q(4) by (metis uint_nat of_nat_eq_iff)
  have "script_loop idx cr c t = or_fail (add_all cr (if v = int idx then [(c, c + w + 1)] else [])) (\<lambda>cr. script_loop idx cr (c + w + 1) q)" for cr :: "'a CharRange"
    using ne q(1) v by (subst script_loop.simps) (simp add: or_fail_def [symmetric] add_one [symmetric] del: add_all.simps(2))
  then show ?thesis using q next_code [OF q(3) assms(2,3)] by blast
qed

lemma ext_loop_op:
  assumes "ex_op (map uint t) = Some (v, n, rest)" "1 \<le> n" "uint c + n < 2 ^ 32"
  shows "\<exists>t' c'. rest = map uint t' \<and> uint c' = uint c + n \<and>
    (\<forall>cr. ext_loop common idx cr c t = or_fail (add_all cr (if (if common then v \<noteq> [] else int idx \<in> set v) then [(c, c')] else []))
      (\<lambda>cr. ext_loop common idx cr c' t'))"
proof -
  obtain w u q where q: "ext_op t = Some (w, u, q)" "rest = map uint q" "uint w = n - 1" "map uint u = v"
    by (rule ext_op_ref [OF assms(1)])
  have ne: "t \<noteq> []" using assms(1) by auto
  have "unat x = idx \<longleftrightarrow> uint x = int idx" for x :: u8 by (metis uint_nat of_nat_eq_iff)
  then have v: "ext_wanted common idx u = (if common then v \<noteq> [] else int idx \<in> set v)"
    unfolding ext_wanted_def q(4) [symmetric] by (auto simp: image_iff) metis+
  have "ext_loop common idx cr c t = or_fail (add_all cr (if (if common then v \<noteq> [] else int idx \<in> set v) then [(c, c + w + 1)] else []))
      (\<lambda>cr. ext_loop common idx cr (c + w + 1) q)" for cr :: "'a CharRange"
    using ne q(1) unfolding v [symmetric]
    by (subst ext_loop.simps) (simp add: or_fail_def [symmetric] add_one [symmetric] del: add_all.simps(2))
  then show ?thesis using q next_code [OF q(3) assms(2,3)] by blast
qed

interpretation sc: run_fill sc_op "\<lambda>v. v = int idx" "script_loop idx" for idx
  by unfold_locales (simp add: script_loop.simps, rule script_loop_op)

interpretation ex: run_fill ex_op "\<lambda>v. if common then v \<noteq> [] else int idx \<in> set v" "ext_loop common idx" for common idx
  by unfold_locales (simp add: ext_loop.simps, rule ext_loop_op)



section \<open>The tables of the sources\<close>

lemma sc_mod: "0 \<le> b \<Longrightarrow> b < 128 \<Longrightarrow> b mod 128 = (b :: int)" "128 \<le> b \<Longrightarrow> b < 256 \<Longrightarrow> b mod 128 = (b - 128 :: int)"
  by presburger+

lemma run_pos:
  "0 \<le> b \<Longrightarrow> 1 \<le> b + (1 :: int)" "k \<le> b \<Longrightarrow> 0 \<le> x \<Longrightarrow> 1 \<le> m \<Longrightarrow> 1 \<le> (b - k) * 256 + x + (m :: int)"
  "k \<le> b \<Longrightarrow> 0 \<le> x \<Longrightarrow> 0 \<le> y \<Longrightarrow> 1 \<le> m \<Longrightarrow> 1 \<le> (b - k) * 65536 + x * 256 + y + (m :: int)"
proof -
  have "k \<le> b \<Longrightarrow> 0 \<le> (b - k) * j" "0 \<le> x \<Longrightarrow> 0 \<le> x * j" if "0 \<le> j" for j using that by simp_all
  then show "0 \<le> b \<Longrightarrow> 1 \<le> b + (1 :: int)" "k \<le> b \<Longrightarrow> 0 \<le> x \<Longrightarrow> 1 \<le> m \<Longrightarrow> 1 \<le> (b - k) * 256 + x + (m :: int)"
    "k \<le> b \<Longrightarrow> 0 \<le> x \<Longrightarrow> 0 \<le> y \<Longrightarrow> 1 \<le> m \<Longrightarrow> 1 \<le> (b - k) * 65536 + x * 256 + y + (m :: int)" by fastforce+
qed

lemma sc_exec:
  "uint b < 96 \<Longrightarrow> lend sc_op c (map uint ((b # p) @ r :: u8 list)) = lend sc_op (c + (uint b + 1)) (map uint (p @ r))"
  "96 \<le> uint b \<Longrightarrow> uint b < 112 \<Longrightarrow> lend sc_op c (map uint ((b # x # p) @ r :: u8 list)) =
     lend sc_op (c + ((uint b - 96) * 256 + uint x + 97)) (map uint (p @ r))"
  "112 \<le> uint b \<Longrightarrow> uint b < 128 \<Longrightarrow> lend sc_op c (map uint ((b # x # y # p) @ r :: u8 list)) =
     lend sc_op (c + ((uint b - 112) * 65536 + uint x * 256 + uint y + 4193)) (map uint (p @ r))"
  "128 \<le> uint b \<Longrightarrow> uint b < 224 \<Longrightarrow> lend sc_op c (map uint ((b # v # p) @ r :: u8 list)) =
     lend sc_op (c + (uint b - 127)) (map uint (p @ r))"
  "224 \<le> uint b \<Longrightarrow> uint b < 240 \<Longrightarrow> lend sc_op c (map uint ((b # x # v # p) @ r :: u8 list)) =
     lend sc_op (c + ((uint b - 224) * 256 + uint x + 97)) (map uint (p @ r))"
  "240 \<le> uint b \<Longrightarrow> lend sc_op c (map uint ((b # x # y # v # p) @ r :: u8 list)) =
     lend sc_op (c + ((uint b - 240) * 65536 + uint x * 256 + uint y + 4193)) (map uint (p @ r))"
  by (rule lend_op, simp add: sc_len.simps sc_mod uint_byte_less, ((rule run_pos; simp) | simp), simp)+

text \<open>The entry of the extension table is followed by the scripts of the run.\<close>

definition ex_skip :: "int \<Rightarrow> int \<Rightarrow> u8 list \<Rightarrow> u8 list \<Rightarrow> int option" where
  "ex_skip c k p r = (if nat k \<le> length (p @ r) then lend ex_op c (map uint (drop (nat k) (p @ r))) else None)"

lemma ex_skip_cong: "c = c' \<Longrightarrow> k = k' \<Longrightarrow> ex_skip c k p r = ex_skip c' k' p r"
  by simp

lemma ex_skip_exec: "ex_skip c 0 p r = lend ex_op c (map uint (p @ r))"
  "0 < k \<Longrightarrow> ex_skip c k (x # p) r = ex_skip c (k - 1) p r"
proof -
  assume "0 < k"
  then have "nat k = Suc (nat (k - 1))" by simp
  then show "ex_skip c k (x # p) r = ex_skip c (k - 1) p r" by (simp add: ex_skip_def)
qed (simp add: ex_skip_def)

lemma ex_exec:
  "uint b < 128 \<Longrightarrow> lend ex_op c (map uint ((b # k # p) @ r :: u8 list)) = ex_skip (c + (uint b + 1)) (uint k) p r"
  "128 \<le> uint b \<Longrightarrow> uint b < 192 \<Longrightarrow> lend ex_op c (map uint ((b # x # k # p) @ r :: u8 list)) =
     ex_skip (c + ((uint b - 128) * 256 + uint x + 129)) (uint k) p r"
  "192 \<le> uint b \<Longrightarrow> lend ex_op c (map uint ((b # x # y # k # p) @ r :: u8 list)) =
     ex_skip (c + ((uint b - 192) * 65536 + uint x * 256 + uint y + 16513)) (uint k) p r"
proof -
  have skip: "lend ex_op c t = ex_skip (c + n) (uint k) p r"
    if "ex_len (hd t) (tl t) = Some (n, uint k # map uint (p @ r))" "t \<noteq> []" "1 \<le> n" "length (p @ r) < length t" for n t c
  proof (cases "nat (uint k) \<le> length (p @ r)")
    case True
    then have "map_option snd (ex_op t) = Some (n, drop (nat (uint k)) (map uint (p @ r)))"
      using that by (cases t) (simp_all del: map_append)
    from lend_op [where op = ex_op, OF this that(3)] show ?thesis using True that(4)
      by (simp add: ex_skip_def drop_map del: map_append drop_append)
  next
    case False
    then show ?thesis using that by (cases t) (simp_all add: lend.simps ex_skip_def)
  qed
  show "uint b < 128 \<Longrightarrow> lend ex_op c (map uint ((b # k # p) @ r :: u8 list)) = ex_skip (c + (uint b + 1)) (uint k) p r"
    by (rule skip, simp add: ex_len.simps, simp, ((rule run_pos; simp) | simp), simp)
  show "128 \<le> uint b \<Longrightarrow> uint b < 192 \<Longrightarrow> lend ex_op c (map uint ((b # x # k # p) @ r :: u8 list)) =
     ex_skip (c + ((uint b - 128) * 256 + uint x + 129)) (uint k) p r"
    by (rule skip, simp add: ex_len.simps, simp, ((rule run_pos; simp) | simp), simp)
  show "192 \<le> uint b \<Longrightarrow> lend ex_op c (map uint ((b # x # y # k # p) @ r :: u8 list)) =
     ex_skip (c + ((uint b - 192) * 65536 + uint x * 256 + uint y + 16513)) (uint k) p r"
    by (rule skip, simp add: ex_len.simps, simp, ((rule run_pos; simp) | simp), simp)
qed

lemmas script_pieces =
  arg_cong [OF unicode_script_table_0_def, of "\<lambda>t. lend op c (map uint (t @ r))" for op c r]
  arg_cong [OF unicode_script_table_1_def, of "\<lambda>t. lend op c (map uint (t @ r))" for op c r]
  arg_cong [OF unicode_script_table_2_def, of "\<lambda>t. lend op c (map uint (t @ r))" for op c r]
  arg_cong [OF unicode_script_table_3_def, of "\<lambda>t. lend op c (map uint (t @ r))" for op c r]
  arg_cong [OF unicode_script_table_4_def, of "\<lambda>t. lend op c (map uint (t @ r))" for op c r]
  arg_cong [OF unicode_script_table_5_def, of "\<lambda>t. lend op c (map uint (t @ r))" for op c r]
  arg_cong [OF unicode_script_table_6_def, of "\<lambda>t. lend op c (map uint (t @ r))" for op c r]
  arg_cong [OF unicode_script_table_7_def, of "\<lambda>t. lend op c (map uint (t @ r))" for op c r]
  arg_cong [OF unicode_script_ext_table_0_def, of "\<lambda>t. lend op c (map uint (t @ r))" for op c r]
  arg_cong [OF unicode_script_ext_table_1_def, of "\<lambda>t. lend op c (map uint (t @ r))" for op c r]
  arg_cong [OF unicode_script_ext_table_2_def, of "\<lambda>t. lend op c (map uint (t @ r))" for op c r]

lemma script_table_end: "lend sc_op 0 (map uint unicode_script_table) = Some 0xe01f0"
proof -
  have e: "unicode_script_table = unicode_script_table_0 @ unicode_script_table_1 @ unicode_script_table_2 @ unicode_script_table_3 @ unicode_script_table_4 @ unicode_script_table_5 @ unicode_script_table_6 @ unicode_script_table_7 @ []"
    by (simp add: unicode_script_table_def)
  show ?thesis unfolding e
    by (simp del: list.map append.simps append_Nil2 map_append add: lend_piece sc_exec script_pieces cong: lend_cong)
qed

lemma script_ext_table_end: "lend ex_op 0 (map uint unicode_script_ext_table) = Some 0x110000"
proof -
  have e: "unicode_script_ext_table = unicode_script_ext_table_0 @ unicode_script_ext_table_1 @ unicode_script_ext_table_2 @ []"
    by (simp add: unicode_script_ext_table_def)
  show ?thesis unfolding e
    by (simp del: list.map append.simps append_Nil2 map_append add: lend_piece ex_exec ex_skip_exec script_pieces cong: lend_cong ex_skip_cong)
qed

section \<open>The sets of the scripts\<close>

definition script_runs :: "(int \<times> int \<times> int) list" where
  "script_runs = the (lruns sc_op 0 (map uint unicode_script_table))"

definition ext_runs :: "(int \<times> int \<times> int list) list" where
  "ext_runs = the (lruns ex_op 0 (map uint unicode_script_ext_table))"

lemma script_runs: "lruns sc_op 0 (map uint unicode_script_table) = Some script_runs" "runs_end 0 script_runs < 2 ^ 32"
  using lend_runs [OF script_table_end] by (auto simp: script_runs_def)

lemma ext_runs: "lruns ex_op 0 (map uint unicode_script_ext_table) = Some ext_runs" "runs_end 0 ext_runs < 2 ^ 32"
  using lend_runs [OF script_ext_table_end] by (auto simp: ext_runs_def)

text \<open>
  The characters of a script; with extensions those of the script and those listed for it, except that
  the characters with an extension list do not count for \<open>Common\<close> and \<open>Inherited\<close>.
\<close>

definition script_set :: "nat \<Rightarrow> u32 set" where
  "script_set i = labelled script_runs (\<lambda>v. v = int i)"

definition script_spec :: "bool \<Rightarrow> nat \<Rightarrow> u32 set" where
  "script_spec is_ext i =
     (if \<not> is_ext then script_set i
      else if i = UNICODE_SCRIPT_Common \<or> i = UNICODE_SCRIPT_Inherited
        then script_set i \<inter> (UNIV - {- 1} - labelled ext_runs (\<lambda>vs. vs \<noteq> []))
      else script_set i \<union> labelled ext_runs (\<lambda>vs. int i \<in> set vs))"

lemma script_names_ok: "\<forall>e \<in> set unicode_script_name_table_entries. e \<noteq> [] \<and> CHR 0x00 \<notin> set e"
  by (simp add: unicode_script_name_table_entries_def)

lemma script_loop_ok:
  assumes "cr_wf cr" "cr_content cr = []" "never_fails (cr_realloc_func cr)"
  shows "ok (script_loop i cr 0 unicode_script_table) (\<lambda>(r, cr'). r = 0 \<and> cr_holds cr' (script_set i) \<and> cr_realloc_func cr' = cr_realloc_func cr)"
proof -
  have "kept cr x" if "script_loop i cr 0 unicode_script_table = Some x" for x
    using sc.loop_runs [of 0 unicode_script_table script_runs i cr] script_runs that by (simp add: add_all_kept)
  from ok_no_failure [OF sc.loop_holds [where idx = i, OF script_runs assms(1,2)] this assms(3)] show ?thesis
    by (auto simp: script_set_def elim!: ok_mono)
qed

lemma ext_loop_ok:
  assumes "cr_wf cr" "cr_content cr = []" "never_fails (cr_realloc_func cr)"
  shows "ok (ext_loop common i cr 0 unicode_script_ext_table) (\<lambda>(r, cr'). r = 0 \<and>
     cr_holds cr' (labelled ext_runs (\<lambda>vs. if common then vs \<noteq> [] else int i \<in> set vs)) \<and> cr_realloc_func cr' = cr_realloc_func cr)"
proof -
  have "kept cr x" if "ext_loop common i cr 0 unicode_script_ext_table = Some x" for x
    using ex.loop_runs [of 0 unicode_script_ext_table ext_runs common i cr] ext_runs that by (simp add: add_all_kept)
  from ok_no_failure [OF ex.loop_holds [where idx = i and common = common, OF ext_runs assms(1,2)] this assms(3)] show ?thesis
    by (cases common) (auto elim!: ok_mono)
qed

lemma fresh_props:
  "cr_wf cr \<Longrightarrow> cr_wf (fresh cr m)" "cr_wf cr \<Longrightarrow> cr_content (fresh cr m) = []" "cr_realloc_func (fresh cr m) = cr_realloc_func cr"
  using cr_init_wf [of "cr_realloc_func cr" "Some (cr_realloc_func cr)" m] by (simp_all add: fresh_def cr_wf_def cr_init_def)

lemma range_op_ok:
  fixes cr cr1 cr2 :: "'m CharRange"
  assumes cr: "cr_wf cr" "cr_len cr = 0" "never_fails (cr_realloc_func cr)" and h: "cr_holds cr1 A" "cr_holds cr2 B"
  shows "slice (pts cr1) 0 (cr_len cr1) = Some (cr_content cr1)" "slice (pts cr2) 0 (cr_len cr2) = Some (cr_content cr2)"
    "ok (cr_op cr (cr_content cr1) (cr_content cr2) op) (\<lambda>(r, cr'). r = 0 \<and> cr_holds cr' (set_op op A B))"
proof -
  have sl: "slice (pts x) 0 (cr_len x) = Some (cr_content x)" if "cr_holds x S" for x :: "'m CharRange" and S
    using that by (simp add: slice_def cr_holds_def cr_wf_def cr_content_def)
  show "slice (pts cr1) 0 (cr_len cr1) = Some (cr_content cr1)" "slice (pts cr2) 0 (cr_len cr2) = Some (cr_content cr2)"
    using sl h by blast+
  have s: "sorted (cr_content cr1)" "even (length (cr_content cr1))" "sorted (cr_content cr2)" "even (length (cr_content cr2))"
    "A = {c. cr_in (cr_content cr1) c}" "B = {c. cr_in (cr_content cr2) c}" using h unfolding cr_holds_def by blast+
  from ok_no_failure [OF cr_op_ok [OF cr(1,2) s(1-4), of op] _ cr(3)] cr_op_kept [of cr "cr_content cr1" "cr_content cr2" op]
  show "ok (cr_op cr (cr_content cr1) (cr_content cr2) op) (\<lambda>(r, cr'). r = 0 \<and> cr_holds cr' (set_op op A B))"
    unfolding s(5,6) by (auto intro: cr_rep_holds elim!: ok_mono)
qed

lemma invert_if_ok:
  assumes "cr_holds cr S" "never_fails (cr_realloc_func cr)"
  shows "ok (if common then cr_invert cr else Some (0, cr)) (\<lambda>(r, cr'). r = 0 \<and>
     cr_holds cr' (if common then UNIV - {- 1} - S else S) \<and> cr_realloc_func cr' = cr_realloc_func cr)"
  using ok_no_failure [OF cr_invert_holds [OF assms(1)] _ assms(2)] cr_invert_kept [of cr] assms(1)
  by (auto intro: cr_rep_holds elim!: ok_mono)

lemma cr_holds_free: "cr_holds (cr\<lparr>mem_opaque := m\<rparr>) S = cr_holds cr S"
  by (simp add: cr_holds_def)

lemma unicode_script_ok:
  assumes wf: "cr_wf cr" and empty: "cr_content cr = []" and len: "cr_len cr = 0" and mem: "never_fails (cr_realloc_func cr)"
    and name: "entry_index name unicode_script_name_table_entries = Some i"
  shows "ok (unicode_script cr name is_ext) (\<lambda>(r, cr'). r = 0 \<and> cr_holds cr' (script_spec is_ext (i + 1)))"
proof -
  let ?i = "i + 1" and ?common = "i + 1 = UNICODE_SCRIPT_Common \<or> i + 1 = UNICODE_SCRIPT_Inherited"
  note find = find_name_in [OF script_names_ok, of name, folded unicode_script_name_table_def, unfolded name option.case]
  show ?thesis
  proof (cases is_ext)
    case False
    obtain cr' where "script_loop ?i cr 0 unicode_script_table = Some (0, cr')" "cr_holds cr' (script_set ?i)"
      using script_loop_ok [OF wf empty mem, of ?i] by (auto simp: ok_conv)
    then show ?thesis using find False by (simp add: unicode_script_def UNICODE_SCRIPT_Unknown_def script_spec_def)
  next
    case True
    note fr = fresh_props(1,2) [OF wf] and ff = fresh_props(3) [of cr]
    obtain cr1 where l1: "script_loop ?i (fresh cr (mem_opaque cr)) 0 unicode_script_table = Some (0, cr1)" "cr_holds cr1 (script_set ?i)"
      using script_loop_ok [OF fr, of "mem_opaque cr" ?i] mem ff by (auto simp: ok_conv)
    obtain cr2 where l2: "ext_loop ?common ?i (fresh cr (mem_opaque cr1)) 0 unicode_script_ext_table = Some (0, cr2)"
      "cr_holds cr2 (labelled ext_runs (\<lambda>vs. if ?common then vs \<noteq> [] else int ?i \<in> set vs))" "cr_realloc_func cr2 = cr_realloc_func cr"
      using ext_loop_ok [OF fr, of "mem_opaque cr1" ?common ?i] mem ff by (auto simp: ok_conv)
    obtain cr3 where l3: "(if ?common then cr_invert cr2 else Some (0, cr2)) = Some (0, cr3)" "cr_holds cr3
        (if ?common then UNIV - {- 1} - labelled ext_runs (\<lambda>vs. if ?common then vs \<noteq> [] else int ?i \<in> set vs)
         else labelled ext_runs (\<lambda>vs. if ?common then vs \<noteq> [] else int ?i \<in> set vs))"
      using invert_if_ok [OF l2(2), of ?common] mem l2(3) unfolding ok_conv by auto
    let ?op = "if ?common then CR_OP_INTER else CR_OP_UNION" and ?cr = "cr\<lparr>mem_opaque := mem_opaque cr3\<rparr>"
    have c: "cr_wf ?cr" "cr_len ?cr = 0" "never_fails (cr_realloc_func ?cr)" using wf len mem by simp_all
    note op = range_op_ok [OF c l1(2) l3(2)]
    obtain cr4 where l4: "cr_op ?cr (cr_content cr1) (cr_content cr3) ?op = Some (0, cr4)"
      "cr_holds cr4 (set_op ?op (script_set ?i) (if ?common then UNIV - {- 1} - labelled ext_runs (\<lambda>vs. if ?common then vs \<noteq> [] else int ?i \<in> set vs)
         else labelled ext_runs (\<lambda>vs. if ?common then vs \<noteq> [] else int ?i \<in> set vs)))"
      using op(3) [of ?op] unfolding ok_conv by auto
    have "unicode_script cr name is_ext = Some (0, cr4\<lparr>mem_opaque := cr_free (cr3\<lparr>mem_opaque := cr_free (cr1\<lparr>mem_opaque := mem_opaque cr4\<rparr>)\<rparr>)\<rparr>)"
      using True find l1(1) l2(1) l3(1) l4(1) op(1,2)
      by (simp add: unicode_script_def UNICODE_SCRIPT_Unknown_def Let_def)
    moreover have "cr_holds cr4 (script_spec is_ext ?i)" using l4(2) True by (cases ?common) (simp_all add: script_spec_def)
    ultimately show ?thesis by (simp add: cr_holds_free)
  qed
qed

lemma script_out_of_memory:
  assumes "entry_index name unicode_script_name_table_entries = Some i"
    and "script_loop (i + 1) (if is_ext then fresh cr (mem_opaque cr) else cr) 0 unicode_script_table = Some (-1, cr')"
  shows "unicode_script cr name is_ext = None"
  using assms find_name_in [OF script_names_ok, of name, folded unicode_script_name_table_def]
  by (cases is_ext) (simp_all add: unicode_script_def UNICODE_SCRIPT_Unknown_def Let_def script_fail_diverges)


section \<open>Properties\<close>

definition empty_range :: "'m cr_alloc \<Rightarrow> 'm \<Rightarrow> 'm CharRange" where
  "empty_range f m = cr_init f m None"

lemma empty_range_props: "cr_alloc_ok f \<Longrightarrow> cr_wf (empty_range f m)" "cr_alloc_ok f \<Longrightarrow> cr_content (empty_range f m) = []" "cr_len (empty_range f m) = 0"
  "cr_realloc_func (empty_range f m) = f"
  using cr_init_wf [of f None m] by (simp_all add: empty_range_def cr_init_def)

lemma sample_never_fails: "never_fails sample_cr_alloc"
  by (simp add: never_fails_def sample_cr_alloc_def)

lemma script_entry_examples:
  "entry_index ''Greek'' unicode_script_name_table_entries = Some 42"
  "entry_index ''Zyyy'' unicode_script_name_table_entries = Some 24"
  by (simp_all add: unicode_script_name_table_entries_def alias_exec)

text \<open>
  C37. \<open>unicode_script\<close> on an initialised empty range whose allocator does not fail: an unknown name gives
  -2 and leaves the range alone; a script name or alias gives 0 and the range holds exactly the
  characters of the script or, with extensions asked for, its characters and those that list it - for
  \<open>Common\<close> and \<open>Inherited\<close> its characters without an extension list.
\<close>

theorem unicode_script_correct:
  assumes "cr_alloc_ok f" and "never_fails f"
  shows "case entry_index name unicode_script_name_table_entries of
       None \<Rightarrow> unicode_script (empty_range f m) name is_ext = Some (-2, empty_range f m)
     | Some i \<Rightarrow> ok (unicode_script (empty_range f m) name is_ext) (\<lambda>(r, cr'). r = 0 \<and> cr_holds cr' (script_spec is_ext (i + 1)))"
proof (cases "entry_index name unicode_script_name_table_entries")
  case None
  then show ?thesis using find_name_in [OF script_names_ok, of name, folded unicode_script_name_table_def] by (simp add: unicode_script_def)
next
  case (Some i)
  then show ?thesis
    using unicode_script_ok [of "empty_range f m" name i is_ext] assms by (simp add: empty_range_props)
qed

theorem unicode_script_correct_witness:
  "ok (unicode_script (empty_range sample_cr_alloc ()) ''Greek'' True) (\<lambda>(r, cr'). r = 0 \<and>
     cr_holds cr' (script_set 43 \<union> labelled ext_runs (\<lambda>vs. 43 \<in> set vs)))"
  using unicode_script_correct [OF sample_cr_alloc_ok sample_never_fails, where name = "''Greek''" and m = "()" and is_ext = True]
  by (simp add: script_entry_examples script_spec_def UNICODE_SCRIPT_Common_def UNICODE_SCRIPT_Inherited_def)

text \<open>
  C38. A failed allocation while the script table is decoded keeps \<open>unicode_script\<close> from returning: the
  label \<open>fail\<close> ends in a jump to itself, where the callers expect the result -1.
\<close>

theorem unicode_script_hangs:
  assumes "entry_index name unicode_script_name_table_entries = Some i"
    and "script_loop (i + 1) (if is_ext then fresh cr (mem_opaque cr) else cr) 0 unicode_script_table = Some (-1, cr')"
  shows "unicode_script cr name is_ext = None"
  by (rule script_out_of_memory [OF assms])

theorem unicode_script_hangs_witness:
  "unicode_script (empty_range (\<lambda>m p n. ((), None)) ()) ''Zyyy'' False = None"
proof (rule unicode_script_hangs [OF script_entry_examples(2)])
  have "script_op unicode_script_table = Some (64, 25, drop 2 unicode_script_table)" "unicode_script_table \<noteq> []"
    by (simp_all add: unicode_script_table_def unicode_script_table_0_def script_op_def script_run_len_def)
  then show "script_loop (24 + 1) (if False then fresh (empty_range (\<lambda>m p n. ((), None)) ()) (mem_opaque (empty_range (\<lambda>m p n. ((), None)) ()))
      else empty_range (\<lambda>m p n. ((), None)) ()) 0 unicode_script_table = Some (-1, empty_range (\<lambda>m p n. ((), None)) ())"
    by (subst script_loop.simps) (simp add: empty_range_def cr_init_def cr_add_interval_def cr_realloc_def Let_def)
qed

end
