(* ===== verification/Label_Index.thy ===== *)
theory Label_Index
  imports Label_Runs
begin

unbundle bit_operations_syntax

text \<open>
  The sparse index of a table of labelled runs, as \<open>get_index_pos\<close> of src/quickjs/libunicode.c uses it: an entry
  gives a position of the table between two entries and the code point reached there. The checker walks
  table and index once; on a pair that passes, the position found for a code point is one from which
  decoding reaches the run of the code point.
\<close>

section \<open>The position found\<close>

lemma index_last:
  assumes l: "length ix mod 3 = 0" "ix \<noteq> []" "uint (last ix) < 32"
  shows "get_le24 ix ((length ix div 3 - 1) * 3) = Some (word_of_int (snd (last (dec_index 32 (map uint ix)))))"
    "dec_index 32 (map uint ix) \<noteq> []" "0 < length ix div 3" "length (dec_index 32 (map uint ix)) = length ix div 3"
proof -
  show "get_le24 ix ((length ix div 3 - 1) * 3) = Some (word_of_int (snd (last (dec_index 32 (map uint ix)))))"
    by (rule last_index_entry [OF l])
  show "0 < length ix div 3" using l(1,2) by (cases ix) (auto simp: mod_eq_0_iff_dvd dvd_div_eq_0_iff)
  moreover show "length (dec_index 32 (map uint ix)) = length ix div 3" by (simp add: length_dec_index)
  ultimately show "dec_index 32 (map uint ix) \<noteq> []" by auto
qed

lemma get_index_pos_cases:
  fixes c :: u32 and ix :: "u8 list"
  defines "es \<equiv> dec_index 32 (map uint ix)"
  assumes l: "length ix mod 3 = 0" "ix \<noteq> []" "uint (last ix) < 32" and first: "snd (hd es) \<le> snd (last es)" and L: "0 \<le> snd (last es)" "snd (last es) < 2 ^ 32"
  obtains (start) "get_index_pos c ix (length ix div 3) = Some (Some (0, 0))" "uint c < snd (last es)"
    | (beyond) "get_index_pos c ix (length ix div 3) = Some None" "snd (last es) \<le> uint c"
    | (entry) pos code where "get_index_pos c ix (length ix div 3) = Some (Some (pos, code))"
        "(int pos, uint code) \<in> set (butlast es)" "uint code \<le> uint c" "uint c < snd (last es)"
proof -
  let ?m = "length ix div 3 - 1"
  note il = index_last [OF l, folded es_def]
  have len: "length ix div 3 = Suc ?m" "length es = Suc ?m" using il(3,4) by simp_all
  obtain v0 where v0: "get_le24 ix 0 = Some v0" "snd (es ! 0) = uint (v0 AND code_mask)"
    using index_entry [of 0 ix] il(3) by (auto simp: es_def)
  have hd: "snd (hd es) = uint (v0 AND code_mask)" using v0(2) il(2) by (simp add: hd_conv_nth)
  have uL: "uint (word_of_int (snd (last es)) :: u32) = snd (last es)" using L by (simp add: uint_word_of_int)
  consider "c < v0 AND code_mask" | "\<not> c < v0 AND code_mask" "snd (last es) \<le> uint c"
    | "\<not> c < v0 AND code_mask" "uint c < snd (last es)" by linarith
  then show ?thesis
  proof cases
    case 1
    then show ?thesis using v0(1) first hd by (intro start) (simp_all add: get_index_pos_def word_less_def)
  next
    case 2
    then show ?thesis using v0(1) il(1) uL by (intro beyond) (simp_all add: get_index_pos_def word_le_def)
  next
    case 3
    have m: "0 < ?m"
    proof (rule ccontr)
      assume "\<not> 0 < ?m"
      then have "length es = 1" using len by simp
      then have "hd es = last es" by (cases es) auto
      then show False using 3 hd by (simp add: word_less_def)
    qed
    have "ok (index_search ix c 0 ?m) (\<lambda>j. 0 \<le> j \<and> j < ?m \<and> snd (es ! j) \<le> uint c)"
      unfolding es_def using 3(1) v0(2) m by (intro index_search_ok [OF len(1)]) (auto simp: word_less_def es_def)
    then obtain j where j: "index_search ix c 0 ?m = Some j" "j < ?m" "snd (es ! j) \<le> uint c" by (auto simp: ok_conv)
    obtain v where v: "get_le24 ix (j * 3) = Some v" "es ! j = (int ((j + 1) * 32 + unat (drop_bit 21 v)), uint (v AND code_mask))"
      using index_entry [of j ix] j(2) less_trans [OF j(2), of "length ix div 3"] len(1) by (auto simp: es_def)
    have "es ! j \<in> set (butlast es)" using j(2) len(2) by (metis One_nat_def diff_Suc_1 length_butlast nth_butlast nth_mem)
    then show ?thesis using 3 v0(1) il(1) uL j v
      by (intro entry [of "(j + 1) * 32 + unat (drop_bit 21 v)" "v AND code_mask"])
         (simp_all add: get_index_pos_def word_le_def UNICODE_INDEX_BLOCK_LEN_def)
  qed
qed


section \<open>The checker\<close>

function lwalk :: "(int list \<Rightarrow> ('v \<times> int \<times> int list) option) \<Rightarrow> ('v \<Rightarrow> int \<Rightarrow> bool) \<Rightarrow> int \<Rightarrow> int \<Rightarrow> int list \<Rightarrow> (int \<times> int) list \<Rightarrow> bool" where
  "lwalk op good pos code t ix =
     (case ix of [] \<Rightarrow> False
      | (q, k) # ix' \<Rightarrow>
          if ix' \<noteq> [] \<and> q = pos then code = k \<and> lwalk op good pos code t ix'
          else if t = [] then ix' = [] \<and> code = k
          else (case op t of None \<Rightarrow> False
                | Some (v, n, rest) \<Rightarrow>
                    if 1 \<le> n \<and> length rest < length t \<and> good v n then
                      lwalk op good (pos + int (length t - length rest)) (code + n) rest ix
                    else False))"
  by pat_completeness auto
termination by (relation "measure (\<lambda>(_, _, _, _, t, ix). length t + length ix)") auto

declare lwalk.simps [simp del]

text \<open>An operation consumes bytes from the front.\<close>

definition front :: "(int list \<Rightarrow> ('v \<times> int \<times> int list) option) \<Rightarrow> bool" where
  "front op \<longleftrightarrow> (\<forall>t v n rest. op t = Some (v, n, rest) \<longrightarrow> rest = drop (length t - length rest) t)"

lemma lwalk_sound:
  "lwalk op good pos code t ix \<Longrightarrow> front op \<Longrightarrow>
   ix \<noteq> [] \<and> (\<exists>rs. lruns op code t = Some rs \<and> runs_end code rs = snd (last ix) \<and> (\<forall>(a, b, v) \<in> set rs. good v (b - a)) \<and>
     (\<forall>(q, k) \<in> set (butlast ix). pos \<le> q \<and> (\<exists>pre qs. rs = pre @ qs \<and> runs_end code pre = k \<and> lruns op k (drop (nat (q - pos)) t) = Some qs)))"
proof (induction op good pos code t ix rule: lwalk.induct)
  case (1 op good pos code t ix)
  obtain q k ix' where ix: "ix = (q, k) # ix'" using 1(3) by (cases ix) (auto simp: lwalk.simps)
  consider (entry) "ix' \<noteq> []" "q = pos" | (fin) "\<not> (ix' \<noteq> [] \<and> q = pos)" "t = []"
    | (op) "\<not> (ix' \<noteq> [] \<and> q = pos)" "t \<noteq> []" by blast
  then show ?case
  proof cases
    case entry
    then have w: "code = k" "lwalk op good pos code t ix'" using 1(3) lwalk.simps [of op good pos code t "(q, k) # ix'"] unfolding ix by auto
    have c: "ix' \<noteq> [] \<and> q = pos" using entry by blast
    from 1(1) [OF ix refl c w(2) 1(4)] obtain rs where rs: "lruns op code t = Some rs" "runs_end code rs = snd (last ix')"
      "\<forall>(a, b, v) \<in> set rs. good v (b - a)"
      "\<forall>(q, k) \<in> set (butlast ix'). pos \<le> q \<and> (\<exists>pre qs. rs = pre @ qs \<and> runs_end code pre = k \<and> lruns op k (drop (nat (q - pos)) t) = Some qs)"
      by blast
    have "\<exists>pre qs. rs = pre @ qs \<and> runs_end code pre = k \<and> lruns op k (drop (nat (q - pos)) t) = Some qs"
      using rs(1) w(1) entry(2) by (intro exI [of _ "[]"] exI [of _ rs]) simp
    then show ?thesis using rs entry by (auto simp: ix)
  next
    case fin
    then have "ix' = []" "code = k" using 1(3) unfolding ix by (auto simp: lwalk.simps [of _ _ _ _ _ "(q, k) # ix'"] split: if_splits)
    then show ?thesis using fin ix by (simp add: lruns.simps)
  next
    case op
    then obtain v n rest where o: "op t = Some (v, n, rest)" and g: "1 \<le> n" "length rest < length t" "good v n"
      and w: "lwalk op good (pos + int (length t - length rest)) (code + n) rest ix"
      using 1(3) unfolding ix by (subst (asm) lwalk.simps) (auto split: option.splits if_splits)
    have g': "1 \<le> n \<and> length rest < length t \<and> good v n" using g by blast
    from 1(2) [OF ix refl op(1) op(2) o refl refl g' w 1(4)] obtain rs where
      rs: "lruns op (code + n) rest = Some rs" "runs_end (code + n) rs = snd (last ix)" "\<forall>(a, b, v) \<in> set rs. good v (b - a)"
        and all: "\<forall>(q, k) \<in> set (butlast ix). pos + int (length t - length rest) \<le> q \<and>
          (\<exists>pre qs. rs = pre @ qs \<and> runs_end (code + n) pre = k \<and> lruns op k (drop (nat (q - (pos + int (length t - length rest)))) rest) = Some qs)"
      by blast
    let ?rs = "(code, code + n, v) # rs"
    have tp: "lruns op code t = Some ?rs" using op(2) o g rs(1) by (subst lruns.simps) simp
    have each: "pos \<le> q \<and> (\<exists>pre qs. ?rs = pre @ qs \<and> runs_end code pre = k \<and> lruns op k (drop (nat (q - pos)) t) = Some qs)"
      if qk: "(q, k) \<in> set (butlast ix)" for q k
    proof -
      let ?d = "length t - length rest"
      obtain pre qs where pq: "pos + int ?d \<le> q" "rs = pre @ qs" "runs_end (code + n) pre = k"
        "lruns op k (drop (nat (q - (pos + int ?d))) rest) = Some qs" using bspec [OF all qk] by auto
      have "nat (q - (pos + int ?d)) + ?d = nat (q - pos)" using pq(1) by linarith
      then have "drop (nat (q - (pos + int ?d))) rest = drop (nat (q - pos)) t" using 1(4) o unfolding front_def by (metis drop_drop)
      then show ?thesis using pq by (intro conjI exI [of _ "(code, code + n, v) # pre"] exI [of _ qs]) simp_all
    qed
    have "runs_end code ?rs = snd (last ix)" "\<forall>(a, b, v) \<in> set ?rs. good v (b - a)" "ix \<noteq> []" using rs(2,3) g ix by auto
    moreover have "\<forall>(q, k) \<in> set (butlast ix). pos \<le> q \<and> (\<exists>pre qs. ?rs = pre @ qs \<and> runs_end code pre = k \<and> lruns op k (drop (nat (q - pos)) t) = Some qs)"
    proof
      fix e assume "e \<in> set (butlast ix)"
      then show "case e of (q, k) \<Rightarrow> pos \<le> q \<and> (\<exists>pre qs. ?rs = pre @ qs \<and> runs_end code pre = k \<and> lruns op k (drop (nat (q - pos)) t) = Some qs)"
        using each [of "fst e" "snd e"] by (simp add: case_prod_beta)
    qed
    ultimately show ?thesis using tp by blast
  qed
qed

lemma lwalk_cong: "pos = pos' \<Longrightarrow> code = code' \<Longrightarrow> lwalk op good pos code t ix = lwalk op good pos' code' t ix"
  by simp

lemma lwalk_ix_cong: "ix = ix' \<Longrightarrow> lwalk op good pos code t ix = lwalk op good pos code t ix'"
  by simp

lemma lwalk_entry:
  "q = pos \<Longrightarrow> lwalk op good pos code t ((q, k) # e # ix) \<longleftrightarrow> code = k \<and> lwalk op good pos code t (e # ix)"
  "lwalk op good pos code (map uint ([] :: u8 list)) [(q, k)] \<longleftrightarrow> code = k"
  "lwalk op good pos code (map uint ([] @ r :: u8 list)) ix = lwalk op good pos code (map uint r) ix"
  using lwalk.simps [of op good pos code t "(q, k) # e # ix"] lwalk.simps [of op good pos code "map uint ([] :: u8 list)" "[(q, k)]"]
  by simp_all

lemma lwalk_op:
  assumes "op t = Some (v, n, rest)" "1 \<le> n" "length rest < length t" "good v n" "d = int (length t - length rest)" "t \<noteq> []"
  shows "q \<noteq> pos \<Longrightarrow> lwalk op good pos code t ((q, k) # e # ix) = lwalk op good (pos + d) (code + n) rest ((q, k) # e # ix)"
    "lwalk op good pos code t [(q, k)] = lwalk op good (pos + d) (code + n) rest [(q, k)]"
  using assms lwalk.simps [of op good pos code t "(q, k) # e # ix"] lwalk.simps [of op good pos code t "[(q, k)]"] by simp_all

end
