(* ===== verification/Unicode_Cc.thy ===== *)
theory Unicode_Cc
  imports Label_Index Unicode_Prop Unicode_Norm_Tables "HOL-Library.Multiset"
begin

unbundle bit_operations_syntax

text \<open>
  Canonical combining classes and canonical ordering, from src/quickjs/libunicode.c: \<open>unicode_get_cc\<close> looks a
  class up in a table of runs with a sparse index, \<open>sort_cc\<close> orders the combining characters between two
  starters by class. The lookup is total and agrees with decoding the table from its start; the sort is
  the stable sort by class of every maximal sequence of combining characters.
\<close>

section \<open>The code\<close>

definition cc_run_len :: "u32 \<Rightarrow> u8 list \<Rightarrow> (u32 \<times> u8 list) option" where
  "cc_run_len n p =
     (if n < 48 then Some (n, p)
      else if n < 56 then do {
        (x, p) \<leftarrow> next_byte p;
        Some ((push_bit 8 (n - 48) OR x) + 48, p) }
      else do {
        (x, p) \<leftarrow> next_byte p; (y, p) \<leftarrow> next_byte p;
        Some ((push_bit 8 (n - 56) OR push_bit 8 x OR y) + (48 + push_bit 11 1), p) })"

text \<open>One entry: the length of the run less one, its type, and the byte behind it for the types 0 and 1.\<close>

definition cc_entry :: "u8 list \<Rightarrow> (u32 \<times> u32 \<times> u32 \<times> u8 list) option" where
  "cc_entry p = do {
     (b, p) \<leftarrow> next_byte p;
     (n, p) \<leftarrow> cc_run_len (b AND 0x3f) p;
     (v, p) \<leftarrow> (if drop_bit 6 b \<le> 1 then next_byte p else Some (0, p));
     Some (n, drop_bit 6 b, v, p) }"

lemma cc_run_len_length: "cc_run_len n p = Some (n', q) \<Longrightarrow> length q \<le> length p"
  unfolding cc_run_len_def by (cases p; cases "tl p") (auto split: if_split_asm simp del: word_neq_0_conv)

lemma cc_entry_length: "cc_entry p = Some (n, ty, v, q) \<Longrightarrow> length q < length p"
proof -
  assume "cc_entry p = Some (n, ty, v, q)"
  then obtain b p1 p2 where "next_byte p = Some (b, p1)" "cc_run_len (b AND 0x3f) p1 = Some (n, p2)"
    "(if drop_bit 6 b \<le> 1 then next_byte p2 else Some (0, p2)) = Some (v, q)"
    unfolding cc_entry_def by (auto simp only: bind_eq_Some_conv split_paired_Ex prod.case option.inject prod.inject)
  then show ?thesis using next_byte_length [of p b p1] next_byte_length [of p2 v q] cc_run_len_length [of "b AND 0x3f" p1 n p2]
    by (auto split: if_split_asm)
qed

function cc_loop :: "u32 \<Rightarrow> u32 \<Rightarrow> u8 list \<Rightarrow> int option" where
  "cc_loop c code p =
     (case cc_entry p of None \<Rightarrow> None
      | Some (n, ty, v, q) \<Rightarrow>
          let c1 = code + n + 1 in
          if c < c1 then
            Some (sint (if ty = 0 then v else if ty = 1 then v + c - code else if ty = 2 then 0 else 230))
          else cc_loop c c1 q)"
  by pat_completeness auto
termination by (relation "measure (\<lambda>(_, _, p). length p)") (auto dest: cc_entry_length)

declare cc_loop.simps [simp del]

definition unicode_get_cc :: "u32 \<Rightarrow> int option" where
  "unicode_get_cc c = do {
     r \<leftarrow> get_index_pos c unicode_cc_index (length unicode_cc_index div 3);
     case r of None \<Rightarrow> Some 0
     | Some (pos, code) \<Rightarrow> cc_loop c code (drop pos unicode_cc_table) }"

text \<open>
  \<open>sort_cc\<close>: the innermost loop moves greater classes up and stores the character (\<open>n\<close> is \<open>k + 1\<close>), the
  middle loop takes in the characters of one sequence, the outer loop finds the sequences.
\<close>

function cc_shift :: "u32 list \<Rightarrow> nat \<Rightarrow> nat \<Rightarrow> int \<Rightarrow> u32 \<Rightarrow> u32 list option" where
  "cc_shift buf start n cc1 ch1 =
     (if n > start then do {
        x \<leftarrow> rd buf (n - 1);
        cc \<leftarrow> unicode_get_cc x;
        if cc \<le> cc1 then wr buf n ch1
        else do { buf \<leftarrow> wr buf n x; cc_shift buf start (n - 1) cc1 ch1 } }
      else wr buf n ch1)"
  by pat_completeness auto
termination by (relation "measure (\<lambda>(_, _, n, _, _). n)") auto

declare cc_shift.simps [simp del]

function cc_sequence :: "u32 list \<Rightarrow> nat \<Rightarrow> nat \<Rightarrow> nat \<Rightarrow> (u32 list \<times> nat) option" where
  "cc_sequence buf len start j =
     (if j < len then do {
        ch1 \<leftarrow> rd buf j;
        cc1 \<leftarrow> unicode_get_cc ch1;
        if cc1 = 0 then Some (buf, j)
        else do { buf \<leftarrow> cc_shift buf start j cc1 ch1; cc_sequence buf len start (j + 1) } }
      else Some (buf, j))"
  by pat_completeness auto
termination by (relation "measure (\<lambda>(_, len, _, j). len - j)") auto

declare cc_sequence.simps [simp del]

partial_function (option) sort_cc_loop :: "u32 list \<Rightarrow> nat \<Rightarrow> nat \<Rightarrow> u32 list option" where
  "sort_cc_loop buf len i =
     (if i < len then do {
        x \<leftarrow> rd buf i;
        cc \<leftarrow> unicode_get_cc x;
        if cc \<noteq> 0 then do {
          (buf, j) \<leftarrow> cc_sequence buf len i (i + 1);
          sort_cc_loop buf len (j + 1) }
        else sort_cc_loop buf len (i + 1) }
      else Some buf)"

definition sort_cc :: "u32 list \<Rightarrow> nat \<Rightarrow> u32 list option" where
  "sort_cc buf len = sort_cc_loop buf len 0"


section \<open>The table of classes\<close>

fun cl_len :: "int \<Rightarrow> int list \<Rightarrow> (int \<times> int list) option" where
  "cl_len m p =
     (if m < 48 then Some (m + 1, p)
      else if m < 56 then (case p of [] \<Rightarrow> None | x # p \<Rightarrow> Some ((m - 48) * 256 + x + 49, p))
      else if m = 56 then (case p of x # y # p \<Rightarrow> Some (x * 256 + y + 2097, p) | _ \<Rightarrow> None)
      else None)"

declare cl_len.simps [simp del]

text \<open>The reference: a label is a type and a value.\<close>

fun cl_op :: "int list \<Rightarrow> ((int \<times> int) \<times> int \<times> int list) option" where
  "cl_op [] = None"
| "cl_op (b # p) =
     (case cl_len (b mod 64) p of None \<Rightarrow> None
      | Some (n, p) \<Rightarrow> if b < 128 then (case p of [] \<Rightarrow> None | v # p \<Rightarrow> Some ((b div 64, v), n, p)) else Some ((b div 64, 0), n, p))"

definition cl_val :: "int \<times> int \<Rightarrow> int \<Rightarrow> int" where
  "cl_val l d = (case l of (ty, v) \<Rightarrow> if ty = 0 then v else if ty = 1 then v + d else if ty = 2 then 0 else 230)"

definition cl_good :: "int \<times> int \<Rightarrow> int \<Rightarrow> bool" where
  "cl_good l n \<longleftrightarrow> (case l of (ty, v) \<Rightarrow> 0 \<le> v \<and> v < 256 \<and> (ty = 1 \<longrightarrow> v + n \<le> 256))"

lemma cc_run_len_ref:
  assumes "cl_len (uint b) (map uint p) = Some (n, rest)" and b: "uint b < 64"
  obtains w q where "cc_run_len (ucast (b :: u8)) p = Some (w, q)" "rest = map uint q" "uint w = n - 1"
proof -
  have ux: "uint (ucast b' :: u32) = uint b'" for b' :: u8 by (simp only: uint_nat unat_ucast_u32)
  have lt: "(ucast b :: u32) < k \<longleftrightarrow> uint b < uint k" for k by (simp only: word_less_def ux)
  consider "uint b < 48" | x q where "\<not> uint b < 48" "uint b < 56" "p = x # q"
    | x y q where "uint b = 56" "p = x # y # q"
    using assms unfolding cl_len.simps [of "uint b"] by (cases p; cases "tl p") (auto split: if_split_asm)
  then show ?thesis
  proof cases
    case 1
    then show ?thesis using assms by (intro that [of "ucast b" p]) (simp_all add: cc_run_len_def cl_len.simps lt ux)
  next
    case (2 x q)
    let ?w = "push_bit 8 ((ucast b :: u32) - 48) OR ucast x"
    have k: "48 \<le> unat b" using 2(1) unat_eq_nat_uint [of b] by linarith
    have w: "uint ?w = (uint b - 48) * 256 + uint x" using or_bytes2 [OF k, of x] by simp
    have "uint (?w + 48) = uint ?w + 48" using uint_add_small [of ?w 48] w 2(2) uint_byte_less [of x] by simp
    moreover have "cc_run_len (ucast b) p = Some (?w + 48, q)" using 2 by (simp add: cc_run_len_def lt)
    ultimately show ?thesis using assms 2 w by (intro that [of "?w + 48" q]) (auto simp: cl_len.simps)
  next
    case (3 x y q)
    let ?w = "push_bit 8 (ucast x :: u32) OR ucast y"
    have e: "b = 56" using 3(1) by (simp add: word_uint_eq_iff)
    have w: "uint ?w = uint x * 256 + uint y" using or_bytes2 [of 0 x y] by simp
    have "uint (?w + 2096) = uint ?w + 2096" using uint_add_small [of ?w 2096] w uint_byte_less [of x] uint_byte_less [of y] by simp
    moreover have "cc_run_len (ucast b) p = Some (?w + 2096, q)" using 3 e by (simp add: cc_run_len_def)
    ultimately show ?thesis using assms 3 w by (intro that [of "?w + 2096" q]) (auto simp: cl_len.simps)
  qed
qed

lemma cc_entry_ref:
  assumes "cl_op (map uint t) = Some ((ty, v), n, rest)"
  obtains w ty' u q where "cc_entry t = Some (w, ty', u, q)" "rest = map uint q" "uint w = n - 1" "uint u = v" "uint ty' = ty"
proof -
  obtain b p where t: "t = b # p" using assms by (cases t) auto
  let ?m = "b AND 0x3f :: u8"
  have m: "uint ?m = uint b mod 64" using nat_and_mask [of "unat b" 6] by (simp only: uint_nat unat_and) (simp add: zmod_int)
  have lo: "(ucast b :: u32) AND 0x3f = ucast ?m" by (rule bit_word_eqI) (auto simp: bit_simps dest: bit_imp_le_length)
  have hi: "uint (drop_bit 6 (ucast b :: u32)) = uint b div 64" by (simp only: uint_nat unat_drop_bit unat_ucast_u32) (simp add: zdiv_int)
  have le: "drop_bit 6 (ucast b :: u32) \<le> 1 \<longleftrightarrow> uint b < 128"
  proof -
    have "uint b div 64 \<le> 1 \<longleftrightarrow> uint b < 128" using uint_ge_0 [of b] by presburger
    then show ?thesis by (simp add: word_le_def hi)
  qed
  have ty: "ty = uint b div 64" using assms t by (auto split: option.splits list.splits if_splits)
  obtain r where l: "cl_len (uint ?m) (map uint p) = Some (n, r)" and r: "if uint b < 128 then r = v # rest else v = 0 \<and> rest = r"
    using assms t m by (auto split: option.splits list.splits if_splits)
  obtain w q where q: "cc_run_len (ucast ?m) p = Some (w, q)" "r = map uint q" "uint w = n - 1"
    by (rule cc_run_len_ref [OF l]) (use m in auto)
  show ?thesis
  proof (cases "uint b < 128")
    case False
    then have "cc_entry t = Some (w, drop_bit 6 (ucast b), 0, q)" using q(1) le by (simp add: cc_entry_def t lo)
    then show ?thesis using that r q False hi ty by auto
  next
    case True
    then obtain x q' where x: "q = x # q'" "uint x = v" "rest = map uint q'" using r q(2) by (cases q) auto
    have "cc_entry t = Some (w, drop_bit 6 (ucast b), ucast x, q')" using q(1) le True x(1) by (simp add: cc_entry_def t lo)
    moreover have "uint (ucast x :: u32) = uint x" by (simp only: uint_nat unat_ucast_u32)
    ultimately show ?thesis using that x q(3) hi ty by auto
  qed
qed

lemma cl_front: "front cl_op"
proof -
  have len: "rest = drop (length p - length rest) p \<and> length rest \<le> length p" if "cl_len m p = Some (n, rest)" for m p n rest
    using that by (auto simp: cl_len.simps split: if_splits list.splits)
  show ?thesis unfolding front_def
  proof (intro allI impI)
    fix t v n rest assume o: "cl_op t = Some (v, n, rest)"
    obtain b p where t: "t = b # p" using o by (cases t) auto
    obtain r where l: "cl_len (b mod 64) p = Some (n, r)" and r: "rest = r \<or> (\<exists>x. r = x # rest)"
      using o t by (auto split: option.splits list.splits if_splits)
    have r1: "r = drop (length p - length r) p" "length r \<le> length p" using len [OF l] by blast+
    from r show "rest = drop (length t - length rest) t"
    proof
      assume "rest = r"
      then show ?thesis using r1 t by (simp add: Suc_diff_le)
    next
      assume "\<exists>x. r = x # rest"
      then obtain x where x: "r = x # rest" by blast
      have "rest = tl (drop (length p - length r) p)" using r1(1) x by (metis list.sel(3))
      also have "\<dots> = drop (Suc (length p - length r)) p" by (simp add: tl_drop drop_Suc)
      also have "\<dots> = drop (length t - length rest) t" using r1(2) t x by (simp add: Suc_diff_Suc Suc_diff_le)
      finally show ?thesis .
    qed
  qed
qed

lemma cl_mod: "0 \<le> b \<Longrightarrow> b < 64 \<Longrightarrow> b mod 64 = (b :: int)" "64 \<le> b \<Longrightarrow> b < 128 \<Longrightarrow> b mod 64 = (b - 64 :: int)"
  "128 \<le> b \<Longrightarrow> b < 192 \<Longrightarrow> b mod 64 = (b - 128 :: int)" "192 \<le> b \<Longrightarrow> b < 256 \<Longrightarrow> b mod 64 = (b - 192 :: int)"
  "0 \<le> b \<Longrightarrow> b < 64 \<Longrightarrow> b div 64 = (0 :: int)" "64 \<le> b \<Longrightarrow> b < 128 \<Longrightarrow> b div 64 = (1 :: int)"
  "128 \<le> b \<Longrightarrow> b < 192 \<Longrightarrow> b div 64 = (2 :: int)" "192 \<le> b \<Longrightarrow> b < 256 \<Longrightarrow> b div 64 = (3 :: int)"
  by presburger+

text \<open>The steps of the checker on the forms of entries the table has.\<close>

lemma cl_ops:
  "uint b < 48 \<Longrightarrow> cl_op (map uint ((b # v # p) @ r :: u8 list)) = Some ((0, uint v), uint b + 1, map uint (p @ r))"
  "64 \<le> uint b \<Longrightarrow> uint b < 112 \<Longrightarrow> uint v + (uint b - 63) \<le> 256 \<Longrightarrow> cl_op (map uint ((b # v # p) @ r :: u8 list)) = Some ((1, uint v), uint b - 63, map uint (p @ r))"
  "128 \<le> uint b \<Longrightarrow> uint b < 176 \<Longrightarrow> cl_op (map uint ((b # p) @ r :: u8 list)) = Some ((2, 0), uint b - 127, map uint (p @ r))"
  "176 \<le> uint b \<Longrightarrow> uint b < 184 \<Longrightarrow> cl_op (map uint ((b # x # p) @ r :: u8 list)) = Some ((2, 0), (uint b - 176) * 256 + uint x + 49, map uint (p @ r))"
  "uint b = 184 \<Longrightarrow> cl_op (map uint ((b # x # y # p) @ r :: u8 list)) = Some ((2, 0), uint x * 256 + uint y + 2097, map uint (p @ r))"
  "192 \<le> uint b \<Longrightarrow> uint b < 240 \<Longrightarrow> cl_op (map uint ((b # p) @ r :: u8 list)) = Some ((3, 0), uint b - 191, map uint (p @ r))"
  by (simp_all add: cl_len.simps cl_mod uint_byte_less)

lemma cc_run_pos:
  "k \<le> b \<Longrightarrow> 0 \<le> x \<Longrightarrow> 1 \<le> m \<Longrightarrow> 1 \<le> (b - k) * 256 + x + (m :: int)" "0 \<le> x \<Longrightarrow> 0 \<le> y \<Longrightarrow> 1 \<le> m \<Longrightarrow> 1 \<le> x * 256 + y + (m :: int)"
proof -
  have "k \<le> b \<Longrightarrow> 0 \<le> (b - k) * 256" "0 \<le> x \<Longrightarrow> 0 \<le> x * (256 :: int)" by simp_all
  then show "k \<le> b \<Longrightarrow> 0 \<le> x \<Longrightarrow> 1 \<le> m \<Longrightarrow> 1 \<le> (b - k) * 256 + x + (m :: int)" "0 \<le> x \<Longrightarrow> 0 \<le> y \<Longrightarrow> 1 \<le> m \<Longrightarrow> 1 \<le> x * 256 + y + (m :: int)" by linarith+
qed

lemma cl_exec:
  "q \<noteq> pos \<Longrightarrow> uint b < 48 \<Longrightarrow> lwalk cl_op cl_good pos code (map uint ((b # v # p) @ r :: u8 list)) ((q, k) # e # ix) =
     lwalk cl_op cl_good (pos + 2) (code + (uint b + 1)) (map uint (p @ r)) ((q, k) # e # ix)"
  "uint b < 48 \<Longrightarrow> lwalk cl_op cl_good pos code (map uint ((b # v # p) @ r :: u8 list)) [(q, k)] =
     lwalk cl_op cl_good (pos + 2) (code + (uint b + 1)) (map uint (p @ r)) [(q, k)]"
  "q \<noteq> pos \<Longrightarrow> 64 \<le> uint b \<Longrightarrow> uint b < 112 \<Longrightarrow> uint v + (uint b - 63) \<le> 256 \<Longrightarrow> lwalk cl_op cl_good pos code (map uint ((b # v # p) @ r :: u8 list)) ((q, k) # e # ix) =
     lwalk cl_op cl_good (pos + 2) (code + (uint b - 63)) (map uint (p @ r)) ((q, k) # e # ix)"
  "64 \<le> uint b \<Longrightarrow> uint b < 112 \<Longrightarrow> uint v + (uint b - 63) \<le> 256 \<Longrightarrow> lwalk cl_op cl_good pos code (map uint ((b # v # p) @ r :: u8 list)) [(q, k)] =
     lwalk cl_op cl_good (pos + 2) (code + (uint b - 63)) (map uint (p @ r)) [(q, k)]"
  "q \<noteq> pos \<Longrightarrow> 128 \<le> uint b \<Longrightarrow> uint b < 176 \<Longrightarrow> lwalk cl_op cl_good pos code (map uint ((b # p) @ r :: u8 list)) ((q, k) # e # ix) =
     lwalk cl_op cl_good (pos + 1) (code + (uint b - 127)) (map uint (p @ r)) ((q, k) # e # ix)"
  "128 \<le> uint b \<Longrightarrow> uint b < 176 \<Longrightarrow> lwalk cl_op cl_good pos code (map uint ((b # p) @ r :: u8 list)) [(q, k)] =
     lwalk cl_op cl_good (pos + 1) (code + (uint b - 127)) (map uint (p @ r)) [(q, k)]"
  "q \<noteq> pos \<Longrightarrow> 176 \<le> uint b \<Longrightarrow> uint b < 184 \<Longrightarrow> lwalk cl_op cl_good pos code (map uint ((b # x # p) @ r :: u8 list)) ((q, k) # e # ix) =
     lwalk cl_op cl_good (pos + 2) (code + ((uint b - 176) * 256 + uint x + 49)) (map uint (p @ r)) ((q, k) # e # ix)"
  "176 \<le> uint b \<Longrightarrow> uint b < 184 \<Longrightarrow> lwalk cl_op cl_good pos code (map uint ((b # x # p) @ r :: u8 list)) [(q, k)] =
     lwalk cl_op cl_good (pos + 2) (code + ((uint b - 176) * 256 + uint x + 49)) (map uint (p @ r)) [(q, k)]"
  "q \<noteq> pos \<Longrightarrow> uint b = 184 \<Longrightarrow> lwalk cl_op cl_good pos code (map uint ((b # x # y # p) @ r :: u8 list)) ((q, k) # e # ix) =
     lwalk cl_op cl_good (pos + 3) (code + (uint x * 256 + uint y + 2097)) (map uint (p @ r)) ((q, k) # e # ix)"
  "uint b = 184 \<Longrightarrow> lwalk cl_op cl_good pos code (map uint ((b # x # y # p) @ r :: u8 list)) [(q, k)] =
     lwalk cl_op cl_good (pos + 3) (code + (uint x * 256 + uint y + 2097)) (map uint (p @ r)) [(q, k)]"
  "q \<noteq> pos \<Longrightarrow> 192 \<le> uint b \<Longrightarrow> uint b < 240 \<Longrightarrow> lwalk cl_op cl_good pos code (map uint ((b # p) @ r :: u8 list)) ((q, k) # e # ix) =
     lwalk cl_op cl_good (pos + 1) (code + (uint b - 191)) (map uint (p @ r)) ((q, k) # e # ix)"
  "192 \<le> uint b \<Longrightarrow> uint b < 240 \<Longrightarrow> lwalk cl_op cl_good pos code (map uint ((b # p) @ r :: u8 list)) [(q, k)] =
     lwalk cl_op cl_good (pos + 1) (code + (uint b - 191)) (map uint (p @ r)) [(q, k)]"
  by (rule lwalk_op [where op = cl_op, OF cl_ops(1)] lwalk_op [where op = cl_op, OF cl_ops(2)] lwalk_op [where op = cl_op, OF cl_ops(3)] lwalk_op [where op = cl_op, OF cl_ops(4)] lwalk_op [where op = cl_op, OF cl_ops(5)] lwalk_op [where op = cl_op, OF cl_ops(6)];
      (assumption | rule cc_run_pos | simp add: cl_good_def uint_byte_less)+)+

lemmas cl_pieces =
  arg_cong [OF unicode_cc_table_0_def, of "\<lambda>t. lwalk op good pos code (map uint (t @ r)) ix" for op good pos code r ix]
  arg_cong [OF unicode_cc_table_1_def, of "\<lambda>t. lwalk op good pos code (map uint (t @ r)) ix" for op good pos code r ix]
  arg_cong [OF unicode_cc_table_2_def, of "\<lambda>t. lwalk op good pos code (map uint (t @ r)) ix" for op good pos code r ix]
  arg_cong [OF unicode_cc_table_3_def, of "\<lambda>t. lwalk op good pos code (map uint (t @ r)) ix" for op good pos code r ix]
  arg_cong [OF unicode_cc_table_4_def, of "\<lambda>t. lwalk op good pos code (map uint (t @ r)) ix" for op good pos code r ix]

lemma cc_walk: "lwalk cl_op cl_good 0 0 (map uint unicode_cc_table) (dec_index 32 (map uint unicode_cc_index))"
proof -
  have e: "unicode_cc_table = unicode_cc_table_0 @ unicode_cc_table_1 @ unicode_cc_table_2 @ unicode_cc_table_3 @ unicode_cc_table_4 @ []"
    by (simp add: unicode_cc_table_def)
  show ?thesis unfolding unicode_cc_index_def
    by (simp cong: lwalk_ix_cong, subst e)
       (simp del: list.map append.simps append_Nil2 map_append add: lwalk_entry cl_exec cl_pieces cong: lwalk_cong)
qed

section \<open>The lookup\<close>

fun at_run :: "(int \<times> int \<times> 'v) list \<Rightarrow> int \<Rightarrow> (int \<times> 'v) option" where
  "at_run [] c = None"
| "at_run ((a, b, v) # rs) c = (if c < b then Some (a, v) else at_run rs c)"

lemma at_run_skip: "\<forall>(a, b, v) \<in> set pre. b \<le> c \<Longrightarrow> at_run (pre @ qs) c = at_run qs c"
  by (induction pre) auto

lemma at_run_inside: "c < runs_end k rs \<Longrightarrow> k \<le> c \<Longrightarrow> \<exists>a v. at_run rs c = Some (a, v)"
  by (induction rs c arbitrary: k rule: at_run.induct) auto

lemma at_run_beyond: "\<forall>(a, b, v) \<in> set rs. b \<le> c \<Longrightarrow> at_run rs c = None"
  using at_run_skip [of rs c "[]"] by simp

lemma prefix_ends:
  "lruns op k t = Some (pre @ qs) \<Longrightarrow> k \<le> runs_end k pre \<and> (\<forall>(a, b, v) \<in> set pre. b \<le> runs_end k pre)"
proof (induction pre arbitrary: k t)
  case (Cons x pre)
  have ne: "t \<noteq> []" using Cons.prems by (auto simp: lruns.simps)
  obtain v n rest rs' where o: "1 \<le> n" "lruns op (k + n) rest = Some rs'" "x # pre @ qs = (k, k + n, v) # rs'"
    using Cons.prems ne by (auto elim: lruns_Cons)
  then have "lruns op (k + n) rest = Some (pre @ qs)" "x = (k, k + n, v)" by auto
  then show ?case using Cons.IH [of "k + n" rest] o(1) by fastforce
qed simp

definition cc_runs :: "(int \<times> int \<times> int \<times> int) list" where
  "cc_runs = the (lruns cl_op 0 (map uint unicode_cc_table))"

text \<open>The combining class of a character, according to the table; 0 beyond it.\<close>

definition cc_of :: "u32 \<Rightarrow> int" where
  "cc_of c = (case at_run cc_runs (uint c) of None \<Rightarrow> 0 | Some (a, l) \<Rightarrow> cl_val l (uint c - a))"

lemma cc_loop_ok:
  "lruns cl_op (uint code) (map uint t) = Some rs \<Longrightarrow> runs_end (uint code) rs < 2 ^ 32 \<Longrightarrow> \<forall>(a, b, l) \<in> set rs. cl_good l (b - a) \<Longrightarrow>
   uint code \<le> uint c \<Longrightarrow> uint c < runs_end (uint code) rs \<Longrightarrow>
   cc_loop c code t = map_option (\<lambda>(a, l). cl_val l (uint c - a)) (at_run rs (uint c))"
proof (induction "length t" arbitrary: t code rs rule: less_induct)
  case less
  have ne: "map uint t \<noteq> []" using less.prems by (auto simp: lruns.simps)
  obtain l n rest rs' where o: "cl_op (map uint t) = Some (l, n, rest)" "1 \<le> n" "length rest < length (map uint t)"
    "lruns cl_op (uint code + n) rest = Some rs'" "rs = (uint code, uint code + n, l) # rs'"
    by (rule lruns_Cons [OF less.prems(1) ne])
  obtain ty v where l: "l = (ty, v)" by force
  obtain w ty' u q where q: "cc_entry t = Some (w, ty', u, q)" "rest = map uint q" "uint w = n - 1" "uint u = v" "uint ty' = ty"
    by (rule cc_entry_ref [OF o(1) [unfolded l]])
  have ends: "runs_end (uint code) rs = runs_end (uint code + n) rs'" "uint code + n \<le> runs_end (uint code + n) rs'"
    using lruns_order [OF o(4)] by (simp_all add: o(5))
  then have small: "uint code + n < 2 ^ 32" using less.prems(2) by linarith
  have c1: "uint (code + w + 1) = uint code + n"
    using uint_add_small [of code w] uint_add_small [of "code + w" 1] q(3) o(2) small by simp
  have lt: "c < code + w + 1 \<longleftrightarrow> uint c < uint code + n" by (simp only: word_less_def c1)
  show ?case
  proof (cases "uint c < uint code + n")
    case True
    let ?x = "if ty' = 0 then u else if ty' = 1 then u + c - code else if ty' = 2 then 0 else 230 :: u32"
    have good: "0 \<le> v" "v < 256" "ty = 1 \<longrightarrow> v + n \<le> 256" using less.prems(3) l by (simp_all add: o(5) cl_good_def)
    have diff: "uint (u + c - code) = v + (uint c - uint code)" if "ty = 1"
    proof -
      have "uint (c - code) = uint c - uint code" using less.prems(4) by (simp add: uint_minus_simple_alt [symmetric] word_le_def)
      then show ?thesis using uint_add_small [of u "c - code"] good that True q(4) by (simp only: add_diff_eq) simp
    qed
    have tys: "ty' = k \<longleftrightarrow> ty = uint k" for k using q(5) by (auto simp: word_uint_eq_iff)
    have x: "uint ?x = cl_val l (uint c - uint code)" using diff q(4) tys by (simp add: l cl_val_def)
    have "cl_val l (uint c - uint code) < 256" "0 \<le> cl_val l (uint c - uint code)" using good True less.prems(4) by (auto simp: l cl_val_def)
    then have "sint ?x = uint ?x" using x by (simp add: sint_uint signed_take_bit_int_eq_self)
    then show ?thesis using True lt q(1) x by (subst cc_loop.simps) (simp add: o(5))
  next
    case False
    have "cc_loop c (code + w + 1) q = map_option (\<lambda>(a, l). cl_val l (uint c - a)) (at_run rs' (uint c))"
      using less.hyps [of q "code + w + 1" rs'] o(3,4) q(2) c1 less.prems(2,3,5) ends False by (simp add: o(5))
    then show ?thesis using False lt q(1) by (subst cc_loop.simps) (simp add: o(5))
  qed
qed

lemma cc_table:
  "lruns cl_op 0 (map uint unicode_cc_table) = Some cc_runs"
  "runs_end 0 cc_runs = snd (last (dec_index 32 (map uint unicode_cc_index)))"
  "\<forall>(a, b, l) \<in> set cc_runs. cl_good l (b - a)"
  "(q, k) \<in> set (butlast (dec_index 32 (map uint unicode_cc_index))) \<Longrightarrow> 0 \<le> q \<and>
     (\<exists>pre qs. cc_runs = pre @ qs \<and> runs_end 0 pre = k \<and> lruns cl_op k (drop (nat q) (map uint unicode_cc_table)) = Some qs)"
proof -
  obtain rs where rs: "lruns cl_op 0 (map uint unicode_cc_table) = Some rs" "runs_end 0 rs = snd (last (dec_index 32 (map uint unicode_cc_index)))"
    "\<forall>(a, b, l) \<in> set rs. cl_good l (b - a)"
    "\<forall>(q, k) \<in> set (butlast (dec_index 32 (map uint unicode_cc_index))). 0 \<le> q \<and>
      (\<exists>pre qs. rs = pre @ qs \<and> runs_end 0 pre = k \<and> lruns cl_op k (drop (nat (q - 0)) (map uint unicode_cc_table)) = Some qs)"
    using lwalk_sound [OF cc_walk cl_front] by blast
  have e: "cc_runs = rs" by (simp add: cc_runs_def rs(1))
  show "lruns cl_op 0 (map uint unicode_cc_table) = Some cc_runs" "runs_end 0 cc_runs = snd (last (dec_index 32 (map uint unicode_cc_index)))"
    "\<forall>(a, b, l) \<in> set cc_runs. cl_good l (b - a)" using rs(1-3) e by simp_all
  show "(q, k) \<in> set (butlast (dec_index 32 (map uint unicode_cc_index))) \<Longrightarrow> 0 \<le> q \<and>
     (\<exists>pre qs. cc_runs = pre @ qs \<and> runs_end 0 pre = k \<and> lruns cl_op k (drop (nat q) (map uint unicode_cc_table)) = Some qs)"
    using bspec [OF rs(4)] e by fastforce
qed

lemma cc_index: "length unicode_cc_index mod 3 = 0" "unicode_cc_index \<noteq> []" "uint (last unicode_cc_index) < 32"
  "snd (hd (dec_index 32 (map uint unicode_cc_index))) \<le> snd (last (dec_index 32 (map uint unicode_cc_index)))"
  "snd (last (dec_index 32 (map uint unicode_cc_index))) = 0x1e94b"
  by (simp_all add: unicode_cc_index_def)

lemma unicode_get_cc_ok: "unicode_get_cc c = Some (cc_of c)"
proof -
  have small: "runs_end 0 cc_runs < 2 ^ 32" using cc_table(2) cc_index(5) by simp
  have L: "0 \<le> snd (last (dec_index 32 (map uint unicode_cc_index)))" "snd (last (dec_index 32 (map uint unicode_cc_index))) < 2 ^ 32"
    using cc_index(5) by simp_all
  show ?thesis
  proof (cases rule: get_index_pos_cases [OF cc_index(1-4) L, of c, case_names start beyond entry])
    case start
    obtain a l where r: "at_run cc_runs (uint c) = Some (a, l)" using at_run_inside [of "uint c" 0 cc_runs] start(2) cc_table(2) by auto
    have "cc_loop c 0 unicode_cc_table = Some (cl_val l (uint c - a))"
      using cc_loop_ok [of 0 unicode_cc_table cc_runs c] cc_table(1-3) small start(2) r by simp
    then show ?thesis using start(1) r by (simp add: unicode_get_cc_def cc_of_def)
  next
    case beyond
    have "\<forall>(a, b, v) \<in> set cc_runs. b \<le> uint c" using lruns_order [OF cc_table(1)] beyond(2) cc_table(2) by fastforce
    then show ?thesis using beyond(1) at_run_beyond [of cc_runs "uint c"] by (simp add: unicode_get_cc_def cc_of_def)
  next
    case (entry pos code)
    obtain pre qs where e: "cc_runs = pre @ qs" "runs_end 0 pre = uint code" "lruns cl_op (uint code) (drop pos (map uint unicode_cc_table)) = Some qs"
      using cc_table(4) [OF entry(2)] by auto
    have pre: "\<forall>(a, b, v) \<in> set pre. b \<le> uint c" using prefix_ends [of cl_op 0 _ pre qs] cc_table(1) e(1,2) entry(3) by fastforce
    have ends: "runs_end (uint code) qs = runs_end 0 cc_runs" unfolding e(1) e(2) [symmetric] runs_end_def by auto
    obtain a l where r: "at_run qs (uint c) = Some (a, l)" using at_run_inside [of "uint c" "uint code" qs] entry(3,4) cc_table(2) ends by auto
    have good: "\<forall>(a, b, l) \<in> set qs. cl_good l (b - a)" using cc_table(3) unfolding e(1) by simp
    have "cc_loop c code (drop pos unicode_cc_table) = Some (cl_val l (uint c - a))"
      using cc_loop_ok [of code "drop pos unicode_cc_table" qs c] e(3) cc_table(2) good small entry(3,4) r ends by (simp add: drop_map)
    then show ?thesis using entry(1) r at_run_skip [OF pre, of qs] e(1) by (simp add: unicode_get_cc_def cc_of_def)
  qed
qed

lemma cc_of_range: "0 \<le> cc_of c \<and> cc_of c < 256"
proof (cases "at_run cc_runs (uint c)")
  case (Some x)
  obtain a l where x: "x = (a, l)" by (cases x)
  have "\<exists>b. (a, b, l) \<in> set rs \<and> k \<le> a \<and> a \<le> uint c \<and> uint c < b"
    if "at_run rs (uint c) = Some (a, l)" "lruns cl_op k t = Some rs" "k \<le> uint c" for rs k t
    using that
  proof (induction rs arbitrary: k t)
    case (Cons y rs)
    have ne: "t \<noteq> []" using Cons.prems by (auto simp: lruns.simps)
    obtain v n rest where o: "1 \<le> n" "lruns cl_op (k + n) rest = Some rs" "y = (k, k + n, v)"
      using Cons.prems ne by (auto elim: lruns_Cons)
    show ?case
    proof (cases "uint c < k + n")
      case True
      then show ?thesis using Cons.prems o by auto
    next
      case False
      then show ?thesis using Cons.IH [of "k + n" rest] Cons.prems o by fastforce
    qed
  qed simp
  then obtain b where "(a, b, l) \<in> set cc_runs" "a \<le> uint c" "uint c < b" using Some x cc_table(1) uint_ge_0 by blast
  then show ?thesis using cc_table(3) Some x by (auto simp: cc_of_def cl_good_def cl_val_def split: prod.splits)
qed (simp add: cc_of_def)



section \<open>The sort\<close>

text \<open>The reference: every maximal sequence of combining characters is sorted by class, keeping the order of equal ones.\<close>

function reorder :: "u32 list \<Rightarrow> u32 list" where
  "reorder [] = []"
| "reorder (x # xs) =
     (if cc_of x = 0 then x # reorder xs
      else sort_key cc_of (x # takeWhile (\<lambda>y. cc_of y \<noteq> 0) xs) @ reorder (dropWhile (\<lambda>y. cc_of y \<noteq> 0) xs))"
  by pat_completeness auto
termination by (relation "measure length") (auto simp: le_imp_less_Suc length_dropWhile_le)

text \<open>Inserting from the right, behind the characters of an equal or smaller class.\<close>

fun ins_right :: "u32 \<Rightarrow> u32 list \<Rightarrow> u32 list" where
  "ins_right x [] = [x]"
| "ins_right x (y # ys) = (if cc_of x < cc_of y then x # y # ys else y # ins_right x ys)"

lemma ins_right_append: "sorted (map cc_of (ys @ [y])) \<Longrightarrow> cc_of y \<le> cc_of x \<Longrightarrow> ins_right x (ys @ [y]) = ys @ [y, x]"
  by (induction ys) (auto simp: sorted_append)

lemma ins_right_before: "cc_of x < cc_of y \<Longrightarrow> ins_right x (ys @ [y]) = ins_right x ys @ [y]"
  by (induction ys) auto

lemma length_ins_right [simp]: "length (ins_right x ys) = Suc (length ys)"
  by (induction ys) auto

lemma sorted_ins_right: "sorted (map cc_of ys) \<Longrightarrow> sorted (map cc_of (ins_right x ys))"
proof (induction ys)
  case (Cons y ys)
  have "set (ins_right x ys) = insert x (set ys)" for ys by (induction ys) auto
  then show ?case using Cons by (auto simp: image_iff)
qed simp

lemma sort_key_snoc: "sort_key cc_of (xs @ [x]) = ins_right x (sort_key cc_of xs)"
proof -
  have srt: "sorted (map cc_of (ins_right x (sort_key cc_of xs)))" by (rule sorted_ins_right) simp
  have ms: "mset (ins_right x ys) = add_mset x (mset ys)" for ys by (induction ys) auto
  have keep: "filter (\<lambda>y. cc_of y = k) (ins_right x ys) = filter (\<lambda>y. cc_of y = k) (ys @ [x])" if "sorted (map cc_of ys)" for k ys
    using that
  proof (induction ys)
    case (Cons y ys)
    have "filter (\<lambda>z. cc_of z = cc_of x) (y # ys) = []" if "cc_of x < cc_of y" using Cons.prems that by (auto simp: filter_empty_conv)
    then show ?case using Cons by auto
  qed simp
  show ?thesis
  proof (rule properties_for_sort_key)
    show "mset (ins_right x (sort_key cc_of xs)) = mset (xs @ [x])" by (simp add: ms)
    show "filter (\<lambda>y. cc_of k = cc_of y) (ins_right x (sort_key cc_of xs)) = filter (\<lambda>y. cc_of k = cc_of y) (xs @ [x])" for k
      using keep [of "sort_key cc_of xs" "cc_of k"] sort_key_stable [of cc_of "cc_of k" xs] by (simp add: eq_commute)
  qed (rule srt)
qed

text \<open>The loops on a buffer \<open>pre @ ys @ rest\<close>.\<close>

lemma cc_shift_ok:
  "sorted (map cc_of ys) \<Longrightarrow> length rest > 0 \<Longrightarrow> cc_shift (pre @ ys @ rest) (length pre) (length pre + length ys) (cc_of x) x =
     Some (pre @ ins_right x ys @ tl rest)"
proof (induction ys arbitrary: rest rule: rev_induct)
  case Nil
  then show ?case by (subst cc_shift.simps) (auto simp: wr_def list_update_append neq_Nil_conv)
next
  case (snoc y ys)
  obtain r rs where r: "rest = r # rs" using snoc.prems by (cases rest) auto
  have rd: "rd (pre @ (ys @ [y]) @ rest) (length pre + length (ys @ [y]) - 1) = Some y" by (simp add: rd_def nth_append)
  have wr: "wr (pre @ (ys @ [y]) @ rest) (length pre + length (ys @ [y])) z = Some (pre @ ys @ y # z # rs)" for z
    by (simp add: wr_def r list_update_append)
  have n: "length pre < length pre + length (ys @ [y])" by simp
  show ?case
  proof (cases "cc_of y \<le> cc_of x")
    case True
    then show ?thesis using ins_right_append [OF snoc.prems(1) True] rd wr n unicode_get_cc_ok [of y] r
      by (subst cc_shift.simps) simp
  next
    case False
    have "cc_shift (pre @ ys @ y # y # rs) (length pre) (length pre + length ys) (cc_of x) x = Some (pre @ ins_right x ys @ y # rs)"
      using snoc.IH [of "y # y # rs"] snoc.prems(1) by (simp add: sorted_append)
    then show ?thesis using False rd wr n unicode_get_cc_ok [of y] ins_right_before [of x y ys] r
      by (subst cc_shift.simps) simp
  qed
qed

lemma cc_sequence_ok:
  "ys \<noteq> [] \<Longrightarrow> cc_sequence (pre @ sort_key cc_of ys @ zs @ rest) (length pre + length ys + length zs) (length pre) (length pre + length ys) =
     Some (pre @ sort_key cc_of (ys @ takeWhile (\<lambda>z. cc_of z \<noteq> 0) zs) @ dropWhile (\<lambda>z. cc_of z \<noteq> 0) zs @ rest,
       length pre + length ys + length (takeWhile (\<lambda>z. cc_of z \<noteq> 0) zs))"
proof (induction zs arbitrary: ys)
  case Nil
  then show ?case by (subst cc_sequence.simps) simp
next
  case (Cons z zs)
  have rd: "rd (pre @ sort_key cc_of ys @ (z # zs) @ rest) (length pre + length ys) = Some z" by (simp add: rd_def nth_append)
  show ?case
  proof (cases "cc_of z = 0")
    case True
    then show ?thesis using rd unicode_get_cc_ok [of z] by (subst cc_sequence.simps) simp
  next
    case False
    have sh: "cc_shift (pre @ sort_key cc_of ys @ (z # zs) @ rest) (length pre) (length pre + length ys) (cc_of z) z =
        Some (pre @ sort_key cc_of (ys @ [z]) @ zs @ rest)"
      using cc_shift_ok [of "sort_key cc_of ys" "z # zs @ rest" pre z] by (simp add: sort_key_snoc)
    show ?thesis using Cons.IH [of "ys @ [z]"] rd sh False unicode_get_cc_ok [of z] by (subst cc_sequence.simps) simp
  qed
qed

lemma sort_cc_loop_ok:
  "sort_cc_loop (pre @ xs @ rest) (length pre + length xs) (length pre) = Some (pre @ reorder xs @ rest)"
proof (induction "length xs" arbitrary: pre xs rule: less_induct)
  case less
  show ?case
  proof (cases xs)
    case Nil
    then show ?thesis by (subst sort_cc_loop.simps) simp
  next
    case (Cons x ys)
    have rd: "rd (pre @ xs @ rest) (length pre) = Some x" by (simp add: rd_def nth_append Cons)
    show ?thesis
    proof (cases "cc_of x = 0")
      case True
      then show ?thesis using less.hyps [of ys "pre @ [x]"] rd unicode_get_cc_ok [of x] Cons
        by (subst sort_cc_loop.simps) simp
    next
      case False
      define t where "t = takeWhile (\<lambda>z. cc_of z \<noteq> 0) ys"
      define d where "d = dropWhile (\<lambda>z. cc_of z \<noteq> 0) ys"
      define s where "s = sort_key cc_of (x # t)"
      have split: "length xs = 1 + length t + length d" "length s = 1 + length t"
        unfolding t_def d_def s_def by (simp_all add: Cons) (metis length_append takeWhile_dropWhile_id)
      have sq: "cc_sequence (pre @ xs @ rest) (length pre + length xs) (length pre) (length pre + 1) =
          Some (pre @ s @ d @ rest, length pre + 1 + length t)"
        using cc_sequence_ok [of "[x]" pre ys rest] by (simp add: Cons s_def t_def d_def)
      have "sort_cc_loop (pre @ s @ d @ rest) (length pre + length xs) (length pre + 1 + length t + 1) = Some (pre @ s @ reorder d @ rest)"
      proof (cases d)
        case Nil
        then show ?thesis using split by (subst sort_cc_loop.simps) simp
      next
        case (Cons e ds)
        have z: "cc_of e = 0" using Cons hd_dropWhile [of "\<lambda>z. cc_of z \<noteq> 0" ys] by (simp add: d_def)
        have "length ds < length xs" using split Cons by simp
        from less.hyps [OF this, of "pre @ s @ [e]"] show ?thesis using split Cons z by (simp add: ac_simps)
      qed
      moreover have "reorder xs = s @ reorder d" using False by (simp add: Cons s_def t_def d_def)
      ultimately show ?thesis using rd sq False unicode_get_cc_ok [of x] split by (subst sort_cc_loop.simps) simp
    qed
  qed
qed

section \<open>Properties\<close>

text \<open>
  C22. The combining class of every 32-bit argument: \<open>unicode_get_cc\<close> reads only inside its table and index,
  returns, and gives the class obtained by decoding the table of runs from its start, a number between 0
  and 255.
\<close>

theorem combining_class_lookup: "unicode_get_cc c = Some (cc_of c) \<and> 0 \<le> cc_of c \<and> cc_of c \<le> 255"
  using unicode_get_cc_ok cc_of_range [of c] by simp

text \<open>
  C20. Canonical ordering: \<open>sort_cc\<close> on the first \<open>len\<close> characters of a buffer ends, leaves the rest of the
  buffer alone and equals the stable sort by combining class of every maximal sequence of combining
  characters; starters keep their places.
\<close>

theorem sort_cc_reorders:
  assumes "len \<le> length buf"
  shows "sort_cc buf len = Some (reorder (take len buf) @ drop len buf)"
  using sort_cc_loop_ok [of "[]" "take len buf" "drop len buf"] assms by (simp add: sort_cc_def min_absorb2)

theorem sort_cc_reorders_witness:
  "sort_cc [0x61, 0x301, 0x323, 0x62] 4 = Some (reorder [0x61, 0x301, 0x323, 0x62])"
  using sort_cc_reorders [of 4 "[0x61, 0x301, 0x323, 0x62]"] by simp

end
