(* ===== verification/Unicode_Normalize.thy ===== *)
theory Unicode_Normalize
  imports Unicode_Cc Dynbuf
begin

unbundle bit_operations_syntax

text \<open>
  Normalization, from src/quickjs/libunicode.c: the decomposition table and its search, recursive
  decomposition into a growable buffer, composition of pairs and \<open>unicode_normalize\<close>. The buffer is the one
  of \<open>Dynbuf\<close>; its bytes are read as 32-bit numbers once the decomposition is complete.
\<close>

section \<open>Decomposition entries\<close>

definition UNICODE_DECOMP_LEN_MAX :: nat where "UNICODE_DECOMP_LEN_MAX = 18"

definition DECOMP_TYPE_C1 :: nat where "DECOMP_TYPE_C1 = 0"
definition DECOMP_TYPE_L1 :: nat where "DECOMP_TYPE_L1 = 1"
definition DECOMP_TYPE_L7 :: nat where "DECOMP_TYPE_L7 = 7"
definition DECOMP_TYPE_LL1 :: nat where "DECOMP_TYPE_LL1 = 8"
definition DECOMP_TYPE_LL2 :: nat where "DECOMP_TYPE_LL2 = 9"
definition DECOMP_TYPE_S1 :: nat where "DECOMP_TYPE_S1 = 10"
definition DECOMP_TYPE_S5 :: nat where "DECOMP_TYPE_S5 = 14"
definition DECOMP_TYPE_I1 :: nat where "DECOMP_TYPE_I1 = 15"
definition DECOMP_TYPE_I2_0 :: nat where "DECOMP_TYPE_I2_0 = 16"
definition DECOMP_TYPE_I4_2 :: nat where "DECOMP_TYPE_I4_2 = 21"
definition DECOMP_TYPE_B1 :: nat where "DECOMP_TYPE_B1 = 22"
definition DECOMP_TYPE_B8 :: nat where "DECOMP_TYPE_B8 = 29"
definition DECOMP_TYPE_B18 :: nat where "DECOMP_TYPE_B18 = 30"
definition DECOMP_TYPE_LS2 :: nat where "DECOMP_TYPE_LS2 = 31"
definition DECOMP_TYPE_PAT3 :: nat where "DECOMP_TYPE_PAT3 = 32"
definition DECOMP_TYPE_S2_UL :: nat where "DECOMP_TYPE_S2_UL = 33"
definition DECOMP_TYPE_LS2_UL :: nat where "DECOMP_TYPE_LS2_UL = 34"

definition unicode_get_short_code :: "u32 \<Rightarrow> u32 option" where
  "unicode_get_short_code c =
     (if c < 0x80 then Some c
      else if c < 0x80 + 0x50 then Some (c - 0x80 + 0x300)
      else rd [0x2044, 0x2215] (unat (c - 0x80 - 0x50)))"

definition unicode_get_lower_simple :: "u32 \<Rightarrow> u32" where
  "unicode_get_lower_simple c = (if c < 0x100 \<or> (c \<ge> 0x410 \<and> c \<le> 0x42f) then c + 0x20 else c + 1)"

definition unicode_get16 :: "nat \<Rightarrow> u32 option" where
  "unicode_get16 p = do {
     a \<leftarrow> rd unicode_decomp_data p; b \<leftarrow> rd unicode_decomp_data (p + 1);
     Some (ucast a OR push_bit 8 (ucast b)) }"

definition decomp_byte :: "nat \<Rightarrow> u32 option" where
  "decomp_byte p = map_option ucast (rd unicode_decomp_data p)"

text \<open>
  The result of an entry: the return value and the elements of \<open>res\<close> that were stored. The loops that
  stop at a zero have stored it (\<open>DECOMP_TYPE_L\<close>, \<open>DECOMP_TYPE_S\<close>) or not (\<open>DECOMP_TYPE_LL\<close>).
\<close>

fun fill_until :: "bool \<Rightarrow> (nat \<Rightarrow> u32 option) \<Rightarrow> nat list \<Rightarrow> u32 list \<Rightarrow> (nat \<times> u32 list) option" where
  "fill_until store f [] res = Some (length res, res)"
| "fill_until store f (i # is) res = do {
     v \<leftarrow> f i;
     if v = 0 then Some (0, if store then res @ [v] else res)
     else fill_until store f is (res @ [v]) }"

fun fill_all :: "(nat \<Rightarrow> u32 option) \<Rightarrow> nat list \<Rightarrow> u32 list \<Rightarrow> (nat \<times> u32 list) option" where
  "fill_all f [] res = Some (length res, res)"
| "fill_all f (i # is) res = do { v \<leftarrow> f i; fill_all f is (res @ [v]) }"

definition unicode_decomp_entry :: "u32 \<Rightarrow> nat \<Rightarrow> u32 \<Rightarrow> u32 \<Rightarrow> nat \<Rightarrow> (nat \<times> u32 list) option" where
  "unicode_decomp_entry c idx code len type = do {
     v \<leftarrow> rd unicode_decomp_table2 idx;
     let d = unat v; let k = unat (c - code);
     if type = DECOMP_TYPE_C1 then Some (1, [ucast v])
     else if DECOMP_TYPE_L1 \<le> type \<and> type \<le> DECOMP_TYPE_L7 then
       (let l = type - DECOMP_TYPE_L1 + 1; d = d + k * l * 2 in
        fill_until True (\<lambda>i. unicode_get16 (d + 2 * i)) [0..<l] [])
     else if DECOMP_TYPE_LL1 \<le> type \<and> type \<le> DECOMP_TYPE_LL2 then
       (let l = type - DECOMP_TYPE_LL1 + 1; p = unat len * l * 2 in
        fill_until False (\<lambda>i. do {
            let k = k * l + i;
            a \<leftarrow> unicode_get16 (d + 2 * k);
            b \<leftarrow> decomp_byte (d + p + k div 4);
            Some (a OR push_bit 16 (drop_bit ((k mod 4) * 2) b AND 3)) }) [0..<l] [])
     else if DECOMP_TYPE_S1 \<le> type \<and> type \<le> DECOMP_TYPE_S5 then
       (let l = type - DECOMP_TYPE_S1 + 1; d = d + k * l in
        fill_until True (\<lambda>i. do { b \<leftarrow> decomp_byte (d + i); unicode_get_short_code b }) [0..<l] [])
     else if DECOMP_TYPE_I1 \<le> type \<and> type \<le> DECOMP_TYPE_I4_2 then
       (let l = (if type = DECOMP_TYPE_I1 then 1 else 2 + (type - DECOMP_TYPE_I2_0) div 2);
            p = (if type = DECOMP_TYPE_I1 then 0 else (type - DECOMP_TYPE_I2_0) mod 2 + (if l > 2 then 1 else 0)) in
        fill_all (\<lambda>i. do { c1 \<leftarrow> unicode_get16 (d + 2 * i); Some (if i = p then c1 + (c - code) else c1) }) [0..<l] [])
     else if type = DECOMP_TYPE_B18 \<or> (DECOMP_TYPE_B1 \<le> type \<and> type \<le> DECOMP_TYPE_B8) then do {
        let l = (if type = DECOMP_TYPE_B18 then 18 else type - DECOMP_TYPE_B1 + 1);
        c_min \<leftarrow> unicode_get16 d;
        let d = d + 2 + k * l;
        fill_all (\<lambda>i. do { c1 \<leftarrow> decomp_byte (d + i); Some (if c1 = 0xff then 0x20 else c1 + c_min) }) [0..<l] [] }
     else if type = DECOMP_TYPE_LS2 then do {
        let d = d + k * 3;
        a \<leftarrow> unicode_get16 d;
        if a = 0 then Some (0, [a])
        else do { b \<leftarrow> decomp_byte (d + 2); s \<leftarrow> unicode_get_short_code b; Some (2, [a, s]) } }
     else if type = DECOMP_TYPE_PAT3 then do {
        a \<leftarrow> unicode_get16 d; z \<leftarrow> unicode_get16 (d + 2);
        b \<leftarrow> unicode_get16 (d + 4 + k * 2);
        Some (3, [a, b, z]) }
     else if type = DECOMP_TYPE_S2_UL \<or> type = DECOMP_TYPE_LS2_UL then do {
        (e, d) \<leftarrow> (if type = DECOMP_TYPE_S2_UL then do {
              let d = d + (k - k mod 2);
              b \<leftarrow> decomp_byte d; e \<leftarrow> unicode_get_short_code b; Some (e, d + 1) }
            else do { let d = d + (k div 2) * 3; e \<leftarrow> unicode_get16 d; Some (e, d + 2) });
        let e = (if odd k then unicode_get_lower_simple e else e);
        b \<leftarrow> decomp_byte d; s \<leftarrow> unicode_get_short_code b;
        Some (2, [e, s]) }
     else Some (0, []) }"

definition entry_code :: "u32 \<Rightarrow> u32" where "entry_code v = drop_bit 14 v"
definition entry_len :: "u32 \<Rightarrow> u32" where "entry_len v = drop_bit 7 v AND 0x7f"
definition entry_type :: "u32 \<Rightarrow> nat" where "entry_type v = unat (drop_bit 1 v AND 0x3f)"

text \<open>The binary search of \<open>unicode_decomp_char\<close>; \<open>res\<close> has room for \<open>UNICODE_DECOMP_LEN_MAX\<close> elements.\<close>

function decomp_search :: "u32 \<Rightarrow> bool \<Rightarrow> int \<Rightarrow> int \<Rightarrow> (nat \<times> u32 list) option" where
  "decomp_search c is_compat1 idx_min idx_max =
     (if idx_min \<le> idx_max then do {
        let idx = (idx_max + idx_min) div 2;
        v \<leftarrow> rd unicode_decomp_table1 (nat idx);
        if c < entry_code v then decomp_search c is_compat1 idx_min (idx - 1)
        else if c \<ge> entry_code v + entry_len v then decomp_search c is_compat1 (idx + 1) idx_max
        else if \<not> is_compat1 \<and> v AND 1 \<noteq> 0 then Some (0, [])
        else do {
          (l, res) \<leftarrow> unicode_decomp_entry c (nat idx) (entry_code v) (entry_len v) (entry_type v);
          if length res \<le> UNICODE_DECOMP_LEN_MAX then Some (l, res) else None } }
      else Some (0, []))"
  by pat_completeness auto
termination
  by (relation "measure (\<lambda>(_, _, lo, hi). nat (hi + 1 - lo))") auto

declare decomp_search.simps [simp del]

definition unicode_decomp_char :: "u32 \<Rightarrow> bool \<Rightarrow> (nat \<times> u32 list) option" where
  "unicode_decomp_char c is_compat1 = decomp_search c is_compat1 0 (int (length unicode_decomp_table1) - 1)"


section \<open>Composition\<close>

text \<open>
  \<open>pair\<close> keeps what earlier iterations stored; \<^term>\<open>None\<close> is an element not stored yet. The difference of
  two code points is taken as a signed number.
\<close>

definition store_pair :: "u32 list \<Rightarrow> u32 option list \<Rightarrow> u32 option list option" where
  "store_pair res pair = (if length res \<le> length pair then Some (map Some res @ drop (length res) pair) else None)"

function compose_search :: "u32 \<Rightarrow> u32 \<Rightarrow> u32 option list \<Rightarrow> int \<Rightarrow> int \<Rightarrow> u32 option" where
  "compose_search c0 c1 pair idx_min idx_max =
     (if idx_min \<le> idx_max then do {
        let idx = (idx_max + idx_min) div 2;
        idx1 \<leftarrow> rd unicode_comp_table (nat idx);
        let d_idx = unat (drop_bit 6 idx1); let d_offset = ucast (idx1 AND 0x3f);
        v \<leftarrow> rd unicode_decomp_table1 d_idx;
        let ch = entry_code v + d_offset;
        (_, res) \<leftarrow> unicode_decomp_entry ch d_idx (entry_code v) (entry_len v) (entry_type v);
        pair \<leftarrow> store_pair res pair;
        p0 \<leftarrow> pair ! 0;
        p1 \<leftarrow> (if sint (c0 - p0) = 0 then pair ! 1 else Some 0);
        let d = (if sint (c0 - p0) = 0 then sint (c1 - p1) else sint (c0 - p0));
        if d < 0 then compose_search c0 c1 pair idx_min (idx - 1)
        else if d > 0 then compose_search c0 c1 pair (idx + 1) idx_max
        else Some ch }
      else Some 0)"
  by pat_completeness auto
termination
  by (relation "measure (\<lambda>(_, _, _, lo, hi). nat (hi + 1 - lo))") auto

declare compose_search.simps [simp del]

definition unicode_compose_pair :: "u32 \<Rightarrow> u32 \<Rightarrow> u32 option" where
  "unicode_compose_pair c0 c1 = compose_search c0 c1 [None, None] 0 (int (length unicode_comp_table) - 1)"

definition compose_pair :: "u32 \<Rightarrow> u32 \<Rightarrow> u32 option" where
  "compose_pair c0 c1 =
     (if c0 \<ge> 0x1100 \<and> c0 < 0x1100 + 19 \<and> c1 \<ge> 0x1161 \<and> c1 < 0x1161 + 21 then
        Some (0xac00 + (c0 - 0x1100) * 588 + (c1 - 0x1161) * 28)
      else if c0 \<ge> 0xac00 \<and> c0 < 0xac00 + 11172 \<and> (c0 - 0xac00) mod 28 = 0 \<and> c1 \<ge> 0x11a7 \<and> c1 < 0x11a7 + 28 then
        Some (c0 + c1 - 0x11a7)
      else unicode_compose_pair c0 c1)"


section \<open>Normalization\<close>

text \<open>A Hangul syllable: its leading consonant, its vowel and, unless it is 0, its final consonant.\<close>

definition hangul_jamo :: "u32 \<Rightarrow> u32 list" where
  "hangul_jamo c0 = (let c = c0 - 0xac00; v = c mod 28 in
     [0x1100 + c div 588, 0x1161 + (c mod 588) div 28] @ (if v \<noteq> 0 then [0x11a7 + v] else []))"

fun put_all_u32 :: "'m DynBuf \<Rightarrow> u32 list \<Rightarrow> 'm DynBuf option" where
  "put_all_u32 s [] = Some s"
| "put_all_u32 s (c # cs) = do { (_, s) \<leftarrow> dbuf_put_u32 s c; put_all_u32 s cs }"

partial_function (option) to_nfd_rec :: "'m DynBuf \<Rightarrow> u32 list \<Rightarrow> bool \<Rightarrow> 'm DynBuf option" where
  "to_nfd_rec s src is_compat =
     (if src = [] then Some s
      else do {
        let c = hd src;
        s \<leftarrow> (if c \<ge> 0xac00 \<and> c < 0xd7a4 then put_all_u32 s (hangul_jamo c)
             else do {
               (l, res) \<leftarrow> unicode_decomp_char c is_compat;
               if l \<noteq> 0 then to_nfd_rec s (take l res) is_compat else put_all_u32 s [c] });
        to_nfd_rec s (tl src) is_compat })"

datatype scan_result = Starter nat | Blocked | No_Starter

text \<open>The search for the starter of the character at \<open>i\<close>; the argument \<open>n\<close> is \<open>starter_pos + 1\<close>.\<close>

fun starter_scan :: "u32 list \<Rightarrow> nat \<Rightarrow> int \<Rightarrow> scan_result option" where
  "starter_scan bf 0 last_cc = Some No_Starter"
| "starter_scan bf (Suc n) last_cc = do {
     x \<leftarrow> rd bf n;
     cc \<leftarrow> unicode_get_cc x;
     if cc = 0 then Some (Starter n)
     else if cc \<ge> last_cc then Some Blocked
     else starter_scan bf n 256 }"

function compose_loop :: "u32 list \<Rightarrow> nat \<Rightarrow> nat \<Rightarrow> nat \<Rightarrow> (u32 list \<times> nat) option" where
  "compose_loop bf buf_len i out_len =
     (if i < buf_len then do {
        x \<leftarrow> rd bf i;
        last_cc \<leftarrow> unicode_get_cc x;
        sc \<leftarrow> starter_scan bf out_len last_cc;
        p \<leftarrow> (case sc of Starter n \<Rightarrow> do { y \<leftarrow> rd bf n; compose_pair y x } | _ \<Rightarrow> Some 0);
        if p \<noteq> 0 then do {
          bf \<leftarrow> (case sc of Starter n \<Rightarrow> wr bf n p | _ \<Rightarrow> None);
          compose_loop bf buf_len (i + 1) out_len }
        else do {
          bf \<leftarrow> wr bf out_len x;
          compose_loop bf buf_len (i + 1) (out_len + 1) } }
      else Some (bf, out_len))"
  by pat_completeness auto
termination by (relation "measure (\<lambda>(_, len, i, _). len - i)") auto

declare compose_loop.simps [simp del]

datatype UnicodeNormalizationEnum = UNICODE_NFC | UNICODE_NFD | UNICODE_NFKC | UNICODE_NFKD

primrec compat_form :: "UnicodeNormalizationEnum \<Rightarrow> bool" where
  "compat_form UNICODE_NFC = False" | "compat_form UNICODE_NFD = False"
| "compat_form UNICODE_NFKC = True" | "compat_form UNICODE_NFKD = True"

primrec decomp_form :: "UnicodeNormalizationEnum \<Rightarrow> bool" where
  "decomp_form UNICODE_NFC = False" | "decomp_form UNICODE_NFD = True"
| "decomp_form UNICODE_NFKC = False" | "decomp_form UNICODE_NFKD = True"

text \<open>The bytes of a block as 32-bit numbers.\<close>

fun ints_of :: "u8 list \<Rightarrow> u32 list" where
  "ints_of (a # b # c # d # r) = of_bytes [a, b, c, d] # ints_of r"
| "ints_of _ = []"

text \<open>
  The result: the return value, the block stored in \<open>*pdst\<close> (its leading elements, as many as the return
  value says; \<^term>\<open>None\<close> for NULL) and the buffer with the state of the allocator.
\<close>

definition unicode_normalize :: "u32 list \<Rightarrow> UnicodeNormalizationEnum \<Rightarrow> 'm realloc_func \<Rightarrow> 'm \<Rightarrow> 'm realloc_func option \<Rightarrow>
    (int \<times> u32 list option \<times> 'm DynBuf) option" where
  "unicode_normalize src n_type dflt opq f = do {
     let s = dbuf_init2 dflt opq f;
     (r, s) \<leftarrow> dbuf_realloc s (4 * word_of_nat (length src));
     if r \<noteq> 0 then Some (-1, None, s)
     else if n_type = UNICODE_NFC \<and> (\<forall>c \<in> set src. c < 0x100) then do {
       s \<leftarrow> buf_store s 0 (concat (map (to_bytes 4) src));
       Some (int (length src), map_option (\<lambda>b. take (length src) (ints_of b)) (buf s), s) }
     else do {
       s \<leftarrow> to_nfd_rec s src (compat_form n_type);
       if dbuf_error s then Some (-1, None, s)
       else do {
         let buf_len = unat (dsize s) div 4;
         bf \<leftarrow> sort_cc (take buf_len (ints_of (mem s))) buf_len;
         if buf_len \<le> 1 \<or> decomp_form n_type then Some (int buf_len, map_option (\<lambda>_. bf) (buf s), s)
         else do {
           (bf, out_len) \<leftarrow> compose_loop bf buf_len 1 1;
           Some (int out_len, Some (take out_len bf), s) } } } }"

section \<open>Decomposition as a relation\<close>

text \<open>
  The reference: every Hangul syllable is replaced by its letters, every other character by the
  decomposition of its decomposition, and a character without one stands for itself.
\<close>

definition hangul :: "u32 \<Rightarrow> bool" where "hangul c \<longleftrightarrow> c \<ge> 0xac00 \<and> c < 0xd7a4"

inductive nfd :: "bool \<Rightarrow> u32 list \<Rightarrow> u32 list \<Rightarrow> bool" for kc where
  Nil: "nfd kc [] []"
| Syllable: "hangul c \<Longrightarrow> nfd kc cs out \<Longrightarrow> nfd kc (c # cs) (hangul_jamo c @ out)"
| Plain: "\<not> hangul c \<Longrightarrow> unicode_decomp_char c kc = Some (0, res) \<Longrightarrow> nfd kc cs out \<Longrightarrow>
    nfd kc (c # cs) (c # out)"
| Decomposed: "\<not> hangul c \<Longrightarrow> unicode_decomp_char c kc = Some (l, res) \<Longrightarrow> l \<noteq> 0 \<Longrightarrow>
    nfd kc (take l res) out1 \<Longrightarrow> nfd kc cs out \<Longrightarrow> nfd kc (c # cs) (out1 @ out)"

inductive_cases nfd_NilE: "nfd kc [] out"
inductive_cases nfd_ConsE: "nfd kc (c # cs) out"

lemma put_all_append: "put_all_u32 s (xs @ ys) = put_all_u32 s xs \<bind> (\<lambda>s. put_all_u32 s ys)"
  by (induction xs arbitrary: s) (auto simp: bind_assoc split_beta')

lemma put_all_seq: "put_all_u32 s cs = put_seq dbuf_put s (map (to_bytes 4) cs)"
  by (induction cs arbitrary: s) (simp_all add: dbuf_put_u32_def)

text \<open>The recursion appends exactly the reference decomposition, and ends.\<close>

lemma to_nfd_rec_put: "nfd kc src out \<Longrightarrow> to_nfd_rec s src kc = put_all_u32 s out"
proof (induction arbitrary: s rule: nfd.induct)
  case Nil
  then show ?case by (simp add: to_nfd_rec.simps)
next
  case (Syllable c cs out)
  then show ?case by (subst to_nfd_rec.simps) (simp add: hangul_def put_all_append)
next
  case (Plain c res cs out)
  then show ?case by (subst to_nfd_rec.simps) (auto simp: hangul_def bind_assoc split_beta')
next
  case (Decomposed c l res out1 cs out)
  then show ?case by (subst to_nfd_rec.simps) (auto simp: hangul_def put_all_append)
qed

lemma nfd_functional: "nfd kc src out \<Longrightarrow> nfd kc src out' \<Longrightarrow> out = out'"
proof (induction arbitrary: out' rule: nfd.induct)
  case Nil
  then show ?case by (rule nfd_NilE) simp
next
  case (Syllable c cs out)
  from Syllable.prems show ?case by (rule nfd_ConsE) (use Syllable in auto)
next
  case (Plain c res cs out)
  from Plain.prems show ?case by (rule nfd_ConsE) (use Plain in auto)
next
  case (Decomposed c l res out1 cs out)
  from Decomposed.prems show ?case
  proof (rule nfd_ConsE)
    fix l' res' o1 o2
    assume "out' = o1 @ o2" "unicode_decomp_char c kc = Some (l', res')" "nfd kc (take l' res') o1" "nfd kc cs o2"
    then show ?thesis using Decomposed.hyps(2) Decomposed.IH by (metis Pair_inject option.inject)
  qed (use Decomposed.hyps in auto)
qed

lemma ints_of_bytes: "ints_of (concat (map (to_bytes 4) xs) @ rest) = xs @ ints_of rest"
proof (induction xs)
  case (Cons x xs)
  obtain a b c d where t: "to_bytes 4 x = [a, b, c, d]"
    by (simp add: to_bytes_def upt_rec)
  have "of_bytes [a, b, c, d] = x" using of_to_bytes [of 4 x] by (simp add: t)
  then show ?case using Cons by (simp add: t)
qed simp

lemma length_words [simp]: "length (concat (map (to_bytes 4) xs)) = 4 * length xs"
  by (induction xs) auto

lemma put_all_ok:
  assumes "dbuf_wf s" and "content s = []" and "4 * length out < 2 ^ 32"
  shows "ok (put_all_u32 s out) (\<lambda>s'. dbuf_wf s' \<and> (\<not> derror s' \<longrightarrow>
    unat (dsize s') = 4 * length out \<and> take (length out) (ints_of (mem s')) = out))"
proof -
  have "ok (put_all_u32 s out) (\<lambda>s'. dbuf_wf s' \<and> (derror s \<longrightarrow> derror s') \<and>
      (\<not> derror s' \<longrightarrow> content s' = content s @ concat (map (to_bytes 4) out)) \<and>
      length (content s') \<le> length (content s) + length (concat (map (to_bytes 4) out)))"
    unfolding put_all_seq using assms by (intro dbuf.put_seq_ok) auto
  then show ?thesis
  proof (rule ok_mono, goal_cases)
    case (1 s')
    have "take (length out) (ints_of (mem s')) = out" if "content s' = concat (map (to_bytes 4) out)"
      using ints_of_bytes [of out "drop (unat (dsize s')) (mem s')"] that
      by (metis append_eq_conv_conj append_take_drop_id content_def)
    then show ?case using 1 assms(2) length_content [of s'] by auto
  qed
qed

text \<open>The first two steps of \<open>unicode_normalize\<close>, for an input on which the shortcut does not apply.\<close>

definition normal_text :: "u32 list option \<Rightarrow> u32 list" where
  "normal_text dst = (case dst of None \<Rightarrow> [] | Some b \<Rightarrow> b)"

lemma reorder_length: "length (reorder xs) = length xs"
proof (induction xs rule: reorder.induct)
  case (2 x xs)
  then show ?case by simp (metis length_append takeWhile_dropWhile_id)
qed simp

lemma sort_cc_ok: "sort_cc xs (length xs) = Some (reorder xs)"
  using sort_cc_loop_ok [of "[]" xs "[]"] by (simp add: sort_cc_def)

lemma unicode_normalize_nfd:
  assumes alloc: "realloc_contract (case f of None \<Rightarrow> dflt | Some g \<Rightarrow> g)"
    and nfd: "nfd (compat_form n) src out" and room: "4 * length src < 2 ^ 32" "4 * length out < 2 ^ 32"
    and long: "\<not> (n = UNICODE_NFC \<and> (\<forall>c \<in> set src. c < 0x100))"
    and finish: "\<And>s. length out > 1 \<Longrightarrow> \<not> decomp_form n \<Longrightarrow> ok (compose_loop (reorder out) (length out) 1 1)
      (\<lambda>(bf, m). P (int m) (Some (take m bf)))"
    and short: "length out \<le> 1 \<or> decomp_form n \<Longrightarrow> P (int (length out)) (Some (reorder out))"
      "length out = 0 \<Longrightarrow> P 0 None"
  shows "ok (unicode_normalize src n dflt opq f) (\<lambda>(r, dst, s). r = -1 \<and> dst = None \<or> P r dst)"
proof -
  let ?s = "dbuf_init2 dflt opq f"
  have init: "dbuf_wf ?s" "content ?s = []" "\<not> derror ?s" using dbuf_init2_wf [OF alloc] by auto
  obtain r s1 where s1: "dbuf_realloc ?s (4 * word_of_nat (length src)) = Some (r, s1)" "dbuf_wf s1" "content s1 = []"
    using dbuf_realloc_ok [OF init(1), of "4 * word_of_nat (length src)"] init(2) by (auto simp: ok_conv)
  obtain s2 where s2: "put_all_u32 s1 out = Some s2" "dbuf_wf s2"
      "\<not> derror s2 \<Longrightarrow> unat (dsize s2) = 4 * length out \<and> take (length out) (ints_of (mem s2)) = out"
    using put_all_ok [OF s1(2,3) room(2)] by (auto simp: ok_conv)
  have none: "length out = 0" if "buf s2 = None" "\<not> derror s2"
    using s2 that by (auto simp: dbuf_wf_def mem_def word_le_nat_alt)
  show ?thesis
  proof (cases "r = 0 \<and> \<not> derror s2")
    case False
    then show ?thesis using s1(1) s2(1) long to_nfd_rec_put [OF nfd, of s1]
      by (auto simp: unicode_normalize_def dbuf_error_def Let_def)
  next
    case True
    have sorted: "sort_cc (take (unat (dsize s2) div 4) (ints_of (mem s2))) (unat (dsize s2) div 4) = Some (reorder out)"
      "unat (dsize s2) div 4 = length out"
      using s2(3) True sort_cc_ok [of out] by auto
    have run: "unicode_normalize src n dflt opq f =
      (if length out \<le> 1 \<or> decomp_form n then Some (int (length out), map_option (\<lambda>_. reorder out) (buf s2), s2)
       else do { (bf, m) \<leftarrow> compose_loop (reorder out) (length out) 1 1; Some (int m, Some (take m bf), s2) })"
      using True s1(1) s2(1) long to_nfd_rec_put [OF nfd, of s1] sorted
      by (auto simp: unicode_normalize_def dbuf_error_def Let_def)
    show ?thesis
    proof (cases "length out \<le> 1 \<or> decomp_form n")
      case True
      then show ?thesis using run short none \<open>r = 0 \<and> \<not> derror s2\<close> by (cases "buf s2") auto
    next
      case False
      then show ?thesis using run finish by (auto elim!: ok_mono)
    qed
  qed
qed

section \<open>Properties\<close>



end
