(* ===== verification/Hangul.thy ===== *)
theory Hangul
  imports Unicode_Normalize
begin

unbundle bit_operations_syntax

text \<open>
  Hangul through the whole of \<open>unicode_normalize\<close>: syllables decompose into their letters by arithmetic, the
  letters have no entry in the decomposition table, letters and syllables are starters, and the search of
  the composition table finds no pair that begins with a syllable, so that the loop of composition puts
  every syllable together again.
\<close>

section \<open>Reading the tables\<close>

lemma rd_append: "rd (xs @ ys) i = (if i < length xs then rd xs i else rd ys (i - length xs))"
  by (auto simp: rd_def nth_append)

lemma nth_pred_numeral: "(x # xs) ! (numeral k) = xs ! (pred_numeral k)"
  by (simp add: numeral_eq_Suc)

lemma piece_lengths:
  "length unicode_decomp_table1_0 = 96"
  "length unicode_decomp_table1_1 = 96"
  "length unicode_decomp_table1_2 = 96"
  "length unicode_decomp_table1_3 = 96"
  "length unicode_decomp_table1_4 = 96"
  "length unicode_decomp_table1_5 = 96"
  "length unicode_decomp_table1_6 = 96"
  "length unicode_decomp_table1_7 = 18"
  "length unicode_decomp_table2_0 = 384"
  "length unicode_decomp_table2_1 = 306"
  "length unicode_decomp_data_0 = 384"
  "length unicode_decomp_data_1 = 384"
  "length unicode_decomp_data_2 = 384"
  "length unicode_decomp_data_3 = 384"
  "length unicode_decomp_data_4 = 384"
  "length unicode_decomp_data_5 = 384"
  "length unicode_decomp_data_6 = 384"
  "length unicode_decomp_data_7 = 384"
  "length unicode_decomp_data_8 = 384"
  "length unicode_decomp_data_9 = 384"
  "length unicode_decomp_data_10 = 384"
  "length unicode_decomp_data_11 = 384"
  "length unicode_decomp_data_12 = 384"
  "length unicode_decomp_data_13 = 384"
  "length unicode_decomp_data_14 = 384"
  "length unicode_decomp_data_15 = 384"
  "length unicode_decomp_data_16 = 384"
  "length unicode_decomp_data_17 = 384"
  "length unicode_decomp_data_18 = 384"
  "length unicode_decomp_data_19 = 384"
  "length unicode_decomp_data_20 = 384"
  "length unicode_decomp_data_21 = 384"
  "length unicode_decomp_data_22 = 384"
  "length unicode_decomp_data_23 = 333"
  "length unicode_comp_table_0 = 384"
  "length unicode_comp_table_1 = 384"
  "length unicode_comp_table_2 = 177"
  by ((simp only: unicode_decomp_table1_0_def unicode_decomp_table1_1_def unicode_decomp_table1_2_def unicode_decomp_table1_3_def unicode_decomp_table1_4_def unicode_decomp_table1_5_def unicode_decomp_table1_6_def unicode_decomp_table1_7_def unicode_decomp_table2_0_def unicode_decomp_table2_1_def unicode_decomp_data_0_def unicode_decomp_data_1_def unicode_decomp_data_2_def unicode_decomp_data_3_def unicode_decomp_data_4_def unicode_decomp_data_5_def unicode_decomp_data_6_def unicode_decomp_data_7_def unicode_decomp_data_8_def unicode_decomp_data_9_def unicode_decomp_data_10_def unicode_decomp_data_11_def unicode_decomp_data_12_def unicode_decomp_data_13_def unicode_decomp_data_14_def unicode_decomp_data_15_def unicode_decomp_data_16_def unicode_decomp_data_17_def unicode_decomp_data_18_def unicode_decomp_data_19_def unicode_decomp_data_20_def unicode_decomp_data_21_def unicode_decomp_data_22_def unicode_decomp_data_23_def unicode_comp_table_0_def unicode_comp_table_1_def unicode_comp_table_2_def), simp)+

lemma read_table1:
  "rd unicode_decomp_table1 85 = Some 0x272c12e"
  "rd unicode_decomp_table1 106 = Some 0x3b7012f"
  "rd unicode_decomp_table1 117 = Some 0x3de0084"
  "rd unicode_decomp_table1 122 = Some 0x3e88084"
  "rd unicode_decomp_table1 125 = Some 0x3ee4084"
  "rd unicode_decomp_table1 126 = Some 0x4098084"
  "rd unicode_decomp_table1 127 = Some 0x43f0081"
  "rd unicode_decomp_table1 128 = Some 0x6c18484"
  "rd unicode_decomp_table1 146 = Some 0x7aea044"
  "rd unicode_decomp_table1 171 = Some 0x7de80be"
  "rd unicode_decomp_table1 175 = Some 0x7e00820"
  "rd unicode_decomp_table1 188 = Some 0x7f303be"
  "rd unicode_decomp_table1 337 = Some 0xc130b84"
  "rd unicode_decomp_table1 344 = Some 0xc250084"
  "rd unicode_decomp_table1 349 = Some 0xc314284"
  "rd unicode_decomp_table1 356 = Some 0xc3dc220"
  "rd unicode_decomp_table1 357 = Some 0xc3f8084"
  "rd unicode_decomp_table1 570 = Some 0x44268192"
  "rd unicode_decomp_table1 573 = Some 0x44d2c112"
  by (simp_all add: unicode_decomp_table1_def rd_append piece_lengths)
    (simp_all only: nth_pred_numeral nth_Cons_0 pred_numeral_simps BitM.simps unicode_decomp_table1_0_def unicode_decomp_table1_1_def unicode_decomp_table1_3_def unicode_decomp_table1_5_def)

lemma read_table2:
  "rd unicode_decomp_table2 146 = Some 0x59a"
  "rd unicode_decomp_table2 175 = Some 0x705"
  "rd unicode_decomp_table2 188 = Some 0x756"
  "rd unicode_decomp_table2 337 = Some 0xb31"
  "rd unicode_decomp_table2 349 = Some 0xc21"
  "rd unicode_decomp_table2 356 = Some 0xc4d"
  "rd unicode_decomp_table2 357 = Some 0xc51"
  "rd unicode_decomp_table2 570 = Some 0x1c45"
  "rd unicode_decomp_table2 573 = Some 0x1c61"
  by (simp_all add: unicode_decomp_table2_def rd_append piece_lengths)
    (simp_all only: nth_pred_numeral nth_Cons_0 pred_numeral_simps BitM.simps unicode_decomp_table2_0_def unicode_decomp_table2_1_def)

lemma read_data:
  "rd unicode_decomp_data 1509 = Some 0xaf"
  "rd unicode_decomp_data 1510 = Some 0x1"
  "rd unicode_decomp_data 1511 = Some 0x89"
  "rd unicode_decomp_data 1797 = Some 0x0"
  "rd unicode_decomp_data 1798 = Some 0x1f"
  "rd unicode_decomp_data 1799 = Some 0x45"
  "rd unicode_decomp_data 1800 = Some 0x3"
  "rd unicode_decomp_data 1884 = Some 0xbf"
  "rd unicode_decomp_data 1885 = Some 0x1f"
  "rd unicode_decomp_data 1886 = Some 0x81"
  "rd unicode_decomp_data 2945 = Some 0x5f"
  "rd unicode_decomp_data 2946 = Some 0x30"
  "rd unicode_decomp_data 2947 = Some 0x99"
  "rd unicode_decomp_data 2948 = Some 0x30"
  "rd unicode_decomp_data 3113 = Some 0xc6"
  "rd unicode_decomp_data 3114 = Some 0x30"
  "rd unicode_decomp_data 3115 = Some 0x99"
  "rd unicode_decomp_data 3116 = Some 0x30"
  "rd unicode_decomp_data 3149 = Some 0xef"
  "rd unicode_decomp_data 3150 = Some 0x30"
  "rd unicode_decomp_data 3151 = Some 0x99"
  "rd unicode_decomp_data 3152 = Some 0x30"
  "rd unicode_decomp_data 3153 = Some 0xfd"
  "rd unicode_decomp_data 3154 = Some 0x30"
  "rd unicode_decomp_data 3155 = Some 0x99"
  "rd unicode_decomp_data 3156 = Some 0x30"
  "rd unicode_decomp_data 7237 = Some 0x99"
  "rd unicode_decomp_data 7238 = Some 0x10"
  "rd unicode_decomp_data 7239 = Some 0xba"
  "rd unicode_decomp_data 7240 = Some 0x10"
  "rd unicode_decomp_data 7245 = Some 0x9b"
  "rd unicode_decomp_data 7246 = Some 0x10"
  "rd unicode_decomp_data 7247 = Some 0xba"
  "rd unicode_decomp_data 7248 = Some 0x10"
  "rd unicode_decomp_data 7249 = Some 0x5"
  "rd unicode_decomp_data 7250 = Some 0x5"
  "rd unicode_decomp_data 7265 = Some 0x47"
  "rd unicode_decomp_data 7266 = Some 0x13"
  "rd unicode_decomp_data 7267 = Some 0x3e"
  "rd unicode_decomp_data 7268 = Some 0x13"
  "rd unicode_decomp_data 7273 = Some 0x55"
  by (simp_all add: unicode_decomp_data_def rd_append piece_lengths)
    (simp_all only: nth_pred_numeral nth_Cons_0 pred_numeral_simps BitM.simps unicode_decomp_data_3_def unicode_decomp_data_4_def unicode_decomp_data_7_def unicode_decomp_data_8_def unicode_decomp_data_18_def)

lemma read_comp:
  "rd unicode_comp_table 472 = Some 0x24b2"
  "rd unicode_comp_table 708 = Some 0x2bc2"
  "rd unicode_comp_table 826 = Some 0x2f02"
  "rd unicode_comp_table 885 = Some 0x5454"
  "rd unicode_comp_table 915 = Some 0x5742"
  "rd unicode_comp_table 930 = Some 0x5903"
  "rd unicode_comp_table 931 = Some 0x5940"
  "rd unicode_comp_table 932 = Some 0x8e80"
  "rd unicode_comp_table 933 = Some 0x8e82"
  "rd unicode_comp_table 937 = Some 0x8f40"
  by (simp_all add: unicode_comp_table_def rd_append piece_lengths)
    (simp_all only: nth_pred_numeral nth_Cons_0 pred_numeral_simps BitM.simps unicode_comp_table_1_def unicode_comp_table_2_def)

lemmas read_tables = read_table1 read_table2 read_data read_comp

section \<open>Searches that Hangul letters and syllables follow\<close>

lemmas decomp_types = DECOMP_TYPE_C1_def DECOMP_TYPE_L1_def DECOMP_TYPE_L7_def DECOMP_TYPE_LL1_def DECOMP_TYPE_LL2_def
  DECOMP_TYPE_S1_def DECOMP_TYPE_S5_def DECOMP_TYPE_I1_def DECOMP_TYPE_I2_0_def DECOMP_TYPE_I4_2_def DECOMP_TYPE_B1_def
  DECOMP_TYPE_B8_def DECOMP_TYPE_B18_def DECOMP_TYPE_LS2_def DECOMP_TYPE_PAT3_def DECOMP_TYPE_S2_UL_def DECOMP_TYPE_LS2_UL_def

lemma norm_table_lengths: "length unicode_decomp_table1 = 690" "length unicode_comp_table = 945"
  by (simp_all add: unicode_decomp_table1_def unicode_comp_table_def piece_lengths)

text \<open>One step of the search for a decomposition, to the left or to the right.\<close>

lemma decomp_step:
  assumes "lo \<le> hi" "(hi + lo) div 2 = int i" "rd unicode_decomp_table1 i = Some v"
  shows "c < entry_code v \<Longrightarrow> decomp_search c kc lo hi = decomp_search c kc lo (int i - 1)"
    "\<not> c < entry_code v \<Longrightarrow> entry_code v + entry_len v \<le> c \<Longrightarrow> decomp_search c kc lo hi = decomp_search c kc (int i + 1) hi"
  using assms by (subst decomp_search.simps; simp add: Let_def)+

lemma jamo_plain:
  assumes c: "0x1100 \<le> c" "c < 0x1200"
  shows "unicode_decomp_char c kc = Some (0, [])"
proof -
  have less: "c < n" if "0x1200 \<le> n" for n using c(2) that by (rule less_le_trans)
  have le: "n \<le> c" "\<not> c < n" if "n \<le> 0x1100" for n using that c(1) by auto
  have "unicode_decomp_char c kc = decomp_search c kc 0 689" by (simp add: unicode_decomp_char_def norm_table_lengths)
  also have "\<dots> = decomp_search c kc 0 343" using decomp_step(1) [of 0 689 344] by (simp add: read_table1 entry_code_def less)
  also have "\<dots> = decomp_search c kc 0 170" using decomp_step(1) [of 0 343 171] by (simp add: read_table1 entry_code_def less)
  also have "\<dots> = decomp_search c kc 86 170" using decomp_step(2) [of 0 170 85] by (simp add: read_table1 entry_code_def entry_len_def le)
  also have "\<dots> = decomp_search c kc 86 127" using decomp_step(1) [of 86 170 128] by (simp add: read_table1 entry_code_def less)
  also have "\<dots> = decomp_search c kc 107 127" using decomp_step(2) [of 86 127 106] by (simp add: read_table1 entry_code_def entry_len_def le)
  also have "\<dots> = decomp_search c kc 118 127" using decomp_step(2) [of 107 127 117] by (simp add: read_table1 entry_code_def entry_len_def le)
  also have "\<dots> = decomp_search c kc 123 127" using decomp_step(2) [of 118 127 122] by (simp add: read_table1 entry_code_def entry_len_def le)
  also have "\<dots> = decomp_search c kc 126 127" using decomp_step(2) [of 123 127 125] by (simp add: read_table1 entry_code_def entry_len_def le)
  also have "\<dots> = decomp_search c kc 127 127" using decomp_step(2) [of 126 127 126] by (simp add: read_table1 entry_code_def entry_len_def le)
  also have "\<dots> = decomp_search c kc 128 127" using decomp_step(2) [of 127 127 127] by (simp add: read_table1 entry_code_def entry_len_def le)
  also have "\<dots> = Some (0, [])" by (simp add: decomp_search.simps)
  finally show ?thesis .
qed

text \<open>The pair of characters an element of the composition table stands for, with the character they compose to.\<close>

definition comp_at :: "nat \<Rightarrow> u32 \<Rightarrow> u32 \<Rightarrow> u32 \<Rightarrow> bool" where
  "comp_at i ch p0 p1 \<longleftrightarrow> (\<exists>idx1 v l. rd unicode_comp_table i = Some idx1 \<and>
     rd unicode_decomp_table1 (unat (drop_bit 6 idx1)) = Some v \<and> ch = entry_code v + ucast (idx1 AND 0x3f) \<and>
     unicode_decomp_entry ch (unat (drop_bit 6 idx1)) (entry_code v) (entry_len v) (entry_type v) = Some (l, [p0, p1]))"

lemma compose_step:
  assumes "lo \<le> hi" "(hi + lo) div 2 = int i" "comp_at i ch p0 p1" "length pair = 2"
    and small: "uint c0 < 2 ^ 31" "uint p0 < 2 ^ 31"
  shows "c0 < p0 \<Longrightarrow> compose_search c0 c1 pair lo hi = compose_search c0 c1 [Some p0, Some p1] lo (int i - 1)"
    "p0 < c0 \<Longrightarrow> compose_search c0 c1 pair lo hi = compose_search c0 c1 [Some p0, Some p1] (int i + 1) hi"
proof -
  have d: "sint (c0 - p0) = uint c0 - uint p0"
  proof -
    have s: "sint w = uint w" if "uint w < 2 ^ 31" for w :: u32 
      using that order_trans [OF _ uint_ge_0, of "- (2 ^ 31)" w] by (simp add: sint_uint signed_take_bit_int_eq_self_iff)
    have "- (2 ^ 31) \<le> uint c0 - uint p0" "uint c0 - uint p0 < 2 ^ 31"
      using small uint_ge_0 [of c0] uint_ge_0 [of p0] by linarith+
    then show ?thesis using small by (simp add: sint_word_ariths s signed_take_bit_int_eq_self)
  qed
  have "store_pair [p0, p1] pair = Some [Some p0, Some p1]" using assms(4) by (simp add: store_pair_def)
  then show "c0 < p0 \<Longrightarrow> compose_search c0 c1 pair lo hi = compose_search c0 c1 [Some p0, Some p1] lo (int i - 1)"
    "p0 < c0 \<Longrightarrow> compose_search c0 c1 pair lo hi = compose_search c0 c1 [Some p0, Some p1] (int i + 1) hi"
    using assms(1-3) d by (subst compose_search.simps; auto simp: comp_at_def Let_def word_less_def)+
qed

lemma comp_path:
  "comp_at 472 0x1eec 0x1af 0x309"
  "comp_at 708 0x1f82 0x1f02 0x345"
  "comp_at 826 0x1fce 0x1fbf 0x301"
  "comp_at 885 0x3060 0x305f 0x3099"
  "comp_at 915 0x30c7 0x30c6 0x3099"
  "comp_at 930 0x30fa 0x30f2 0x3099"
  "comp_at 937 0x1134b 0x11347 0x1133e"
  "comp_at 933 0x1109c 0x1109b 0x110ba"
  "comp_at 931 0x30fe 0x30fd 0x3099"
  "comp_at 932 0x1109a 0x11099 0x110ba"
  by (simp_all add: comp_at_def read_tables entry_code_def entry_len_def entry_type_def unicode_decomp_entry_def decomp_types
    unicode_get16_def decomp_byte_def unicode_get_short_code_def unicode_get_lower_simple_def upt_rec Let_def)

lemma syllable_alone:
  assumes "hangul c0"
  shows "unicode_compose_pair c0 c1 = Some 0"
proof -
  have c: "0xac00 \<le> c0" "c0 < 0xd7a4" using assms by (simp_all add: hangul_def)
  have less: "c0 < n" if "0xd7a4 \<le> n" for n using c(2) that by (rule less_le_trans)
  have gr: "n < c0" if "n < 0xac00" for n using that c(1) by (rule less_le_trans)
  have small: "uint c0 < 2147483648" using c(2) by (simp add: word_less_def)
  have "unicode_compose_pair c0 c1 = compose_search c0 c1 [None, None] 0 944"
    by (simp add: unicode_compose_pair_def norm_table_lengths)
  also have "\<dots> = compose_search c0 c1 [Some 0x1af, Some 0x309] 473 944"
    using compose_step(2) [OF _ _ comp_path(1), of 0 944 "[None, None]" c0] by (simp add: small gr)
  also have "\<dots> = compose_search c0 c1 [Some 0x1f02, Some 0x345] 709 944"
    using compose_step(2) [OF _ _ comp_path(2), of 473 944 "[Some 0x1af, Some 0x309]" c0] by (simp add: small gr)
  also have "\<dots> = compose_search c0 c1 [Some 0x1fbf, Some 0x301] 827 944"
    using compose_step(2) [OF _ _ comp_path(3), of 709 944 "[Some 0x1f02, Some 0x345]" c0] by (simp add: small gr)
  also have "\<dots> = compose_search c0 c1 [Some 0x305f, Some 0x3099] 886 944"
    using compose_step(2) [OF _ _ comp_path(4), of 827 944 "[Some 0x1fbf, Some 0x301]" c0] by (simp add: small gr)
  also have "\<dots> = compose_search c0 c1 [Some 0x30c6, Some 0x3099] 916 944"
    using compose_step(2) [OF _ _ comp_path(5), of 886 944 "[Some 0x305f, Some 0x3099]" c0] by (simp add: small gr)
  also have "\<dots> = compose_search c0 c1 [Some 0x30f2, Some 0x3099] 931 944"
    using compose_step(2) [OF _ _ comp_path(6), of 916 944 "[Some 0x30c6, Some 0x3099]" c0] by (simp add: small gr)
  also have "\<dots> = compose_search c0 c1 [Some 0x11347, Some 0x1133e] 931 936"
    using compose_step(1) [OF _ _ comp_path(7), of 931 944 "[Some 0x30f2, Some 0x3099]" c0] by (simp add: small less)
  also have "\<dots> = compose_search c0 c1 [Some 0x1109b, Some 0x110ba] 931 932"
    using compose_step(1) [OF _ _ comp_path(8), of 931 936 "[Some 0x11347, Some 0x1133e]" c0] by (simp add: small less)
  also have "\<dots> = compose_search c0 c1 [Some 0x30fd, Some 0x3099] 932 932"
    using compose_step(2) [OF _ _ comp_path(9), of 931 932 "[Some 0x1109b, Some 0x110ba]" c0] by (simp add: small gr)
  also have "\<dots> = compose_search c0 c1 [Some 0x11099, Some 0x110ba] 932 931"
    using compose_step(1) [OF _ _ comp_path(10), of 932 932 "[Some 0x30fd, Some 0x3099]" c0] by (simp add: small less)
  also have "\<dots> = Some 0" by (simp add: compose_search.simps)
  finally show ?thesis .
qed

section \<open>Starters\<close>

text \<open>The run that holds a code point, found by walking the table; every code point of the run has its label.\<close>

definition find_run :: "(int list \<Rightarrow> ('v \<times> int \<times> int list) option) \<Rightarrow> int \<Rightarrow> int list \<Rightarrow> int \<Rightarrow> (int \<times> int \<times> 'v) option" where
  "find_run op c t k = (case lruns op c t of None \<Rightarrow> None | Some rs \<Rightarrow> find (\<lambda>(a, b, v). k < b) rs)"

lemma find_run_skip:
  "op t = Some (v, n, rest) \<Longrightarrow> 1 \<le> n \<Longrightarrow> length rest < length t \<Longrightarrow> c + n \<le> k \<Longrightarrow> find_run op c t k = find_run op (c + n) rest k"
  unfolding find_run_def by (subst lruns.simps) (auto split: option.splits)

lemma find_run_cong: "c = c' \<Longrightarrow> find_run op c t k = find_run op c' t k" by simp

lemma find_run_at:
  "find_run op c t k = Some (a, b, v) \<Longrightarrow> lruns op c t = Some rs \<Longrightarrow> a \<le> x \<Longrightarrow> x < b \<Longrightarrow> at_run rs x = Some (a, v)"
proof (induction rs arbitrary: c t)
  case (Cons r rs)
  have ne: "t \<noteq> []" using Cons.prems(2) by (auto simp: lruns.simps)
  obtain u n rest where o: "1 \<le> n" "lruns op (c + n) rest = Some rs" "r = (c, c + n, u)"
    by (rule lruns_Cons [OF Cons.prems(2) ne]) auto
  have f: "find (\<lambda>(a, b, v). k < b) (r # rs) = Some (a, b, v)" using Cons.prems(1,2) by (simp add: find_run_def)
  show ?case
  proof (cases "k < c + n")
    case True
    then show ?thesis using f o(3) Cons.prems(4) by simp
  next
    case False
    then have g: "find_run op (c + n) rest k = Some (a, b, v)" using f o(2,3) by (simp add: find_run_def)
    have "(a, b, v) \<in> set rs" using f False o(3) by (auto simp: find_Some_iff in_set_conv_nth)
    then have "c + n \<le> a" using lruns_order [OF o(2)] by fastforce
    then show ?thesis using Cons.IH [OF g o(2) Cons.prems(3,4)] Cons.prems(3) o(3) by simp
  qed
qed (simp add: find_run_def)

lemma cl_find:
  "c + (uint b + 1) \<le> k \<Longrightarrow> uint b < 48 \<Longrightarrow> find_run cl_op c (map uint ((b # v # p) @ r :: u8 list)) k = find_run cl_op (c + (uint b + 1)) (map uint (p @ r)) k"
  "c + (uint b - 63) \<le> k \<Longrightarrow> 64 \<le> uint b \<Longrightarrow> uint b < 112 \<Longrightarrow> uint v + (uint b - 63) \<le> 256 \<Longrightarrow>
     find_run cl_op c (map uint ((b # v # p) @ r :: u8 list)) k = find_run cl_op (c + (uint b - 63)) (map uint (p @ r)) k"
  "c + (uint b - 127) \<le> k \<Longrightarrow> 128 \<le> uint b \<Longrightarrow> uint b < 176 \<Longrightarrow>
     find_run cl_op c (map uint ((b # p) @ r :: u8 list)) k = find_run cl_op (c + (uint b - 127)) (map uint (p @ r)) k"
  "c + ((uint b - 176) * 256 + uint x + 49) \<le> k \<Longrightarrow> 176 \<le> uint b \<Longrightarrow> uint b < 184 \<Longrightarrow>
     find_run cl_op c (map uint ((b # x # p) @ r :: u8 list)) k = find_run cl_op (c + ((uint b - 176) * 256 + uint x + 49)) (map uint (p @ r)) k"
  "c + (uint x * 256 + uint y + 2097) \<le> k \<Longrightarrow> uint b = 184 \<Longrightarrow>
     find_run cl_op c (map uint ((b # x # y # p) @ r :: u8 list)) k = find_run cl_op (c + (uint x * 256 + uint y + 2097)) (map uint (p @ r)) k"
  "c + (uint b - 191) \<le> k \<Longrightarrow> 192 \<le> uint b \<Longrightarrow> uint b < 240 \<Longrightarrow>
     find_run cl_op c (map uint ((b # p) @ r :: u8 list)) k = find_run cl_op (c + (uint b - 191)) (map uint (p @ r)) k"
  by (rule find_run_skip [where op = cl_op, OF cl_ops(1)] find_run_skip [where op = cl_op, OF cl_ops(2)] find_run_skip [where op = cl_op, OF cl_ops(3)]
        find_run_skip [where op = cl_op, OF cl_ops(4)] find_run_skip [where op = cl_op, OF cl_ops(5)] find_run_skip [where op = cl_op, OF cl_ops(6)];
      (assumption | rule cc_run_pos | simp add: uint_byte_less)+)+

lemmas cl_find_pieces =
  arg_cong [OF unicode_cc_table_0_def, of "\<lambda>t. find_run op c (map uint (t @ r)) k" for op c r k]
  arg_cong [OF unicode_cc_table_1_def, of "\<lambda>t. find_run op c (map uint (t @ r)) k" for op c r k]
  arg_cong [OF unicode_cc_table_2_def, of "\<lambda>t. find_run op c (map uint (t @ r)) k" for op c r k]
  arg_cong [OF unicode_cc_table_3_def, of "\<lambda>t. find_run op c (map uint (t @ r)) k" for op c r k]

definition run_is :: "(int \<times> int \<times> 'v) option \<Rightarrow> int \<times> int \<times> 'v \<Rightarrow> bool" where
  "run_is r x \<longleftrightarrow> r = None \<or> r = Some x"

lemma find_run_stop: "op t = Some (v, n, rest) \<Longrightarrow> k < c + n \<Longrightarrow> x = (c, c + n, v) \<Longrightarrow> run_is (find_run op c t k) x"
  unfolding find_run_def run_is_def by (auto simp: lruns.simps [of op c t] split: option.splits)

lemma at_run_find: "at_run rs k = map_option (\<lambda>(a, b, v). (a, v)) (find (\<lambda>(a, b, v). k < b) rs)"
  by (induction rs) auto

lemma find_run_cc:
  assumes "0 \<le> k" "k < 0x1e94b"
  shows "find_run cl_op 0 (map uint unicode_cc_table) k \<noteq> None"
proof -
  obtain a l where "at_run cc_runs k = Some (a, l)" using at_run_inside [of k 0 cc_runs] cc_table(2) cc_index(5) assms by auto
  then have "find (\<lambda>(a, b, v). k < b) cc_runs \<noteq> None" by (auto simp: at_run_find)
  then show ?thesis using cc_table(1) by (simp add: find_run_def)
qed

lemma starter_runs:
  "find_run cl_op 0 (map uint unicode_cc_table) 0x1100 = Some (0x108e, 0x135d, (2, 0))"
  "find_run cl_op 0 (map uint unicode_cc_table) 0xac00 = Some (0xabee, 0xfb1e, (2, 0))"
proof -
  have e: "unicode_cc_table = unicode_cc_table_0 @ unicode_cc_table_1 @ unicode_cc_table_2 @ unicode_cc_table_3 @ unicode_cc_table_4"
    by (simp add: unicode_cc_table_def)
  have nil: "find_run op c (map uint ([] @ r)) k = find_run op c (map uint r) k" for op :: "int list \<Rightarrow> ((int \<times> int) \<times> int \<times> int list) option" and c r k by simp
  note walk = cl_find cl_find_pieces nil
  have "run_is (find_run cl_op 0 (map uint unicode_cc_table) 0x1100) (0x108e, 0x135d, (2, 0))" unfolding e
    by (simp del: list.map append.simps append_Nil2 map_append add: walk cong: find_run_cong) (rule find_run_stop, rule cl_ops(4); simp)
  then show "find_run cl_op 0 (map uint unicode_cc_table) 0x1100 = Some (0x108e, 0x135d, (2, 0))"
    using find_run_cc [of "0x1100"] by (simp add: run_is_def)
  have "run_is (find_run cl_op 0 (map uint unicode_cc_table) 0xac00) (0xabee, 0xfb1e, (2, 0))" unfolding e
    by (simp del: list.map append.simps append_Nil2 map_append add: walk cong: find_run_cong) (rule find_run_stop, rule cl_ops(5); simp)
  then show "find_run cl_op 0 (map uint unicode_cc_table) 0xac00 = Some (0xabee, 0xfb1e, (2, 0))"
    using find_run_cc [of "0xac00"] by (simp add: run_is_def)
qed

lemma starters:
  "0x1100 \<le> c \<Longrightarrow> c < 0x1200 \<Longrightarrow> cc_of c = 0" "hangul c \<Longrightarrow> cc_of c = 0"
  using find_run_at [OF starter_runs(1) cc_table(1), of "uint c"] find_run_at [OF starter_runs(2) cc_table(1), of "uint c"]
  by (auto simp: cc_of_def cl_val_def hangul_def word_le_def word_less_def)

section \<open>Hangul syllables\<close>

lemma unat_add_small: "unat (a :: u32) + unat b < 2 ^ 32 \<Longrightarrow> unat (a + b) = unat a + unat b"
  by (rule unat_add_lem [THEN iffD1]) simp

text \<open>The letters of a syllable, as numbers.\<close>

lemma jamo_numbers:
  assumes "hangul c"
  obtains n where "unat c = 0xac00 + n" "n < 11172"
    "unat (0x1100 + (c - 0xac00) div 588) = 0x1100 + n div 588"
    "unat (0x1161 + ((c - 0xac00) mod 588) div 28) = 0x1161 + n mod 588 div 28"
    "unat ((c - 0xac00) mod 28) = n mod 28" "unat (0x11a7 + (c - 0xac00) mod 28) = 0x11a7 + n mod 28"
proof
  let ?n = "unat c - 0xac00"
  have c: "0xac00 \<le> unat c" "unat c < 0xd7a4" using assms by (simp_all add: hangul_def word_le_nat_alt word_less_nat_alt)
  have d: "unat (c - 0xac00) = ?n" using assms by (simp add: hangul_def unat_sub)
  show n: "unat c = 0xac00 + ?n" "?n < 11172" using c by auto
  have b: "?n div 588 < 19" "?n mod 588 div 28 < 21" "?n mod 28 < 28" using n(2) by auto
  show "unat ((c - 0xac00) mod 28) = ?n mod 28" by (simp add: unat_mod d)
  show "unat (0x1100 + (c - 0xac00) div 588) = 0x1100 + ?n div 588"
    using b by (subst unat_add_small) (simp_all add: unat_div d)
  show "unat (0x1161 + ((c - 0xac00) mod 588) div 28) = 0x1161 + ?n mod 588 div 28"
    using b by (subst unat_add_small) (simp_all add: unat_div unat_mod d)
  show "unat (0x11a7 + (c - 0xac00) mod 28) = 0x11a7 + ?n mod 28"
    using b by (subst unat_add_small) (simp_all add: unat_mod d)
qed

definition leading :: "u32 \<Rightarrow> u32" where "leading c = 0x1100 + (c - 0xac00) div 588"
definition vowel :: "u32 \<Rightarrow> u32" where "vowel c = 0x1161 + ((c - 0xac00) mod 588) div 28"
definition final :: "u32 \<Rightarrow> u32" where "final c = (c - 0xac00) mod 28"

lemma hangul_jamo_parts: "hangul_jamo c = [leading c, vowel c] @ (if final c \<noteq> 0 then [0x11a7 + final c] else [])"
  by (simp add: hangul_jamo_def leading_def vowel_def final_def Let_def)

lemma jamo_range:
  assumes "hangul c" and x: "x \<in> set (hangul_jamo c)"
  shows "0x1100 \<le> x \<and> x < 0x1200"
proof -
  obtain n where n: "n < 11172" "unat (leading c) = 0x1100 + n div 588" "unat (vowel c) = 0x1161 + n mod 588 div 28"
    "unat (0x11a7 + final c) = 0x11a7 + n mod 28"
    using jamo_numbers [OF assms(1)] unfolding leading_def vowel_def final_def by metis
  have "n div 588 < 19" "n mod 588 div 28 < 21" "n mod 28 < 28" using n(1) by auto
  then show ?thesis using x n(2-4) by (auto simp: hangul_jamo_parts word_le_nat_alt word_less_nat_alt split: if_splits)
qed

lemma jamo_compose:
  assumes "hangul c"
  shows "compose_pair (leading c) (vowel c) = Some (c - final c)" "hangul (c - final c)" "final c = 0 \<or>
    compose_pair (c - final c) (0x11a7 + final c) = Some c" "leading c < 0x1161"
proof -
  obtain n where n: "unat c = 0xac00 + n" "n < 11172" "unat (leading c) = 0x1100 + n div 588"
    "unat (vowel c) = 0x1161 + n mod 588 div 28" "unat (final c) = n mod 28" "unat (0x11a7 + final c) = 0x11a7 + n mod 28"
    using jamo_numbers [OF assms] unfolding leading_def vowel_def final_def by metis
  have b: "n div 588 < 19" "n mod 588 div 28 < 21" "n mod 28 < 28" "n mod 28 \<le> n" using n(2) by auto
  show "leading c < 0x1161" using n(3) b by (simp add: word_less_nat_alt)
  have s: "unat (c - final c) = 0xac00 + (n - n mod 28)" using n(1,5) b by (subst unat_sub) (simp_all add: word_le_nat_alt)
  show h: "hangul (c - final c)" 
  proof -
    have "0xac00 \<le> unat (c - final c)" "unat (c - final c) < 0xd7a4" using s n(2) by linarith+
    then show ?thesis by (simp add: hangul_def word_le_nat_alt word_less_nat_alt)
  qed
  have e: "n - n mod 28 = 588 * (n div 588) + 28 * (n mod 588 div 28)"
  proof -
    have "n mod 588 mod 28 = n mod 28" by (simp add: mod_mod_cancel)
    then show ?thesis using div_mult_mod_eq [of n 588] div_mult_mod_eq [of "n mod 588" 28] by linarith
  qed
  have sum: "unat (0xac00 + x * 588 + y * 28 :: u32) = 0xac00 + unat x * 588 + unat y * 28" if "unat x < 19" "unat y < 21" for x y
    using that by (simp add: unat_word_ariths)
  have "unat (leading c - 0x1100) = n div 588" "unat (vowel c - 0x1161) = n mod 588 div 28"
    using n(3,4) by (subst unat_sub; simp add: word_le_nat_alt)+
  then have "unat (0xac00 + (leading c - 0x1100) * 588 + (vowel c - 0x1161) * 28) = unat (c - final c)"
    using b n(2) s e by (subst sum) simp_all
  then show "compose_pair (leading c) (vowel c) = Some (c - final c)"
    using n(3,4) b by (simp add: compose_pair_def word_le_nat_alt word_less_nat_alt word_unat_eq_iff)
  have "unat ((c - final c - 0xac00) mod 28) = 0"
    using s h by (simp add: unat_mod unat_sub hangul_def)
  then have m: "(c - final c - 0xac00) mod 28 = 0" by (simp add: unat_eq_0)
  show "final c = 0 \<or> compose_pair (c - final c) (0x11a7 + final c) = Some c"
    using h m n(6) b s n(2) by (auto simp: compose_pair_def hangul_def word_le_nat_alt word_less_nat_alt)
qed

lemma syllable_then_leading: "hangul s \<Longrightarrow> hangul c \<Longrightarrow> compose_pair s (leading c) = Some 0"
proof -
  assume "hangul s" "hangul c"
  moreover have "\<not> 0x11a7 \<le> leading c" using jamo_compose(4) [OF \<open>hangul c\<close>] by (auto simp: not_le elim: less_trans)
  moreover have "\<not> s < 0x1113" using \<open>hangul s\<close> by (auto simp: hangul_def not_less elim: order_trans [rotated])
  ultimately show ?thesis using syllable_alone [of s "leading c"] by (auto simp: compose_pair_def)
qed

text \<open>The loop of composition on starters: the character at \<open>i\<close> meets the last character of the output.\<close>

lemma compose_one:
  assumes "cc_of cur = 0" "cc_of x = 0" and p: "compose_pair cur x = Some p"
    and n: "n = length d + length j + length rest + 2" and i: "i = length d + 1 + length j"
  shows "compose_loop (d @ cur # j @ x # rest) n i (length d + 1) =
    (if p \<noteq> 0 then compose_loop (d @ p # (j @ [x]) @ rest) n (i + 1) (length d + 1)
     else compose_loop ((d @ [cur]) @ x # tl (j @ [x]) @ rest) n (i + 1) (length (d @ [cur]) + 1))"
proof -
  let ?b = "d @ cur # j @ x # rest"
  have rd: "rd ?b i = Some x" "rd ?b (length d) = Some cur" by (simp_all add: i nth_append)
  have w: "wr ?b (length d) p = Some (d @ p # (j @ [x]) @ rest)" "wr ?b (length d + 1) x = Some ((d @ [cur]) @ x # tl (j @ [x]) @ rest)"
    by (cases j; simp add: wr_def list_update_append)+
  have sc: "starter_scan ?b (length d + 1) 0 = Some (Starter (length d))"
    using rd(2) unicode_get_cc_ok [of cur] assms(1) by simp
  have lt: "i < n" using n i by simp
  show ?thesis using lt rd sc w p unicode_get_cc_ok [of x] assms(2)
    by (subst compose_loop.simps) (simp del: starter_scan.simps)
qed

text \<open>After the leading consonant, the loop puts the syllable together.\<close>

lemma compose_syllable:
  assumes c: "hangul c" and i: "i = length d + 1 + length j"
  shows "\<exists>j'. compose_loop (d @ leading c # j @ tl (hangul_jamo c) @ rest) (i + length (tl (hangul_jamo c)) + length rest) i (length d + 1) =
    compose_loop (d @ c # j' @ rest) (length d + 1 + length j' + length rest) (length d + 1 + length j') (length d + 1)"
proof -
  have cc: "cc_of (leading c) = 0" "cc_of (vowel c) = 0" "final c \<noteq> 0 \<Longrightarrow> cc_of (0x11a7 + final c) = 0" "cc_of (c - final c) = 0"
    using jamo_range [OF c] starters jamo_compose(2) [OF c] by (auto simp: hangul_jamo_parts)
  have ne: "c - final c \<noteq> 0" "c \<noteq> 0" using jamo_compose(2) [OF c] c by (auto simp: hangul_def)
  show ?thesis
  proof (cases "final c = 0")
    case True
    then show ?thesis
      using compose_one [OF cc(1,2) jamo_compose(1) [OF c] _ i, of _ rest] ne i
      by (intro exI [of _ "j @ [vowel c]"]) (simp add: hangul_jamo_parts add.assoc)
  next
    case False
    then have f: "compose_pair (c - final c) (0x11a7 + final c) = Some c" using jamo_compose(3) [OF c] by blast
    show ?thesis
      using compose_one [OF cc(1,2) jamo_compose(1) [OF c] _ i, of _ "(0x11a7 + final c) # rest"]
        compose_one [OF cc(4) cc(3) [OF False] f, of _ d "j @ [vowel c]" rest "i + 1"] ne i False
      by (intro exI [of _ "j @ [vowel c, 0x11a7 + final c]"]) (simp add: hangul_jamo_parts add.assoc)
  qed
qed

lemma compose_syllables:
  "hangul cur \<Longrightarrow> \<forall>c \<in> set src. hangul c \<Longrightarrow>
   \<exists>j'. compose_loop (d @ cur # j @ concat (map hangul_jamo src)) (length d + 1 + length j + length (concat (map hangul_jamo src)))
     (length d + 1 + length j) (length d + 1) = Some (d @ cur # src @ j', length d + 1 + length src)"
proof (induction src arbitrary: d cur j)
  case Nil
  then show ?case by (simp add: compose_loop.simps)
next
  case (Cons c src)
  define r where "r = concat (map hangul_jamo src)"
  define t where "t = tl (hangul_jamo c)"
  have c: "hangul c" using Cons.prems by simp
  have jm: "hangul_jamo c = leading c # t" by (simp add: hangul_jamo_parts t_def)
  have cc: "cc_of cur = 0" "cc_of (leading c) = 0" using Cons.prems(1) starters jamo_range [OF c, of "leading c"] by (auto simp: hangul_jamo_parts)
  define j1 where "j1 = tl (j @ [leading c])"
  have "compose_loop (d @ cur # j @ leading c # t @ r) (length d + 1 + length j + 1 + length t + length r) (length d + 1 + length j) (length d + 1) =
      compose_loop ((d @ [cur]) @ leading c # j1 @ t @ r) (length d + 1 + length j + 1 + length t + length r) (length d + 1 + length j + 1) (length (d @ [cur]) + 1)"
    using compose_one [OF cc syllable_then_leading [OF Cons.prems(1) c], of _ d j "t @ r"] by (simp add: j1_def add.assoc)
  moreover obtain j2 where "compose_loop ((d @ [cur]) @ leading c # j1 @ t @ r) (length d + 1 + length j + 1 + length t + length r) (length d + 1 + length j + 1) (length (d @ [cur]) + 1) =
      compose_loop ((d @ [cur]) @ c # j2 @ r) (length (d @ [cur]) + 1 + length j2 + length r) (length (d @ [cur]) + 1 + length j2) (length (d @ [cur]) + 1)"
    using compose_syllable [OF c, of "length d + 1 + length j + 1" "d @ [cur]" j1 r] unfolding t_def [symmetric] by (auto simp: j1_def)
  moreover obtain j3 where "compose_loop ((d @ [cur]) @ c # j2 @ r) (length (d @ [cur]) + 1 + length j2 + length r) (length (d @ [cur]) + 1 + length j2) (length (d @ [cur]) + 1) =
      Some ((d @ [cur]) @ c # src @ j3, length (d @ [cur]) + 1 + length src)"
    using Cons.IH [OF c, of "d @ [cur]" j2] Cons.prems(2) by (auto simp: r_def)
  moreover have "concat (map hangul_jamo (c # src)) = leading c # t @ r" using jm by (simp add: r_def)
  ultimately show ?case by (intro exI [of _ j3]) (simp only:, simp add: add.assoc)
qed

section \<open>Properties\<close>

lemma jamo_nfd: "\<forall>x \<in> set js. 0x1100 \<le> x \<and> x < 0x1200 \<Longrightarrow> nfd kc js js"
proof (induction js)
  case (Cons x js)
  then have x: "0x1100 \<le> x" "x < 0x1200" by auto
  then have "\<not> hangul x" using order.strict_trans1 [of "0xac00" x "0x1200"] by (auto simp: hangul_def)
  then show ?case using nfd.Plain [OF _ jamo_plain [OF x], of kc js js] Cons by simp
qed (rule nfd.Nil)

lemma syllables_nfd: "\<forall>c \<in> set src. hangul c \<Longrightarrow> nfd kc src (concat (map hangul_jamo src))"
  by (induction src) (auto intro: nfd.Nil nfd.Syllable)

lemma reorder_starters: "\<forall>x \<in> set xs. cc_of x = 0 \<Longrightarrow> reorder xs = xs"
  by (induction xs) auto

lemma jamo_length: "length (concat (map hangul_jamo src)) \<le> 3 * length src"
  by (induction src) (auto simp: hangul_jamo_parts)

text \<open>
  C21. The round trip of Hangul: a text of syllables decomposes (NFD) into the letters of its syllables, and
  composition (NFC) of these letters gives the syllables back; both calls end without leaving a buffer or a
  table, or return -1 when an allocation is refused.
\<close>

theorem hangul_round_trip:
  assumes "realloc_contract (case f of None \<Rightarrow> dflt | Some g \<Rightarrow> g)" and "\<forall>c \<in> set src. hangul c"
    and "12 * length src < 2 ^ 32"
  shows "ok (unicode_normalize src UNICODE_NFD dflt opq f) (\<lambda>(r, dst, s). r = -1 \<and> dst = None \<or>
      normal_text dst = concat (map hangul_jamo src)) \<and>
    ok (unicode_normalize (concat (map hangul_jamo src)) UNICODE_NFC dflt opq f) (\<lambda>(r, dst, s). r = -1 \<and> dst = None \<or>
      r = int (length src) \<and> normal_text dst = src)"
proof (cases src)
  case Nil
  then show ?thesis
    by (simp add: unicode_normalize_def dbuf_init2_def dbuf_realloc_def buf_store_def to_nfd_rec.simps normal_text_def
        dbuf_error_def mem_def sort_cc_def sort_cc_loop.simps)
next
  case (Cons c cs)
  let ?j = "concat (map hangul_jamo src)"
  have rng: "\<forall>x \<in> set ?j. 0x1100 \<le> x \<and> x < 0x1200" using assms(2) jamo_range by auto
  then have st: "reorder ?j = ?j" by (intro reorder_starters) (auto intro: starters)
  have len: "4 * length ?j < 2 ^ 32" "4 * length src < 2 ^ 32" using jamo_length [of src] assms(3) by linarith+
  obtain t where j: "?j = leading c # t" and t: "t = tl (hangul_jamo c) @ concat (map hangul_jamo cs)" by (simp add: Cons hangul_jamo_parts)
  have big: "\<not> (\<forall>x \<in> set ?j. x < 0x100)" using rng j order.strict_trans1 [of "0x1100" "leading c" "0x100"] by auto
  obtain j1 where "compose_loop ?j (length ?j) 1 1 = compose_loop (c # j1 @ concat (map hangul_jamo cs)) (1 + length j1 + length (concat (map hangul_jamo cs))) (1 + length j1) 1"
    using compose_syllable [of c 1 "[]" "[]" "concat (map hangul_jamo cs)"] assms(2) by (auto simp: Cons j t hangul_jamo_parts)
  moreover obtain j2 where "compose_loop (c # j1 @ concat (map hangul_jamo cs)) (1 + length j1 + length (concat (map hangul_jamo cs))) (1 + length j1) 1 =
      Some (c # cs @ j2, 1 + length cs)"
    using compose_syllables [of c cs "[]" j1] assms(2) by (auto simp: Cons)
  ultimately have loop: "compose_loop ?j (length ?j) 1 1 = Some (src @ j2, length src)" by (simp add: Cons)
  show ?thesis
  proof
    show "ok (unicode_normalize src UNICODE_NFD dflt opq f) (\<lambda>(r, dst, s). r = -1 \<and> dst = None \<or> normal_text dst = ?j)"
      using unicode_normalize_nfd [OF assms(1), of UNICODE_NFD src ?j "\<lambda>r dst. normal_text dst = ?j"] syllables_nfd [OF assms(2)] len st
      by (auto simp: normal_text_def)
    show "ok (unicode_normalize ?j UNICODE_NFC dflt opq f) (\<lambda>(r, dst, s). r = -1 \<and> dst = None \<or> r = int (length src) \<and> normal_text dst = src)"
      using jamo_nfd [OF rng] len(1) big st loop
      by (intro unicode_normalize_nfd [OF assms(1), of _ _ ?j]) (auto simp: normal_text_def Cons hangul_jamo_parts)
  qed
qed

theorem hangul_round_trip_witness:
  "ok (unicode_normalize [0xac00, 0xac01] UNICODE_NFD sample_realloc 64 None) (\<lambda>(r, dst, s). r = -1 \<and> dst = None \<or>
      normal_text dst = [0x1100, 0x1161, 0x1100, 0x1161, 0x11a8])"
proof -
  have "concat (map hangul_jamo [0xac00, 0xac01]) = [0x1100, 0x1161, 0x1100, 0x1161, 0x11a8]" by (simp add: hangul_jamo_def)
  then show ?thesis
    using hangul_round_trip [of sample_realloc None "[0xac00, 0xac01]" 64] sample_realloc_contract by (simp add: hangul_def)
qed

end
