(* ===== verification/Regexp_Code.thy ===== *)
theory Regexp_Code
  imports Cutils
begin

unbundle bit_operations_syntax

text \<open>
  The bytecode of regular expressions, from src/quickjs/libregexp.c and src/quickjs/libregexp-opcode.h: the
  opcodes with the sizes of their instructions, the header, and the three linear analyses of code:
  \<open>re_compute_stack_size\<close>, \<open>re_check_advance\<close> and \<open>re_is_simple_quantifier\<close>. Positions are indices of the byte
  array; a read outside of it is \<^term>\<open>None\<close>, as are a failed assertion and an opcode beyond the last one.
\<close>

section \<open>Opcodes\<close>

datatype REOPCodeEnum =
    REOP_invalid | REOP_char | REOP_char32 | REOP_dot | REOP_any | REOP_line_start | REOP_line_end | REOP_goto
  | REOP_split_goto_first | REOP_split_next_first | REOP_match | REOP_save_start | REOP_save_end | REOP_save_reset
  | REOP_loop | REOP_push_i32 | REOP_drop | REOP_word_boundary | REOP_not_word_boundary | REOP_back_reference
  | REOP_backward_back_reference | REOP_range | REOP_range32 | REOP_lookahead | REOP_negative_lookahead
  | REOP_push_char_pos | REOP_bne_char_pos | REOP_prev | REOP_simple_greedy_quant

definition reop_list :: "REOPCodeEnum list" where
  "reop_list =
   [REOP_invalid, REOP_char, REOP_char32, REOP_dot, REOP_any, REOP_line_start, REOP_line_end, REOP_goto,
    REOP_split_goto_first, REOP_split_next_first, REOP_match, REOP_save_start, REOP_save_end, REOP_save_reset,
    REOP_loop, REOP_push_i32, REOP_drop, REOP_word_boundary, REOP_not_word_boundary, REOP_back_reference,
    REOP_backward_back_reference, REOP_range, REOP_range32, REOP_lookahead, REOP_negative_lookahead,
    REOP_push_char_pos, REOP_bne_char_pos, REOP_prev, REOP_simple_greedy_quant]"

primrec reopcode_info :: "REOPCodeEnum \<Rightarrow> nat" where
  "reopcode_info REOP_invalid = 1"
| "reopcode_info REOP_char = 3"
| "reopcode_info REOP_char32 = 5"
| "reopcode_info REOP_dot = 1"
| "reopcode_info REOP_any = 1"
| "reopcode_info REOP_line_start = 1"
| "reopcode_info REOP_line_end = 1"
| "reopcode_info REOP_goto = 5"
| "reopcode_info REOP_split_goto_first = 5"
| "reopcode_info REOP_split_next_first = 5"
| "reopcode_info REOP_match = 1"
| "reopcode_info REOP_save_start = 2"
| "reopcode_info REOP_save_end = 2"
| "reopcode_info REOP_save_reset = 3"
| "reopcode_info REOP_loop = 5"
| "reopcode_info REOP_push_i32 = 5"
| "reopcode_info REOP_drop = 1"
| "reopcode_info REOP_word_boundary = 1"
| "reopcode_info REOP_not_word_boundary = 1"
| "reopcode_info REOP_back_reference = 2"
| "reopcode_info REOP_backward_back_reference = 2"
| "reopcode_info REOP_range = 3"
| "reopcode_info REOP_range32 = 3"
| "reopcode_info REOP_lookahead = 5"
| "reopcode_info REOP_negative_lookahead = 5"
| "reopcode_info REOP_push_char_pos = 1"
| "reopcode_info REOP_bne_char_pos = 5"
| "reopcode_info REOP_prev = 1"
| "reopcode_info REOP_simple_greedy_quant = 17"

lemma reopcode_info_pos [simp]: "0 < reopcode_info oc"
  by (cases oc) simp_all

definition CAPTURE_COUNT_MAX :: nat where "CAPTURE_COUNT_MAX = 255"
definition STACK_SIZE_MAX :: nat where "STACK_SIZE_MAX = 255"

definition RE_HEADER_FLAGS :: nat where "RE_HEADER_FLAGS = 0"
definition RE_HEADER_CAPTURE_COUNT :: nat where "RE_HEADER_CAPTURE_COUNT = 1"
definition RE_HEADER_STACK_SIZE :: nat where "RE_HEADER_STACK_SIZE = 2"
definition RE_HEADER_LEN :: nat where "RE_HEADER_LEN = 7"

definition LRE_FLAG_IGNORECASE :: u8 where "LRE_FLAG_IGNORECASE = push_bit 1 1"
definition LRE_FLAG_MULTILINE :: u8 where "LRE_FLAG_MULTILINE = push_bit 2 1"
definition LRE_FLAG_UTF16 :: u8 where "LRE_FLAG_UTF16 = push_bit 4 1"

definition lre_get_capture_count :: "u8 list \<Rightarrow> nat option" where
  "lre_get_capture_count bc_buf = map_option unat (rd bc_buf RE_HEADER_CAPTURE_COUNT)"

definition lre_get_flags :: "u8 list \<Rightarrow> u8 option" where
  "lre_get_flags bc_buf = rd bc_buf RE_HEADER_FLAGS"

definition opcode_at :: "u8 list \<Rightarrow> nat \<Rightarrow> REOPCodeEnum option" where
  "opcode_at bc_buf pos = do { b \<leftarrow> rd bc_buf pos; rd reop_list (unat b) }"

definition u16_at :: "u8 list \<Rightarrow> nat \<Rightarrow> u32 option" where "u16_at bc_buf pos = get_u16 (drop pos bc_buf)"
definition u32_at :: "u8 list \<Rightarrow> nat \<Rightarrow> u32 option" where "u32_at bc_buf pos = get_u32 (drop pos bc_buf)"

text \<open>The length of an instruction: the ranges of a character class follow their instruction.\<close>

definition instr_len :: "u8 list \<Rightarrow> nat \<Rightarrow> REOPCodeEnum \<Rightarrow> nat option" where
  "instr_len bc_buf pos oc =
     (if oc = REOP_range then do { val \<leftarrow> u16_at bc_buf (pos + 1); Some (reopcode_info oc + unat val * 4) }
      else if oc = REOP_range32 then do { val \<leftarrow> u16_at bc_buf (pos + 1); Some (reopcode_info oc + unat val * 8) }
      else Some (reopcode_info oc))"

lemma instr_len_ge: "instr_len bc_buf pos oc = Some n \<Longrightarrow> reopcode_info oc \<le> n"
  by (auto simp: instr_len_def bind_eq_Some_conv split: if_splits)

lemma instr_len_pos: "instr_len bc_buf pos oc = Some n \<Longrightarrow> 0 < n"
  using instr_len_ge [of bc_buf pos oc n] reopcode_info_pos [of oc] by linarith

section \<open>Analyses\<close>

text \<open>
  The stack size: \<open>code\<close> is the code after the header. The result is the greatest depth, or -1 when it would
  exceed \<open>STACK_SIZE_MAX\<close>.
\<close>

function stack_size_loop :: "u8 list \<Rightarrow> nat \<Rightarrow> nat \<Rightarrow> nat \<Rightarrow> int option" where
  "stack_size_loop code pos stack_size stack_size_max =
     (if pos < length code then do {
        oc \<leftarrow> opcode_at code pos;
        if pos + reopcode_info oc \<le> length code then do {
          len \<leftarrow> instr_len code pos oc;
          if oc = REOP_push_i32 \<or> oc = REOP_push_char_pos then
            (if stack_size + 1 > stack_size_max then
               (if stack_size + 1 > STACK_SIZE_MAX then Some (-1)
                else stack_size_loop code (pos + len) (stack_size + 1) (stack_size + 1))
             else stack_size_loop code (pos + len) (stack_size + 1) stack_size_max)
          else if oc = REOP_drop \<or> oc = REOP_bne_char_pos then
            (if stack_size > 0 then stack_size_loop code (pos + len) (stack_size - 1) stack_size_max else None)
          else stack_size_loop code (pos + len) stack_size stack_size_max }
        else None }
      else Some (int stack_size_max))"
  by pat_completeness auto
termination by (relation "measure (\<lambda>(code, pos, _). length code - pos)") (auto dest: instr_len_pos)

declare stack_size_loop.simps [simp del]

definition re_compute_stack_size :: "u8 list \<Rightarrow> int option" where
  "re_compute_stack_size bc_buf = stack_size_loop (drop RE_HEADER_LEN bc_buf) 0 0 0"

text \<open>
  Whether code advances the character pointer; \<open>ret\<close> is -2 while nothing is known. The bitmap notes per
  capture whether it is set (1) and whether it is referenced (2).
\<close>

fun mark_captures :: "u8 list \<Rightarrow> nat \<Rightarrow> nat \<Rightarrow> u8 list option" where
  "mark_captures bitmap val 0 = Some bitmap"
| "mark_captures bitmap val (Suc n) = do {
     b \<leftarrow> rd bitmap val; bitmap \<leftarrow> wr bitmap val (b OR 1); mark_captures bitmap (val + 1) n }"

definition is_simple_char :: "REOPCodeEnum \<Rightarrow> bool" where
  "is_simple_char oc \<longleftrightarrow> oc \<in> {REOP_range, REOP_range32, REOP_char, REOP_char32, REOP_dot, REOP_any}"

definition advance_bitmap :: "u8 list \<Rightarrow> nat \<Rightarrow> REOPCodeEnum \<Rightarrow> u8 list \<Rightarrow> u8 list option" where
  "advance_bitmap bc_buf pos oc bitmap =
     (if oc = REOP_save_start \<or> oc = REOP_save_end then do {
        val \<leftarrow> rd bc_buf (pos + 1); mark_captures bitmap (unat val) 1 }
      else if oc = REOP_save_reset then do {
        val \<leftarrow> rd bc_buf (pos + 1); last \<leftarrow> rd bc_buf (pos + 2);
        mark_captures bitmap (unat val) (unat last - unat val) }
      else if oc = REOP_back_reference \<or> oc = REOP_backward_back_reference then do {
        val \<leftarrow> rd bc_buf (pos + 1); b \<leftarrow> rd bitmap (unat val); wr bitmap (unat val) (b OR 2) }
      else Some bitmap)"

definition advance_ret :: "REOPCodeEnum \<Rightarrow> int \<Rightarrow> int" where
  "advance_ret oc ret =
     (if ret \<noteq> -2 then ret
      else if is_simple_char oc then 1
      else if oc \<in> {REOP_line_start, REOP_line_end, REOP_push_i32, REOP_push_char_pos, REOP_drop, REOP_word_boundary,
          REOP_not_word_boundary, REOP_prev, REOP_save_start, REOP_save_end, REOP_save_reset, REOP_back_reference,
          REOP_backward_back_reference} then ret
      else 0)"

function check_advance_loop :: "u8 list \<Rightarrow> nat \<Rightarrow> int \<Rightarrow> bool \<Rightarrow> u8 list \<Rightarrow> (int \<times> bool \<times> u8 list) option" where
  "check_advance_loop bc_buf pos ret has_back_reference bitmap =
     (if pos < length bc_buf then do {
        oc \<leftarrow> opcode_at bc_buf pos;
        len \<leftarrow> instr_len bc_buf pos oc;
        bitmap \<leftarrow> advance_bitmap bc_buf pos oc bitmap;
        check_advance_loop bc_buf (pos + len) (advance_ret oc ret)
          (has_back_reference \<or> oc = REOP_back_reference \<or> oc = REOP_backward_back_reference) bitmap }
      else Some (ret, has_back_reference, bitmap))"
  by pat_completeness auto
termination by (relation "measure (\<lambda>(bc_buf, pos, _). length bc_buf - pos)") (auto dest: instr_len_pos)

declare check_advance_loop.simps [simp del]

definition re_check_advance :: "u8 list \<Rightarrow> int option" where
  "re_check_advance bc_buf = do {
     (ret, has_back_reference, bitmap) \<leftarrow> check_advance_loop bc_buf 0 (-2) False (replicate CAPTURE_COUNT_MAX 0);
     if has_back_reference \<and> (\<exists>b \<in> set bitmap. b = 3) then Some (-1)
     else Some (if ret = -2 then 0 else ret) }"

definition is_simple_test :: "REOPCodeEnum \<Rightarrow> bool" where
  "is_simple_test oc \<longleftrightarrow> oc \<in> {REOP_line_start, REOP_line_end, REOP_word_boundary, REOP_not_word_boundary}"

function simple_quantifier_loop :: "u8 list \<Rightarrow> nat \<Rightarrow> nat \<Rightarrow> int option" where
  "simple_quantifier_loop bc_buf pos n =
     (if pos < length bc_buf then do {
        oc \<leftarrow> opcode_at bc_buf pos;
        len \<leftarrow> instr_len bc_buf pos oc;
        if is_simple_char oc then simple_quantifier_loop bc_buf (pos + len) (n + 1)
        else if is_simple_test oc then simple_quantifier_loop bc_buf (pos + len) n
        else Some (-1) }
      else Some (int n))"
  by pat_completeness auto
termination by (relation "measure (\<lambda>(bc_buf, pos, _). length bc_buf - pos)") (auto dest: instr_len_pos)

declare simple_quantifier_loop.simps [simp del]

definition re_is_simple_quantifier :: "u8 list \<Rightarrow> int option" where
  "re_is_simple_quantifier bc_buf = simple_quantifier_loop bc_buf 0 0"

end
