(* ===== verification/Regexp_Exec.thy ===== *)
theory Regexp_Exec
  imports Regexp_Code Case_Conv
begin

unbundle bit_operations_syntax

text \<open>
  The backtracking interpreter of regular expressions, \<open>lre_exec\<close> and \<open>lre_exec_backtrack\<close> of
  src/quickjs/libregexp.c, as a machine: one step executes one instruction. The text is the list of its code
  units (8 or 16 bits), character pointers are positions in it; captures are positions or NULL
  (\<^term>\<open>None\<close>). The machine keeps the stack of saved states and the allocator behind it, and, because
  \<open>REOP_simple_greedy_quant\<close> calls the interpreter for its atom, the locals of the calls that are active. A
  step is \<^term>\<open>None\<close> where the code would read or write outside an array, violate an assertion or reach an
  opcode that does not exist.
\<close>

section \<open>Characters\<close>

definition is_line_terminator :: "u32 \<Rightarrow> bool" where
  "is_line_terminator c \<longleftrightarrow> c = 0x0a \<or> c = 0x0d \<or> c = 0x2028 \<or> c = 0x2029"

definition is_word_char :: "u32 \<Rightarrow> bool" where
  "is_word_char c \<longleftrightarrow> (c \<ge> 0x30 \<and> c \<le> 0x39) \<or> (c \<ge> 0x61 \<and> c \<le> 0x7a) \<or> (c \<ge> 0x41 \<and> c \<le> 0x5a) \<or> c = 0x5f"

definition lre_canonicalize :: "u32 \<Rightarrow> bool \<Rightarrow> u32 option" where
  "lre_canonicalize c is_utf16 =
     (if is_utf16 then
        if c < 128 then Some (if c \<ge> 0x41 \<and> c \<le> 0x5a then c - 0x41 + 0x61 else c)
        else do { res \<leftarrow> lre_case_conv c 2; rd res 0 }
      else
        if c < 128 then Some (if c \<ge> 0x61 \<and> c \<le> 0x7a then c - 0x61 + 0x41 else c)
        else do {
          res \<leftarrow> lre_case_conv c 0;
          r \<leftarrow> rd res 0;
          Some (if length res = 1 \<and> r \<ge> 128 then r else c) })"

record REExecContext =
  rx_bc :: "u8 list"
  rx_addr :: size_t
  rx_cbuf :: "u32 list"
  rx_type :: nat
  rx_captures :: nat
  rx_stack_max :: nat
  rx_multi_line :: bool
  rx_ignore_case :: bool
  rx_utf16 :: bool

definition hi_surrogate :: "u32 \<Rightarrow> bool" where "hi_surrogate c \<longleftrightarrow> c \<ge> 0xd800 \<and> c < 0xdc00"
definition lo_surrogate :: "u32 \<Rightarrow> bool" where "lo_surrogate c \<longleftrightarrow> c \<ge> 0xdc00 \<and> c < 0xe000"

definition from_surrogates :: "u32 \<Rightarrow> u32 \<Rightarrow> u32" where
  "from_surrogates c c1 = (push_bit 10 (c AND 0x3ff) OR (c1 AND 0x3ff)) + 0x10000"

text \<open>
  \<open>GET_CHAR\<close> and the other macros. In a text of 8-bit units (type 0) and of 16-bit units (type 1) every unit
  is a character; in a UTF-16 text (type 2) a surrogate pair is one.
\<close>

definition GET_CHAR :: "REExecContext \<Rightarrow> nat \<Rightarrow> nat \<Rightarrow> (u32 \<times> nat) option" where
  "GET_CHAR s cptr cbuf_end = do {
     c \<leftarrow> rd (rx_cbuf s) cptr;
     if hi_surrogate c \<and> rx_type s = 2 \<and> cptr + 1 < cbuf_end then do {
       c1 \<leftarrow> rd (rx_cbuf s) (cptr + 1);
       Some (if lo_surrogate c1 then (from_surrogates c c1, cptr + 2) else (c, cptr + 1)) }
     else Some (c, cptr + 1) }"

definition PEEK_CHAR :: "REExecContext \<Rightarrow> nat \<Rightarrow> nat \<Rightarrow> u32 option" where
  "PEEK_CHAR s cptr cbuf_end = do {
     c \<leftarrow> rd (rx_cbuf s) cptr;
     if hi_surrogate c \<and> rx_type s = 2 \<and> cptr + 1 < cbuf_end then do {
       c1 \<leftarrow> rd (rx_cbuf s) (cptr + 1);
       Some (if lo_surrogate c1 then from_surrogates c c1 else c) }
     else Some c }"

definition unit_before :: "REExecContext \<Rightarrow> nat \<Rightarrow> u32 option" where
  "unit_before s cptr = (if cptr = 0 then None else rd (rx_cbuf s) (cptr - 1))"

definition PEEK_PREV_CHAR :: "REExecContext \<Rightarrow> nat \<Rightarrow> nat \<Rightarrow> u32 option" where
  "PEEK_PREV_CHAR s cptr cbuf_start = do {
     c \<leftarrow> unit_before s cptr;
     if lo_surrogate c \<and> rx_type s = 2 \<and> cptr \<ge> cbuf_start + 2 then do {
       c1 \<leftarrow> unit_before s (cptr - 1);
       Some (if hi_surrogate c1 then from_surrogates c1 c else c) }
     else Some c }"

definition GET_PREV_CHAR :: "REExecContext \<Rightarrow> nat \<Rightarrow> nat \<Rightarrow> (u32 \<times> nat) option" where
  "GET_PREV_CHAR s cptr cbuf_start = do {
     c \<leftarrow> unit_before s cptr;
     if lo_surrogate c \<and> rx_type s = 2 \<and> cptr - 1 > cbuf_start then do {
       c1 \<leftarrow> unit_before s (cptr - 1);
       Some (if hi_surrogate c1 then (from_surrogates c1 c, cptr - 2) else (c, cptr - 1)) }
     else Some (c, cptr - 1) }"

definition PREV_CHAR :: "REExecContext \<Rightarrow> nat \<Rightarrow> nat \<Rightarrow> nat option" where
  "PREV_CHAR s cptr cbuf_start =
     (if cptr = 0 then None
      else if rx_type s = 2 then do {
        c \<leftarrow> unit_before s cptr;
        if lo_surrogate c \<and> cptr - 1 > cbuf_start then do {
          c \<leftarrow> unit_before s (cptr - 1);
          Some (if hi_surrogate c then cptr - 2 else cptr - 1) }
        else Some (cptr - 1) }
      else Some (cptr - 1))"

fun prev_chars :: "REExecContext \<Rightarrow> nat \<Rightarrow> nat \<Rightarrow> nat option" where
  "prev_chars s 0 cptr = Some cptr"
| "prev_chars s (Suc n) cptr = do { cptr \<leftarrow> PREV_CHAR s cptr 0; prev_chars s n cptr }"

definition canonical :: "REExecContext \<Rightarrow> u32 \<Rightarrow> u32 option" where
  "canonical s c = (if rx_ignore_case s then lre_canonicalize c (rx_utf16 s) else Some c)"

text \<open>The number of a character pointer, as \<open>REOP_push_char_pos\<close> stores it.\<close>

definition pointer :: "REExecContext \<Rightarrow> nat \<Rightarrow> size_t" where
  "pointer s cptr = rx_addr s + word_of_nat (if rx_type s = 0 then cptr else 2 * cptr)"


section \<open>States\<close>

datatype REExecStateEnum = RE_EXEC_STATE_SPLIT | RE_EXEC_STATE_LOOKAHEAD | RE_EXEC_STATE_NEGATIVE_LOOKAHEAD | RE_EXEC_STATE_GREEDY_QUANT

record REExecState =
  rs_type :: REExecStateEnum
  rs_count :: size_t
  rs_cptr :: nat
  rs_pc :: nat
  rs_capture :: "nat option list"
  rs_stack :: "size_t option list"

text \<open>The locals of a call of the interpreter that waits for the atom of a quantifier.\<close>

record quant_call =
  qc_q :: size_t
  qc_min :: u32
  qc_max :: u32
  qc_pc1 :: nat
  qc_pc :: nat
  qc_cptr :: nat
  qc_stack_len :: nat

record 'm exec_state =
  x_capture :: "nat option list"
  x_stack :: "size_t option list"
  x_stack_len :: nat
  x_pc :: nat
  x_cptr :: nat
  x_states :: "REExecState list"
  x_state_stack_size :: nat
  x_mem :: 'm
  x_calls :: "quant_call list"

datatype 'm step_result = Next "'m exec_state" | Return int "'m exec_state"

text \<open>The allocator behind \<open>lre_realloc\<close>: its new state and whether room for the states was granted.\<close>

type_synonym 'm state_alloc = "'m \<Rightarrow> nat \<Rightarrow> 'm \<times> bool"

definition grow_states :: "'m state_alloc \<Rightarrow> 'm exec_state \<Rightarrow> bool \<times> 'm exec_state" where
  "grow_states alloc x =
     (if length (x_states x) + 1 > x_state_stack_size x then
        let new_size = (if x_state_stack_size x * 3 div 2 < 8 then 8 else x_state_stack_size x * 3 div 2) in
        case alloc (x_mem x) new_size of
          (m, True) \<Rightarrow> (True, x\<lparr>x_mem := m, x_state_stack_size := new_size\<rparr>)
        | (m, False) \<Rightarrow> (False, x\<lparr>x_mem := m\<rparr>)
      else (True, x))"

text \<open>A saved state has room for the captures and for \<open>stack_size_max\<close> stack elements; its length is one byte.\<close>

definition push_state :: "REExecContext \<Rightarrow> 'm state_alloc \<Rightarrow> 'm exec_state \<Rightarrow> nat \<Rightarrow> nat \<Rightarrow> REExecStateEnum \<Rightarrow> size_t \<Rightarrow>
    (int \<times> 'm exec_state) option" where
  "push_state s alloc x pc cptr ty n =
     (case grow_states alloc x of
        (False, x) \<Rightarrow> Some (-1, x)
      | (True, x) \<Rightarrow> do {
          captures \<leftarrow> slice (x_capture x) 0 (2 * rx_captures s);
          elems \<leftarrow> slice (x_stack x) 0 (x_stack_len x);
          if x_stack_len x \<le> rx_stack_max s then
            Some (0, x\<lparr>x_states := \<lparr>rs_type = ty, rs_count = n, rs_cptr = cptr, rs_pc = pc, rs_capture = captures,
                         rs_stack = take (x_stack_len x mod 256) elems\<rparr> # x_states x\<rparr>)
          else None })"

text \<open>Jumps: the displacement is signed.\<close>

definition jump :: "nat \<Rightarrow> u32 \<Rightarrow> nat option" where
  "jump pc val = (let t = int pc + sint val in if t \<ge> 0 then Some (nat t) else None)"


section \<open>Backtracking\<close>

definition restore_stack :: "REExecState \<Rightarrow> 'm exec_state \<Rightarrow> 'm exec_state option" where
  "restore_stack rs x = do {
     stack \<leftarrow> blit (x_stack x) 0 (rs_stack rs);
     Some (x\<lparr>x_stack := stack, x_stack_len := length (rs_stack rs)\<rparr>) }"

definition pop_state1 :: "REExecState \<Rightarrow> REExecState list \<Rightarrow> 'm exec_state \<Rightarrow> 'm step_result option" where
  "pop_state1 rs rest x = do {
     x \<leftarrow> restore_stack rs (x\<lparr>x_pc := rs_pc rs, x_cptr := rs_cptr rs\<rparr>);
     Some (Next (x\<lparr>x_states := rest\<rparr>)) }"

definition pop_state :: "REExecState \<Rightarrow> REExecState list \<Rightarrow> 'm exec_state \<Rightarrow> 'm step_result option" where
  "pop_state rs rest x = do {
     capture \<leftarrow> blit (x_capture x) 0 (rs_capture rs);
     pop_state1 rs rest (x\<lparr>x_capture := capture\<rparr>) }"

text \<open>The quantifier gives back one repetition of its atom.\<close>

definition pop_greedy :: "REExecContext \<Rightarrow> REExecState \<Rightarrow> REExecState list \<Rightarrow> 'm exec_state \<Rightarrow> 'm step_result option" where
  "pop_greedy s rs rest x = do {
     capture \<leftarrow> blit (x_capture x) 0 (rs_capture rs);
     x \<leftarrow> restore_stack rs (x\<lparr>x_capture := capture\<rparr>);
     char_count \<leftarrow> u32_at (rx_bc s) (rs_pc rs + 12);
     cptr \<leftarrow> prev_chars s (unat char_count) (rs_cptr rs);
     val \<leftarrow> u32_at (rx_bc s) (rs_pc rs);
     pc \<leftarrow> jump (rs_pc rs + 16) val;
     let rest = (if rs_count rs - 1 = 0 then rest else rs\<lparr>rs_cptr := cptr, rs_count := rs_count rs - 1\<rparr> # rest);
     Some (Next (x\<lparr>x_pc := pc, x_cptr := cptr, x_states := rest\<rparr>)) }"

fun recurse :: "REExecContext \<Rightarrow> bool \<Rightarrow> REExecState list \<Rightarrow> 'm exec_state \<Rightarrow> 'm step_result option" where
  "recurse s ret [] x = Some (Return (if ret then 1 else 0) (x\<lparr>x_states := []\<rparr>))"
| "recurse s ret (rs # rest) x =
     (case rs_type rs of
        RE_EXEC_STATE_SPLIT \<Rightarrow> if ret then recurse s ret rest x else pop_state rs rest x
      | RE_EXEC_STATE_GREEDY_QUANT \<Rightarrow> if ret then recurse s ret rest x else pop_greedy s rs rest x
      | RE_EXEC_STATE_LOOKAHEAD \<Rightarrow> if ret then pop_state1 rs rest x else recurse s False rest x
      | RE_EXEC_STATE_NEGATIVE_LOOKAHEAD \<Rightarrow> if ret then recurse s False rest x else pop_state rs rest x)"

definition INT32_MAX :: u32 where "INT32_MAX = 0x7fffffff"

text \<open>
  The loop of \<open>REOP_simple_greedy_quant\<close>: \<open>atom_call\<close> calls the interpreter for the atom at \<open>pc1\<close>;
  \<open>quant_done\<close> is the code after the loop; \<open>no_match\<close> is the label of that name, which in a nested call
  returns to the loop of its caller, and \<open>re_match\<close> is \<open>REOP_match\<close>.
\<close>

definition atom_call :: "quant_call \<Rightarrow> quant_call list \<Rightarrow> 'm exec_state \<Rightarrow> 'm exec_state" where
  "atom_call qc calls x = x\<lparr>x_pc := qc_pc1 qc, x_cptr := qc_cptr qc, x_stack_len := qc_stack_len qc, x_calls := qc # calls\<rparr>"

definition quant_locals :: "quant_call \<Rightarrow> quant_call list \<Rightarrow> 'm exec_state \<Rightarrow> 'm exec_state" where
  "quant_locals qc calls x = x\<lparr>x_pc := qc_pc qc, x_cptr := qc_cptr qc, x_stack_len := qc_stack_len qc, x_calls := calls\<rparr>"

definition quant_push :: "REExecContext \<Rightarrow> 'm state_alloc \<Rightarrow> quant_call \<Rightarrow> 'm exec_state \<Rightarrow> 'm step_result option" where
  "quant_push s alloc qc x =
     (if qc_q qc > qc_min qc then do {
        (r, x) \<leftarrow> push_state s alloc x (qc_pc1 qc - 16) (x_cptr x) RE_EXEC_STATE_GREEDY_QUANT (qc_q qc - qc_min qc);
        Some (if r < 0 then Return (-1) x else Next x) }
      else Some (Next x))"

fun no_match :: "REExecContext \<Rightarrow> 'm state_alloc \<Rightarrow> quant_call list \<Rightarrow> 'm exec_state \<Rightarrow> 'm step_result option" where
  "no_match s alloc [] x = recurse s False (x_states x) x"
| "no_match s alloc (qc # calls) x =
     (let x = quant_locals qc calls x in
      if qc_q qc < qc_min qc then no_match s alloc calls x else quant_push s alloc qc x)"

definition re_match :: "REExecContext \<Rightarrow> 'm state_alloc \<Rightarrow> 'm exec_state \<Rightarrow> 'm step_result option" where
  "re_match s alloc x =
     (case x_calls x of
        [] \<Rightarrow> recurse s True (x_states x) x
      | qc # calls \<Rightarrow>
          let qc = qc\<lparr>qc_cptr := x_cptr x, qc_q := qc_q qc + 1\<rparr> in
          if qc_q qc \<ge> qc_max qc \<and> qc_max qc \<noteq> INT32_MAX then
            let x = quant_locals qc calls x in
            if qc_q qc < qc_min qc then no_match s alloc calls x else quant_push s alloc qc x
          else Some (Next (atom_call qc calls x)))"


section \<open>Instructions\<close>

definition fail :: "REExecContext \<Rightarrow> 'm state_alloc \<Rightarrow> 'm exec_state \<Rightarrow> 'm step_result option" where
  "fail s alloc x = no_match s alloc (x_calls x) x"

definition cont :: "REExecContext \<Rightarrow> 'm state_alloc \<Rightarrow> bool \<Rightarrow> 'm exec_state \<Rightarrow> 'm step_result option" where
  "cont s alloc matched x = (if matched then Some (Next x) else fail s alloc x)"

definition test_char :: "REExecContext \<Rightarrow> 'm state_alloc \<Rightarrow> 'm exec_state \<Rightarrow> u32 \<Rightarrow> nat \<Rightarrow> 'm step_result option" where
  "test_char s alloc x val pc =
     (if x_cptr x \<ge> length (rx_cbuf s) then fail s alloc x
      else do {
        (c, cptr) \<leftarrow> GET_CHAR s (x_cptr x) (length (rx_cbuf s));
        c \<leftarrow> canonical s c;
        cont s alloc (val = c) (x\<lparr>x_pc := pc, x_cptr := cptr\<rparr>) })"

definition re_push :: "REExecContext \<Rightarrow> 'm state_alloc \<Rightarrow> 'm exec_state \<Rightarrow> nat \<Rightarrow> REExecStateEnum \<Rightarrow> nat \<Rightarrow> 'm step_result option" where
  "re_push s alloc x pc1 ty pc = do {
     (r, x) \<leftarrow> push_state s alloc x pc1 (x_cptr x) ty 0;
     Some (if r < 0 then Return (-1) x else Next (x\<lparr>x_pc := pc\<rparr>)) }"

text \<open>The binary search in the ranges of a character class; the indices are unsigned.\<close>

partial_function (option) range_search :: "(nat \<Rightarrow> u32 option) \<Rightarrow> (nat \<Rightarrow> u32 option) \<Rightarrow> u32 \<Rightarrow> u32 \<Rightarrow> u32 \<Rightarrow> bool option" where
  "range_search low_at high_at c idx_min idx_max =
     (if idx_min \<le> idx_max then do {
        let idx = (idx_min + idx_max) div 2;
        low \<leftarrow> low_at (unat idx);
        high \<leftarrow> high_at (unat idx);
        if c < low then range_search low_at high_at c idx_min (idx - 1)
        else if c > high then range_search low_at high_at c (idx + 1) idx_max
        else Some True }
      else Some False)"

definition range_match :: "u8 list \<Rightarrow> nat \<Rightarrow> u32 \<Rightarrow> u32 \<Rightarrow> bool option" where
  "range_match bc pc n c = do {
     low \<leftarrow> u16_at bc pc;
     if c < low then Some False
     else do {
       high \<leftarrow> u16_at bc (pc + unat (n - 1) * 4 + 2);
       if c \<ge> 0xffff \<and> high = 0xffff then Some True
       else if c > high then Some False
       else range_search (\<lambda>i. u16_at bc (pc + i * 4)) (\<lambda>i. u16_at bc (pc + i * 4 + 2)) c 0 (n - 1) } }"

definition range32_match :: "u8 list \<Rightarrow> nat \<Rightarrow> u32 \<Rightarrow> u32 \<Rightarrow> bool option" where
  "range32_match bc pc n c = do {
     low \<leftarrow> u32_at bc pc;
     if c < low then Some False
     else do {
       high \<leftarrow> u32_at bc (pc + unat (n - 1) * 8 + 4);
       if c > high then Some False
       else range_search (\<lambda>i. u32_at bc (pc + i * 8)) (\<lambda>i. u32_at bc (pc + i * 8 + 4)) c 0 (n - 1) } }"

definition re_range :: "REExecContext \<Rightarrow> 'm state_alloc \<Rightarrow> 'm exec_state \<Rightarrow> nat \<Rightarrow> nat \<Rightarrow>
    (u8 list \<Rightarrow> nat \<Rightarrow> u32 \<Rightarrow> u32 \<Rightarrow> bool option) \<Rightarrow> 'm step_result option" where
  "re_range s alloc x pc elem matcher = do {
     n \<leftarrow> u16_at (rx_bc s) pc;
     if x_cptr x \<ge> length (rx_cbuf s) then fail s alloc x
     else do {
       (c, cptr) \<leftarrow> GET_CHAR s (x_cptr x) (length (rx_cbuf s));
       c \<leftarrow> canonical s c;
       b \<leftarrow> matcher (rx_bc s) (pc + 2) n c;
       cont s alloc b (x\<lparr>x_pc := pc + 2 + elem * unat n, x_cptr := cptr\<rparr>) } }"

text \<open>The loops of the back references: \<^term>\<open>Some None\<close> is no match.\<close>

partial_function (option) backref_loop :: "REExecContext \<Rightarrow> nat \<Rightarrow> nat \<Rightarrow> nat \<Rightarrow> nat option option" where
  "backref_loop s cptr1 cptr1_end cptr =
     (if cptr1 < cptr1_end then
        if cptr \<ge> length (rx_cbuf s) then Some None
        else do {
          (c1, cptr1) \<leftarrow> GET_CHAR s cptr1 cptr1_end;
          (c2, cptr) \<leftarrow> GET_CHAR s cptr (length (rx_cbuf s));
          c1 \<leftarrow> canonical s c1; c2 \<leftarrow> canonical s c2;
          if c1 \<noteq> c2 then Some None else backref_loop s cptr1 cptr1_end cptr }
      else Some (Some cptr))"

partial_function (option) backward_backref_loop :: "REExecContext \<Rightarrow> nat \<Rightarrow> nat \<Rightarrow> nat \<Rightarrow> nat option option" where
  "backward_backref_loop s cptr1 cptr1_start cptr =
     (if cptr1 > cptr1_start then
        if cptr = 0 then Some None
        else do {
          (c1, cptr1) \<leftarrow> GET_PREV_CHAR s cptr1 cptr1_start;
          (c2, cptr) \<leftarrow> GET_PREV_CHAR s cptr 0;
          c1 \<leftarrow> canonical s c1; c2 \<leftarrow> canonical s c2;
          if c1 \<noteq> c2 then Some None else backward_backref_loop s cptr1 cptr1_start cptr }
      else Some (Some cptr))"

definition re_backref :: "REExecContext \<Rightarrow> 'm state_alloc \<Rightarrow> 'm exec_state \<Rightarrow> nat \<Rightarrow> bool \<Rightarrow> 'm step_result option" where
  "re_backref s alloc x pc backward = do {
     val \<leftarrow> rd (rx_bc s) pc;
     let x' = x\<lparr>x_pc := pc + 1\<rparr>;
     if unat val \<ge> rx_captures s then fail s alloc x'
     else do {
       cptr1_start \<leftarrow> rd (x_capture x) (2 * unat val);
       cptr1_end \<leftarrow> rd (x_capture x) (2 * unat val + 1);
       case (cptr1_start, cptr1_end) of
         (Some a, Some b) \<Rightarrow> do {
           r \<leftarrow> (if backward then backward_backref_loop s b a (x_cptr x) else backref_loop s a b (x_cptr x));
           case r of None \<Rightarrow> fail s alloc x' | Some cptr \<Rightarrow> Some (Next (x'\<lparr>x_cptr := cptr\<rparr>)) }
       | _ \<Rightarrow> Some (Next x') } }"

definition word_before :: "REExecContext \<Rightarrow> nat \<Rightarrow> bool option" where
  "word_before s cptr = (if cptr = 0 then Some False else map_option is_word_char (PEEK_PREV_CHAR s cptr 0))"

definition word_after :: "REExecContext \<Rightarrow> nat \<Rightarrow> bool option" where
  "word_after s cptr = (if cptr \<ge> length (rx_cbuf s) then Some False
     else map_option is_word_char (PEEK_CHAR s cptr (length (rx_cbuf s))))"

fun reset_captures :: "nat option list \<Rightarrow> nat \<Rightarrow> nat \<Rightarrow> nat option list option" where
  "reset_captures capture val 0 = Some capture"
| "reset_captures capture val (Suc n) = do {
     capture \<leftarrow> wr capture (2 * val) None; capture \<leftarrow> wr capture (2 * val + 1) None;
     reset_captures capture (val + 1) n }"

definition stack_push :: "'m exec_state \<Rightarrow> size_t \<Rightarrow> 'm exec_state option" where
  "stack_push x v = do {
     stack \<leftarrow> wr (x_stack x) (x_stack_len x) (Some v);
     Some (x\<lparr>x_stack := stack, x_stack_len := x_stack_len x + 1\<rparr>) }"

definition stack_top :: "'m exec_state \<Rightarrow> size_t option" where
  "stack_top x = (if x_stack_len x = 0 then None else Option.bind (rd (x_stack x) (x_stack_len x - 1)) id)"

definition re_step :: "REExecContext \<Rightarrow> 'm state_alloc \<Rightarrow> 'm exec_state \<Rightarrow> 'm step_result option" where
  "re_step s alloc x = do {
     oc \<leftarrow> opcode_at (rx_bc s) (x_pc x);
     let pc = x_pc x + 1;
     let len = length (rx_cbuf s);
     case oc of
       REOP_match \<Rightarrow> re_match s alloc x
     | REOP_char32 \<Rightarrow> do { val \<leftarrow> u32_at (rx_bc s) pc; test_char s alloc x val (pc + 4) }
     | REOP_char \<Rightarrow> do { val \<leftarrow> u16_at (rx_bc s) pc; test_char s alloc x val (pc + 2) }
     | REOP_split_goto_first \<Rightarrow> do {
         val \<leftarrow> u32_at (rx_bc s) pc; t \<leftarrow> jump (pc + 4) val;
         re_push s alloc x (pc + 4) RE_EXEC_STATE_SPLIT t }
     | REOP_split_next_first \<Rightarrow> do {
         val \<leftarrow> u32_at (rx_bc s) pc; t \<leftarrow> jump (pc + 4) val;
         re_push s alloc x t RE_EXEC_STATE_SPLIT (pc + 4) }
     | REOP_lookahead \<Rightarrow> do {
         val \<leftarrow> u32_at (rx_bc s) pc; t \<leftarrow> jump (pc + 4) val;
         re_push s alloc x t RE_EXEC_STATE_LOOKAHEAD (pc + 4) }
     | REOP_negative_lookahead \<Rightarrow> do {
         val \<leftarrow> u32_at (rx_bc s) pc; t \<leftarrow> jump (pc + 4) val;
         re_push s alloc x t RE_EXEC_STATE_NEGATIVE_LOOKAHEAD (pc + 4) }
     | REOP_goto \<Rightarrow> do {
         val \<leftarrow> u32_at (rx_bc s) pc; t \<leftarrow> jump (pc + 4) val; Some (Next (x\<lparr>x_pc := t\<rparr>)) }
     | REOP_line_start \<Rightarrow>
         if x_cptr x = 0 then Some (Next (x\<lparr>x_pc := pc\<rparr>))
         else if \<not> rx_multi_line s then fail s alloc x
         else do { c \<leftarrow> PEEK_PREV_CHAR s (x_cptr x) 0; cont s alloc (is_line_terminator c) (x\<lparr>x_pc := pc\<rparr>) }
     | REOP_line_end \<Rightarrow>
         if x_cptr x = len then Some (Next (x\<lparr>x_pc := pc\<rparr>))
         else if \<not> rx_multi_line s then fail s alloc x
         else do { c \<leftarrow> PEEK_CHAR s (x_cptr x) len; cont s alloc (is_line_terminator c) (x\<lparr>x_pc := pc\<rparr>) }
     | REOP_dot \<Rightarrow>
         if x_cptr x = len then fail s alloc x
         else do { (c, cptr) \<leftarrow> GET_CHAR s (x_cptr x) len;
                   cont s alloc (\<not> is_line_terminator c) (x\<lparr>x_pc := pc, x_cptr := cptr\<rparr>) }
     | REOP_any \<Rightarrow>
         if x_cptr x = len then fail s alloc x
         else do { (c, cptr) \<leftarrow> GET_CHAR s (x_cptr x) len; Some (Next (x\<lparr>x_pc := pc, x_cptr := cptr\<rparr>)) }
     | REOP_save_start \<Rightarrow> do {
         val \<leftarrow> rd (rx_bc s) pc;
         if unat val < rx_captures s then do {
           capture \<leftarrow> wr (x_capture x) (2 * unat val) (Some (x_cptr x));
           Some (Next (x\<lparr>x_pc := pc + 1, x_capture := capture\<rparr>)) }
         else None }
     | REOP_save_end \<Rightarrow> do {
         val \<leftarrow> rd (rx_bc s) pc;
         if unat val < rx_captures s then do {
           capture \<leftarrow> wr (x_capture x) (2 * unat val + 1) (Some (x_cptr x));
           Some (Next (x\<lparr>x_pc := pc + 1, x_capture := capture\<rparr>)) }
         else None }
     | REOP_save_reset \<Rightarrow> do {
         val \<leftarrow> rd (rx_bc s) pc; val2 \<leftarrow> rd (rx_bc s) (pc + 1);
         if unat val2 < rx_captures s then do {
           capture \<leftarrow> reset_captures (x_capture x) (unat val) (unat val2 + 1 - unat val);
           Some (Next (x\<lparr>x_pc := pc + 2, x_capture := capture\<rparr>)) }
         else None }
     | REOP_push_i32 \<Rightarrow> do {
         val \<leftarrow> u32_at (rx_bc s) pc; x \<leftarrow> stack_push x val; Some (Next (x\<lparr>x_pc := pc + 4\<rparr>)) }
     | REOP_drop \<Rightarrow>
         if x_stack_len x = 0 then None else Some (Next (x\<lparr>x_pc := pc, x_stack_len := x_stack_len x - 1\<rparr>))
     | REOP_loop \<Rightarrow> do {
         val \<leftarrow> u32_at (rx_bc s) pc;
         v \<leftarrow> stack_top x;
         stack \<leftarrow> wr (x_stack x) (x_stack_len x - 1) (Some (v - 1));
         t \<leftarrow> (if v - 1 \<noteq> 0 then jump (pc + 4) val else Some (pc + 4));
         Some (Next (x\<lparr>x_pc := t, x_stack := stack\<rparr>)) }
     | REOP_push_char_pos \<Rightarrow> do { x \<leftarrow> stack_push x (pointer s (x_cptr x)); Some (Next (x\<lparr>x_pc := pc\<rparr>)) }
     | REOP_bne_char_pos \<Rightarrow> do {
         val \<leftarrow> u32_at (rx_bc s) pc;
         v \<leftarrow> stack_top x;
         t \<leftarrow> (if v \<noteq> pointer s (x_cptr x) then jump (pc + 4) val else Some (pc + 4));
         Some (Next (x\<lparr>x_pc := t, x_stack_len := x_stack_len x - 1\<rparr>)) }
     | REOP_word_boundary \<Rightarrow> do {
         v1 \<leftarrow> word_before s (x_cptr x); v2 \<leftarrow> word_after s (x_cptr x);
         cont s alloc (v1 \<noteq> v2) (x\<lparr>x_pc := pc\<rparr>) }
     | REOP_not_word_boundary \<Rightarrow> do {
         v1 \<leftarrow> word_before s (x_cptr x); v2 \<leftarrow> word_after s (x_cptr x);
         cont s alloc (v1 = v2) (x\<lparr>x_pc := pc\<rparr>) }
     | REOP_back_reference \<Rightarrow> re_backref s alloc x pc False
     | REOP_backward_back_reference \<Rightarrow> re_backref s alloc x pc True
     | REOP_range \<Rightarrow> re_range s alloc x pc 4 range_match
     | REOP_range32 \<Rightarrow> re_range s alloc x pc 8 range32_match
     | REOP_prev \<Rightarrow>
         if x_cptr x = 0 then fail s alloc x
         else do { cptr \<leftarrow> PREV_CHAR s (x_cptr x) 0; Some (Next (x\<lparr>x_pc := pc, x_cptr := cptr\<rparr>)) }
     | REOP_simple_greedy_quant \<Rightarrow> do {
         next_pos \<leftarrow> u32_at (rx_bc s) pc;
         quant_min \<leftarrow> u32_at (rx_bc s) (pc + 4);
         quant_max \<leftarrow> u32_at (rx_bc s) (pc + 8);
         t \<leftarrow> jump (pc + 16) next_pos;
         Some (Next (atom_call \<lparr>qc_q = 0, qc_min = quant_min, qc_max = quant_max, qc_pc1 = pc + 16, qc_pc = t,
            qc_cptr = x_cptr x, qc_stack_len = x_stack_len x\<rparr> (x_calls x) x)) }
     | REOP_invalid \<Rightarrow> None }"

section \<open>Runs\<close>

partial_function (option) lre_exec_backtrack :: "REExecContext \<Rightarrow> 'm state_alloc \<Rightarrow> 'm exec_state \<Rightarrow> (int \<times> 'm exec_state) option" where
  "lre_exec_backtrack s alloc x = do {
     r \<leftarrow> re_step s alloc x;
     case r of Next x \<Rightarrow> lre_exec_backtrack s alloc x | Return v x \<Rightarrow> Some (v, x) }"

declare range_search.simps [code] backref_loop.simps [code] backward_backref_loop.simps [code] lre_exec_backtrack.simps [code]

definition exec_context :: "u8 list \<Rightarrow> size_t \<Rightarrow> u32 list \<Rightarrow> nat \<Rightarrow> REExecContext option" where
  "exec_context bc_buf addr cbuf cbuf_type = do {
     re_flags \<leftarrow> rd bc_buf RE_HEADER_FLAGS;
     captures \<leftarrow> rd bc_buf RE_HEADER_CAPTURE_COUNT;
     stack_max \<leftarrow> rd bc_buf RE_HEADER_STACK_SIZE;
     let is_utf16 = (re_flags AND LRE_FLAG_UTF16 \<noteq> 0);
     Some \<lparr>rx_bc = bc_buf, rx_addr = addr, rx_cbuf = cbuf,
           rx_type = (if cbuf_type = 1 \<and> is_utf16 then 2 else cbuf_type),
           rx_captures = unat captures, rx_stack_max = unat stack_max,
           rx_multi_line = (re_flags AND LRE_FLAG_MULTILINE \<noteq> 0),
           rx_ignore_case = (re_flags AND LRE_FLAG_IGNORECASE \<noteq> 0), rx_utf16 = is_utf16\<rparr> }"

definition exec_start :: "REExecContext \<Rightarrow> 'm \<Rightarrow> nat \<Rightarrow> 'm exec_state" where
  "exec_start s m cindex =
     \<lparr>x_capture = replicate (2 * rx_captures s) None, x_stack = replicate (rx_stack_max s) None, x_stack_len = 0,
      x_pc = RE_HEADER_LEN, x_cptr = cindex, x_states = [], x_state_stack_size = 0, x_mem = m, x_calls = []\<rparr>"

definition lre_exec :: "u8 list \<Rightarrow> size_t \<Rightarrow> u32 list \<Rightarrow> nat \<Rightarrow> nat \<Rightarrow> 'm state_alloc \<Rightarrow> 'm \<Rightarrow> (int \<times> nat option list) option" where
  "lre_exec bc_buf addr cbuf cindex cbuf_type alloc m = do {
     s \<leftarrow> exec_context bc_buf addr cbuf cbuf_type;
     (ret, x) \<leftarrow> lre_exec_backtrack s alloc (exec_start s m cindex);
     Some (ret, x_capture x) }"

inductive re_reach :: "REExecContext \<Rightarrow> 'm state_alloc \<Rightarrow> 'm exec_state \<Rightarrow> 'm exec_state \<Rightarrow> bool" for s alloc x0 where
  Start: "re_reach s alloc x0 x0"
| Step: "re_reach s alloc x0 x \<Longrightarrow> re_step s alloc x = Some (Next x') \<Longrightarrow> re_reach s alloc x0 x'"

end
