(* ===== verification/Regexp_Scan.thy ===== *)
theory Regexp_Scan
  imports Regexp_Exec Unicode_Script Utf8 Dynbuf
begin

unbundle bit_operations_syntax

text \<open>
  The lexical level of the compiler of regular expressions, from src/quickjs/libregexp.c: numbers, escape
  sequences, predefined classes, \<open>\p{...}\<close>, the atoms of classes, group names and the counting of groups. The
  text is the list of its bytes with the terminating zero, pointers into it are positions; a read beyond the
  terminator, or a write outside a local array, is \<^term>\<open>None\<close>.
\<close>

section \<open>State\<close>

definition ch :: "char \<Rightarrow> u8" where
  "ch c = of_char c"

text \<open>
  The parser state. Its two buffers, the character ranges and the parser share the memory \<open>ps_mem\<close>;
  \<open>ps_alloc\<close> is \<open>lre_realloc\<close> as the ranges use it. \<open>ps_u\<close> is the string in the union of error message and
  temporary buffer.
\<close>

record 'm REParseState =
  ps_byte_code :: "'m DynBuf"
  ps_buf :: "u8 list"
  ps_buf_ptr :: nat
  ps_is_utf16 :: bool
  ps_ignore_case :: bool
  ps_dotall :: bool
  ps_capture_count :: nat
  ps_total_capture_count :: int
  ps_has_named_captures :: int
  ps_mem :: 'm
  ps_alloc :: "'m cr_alloc"
  ps_group_names :: "'m DynBuf"
  ps_u :: "u8 list"

definition buf_end :: "'m REParseState \<Rightarrow> nat" where
  "buf_end s = length (ps_buf s) - 1"

text \<open>A function that returns -1 has failed; its message is in the state.\<close>

datatype ('a, 'm) outcome = Fail "'m REParseState" | Done 'a "'m REParseState"

definition checked :: "('a, 'm) outcome option \<Rightarrow> ('a \<Rightarrow> 'm REParseState \<Rightarrow> ('b, 'm) outcome option) \<Rightarrow> ('b, 'm) outcome option" where
  "checked m f = do { r \<leftarrow> m; case r of Fail s \<Rightarrow> Some (Fail s) | Done a s \<Rightarrow> f a s }"

definition re_parse_error :: "'m REParseState \<Rightarrow> string \<Rightarrow> ('a, 'm) outcome option" where
  "re_parse_error s msg = Some (Fail (s\<lparr>ps_u := map ch msg\<rparr>))"

section \<open>Numbers\<close>

definition is_digit :: "u8 \<Rightarrow> bool" where
  "is_digit c \<longleftrightarrow> c \<ge> ch CHR ''0'' \<and> c \<le> ch CHR ''9''"

function digits_loop :: "u8 list \<Rightarrow> nat \<Rightarrow> u64 \<Rightarrow> bool \<Rightarrow> (int \<times> nat) option option" where
  "digits_loop text p v allow_overflow = do {
     c \<leftarrow> rd text p;
     if \<not> is_digit c then Some (Some (uint v, p))
     else do {
       let v = v * 10 + ucast c - ucast (ch CHR ''0'');
       if v \<ge> ucast INT32_MAX then
         if allow_overflow then digits_loop text (p + 1) (ucast INT32_MAX) allow_overflow else Some None
       else digits_loop text (p + 1) v allow_overflow } }"
  by pat_completeness auto
termination by (relation "measure (\<lambda>(text, p, _). length text - p)") (auto simp: rd_def split: if_splits)

declare digits_loop.simps [simp del]

definition parse_digits :: "u8 list \<Rightarrow> nat \<Rightarrow> bool \<Rightarrow> (int \<times> nat) option" where
  "parse_digits text p allow_overflow = do {
     r \<leftarrow> digits_loop text p 0 allow_overflow;
     Some (case r of None \<Rightarrow> (-1, p) | Some (v, p) \<Rightarrow> (v, p)) }"

definition re_parse_expect :: "'m REParseState \<Rightarrow> nat \<Rightarrow> char \<Rightarrow> (nat, 'm) outcome option" where
  "re_parse_expect s p c = do {
     b \<leftarrow> rd (ps_buf s) p;
     if b \<noteq> ch c then re_parse_error s (''expecting '' @ [CHR 0x27, c, CHR 0x27]) else Some (Done (p + 1) s) }"

section \<open>Escape sequences\<close>

text \<open>The digits of \<open>\u{...}\<close>, and a fixed number of hexadecimal digits; \<^term>\<open>Some None\<close> is a malformed one.\<close>

function brace_digits :: "u8 list \<Rightarrow> nat \<Rightarrow> u32 \<Rightarrow> (u32 \<times> nat) option option" where
  "brace_digits text p c = do {
     b \<leftarrow> rd text p;
     let h = from_hex (uint b);
     if h < 0 then Some None
     else do {
       let c = push_bit 4 c OR word_of_int h;
       if c > 0x10ffff then Some None
       else do {
         b \<leftarrow> rd text (p + 1);
         if b = ch CHR ''}'' then Some (Some (c, p + 2)) else brace_digits text (p + 1) c } } }"
  by pat_completeness auto
termination by (relation "measure (\<lambda>(text, p, _). length text - p)") (auto simp: rd_def split: if_splits)

declare brace_digits.simps [simp del]

fun hex_digits :: "nat \<Rightarrow> u8 list \<Rightarrow> nat \<Rightarrow> u32 \<Rightarrow> u32 option option" where
  "hex_digits 0 text p c = Some (Some c)"
| "hex_digits (Suc n) text p c = do {
     b \<leftarrow> rd text p;
     let h = from_hex (uint b);
     if h < 0 then Some None else hex_digits n text (p + 1) (push_bit 4 c OR word_of_int h) }"

definition escaped_pair :: "u8 list \<Rightarrow> nat \<Rightarrow> u32 \<Rightarrow> (u32 \<times> nat) option" where
  "escaped_pair text p c = do {
     b0 \<leftarrow> rd text p;
     if b0 \<noteq> ch CHR 0x5c then Some (c, p)
     else do {
       b1 \<leftarrow> rd text (p + 1);
       if b1 \<noteq> ch CHR ''u'' then Some (c, p)
       else do {
         r \<leftarrow> hex_digits 4 text (p + 2) 0;
         Some (case r of None \<Rightarrow> (c, p)
           | Some c1 \<Rightarrow> if lo_surrogate c1 then (from_surrogates c c1, p + 6) else (c, p)) } } }"

definition octal_escape :: "u8 list \<Rightarrow> nat \<Rightarrow> u32 \<Rightarrow> (u32 \<times> nat) option" where
  "octal_escape text p c = do {
     b \<leftarrow> rd text p;
     let v = (ucast b - ucast (ch CHR ''0'') :: u32);
     if v > 7 then Some (c, p)
     else do {
       let c = push_bit 3 c OR v;
       if c \<ge> 32 then Some (c, p + 1)
       else do {
         b \<leftarrow> rd text (p + 1);
         let v = (ucast b - ucast (ch CHR ''0'') :: u32);
         Some (if v > 7 then (c, p + 1) else (push_bit 3 c OR v, p + 2)) } } }"

text \<open>The result is the character with the position after it, or -1 or -2 with the position unchanged.\<close>

definition lre_parse_escape :: "u8 list \<Rightarrow> nat \<Rightarrow> nat \<Rightarrow> (int \<times> nat) option" where
  "lre_parse_escape text p0 allow_utf16 = do {
     c \<leftarrow> rd text p0;
     let p = p0 + 1;
     let done = (\<lambda>(c :: u32, p :: nat). Some (uint c, p));
     if c = ch CHR ''b'' then done (0x08, p)
     else if c = ch CHR ''f'' then done (0x0c, p)
     else if c = ch CHR ''n'' then done (0x0a, p)
     else if c = ch CHR ''r'' then done (0x0d, p)
     else if c = ch CHR ''t'' then done (0x09, p)
     else if c = ch CHR ''v'' then done (0x0b, p)
     else if c = ch CHR ''x'' \<or> c = ch CHR ''u'' then do {
       b \<leftarrow> rd text p;
       if b = ch CHR ''{'' \<and> allow_utf16 \<noteq> 0 then do {
         r \<leftarrow> brace_digits text (p + 1) 0;
         case r of None \<Rightarrow> Some (-1, p0) | Some cp \<Rightarrow> done cp }
       else do {
         let n = (if c = ch CHR ''x'' then 2 else 4);
         r \<leftarrow> hex_digits n text p 0;
         case r of None \<Rightarrow> Some (-1, p0)
         | Some c \<Rightarrow> if hi_surrogate c \<and> allow_utf16 = 2 then Option.bind (escaped_pair text (p + n) c) done else done (c, p + n) } }
     else if c \<ge> ch CHR ''0'' \<and> c \<le> ch CHR ''7'' then do {
       let v = (ucast c - ucast (ch CHR ''0'') :: u32);
       if allow_utf16 = 2 then
         if v \<noteq> 0 then Some (-1, p0) else do { b \<leftarrow> rd text p; if is_digit b then Some (-1, p0) else done (v, p) }
       else Option.bind (octal_escape text p v) done }
     else Some (-2, p0) }"

section \<open>Predefined classes\<close>

definition char_range_d :: "u16 list" where "char_range_d = [1, 0x0030, 0x0039 + 1]"

definition char_range_s :: "u16 list" where
  "char_range_s = [10, 0x0009, 0x000D + 1, 0x0020, 0x0020 + 1, 0x00A0, 0x00A0 + 1, 0x1680, 0x1680 + 1, 0x2000, 0x200A + 1,
     0x2028, 0x2029 + 1, 0x202F, 0x202F + 1, 0x205F, 0x205F + 1, 0x3000, 0x3000 + 1, 0xFEFF, 0xFEFF + 1]"

definition char_range_w :: "u16 list" where
  "char_range_w = [4, 0x0030, 0x0039 + 1, 0x0041, 0x005A + 1, 0x005F, 0x005F + 1, 0x0061, 0x007A + 1]"

function space_loop :: "int \<Rightarrow> nat \<Rightarrow> nat \<Rightarrow> bool option" where
  "space_loop c n i =
     (if i < n then do {
        low \<leftarrow> rd char_range_s (2 * i + 1);
        if c < uint low then Some False
        else do {
          high \<leftarrow> rd char_range_s (2 * i + 2);
          if c < uint high then Some True else space_loop c n (i + 1) } }
      else Some False)"
  by pat_completeness auto
termination by (relation "measure (\<lambda>(_, n, i). n - i)") auto

definition lre_is_space :: "int \<Rightarrow> bool option" where
  "lre_is_space c = space_loop c ((length char_range_s - 1) div 2) 0"

definition lre_id_start_table_ascii :: "u32 list" where
  "lre_id_start_table_ascii = [0x00000000, 0x00000010, 0x87FFFFFE, 0x07FFFFFE]"

definition lre_id_continue_table_ascii :: "u32 list" where
  "lre_id_continue_table_ascii = [0x00000000, 0x03FF0010, 0x87FFFFFE, 0x07FFFFFE]"

definition lre_js_is_ident_first :: "u32 \<Rightarrow> bool option" where
  "lre_js_is_ident_first c =
     (if c < 128 then do { w \<leftarrow> rd lre_id_start_table_ascii (unat (drop_bit 5 c)); Some (drop_bit (unat (c AND 31)) w AND 1 \<noteq> 0) }
      else lre_is_id_start c)"

definition lre_js_is_ident_next :: "u32 \<Rightarrow> bool option" where
  "lre_js_is_ident_next c =
     (if c < 128 then do { w \<leftarrow> rd lre_id_continue_table_ascii (unat (drop_bit 5 c)); Some (drop_bit (unat (c AND 31)) w AND 1 \<noteq> 0) }
      else do { b \<leftarrow> lre_is_id_continue c; Some (b \<or> c = 0x200C \<or> c = 0x200D) })"

definition CLASS_RANGE_BASE :: u32 where "CLASS_RANGE_BASE = 0x40000000"

datatype CharRangeEnum = CHAR_RANGE_d | CHAR_RANGE_D | CHAR_RANGE_s | CHAR_RANGE_S | CHAR_RANGE_w | CHAR_RANGE_W

text \<open>The numbers of the enumeration: the lowest bit asks for the complement, the others select the table.\<close>

primrec char_range_num :: "CharRangeEnum \<Rightarrow> nat" where
  "char_range_num CHAR_RANGE_d = 0"
| "char_range_num CHAR_RANGE_D = 1"
| "char_range_num CHAR_RANGE_s = 2"
| "char_range_num CHAR_RANGE_S = 3"
| "char_range_num CHAR_RANGE_w = 4"
| "char_range_num CHAR_RANGE_W = 5"

definition char_range_table :: "u16 list list" where
  "char_range_table = [char_range_d, char_range_s, char_range_w]"

fun add_points :: "'m CharRange \<Rightarrow> u32 list \<Rightarrow> (int \<times> 'm CharRange) option" where
  "add_points cr [] = Some (0, cr)"
| "add_points cr (v # vs) = do {
     (r, cr) \<leftarrow> cr_add_point cr v;
     if r \<noteq> 0 then Some (-1, cr) else add_points cr vs }"

definition cr_freed :: "'m CharRange \<Rightarrow> 'm CharRange" where
  "cr_freed cr = cr\<lparr>mem_opaque := cr_free cr\<rparr>"

definition cr_init_char_range :: "'m cr_alloc \<Rightarrow> 'm \<Rightarrow> CharRangeEnum \<Rightarrow> (int \<times> 'm CharRange) option" where
  "cr_init_char_range f m c = do {
     let invert = odd (char_range_num c);
     c_pt \<leftarrow> rd char_range_table (char_range_num c div 2);
     len \<leftarrow> rd c_pt 0;
     pt \<leftarrow> slice c_pt 1 (unat len * 2);
     (r, cr) \<leftarrow> add_points (cr_init f m (Some f)) (map ucast pt);
     if r \<noteq> 0 then Some (-1, cr_freed cr)
     else if invert then do {
       (r, cr) \<leftarrow> cr_invert cr;
       Some (if r \<noteq> 0 then (-1, cr_freed cr) else (0, cr)) }
     else Some (0, cr) }"

definition cr_canonicalize :: "'m CharRange \<Rightarrow> (int \<times> 'm CharRange) option" where
  "cr_canonicalize cr = do {
     pt \<leftarrow> slice (pts cr) 0 (cr_len cr);
     (ret, a) \<leftarrow> cr_op (fresh cr (mem_opaque cr)) pt [0x61, 0x7a + 1] CR_OP_INTER;
     if ret \<noteq> 0 then Some (ret, cr\<lparr>mem_opaque := cr_free a\<rparr>)
     else do {
       apt \<leftarrow> slice (pts a) 0 (cr_len a);
       (ret, cr) \<leftarrow> cr_union1 (cr\<lparr>mem_opaque := mem_opaque a\<rparr>) (map (\<lambda>v. v + (0x41 - 0x61)) apt);
       Some (ret, cr\<lparr>mem_opaque := cr_free (a\<lparr>mem_opaque := mem_opaque cr\<rparr>)\<rparr>) } }"

declare compress_loop.simps [code]

section \<open>Unicode properties\<close>

definition is_unicode_char :: "u8 \<Rightarrow> bool" where
  "is_unicode_char c \<longleftrightarrow> (c \<ge> ch CHR ''0'' \<and> c \<le> ch CHR ''9'') \<or> (c \<ge> ch CHR ''A'' \<and> c \<le> ch CHR ''Z'') \<or>
     (c \<ge> ch CHR ''a'' \<and> c \<le> ch CHR ''z'') \<or> c = ch CHR ''_''"

text \<open>The loop that copies a name into an array; \<^term>\<open>Some None\<close>: the test for its size ends it.\<close>

function name_loop :: "u8 list \<Rightarrow> nat \<Rightarrow> u8 list \<Rightarrow> nat \<Rightarrow> (nat \<times> u8 list \<times> nat) option option" where
  "name_loop text p name q = do {
     c \<leftarrow> rd text p;
     if is_unicode_char c then
       if q > length name - 1 then Some None
       else do { name \<leftarrow> wr name q c; name_loop text (p + 1) name (q + 1) }
     else Some (Some (p, name, q)) }"
  by pat_completeness auto
termination by (relation "measure (\<lambda>(text, p, _). length text - p)") (auto simp: rd_def split: if_splits)

declare name_loop.simps [simp del]

text \<open>The string in an array whose terminator has been written.\<close>

definition array_string :: "u8 list \<Rightarrow> string" where
  "array_string a = map (\<lambda>b. char_of (unat b)) (takeWhile (\<lambda>b. b \<noteq> 0) a)"

text \<open>A range in the memory of the parser, and the parser with the memory a range leaves.\<close>

definition new_range :: "'m REParseState \<Rightarrow> 'm CharRange" where
  "new_range s = cr_init (ps_alloc s) (ps_mem s) (Some (ps_alloc s))"

definition with_mem :: "'m REParseState \<Rightarrow> 'm CharRange \<Rightarrow> 'm REParseState" where
  "with_mem s cr = s\<lparr>ps_mem := mem_opaque cr\<rparr>"

definition free_range :: "'m REParseState \<Rightarrow> 'm CharRange \<Rightarrow> 'm REParseState" where
  "free_range s cr = s\<lparr>ps_mem := cr_free (cr\<lparr>mem_opaque := ps_mem s\<rparr>)\<rparr>"

definition property_range :: "'m REParseState \<Rightarrow> string \<Rightarrow> string \<Rightarrow> ('m CharRange, 'm) outcome option" where
  "property_range s name value =
     (if name = ''Script'' \<or> name = ''sc'' \<or> name = ''Script_Extensions'' \<or> name = ''scx'' then do {
        (ret, cr) \<leftarrow> unicode_script (new_range s) value (name = ''Script_Extensions'' \<or> name = ''scx'');
        if ret \<noteq> 0 then
          re_parse_error (free_range (with_mem s cr) cr) (if ret = -2 then ''unknown unicode script'' else ''out of memory'')
        else Some (Done cr (with_mem s cr)) }
      else if name = ''General_Category'' \<or> name = ''gc'' then do {
        (ret, cr) \<leftarrow> unicode_general_category (new_range s) value;
        if ret \<noteq> 0 then
          re_parse_error (free_range (with_mem s cr) cr) (if ret = -2 then ''unknown unicode general category'' else ''out of memory'')
        else Some (Done cr (with_mem s cr)) }
      else if value = [] then do {
        (ret, cr) \<leftarrow> unicode_general_category (new_range s) name;
        if ret = -1 then re_parse_error (free_range (with_mem s cr) cr) ''out of memory''
        else if ret < 0 then do {
          (ret, cr) \<leftarrow> unicode_prop cr name;
          if ret \<noteq> 0 then
            re_parse_error (free_range (with_mem s cr) cr) (if ret = -2 then ''unknown unicode property name'' else ''out of memory'')
          else Some (Done cr (with_mem s cr)) }
        else Some (Done cr (with_mem s cr)) }
      else re_parse_error s ''unknown unicode property name'')"

definition parse_unicode_property :: "'m REParseState \<Rightarrow> nat \<Rightarrow> bool \<Rightarrow> ('m CharRange \<times> nat, 'm) outcome option" where
  "parse_unicode_property s p is_inv = do {
     let text = ps_buf s;
     b \<leftarrow> rd text p;
     if b \<noteq> ch CHR ''{'' then re_parse_error s (''expecting '' @ [CHR 0x27] @ ''{'' @ [CHR 0x27] @ '' after '' @ [CHR 0x5c] @ ''p'')
     else do {
       r \<leftarrow> name_loop text (p + 1) (replicate 64 0) 0;
       case r of None \<Rightarrow> re_parse_error s ''unknown unicode property name''
       | Some (p, name, q) \<Rightarrow> do {
           name \<leftarrow> wr name q 0;
           b \<leftarrow> rd text p;
           r \<leftarrow> (if b = ch CHR ''='' then name_loop text (p + 1) (replicate 64 0) 0 else Some (Some (p, replicate 64 0, 0)));
           case r of None \<Rightarrow> re_parse_error s ''unknown unicode property value''
           | Some (p, value, q) \<Rightarrow> do {
               value \<leftarrow> wr value q 0;
               b \<leftarrow> rd text p;
               if b \<noteq> ch CHR ''}'' then re_parse_error s (''expecting '' @ [CHR 0x27] @ ''}'' @ [CHR 0x27])
               else checked (property_range s (array_string name) (array_string value)) (\<lambda>cr s.
                 if is_inv then do {
                   (r, cr) \<leftarrow> cr_invert cr;
                   if r \<noteq> 0 then Some (Fail (free_range (with_mem s cr) cr)) else Some (Done (cr, p + 1) (with_mem s cr)) }
                 else Some (Done (cr, p + 1) s)) } } } }"

section \<open>The atoms of classes\<close>

definition UTF8_CHAR_LEN_MAX :: nat where "UTF8_CHAR_LEN_MAX = 6"

text \<open>An atom is a character, or \<open>CLASS_RANGE_BASE\<close> and a range.\<close>

type_synonym 'm class_atom = "u32 \<times> 'm CharRange option \<times> nat"

definition class_range :: "'m REParseState \<Rightarrow> nat \<Rightarrow> CharRangeEnum \<Rightarrow> ('m class_atom, 'm) outcome option" where
  "class_range s p c = do {
     (r, cr) \<leftarrow> cr_init_char_range (ps_alloc s) (ps_mem s) c;
     Some (if r \<noteq> 0 then Fail (with_mem s cr) else Done (CLASS_RANGE_BASE, Some cr, p) (with_mem s cr)) }"

text \<open>The label \<open>normal_char\<close>; a malformed character of a Unicode expression is -1, without a message.\<close>

definition normal_char :: "'m REParseState \<Rightarrow> nat \<Rightarrow> u8 \<Rightarrow> ('m class_atom, 'm) outcome option" where
  "normal_char s p c =
     (if c \<ge> 128 then do {
        r \<leftarrow> unicode_from_utf8 (drop p (ps_buf s)) (int UTF8_CHAR_LEN_MAX);
        case r of
          None \<Rightarrow> if ps_is_utf16 s then Some (Fail s) else re_parse_error s ''malformed unicode char''
        | Some (c, rest) \<Rightarrow>
            if c > 0xffff \<and> \<not> ps_is_utf16 s then re_parse_error s ''malformed unicode char''
            else Some (Done (c, None, length (ps_buf s) - length rest) s) }
      else Some (Done (ucast c, None, p + 1) s))"

definition control_escape :: "'m REParseState \<Rightarrow> nat \<Rightarrow> bool \<Rightarrow> ('m class_atom, 'm) outcome option" where
  "control_escape s p inclass = do {
     c \<leftarrow> rd (ps_buf s) p;
     if (c \<ge> ch CHR ''a'' \<and> c \<le> ch CHR ''z'') \<or> (c \<ge> ch CHR ''A'' \<and> c \<le> ch CHR ''Z'') \<or>
        ((is_digit c \<or> c = ch CHR ''_'') \<and> inclass \<and> \<not> ps_is_utf16 s)
     then Some (Done (ucast (c AND 0x1f), None, p + 1) s)
     else if ps_is_utf16 s then re_parse_error s ''invalid escape sequence in regular expression''
     else Some (Done (ucast (ch CHR 0x5c), None, p - 1) s) }"

definition syntax_chars :: "u8 list" where
  "syntax_chars = map ch (''^$'' @ [CHR 0x5c] @ ''.*+?()[]{}|/'')"

definition class_escape :: "'m REParseState \<Rightarrow> nat \<Rightarrow> ('m class_atom, 'm) outcome option" where
  "class_escape s p = do {
     c \<leftarrow> rd (ps_buf s) p;
     (ret, p') \<leftarrow> lre_parse_escape (ps_buf s) p (if ps_is_utf16 s then 2 else 0);
     if ret \<ge> 0 then Some (Done (word_of_int ret, None, p') s)
     else if ret = -2 \<and> c \<noteq> 0 \<and> c \<in> set syntax_chars then normal_char s p c
     else if ps_is_utf16 s then re_parse_error s ''invalid escape sequence in regular expression''
     else normal_char s p c }"

definition get_class_atom :: "'m REParseState \<Rightarrow> nat \<Rightarrow> bool \<Rightarrow> ('m class_atom, 'm) outcome option" where
  "get_class_atom s p inclass = do {
     c \<leftarrow> rd (ps_buf s) p;
     if c = ch CHR 0x5c then
       if p + 1 \<ge> buf_end s then re_parse_error s ''unexpected end''
       else do {
         c \<leftarrow> rd (ps_buf s) (p + 1);
         let p = p + 2;
         if c = ch CHR ''d'' then class_range s p CHAR_RANGE_d
         else if c = ch CHR ''D'' then class_range s p CHAR_RANGE_D
         else if c = ch CHR ''s'' then class_range s p CHAR_RANGE_s
         else if c = ch CHR ''S'' then class_range s p CHAR_RANGE_S
         else if c = ch CHR ''w'' then class_range s p CHAR_RANGE_w
         else if c = ch CHR ''W'' then class_range s p CHAR_RANGE_W
         else if c = ch CHR ''c'' then control_escape s p inclass
         else if (c = ch CHR ''p'' \<or> c = ch CHR ''P'') \<and> ps_is_utf16 s then
           checked (parse_unicode_property s p (c = ch CHR ''P'')) (\<lambda>(cr, p) s. Some (Done (CLASS_RANGE_BASE, Some cr, p) s))
         else class_escape s (p - 1) }
     else if c = 0 \<and> p \<ge> buf_end s then re_parse_error s ''unexpected end''
     else normal_char s p c }"

section \<open>Groups\<close>

text \<open>A group name is collected in an array of \<open>buf_size\<close> bytes.\<close>

definition put_name :: "nat \<Rightarrow> u8 list \<Rightarrow> u8 list \<Rightarrow> u8 list option" where
  "put_name buf_size q bs = (if length q + length bs \<le> buf_size then Some (q @ bs) else None)"

text \<open>The character at \<open>p\<close> with the position after it; \<^term>\<open>Some None\<close> for -1.\<close>

definition name_char :: "u8 list \<Rightarrow> nat \<Rightarrow> u8 \<Rightarrow> bool \<Rightarrow> (u32 \<times> nat) option option" where
  "name_char text p c is_utf16 =
     (if c = ch CHR 0x5c then do {
        b \<leftarrow> rd text (p + 1);
        if b \<noteq> ch CHR ''u'' then Some None
        else do {
          (r, p) \<leftarrow> lre_parse_escape text (p + 1) (if is_utf16 then 2 else 0);
          Some (Some (word_of_int r, p)) } }
      else if c \<ge> 128 then do {
        r \<leftarrow> unicode_from_utf8 (drop p text) (int UTF8_CHAR_LEN_MAX);
        Some (Some (case r of None \<Rightarrow> (-1, p) | Some (c, rest) \<Rightarrow> (c, length text - length rest))) }
      else Some (Some (ucast c, p + 1)))"

partial_function (option) group_name_loop :: "u8 list \<Rightarrow> nat \<Rightarrow> nat \<Rightarrow> bool \<Rightarrow> u8 list \<Rightarrow> (int \<times> nat \<times> u8 list) option" where
  "group_name_loop text p buf_size is_utf16 q = do {
     c \<leftarrow> rd text p;
     if c = ch CHR ''>'' then Some (0, p, q)
     else do {
       r \<leftarrow> name_char text p c is_utf16;
       case r of None \<Rightarrow> Some (-1, p, q)
       | Some (c, p') \<Rightarrow>
           if c > 0x10ffff then Some (-1, p, q)
           else do {
             b \<leftarrow> (if q = [] then lre_js_is_ident_first c else lre_js_is_ident_next c);
             if \<not> b \<or> length q + UTF8_CHAR_LEN_MAX + 1 > buf_size then Some (-1, p, q)
             else do {
               q \<leftarrow> put_name buf_size q (if c < 128 then [ucast c] else unicode_to_utf8 c);
               group_name_loop text p' buf_size is_utf16 q } } } }"

declare group_name_loop.simps [code]

text \<open>The result, the position after the name, and the bytes written (the terminator is not among them).\<close>

definition re_parse_group_name :: "nat \<Rightarrow> u8 list \<Rightarrow> nat \<Rightarrow> bool \<Rightarrow> (int \<times> nat \<times> u8 list) option" where
  "re_parse_group_name buf_size text p is_utf16 = do {
     (r, p', q) \<leftarrow> group_name_loop text p buf_size is_utf16 [];
     if r \<noteq> 0 \<or> q = [] then Some (-1, p, q)
     else do { _ \<leftarrow> put_name buf_size q [0]; Some (0, p' + 1, q) } }"

definition TMP_BUF_SIZE :: nat where "TMP_BUF_SIZE = 128"

text \<open>Skipping a class: \<open>p\<close> ends at the closing bracket, or at or after the end.\<close>

function class_skip :: "u8 list \<Rightarrow> nat \<Rightarrow> nat \<Rightarrow> nat option" where
  "class_skip text e p =
     (if p < e then do {
        c \<leftarrow> rd text p;
        if c = ch CHR '']'' then Some p
        else class_skip text e (if c = ch CHR 0x5c then p + 2 else p + 1) }
      else Some p)"
  by pat_completeness auto
termination by (relation "measure (\<lambda>(text, e, p). e - p)") auto

declare class_skip.simps [simp del]

text \<open>
  Counting the groups, or looking for the one called \<open>capture_name\<close>. The result is the return value and
  whether there are named groups.
\<close>

partial_function (option) captures_loop :: "u8 list \<Rightarrow> nat \<Rightarrow> bool \<Rightarrow> u8 list option \<Rightarrow> nat \<Rightarrow> int \<Rightarrow> int \<Rightarrow> (int \<times> int) option" where
  "captures_loop text e is_utf16 capture_name p capture_index has_named =
     (if p < e then do {
        c \<leftarrow> rd text p;
        if c = ch CHR ''('' then do {
          b1 \<leftarrow> rd text (p + 1);
          if b1 \<noteq> ch CHR ''?'' then captures_loop text e is_utf16 capture_name (p + 1) (capture_index + 1) has_named
          else do {
            b2 \<leftarrow> rd text (p + 2);
            if b2 \<noteq> ch CHR ''<'' then captures_loop text e is_utf16 capture_name (p + 1) capture_index has_named
            else do {
              b3 \<leftarrow> rd text (p + 3);
              if b3 = ch CHR ''='' \<or> b3 = ch CHR ''!'' then captures_loop text e is_utf16 capture_name (p + 1) capture_index has_named
              else case capture_name of
                None \<Rightarrow> captures_loop text e is_utf16 capture_name (p + 1) (capture_index + 1) 1
              | Some nm \<Rightarrow> do {
                  (r, p', q) \<leftarrow> re_parse_group_name TMP_BUF_SIZE text (p + 3) is_utf16;
                  if r = 0 \<and> q = nm then Some (capture_index, 1)
                  else captures_loop text e is_utf16 capture_name (p' + 1) (capture_index + 1) 1 } } } }
        else if c = ch CHR 0x5c then captures_loop text e is_utf16 capture_name (p + 2) capture_index has_named
        else if c = ch CHR ''['' then do {
          p \<leftarrow> class_skip text e (p + 1);
          captures_loop text e is_utf16 capture_name (p + 1) capture_index has_named }
        else captures_loop text e is_utf16 capture_name (p + 1) capture_index has_named }
      else Some (if capture_name = None then capture_index else -1, has_named))"

declare captures_loop.simps [code]

definition re_parse_captures :: "'m REParseState \<Rightarrow> u8 list option \<Rightarrow> (int \<times> int) option" where
  "re_parse_captures s capture_name = captures_loop (ps_buf s) (buf_end s) (ps_is_utf16 s) capture_name 0 1 0"

definition re_count_captures :: "'m REParseState \<Rightarrow> (int \<times> 'm REParseState) option" where
  "re_count_captures s =
     (if ps_total_capture_count s < 0 then do {
        (n, named) \<leftarrow> re_parse_captures s None;
        Some (n, s\<lparr>ps_total_capture_count := n, ps_has_named_captures := named\<rparr>) }
      else Some (ps_total_capture_count s, s))"

definition re_has_named_captures :: "'m REParseState \<Rightarrow> (bool \<times> 'm REParseState) option" where
  "re_has_named_captures s =
     (if ps_has_named_captures s < 0 then do { (_, s) \<leftarrow> re_count_captures s; Some (ps_has_named_captures s \<noteq> 0, s) }
      else Some (ps_has_named_captures s \<noteq> 0, s))"

function group_search :: "u8 list \<Rightarrow> u8 list \<Rightarrow> nat \<Rightarrow> int \<Rightarrow> int option" where
  "group_search names name p capture_index =
     (if p < length names then do {
        nm \<leftarrow> cstr (drop p names);
        if nm = name then Some capture_index
        else group_search names name (p + length nm + 1) (capture_index + 1) }
      else Some (-1))"
  by pat_completeness auto
termination by (relation "measure (\<lambda>(names, _, p, _). length names - p)") auto

declare group_search.simps [simp del]

definition find_group_name :: "'m REParseState \<Rightarrow> u8 list \<Rightarrow> int option" where
  "find_group_name s name = group_search (content (ps_group_names s)) name 0 1"

end
