(* ===== verification/Regexp_Compile.thy ===== *)
theory Regexp_Compile
  imports Regexp_Scan
begin

unbundle bit_operations_syntax

text \<open>
  The compiler of regular expressions, \<open>lre_compile\<close> of src/quickjs/libregexp.c: emission of code into the
  growable buffer of Dynbuf, patching and moving of code, character classes, terms with their quantifiers,
  alternatives and disjunctions. The recursive functions take the depth of the recursion still allowed;
  without it the result is \<^term>\<open>None\<close>, as it is when code is written outside the block of the buffer.
\<close>

declare script_fail.simps [code] every_other.simps [code]

section \<open>Emission\<close>

definition reop_num :: "REOPCodeEnum \<Rightarrow> u8" where
  "reop_num oc = word_of_nat (length (takeWhile (\<lambda>o'. o' \<noteq> oc) reop_list))"

definition code_size :: "'m REParseState \<Rightarrow> nat" where
  "code_size s = unat (dsize (ps_byte_code s))"

definition put_code :: "'m REParseState \<Rightarrow> u8 list \<Rightarrow> 'm REParseState option" where
  "put_code s data = do {
     (_, d) \<leftarrow> dbuf_put ((ps_byte_code s)\<lparr>opaque := ps_mem s\<rparr>) data;
     Some (s\<lparr>ps_byte_code := d, ps_mem := opaque d\<rparr>) }"

definition put_name_bytes :: "'m REParseState \<Rightarrow> u8 list \<Rightarrow> 'm REParseState option" where
  "put_name_bytes s data = do {
     (_, d) \<leftarrow> dbuf_put ((ps_group_names s)\<lparr>opaque := ps_mem s\<rparr>) data;
     Some (s\<lparr>ps_group_names := d, ps_mem := opaque d\<rparr>) }"

definition insert_code :: "'m REParseState \<Rightarrow> nat \<Rightarrow> nat \<Rightarrow> 'm REParseState option" where
  "insert_code s pos len = do {
     d \<leftarrow> dbuf_insert ((ps_byte_code s)\<lparr>opaque := ps_mem s\<rparr>) pos len;
     Some (s\<lparr>ps_byte_code := d, ps_mem := opaque d\<rparr>) }"

definition copy_code :: "'m REParseState \<Rightarrow> nat \<Rightarrow> nat \<Rightarrow> 'm REParseState option" where
  "copy_code s offset len = do {
     (_, d) \<leftarrow> dbuf_put_self ((ps_byte_code s)\<lparr>opaque := ps_mem s\<rparr>) (word_of_nat offset) (word_of_nat len);
     Some (s\<lparr>ps_byte_code := d, ps_mem := opaque d\<rparr>) }"

text \<open>Stores into \<open>byte_code.buf\<close>: bytes, an opcode, a number.\<close>

definition patch :: "'m REParseState \<Rightarrow> nat \<Rightarrow> u8 list \<Rightarrow> 'm REParseState option" where
  "patch s pos data = do { d \<leftarrow> buf_store (ps_byte_code s) pos data; Some (s\<lparr>ps_byte_code := d\<rparr>) }"

definition patch_op :: "'m REParseState \<Rightarrow> nat \<Rightarrow> REOPCodeEnum \<Rightarrow> 'm REParseState option" where
  "patch_op s pos op = patch s pos [reop_num op]"

definition patch_u32 :: "'m REParseState \<Rightarrow> nat \<Rightarrow> int \<Rightarrow> 'm REParseState option" where
  "patch_u32 s pos v = patch s pos (to_bytes 4 (word_of_int v :: u32))"

definition re_emit_op :: "'m REParseState \<Rightarrow> REOPCodeEnum \<Rightarrow> 'm REParseState option" where
  "re_emit_op s op = put_code s [reop_num op]"

definition re_emit_op_u32 :: "'m REParseState \<Rightarrow> REOPCodeEnum \<Rightarrow> int \<Rightarrow> (nat \<times> 'm REParseState) option" where
  "re_emit_op_u32 s op val = do {
     s \<leftarrow> put_code s [reop_num op];
     let pos = code_size s;
     s \<leftarrow> put_code s (to_bytes 4 (word_of_int val :: u32));
     Some (pos, s) }"

definition re_emit_goto :: "'m REParseState \<Rightarrow> REOPCodeEnum \<Rightarrow> nat \<Rightarrow> (nat \<times> 'm REParseState) option" where
  "re_emit_goto s op val = do {
     s \<leftarrow> put_code s [reop_num op];
     let pos = code_size s;
     s \<leftarrow> put_code s (to_bytes 4 (word_of_int (int val - int (pos + 4)) :: u32));
     Some (pos, s) }"

definition re_emit_op_u8 :: "'m REParseState \<Rightarrow> REOPCodeEnum \<Rightarrow> nat \<Rightarrow> 'm REParseState option" where
  "re_emit_op_u8 s op val = do { s \<leftarrow> put_code s [reop_num op]; put_code s [word_of_nat val] }"

definition re_emit_op_u16 :: "'m REParseState \<Rightarrow> REOPCodeEnum \<Rightarrow> u32 \<Rightarrow> 'm REParseState option" where
  "re_emit_op_u16 s op val = do { s \<leftarrow> put_code s [reop_num op]; put_code s (to_bytes 2 (ucast val :: u16)) }"

section \<open>Character classes\<close>

function emit_ranges16 :: "'m REParseState \<Rightarrow> u32 list \<Rightarrow> nat \<Rightarrow> nat \<Rightarrow> 'm REParseState option" where
  "emit_ranges16 s pt len i =
     (if i < len then do {
        low \<leftarrow> rd pt i;
        s \<leftarrow> put_code s (to_bytes 2 (ucast low :: u16));
        v \<leftarrow> rd pt (i + 1);
        let high = v - 1;
        let high = (if high = 0xffffffff - 1 then 0xffff else high);
        s \<leftarrow> put_code s (to_bytes 2 (ucast high :: u16));
        emit_ranges16 s pt len (i + 2) }
      else Some s)"
  by pat_completeness auto
termination by (relation "measure (\<lambda>(_, _, len, i). len - i)") auto

function emit_ranges32 :: "'m REParseState \<Rightarrow> u32 list \<Rightarrow> nat \<Rightarrow> nat \<Rightarrow> 'm REParseState option" where
  "emit_ranges32 s pt len i =
     (if i < len then do {
        low \<leftarrow> rd pt i;
        s \<leftarrow> put_code s (to_bytes 4 low);
        v \<leftarrow> rd pt (i + 1);
        s \<leftarrow> put_code s (to_bytes 4 (v - 1));
        emit_ranges32 s pt len (i + 2) }
      else Some s)"
  by pat_completeness auto
termination by (relation "measure (\<lambda>(_, _, len, i). len - i)") auto

declare emit_ranges16.simps [simp del] emit_ranges32.simps [simp del]

definition re_emit_range :: "'m REParseState \<Rightarrow> 'm CharRange \<Rightarrow> (unit, 'm) outcome option" where
  "re_emit_range s cr =
     (let len = cr_len cr div 2 in
      if len \<ge> 65535 then re_parse_error s ''too many ranges''
      else if len = 0 then do { (_, s) \<leftarrow> re_emit_op_u32 s REOP_char32 (-1); Some (Done () s) }
      else do {
        high \<leftarrow> rd (pts cr) (cr_len cr - 1);
        high \<leftarrow> (if high = 0xffffffff then rd (pts cr) (cr_len cr - 2) else Some high);
        if high \<le> 0xffff then do {
          s \<leftarrow> re_emit_op_u16 s REOP_range (word_of_nat len);
          s \<leftarrow> emit_ranges16 s (pts cr) (cr_len cr) 0;
          Some (Done () s) }
        else do {
          s \<leftarrow> re_emit_op_u16 s REOP_range32 (word_of_nat len);
          s \<leftarrow> emit_ranges32 s (pts cr) (cr_len cr) 0;
          Some (Done () s) } })"

text \<open>
  \<open>on_range\<close> applies an operation to a range in the memory of the parser; when it fails the label
  \<open>memory_error\<close> sets the message and frees the range. \<open>or_free\<close> is the label \<open>fail\<close>.
\<close>

definition on_range :: "'m REParseState \<Rightarrow> 'm CharRange \<Rightarrow> ('m CharRange \<Rightarrow> (int \<times> 'm CharRange) option) \<Rightarrow> ('m CharRange, 'm) outcome option" where
  "on_range s cr f = do {
     (r, cr) \<leftarrow> f (cr\<lparr>mem_opaque := ps_mem s\<rparr>);
     if r \<noteq> 0 then re_parse_error (free_range (with_mem s cr) cr) ''out of memory''
     else Some (Done cr (with_mem s cr)) }"

definition or_free :: "'m CharRange \<Rightarrow> ('a, 'm) outcome option \<Rightarrow> ('a, 'm) outcome option" where
  "or_free cr m = do { r \<leftarrow> m; Some (case r of Fail s \<Rightarrow> Fail (free_range s cr) | Done a s \<Rightarrow> Done a s) }"

text \<open>The label \<open>class_atom\<close>: one character, or the union with a predefined class.\<close>

definition add_class_atom :: "'m REParseState \<Rightarrow> 'm CharRange \<Rightarrow> u32 \<Rightarrow> 'm CharRange option \<Rightarrow> ('m CharRange, 'm) outcome option" where
  "add_class_atom s cr c1 cr1 =
     (if c1 \<ge> CLASS_RANGE_BASE then do {
        cr1 \<leftarrow> cr1;
        pt \<leftarrow> slice (pts cr1) 0 (cr_len cr1);
        (ret, cr) \<leftarrow> cr_union1 (cr\<lparr>mem_opaque := ps_mem s\<rparr>) pt;
        let s = free_range (with_mem s cr) cr1;
        if ret \<noteq> 0 then re_parse_error (free_range s cr) ''out of memory'' else Some (Done cr s) }
      else on_range s cr (\<lambda>cr. cr_union_interval cr c1 c1))"

definition class_item :: "'m REParseState \<Rightarrow> 'm CharRange \<Rightarrow> nat \<Rightarrow> ('m CharRange \<times> nat, 'm) outcome option" where
  "class_item s cr p =
     checked (or_free cr (get_class_atom s p True)) (\<lambda>(c1, cr1, p) s. do {
       b \<leftarrow> rd (ps_buf s) p;
       b1 \<leftarrow> (if b = ch CHR ''-'' then rd (ps_buf s) (p + 1) else Some 0);
       let atom = (\<lambda>s. checked (add_class_atom s cr c1 cr1) (\<lambda>cr s. Some (Done (cr, p) s)));
       if b = ch CHR ''-'' \<and> b1 \<noteq> ch CHR '']'' then
         if c1 \<ge> CLASS_RANGE_BASE then
           if ps_is_utf16 s then do {
             cr1 \<leftarrow> cr1; or_free cr (re_parse_error (free_range s cr1) ''invalid class range'') }
           else atom s
         else checked (or_free cr (get_class_atom s (p + 1) True)) (\<lambda>(c2, cr1, p0) s.
           if c2 \<ge> CLASS_RANGE_BASE then do {
             cr1 \<leftarrow> cr1;
             let s = free_range s cr1;
             if ps_is_utf16 s then or_free cr (re_parse_error s ''invalid class range'') else atom s }
           else if c2 < c1 then or_free cr (re_parse_error s ''invalid class range'')
           else checked (on_range s cr (\<lambda>cr. cr_union_interval cr c1 c2)) (\<lambda>cr s. Some (Done (cr, p0) s)))
       else atom s })"

partial_function (option) class_loop :: "'m REParseState \<Rightarrow> 'm CharRange \<Rightarrow> nat \<Rightarrow> ('m CharRange \<times> nat, 'm) outcome option" where
  "class_loop s cr p = do {
     b \<leftarrow> rd (ps_buf s) p;
     if b = ch CHR '']'' then Some (Done (cr, p) s)
     else do {
       r \<leftarrow> class_item s cr p;
       case r of Fail s \<Rightarrow> Some (Fail s) | Done (cr, p) s \<Rightarrow> class_loop s cr p } }"

declare class_loop.simps [code]

definition re_parse_char_class :: "'m REParseState \<Rightarrow> nat \<Rightarrow> (nat, 'm) outcome option" where
  "re_parse_char_class s p = do {
     b \<leftarrow> rd (ps_buf s) (p + 1);
     let invert = (b = ch CHR ''^'');
     checked (class_loop s (new_range s) (if invert then p + 2 else p + 1)) (\<lambda>(cr, p) s.
       checked (if ps_ignore_case s then on_range s cr cr_canonicalize else Some (Done cr s)) (\<lambda>cr s.
         checked (if invert then on_range s cr cr_invert else Some (Done cr s)) (\<lambda>cr s.
           checked (or_free cr (re_emit_range s cr)) (\<lambda>_ s. Some (Done (p + 1) (free_range s cr)))))) }"

section \<open>Atoms\<close>

text \<open>
  What the first half of \<open>re_parse_term\<close> leaves: the start of the atom for a quantifier (\<^term>\<open>None\<close> for -1), the
  number of groups before it and the position in the text.
\<close>

type_synonym term_atom = "nat option \<times> nat \<times> nat"

definition emit_prev :: "'m REParseState \<Rightarrow> bool \<Rightarrow> 'm REParseState option" where
  "emit_prev s is_backward_dir = (if is_backward_dir then re_emit_op s REOP_prev else Some s)"

definition emit_char :: "'m REParseState \<Rightarrow> u32 \<Rightarrow> 'm REParseState option" where
  "emit_char s c = do {
     c \<leftarrow> (if ps_ignore_case s then lre_canonicalize c (ps_is_utf16 s) else Some c);
     if c \<le> 0xffff then re_emit_op_u16 s REOP_char c
     else do { (_, s) \<leftarrow> re_emit_op_u32 s REOP_char32 (uint c); Some s } }"

text \<open>The label \<open>normal_char\<close> of \<open>re_parse_term\<close>.\<close>

definition term_char :: "'m REParseState \<Rightarrow> bool \<Rightarrow> u32 \<Rightarrow> 'm CharRange option \<Rightarrow> nat \<Rightarrow> (term_atom, 'm) outcome option" where
  "term_char s is_backward_dir c cr p = do {
     let last_atom_start = code_size s;
     let last_capture_count = ps_capture_count s;
     s \<leftarrow> emit_prev s is_backward_dir;
     checked (if c \<ge> CLASS_RANGE_BASE then do {
         cr \<leftarrow> cr;
         r \<leftarrow> re_emit_range s cr;
         Some (case r of Fail s \<Rightarrow> Fail (free_range s cr) | Done _ s \<Rightarrow> Done () (free_range s cr)) }
       else do { s \<leftarrow> emit_char s c; Some (Done () s) })
       (\<lambda>_ s. do {
         s \<leftarrow> emit_prev s is_backward_dir;
         Some (Done (Some last_atom_start, last_capture_count, p) s) }) }"

definition term_class_atom :: "'m REParseState \<Rightarrow> bool \<Rightarrow> nat \<Rightarrow> (term_atom, 'm) outcome option" where
  "term_class_atom s is_backward_dir p = checked (get_class_atom s p False) (\<lambda>(c, cr, p) s. term_char s is_backward_dir c cr p)"

definition emit_back_reference :: "'m REParseState \<Rightarrow> bool \<Rightarrow> int \<Rightarrow> nat \<Rightarrow> (term_atom, 'm) outcome option" where
  "emit_back_reference s is_backward_dir c p = do {
     let last_atom_start = code_size s;
     s' \<leftarrow> re_emit_op_u8 s (if is_backward_dir then REOP_backward_back_reference else REOP_back_reference) (nat c);
     Some (Done (Some last_atom_start, ps_capture_count s, p) s') }"

text \<open>\<open>s->is_utf16 || re_has_named_captures(s)\<close>: an error, or the rules of Annex B.\<close>

definition strict_or_atom :: "'m REParseState \<Rightarrow> bool \<Rightarrow> nat \<Rightarrow> string \<Rightarrow> (term_atom, 'm) outcome option" where
  "strict_or_atom s is_backward_dir p msg = do {
     (named, s) \<leftarrow> (if ps_is_utf16 s then Some (True, s) else re_has_named_captures s);
     if named then re_parse_error s msg else term_class_atom s is_backward_dir p }"

definition named_reference :: "'m REParseState \<Rightarrow> bool \<Rightarrow> nat \<Rightarrow> (term_atom, 'm) outcome option" where
  "named_reference s is_backward_dir p = do {
     b \<leftarrow> rd (ps_buf s) (p + 2);
     if b \<noteq> ch CHR ''<'' then strict_or_atom s is_backward_dir p ''expecting group name''
     else do {
       (r, p1, name) \<leftarrow> re_parse_group_name TMP_BUF_SIZE (ps_buf s) (p + 3) (ps_is_utf16 s);
       let s = s\<lparr>ps_u := name\<rparr>;
       if r \<noteq> 0 then strict_or_atom s is_backward_dir p ''invalid group name''
       else do {
         c \<leftarrow> find_group_name s name;
         c \<leftarrow> (if c < 0 then map_option fst (re_parse_captures s (Some name)) else Some c);
         if c < 0 then strict_or_atom s is_backward_dir p ''group name not defined''
         else emit_back_reference s is_backward_dir c p1 } } }"

definition is_octal :: "u8 \<Rightarrow> bool" where
  "is_octal b \<longleftrightarrow> b \<ge> ch CHR ''0'' \<and> b \<le> ch CHR ''7''"

definition octal_value :: "u8 \<Rightarrow> u32" where
  "octal_value b = ucast b - ucast (ch CHR ''0'')"

text \<open>\<open>c = (c << 3) + *p++ - '0'\<close> if a further octal digit follows.\<close>

definition octal_step :: "u8 list \<Rightarrow> u32 \<times> nat \<Rightarrow> ((u32 \<times> nat) \<times> bool) option" where
  "octal_step text = (\<lambda>(c, p). do {
     b \<leftarrow> rd text p;
     Some (if is_octal b then ((push_bit 3 c + octal_value b, p + 1), True) else ((c, p), False)) })"

definition nul_escape :: "'m REParseState \<Rightarrow> bool \<Rightarrow> nat \<Rightarrow> (term_atom, 'm) outcome option" where
  "nul_escape s is_backward_dir p = do {
     b \<leftarrow> rd (ps_buf s) p;
     if ps_is_utf16 s then
       if is_digit b then re_parse_error s ''invalid decimal escape in regular expression''
       else term_char s is_backward_dir 0 None p
     else if is_octal b then do {
       (cp, _) \<leftarrow> octal_step (ps_buf s) (octal_value b, p + 1);
       term_char s is_backward_dir (fst cp) None (snd cp) }
     else term_char s is_backward_dir 0 None p }"

definition legacy_octal :: "u8 list \<Rightarrow> nat \<Rightarrow> (u32 \<times> nat) option" where
  "legacy_octal text p = do {
     b \<leftarrow> rd text p;
     if b \<le> ch CHR ''7'' then do {
       let cp = (if b \<le> ch CHR ''3'' then (octal_value b, p + 1) else (0, p));
       (cp, more) \<leftarrow> octal_step text cp;
       if more then map_option fst (octal_step text cp) else Some cp }
     else Some (ucast b, p + 1) }"

definition numbered_reference :: "'m REParseState \<Rightarrow> bool \<Rightarrow> nat \<Rightarrow> (term_atom, 'm) outcome option" where
  "numbered_reference s is_backward_dir q = do {
     (c, p) \<leftarrow> parse_digits (ps_buf s) q False;
     (bad, s) \<leftarrow> (if c < 0 then Some (True, s)
        else if c \<ge> int (ps_capture_count s) then do { (n, s) \<leftarrow> re_count_captures s; Some (c \<ge> n, s) }
        else Some (False, s));
     if bad then
       if \<not> ps_is_utf16 s then do { (c, p) \<leftarrow> legacy_octal (ps_buf s) q; term_char s is_backward_dir c None p }
       else re_parse_error s ''back reference out of range in reguar expression''
     else emit_back_reference s is_backward_dir c p }"

definition term_escape :: "'m REParseState \<Rightarrow> bool \<Rightarrow> nat \<Rightarrow> (term_atom, 'm) outcome option" where
  "term_escape s is_backward_dir p = do {
     c \<leftarrow> rd (ps_buf s) (p + 1);
     if c = ch CHR ''b'' \<or> c = ch CHR ''B'' then do {
       s \<leftarrow> re_emit_op s (if c \<noteq> ch CHR ''b'' then REOP_not_word_boundary else REOP_word_boundary);
       Some (Done (None, 0, p + 2) s) }
     else if c = ch CHR ''k'' then named_reference s is_backward_dir p
     else if c = ch CHR ''0'' then nul_escape s is_backward_dir (p + 2)
     else if c \<ge> ch CHR ''1'' \<and> c \<le> ch CHR ''9'' then numbered_reference s is_backward_dir (p + 1)
     else term_class_atom s is_backward_dir p }"

text \<open>\<open>{\<close> at the start of a term: an error if it looks like a repetition count.\<close>

definition term_brace :: "'m REParseState \<Rightarrow> bool \<Rightarrow> nat \<Rightarrow> (term_atom, 'm) outcome option" where
  "term_brace s is_backward_dir p =
     (if ps_is_utf16 s then re_parse_error s ''syntax error''
      else do {
        b \<leftarrow> rd (ps_buf s) (p + 1);
        if \<not> is_digit b then term_class_atom s is_backward_dir p
        else do {
          (_, p1) \<leftarrow> parse_digits (ps_buf s) (p + 1) True;
          b \<leftarrow> rd (ps_buf s) p1;
          p1 \<leftarrow> (if b = ch CHR '','' then do {
                  b \<leftarrow> rd (ps_buf s) (p1 + 1);
                  if is_digit b then map_option snd (parse_digits (ps_buf s) (p1 + 1) True) else Some (p1 + 1) }
                else Some p1);
          b \<leftarrow> rd (ps_buf s) p1;
          if b \<noteq> ch CHR ''}'' then term_class_atom s is_backward_dir p else re_parse_error s ''nothing to repeat'' } })"

definition re_parse_atom :: "'m REParseState \<Rightarrow> bool \<Rightarrow> (term_atom, 'm) outcome option" where
  "re_parse_atom s is_backward_dir = do {
     let p = ps_buf_ptr s;
     c \<leftarrow> rd (ps_buf s) p;
     if c = ch CHR ''^'' then do { s \<leftarrow> re_emit_op s REOP_line_start; Some (Done (None, 0, p + 1) s) }
     else if c = ch CHR ''$'' then do { s \<leftarrow> re_emit_op s REOP_line_end; Some (Done (None, 0, p + 1) s) }
     else if c = ch CHR ''.'' then do {
       s1 \<leftarrow> emit_prev s is_backward_dir;
       s1 \<leftarrow> re_emit_op s1 (if ps_dotall s then REOP_any else REOP_dot);
       s1 \<leftarrow> emit_prev s1 is_backward_dir;
       Some (Done (Some (code_size s), ps_capture_count s, p + 1) s1) }
     else if c = ch CHR ''{'' then term_brace s is_backward_dir p
     else if c = ch CHR ''*'' \<or> c = ch CHR ''+'' \<or> c = ch CHR ''?'' then re_parse_error s ''nothing to repeat''
     else if c = ch CHR 0x5c then term_escape s is_backward_dir p
     else if c = ch CHR ''['' then do {
       s1 \<leftarrow> emit_prev s is_backward_dir;
       checked (re_parse_char_class s1 p) (\<lambda>p s1. do {
         s1 \<leftarrow> emit_prev s1 is_backward_dir;
         Some (Done (Some (code_size s), ps_capture_count s, p) s1) }) }
     else if (c = ch CHR '']'' \<or> c = ch CHR ''}'') \<and> ps_is_utf16 s then re_parse_error s ''syntax error''
     else term_class_atom s is_backward_dir p }"

section \<open>Groups\<close>

text \<open>
  The code of \<open>re_parse_term\<close> before and after the disjunction in parentheses. The kind of the group says what
  follows: nothing, the end of a lookahead whose displacement is at a position, or the end of a capture.
\<close>

datatype group_kind = Plain | Lookahead nat | Capture nat

definition parse_capture :: "'m REParseState \<Rightarrow> bool \<Rightarrow> nat \<Rightarrow> (group_kind \<times> bool \<times> term_atom, 'm) outcome option" where
  "parse_capture s is_backward_dir p =
     (if ps_capture_count s \<ge> CAPTURE_COUNT_MAX then re_parse_error s ''too many captures''
      else do {
        let capture_index = ps_capture_count s;
        s1 \<leftarrow> re_emit_op_u8 (s\<lparr>ps_capture_count := capture_index + 1\<rparr>) (if is_backward_dir then REOP_save_end else REOP_save_start) capture_index;
        Some (Done (Capture capture_index, is_backward_dir, Some (code_size s), capture_index, p) s1) })"

definition parse_lookahead :: "'m REParseState \<Rightarrow> bool \<Rightarrow> bool \<Rightarrow> nat \<Rightarrow> (group_kind \<times> bool \<times> term_atom, 'm) outcome option" where
  "parse_lookahead s is_neg is_backward_lookahead p = do {
     let start = (if \<not> ps_is_utf16 s \<and> \<not> is_backward_lookahead then (Some (code_size s), ps_capture_count s) else (None, 0));
     (pos, s) \<leftarrow> re_emit_op_u32 s (if is_neg then REOP_negative_lookahead else REOP_lookahead) 0;
     Some (Done (Lookahead pos, is_backward_lookahead, fst start, snd start, p) s) }"

definition group_head :: "'m REParseState \<Rightarrow> bool \<Rightarrow> (group_kind \<times> bool \<times> term_atom, 'm) outcome option" where
  "group_head s is_backward_dir = do {
     let p = ps_buf_ptr s;
     b1 \<leftarrow> rd (ps_buf s) (p + 1);
     if b1 \<noteq> ch CHR ''?'' then do { s \<leftarrow> put_name_bytes s [0]; parse_capture s is_backward_dir (p + 1) }
     else do {
       b2 \<leftarrow> rd (ps_buf s) (p + 2);
       if b2 = ch CHR '':'' then Some (Done (Plain, is_backward_dir, Some (code_size s), ps_capture_count s, p + 3) s)
       else if b2 = ch CHR ''='' \<or> b2 = ch CHR ''!'' then parse_lookahead s (b2 = ch CHR ''!'') False (p + 3)
       else if b2 = ch CHR ''<'' then do {
         b3 \<leftarrow> rd (ps_buf s) (p + 3);
         if b3 = ch CHR ''='' \<or> b3 = ch CHR ''!'' then parse_lookahead s (b3 = ch CHR ''!'') True (p + 4)
         else do {
           (r, p1, name) \<leftarrow> re_parse_group_name TMP_BUF_SIZE (ps_buf s) (p + 3) (ps_is_utf16 s);
           let s = s\<lparr>ps_u := name\<rparr>;
           if r \<noteq> 0 then re_parse_error s ''invalid group name''
           else do {
             n \<leftarrow> find_group_name s name;
             if n > 0 then re_parse_error s ''duplicate group name''
             else do {
               s \<leftarrow> put_name_bytes s (name @ [0]);
               parse_capture (s\<lparr>ps_has_named_captures := 1\<rparr>) is_backward_dir p1 } } } }
       else re_parse_error s ''invalid group'' } }"

definition group_tail :: "'m REParseState \<Rightarrow> group_kind \<Rightarrow> bool \<Rightarrow> (nat, 'm) outcome option" where
  "group_tail s kind is_backward_dir =
     (case kind of
        Plain \<Rightarrow> re_parse_expect s (ps_buf_ptr s) CHR '')''
      | Lookahead pos \<Rightarrow>
          checked (re_parse_expect s (ps_buf_ptr s) CHR '')'') (\<lambda>p s. do {
            s \<leftarrow> re_emit_op s REOP_match;
            s \<leftarrow> patch_u32 s pos (int (code_size s) - int (pos + 4));
            Some (Done p s) })
      | Capture capture_index \<Rightarrow> do {
          s \<leftarrow> re_emit_op_u8 s (if is_backward_dir then REOP_save_start else REOP_save_end) capture_index;
          re_parse_expect s (ps_buf_ptr s) CHR '')'' })"

section \<open>Quantifiers\<close>

text \<open>The repetition counts after an atom; \<^term>\<open>None\<close> when there is no quantifier.\<close>

definition repetition_count :: "'m REParseState \<Rightarrow> nat \<Rightarrow> ((int \<times> int \<times> nat) option, 'm) outcome option" where
  "repetition_count s p = do {
     let text = ps_buf s;
     b \<leftarrow> rd text (p + 1);
     if \<not> is_digit b then
       if ps_is_utf16 s then re_parse_error s ''invalid repetition count'' else Some (Done None s)
     else do {
       (quant_min, p1) \<leftarrow> parse_digits text (p + 1) True;
       b \<leftarrow> rd text p1;
       b2 \<leftarrow> (if b = ch CHR '','' then rd text (p1 + 1) else Some 0);
       (quant_max, p1) \<leftarrow> (if b \<noteq> ch CHR '','' then Some (quant_min, p1)
          else if is_digit b2 then parse_digits text (p1 + 1) True
          else Some (uint INT32_MAX, p1 + 1));
       if quant_max < quant_min then re_parse_error s ''invalid repetition count''
       else do {
         b \<leftarrow> rd text p1;
         if b \<noteq> ch CHR ''}'' \<and> \<not> ps_is_utf16 s then Some (Done None s)
         else checked (re_parse_expect s p1 CHR ''}'') (\<lambda>p1 s. Some (Done (Some (quant_min, quant_max, p1)) s)) } } }"

definition quantifier_spec :: "'m REParseState \<Rightarrow> nat \<Rightarrow> ((int \<times> int \<times> nat) option, 'm) outcome option" where
  "quantifier_spec s p = do {
     c \<leftarrow> rd (ps_buf s) p;
     if c = ch CHR ''*'' then Some (Done (Some (0, uint INT32_MAX, p + 1)) s)
     else if c = ch CHR ''+'' then Some (Done (Some (1, uint INT32_MAX, p + 1)) s)
     else if c = ch CHR ''?'' then Some (Done (Some (0, 1, p + 1)) s)
     else if c = ch CHR ''{'' then repetition_count s p
     else Some (Done None s) }"

definition atom_code :: "'m REParseState \<Rightarrow> nat \<Rightarrow> u8 list option" where
  "atom_code s last_atom_start = slice (mem (ps_byte_code s)) last_atom_start (code_size s - last_atom_start)"

text \<open>The optimization for simple quantifiers, for an atom of \<open>len\<close> characters.\<close>

definition emit_simple_quant :: "'m REParseState \<Rightarrow> nat \<Rightarrow> int \<Rightarrow> int \<Rightarrow> int \<Rightarrow> 'm REParseState option" where
  "emit_simple_quant s last_atom_start quant_min quant_max len = do {
     s \<leftarrow> re_emit_op s REOP_match;
     s \<leftarrow> insert_code s last_atom_start 17;
     s \<leftarrow> patch_op s last_atom_start REOP_simple_greedy_quant;
     s \<leftarrow> patch_u32 s (last_atom_start + 1) (int (code_size s) - int last_atom_start - 17);
     s \<leftarrow> patch_u32 s (last_atom_start + 5) quant_min;
     s \<leftarrow> patch_u32 s (last_atom_start + 9) quant_max;
     patch_u32 s (last_atom_start + 13) len }"

definition split_op :: "bool \<Rightarrow> REOPCodeEnum" where
  "split_op greedy = (if greedy then REOP_split_next_first else REOP_split_goto_first)"

text \<open>The captures of an atom that may be skipped are reset: the code and the new start of the atom.\<close>

definition emit_save_reset :: "'m REParseState \<Rightarrow> nat \<Rightarrow> nat \<Rightarrow> ('m REParseState \<times> nat) option" where
  "emit_save_reset s last_atom_start last_capture_count =
     (if last_capture_count \<noteq> ps_capture_count s then do {
        s \<leftarrow> insert_code s last_atom_start 3;
        s \<leftarrow> patch_op s last_atom_start REOP_save_reset;
        s \<leftarrow> patch s (last_atom_start + 1) [word_of_nat last_capture_count];
        s \<leftarrow> patch s (last_atom_start + 2) [word_of_nat (ps_capture_count s - 1)];
        Some (s, last_atom_start + 3) }
      else Some (s, last_atom_start))"

definition set_size :: "'m REParseState \<Rightarrow> nat \<Rightarrow> 'm REParseState" where
  "set_size s n = s\<lparr>ps_byte_code := (ps_byte_code s)\<lparr>dsize := word_of_nat n\<rparr>\<rparr>"

text \<open>Between zero and \<open>quant_max\<close> repetitions of the atom of \<open>len\<close> bytes; \<open>z\<close>: with the test for an empty match.\<close>

definition emit_from_zero :: "'m REParseState \<Rightarrow> nat \<Rightarrow> nat \<Rightarrow> int \<Rightarrow> bool \<Rightarrow> bool \<Rightarrow> 'm REParseState option" where
  "emit_from_zero s last_atom_start len quant_max greedy z =
     (if quant_max = 0 then Some (set_size s last_atom_start)
      else if quant_max = 1 then do {
        s \<leftarrow> insert_code s last_atom_start 5;
        s \<leftarrow> patch_op s last_atom_start (split_op greedy);
        patch_u32 s (last_atom_start + 1) (int len) }
      else if quant_max = uint INT32_MAX then do {
        s \<leftarrow> insert_code s last_atom_start (5 + of_bool z);
        s \<leftarrow> patch_op s last_atom_start (split_op greedy);
        s \<leftarrow> patch_u32 s (last_atom_start + 1) (int len + 5 + of_bool z);
        if z then do {
          s \<leftarrow> patch_op s (last_atom_start + 5) REOP_push_char_pos;
          (_, s) \<leftarrow> re_emit_goto s REOP_bne_char_pos last_atom_start;
          Some s }
        else map_option snd (re_emit_goto s REOP_goto last_atom_start) }
      else do {
        s \<leftarrow> insert_code s last_atom_start 10;
        s \<leftarrow> patch_op s last_atom_start REOP_push_i32;
        s \<leftarrow> patch_u32 s (last_atom_start + 1) quant_max;
        s \<leftarrow> patch_op s (last_atom_start + 5) (split_op greedy);
        s \<leftarrow> patch_u32 s (last_atom_start + 6) (int len + 5);
        (_, s) \<leftarrow> re_emit_goto s REOP_loop (last_atom_start + 5);
        re_emit_op s REOP_drop })"

text \<open>The repetitions beyond \<open>quant_min\<close>, with a copy of the atom.\<close>

definition emit_more :: "'m REParseState \<Rightarrow> nat \<Rightarrow> nat \<Rightarrow> int \<Rightarrow> int \<Rightarrow> bool \<Rightarrow> bool \<Rightarrow> 'm REParseState option" where
  "emit_more s last_atom_start len quant_min quant_max greedy z =
     (if quant_max = uint INT32_MAX then do {
        let pos = code_size s;
        (_, s) \<leftarrow> re_emit_op_u32 s (split_op greedy) (int len + 5 + of_bool z);
        s \<leftarrow> (if z then re_emit_op s REOP_push_char_pos else Some s);
        s \<leftarrow> copy_code s last_atom_start len;
        map_option snd (re_emit_goto s (if z then REOP_bne_char_pos else REOP_goto) pos) }
      else if quant_max > quant_min then do {
        (_, s) \<leftarrow> re_emit_op_u32 s REOP_push_i32 (quant_max - quant_min);
        let pos = code_size s;
        (_, s) \<leftarrow> re_emit_op_u32 s (split_op greedy) (int len + 5);
        s \<leftarrow> copy_code s last_atom_start len;
        (_, s) \<leftarrow> re_emit_goto s REOP_loop pos;
        re_emit_op s REOP_drop }
      else Some s)"

definition emit_at_least :: "'m REParseState \<Rightarrow> nat \<Rightarrow> nat \<Rightarrow> int \<Rightarrow> int \<Rightarrow> bool \<Rightarrow> bool \<Rightarrow> 'm REParseState option" where
  "emit_at_least s last_atom_start len quant_min quant_max greedy z = do {
     (s, last_atom_start) \<leftarrow> (if quant_min = 1 then Some (s, last_atom_start)
       else do {
         s \<leftarrow> insert_code s last_atom_start 5;
         s \<leftarrow> patch_op s last_atom_start REOP_push_i32;
         s \<leftarrow> patch_u32 s (last_atom_start + 1) quant_min;
         (_, s) \<leftarrow> re_emit_goto s REOP_loop (last_atom_start + 5);
         s \<leftarrow> re_emit_op s REOP_drop;
         Some (s, last_atom_start + 5) });
     emit_more s last_atom_start len quant_min quant_max greedy z }"

definition emit_quantifier :: "'m REParseState \<Rightarrow> nat \<Rightarrow> nat \<Rightarrow> int \<Rightarrow> int \<Rightarrow> bool \<Rightarrow> 'm REParseState option" where
  "emit_quantifier s last_atom_start last_capture_count quant_min quant_max greedy = do {
     code \<leftarrow> atom_code s last_atom_start;
     simple \<leftarrow> (if greedy \<and> quant_max > 0 then re_is_simple_quantifier code else Some (-1));
     if simple > 0 then emit_simple_quant s last_atom_start quant_min quant_max simple
     else do {
       z \<leftarrow> (if greedy then map_option (\<lambda>r. r = 0) (re_check_advance code) else Some False);
       let len = code_size s - last_atom_start;
       if quant_min = 0 then do {
         (s, last_atom_start) \<leftarrow> emit_save_reset s last_atom_start last_capture_count;
         emit_from_zero s last_atom_start len quant_max greedy z }
       else if quant_min = 1 \<and> quant_max = uint INT32_MAX \<and> \<not> z then
         map_option snd (re_emit_goto s (if greedy then REOP_split_goto_first else REOP_split_next_first) last_atom_start)
       else emit_at_least s last_atom_start len quant_min quant_max greedy z } }"

definition re_parse_quantifier :: "'m REParseState \<Rightarrow> term_atom \<Rightarrow> (nat, 'm) outcome option" where
  "re_parse_quantifier s atom =
     (case atom of
        (None, _, p) \<Rightarrow> Some (Done p s)
      | (Some last_atom_start, last_capture_count, p) \<Rightarrow>
          checked (quantifier_spec s p) (\<lambda>q s.
            case q of None \<Rightarrow> Some (Done p s)
            | Some (quant_min, quant_max, p) \<Rightarrow> do {
                b \<leftarrow> rd (ps_buf s) p;
                let greedy = (b \<noteq> ch CHR ''?'');
                s \<leftarrow> emit_quantifier s last_atom_start last_capture_count quant_min quant_max greedy;
                Some (Done (if greedy then p else p + 1) s) }))"

section \<open>Terms, alternatives, disjunctions\<close>

text \<open>In the backward direction a new term is moved before the terms from \<open>start\<close> on.\<close>

definition move_term :: "'m REParseState \<Rightarrow> nat \<Rightarrow> nat \<Rightarrow> (unit, 'm) outcome option" where
  "move_term s start term_start = do {
     let end_pos = code_size s;
     let term_size = end_pos - term_start;
     (r, d) \<leftarrow> dbuf_realloc ((ps_byte_code s)\<lparr>opaque := ps_mem s\<rparr>) (word_of_nat (end_pos + term_size));
     let s = s\<lparr>ps_byte_code := d, ps_mem := opaque d\<rparr>;
     if r \<noteq> 0 then Some (Fail s)
     else do {
       data \<leftarrow> slice (mem (ps_byte_code s)) start (end_pos - start);
       s \<leftarrow> patch s (start + term_size) data;
       data \<leftarrow> slice (mem (ps_byte_code s)) end_pos term_size;
       s \<leftarrow> patch s start data;
       Some (Done () s) } }"

fun re_parse_disjunction :: "nat \<Rightarrow> 'm REParseState \<Rightarrow> bool \<Rightarrow> (unit, 'm) outcome option"
  and disjunction_loop :: "nat \<Rightarrow> 'm REParseState \<Rightarrow> bool \<Rightarrow> nat \<Rightarrow> (unit, 'm) outcome option"
  and re_parse_alternative :: "nat \<Rightarrow> 'm REParseState \<Rightarrow> bool \<Rightarrow> nat \<Rightarrow> (unit, 'm) outcome option"
  and re_parse_term :: "nat \<Rightarrow> 'm REParseState \<Rightarrow> bool \<Rightarrow> (unit, 'm) outcome option"
where
  "re_parse_disjunction 0 s is_backward_dir = None"
| "re_parse_disjunction (Suc n) s is_backward_dir =
     checked (re_parse_alternative n s is_backward_dir (code_size s)) (\<lambda>_ s'. disjunction_loop n s' is_backward_dir (code_size s))"
| "disjunction_loop 0 s is_backward_dir start = None"
| "disjunction_loop (Suc n) s is_backward_dir start = do {
     b \<leftarrow> rd (ps_buf s) (ps_buf_ptr s);
     if b \<noteq> ch CHR ''|'' then Some (Done () s)
     else do {
       let len = code_size s - start;
       s \<leftarrow> insert_code (s\<lparr>ps_buf_ptr := ps_buf_ptr s + 1\<rparr>) start 5;
       s \<leftarrow> patch_op s start REOP_split_next_first;
       s \<leftarrow> patch_u32 s (start + 1) (int len + 5);
       (pos, s) \<leftarrow> re_emit_op_u32 s REOP_goto 0;
       checked (re_parse_alternative n s is_backward_dir (code_size s)) (\<lambda>_ s. do {
         s \<leftarrow> patch_u32 s pos (int (code_size s) - int (pos + 4));
         disjunction_loop n s is_backward_dir start }) } }"
| "re_parse_alternative 0 s is_backward_dir start = None"
| "re_parse_alternative (Suc n) s is_backward_dir start =
     (if ps_buf_ptr s \<ge> buf_end s then Some (Done () s)
      else do {
        b \<leftarrow> rd (ps_buf s) (ps_buf_ptr s);
        if b = ch CHR ''|'' \<or> b = ch CHR '')'' then Some (Done () s)
        else checked (re_parse_term n s is_backward_dir) (\<lambda>_ s'.
          checked (if is_backward_dir then move_term s' start (code_size s) else Some (Done () s')) (\<lambda>_ s'.
            re_parse_alternative n s' is_backward_dir start)) })"
| "re_parse_term 0 s is_backward_dir = None"
| "re_parse_term (Suc n) s is_backward_dir = do {
     c \<leftarrow> rd (ps_buf s) (ps_buf_ptr s);
     checked (if c = ch CHR ''('' then
         checked (group_head s is_backward_dir) (\<lambda>(kind, dir, last_atom_start, last_capture_count, p) s.
           checked (re_parse_disjunction n (s\<lparr>ps_buf_ptr := p\<rparr>) dir) (\<lambda>_ s.
             checked (group_tail s kind is_backward_dir) (\<lambda>p s. Some (Done (last_atom_start, last_capture_count, p) s))))
       else re_parse_atom s is_backward_dir) (\<lambda>atom s.
         checked (re_parse_quantifier s atom) (\<lambda>p s. Some (Done () (s\<lparr>ps_buf_ptr := p\<rparr>)))) }"

section \<open>The compiler\<close>

definition LRE_FLAG_DOTALL :: u8 where "LRE_FLAG_DOTALL = push_bit 3 1"
definition LRE_FLAG_STICKY :: u8 where "LRE_FLAG_STICKY = push_bit 5 1"
definition LRE_FLAG_NAMED_GROUPS :: u8 where "LRE_FLAG_NAMED_GROUPS = push_bit 7 1"

datatype compiled = Compiled "u8 list" | Compile_Error "u8 list"

text \<open>The label \<open>error\<close>: both buffers are freed and the message is copied.\<close>

definition compile_error :: "'m REParseState \<Rightarrow> nat \<Rightarrow> (compiled \<times> 'm) option" where
  "compile_error s error_msg_size = do {
     d \<leftarrow> dbuf_free ((ps_byte_code s)\<lparr>opaque := ps_mem s\<rparr>);
     g \<leftarrow> dbuf_free ((ps_group_names s)\<lparr>opaque := opaque d\<rparr>);
     Some (Compile_Error (take (error_msg_size - 1) (ps_u s)), opaque g) }"

definition parse_state :: "'m realloc_func \<Rightarrow> 'm cr_alloc \<Rightarrow> 'm \<Rightarrow> u8 list \<Rightarrow> u8 \<Rightarrow> 'm REParseState" where
  "parse_state lre_realloc cr_alloc m text re_flags =
     \<lparr>ps_byte_code = dbuf_init2 lre_realloc m (Some lre_realloc), ps_buf = text, ps_buf_ptr = 0,
      ps_is_utf16 = (re_flags AND LRE_FLAG_UTF16 \<noteq> 0), ps_ignore_case = (re_flags AND LRE_FLAG_IGNORECASE \<noteq> 0),
      ps_dotall = (re_flags AND LRE_FLAG_DOTALL \<noteq> 0), ps_capture_count = 1, ps_total_capture_count = -1,
      ps_has_named_captures = -1, ps_mem = m, ps_alloc = cr_alloc,
      ps_group_names = dbuf_init2 lre_realloc m (Some lre_realloc), ps_u = []\<rparr>"

definition emit_prologue :: "'m REParseState \<Rightarrow> u8 \<Rightarrow> 'm REParseState option" where
  "emit_prologue s re_flags = do {
     s \<leftarrow> put_code s [re_flags];
     s \<leftarrow> put_code s [0];
     s \<leftarrow> put_code s [0];
     s \<leftarrow> put_code s (to_bytes 4 (0 :: u32));
     s \<leftarrow> (if re_flags AND LRE_FLAG_STICKY = 0 then do {
            (_, s) \<leftarrow> re_emit_op_u32 s REOP_split_goto_first (1 + 5);
            s \<leftarrow> re_emit_op s REOP_any;
            map_option snd (re_emit_op_u32 s REOP_goto (- (5 + 1 + 5))) }
          else Some s);
     re_emit_op_u8 s REOP_save_start 0 }"

text \<open>The header is completed, and the names of groups are appended if there are any.\<close>

definition finish_code :: "'m REParseState \<Rightarrow> nat \<Rightarrow> (compiled \<times> 'm) option" where
  "finish_code s stack_size = do {
     s \<leftarrow> patch s RE_HEADER_CAPTURE_COUNT [word_of_nat (ps_capture_count s)];
     s \<leftarrow> patch s RE_HEADER_STACK_SIZE [word_of_nat stack_size];
     s \<leftarrow> patch_u32 s 3 (int (code_size s) - int RE_HEADER_LEN);
     s \<leftarrow> (if unat (dsize (ps_group_names s)) > ps_capture_count s - 1 then do {
            names \<leftarrow> slice (mem (ps_group_names s)) 0 (unat (dsize (ps_group_names s)));
            s \<leftarrow> put_code s names;
            flags \<leftarrow> rd (mem (ps_byte_code s)) RE_HEADER_FLAGS;
            patch s RE_HEADER_FLAGS [flags OR LRE_FLAG_NAMED_GROUPS] }
          else Some s);
     g \<leftarrow> dbuf_free ((ps_group_names s)\<lparr>opaque := ps_mem s\<rparr>);
     code \<leftarrow> slice (mem (ps_byte_code s)) 0 (code_size s);
     Some (Compiled code, opaque g) }"

definition lre_compile :: "'m realloc_func \<Rightarrow> 'm cr_alloc \<Rightarrow> 'm \<Rightarrow> nat \<Rightarrow> u8 list \<Rightarrow> u8 \<Rightarrow> (compiled \<times> 'm) option" where
  "lre_compile lre_realloc cr_alloc m error_msg_size text re_flags = do {
     s \<leftarrow> emit_prologue (parse_state lre_realloc cr_alloc m text re_flags) re_flags;
     r \<leftarrow> re_parse_disjunction (4 * length text + 4) s False;
     case r of Fail s \<Rightarrow> compile_error s error_msg_size
     | Done _ s \<Rightarrow> do {
         s \<leftarrow> re_emit_op_u8 s REOP_save_end 0;
         s \<leftarrow> re_emit_op s REOP_match;
         b \<leftarrow> rd (ps_buf s) (ps_buf_ptr s);
         if b \<noteq> 0 then compile_error (s\<lparr>ps_u := map ch ''extraneous characters at the end''\<rparr>) error_msg_size
         else if dbuf_error (ps_byte_code s) then compile_error (s\<lparr>ps_u := map ch ''out of memory''\<rparr>) error_msg_size
         else do {
           code \<leftarrow> slice (mem (ps_byte_code s)) 0 (code_size s);
           stack_size \<leftarrow> re_compute_stack_size code;
           if stack_size < 0 then compile_error (s\<lparr>ps_u := map ch ''too many imbricated quantifiers''\<rparr>) error_msg_size
           else finish_code s (nat stack_size) } } }"

end
