(* ===== verification/Regexp_Text.thy ===== *)
theory Regexp_Text
  imports Regexp_Exec
begin

unbundle bit_operations_syntax

text \<open>
  How the interpreter of regular expressions reads the text and its character classes: reading a character
  forwards and stepping back over one agree on the number of characters, also in UTF-16 texts and from
  positions between the halves of a surrogate pair; the binary search in the ranges of a class ends, stays
  inside the ranges and finds a character exactly when a range contains it.
\<close>

section \<open>Stepping through the text\<close>

definition text_ok :: "REExecContext \<Rightarrow> bool" where
  "text_ok s \<longleftrightarrow> length (rx_cbuf s) < 2 ^ 32 \<and> (\<forall>u \<in> set (rx_cbuf s). u < 0x10000)"

definition prev_pos :: "REExecContext \<Rightarrow> nat \<Rightarrow> nat" where
  "prev_pos s p = (if rx_type s = 2 \<and> 2 \<le> p \<and> lo_surrogate (rx_cbuf s ! (p - 1)) \<and> hi_surrogate (rx_cbuf s ! (p - 2))
     then p - 2 else p - 1)"

lemma PREV_CHAR_ok: "0 < p \<Longrightarrow> p \<le> length (rx_cbuf s) \<Longrightarrow> PREV_CHAR s p 0 = Some (prev_pos s p)"
  by (auto simp: PREV_CHAR_def prev_pos_def unit_before_def rd_def numeral_2_eq_2)

text \<open>The number of characters before a position, counted backwards.\<close>

function nback :: "REExecContext \<Rightarrow> nat \<Rightarrow> nat" where
  "nback s p = (if p = 0 then 0 else Suc (nback s (prev_pos s p)))"
  by pat_completeness auto
termination by (relation "measure snd") (auto simp: prev_pos_def)

declare nback.simps [simp del]

lemma nback_0 [simp]: "nback s 0 = 0"
  by (simp add: nback.simps)

lemma prev_chars_ok:
  "n \<le> nback s p \<Longrightarrow> p \<le> length (rx_cbuf s) \<Longrightarrow> ok (prev_chars s n p) (\<lambda>q. q \<le> p \<and> nback s q = nback s p - n)"
proof (induction n arbitrary: p)
  case (Suc n)
  then have p: "0 < p" by (cases p) auto
  have le: "prev_pos s p \<le> p" by (simp add: prev_pos_def)
  have nb: "nback s p = Suc (nback s (prev_pos s p))" using p by (simp add: nback.simps [of s p])
  have "ok (prev_chars s n (prev_pos s p)) (\<lambda>q. q \<le> prev_pos s p \<and> nback s q = nback s (prev_pos s p) - n)"
    using Suc.IH [of "prev_pos s p"] Suc.prems nb le by simp
  then show ?case using PREV_CHAR_ok [OF p Suc.prems(2)] nb le by (auto elim!: ok_mono)
qed simp

text \<open>
  A position between the halves of a surrogate pair is a character too many when counted backwards; with
  this correction reading a character forwards adds exactly one.
\<close>

definition inside_pair :: "REExecContext \<Rightarrow> nat \<Rightarrow> bool" where
  "inside_pair s p \<longleftrightarrow> rx_type s = 2 \<and> 0 < p \<and> p < length (rx_cbuf s) \<and> hi_surrogate (rx_cbuf s ! (p - 1)) \<and> lo_surrogate (rx_cbuf s ! p)"

definition chars_before :: "REExecContext \<Rightarrow> nat \<Rightarrow> nat" where
  "chars_before s p = nback s p - (if inside_pair s p then 1 else 0)"

lemma chars_before_le: "chars_before s p \<le> nback s p"
  by (simp add: chars_before_def)

lemma surrogates_disjoint: "hi_surrogate c \<Longrightarrow> \<not> lo_surrogate c"
  by (auto simp: hi_surrogate_def lo_surrogate_def)

lemma nback_le: "nback s p \<le> p"
proof (induction s p rule: nback.induct)
  case (1 s p)
  then show ?case by (cases "p = 0") (auto simp: nback.simps [of s p] prev_pos_def split: if_splits)
qed

lemma GET_CHAR_ok:
  assumes "p < length (rx_cbuf s)"
  shows "ok (GET_CHAR s p (length (rx_cbuf s))) (\<lambda>(c, q). p < q \<and> q \<le> length (rx_cbuf s) \<and> chars_before s q = chars_before s p + 1)"
proof -
  let ?b = "rx_cbuf s"
  show ?thesis
  proof (cases "hi_surrogate (?b ! p) \<and> rx_type s = 2 \<and> p + 1 < length ?b \<and> lo_surrogate (?b ! (p + 1))")
    case True
    have "\<not> inside_pair s p" using True surrogates_disjoint by (auto simp: inside_pair_def)
    moreover have "\<not> inside_pair s (p + 2)" using True surrogates_disjoint by (auto simp: inside_pair_def)
    moreover have "nback s (p + 2) = Suc (nback s p)" using True by (subst nback.simps) (simp add: prev_pos_def)
    ultimately show ?thesis using True assms by (auto simp: GET_CHAR_def chars_before_def)
  next
    case False
    have q: "\<not> inside_pair s (p + 1)" using False by (auto simp: inside_pair_def)
    have nb: "nback s (p + 1) = Suc (nback s (prev_pos s (p + 1)))" by (subst nback.simps) simp
    have "chars_before s (p + 1) = chars_before s p + 1"
    proof (cases "inside_pair s p")
      case True
      then have p: "0 < p" "prev_pos s (p + 1) = p - 1" by (auto simp: inside_pair_def prev_pos_def numeral_2_eq_2)
      have "prev_pos s p = p - 1" using True surrogates_disjoint by (auto simp: inside_pair_def prev_pos_def)
      then have "nback s p = Suc (nback s (p - 1))" using p(1) by (simp add: nback.simps [of s p])
      then show ?thesis using q nb p True by (simp add: chars_before_def)
    next
      case not: False
      then have "prev_pos s (p + 1) = p" using assms by (auto simp: inside_pair_def prev_pos_def numeral_2_eq_2)
      then show ?thesis using q nb not by (simp add: chars_before_def)
    qed
    then show ?thesis using False assms by (auto simp: GET_CHAR_def)
  qed
qed

lemma unit_small: "text_ok s \<Longrightarrow> p < length (rx_cbuf s) \<Longrightarrow> rx_cbuf s ! p < 0x10000"
  by (simp add: text_ok_def)

lemma from_surrogates_small: "unat (from_surrogates c c1) \<le> 0x10ffff"
proof -
  have a: "unat (c AND 0x3ff) < 2 ^ 10" "unat (c1 AND 0x3ff) < 2 ^ 10" for c c1 :: u32
    using nat_and_mask [of "unat c" 10] nat_and_mask [of "unat c1" 10] by (simp_all add: unat_and)
  have p: "unat (push_bit 10 (c AND 0x3ff)) = unat (c AND 0x3ff) * 2 ^ 10"
    using a(1) [of c] by (simp add: push_bit_eq_mult unat_word_ariths)
  have "unat (push_bit 10 (c AND 0x3ff) OR (c1 AND 0x3ff)) = unat (c AND 0x3ff) * 2 ^ 10 + unat (c1 AND 0x3ff)"
    using nat_or_disjoint [of "unat (c1 AND 0x3ff)" 10 "unat (c AND 0x3ff)"] a(2) [of c1] p by (simp add: unat_or)
  then show ?thesis using a(1) [of c] a(2) [of c1] by (simp add: from_surrogates_def unat_word_ariths)
qed

lemma GET_CHAR_small:
  assumes "text_ok s" "GET_CHAR s p e = Some (c, q)"
  shows "unat c \<le> 0x10ffff"
proof -
  have "unat u \<le> 0x10ffff" if "u \<in> set (rx_cbuf s)" for u
    using assms(1) that by (auto simp: text_ok_def word_less_nat_alt)
  then show ?thesis using assms(2) from_surrogates_small
    by (auto simp: GET_CHAR_def rd_def bind_eq_Some_conv split: if_splits)
qed

lemma GET_PREV_CHAR_small:
  assumes "text_ok s" "GET_PREV_CHAR s p e = Some (c, q)"
  shows "unat c \<le> 0x10ffff"
proof -
  have "unat u \<le> 0x10ffff" if "u \<in> set (rx_cbuf s)" for u
    using assms(1) that by (auto simp: text_ok_def word_less_nat_alt)
  then show ?thesis using assms(2) from_surrogates_small
    by (auto simp: GET_PREV_CHAR_def unit_before_def rd_def bind_eq_Some_conv split: if_splits)
qed

lemma canonical_ok: "unat c \<le> 0x10ffff \<Longrightarrow> \<exists>c'. canonical s c = Some c'"
proof -
  assume c: "unat c \<le> 0x10ffff"
  obtain rs rs' where "lre_case_conv c 0 = Some rs" "rs \<noteq> []" "lre_case_conv c 2 = Some rs'" "rs' \<noteq> []"
    using case_conv_ok [OF c, of 0] case_conv_ok [OF c, of 2] by auto
  then show ?thesis by (auto simp: canonical_def lre_canonicalize_def)
qed

text \<open>Reading one character and bringing it to its canonical form, the first half of most instructions.\<close>

definition read_char :: "REExecContext \<Rightarrow> nat \<Rightarrow> (u32 \<times> nat) option" where
  "read_char s p = do { (c, q) \<leftarrow> GET_CHAR s p (length (rx_cbuf s)); c \<leftarrow> canonical s c; Some (c, q) }"

lemma read_char_ok:
  assumes "text_ok s" "p < length (rx_cbuf s)"
  shows "ok (read_char s p) (\<lambda>(c, q). p < q \<and> q \<le> length (rx_cbuf s) \<and> chars_before s q = chars_before s p + 1)"
proof -
  obtain c q where g: "GET_CHAR s p (length (rx_cbuf s)) = Some (c, q)" "p < q \<and> q \<le> length (rx_cbuf s) \<and> chars_before s q = chars_before s p + 1"
    using GET_CHAR_ok [OF assms(2)] by (auto simp: ok_conv)
  obtain c' where "canonical s c = Some c'" using canonical_ok [OF GET_CHAR_small [OF assms(1) g(1)]] by blast
  then show ?thesis using g by (simp add: read_char_def)
qed

lemma PEEK_CHAR_ok: "p < length (rx_cbuf s) \<Longrightarrow> \<exists>c. PEEK_CHAR s p (length (rx_cbuf s)) = Some c"
  by (auto simp: PEEK_CHAR_def)

lemma PEEK_PREV_CHAR_ok: "0 < p \<Longrightarrow> p \<le> length (rx_cbuf s) \<Longrightarrow> \<exists>c. PEEK_PREV_CHAR s p 0 = Some c"
  by (auto simp: PEEK_PREV_CHAR_def unit_before_def)

lemma word_tests_ok:
  assumes "p \<le> length (rx_cbuf s)"
  shows "\<exists>v1 v2. word_before s p = Some v1 \<and> word_after s p = Some v2"
  using PEEK_CHAR_ok [of p s] PEEK_PREV_CHAR_ok [of p s] assms by (auto simp: word_before_def word_after_def)

text \<open>The back references end, stay inside the text and do not move the pointer out of it.\<close>

lemma backref_loop_ok:
  assumes "text_ok s"
  shows "cptr1_end \<le> length (rx_cbuf s) \<Longrightarrow> cptr \<le> length (rx_cbuf s) \<Longrightarrow>
    ok (backref_loop s cptr1 cptr1_end cptr) (\<lambda>r. \<forall>q. r = Some q \<longrightarrow> q \<le> length (rx_cbuf s))"
proof (induction "cptr1_end - cptr1" arbitrary: cptr1 cptr rule: less_induct)
  case less
  show ?case
  proof (cases "cptr1 < cptr1_end \<and> cptr < length (rx_cbuf s)")
    case False
    then show ?thesis using less.prems by (subst backref_loop.simps) auto
  next
    case True
    have "ok (GET_CHAR s cptr1 cptr1_end) (\<lambda>(c, q). cptr1 < q)"
      using True less.prems by (auto simp: GET_CHAR_def)
    then obtain c1 q1 where g1: "GET_CHAR s cptr1 cptr1_end = Some (c1, q1)" "cptr1 < q1" by (auto simp: ok_conv)
    obtain c2 q2 where g2: "GET_CHAR s cptr (length (rx_cbuf s)) = Some (c2, q2)" "q2 \<le> length (rx_cbuf s)"
      using GET_CHAR_ok [of cptr s] True by (auto simp: ok_conv)
    obtain d1 d2 where "canonical s c1 = Some d1" "canonical s c2 = Some d2"
      using canonical_ok [OF GET_CHAR_small [OF assms g1(1)]] canonical_ok [OF GET_CHAR_small [OF assms g2(1)]] by blast
    then show ?thesis using True g1 g2 less.hyps [of q1 q2] less.prems
      by (subst backref_loop.simps) auto
  qed
qed

lemma backward_backref_loop_ok:
  assumes "text_ok s"
  shows "cptr1 \<le> length (rx_cbuf s) \<Longrightarrow> cptr \<le> length (rx_cbuf s) \<Longrightarrow>
    ok (backward_backref_loop s cptr1 cptr1_start cptr) (\<lambda>r. \<forall>q. r = Some q \<longrightarrow> q \<le> length (rx_cbuf s))"
proof (induction "cptr1 - cptr1_start" arbitrary: cptr1 cptr rule: less_induct)
  case less
  show ?case
  proof (cases "cptr1 > cptr1_start \<and> cptr > 0")
    case False
    then show ?thesis using less.prems by (subst backward_backref_loop.simps) auto
  next
    case True
    have g: "ok (GET_PREV_CHAR s p st) (\<lambda>(c, q). q < p)" if "0 < p" "p \<le> length (rx_cbuf s)" for p st
      using that by (auto simp: GET_PREV_CHAR_def unit_before_def)
    obtain c1 q1 where g1: "GET_PREV_CHAR s cptr1 cptr1_start = Some (c1, q1)" "q1 < cptr1"
      using g [of cptr1 cptr1_start] True less.prems by (auto simp: ok_conv)
    obtain c2 q2 where g2: "GET_PREV_CHAR s cptr 0 = Some (c2, q2)" "q2 < cptr"
      using g [of cptr 0] True less.prems by (auto simp: ok_conv)
    obtain d1 d2 where "canonical s c1 = Some d1" "canonical s c2 = Some d2"
      using canonical_ok [OF GET_PREV_CHAR_small [OF assms g1(1)]] canonical_ok [OF GET_PREV_CHAR_small [OF assms g2(1)]] by blast
    then show ?thesis using True g1 g2 less.hyps [of q1 q2] less.prems
      by (subst backward_backref_loop.simps) auto
  qed
qed

section \<open>Character classes\<close>

definition ranges_sorted :: "nat \<Rightarrow> (nat \<Rightarrow> u32) \<Rightarrow> (nat \<Rightarrow> u32) \<Rightarrow> bool" where
  "ranges_sorted n l h \<longleftrightarrow> (\<forall>i < n. l i \<le> h i) \<and> (\<forall>i j. i < j \<and> j < n \<longrightarrow> h i < l j)"

text \<open>
  The search ends and stays inside the ranges because the first range does not begin after the character;
  it is right when the ranges are in order.
\<close>

lemma range_search_ok:
  assumes at: "\<forall>i < n. low_at i = Some (l i) \<and> high_at i = Some (h i)" and n: "n < 2 ^ 31" and c: "l 0 \<le> c"
  shows "unat imax < n \<Longrightarrow> unat imin \<le> unat imax + 1 \<Longrightarrow>
    ok (range_search low_at high_at c imin imax) (\<lambda>b. (b \<longrightarrow> (\<exists>i < n. l i \<le> c \<and> c \<le> h i)) \<and>
      (ranges_sorted n l h \<longrightarrow> (\<exists>i. unat imin \<le> i \<and> i \<le> unat imax \<and> l i \<le> c \<and> c \<le> h i) \<longrightarrow> b))"
proof (induction "unat imax + 1 - unat imin" arbitrary: imin imax rule: less_induct)
  case less
  show ?case
  proof (cases "imin \<le> imax")
    case False
    then show ?thesis by (subst range_search.simps) (auto simp: word_le_nat_alt)
  next
    case True
    define k where "k = (imin + imax) div 2"
    have u: "unat k = (unat imin + unat imax) div 2"
      using less.prems n True by (simp add: k_def unat_div unat_word_ariths word_le_nat_alt)
    have k: "unat imin \<le> unat k" "unat k \<le> unat imax" "unat k < n" using u True less.prems(1) by (auto simp: word_le_nat_alt)
    have r: "range_search low_at high_at c imin imax =
      (if c < l (unat k) then range_search low_at high_at c imin (k - 1)
       else if h (unat k) < c then range_search low_at high_at c (k + 1) imax else Some True)"
      using True k(3) at by (subst range_search.simps) (simp add: k_def [symmetric] Let_def)
    consider "c < l (unat k)" | "\<not> c < l (unat k)" "h (unat k) < c" | "\<not> c < l (unat k)" "\<not> h (unat k) < c" by blast
    then show ?thesis
    proof cases
      case 1
      then have "unat k \<noteq> 0" using c by (metis leD)
      then have m: "unat (k - 1) = unat k - 1" by (metis unat_minus_one unat_0)
      have "i < unat k" if "ranges_sorted n l h" "l i \<le> c" "i < n" for i
      proof (rule ccontr)
        assume "\<not> i < unat k"
        then have "i = unat k \<or> unat k < i" by linarith
        moreover have "l (unat k) \<le> h (unat k)" "unat k < i \<longrightarrow> h (unat k) < l i" using that k(3) by (auto simp: ranges_sorted_def)
        ultimately show False using that(2) 1 by (auto; order)
      qed
      then have "i \<le> unat (k - 1)" if "ranges_sorted n l h" "l i \<le> c" "i < n" for i using that m by fastforce
      then show ?thesis using less.hyps [of "k - 1" imin] less.prems k m 1 r \<open>unat k \<noteq> 0\<close> by (fastforce elim!: ok_mono)
    next
      case 2
      have m: "unat (k + 1) = unat k + 1" using k(3) n by (simp add: unat_word_ariths)
      have "unat k < i" if "ranges_sorted n l h" "c \<le> h i" "i < n" for i
      proof (rule ccontr)
        assume "\<not> unat k < i"
        then have "i = unat k \<or> i < unat k" by linarith
        moreover have "l (unat k) \<le> h (unat k)" "i < unat k \<longrightarrow> h i < l (unat k)" using that k(3) by (auto simp: ranges_sorted_def)
        ultimately show False using that(2) 2 by (auto; order)
      qed
      then have "unat (k + 1) \<le> i" if "ranges_sorted n l h" "c \<le> h i" "i < n" for i using that m by fastforce
      then show ?thesis using less.hyps [of imax "k + 1"] less.prems k m 2 r by (fastforce elim!: ok_mono)
    next
      case 3
      then show ?thesis using r k(3) by auto
    qed
  qed
qed

lemma u16_at_ok: "p + 2 \<le> length bc \<Longrightarrow> \<exists>v. u16_at bc p = Some v \<and> unat v < 65536"
proof -
  assume "p + 2 \<le> length bc"
  then have "u16_at bc p = Some (ucast (of_bytes (take 2 (drop p bc)) :: u16))" by (simp add: u16_at_def get_u16_def slice_def)
  moreover have "unat (ucast w :: u32) < 65536" for w :: u16 using unsigned_less [of w]
    by (simp add: unsigned_ucast_eq take_bit_eq_mod order_less_le_trans [OF unsigned_less])
  ultimately show ?thesis by blast
qed

lemma u32_at_ok: "p + 4 \<le> length bc \<Longrightarrow> \<exists>v. u32_at bc p = Some v"
  by (simp add: u32_at_def get_u32_def slice_def)

lemma sorted_first: "ranges_sorted n l h \<Longrightarrow> i < n \<Longrightarrow> l 0 \<le> l i"
proof (cases "i = 0")
  case False
  assume a: "ranges_sorted n l h" "i < n"
  then have "l 0 \<le> h 0" "h 0 < l i" using False by (auto simp: ranges_sorted_def)
  then show ?thesis by order
qed simp

lemma sorted_last: "ranges_sorted n l h \<Longrightarrow> i < n \<Longrightarrow> h i \<le> h (n - 1)"
proof (cases "i = n - 1")
  case False
  assume a: "ranges_sorted n l h" "i < n"
  then have "h i < l (n - 1)" "l (n - 1) \<le> h (n - 1)" using False by (auto simp: ranges_sorted_def)
  then show ?thesis by order
qed simp

definition in_ranges :: "nat \<Rightarrow> (nat \<Rightarrow> u32) \<Rightarrow> (nat \<Rightarrow> u32) \<Rightarrow> u32 \<Rightarrow> bool" where
  "in_ranges n l h c \<longleftrightarrow> (\<exists>i < n. l i \<le> c \<and> c \<le> h i)"

lemma outside_ranges:
  assumes "ranges_sorted n l h" "c < l 0 \<or> h (n - 1) < c"
  shows "\<not> in_ranges n l h c"
proof
  assume "in_ranges n l h c"
  then obtain i where i: "i < n" "l i \<le> c" "c \<le> h i" by (auto simp: in_ranges_def)
  show False using assms(2) i(2,3) sorted_first [OF assms(1) i(1)] sorted_last [OF assms(1) i(1)] by (elim disjE; order)
qed

lemma range32_match_ok:
  assumes n: "0 < unat n" "unat n < 65536" and bc: "pc + 8 * unat n \<le> length bc"
    and at: "\<forall>i < unat n. u32_at bc (pc + i * 8) = Some (l i) \<and> u32_at bc (pc + i * 8 + 4) = Some (h i)"
  shows "ok (range32_match bc pc n c) (\<lambda>b. ranges_sorted (unat n) l h \<longrightarrow> b = in_ranges (unat n) l h c)"
proof -
  have m: "unat (n - 1) = unat n - 1" using n(1) by (metis unat_minus_one unat_0 less_numeral_extra(3))
  have f: "u32_at bc pc = Some (l 0)" "u32_at bc (pc + unat (n - 1) * 8 + 4) = Some (h (unat n - 1))"
    using at [rule_format, of 0] at [rule_format, of "unat n - 1"] n(1) m by auto
  show ?thesis
  proof (cases "c < l 0 \<or> h (unat n - 1) < c")
    case True
    then show ?thesis using f outside_ranges [of "unat n" l h c] by (auto simp: range32_match_def)
  next
    case False
    have "ok (range_search (\<lambda>i. u32_at bc (pc + i * 8)) (\<lambda>i. u32_at bc (pc + i * 8 + 4)) c 0 (n - 1)) (\<lambda>b.
        (b \<longrightarrow> (\<exists>i < unat n. l i \<le> c \<and> c \<le> h i)) \<and>
        (ranges_sorted (unat n) l h \<longrightarrow> (\<exists>i. unat (0 :: u32) \<le> i \<and> i \<le> unat (n - 1) \<and> l i \<le> c \<and> c \<le> h i) \<longrightarrow> b))"
      using at n m False by (intro range_search_ok) auto
    then have "ok (range_search (\<lambda>i. u32_at bc (pc + i * 8)) (\<lambda>i. u32_at bc (pc + i * 8 + 4)) c 0 (n - 1))
        (\<lambda>b. ranges_sorted (unat n) l h \<longrightarrow> b = in_ranges (unat n) l h c)"
      by (rule ok_mono) (use m n(1) in \<open>auto simp: in_ranges_def\<close>)
    then show ?thesis using False f by (simp add: range32_match_def)
  qed
qed

lemma range_match_ok:
  assumes n: "0 < unat n" "unat n < 65536" and bc: "pc + 4 * unat n \<le> length bc"
    and at: "\<forall>i < unat n. u16_at bc (pc + i * 4) = Some (l i) \<and> u16_at bc (pc + i * 4 + 2) = Some (h i)"
  shows "ok (range_match bc pc n c) (\<lambda>b. ranges_sorted (unat n) l h \<longrightarrow>
    b = (in_ranges (unat n) l h c \<or> l 0 \<le> c \<and> 0xffff \<le> c \<and> h (unat n - 1) = 0xffff))"
proof -
  have m: "unat (n - 1) = unat n - 1" using n(1) by (metis unat_minus_one unat_0 less_numeral_extra(3))
  have f: "u16_at bc pc = Some (l 0)" "u16_at bc (pc + unat (n - 1) * 4 + 2) = Some (h (unat n - 1))"
    using at [rule_format, of 0] at [rule_format, of "unat n - 1"] n(1) m by auto
  let ?inf = "0xffff \<le> c \<and> h (unat n - 1) = 0xffff"
  show ?thesis
  proof (cases "c < l 0 \<or> \<not> ?inf \<and> h (unat n - 1) < c \<or> ?inf")
    case True
    then show ?thesis using f outside_ranges [of "unat n" l h c] by (auto simp: range_match_def)
  next
    case False
    have "ok (range_search (\<lambda>i. u16_at bc (pc + i * 4)) (\<lambda>i. u16_at bc (pc + i * 4 + 2)) c 0 (n - 1)) (\<lambda>b.
        (b \<longrightarrow> (\<exists>i < unat n. l i \<le> c \<and> c \<le> h i)) \<and>
        (ranges_sorted (unat n) l h \<longrightarrow> (\<exists>i. unat (0 :: u32) \<le> i \<and> i \<le> unat (n - 1) \<and> l i \<le> c \<and> c \<le> h i) \<longrightarrow> b))"
      using at n m False by (intro range_search_ok) auto
    then have "ok (range_search (\<lambda>i. u16_at bc (pc + i * 4)) (\<lambda>i. u16_at bc (pc + i * 4 + 2)) c 0 (n - 1))
        (\<lambda>b. ranges_sorted (unat n) l h \<longrightarrow> b = in_ranges (unat n) l h c)"
      by (rule ok_mono) (use m n(1) in \<open>auto simp: in_ranges_def\<close>)
    then show ?thesis using False f by (auto simp: range_match_def)
  qed
qed

text \<open>Both searches end and stay inside the code when the ranges do.\<close>

lemma range_matches_total:
  assumes n: "0 < unat n" "unat n < 65536"
  shows "pc + 4 * unat n \<le> length bc \<Longrightarrow> \<exists>b. range_match bc pc n c = Some b"
    "pc + 8 * unat n \<le> length bc \<Longrightarrow> \<exists>b. range32_match bc pc n c = Some b"
proof -
  assume bc: "pc + 4 * unat n \<le> length bc"
  have "u16_at bc (pc + i * 4) = Some (the (u16_at bc (pc + i * 4))) \<and> u16_at bc (pc + i * 4 + 2) = Some (the (u16_at bc (pc + i * 4 + 2)))"
    if "i < unat n" for i
    using u16_at_ok [of "pc + i * 4" bc] u16_at_ok [of "pc + i * 4 + 2" bc] bc that by auto
  then show "\<exists>b. range_match bc pc n c = Some b"
    using range_match_ok [OF n bc, of "\<lambda>i. the (u16_at bc (pc + i * 4))" "\<lambda>i. the (u16_at bc (pc + i * 4 + 2))" c] by (auto simp: ok_conv)
next
  assume bc: "pc + 8 * unat n \<le> length bc"
  have "u32_at bc (pc + i * 8) = Some (the (u32_at bc (pc + i * 8))) \<and> u32_at bc (pc + i * 8 + 4) = Some (the (u32_at bc (pc + i * 8 + 4)))"
    if "i < unat n" for i
    using u32_at_ok [of "pc + i * 8" bc] u32_at_ok [of "pc + i * 8 + 4" bc] bc that by auto
  then show "\<exists>b. range32_match bc pc n c = Some b"
    using range32_match_ok [OF n bc, of "\<lambda>i. the (u32_at bc (pc + i * 8))" "\<lambda>i. the (u32_at bc (pc + i * 8 + 4))" c] by (auto simp: ok_conv)
qed

end
