(* ===== verification/Regexp_Safety.thy ===== *)
theory Regexp_Safety
  imports Regexp_Text
begin

unbundle bit_operations_syntax

text \<open>
  Checked bytecode runs safely. The check assigns to every instruction the stack depth of a linear pass,
  the pass of \<open>re_compute_stack_size\<close>, and compares it with the depth at all successors, as the code
  generated by the compiler has it. An invariant of the machine follows: character pointers and captures
  stay inside the text, the stack inside the size computed by \<open>re_compute_stack_size\<close>, saved states can be
  resumed, and stepping back over the characters of an atom stays inside the text.
\<close>

section \<open>Checked code\<close>

definition depth_after :: "REOPCodeEnum \<Rightarrow> nat \<Rightarrow> nat option" where
  "depth_after oc d =
     (if oc = REOP_push_i32 \<or> oc = REOP_push_char_pos then Some (d + 1)
      else if oc = REOP_drop \<or> oc = REOP_bne_char_pos then if d > 0 then Some (d - 1) else None
      else Some d)"

text \<open>The positions of the instructions up to \<open>stop\<close>, each with the depth of the stack there.\<close>

function layout :: "u8 list \<Rightarrow> nat \<Rightarrow> nat \<Rightarrow> nat \<Rightarrow> (nat \<times> nat) list option" where
  "layout bc stop pos d =
     (if pos < stop then do {
        oc \<leftarrow> opcode_at bc pos;
        len \<leftarrow> instr_len bc pos oc;
        if pos + len \<le> stop then do {
          d' \<leftarrow> depth_after oc d;
          r \<leftarrow> layout bc stop (pos + len) d';
          Some ((pos, d) # r) }
        else None }
      else Some [])"
  by pat_completeness auto
termination by (relation "measure (\<lambda>(_, stop, pos, _). stop - pos)") (auto dest: instr_len_pos)

declare layout.simps [simp del]

text \<open>The atom of a simple quantifier: \<open>n\<close> characters are read up to its \<open>REOP_match\<close>.\<close>

function simple_body :: "u8 list \<Rightarrow> nat \<Rightarrow> nat \<Rightarrow> bool" where
  "simple_body bc pos n =
     (case opcode_at bc pos of None \<Rightarrow> False
      | Some oc \<Rightarrow>
          (case instr_len bc pos oc of None \<Rightarrow> False
           | Some len \<Rightarrow>
               if oc = REOP_match then n = 0
               else if is_simple_char oc then n > 0 \<and> simple_body bc (pos + len) (n - 1)
               else is_simple_test oc \<and> simple_body bc (pos + len) n))"
  by pat_completeness auto
termination
  by (relation "measure (\<lambda>(bc, pos, _). length bc - pos)")
     (auto simp: opcode_at_def rd_def bind_eq_Some_conv split: if_splits dest!: instr_len_pos)

declare simple_body.simps [simp del]

definition target :: "u8 list \<Rightarrow> nat \<Rightarrow> nat \<Rightarrow> nat option" where
  "target bc pos len = do { v \<leftarrow> u32_at bc (pos + 1); jump (pos + len) v }"

definition has_target :: "REOPCodeEnum \<Rightarrow> bool" where
  "has_target oc \<longleftrightarrow> oc \<in> {REOP_goto, REOP_split_goto_first, REOP_split_next_first, REOP_lookahead, REOP_negative_lookahead,
     REOP_loop, REOP_bne_char_pos, REOP_simple_greedy_quant}"

definition target_in :: "(nat \<times> nat) set \<Rightarrow> u8 list \<Rightarrow> nat \<Rightarrow> nat \<Rightarrow> nat \<Rightarrow> bool" where
  "target_in L bc pos len d = (case target bc pos len of None \<Rightarrow> False | Some t \<Rightarrow> (t, d) \<in> L)"

definition byte_below :: "u8 list \<Rightarrow> nat \<Rightarrow> nat \<Rightarrow> bool" where
  "byte_below bc pos n = (case rd bc pos of None \<Rightarrow> False | Some b \<Rightarrow> unat b < n)"

definition quant_ok :: "u8 list \<Rightarrow> nat \<Rightarrow> bool" where
  "quant_ok bc pos = (case u32_at bc (pos + 13) of None \<Rightarrow> False | Some n \<Rightarrow> n > 0 \<and> simple_body bc (pos + 17) (unat n))"

definition instr_ok :: "u8 list \<Rightarrow> nat \<Rightarrow> (nat \<times> nat) set \<Rightarrow> nat \<Rightarrow> nat \<Rightarrow> bool" where
  "instr_ok bc captures L pos d =
     (case opcode_at bc pos of None \<Rightarrow> False
      | Some oc \<Rightarrow>
          (case (instr_len bc pos oc, depth_after oc d) of
             (Some len, Some d') \<Rightarrow>
               (oc = REOP_match \<or> oc = REOP_goto \<or> (pos + len, d') \<in> L) \<and>
               (if has_target oc then target_in L bc pos len d' else True) \<and>
               (oc \<in> {REOP_save_start, REOP_save_end} \<longrightarrow> byte_below bc (pos + 1) captures) \<and>
               (oc = REOP_save_reset \<longrightarrow> byte_below bc (pos + 2) captures) \<and>
               (oc = REOP_loop \<longrightarrow> d > 0) \<and>
               (oc = REOP_range \<longrightarrow> len > 3) \<and> (oc = REOP_range32 \<longrightarrow> len > 3) \<and>
               (if oc = REOP_simple_greedy_quant then quant_ok bc pos else oc \<noteq> REOP_invalid)
           | _ \<Rightarrow> False))"

text \<open>
  The code between the header and \<open>stop\<close> (the names of groups follow it) passes the check, and the stack
  size in the header is the one \<open>re_compute_stack_size\<close> gives.
\<close>

definition bytecode_ok :: "u8 list \<Rightarrow> nat \<Rightarrow> bool" where
  "bytecode_ok bc stop =
     (RE_HEADER_LEN < stop \<and> stop \<le> length bc \<and>
      re_compute_stack_size (take stop bc) = Some (int (unat (bc ! RE_HEADER_STACK_SIZE))) \<and>
      (case layout bc stop RE_HEADER_LEN 0 of None \<Rightarrow> False
       | Some L \<Rightarrow> (\<forall>(pos, d) \<in> set L. instr_ok bc (unat (bc ! RE_HEADER_CAPTURE_COUNT)) (set L) pos d)))"

section \<open>The stack size\<close>

lemma layout_step:
  assumes "layout bc stop pos d = Some L" "pos < stop"
  obtains oc len d' r where "opcode_at bc pos = Some oc" "instr_len bc pos oc = Some len" "pos + len \<le> stop" "depth_after oc d = Some d'"
    "layout bc stop (pos + len) d' = Some r" "L = (pos, d) # r"
  using assms by (subst (asm) layout.simps) (auto simp: bind_eq_Some_conv split: if_splits)

lemma code_opcode: "RE_HEADER_LEN + pos < stop \<Longrightarrow> stop \<le> length bc \<Longrightarrow>
    opcode_at (drop RE_HEADER_LEN (take stop bc)) pos = opcode_at bc (RE_HEADER_LEN + pos)"
  by (auto simp: opcode_at_def rd_def)

lemma code_instr_len:
  assumes "RE_HEADER_LEN + pos + reopcode_info oc \<le> stop" "stop \<le> length bc"
  shows "instr_len (drop RE_HEADER_LEN (take stop bc)) pos oc = instr_len bc (RE_HEADER_LEN + pos) oc"
proof -
  have "take 2 (drop (RE_HEADER_LEN + (pos + 1)) (take stop bc)) = take 2 (drop (RE_HEADER_LEN + pos + 1) bc)"
    if "RE_HEADER_LEN + pos + 3 \<le> stop" using that by (simp add: drop_take min_def add.assoc)
  then have "u16_at (drop RE_HEADER_LEN (take stop bc)) (pos + 1) = u16_at bc (RE_HEADER_LEN + pos + 1)" if "RE_HEADER_LEN + pos + 3 \<le> stop"
    using that assms(2) by (simp add: u16_at_def get_u16_def slice_def add.commute)
  then show ?thesis using assms(1) by (auto simp: instr_len_def)
qed

lemma stack_size_bound:
  assumes stop: "stop \<le> length bc"
  shows "layout bc stop (RE_HEADER_LEN + pos) d = Some L \<Longrightarrow> RE_HEADER_LEN + pos \<le> stop \<Longrightarrow> d \<le> mx \<Longrightarrow>
    stack_size_loop (drop RE_HEADER_LEN (take stop bc)) pos d mx = Some (int m) \<Longrightarrow> mx \<le> m \<and> (\<forall>(p, e) \<in> set L. e \<le> m)"
proof (induction "stop - pos" arbitrary: pos d mx L rule: less_induct)
  case less
  let ?c = "drop RE_HEADER_LEN (take stop bc)"
  have len: "length ?c = stop - RE_HEADER_LEN" using stop by simp
  show ?case
  proof (cases "RE_HEADER_LEN + pos < stop")
    case False
    then show ?thesis using less.prems len by (auto simp: layout.simps [of bc stop] stack_size_loop.simps [of ?c])
  next
    case True
    obtain oc n d' r where l: "opcode_at bc (RE_HEADER_LEN + pos) = Some oc" "instr_len bc (RE_HEADER_LEN + pos) oc = Some n"
        "RE_HEADER_LEN + pos + n \<le> stop" "depth_after oc d = Some d'" "layout bc stop (RE_HEADER_LEN + pos + n) d' = Some r"
        "L = (RE_HEADER_LEN + pos, d) # r"
      by (rule layout_step [OF less.prems(1) True])
    have n: "0 < n" "reopcode_info oc \<le> n" using instr_len_pos [OF l(2)] instr_len_ge [OF l(2)] by auto
    have il: "instr_len ?c pos oc = Some n" using code_instr_len [of pos oc stop bc] l(2,3) n(2) stop by simp
    have op: "opcode_at ?c pos = Some oc" using code_opcode [OF True stop] l(1) by simp
    have c: "pos < length ?c" "pos + reopcode_info oc \<le> length ?c" using len l(3) n by linarith+
    have run: "stack_size_loop ?c pos d mx = (if oc = REOP_push_i32 \<or> oc = REOP_push_char_pos then
        (if d + 1 > mx then (if d + 1 > STACK_SIZE_MAX then Some (-1) else stack_size_loop ?c (pos + n) (d + 1) (d + 1))
         else stack_size_loop ?c (pos + n) (d + 1) mx)
       else if oc = REOP_drop \<or> oc = REOP_bne_char_pos then (if d > 0 then stack_size_loop ?c (pos + n) (d - 1) mx else None)
       else stack_size_loop ?c (pos + n) d mx)"
      by (subst stack_size_loop.simps) (simp only: c op il if_True Option.bind.bind_lunit)
    define mx' where "mx' = max mx d'"
    have "stack_size_loop ?c (pos + n) d' mx' = Some (int m)"
      using run l(4) less.prems(3,4) by (auto simp: depth_after_def mx'_def max_def split: if_splits)
    moreover have "d' \<le> mx'" by (simp add: mx'_def)
    ultimately have "mx' \<le> m \<and> (\<forall>(p, e) \<in> set r. e \<le> m)"
      using less.hyps [of "pos + n" d' r mx'] l(3,5) n(1) True by (simp add: add.assoc)
    then show ?thesis using l(6) less.prems(3) by (auto simp: mx'_def)
  qed
qed

lemma bytecode_ok_layout:
  assumes "bytecode_ok bc stop"
  obtains L where "layout bc stop RE_HEADER_LEN 0 = Some L" "(RE_HEADER_LEN, 0) \<in> set L" "stop \<le> length bc" "RE_HEADER_LEN < stop"
    "\<forall>(pos, d) \<in> set L. instr_ok bc (unat (bc ! RE_HEADER_CAPTURE_COUNT)) (set L) pos d \<and> d \<le> unat (bc ! RE_HEADER_STACK_SIZE)"
proof -
  obtain L where L: "layout bc stop RE_HEADER_LEN 0 = Some L" "RE_HEADER_LEN < stop" "stop \<le> length bc"
      "re_compute_stack_size (take stop bc) = Some (int (unat (bc ! RE_HEADER_STACK_SIZE)))"
      "\<forall>(pos, d) \<in> set L. instr_ok bc (unat (bc ! RE_HEADER_CAPTURE_COUNT)) (set L) pos d"
    using assms by (auto simp: bytecode_ok_def split: option.splits)
  have "\<forall>(p, e) \<in> set L. e \<le> unat (bc ! RE_HEADER_STACK_SIZE)"
    using stack_size_bound [OF L(3), of 0 0 L 0] L(1,2,4) by (simp add: re_compute_stack_size_def)
  moreover have "(RE_HEADER_LEN, 0) \<in> set L" by (rule layout_step [OF L(1,2)]) simp
  ultimately show ?thesis using that [OF L(1) _ L(3,2)] L(5) by fast
qed

section \<open>The invariant\<close>

definition code_ok :: "REExecContext \<Rightarrow> (nat \<times> nat) set \<Rightarrow> bool" where
  "code_ok s L \<longleftrightarrow> text_ok s \<and> rx_stack_max s \<le> 255 \<and>
     (\<forall>(pos, d) \<in> L. instr_ok (rx_bc s) (rx_captures s) L pos d \<and> d \<le> rx_stack_max s \<and>
       (\<forall>oc len. opcode_at (rx_bc s) pos = Some oc \<longrightarrow> instr_len (rx_bc s) pos oc = Some len \<longrightarrow> pos + len \<le> length (rx_bc s)))"

definition captures_ok :: "REExecContext \<Rightarrow> nat option list \<Rightarrow> bool" where
  "captures_ok s cs \<longleftrightarrow> length cs = 2 * rx_captures s \<and> (\<forall>p. Some p \<in> set cs \<longrightarrow> p \<le> length (rx_cbuf s))"

text \<open>A state of a quantifier can give back its repetitions: they are characters of the text.\<close>

definition greedy_ok :: "REExecContext \<Rightarrow> (nat \<times> nat) set \<Rightarrow> nat \<Rightarrow> nat \<Rightarrow> size_t \<Rightarrow> nat \<Rightarrow> bool" where
  "greedy_ok s L pc cptr n d \<longleftrightarrow> 0 < n \<and>
     (\<exists>cc t. u32_at (rx_bc s) (pc + 12) = Some cc \<and> unat n * unat cc \<le> nback s cptr \<and>
       (\<exists>v. u32_at (rx_bc s) pc = Some v \<and> jump (pc + 16) v = Some t) \<and> (t, d) \<in> L)"

definition state_ok :: "REExecContext \<Rightarrow> (nat \<times> nat) set \<Rightarrow> REExecState \<Rightarrow> bool" where
  "state_ok s L rs \<longleftrightarrow> captures_ok s (rs_capture rs) \<and> rs_cptr rs \<le> length (rx_cbuf s) \<and> length (rs_stack rs) \<le> rx_stack_max s \<and>
     None \<notin> set (rs_stack rs) \<and>
     (if rs_type rs = RE_EXEC_STATE_GREEDY_QUANT then greedy_ok s L (rs_pc rs) (rs_cptr rs) (rs_count rs) (length (rs_stack rs))
      else (rs_pc rs, length (rs_stack rs)) \<in> L)"

definition call_ok :: "REExecContext \<Rightarrow> (nat \<times> nat) set \<Rightarrow> quant_call \<Rightarrow> bool" where
  "call_ok s L qc \<longleftrightarrow> qc_cptr qc \<le> length (rx_cbuf s) \<and> (qc_pc qc, qc_stack_len qc) \<in> L \<and> (qc_pc1 qc, qc_stack_len qc) \<in> L \<and> 16 \<le> qc_pc1 qc \<and>
     (\<exists>cc. u32_at (rx_bc s) (qc_pc1 qc - 4) = Some cc \<and> 0 < cc \<and> simple_body (rx_bc s) (qc_pc1 qc) (unat cc) \<and>
       unat (qc_q qc) * unat cc \<le> chars_before s (qc_cptr qc)) \<and>
     (\<exists>v. u32_at (rx_bc s) (qc_pc1 qc - 16) = Some v \<and> jump (qc_pc1 qc) v = Some (qc_pc qc))"

text \<open>
  Inside an atom the rest of the atom has as many characters as are missing to one repetition; atoms of
  checked code contain no quantifier, so that at most one call is active.
\<close>

definition atom_ok :: "REExecContext \<Rightarrow> quant_call \<Rightarrow> nat \<Rightarrow> nat \<Rightarrow> bool" where
  "atom_ok s qc pc cptr \<longleftrightarrow> (\<exists>cc n. u32_at (rx_bc s) (qc_pc1 qc - 4) = Some cc \<and> simple_body (rx_bc s) pc n \<and>
     chars_before s (qc_cptr qc) + unat cc \<le> chars_before s cptr + n)"

definition calls_ok :: "REExecContext \<Rightarrow> (nat \<times> nat) set \<Rightarrow> quant_call list \<Rightarrow> nat \<Rightarrow> nat \<Rightarrow> nat \<Rightarrow> bool" where
  "calls_ok s L calls pc cptr d \<longleftrightarrow>
     (case calls of [] \<Rightarrow> True | [qc] \<Rightarrow> call_ok s L qc \<and> qc_stack_len qc = d \<and> atom_ok s qc pc cptr | _ \<Rightarrow> False)"

definition mem_ok :: "REExecContext \<Rightarrow> (nat \<times> nat) set \<Rightarrow> 'm exec_state \<Rightarrow> bool" where
  "mem_ok s L x \<longleftrightarrow> captures_ok s (x_capture x) \<and> length (x_stack x) = rx_stack_max s \<and> (\<forall>rs \<in> set (x_states x). state_ok s L rs)"

definition filled :: "size_t option list \<Rightarrow> nat \<Rightarrow> bool" where
  "filled stack n \<longleftrightarrow> n \<le> length stack \<and> None \<notin> set (take n stack)"

definition exec_inv :: "REExecContext \<Rightarrow> (nat \<times> nat) set \<Rightarrow> 'm exec_state \<Rightarrow> bool" where
  "exec_inv s L x \<longleftrightarrow> mem_ok s L x \<and> filled (x_stack x) (x_stack_len x) \<and> x_cptr x \<le> length (rx_cbuf s) \<and>
     (x_pc x, x_stack_len x) \<in> L \<and> calls_ok s L (x_calls x) (x_pc x) (x_cptr x) (x_stack_len x)"

definition result_ok :: "REExecContext \<Rightarrow> (nat \<times> nat) set \<Rightarrow> 'm step_result \<Rightarrow> bool" where
  "result_ok s L r = (case r of Next x \<Rightarrow> exec_inv s L x | Return v x \<Rightarrow> v \<in> {-1, 0, 1} \<and> captures_ok s (x_capture x))"

lemma result_ok_simps [simp]: "result_ok s L (Next x) = exec_inv s L x"
  "result_ok s L (Return v x) \<longleftrightarrow> v \<in> {-1, 0, 1} \<and> captures_ok s (x_capture x)"
  by (simp_all add: result_ok_def)

lemma calls_ok_simps [simp]: "calls_ok s L [] pc cptr d"
  "calls_ok s L [qc] pc cptr d \<longleftrightarrow> call_ok s L qc \<and> qc_stack_len qc = d \<and> atom_ok s qc pc cptr" "\<not> calls_ok s L (qc # qc' # cs) pc cptr d"
  by (simp_all add: calls_ok_def)

lemma filled_blit: "length vs \<le> length stack \<Longrightarrow> None \<notin> set vs \<Longrightarrow> filled (vs @ drop (length vs) stack) (length vs)"
  by (simp add: filled_def)

section \<open>Backtracking keeps the invariant\<close>

lemma restore_stack_ok:
  assumes "length (x_stack x) = rx_stack_max s" "state_ok s L rs"
  shows "restore_stack rs x = Some (x\<lparr>x_stack := rs_stack rs @ drop (length (rs_stack rs)) (x_stack x), x_stack_len := length (rs_stack rs)\<rparr>)"
  using assms by (simp add: restore_stack_def blit_def state_ok_def)

lemma pop_state1_ok:
  assumes "mem_ok s L x" "state_ok s L rs" "\<forall>r \<in> set rest. state_ok s L r" "rs_type rs \<noteq> RE_EXEC_STATE_GREEDY_QUANT" "x_calls x = []"
  shows "ok (pop_state1 rs rest x) (result_ok s L)"
proof -
  have r: "restore_stack rs (x\<lparr>x_pc := rs_pc rs, x_cptr := rs_cptr rs\<rparr>) = Some (x\<lparr>x_pc := rs_pc rs, x_cptr := rs_cptr rs,
      x_stack := rs_stack rs @ drop (length (rs_stack rs)) (x_stack x), x_stack_len := length (rs_stack rs)\<rparr>)"
    using restore_stack_ok [of "x\<lparr>x_pc := rs_pc rs, x_cptr := rs_cptr rs\<rparr>" s L rs] assms(1,2) by (simp add: mem_ok_def)
  show ?thesis using assms by (simp add: pop_state1_def r exec_inv_def mem_ok_def state_ok_def filled_blit)
qed

lemma captures_blit: "captures_ok s cs \<Longrightarrow> captures_ok s cs' \<Longrightarrow> blit cs 0 cs' = Some cs'"
  by (simp add: captures_ok_def blit_def)

lemma pop_state_ok:
  assumes "mem_ok s L x" "state_ok s L rs" "\<forall>r \<in> set rest. state_ok s L r" "rs_type rs \<noteq> RE_EXEC_STATE_GREEDY_QUANT" "x_calls x = []"
  shows "ok (pop_state rs rest x) (result_ok s L)"
  using captures_blit [of s "x_capture x" "rs_capture rs"] pop_state1_ok [of s L "x\<lparr>x_capture := rs_capture rs\<rparr>" rs rest] assms
  by (simp add: pop_state_def mem_ok_def state_ok_def)

lemma pop_greedy_ok:
  assumes "mem_ok s L x" "state_ok s L rs" "\<forall>r \<in> set rest. state_ok s L r" "rs_type rs = RE_EXEC_STATE_GREEDY_QUANT" "x_calls x = []"
  shows "ok (pop_greedy s rs rest x) (result_ok s L)"
proof -
  let ?d = "length (rs_stack rs)"
  obtain cc t v where g: "0 < rs_count rs" "u32_at (rx_bc s) (rs_pc rs + 12) = Some cc" "unat (rs_count rs) * unat cc \<le> nback s (rs_cptr rs)"
      "u32_at (rx_bc s) (rs_pc rs) = Some v" "jump (rs_pc rs + 16) v = Some t" "(t, ?d) \<in> L"
    using assms(2,4) by (auto simp: state_ok_def greedy_ok_def)
  have n: "unat (rs_count rs - 1) = unat (rs_count rs) - 1" "0 < unat (rs_count rs)"
    using g(1) by (simp_all add: unat_minus_one unat_gt_0)
  have cc: "unat cc \<le> nback s (rs_cptr rs)" using g(3) n(2) by (metis One_nat_def Suc_leI le_trans mult_le_mono1 nat_mult_1)
  obtain q where q: "prev_chars s (unat cc) (rs_cptr rs) = Some q" "q \<le> rs_cptr rs" "nback s q = nback s (rs_cptr rs) - unat cc"
    using prev_chars_ok [OF cc] assms(2) by (auto simp: ok_conv state_ok_def)
  have left: "unat (rs_count rs - 1) * unat cc \<le> nback s q" using g(3) n q(3) by (simp add: diff_mult_distrib)
  have caps: "blit (x_capture x) 0 (rs_capture rs) = Some (rs_capture rs)"
    using assms(1,2) by (intro captures_blit) (auto simp: mem_ok_def state_ok_def)
  have r: "restore_stack rs (x\<lparr>x_capture := rs_capture rs\<rparr>) = Some (x\<lparr>x_capture := rs_capture rs,
      x_stack := rs_stack rs @ drop ?d (x_stack x), x_stack_len := ?d\<rparr>)"
    using restore_stack_ok [of "x\<lparr>x_capture := rs_capture rs\<rparr>" s L rs] assms(1,2) by (simp add: mem_ok_def)
  have z: "rs_count rs - 1 \<noteq> 0 \<Longrightarrow> 0 < rs_count rs - 1" by (simp add: word_greater_zero_iff)
  show ?thesis using assms g q left z
    by (auto simp: pop_greedy_def caps r exec_inv_def mem_ok_def state_ok_def filled_blit greedy_ok_def Let_def)
qed

lemma recurse_ok:
  "mem_ok s L x \<Longrightarrow> \<forall>rs \<in> set sts. state_ok s L rs \<Longrightarrow> x_calls x = [] \<Longrightarrow> ok (recurse s ret sts x) (result_ok s L)"
proof (induction sts arbitrary: ret)
  case Nil
  then show ?case by (simp add: mem_ok_def)
next
  case (Cons rs sts)
  then show ?case
    using pop_state_ok [of s L x rs sts] pop_state1_ok [of s L x rs sts] pop_greedy_ok [of s L x rs sts]
    by (cases "rs_type rs") auto
qed

section \<open>Saving states and calling atoms keep the invariant\<close>

lemma grow_states_keeps:
  "grow_states alloc x = (b, x') \<Longrightarrow> x_capture x' = x_capture x \<and> x_stack x' = x_stack x \<and> x_stack_len x' = x_stack_len x \<and>
     x_pc x' = x_pc x \<and> x_cptr x' = x_cptr x \<and> x_states x' = x_states x \<and> x_calls x' = x_calls x"
  by (auto simp: grow_states_def Let_def split: if_splits prod.splits bool.splits)

definition kept_state :: "'m exec_state \<Rightarrow> 'm exec_state \<Rightarrow> bool" where
  "kept_state x x' \<longleftrightarrow> x_capture x' = x_capture x \<and> x_stack x' = x_stack x \<and> x_stack_len x' = x_stack_len x \<and>
     x_pc x' = x_pc x \<and> x_cptr x' = x_cptr x \<and> x_calls x' = x_calls x"

lemma push_state_ok:
  assumes x: "mem_ok s L x" "filled (x_stack x) (x_stack_len x)" and s: "rx_stack_max s \<le> 255" and cptr: "cptr \<le> length (rx_cbuf s)"
    and new: "if ty = RE_EXEC_STATE_GREEDY_QUANT then greedy_ok s L pc cptr n (x_stack_len x) else (pc, x_stack_len x) \<in> L"
  shows "ok (push_state s alloc x pc cptr ty n) (\<lambda>(r, x'). kept_state x x' \<and> mem_ok s L x' \<and> (r = 0 \<or> r = -1))"
proof -
  obtain b x1 where g: "grow_states alloc x = (b, x1)" by fastforce
  note keep = grow_states_keeps [OF g]
  have len: "x_stack_len x \<le> length (x_stack x)" "x_stack_len x mod 256 = x_stack_len x" "x_stack_len x \<le> rx_stack_max s"
    using x s by (auto simp: filled_def mem_ok_def)
  have m1: "mem_ok s L x1" using x(1) keep by (simp add: mem_ok_def)
  show ?thesis
  proof (cases b)
    case False
    then show ?thesis using g keep m1 by (simp add: push_state_def kept_state_def)
  next
    case True
    let ?rs = "\<lparr>rs_type = ty, rs_count = n, rs_cptr = cptr, rs_pc = pc, rs_capture = x_capture x, rs_stack = take (x_stack_len x) (x_stack x)\<rparr>"
    have "state_ok s L ?rs" using x new len cptr by (auto simp: state_ok_def mem_ok_def filled_def min_absorb2)
    moreover have "push_state s alloc x pc cptr ty n = Some (0, x1\<lparr>x_states := ?rs # x_states x1\<rparr>)"
      using g True keep len x(1) by (simp add: push_state_def slice_def mem_ok_def captures_ok_def)
    ultimately show ?thesis using m1 keep by (simp add: kept_state_def mem_ok_def)
  qed
qed

lemma exec_inv_kept:
  "exec_inv s L x \<Longrightarrow> kept_state x x' \<Longrightarrow> mem_ok s L x' \<Longrightarrow> exec_inv s L x'"
  by (simp add: exec_inv_def kept_state_def)

text \<open>The locals of the caller of an atom, with \<open>q\<close> repetitions up to its character pointer.\<close>

definition caller_ok :: "REExecContext \<Rightarrow> (nat \<times> nat) set \<Rightarrow> quant_call \<Rightarrow> 'm exec_state \<Rightarrow> bool" where
  "caller_ok s L qc x \<longleftrightarrow> call_ok s L qc \<and> mem_ok s L x \<and> filled (x_stack x) (qc_stack_len qc)"

lemma quant_locals_inv: "caller_ok s L qc x \<Longrightarrow> exec_inv s L (quant_locals qc [] x)"
  by (simp add: caller_ok_def call_ok_def quant_locals_def exec_inv_def mem_ok_def)

lemma quant_push_ok:
  assumes c: "caller_ok s L qc x" and s: "rx_stack_max s \<le> 255"
  shows "ok (quant_push s alloc qc (quant_locals qc [] x)) (result_ok s L)"
proof (cases "qc_q qc > qc_min qc")
  case False
  then show ?thesis using quant_locals_inv [OF c] by (simp add: quant_push_def)
next
  case True
  let ?x = "quant_locals qc [] x"
  obtain cc v where q: "u32_at (rx_bc s) (qc_pc1 qc - 4) = Some cc" "unat (qc_q qc) * unat cc \<le> chars_before s (qc_cptr qc)"
      "u32_at (rx_bc s) (qc_pc1 qc - 16) = Some v" "jump (qc_pc1 qc) v = Some (qc_pc qc)" "(qc_pc qc, qc_stack_len qc) \<in> L" "16 \<le> qc_pc1 qc"
    using c by (auto simp: caller_ok_def call_ok_def)
  have pos: "qc_pc1 qc - 16 + 12 = qc_pc1 qc - 4" "qc_pc1 qc - 16 + 16 = qc_pc1 qc" using q(6) by linarith+
  have "unat (qc_q qc - qc_min qc) \<le> unat (qc_q qc)" using True by (simp add: unat_sub word_le_nat_alt word_less_nat_alt)
  then have "unat (qc_q qc - qc_min qc) * unat cc \<le> nback s (qc_cptr qc)"
    using q(2) chars_before_le [of s "qc_cptr qc"] by (meson le_trans mult_le_mono1)
  moreover have "0 < qc_q qc - qc_min qc" using True by (simp add: word_greater_zero_iff)
  ultimately have g: "greedy_ok s L (qc_pc1 qc - 16) (qc_cptr qc) (qc_q qc - qc_min qc) (qc_stack_len qc)"
    using q pos by (auto simp: greedy_ok_def)
  have i: "exec_inv s L ?x" by (rule quant_locals_inv [OF c])
  have f: "x_cptr ?x = qc_cptr qc" "x_stack_len ?x = qc_stack_len qc" by (simp_all add: quant_locals_def)
  have "ok (push_state s alloc ?x (qc_pc1 qc - 16) (x_cptr ?x) RE_EXEC_STATE_GREEDY_QUANT (qc_q qc - qc_min qc))
      (\<lambda>(r, x'). kept_state ?x x' \<and> mem_ok s L x' \<and> (r = 0 \<or> r = -1))"
    using i g s f by (intro push_state_ok) (auto simp: exec_inv_def)
  then show ?thesis using True exec_inv_kept [OF i] i
    by (auto simp: quant_push_def mem_ok_def elim!: ok_mono)
qed

lemma no_match_ok:
  assumes m: "mem_ok s L x" and s: "rx_stack_max s \<le> 255"
    and c: "x_calls x = [] \<or> (\<exists>qc. x_calls x = [qc] \<and> caller_ok s L qc x)"
  shows "ok (fail s alloc x) (result_ok s L)"
proof -
  have r: "ok (recurse s False (x_states y) y) (result_ok s L)" if "mem_ok s L y" "x_calls y = []" for y :: "'a exec_state"
    using that by (intro recurse_ok) (auto simp: mem_ok_def)
  show ?thesis
  proof (cases "x_calls x")
    case Nil
    then show ?thesis using r [OF m] by (simp add: fail_def)
  next
    case (Cons qc cs)
    then have qc: "x_calls x = [qc]" "caller_ok s L qc x" using c by auto
    have "mem_ok s L (quant_locals qc [] x)" "x_calls (quant_locals qc [] x) = []" using m by (simp_all add: quant_locals_def mem_ok_def)
    then show ?thesis using r [of "quant_locals qc [] x"] quant_push_ok [OF qc(2) s] qc(1) by (simp add: fail_def Let_def)
  qed
qed

lemma exec_inv_caller:
  assumes "exec_inv s L x"
  shows "x_calls x = [] \<or> (\<exists>qc. x_calls x = [qc] \<and> caller_ok s L qc x)"
proof (cases "x_calls x")
  case (Cons qc cs)
  then show ?thesis using assms by (cases cs) (auto simp: exec_inv_def caller_ok_def)
qed simp

text \<open>Failing is safe wherever the pointers have moved in the meantime.\<close>

lemma fail_ok:
  assumes "exec_inv s L x" "rx_stack_max s \<le> 255"
  shows "ok (fail s alloc (x\<lparr>x_pc := pc, x_cptr := cptr\<rparr>)) (result_ok s L)" "ok (fail s alloc (x\<lparr>x_pc := pc\<rparr>)) (result_ok s L)"
    "ok (fail s alloc x) (result_ok s L)"
proof -
  have k: "ok (fail s alloc y) (result_ok s L)" if "x_capture y = x_capture x" "x_stack y = x_stack x" "x_states y = x_states x" "x_calls y = x_calls x"
    for y :: "'a exec_state"
    using exec_inv_caller [OF assms(1)] assms that by (intro no_match_ok) (auto simp: exec_inv_def mem_ok_def caller_ok_def)
  show "ok (fail s alloc (x\<lparr>x_pc := pc, x_cptr := cptr\<rparr>)) (result_ok s L)" "ok (fail s alloc (x\<lparr>x_pc := pc\<rparr>)) (result_ok s L)"
    "ok (fail s alloc x) (result_ok s L)" by (rule k; simp)+
qed

lemma re_match_ok:
  assumes s: "code_ok s L" and x: "exec_inv s L x" and oc: "opcode_at (rx_bc s) (x_pc x) = Some REOP_match"
  shows "ok (re_match s alloc x) (result_ok s L)"
proof (cases "x_calls x")
  case Nil
  then show ?thesis using x recurse_ok [of s L x "x_states x" True] by (simp add: re_match_def exec_inv_def mem_ok_def)
next
  case (Cons qc cs)
  then have qc: "x_calls x = [qc]" using x by (cases cs) (auto simp: exec_inv_def)
  have st: "rx_stack_max s \<le> 255" "length (rx_cbuf s) < 2 ^ 32" using s by (auto simp: code_ok_def text_ok_def)
  obtain cc where a: "call_ok s L qc" "qc_stack_len qc = x_stack_len x" "u32_at (rx_bc s) (qc_pc1 qc - 4) = Some cc"
      "chars_before s (qc_cptr qc) + unat cc \<le> chars_before s (x_cptr x)"
    using x qc oc by (auto simp: exec_inv_def atom_ok_def simple_body.simps [of _ "x_pc x"] split: option.splits)
  have c: "0 < cc" "unat (qc_q qc) * unat cc \<le> chars_before s (qc_cptr qc)" "simple_body (rx_bc s) (qc_pc1 qc) (unat cc)"
    using a(1,3) by (auto simp: call_ok_def)
  have more: "(unat (qc_q qc) + 1) * unat cc \<le> chars_before s (x_cptr x)" using c(2) a(4) by simp
  have "chars_before s (x_cptr x) \<le> length (rx_cbuf s)"
    using chars_before_le [of s "x_cptr x"] nback_le [of s "x_cptr x"] x by (simp add: exec_inv_def)
  moreover have "1 \<le> unat cc" using c(1) by (simp add: Suc_le_eq unat_gt_0 word_greater_zero_iff)
  then have "unat (qc_q qc) + 1 \<le> (unat (qc_q qc) + 1) * unat cc" using mult_le_mono2 [of 1 "unat cc" "unat (qc_q qc) + 1"] by simp
  ultimately have q: "unat (qc_q qc + 1) = unat (qc_q qc) + 1" using more st(2) by (simp add: unat_word_ariths)
  define qc' where "qc' = qc\<lparr>qc_cptr := x_cptr x, qc_q := qc_q qc + 1\<rparr>"
  have call: "call_ok s L qc'" using a(1,3) c more q x by (auto simp: qc'_def call_ok_def exec_inv_def)
  then have caller: "caller_ok s L qc' x" using x a(2) by (simp add: caller_ok_def exec_inv_def qc'_def)
  have pc1: "(qc_pc1 qc', qc_stack_len qc') \<in> L" using call by (simp add: call_ok_def)
  have "atom_ok s qc' (qc_pc1 qc') (qc_cptr qc')" using a(3) c(3) by (auto simp: atom_ok_def qc'_def)
  then have "exec_inv s L (atom_call qc' [] x)"
    using call caller pc1 x by (simp add: exec_inv_def atom_call_def mem_ok_def caller_ok_def call_ok_def)
  moreover have "ok (recurse s False (x_states (quant_locals qc' [] x)) (quant_locals qc' [] x)) (result_ok s L)"
    using x by (intro recurse_ok) (auto simp: exec_inv_def mem_ok_def quant_locals_def)
  ultimately show ?thesis using quant_push_ok [OF caller st(1), of alloc] qc
    by (simp add: re_match_def Let_def qc'_def [symmetric])
qed

end
