(* ===== verification/Regexp_Fragment.thy ===== *)
theory Regexp_Fragment
  imports Regexp_Compile Regexp_Safety
begin

unbundle bit_operations_syntax

text \<open>
  The shape of the code that the compiler of regular expressions generates: code fragments, built by the
  constructs of the compiler. A fragment is independent of its position, and a linear pass over it leaves the
  stack depth unchanged. Code that consists of a header, a fragment and \<open>REOP_match\<close> passes the check
  \<open>bytecode_ok\<close>.
\<close>

section \<open>Bytes\<close>

definition le32 :: "int \<Rightarrow> u8 list" where
  "le32 v = to_bytes 4 (word_of_int v :: u32)"

lemma length_le32 [simp]: "length (le32 v) = 4"
  by (simp add: le32_def)

lemma reop_num_index: "unat (reop_num oc) < length reop_list \<and> reop_list ! unat (reop_num oc) = oc"
  by (cases oc) (simp_all add: reop_num_def reop_list_def)

lemma opcode_at_reop: "opcode_at (pre @ reop_num oc # post) (length pre) = Some oc"
  using reop_num_index [of oc] by (simp add: opcode_at_def rd_def)

lemma u32_at_le32: "u32_at (pre @ le32 v @ post) (length pre) = Some (word_of_int v)"
  by (simp add: u32_at_def get_u32_def slice_def le32_def of_to_bytes)

lemma jump_le32:
  assumes "int pos + v = int t" "- (2 ^ 31) \<le> v" "v < 2 ^ 31"
  shows "jump pos (word_of_int v) = Some t"
proof -
  have "sint (word_of_int v :: u32) = v" using assms(2,3) by (simp add: signed_of_int signed_take_bit_int_eq_self)
  then show ?thesis using assms(1) by (simp add: jump_def Let_def)
qed

section \<open>Fragments\<close>

definition split_ops :: "REOPCodeEnum set" where
  "split_ops = {REOP_split_goto_first, REOP_split_next_first}"

text \<open>An instruction without a target and without an effect on the stack depth; \<open>n\<close> is the number of groups.\<close>

definition plain_instr :: "nat \<Rightarrow> REOPCodeEnum \<Rightarrow> u8 list \<Rightarrow> bool" where
  "plain_instr n oc args \<longleftrightarrow>
     (if oc = REOP_range \<or> oc = REOP_range32 then
        \<exists>k bs. 0 < k \<and> k < 65536 \<and> args = to_bytes 2 (word_of_nat k :: u16) @ bs \<and> length bs = (if oc = REOP_range then 4 else 8) * k
      else if oc = REOP_save_start \<or> oc = REOP_save_end then \<exists>b. args = [b] \<and> unat b < n
      else if oc = REOP_save_reset then \<exists>a b. args = [a, b] \<and> unat b < n
      else oc \<in> {REOP_char, REOP_char32, REOP_dot, REOP_any, REOP_line_start, REOP_line_end, REOP_word_boundary, REOP_not_word_boundary,
                 REOP_back_reference, REOP_backward_back_reference, REOP_prev} \<and> length args = reopcode_info oc - 1)"

inductive frag :: "nat \<Rightarrow> u8 list \<Rightarrow> bool" for n where
  Empty: "frag n []"
| Seq: "frag n a \<Longrightarrow> frag n b \<Longrightarrow> frag n (a @ b)"
| Instr: "plain_instr n oc args \<Longrightarrow> frag n (reop_num oc # args)"
| Opt: "frag n a \<Longrightarrow> oc \<in> split_ops \<Longrightarrow> frag n (reop_num oc # le32 (int (length a)) @ a)"
| Alt: "frag n a \<Longrightarrow> frag n b \<Longrightarrow> oc \<in> split_ops \<Longrightarrow>
    frag n (reop_num oc # le32 (int (length a) + 5) @ a @ reop_num REOP_goto # le32 (int (length b)) @ b)"
| Star: "frag n a \<Longrightarrow> oc \<in> split_ops \<Longrightarrow>
    frag n (reop_num oc # le32 (int (length a) + 5) @ a @ reop_num REOP_goto # le32 (- int (length a) - 10))"
| StarZ: "frag n a \<Longrightarrow> oc \<in> split_ops \<Longrightarrow>
    frag n (reop_num oc # le32 (int (length a) + 6) @ reop_num REOP_push_char_pos # a @ reop_num REOP_bne_char_pos # le32 (- int (length a) - 11))"
| UpTo: "frag n a \<Longrightarrow> oc \<in> split_ops \<Longrightarrow>
    frag n (reop_num REOP_push_i32 # le32 k @ reop_num oc # le32 (int (length a) + 5) @ a @ reop_num REOP_loop # le32 (- int (length a) - 10) @
      [reop_num REOP_drop])"
| Plus: "frag n a \<Longrightarrow> oc \<in> split_ops \<Longrightarrow> frag n (a @ reop_num oc # le32 (- int (length a) - 5))"
| Times: "frag n a \<Longrightarrow>
    frag n (reop_num REOP_push_i32 # le32 k @ a @ reop_num REOP_loop # le32 (- int (length a) - 5) @ [reop_num REOP_drop])"
| Look: "frag n a \<Longrightarrow> oc \<in> {REOP_lookahead, REOP_negative_lookahead} \<Longrightarrow>
    frag n (reop_num oc # le32 (int (length a) + 1) @ a @ [reop_num REOP_match])"
| Quant: "frag n a \<Longrightarrow> re_is_simple_quantifier a = Some (int cc) \<Longrightarrow> 0 < cc \<Longrightarrow>
    frag n (reop_num REOP_simple_greedy_quant # le32 (int (length a) + 1) @ le32 k1 @ le32 k2 @ le32 (int cc) @ a @ [reop_num REOP_match])"

lemma frag_mono: "frag n c \<Longrightarrow> n \<le> m \<Longrightarrow> frag m c"
proof (induction rule: frag.induct)
  case (Instr oc args)
  then have "plain_instr m oc args" by (auto simp: plain_instr_def split: if_splits)
  then show ?case by (rule frag.Instr)
qed (auto intro: frag.intros)

section \<open>The linear pass\<close>

definition lay :: "u8 list \<Rightarrow> nat \<Rightarrow> nat \<Rightarrow> nat \<Rightarrow> nat \<Rightarrow> (nat \<times> nat) list \<Rightarrow> bool" where
  "lay bc pos len d d' I \<longleftrightarrow> (\<forall>stop. pos + len \<le> stop \<longrightarrow> stop \<le> length bc \<longrightarrow>
     layout bc stop pos d = map_option ((@) I) (layout bc stop (pos + len) d'))"

lemma lay_nil: "lay bc pos 0 d d []"
  unfolding lay_def by (metis add_0_right append_Nil option.exhaust option.map(1) option.map(2))

lemma lay_append:
  assumes "lay bc pos l1 d d1 I1" "lay bc (pos + l1) l2 d1 d2 I2"
  shows "lay bc pos (l1 + l2) d d2 (I1 @ I2)"
proof -
  have "layout bc stop pos d = map_option ((@) (I1 @ I2)) (layout bc stop (pos + (l1 + l2)) d2)"
    if "pos + (l1 + l2) \<le> stop" "stop \<le> length bc" for stop
  proof -
    have "layout bc stop pos d = map_option ((@) I1) (layout bc stop (pos + l1) d1)" using assms(1) that by (simp add: lay_def)
    also have "layout bc stop (pos + l1) d1 = map_option ((@) I2) (layout bc stop (pos + l1 + l2) d2)" using assms(2) that by (simp add: lay_def)
    finally show ?thesis by (cases "layout bc stop (pos + l1 + l2) d2") (simp_all add: add.assoc)
  qed
  then show ?thesis by (simp add: lay_def)
qed

lemma lay_instr:
  assumes "opcode_at bc pos = Some oc" "instr_len bc pos oc = Some len" "depth_after oc d = Some d'"
  shows "lay bc pos len d d' [(pos, d)]"
proof -
  have "0 < len" using instr_len_pos [OF assms(2)] .
  then have "layout bc stop pos d = map_option ((@) [(pos, d)]) (layout bc stop (pos + len) d')" if "pos + len \<le> stop" for stop
    using that assms by (subst layout.simps) (cases "layout bc stop (pos + len) d'"; simp)
  then show ?thesis by (simp add: lay_def)
qed

lemma target_in_mono: "target_in L bc p len d \<Longrightarrow> L \<subseteq> L' \<Longrightarrow> target_in L' bc p len d"
  by (auto simp: target_in_def split: option.splits)

lemma instr_ok_mono:
  assumes "instr_ok bc n L p e" "L \<subseteq> L'"
  shows "instr_ok bc n L' p e"
proof -
  obtain oc where oc: "opcode_at bc p = Some oc" using assms(1) by (cases "opcode_at bc p") (simp_all add: instr_ok_def)
  obtain len where len: "instr_len bc p oc = Some len" using assms(1) oc by (cases "instr_len bc p oc") (simp_all add: instr_ok_def)
  obtain d where d: "depth_after oc e = Some d" using assms(1) oc len by (cases "depth_after oc e") (simp_all add: instr_ok_def)
  show ?thesis using assms(1) unfolding instr_ok_def oc len d option.case prod.case
    using assms(2) target_in_mono [OF _ assms(2), of bc p len d] by (meson subsetD)
qed

text \<open>Code placed in a program: the positions and depths of the pass, and the check of its instructions.\<close>

definition placed :: "nat \<Rightarrow> u8 list \<Rightarrow> nat \<Rightarrow> nat \<Rightarrow> nat \<Rightarrow> (nat \<times> nat) list \<Rightarrow> bool" where
  "placed n bc pos len d I \<longleftrightarrow> lay bc pos len d d I \<and> (pos, d) \<in> insert (pos + len, d) (set I) \<and>
     (\<forall>(p, e) \<in> set I. instr_ok bc n (insert (pos + len, d) (set I)) p e)"

lemma placed_mono:
  assumes "placed n bc pos len d I" "insert (pos + len, d) (set I) \<subseteq> L"
  shows "\<forall>(p, e) \<in> set I. instr_ok bc n L p e" "(pos, d) \<in> L"
  using assms instr_ok_mono by (auto simp: placed_def; blast)+

lemma placed_append:
  assumes a: "placed n bc pos l1 d I1" and b: "placed n bc (pos + l1) l2 d I2"
  shows "placed n bc pos (l1 + l2) d (I1 @ I2)"
proof -
  let ?L = "insert (pos + (l1 + l2), d) (set (I1 @ I2))"
  have sb: "insert (pos + l1 + l2, d) (set I2) \<subseteq> ?L" by (auto simp: add.assoc)
  have sa: "insert (pos + l1, d) (set I1) \<subseteq> ?L" using placed_mono(2) [OF b sb] by auto
  show ?thesis using lay_append [of bc pos l1 d d I1 l2 d I2] placed_mono [OF b sb] placed_mono [OF a sa] a b
    by (auto simp: placed_def)
qed

text \<open>Instructions with a displacement.\<close>

lemma jump_instr_len: "has_target oc \<Longrightarrow> oc \<noteq> REOP_simple_greedy_quant \<Longrightarrow> instr_len bc pos oc = Some 5"
  by (auto simp: has_target_def instr_len_def)

lemma jump_instr_ok:
  assumes oc: "opcode_at bc pos = Some oc" "has_target oc" "oc \<noteq> REOP_simple_greedy_quant" "u32_at bc (pos + 1) = Some (word_of_int v)"
    and t: "int (pos + 5) + v = int t" "- (2 ^ 31) \<le> v" "v < 2 ^ 31"
    and d: "depth_after oc d = Some d'" "(t, d') \<in> L" "oc = REOP_goto \<or> (pos + 5, d') \<in> L" "oc = REOP_loop \<longrightarrow> 0 < d"
  shows "instr_ok bc n L pos d"
proof -
  have "target bc pos 5 = Some t" using oc(4) jump_le32 [OF t] by (simp add: target_def)
  then have "target_in L bc pos 5 d'" using d(2) by (simp add: target_in_def)
  moreover have "oc \<noteq> REOP_invalid" "oc \<noteq> REOP_save_start" "oc \<noteq> REOP_save_end" "oc \<noteq> REOP_save_reset" "oc \<noteq> REOP_range" "oc \<noteq> REOP_range32"
    using oc(2) by (auto simp: has_target_def)
  ultimately show ?thesis using oc(1,3) jump_instr_len [OF oc(2,3)] d by (auto simp: instr_ok_def)
qed

lemma jump_at:
  assumes "bc = p @ reop_num oc # le32 v @ q" "pos = length p"
  shows "opcode_at bc pos = Some oc" "u32_at bc (pos + 1) = Some (word_of_int v)"
  using opcode_at_reop [of p oc "le32 v @ q"] u32_at_le32 [of "p @ [reop_num oc]" v q] assms by simp_all

lemma op_at: "bc = p @ reop_num oc # q \<Longrightarrow> pos = length p \<Longrightarrow> opcode_at bc pos = Some oc"
  using opcode_at_reop [of p oc q] by simp

lemma one_byte_len: "oc \<in> {REOP_push_char_pos, REOP_drop, REOP_match} \<Longrightarrow> instr_len bc pos oc = Some 1"
  by (auto simp: instr_len_def)

text \<open>Instructions without operands that are not plain ones: \<open>REOP_push_char_pos\<close>, \<open>REOP_drop\<close>, \<open>REOP_match\<close>.\<close>

lemma byte_instr_ok:
  assumes "opcode_at bc pos = Some oc" "oc \<in> {REOP_push_char_pos, REOP_drop, REOP_match}" "depth_after oc d = Some d'"
    and "oc = REOP_match \<or> (pos + 1, d') \<in> L"
  shows "instr_ok bc n L pos d"
  using assms one_byte_len [OF assms(2), of bc pos] by (auto simp: instr_ok_def has_target_def)

lemma push_instr_ok:
  assumes "opcode_at bc pos = Some REOP_push_i32" "(pos + 5, d + 1) \<in> L"
  shows "instr_ok bc n L pos d" "instr_len bc pos REOP_push_i32 = Some 5" "depth_after REOP_push_i32 d = Some (d + 1)"
  using assms by (auto simp: instr_ok_def has_target_def instr_len_def depth_after_def)

lemma depth_splits [simp]: "oc \<in> split_ops \<Longrightarrow> depth_after oc d = Some d"
  by (auto simp: depth_after_def split_ops_def)

lemma splits_target [simp]: "oc \<in> split_ops \<Longrightarrow> has_target oc" "oc \<in> split_ops \<Longrightarrow> oc \<noteq> REOP_simple_greedy_quant"
  "oc \<in> split_ops \<Longrightarrow> oc \<noteq> REOP_loop"
  by (auto simp: has_target_def split_ops_def)

lemma depth_others [simp]: "depth_after REOP_goto d = Some d" "depth_after REOP_loop d = Some d" "depth_after REOP_push_char_pos d = Some (d + 1)"
  "depth_after REOP_drop (Suc d) = Some d" "depth_after REOP_bne_char_pos (Suc d) = Some d" "depth_after REOP_match d = Some d"
  "depth_after REOP_lookahead d = Some d" "depth_after REOP_negative_lookahead d = Some d" "depth_after REOP_simple_greedy_quant d = Some d"
  "depth_after REOP_push_i32 d = Some (d + 1)"
  by (simp_all add: depth_after_def)

lemma others_target [simp]: "has_target REOP_goto" "has_target REOP_loop" "has_target REOP_bne_char_pos" "has_target REOP_lookahead"
  "has_target REOP_negative_lookahead" "has_target REOP_simple_greedy_quant"
  by (simp_all add: has_target_def)

lemma lay_jump:
  assumes "opcode_at bc pos = Some oc" "has_target oc" "oc \<noteq> REOP_simple_greedy_quant" "depth_after oc d = Some d'"
  shows "lay bc pos 5 d d' [(pos, d)]"
  by (rule lay_instr [OF assms(1) jump_instr_len [OF assms(2,3)] assms(4)])

lemma lay_byte: "opcode_at bc pos = Some oc \<Longrightarrow> oc \<in> {REOP_push_char_pos, REOP_drop, REOP_match} \<Longrightarrow> depth_after oc d = Some d' \<Longrightarrow>
    lay bc pos 1 d d' [(pos, d)]"
  by (rule lay_instr [OF _ one_byte_len])

text \<open>Plain instructions.\<close>

lemma plain_placed:
  assumes "plain_instr n oc args"
  shows "placed n (pre @ (reop_num oc # args) @ post) (length pre) (length (reop_num oc # args)) d [(length pre, d)]"
proof -
  let ?bc = "pre @ (reop_num oc # args) @ post"
  have op: "opcode_at ?bc (length pre) = Some oc" by (rule op_at [of _ pre oc "args @ post"]) simp_all
  have dep: "depth_after oc d = Some d" using assms by (auto simp: plain_instr_def depth_after_def split: if_splits)
  have len: "instr_len ?bc (length pre) oc = Some (length (reop_num oc # args))"
  proof (cases "oc = REOP_range \<or> oc = REOP_range32")
    case True
    then obtain k bs where k: "0 < k" "k < 65536" "args = to_bytes 2 (word_of_nat k :: u16) @ bs" "length bs = (if oc = REOP_range then 4 else 8) * k"
      using assms by (auto simp: plain_instr_def)
    have "u16_at ?bc (length pre + 1) = Some (ucast (word_of_nat k :: u16))"
      using k(3) by (simp add: u16_at_def get_u16_def slice_def of_to_bytes numeral_2_eq_2)
    moreover have "unat (ucast (word_of_nat k :: u16) :: u32) = k"
      using k(2) by (simp add: unsigned_ucast_eq take_bit_eq_mod unat_of_nat)
    ultimately show ?thesis using True k(3,4) by (auto simp: instr_len_def)
  next
    case False
    then have "length args = reopcode_info oc - 1" using assms by (auto simp: plain_instr_def split: if_splits)
    then show ?thesis using False reopcode_info_pos [of oc] by (simp add: instr_len_def)
  qed
  have "instr_ok ?bc n {(length pre + length (reop_num oc # args), d), (length pre, d)} (length pre) d"
  proof -
    have "\<not> has_target oc" "oc \<noteq> REOP_simple_greedy_quant" "oc \<noteq> REOP_invalid" "oc \<noteq> REOP_loop"
      using assms by (auto simp: plain_instr_def has_target_def split: if_splits)
    moreover have "oc \<in> {REOP_save_start, REOP_save_end} \<longrightarrow> byte_below ?bc (length pre + 1) n"
      using assms by (auto simp: plain_instr_def byte_below_def rd_def nth_append)
    moreover have "oc = REOP_save_reset \<longrightarrow> byte_below ?bc (length pre + 2) n"
      using assms by (auto simp: plain_instr_def byte_below_def rd_def nth_append)
    moreover have "oc = REOP_range \<or> oc = REOP_range32 \<longrightarrow> 3 < length (reop_num oc # args)"
      using assms by (auto simp: plain_instr_def)
    ultimately show ?thesis unfolding instr_ok_def op len dep option.case prod.case by simp
  qed
  then show ?thesis using lay_instr [OF op len dep] by (simp add: placed_def)
qed

text \<open>The atom of a simple quantifier.\<close>

lemma at_inside: "p < length a \<Longrightarrow> opcode_at (pre @ a @ post) (length pre + p) = opcode_at a p"
  by (simp add: opcode_at_def rd_def nth_append)

lemma u16_inside: "u16_at a p = Some v \<Longrightarrow> u16_at (pre @ a @ post) (length pre + p) = Some v"
  by (auto simp: u16_at_def get_u16_def slice_def split: if_splits)

lemma instr_len_inside: "instr_len a p oc = Some len \<Longrightarrow> instr_len (pre @ a @ post) (length pre + p) oc = Some len"
  using u16_inside [of a "p + 1" _ pre post] by (auto simp: instr_len_def bind_eq_Some_conv split: if_splits)

lemma simple_body_quantifier:
  assumes "layout (pre @ a @ reop_num REOP_match # post) (length pre + length a) (length pre + p) d = Some L"
    and "simple_quantifier_loop a p n = Some (int m)" "p \<le> length a"
  shows "n \<le> m \<and> simple_body (pre @ a @ reop_num REOP_match # post) (length pre + p) (m - n)"
  using assms
proof (induction a p n arbitrary: d L rule: simple_quantifier_loop.induct)
  case (1 a p n)
  let ?bc = "pre @ a @ reop_num REOP_match # post"
  show ?case
  proof (cases "p < length a")
    case False
    then have p: "p = length a" "m = n" using 1(4,5) by (simp_all add: simple_quantifier_loop.simps [of a])
    have "opcode_at ?bc (length pre + p) = Some REOP_match" using op_at [of ?bc "pre @ a" REOP_match post] p(1) by simp
    then show ?thesis using p(2) by (subst simple_body.simps) (simp add: instr_len_def)
  next
    case True
    obtain oc len where o: "opcode_at a p = Some oc" "instr_len a p oc = Some len" 
        "(if is_simple_char oc then simple_quantifier_loop a (p + len) (n + 1) else if is_simple_test oc then simple_quantifier_loop a (p + len) n else Some (-1)) = Some (int m)"
      using 1(4) True by (subst (asm) simple_quantifier_loop.simps) (auto simp: bind_eq_Some_conv)
    have bc: "opcode_at ?bc (length pre + p) = Some oc" "instr_len ?bc (length pre + p) oc = Some len"
      using o(1,2) at_inside [OF True] instr_len_inside by simp_all
    obtain d' r where l: "length pre + p + len \<le> length pre + length a" "layout ?bc (length pre + length a) (length pre + p + len) d' = Some r"
      by (rule layout_step [OF 1(3)]) (use True bc in auto)
    have s: "is_simple_char oc \<or> is_simple_test oc" using o(3) by (auto split: if_splits)
    have nm: "oc \<noteq> REOP_match" using s by (auto simp: is_simple_char_def is_simple_test_def)
    show ?thesis
    proof (cases "is_simple_char oc")
      case c: True
      have "n + 1 \<le> m \<and> simple_body ?bc (length pre + (p + len)) (m - (n + 1))"
        using 1(1) [OF True o(1,2) c] l o(3) c by (simp add: add.assoc)
      then show ?thesis using bc c nm by (subst simple_body.simps) (auto simp: add.assoc)
    next
      case c: False
      have "n \<le> m \<and> simple_body ?bc (length pre + (p + len)) (m - n)"
        using 1(2) [OF True o(1,2) c] l o(3) c s by (simp add: add.assoc)
      then show ?thesis using bc c nm s by (subst simple_body.simps) (auto simp: add.assoc)
    qed
  qed
qed

section \<open>Fragments pass the check\<close>

lemma jump_ok:
  assumes "bc = p @ reop_num oc # le32 v @ q" "pos = length p" "has_target oc" "oc \<noteq> REOP_simple_greedy_quant"
    and "int (pos + 5) + v = int t" "- (2 ^ 31) \<le> v" "v < 2 ^ 31"
    and "depth_after oc d = Some d'" "(t, d') \<in> L" "oc = REOP_goto \<or> (pos + 5, d') \<in> L" "oc = REOP_loop \<longrightarrow> 0 < d"
  shows "instr_ok bc n L pos d"
  by (rule jump_instr_ok [OF jump_at(1) [OF assms(1,2)] assms(3,4) jump_at(2) [OF assms(1,2)] assms(5-11)])

lemma jump_lay:
  assumes "bc = p @ reop_num oc # le32 v @ q" "pos = length p" "has_target oc" "oc \<noteq> REOP_simple_greedy_quant" "depth_after oc d = Some d'"
  shows "lay bc pos 5 d d' [(pos, d)]"
  by (rule lay_jump [OF jump_at(1) [OF assms(1,2)] assms(3-5)])

text \<open>One lemma per construct: the code \<open>a\<close> inside it is placed, hence the whole construct is.\<close>

lemma opt_placed:
  assumes bc: "bc = pre @ reop_num oc # le32 (int (length a)) @ a @ post" and oc: "oc \<in> split_ops" and len: "length a < 2 ^ 31"
    and a: "placed n bc (length pre + 5) (length a) d Ia"
  shows "\<exists>I. placed n bc (length pre) (5 + length a) d I"
proof -
  define I where "I = [(length pre, d)] @ Ia"
  let ?L = "insert (length pre + (5 + length a), d) (set I)"
  have sub: "insert (length pre + 5 + length a, d) (set Ia) \<subseteq> ?L" by (auto simp: I_def add.assoc)
  note in_a = placed_mono [OF a sub]
  have "instr_ok bc n ?L (length pre) d"
    by (rule jump_ok [where t = "length pre + (5 + length a)", OF bc]) (use oc len in_a(2) in auto)
  moreover have "lay bc (length pre) (5 + length a) d d I" unfolding I_def
    using lay_append [OF jump_lay [OF bc]] oc a by (auto simp: placed_def)
  ultimately show ?thesis using in_a(1) by (auto simp: placed_def I_def intro!: exI [of _ I])
qed

lemma star_placed:
  assumes bc: "bc = pre @ reop_num oc # le32 (int (length a) + 5) @ a @ reop_num REOP_goto # le32 (- int (length a) - 10) @ post"
    and oc: "oc \<in> split_ops" and len: "length a + 10 < 2 ^ 31" and a: "placed n bc (length pre + 5) (length a) d Ia"
  shows "\<exists>I. placed n bc (length pre) (5 + (length a + 5)) d I"
proof -
  let ?p = "length pre" and ?q = "length pre + 5 + length a"
  have bc2: "bc = (pre @ reop_num oc # le32 (int (length a) + 5) @ a) @ reop_num REOP_goto # le32 (- int (length a) - 10) @ post" using bc by simp
  define I where "I = [(?p, d)] @ Ia @ [(?q, d)]"
  let ?L = "insert (?p + (5 + (length a + 5)), d) (set I)"
  have sub: "insert (?p + 5 + length a, d) (set Ia) \<subseteq> ?L" by (auto simp: I_def)
  note in_a = placed_mono [OF a sub]
  have "instr_ok bc n ?L ?p d"
    by (rule jump_ok [where t = "?p + (5 + (length a + 5))", OF bc]) (use oc len in_a(2) in auto)
  moreover have "instr_ok bc n ?L ?q d"
    by (rule jump_ok [where t = ?p, OF bc2]) (use len in \<open>auto simp: I_def\<close>)
  moreover have l: "lay bc ?p 5 d d [(?p, d)]" "lay bc (?p + 5) (length a) d d Ia" "lay bc ?q 5 d d [(?q, d)]"
    using jump_lay [OF bc, of ?p d d] jump_lay [OF bc2, of ?q d d] oc a by (simp_all add: placed_def)
  have "lay bc ?p (5 + (length a + 5)) d d I" unfolding I_def by (rule lay_append [OF l(1) lay_append [OF l(2,3)]])
  ultimately show ?thesis using in_a(1) by (auto simp: placed_def I_def intro!: exI [of _ I])
qed

lemma alt_placed:
  assumes bc: "bc = pre @ reop_num oc # le32 (int (length a) + 5) @ a @ reop_num REOP_goto # le32 (int (length b)) @ b @ post"
    and oc: "oc \<in> split_ops" and len: "length a + length b + 10 < 2 ^ 31" and a: "placed n bc (length pre + 5) (length a) d Ia"
    and b: "placed n bc (length pre + 5 + length a + 5) (length b) d Ib"
  shows "\<exists>I. placed n bc (length pre) (5 + (length a + (5 + length b))) d I"
proof -
  let ?p = "length pre" and ?q = "length pre + 5 + length a"
  have bc2: "bc = (pre @ reop_num oc # le32 (int (length a) + 5) @ a) @ reop_num REOP_goto # le32 (int (length b)) @ b @ post" using bc by simp
  define I where "I = [(?p, d)] @ Ia @ [(?q, d)] @ Ib"
  let ?L = "insert (?p + (5 + (length a + (5 + length b))), d) (set I)"
  have subb: "insert (?q + 5 + length b, d) (set Ib) \<subseteq> ?L" by (auto simp: I_def)
  note in_b = placed_mono [OF b subb]
  have sub: "insert (?p + 5 + length a, d) (set Ia) \<subseteq> ?L" by (auto simp: I_def)
  note in_a = placed_mono [OF a sub]
  have "instr_ok bc n ?L ?p d"
    by (rule jump_ok [where t = "?q + 5", OF bc]) (use oc len in_a(2) in_b(2) in auto)
  moreover have "instr_ok bc n ?L ?q d"
    by (rule jump_ok [where t = "?q + 5 + length b", OF bc2]) (use len in \<open>auto simp: I_def\<close>)
  moreover have l: "lay bc ?p 5 d d [(?p, d)]" "lay bc (?p + 5) (length a) d d Ia" "lay bc ?q 5 d d [(?q, d)]" "lay bc (?q + 5) (length b) d d Ib"
    using jump_lay [OF bc, of ?p d d] jump_lay [OF bc2, of ?q d d] oc a b by (simp_all add: placed_def)
  have "lay bc ?p (5 + (length a + (5 + length b))) d d I" unfolding I_def
    by (rule lay_append [OF l(1) lay_append [OF l(2) lay_append [OF l(3,4)]]])
  ultimately show ?thesis using in_a(1) in_b(1) by (auto simp: placed_def I_def intro!: exI [of _ I])
qed

lemma plus_placed:
  assumes bc: "bc = (pre @ a) @ reop_num oc # le32 (- int (length a) - 5) @ post"
    and oc: "oc \<in> split_ops" and len: "length a + 5 < 2 ^ 31" and a: "placed n bc (length pre) (length a) d Ia"
  shows "\<exists>I. placed n bc (length pre) (length a + 5) d I"
proof -
  let ?p = "length pre" and ?q = "length pre + length a"
  define I where "I = Ia @ [(?q, d)]"
  let ?L = "insert (?p + (length a + 5), d) (set I)"
  have sub: "insert (?p + length a, d) (set Ia) \<subseteq> ?L" by (auto simp: I_def)
  note in_a = placed_mono [OF a sub]
  have "instr_ok bc n ?L ?q d" by (rule jump_ok [where t = ?p, OF bc]) (use oc len in_a(2) in auto)
  moreover have l: "lay bc ?p (length a) d d Ia" "lay bc ?q 5 d d [(?q, d)]"
    using jump_lay [OF bc, of ?q d d] oc a by (simp_all add: placed_def)
  have "lay bc ?p (length a + 5) d d I" unfolding I_def by (rule lay_append [OF l])
  ultimately show ?thesis using in_a by (auto simp: placed_def I_def intro!: exI [of _ I])
qed

lemma starz_placed:
  assumes bc: "bc = pre @ reop_num oc # le32 (int (length a) + 6) @ reop_num REOP_push_char_pos # a @
      reop_num REOP_bne_char_pos # le32 (- int (length a) - 11) @ post"
    and oc: "oc \<in> split_ops" and len: "length a + 11 < 2 ^ 31" and a: "placed n bc (length pre + 6) (length a) (Suc d) Ia"
  shows "\<exists>I. placed n bc (length pre) (5 + (1 + (length a + 5))) d I"
proof -
  let ?p = "length pre" and ?r = "length pre + 5" and ?q = "length pre + 6 + length a"
  have bc1: "bc = (pre @ reop_num oc # le32 (int (length a) + 6)) @ reop_num REOP_push_char_pos # a @
      reop_num REOP_bne_char_pos # le32 (- int (length a) - 11) @ post" using bc by simp
  have bc2: "bc = (pre @ reop_num oc # le32 (int (length a) + 6) @ reop_num REOP_push_char_pos # a) @
      reop_num REOP_bne_char_pos # le32 (- int (length a) - 11) @ post" using bc by simp
  have r: "opcode_at bc ?r = Some REOP_push_char_pos" by (rule op_at [OF bc1]) simp
  define I where "I = [(?p, d)] @ [(?r, d)] @ Ia @ [(?q, Suc d)]"
  let ?L = "insert (?p + (5 + (1 + (length a + 5))), d) (set I)"
  have sub: "insert (?p + 6 + length a, Suc d) (set Ia) \<subseteq> ?L" by (auto simp: I_def)
  note in_a = placed_mono [OF a sub]
  have "instr_ok bc n ?L ?p d"
    by (rule jump_ok [where t = "?p + (5 + (1 + (length a + 5)))", OF bc]) (use oc len in \<open>auto simp: I_def\<close>)
  moreover have "instr_ok bc n ?L ?r d" by (rule byte_instr_ok [OF r]) (use in_a(2) in \<open>auto simp: add.commute\<close>)
  moreover have "instr_ok bc n ?L ?q (Suc d)"
    by (rule jump_ok [where t = ?p and d' = d, OF bc2]) (use len in \<open>auto simp: I_def\<close>)
  moreover have l: "lay bc ?p 5 d d [(?p, d)]" "lay bc (?p + 5) 1 d (Suc d) [(?r, d)]" "lay bc (?p + 5 + 1) (length a) (Suc d) (Suc d) Ia"
      "lay bc (?p + 5 + 1 + length a) 5 (Suc d) d [(?q, Suc d)]"
    using jump_lay [OF bc, of ?p d d] jump_lay [OF bc2, of ?q "Suc d" d] lay_byte [OF r] oc a by (simp_all add: placed_def ac_simps)
  have "lay bc ?p (5 + (1 + (length a + 5))) d d I" unfolding I_def
    by (rule lay_append [OF l(1) lay_append [OF l(2) lay_append [OF l(3,4)]]])
  ultimately show ?thesis using in_a(1) by (auto simp: placed_def I_def intro!: exI [of _ I])
qed

lemma push_lay: "bc = p @ reop_num REOP_push_i32 # le32 v @ q \<Longrightarrow> pos = length p \<Longrightarrow> lay bc pos 5 d (Suc d) [(pos, d)]"
  using lay_instr [OF op_at [of bc p REOP_push_i32 "le32 v @ q" pos], of 5 d "Suc d"] by (simp add: instr_len_def)

lemma times_placed:
  assumes bc: "bc = pre @ reop_num REOP_push_i32 # le32 k @ a @ reop_num REOP_loop # le32 (- int (length a) - 5) @ reop_num REOP_drop # post"
    and len: "length a + 11 < 2 ^ 31" and a: "placed n bc (length pre + 5) (length a) (Suc d) Ia"
  shows "\<exists>I. placed n bc (length pre) (5 + (length a + (5 + 1))) d I"
proof -
  let ?p = "length pre" and ?q = "length pre + 5 + length a" and ?r = "length pre + 5 + length a + 5"
  have bc2: "bc = (pre @ reop_num REOP_push_i32 # le32 k @ a) @ reop_num REOP_loop # le32 (- int (length a) - 5) @ reop_num REOP_drop # post"
    using bc by simp
  have bc3: "bc = (pre @ reop_num REOP_push_i32 # le32 k @ a @ reop_num REOP_loop # le32 (- int (length a) - 5)) @ reop_num REOP_drop # post"
    using bc by simp
  have p: "opcode_at bc ?p = Some REOP_push_i32" by (rule op_at [OF bc]) simp
  have r: "opcode_at bc ?r = Some REOP_drop" by (rule op_at [OF bc3]) simp
  define I where "I = [(?p, d)] @ Ia @ [(?q, Suc d)] @ [(?r, Suc d)]"
  let ?L = "insert (?p + (5 + (length a + (5 + 1))), d) (set I)"
  have sub: "insert (?p + 5 + length a, Suc d) (set Ia) \<subseteq> ?L" by (auto simp: I_def)
  note in_a = placed_mono [OF a sub]
  have "instr_ok bc n ?L ?p d" by (rule push_instr_ok(1) [OF p]) (use in_a(2) in auto)
  moreover have "instr_ok bc n ?L ?q (Suc d)"
    by (rule jump_ok [where t = "?p + 5", OF bc2]) (use len in_a(2) in \<open>auto simp: I_def\<close>)
  moreover have "instr_ok bc n ?L ?r (Suc d)" by (rule byte_instr_ok [OF r]) (auto simp: I_def)
  moreover have l: "lay bc ?p 5 d (Suc d) [(?p, d)]" "lay bc (?p + 5) (length a) (Suc d) (Suc d) Ia"
      "lay bc ?q 5 (Suc d) (Suc d) [(?q, Suc d)]" "lay bc ?r 1 (Suc d) d [(?r, Suc d)]"
    using push_lay [OF bc refl] jump_lay [OF bc2, of ?q "Suc d" "Suc d"] lay_byte [OF r] a by (simp_all add: placed_def)
  have "lay bc ?p (5 + (length a + (5 + 1))) d d I" unfolding I_def
    by (rule lay_append [OF l(1) lay_append [OF l(2) lay_append [OF l(3,4)]]])
  ultimately show ?thesis using in_a(1) by (auto simp: placed_def I_def intro!: exI [of _ I])
qed

lemma upto_placed:
  assumes bc: "bc = pre @ reop_num REOP_push_i32 # le32 k @ reop_num oc # le32 (int (length a) + 5) @ a @
      reop_num REOP_loop # le32 (- int (length a) - 10) @ reop_num REOP_drop # post"
    and oc: "oc \<in> split_ops" and len: "length a + 16 < 2 ^ 31" and a: "placed n bc (length pre + 10) (length a) (Suc d) Ia"
  shows "\<exists>I. placed n bc (length pre) (5 + (5 + (length a + (5 + 1)))) d I"
proof -
  let ?p = "length pre" and ?s = "length pre + 5" and ?q = "length pre + 10 + length a" and ?r = "length pre + 10 + length a + 5"
  have bc1: "bc = (pre @ reop_num REOP_push_i32 # le32 k) @ reop_num oc # le32 (int (length a) + 5) @ a @
      reop_num REOP_loop # le32 (- int (length a) - 10) @ reop_num REOP_drop # post" using bc by simp
  have bc2: "bc = (pre @ reop_num REOP_push_i32 # le32 k @ reop_num oc # le32 (int (length a) + 5) @ a) @
      reop_num REOP_loop # le32 (- int (length a) - 10) @ reop_num REOP_drop # post" using bc by simp
  have bc3: "bc = (pre @ reop_num REOP_push_i32 # le32 k @ reop_num oc # le32 (int (length a) + 5) @ a @
      reop_num REOP_loop # le32 (- int (length a) - 10)) @ reop_num REOP_drop # post" using bc by simp
  have p: "opcode_at bc ?p = Some REOP_push_i32" by (rule op_at [OF bc]) simp
  have r: "opcode_at bc ?r = Some REOP_drop" by (rule op_at [OF bc3]) simp
  define I where "I = [(?p, d)] @ [(?s, Suc d)] @ Ia @ [(?q, Suc d)] @ [(?r, Suc d)]"
  let ?L = "insert (?p + (5 + (5 + (length a + (5 + 1)))), d) (set I)"
  have sub: "insert (?p + 10 + length a, Suc d) (set Ia) \<subseteq> ?L" by (auto simp: I_def)
  note in_a = placed_mono [OF a sub]
  have "instr_ok bc n ?L ?p d" by (rule push_instr_ok(1) [OF p]) (auto simp: I_def)
  moreover have "instr_ok bc n ?L ?s (Suc d)"
    by (rule jump_ok [where t = ?r, OF bc1]) (use oc len in_a(2) in \<open>auto simp: I_def ac_simps\<close>)
  moreover have "instr_ok bc n ?L ?q (Suc d)"
    by (rule jump_ok [where t = ?s, OF bc2]) (use len in \<open>auto simp: I_def\<close>)
  moreover have "instr_ok bc n ?L ?r (Suc d)" by (rule byte_instr_ok [OF r]) (auto simp: I_def)
  moreover have l: "lay bc ?p 5 d (Suc d) [(?p, d)]" "lay bc (?p + 5) 5 (Suc d) (Suc d) [(?s, Suc d)]"
      "lay bc (?p + 5 + 5) (length a) (Suc d) (Suc d) Ia"
      "lay bc (?p + 5 + 5 + length a) 5 (Suc d) (Suc d) [(?q, Suc d)]" "lay bc (?p + 5 + 5 + length a + 5) 1 (Suc d) d [(?r, Suc d)]"
    using push_lay [OF bc refl] jump_lay [OF bc1, of ?s "Suc d" "Suc d"] jump_lay [OF bc2, of ?q "Suc d" "Suc d"] lay_byte [OF r] a oc
    by (simp_all add: placed_def ac_simps)
  have "lay bc ?p (5 + (5 + (length a + (5 + 1)))) d d I" unfolding I_def
    by (rule lay_append [OF l(1) lay_append [OF l(2) lay_append [OF l(3) lay_append [OF l(4,5)]]]])
  ultimately show ?thesis using in_a(1) by (auto simp: placed_def I_def intro!: exI [of _ I])
qed

lemma look_placed:
  assumes bc: "bc = pre @ reop_num oc # le32 (int (length a) + 1) @ a @ reop_num REOP_match # post"
    and oc: "oc = REOP_lookahead \<or> oc = REOP_negative_lookahead" and len: "length a + 6 < 2 ^ 31" and a: "placed n bc (length pre + 5) (length a) d Ia"
  shows "\<exists>I. placed n bc (length pre) (5 + (length a + 1)) d I"
proof -
  let ?p = "length pre" and ?q = "length pre + 5 + length a"
  have bc2: "bc = (pre @ reop_num oc # le32 (int (length a) + 1) @ a) @ reop_num REOP_match # post" using bc by simp
  have q: "opcode_at bc ?q = Some REOP_match" by (rule op_at [OF bc2]) simp
  define I where "I = [(?p, d)] @ Ia @ [(?q, d)]"
  let ?L = "insert (?p + (5 + (length a + 1)), d) (set I)"
  have sub: "insert (?p + 5 + length a, d) (set Ia) \<subseteq> ?L" by (auto simp: I_def)
  note in_a = placed_mono [OF a sub]
  have dd: "depth_after oc d = Some d" "has_target oc" "oc \<noteq> REOP_simple_greedy_quant" "oc \<noteq> REOP_loop" using oc by auto
  have "instr_ok bc n ?L ?p d"
    by (rule jump_ok [where t = "?p + (5 + (length a + 1))", OF bc]) (use dd len in_a(2) in auto)
  moreover have "instr_ok bc n ?L ?q d" by (rule byte_instr_ok [OF q]) auto
  moreover have l: "lay bc ?p 5 d d [(?p, d)]" "lay bc (?p + 5) (length a) d d Ia" "lay bc ?q 1 d d [(?q, d)]"
    using jump_lay [OF bc, of ?p d d] lay_byte [OF q] dd a by (simp_all add: placed_def)
  have "lay bc ?p (5 + (length a + 1)) d d I" unfolding I_def by (rule lay_append [OF l(1) lay_append [OF l(2,3)]])
  ultimately show ?thesis using in_a(1) by (auto simp: placed_def I_def intro!: exI [of _ I])
qed

lemma quant_placed:
  assumes bc: "bc = pre @ reop_num REOP_simple_greedy_quant # le32 (int (length a) + 1) @ le32 k1 @ le32 k2 @ le32 (int cc) @ a @ reop_num REOP_match # post"
    and cc: "re_is_simple_quantifier a = Some (int cc)" "0 < cc" "cc < 2 ^ 31" and len: "length a + 18 < 2 ^ 31"
    and a: "placed n bc (length pre + 17) (length a) d Ia"
  shows "\<exists>I. placed n bc (length pre) (17 + (length a + 1)) d I"
proof -
  let ?p = "length pre" and ?q = "length pre + 17 + length a"
  let ?h = "pre @ reop_num REOP_simple_greedy_quant # le32 (int (length a) + 1) @ le32 k1 @ le32 k2"
  have bc2: "bc = (?h @ le32 (int cc) @ a) @ reop_num REOP_match # post" using bc by simp
  have q: "opcode_at bc ?q = Some REOP_match" by (rule op_at [OF bc2]) simp
  note p = jump_at [OF bc refl]
  define I where "I = [(?p, d)] @ Ia @ [(?q, d)]"
  let ?L = "insert (?p + (17 + (length a + 1)), d) (set I)"
  have sub: "insert (?p + 17 + length a, d) (set Ia) \<subseteq> ?L" by (auto simp: I_def)
  note in_a = placed_mono [OF a sub]
  have il: "instr_len bc ?p REOP_simple_greedy_quant = Some 17" by (simp add: instr_len_def)
  have lay_a: "lay bc (?p + 17) (length a) d d Ia" using a by (simp add: placed_def)
  have "layout bc (?p + 17 + length a) (?p + 17 + length a) d = Some []" by (simp add: layout.simps)
  moreover have "?p + 17 + length a \<le> length bc" using bc by simp
  ultimately have "layout bc (?p + 17 + length a) (?p + 17) d = Some Ia" using lay_a by (simp add: lay_def)
  then have "simple_body bc (?p + 17) cc"
    using simple_body_quantifier [of "?h @ le32 (int cc)" a post 0 d Ia 0 cc] cc(1) bc2 by (simp add: re_is_simple_quantifier_def)
  moreover have "u32_at bc (?p + 13) = Some (word_of_int (int cc))"
    using u32_at_le32 [of ?h "int cc" "a @ reop_num REOP_match # post"] bc by simp
  moreover have "(word_of_int (int cc) :: u32) > 0" "unat (word_of_int (int cc) :: u32) = cc"
    using cc(2,3) by (simp_all add: word_less_nat_alt unat_of_nat)
  ultimately have quant: "quant_ok bc ?p" by (simp add: quant_ok_def)
  have "target bc ?p 17 = Some (?p + (17 + (length a + 1)))"
    using p(2) jump_le32 [of "?p + 17" "int (length a) + 1" "?p + (17 + (length a + 1))"] len by (simp add: target_def)
  then have "target_in ?L bc ?p 17 d" by (simp add: target_in_def)
  then have "instr_ok bc n ?L ?p d" using quant in_a(2) unfolding instr_ok_def p(1) il depth_others option.case prod.case by simp
  moreover have "instr_ok bc n ?L ?q d" by (rule byte_instr_ok [OF q]) auto
  moreover have l: "lay bc ?p 17 d d [(?p, d)]" "lay bc ?q 1 d d [(?q, d)]" using lay_instr [OF p(1) il] lay_byte [OF q] by simp_all
  have "lay bc ?p (17 + (length a + 1)) d d I" unfolding I_def by (rule lay_append [OF l(1) lay_append [OF lay_a l(2)]])
  ultimately show ?thesis using in_a(1) by (auto simp: placed_def I_def intro!: exI [of _ I])
qed

lemma simple_quantifier_bound: "simple_quantifier_loop a p n = Some (int m) \<Longrightarrow> m \<le> n + (length a - p)"
proof (induction a p n rule: simple_quantifier_loop.induct)
  case (1 a p n)
  show ?case
  proof (cases "p < length a")
    case False
    then show ?thesis using "1.prems" by (simp add: simple_quantifier_loop.simps [of a])
  next
    case True
    obtain oc len where o: "opcode_at a p = Some oc" "instr_len a p oc = Some len"
        "(if is_simple_char oc then simple_quantifier_loop a (p + len) (n + 1) else if is_simple_test oc then simple_quantifier_loop a (p + len) n else Some (-1)) = Some (int m)"
      using "1.prems" True by (subst (asm) simple_quantifier_loop.simps) (auto simp: bind_eq_Some_conv)
    show ?thesis using "1.IH" [OF True o(1,2)] o(3) instr_len_pos [OF o(2)] True by (auto split: if_splits)
  qed
qed

lemma frag_placed:
  assumes "frag n c"
  shows "length c < 2 ^ 31 \<Longrightarrow> \<exists>I. placed n (pre @ c @ post) (length pre) (length c) d I"
  using assms
proof (induction arbitrary: pre post d rule: frag.induct)
  case Empty
  show ?case using lay_nil [of "pre @ post" "length pre" d] by (auto simp: placed_def intro!: exI [of _ "[]"])
next
  case (Seq a b)
  obtain I1 where 1: "placed n (pre @ a @ b @ post) (length pre) (length a) d I1" using Seq.IH(1) [of pre "b @ post" d] Seq.prems by auto
  obtain I2 where 2: "placed n (pre @ a @ b @ post) (length pre + length a) (length b) d I2" using Seq.IH(2) [of "pre @ a" post d] Seq.prems by auto
  show ?case using placed_append [OF 1 2] by auto
next
  case (Instr oc args)
  show ?case using plain_placed [OF Instr.hyps] by blast
next
  case (Opt a oc)
  let ?h = "reop_num oc # le32 (int (length a))"
  obtain I where "placed n (pre @ ?h @ a @ post) (length pre + 5) (length a) d I" using Opt.IH [of "pre @ ?h" post d] Opt.prems by auto
  then show ?case using opt_placed [of _ pre oc a post n d I] Opt by auto
next
  case (Alt a b oc)
  let ?h = "reop_num oc # le32 (int (length a) + 5)" and ?g = "reop_num REOP_goto # le32 (int (length b))"
  obtain I where I: "placed n (pre @ ?h @ a @ ?g @ b @ post) (length pre + 5) (length a) d I"
    using Alt.IH(1) [of "pre @ ?h" "?g @ b @ post" d] Alt.prems by auto
  obtain J where J: "placed n (pre @ ?h @ a @ ?g @ b @ post) (length pre + 5 + length a + 5) (length b) d J"
    using Alt.IH(2) [of "pre @ ?h @ a @ ?g" post d] Alt.prems by (auto simp: ac_simps)
  show ?case using alt_placed [OF _ _ _ I J, of oc post] Alt by (auto simp: ac_simps)
next
  case (Star a oc)
  let ?h = "reop_num oc # le32 (int (length a) + 5)" and ?g = "reop_num REOP_goto # le32 (- int (length a) - 10)"
  obtain I where I: "placed n (pre @ ?h @ a @ ?g @ post) (length pre + 5) (length a) d I"
    using Star.IH [of "pre @ ?h" "?g @ post" d] Star.prems by auto
  show ?case using star_placed [OF _ _ _ I, of oc post] Star by (auto simp: ac_simps)
next
  case (StarZ a oc)
  let ?h = "reop_num oc # le32 (int (length a) + 6) @ [reop_num REOP_push_char_pos]" and ?g = "reop_num REOP_bne_char_pos # le32 (- int (length a) - 11)"
  obtain I where I: "placed n (pre @ ?h @ a @ ?g @ post) (length pre + 6) (length a) (Suc d) I"
    using StarZ.IH [of "pre @ ?h" "?g @ post" "Suc d"] StarZ.prems by auto
  show ?case using starz_placed [OF _ _ _ I, of oc post] StarZ by (auto simp: ac_simps)
next
  case (UpTo a oc k)
  let ?h = "reop_num REOP_push_i32 # le32 k @ reop_num oc # le32 (int (length a) + 5)"
    and ?g = "reop_num REOP_loop # le32 (- int (length a) - 10) @ [reop_num REOP_drop]"
  obtain I where I: "placed n (pre @ ?h @ a @ ?g @ post) (length pre + 10) (length a) (Suc d) I"
    using UpTo.IH [of "pre @ ?h" "?g @ post" "Suc d"] UpTo.prems by auto
  show ?case using upto_placed [OF _ _ _ I, of k oc post] UpTo by (auto simp: ac_simps)
next
  case (Plus a oc)
  let ?g = "reop_num oc # le32 (- int (length a) - 5)"
  obtain I where I: "placed n (pre @ a @ ?g @ post) (length pre) (length a) d I"
    using Plus.IH [of pre "?g @ post" d] Plus.prems by auto
  show ?case using plus_placed [OF _ _ _ I, of oc post] Plus by (auto simp: ac_simps)
next
  case (Times a k)
  let ?h = "reop_num REOP_push_i32 # le32 k" and ?g = "reop_num REOP_loop # le32 (- int (length a) - 5) @ [reop_num REOP_drop]"
  obtain I where I: "placed n (pre @ ?h @ a @ ?g @ post) (length pre + 5) (length a) (Suc d) I"
    using Times.IH [of "pre @ ?h" "?g @ post" "Suc d"] Times.prems by auto
  show ?case using times_placed [OF _ _ I, of k post] Times by (auto simp: ac_simps)
next
  case (Look a oc)
  let ?h = "reop_num oc # le32 (int (length a) + 1)" and ?g = "[reop_num REOP_match]"
  obtain I where I: "placed n (pre @ ?h @ a @ ?g @ post) (length pre + 5) (length a) d I"
    using Look.IH [of "pre @ ?h" "?g @ post" d] Look.prems by auto
  show ?case using look_placed [OF _ _ _ I, of oc post] Look by (auto simp: ac_simps)
next
  case (Quant a cc k1 k2)
  let ?h = "reop_num REOP_simple_greedy_quant # le32 (int (length a) + 1) @ le32 k1 @ le32 k2 @ le32 (int cc)" and ?g = "[reop_num REOP_match]"
  obtain I where I: "placed n (pre @ ?h @ a @ ?g @ post) (length pre + 17) (length a) d I"
    using Quant.IH [of "pre @ ?h" "?g @ post" d] Quant.prems by auto
  have "cc \<le> length a" using simple_quantifier_bound [of a 0 0 cc] Quant.hyps(2) by (simp add: re_is_simple_quantifier_def)
  then show ?case using quant_placed [OF _ _ _ _ _ I, of k1 k2 cc post] Quant by (auto simp: ac_simps)
qed

text \<open>Header, fragment and \<open>REOP_match\<close>, with anything after them.\<close>

lemma fragment_checked:
  assumes f: "frag n body" and len: "length hdr = RE_HEADER_LEN" "length body < 2 ^ 31"
    and n: "unat (hdr ! RE_HEADER_CAPTURE_COUNT) = n"
    and st: "re_compute_stack_size (hdr @ body @ [reop_num REOP_match]) = Some (int (unat (hdr ! RE_HEADER_STACK_SIZE)))"
  shows "bytecode_ok (hdr @ body @ reop_num REOP_match # rest) (RE_HEADER_LEN + length body + 1)"
proof -
  let ?bc = "hdr @ body @ reop_num REOP_match # rest" and ?stop = "RE_HEADER_LEN + length body + 1"
  obtain I where I: "placed n ?bc RE_HEADER_LEN (length body) 0 I" using frag_placed [OF f len(2), of hdr "reop_num REOP_match # rest" 0] len(1) by auto
  have m: "opcode_at ?bc (RE_HEADER_LEN + length body) = Some REOP_match" using op_at [of ?bc "hdr @ body" REOP_match rest] len(1) by simp
  have l: "lay ?bc RE_HEADER_LEN (length body) 0 0 I" "lay ?bc (RE_HEADER_LEN + length body) 1 0 0 [(RE_HEADER_LEN + length body, 0)]"
    using I lay_byte [OF m] by (simp_all add: placed_def)
  have "layout ?bc ?stop ?stop 0 = Some []" by (simp add: layout.simps)
  then have lay: "layout ?bc ?stop RE_HEADER_LEN 0 = Some (I @ [(RE_HEADER_LEN + length body, 0)])"
    using lay_append [OF l] len(1) by (simp add: lay_def)
  let ?L = "set (I @ [(RE_HEADER_LEN + length body, 0)])"
  have "\<forall>(p, e) \<in> set I. instr_ok ?bc n ?L p e" using placed_mono(1) [OF I, of ?L] by auto
  moreover have "instr_ok ?bc n ?L (RE_HEADER_LEN + length body) 0" by (rule byte_instr_ok [OF m]) auto
  ultimately have "\<forall>(p, e) \<in> ?L. instr_ok ?bc n ?L p e" by auto
  moreover have "take ?stop ?bc = hdr @ body @ [reop_num REOP_match]" using len(1) by simp
  moreover have "?bc ! RE_HEADER_CAPTURE_COUNT = hdr ! RE_HEADER_CAPTURE_COUNT" "?bc ! RE_HEADER_STACK_SIZE = hdr ! RE_HEADER_STACK_SIZE"
    using len(1) by (simp_all add: nth_append RE_HEADER_CAPTURE_COUNT_def RE_HEADER_STACK_SIZE_def RE_HEADER_LEN_def)
  ultimately show ?thesis using lay n st len(1) by (simp add: bytecode_ok_def)
qed

end
