(* ===== verification/Regexp_Emit.thy ===== *)
theory Regexp_Emit
  imports Regexp_Fragment
begin

unbundle bit_operations_syntax

text \<open>
  What the emitting functions of the compiler do to the code, as long as no allocation fails: the flag of a
  failure stays set, so that the test at the end of \<open>lre_compile\<close> finds it. The allocator grants no block of
  2^31 bytes or more (lengths are of the C type int).
\<close>

section \<open>Buffers\<close>

definition small_blocks :: "'m realloc_func \<Rightarrow> bool" where
  "small_blocks f \<longleftrightarrow> (\<forall>m p n. snd (f m p n) \<noteq> None \<longrightarrow> unat n < 2 ^ 31)"

definition buf_ok :: "'m DynBuf \<Rightarrow> bool" where
  "buf_ok d \<longleftrightarrow> dbuf_wf d \<and> unat (allocated_size d) < 2 ^ 31 \<and> (\<forall>f. realloc_func d = Some f \<longrightarrow> small_blocks f)"

lemma buf_ok_size: "buf_ok d \<Longrightarrow> length (content d) = unat (dsize d) \<and> unat (dsize d) < 2 ^ 31"
  using length_content [of d] by (auto simp: buf_ok_def dbuf_wf_def word_le_nat_alt)

lemma opaque_simps [simp]: "dbuf_wf (d\<lparr>opaque := m\<rparr>) = dbuf_wf d" "content (d\<lparr>opaque := m\<rparr>) = content d" "buf_ok (d\<lparr>opaque := m\<rparr>) = buf_ok d"
  "mem (d\<lparr>opaque := m\<rparr>) = mem d"
  by (simp_all add: dbuf_wf_def content_def mem_def buf_ok_def)

lemma realloc_keeps:
  assumes "dbuf_realloc d n = Some (r, d')"
  shows "derror d \<longrightarrow> derror d'" "realloc_func d' = realloc_func d"
    "(\<forall>f. realloc_func d = Some f \<longrightarrow> small_blocks f) \<Longrightarrow> unat (allocated_size d) < 2 ^ 31 \<Longrightarrow> unat (allocated_size d') < 2 ^ 31"
proof -
  have "(derror d \<longrightarrow> derror d') \<and> realloc_func d' = realloc_func d \<and> ((\<forall>f. realloc_func d = Some f \<longrightarrow> small_blocks f) \<longrightarrow>
      unat (allocated_size d) < 2 ^ 31 \<longrightarrow> unat (allocated_size d') < 2 ^ 31)"
  proof (cases "n > allocated_size d \<and> \<not> derror d")
    case False
    then show ?thesis using assms by (auto simp: dbuf_realloc_def split: if_splits)
  next
    case True
    define k where "k = (if allocated_size d * 3 div 2 > n then allocated_size d * 3 div 2 else n)"
    obtain f where f: "realloc_func d = Some f" using True assms by (auto simp: dbuf_realloc_def Let_def bind_eq_Some_conv)
    obtain m b where fb: "f (opaque d) (buf d) k = (m, b)" by (cases "f (opaque d) (buf d) k")
    have eq: "(case b of None \<Rightarrow> Some (-1, d\<lparr>opaque := m, derror := True\<rparr>) | Some nb \<Rightarrow> Some (0, d\<lparr>opaque := m, buf := Some nb, allocated_size := k\<rparr>)) = Some (r, d')"
      using True fb f assms by (auto simp: dbuf_realloc_def Let_def k_def [symmetric] split: option.split)
    have "small_blocks f \<Longrightarrow> b \<noteq> None \<Longrightarrow> unat k < 2 ^ 31" using fb unfolding small_blocks_def by (metis snd_conv)
    then show ?thesis using eq f by (cases b) auto
  qed
  then show "derror d \<longrightarrow> derror d'" "realloc_func d' = realloc_func d"
    "(\<forall>f. realloc_func d = Some f \<longrightarrow> small_blocks f) \<Longrightarrow> unat (allocated_size d) < 2 ^ 31 \<Longrightarrow> unat (allocated_size d') < 2 ^ 31" by blast+
qed

lemma store_keeps: "buf_store d at data = Some d' \<Longrightarrow> derror d' = derror d \<and> realloc_func d' = realloc_func d \<and> allocated_size d' = allocated_size d \<and>
    dsize d' = dsize d \<and> opaque d' = opaque d"
  by (auto simp: buf_store_def bind_eq_Some_conv split: option.splits if_splits)

lemma room_keeps:
  assumes "(if b then dbuf_realloc d n else Some (0, d)) = Some (r, d')"
  shows "derror d \<longrightarrow> derror d'" "realloc_func d' = realloc_func d"
    "(\<forall>f. realloc_func d = Some f \<longrightarrow> small_blocks f) \<Longrightarrow> unat (allocated_size d) < 2 ^ 31 \<Longrightarrow> unat (allocated_size d') < 2 ^ 31"
  using realloc_keeps [of d n r d'] assms by (auto split: if_splits)

lemma dbuf_put_kept:
  assumes "dbuf_put d data = Some (r, d')"
  shows "derror d \<longrightarrow> derror d'"
    "buf_ok d \<Longrightarrow> length data < 2 ^ 31 \<Longrightarrow> buf_ok d' \<and> (\<not> derror d' \<longrightarrow> content d' = content d @ data)"
proof -
  obtain r1 d1 where m: "(if dsize d + word_of_nat (length data) > allocated_size d then dbuf_realloc d (dsize d + word_of_nat (length data)) else Some (0, d)) = Some (r1, d1)"
      "(if r1 \<noteq> 0 then Some (-1, d1) else do { d2 \<leftarrow> buf_store d1 (unat (dsize d1)) data; Some (0, d2\<lparr>dsize := dsize d2 + word_of_nat (length data)\<rparr>) }) = Some (r, d')"
    using assms by (auto simp: dbuf_put_def Let_def bind_eq_Some_conv)
  have k: "derror d' = derror d1" "realloc_func d' = realloc_func d1" "allocated_size d' = allocated_size d1"
    using m(2) by (auto simp: bind_eq_Some_conv split: if_splits dest!: store_keeps)
  show "derror d \<longrightarrow> derror d'" using room_keeps(1) [OF m(1)] k(1) by simp
  assume d: "buf_ok d" "length data < 2 ^ 31"
  have "unat (dsize d) + length data < 2 ^ 32" using buf_ok_size [OF d(1)] d(2) by simp
  then have a: "appends d data (r, d')" using dbuf_put_ok [of d data] d(1) assms by (simp add: buf_ok_def)
  then show "buf_ok d' \<and> (\<not> derror d' \<longrightarrow> content d' = content d @ data)"
    using room_keeps(2,3) [OF m(1)] k d(1) by (auto simp: appends_def buf_ok_def)
qed

lemma dbuf_put_self_kept:
  assumes "dbuf_put_self d off len = Some (r, d')"
  shows "derror d \<longrightarrow> derror d'"
    "buf_ok d \<Longrightarrow> unat off + unat len \<le> unat (dsize d) \<Longrightarrow>
       buf_ok d' \<and> (\<not> derror d' \<longrightarrow> content d' = content d @ take (unat len) (drop (unat off) (content d)))"
proof -
  obtain r1 d1 where m: "(if dsize d + len > allocated_size d then dbuf_realloc d (dsize d + len) else Some (0, d)) = Some (r1, d1)"
      "(if r1 \<noteq> 0 then Some (-1, d1) else do { data \<leftarrow> slice (mem d1) (unat off) (unat len); d2 \<leftarrow> buf_store d1 (unat (dsize d1)) data;
         Some (0, d2\<lparr>dsize := dsize d2 + len\<rparr>) }) = Some (r, d')"
    using assms by (auto simp: dbuf_put_self_def Let_def bind_eq_Some_conv)
  have k: "derror d' = derror d1" "realloc_func d' = realloc_func d1" "allocated_size d' = allocated_size d1"
    using m(2) by (auto simp: bind_eq_Some_conv split: if_splits dest!: store_keeps)
  show "derror d \<longrightarrow> derror d'" using room_keeps(1) [OF m(1)] k(1) by simp
  assume d: "buf_ok d" "unat off + unat len \<le> unat (dsize d)"
  have "unat (dsize d) + unat len < 2 ^ 32" using buf_ok_size [OF d(1)] d(2) by simp
  then have "appends d (take (unat len) (drop (unat off) (content d))) (r, d')" using dbuf_put_self_ok [of d off len] d assms by (simp add: buf_ok_def)
  then show "buf_ok d' \<and> (\<not> derror d' \<longrightarrow> content d' = content d @ take (unat len) (drop (unat off) (content d)))"
    using room_keeps(2,3) [OF m(1)] k d(1) by (auto simp: appends_def buf_ok_def)
qed

lemma dbuf_insert_kept:
  assumes "dbuf_insert d pos len = Some d'"
  shows "derror d \<longrightarrow> derror d'"
    "buf_ok d \<Longrightarrow> pos \<le> unat (dsize d) \<Longrightarrow> len < 2 ^ 31 \<Longrightarrow> \<not> derror d' \<Longrightarrow>
       buf_ok d' \<and> (\<exists>gap. length gap = len \<and> content d' = take pos (content d) @ gap @ drop pos (content d))"
proof -
  obtain r d1 data d2 where m: "dbuf_realloc d (dsize d + word_of_nat len) = Some (r, d1)" "buf_store d1 (pos + len) data = Some d2"
      "d' = d2\<lparr>dsize := dsize d2 + word_of_nat len\<rparr>"
    using assms by (auto simp: dbuf_insert_def bind_eq_Some_conv)
  note k = realloc_keeps [OF m(1)] store_keeps [OF m(2)]
  show "derror d \<longrightarrow> derror d'" using k m(3) by simp
  assume d: "buf_ok d" "pos \<le> unat (dsize d)" "len < 2 ^ 31" "\<not> derror d'"
  have "r = 0" using dbuf_realloc_ok [of d "dsize d + word_of_nat len"] d(1,4) m k by (auto simp: buf_ok_def)
  moreover have "unat (dsize d) + len < 2 ^ 32" using buf_ok_size [OF d(1)] d(3) by simp
  ultimately have "dbuf_wf d' \<and> (\<exists>gap. length gap = len \<and> content d' = take pos (content d) @ gap @ drop pos (content d))"
    using dbuf_insert_ok [of d pos len] d m(1) assms by (auto simp: buf_ok_def)
  then show "buf_ok d' \<and> (\<exists>gap. length gap = len \<and> content d' = take pos (content d) @ gap @ drop pos (content d))"
    using k d(1) m(3) by (auto simp: buf_ok_def)
qed

lemma take_overwrite:
  assumes "p + length ys \<le> z" "z \<le> length M"
  shows "take z (take p M @ ys @ drop (p + length ys) M) = take p (take z M) @ ys @ drop (p + length ys) (take z M)"
proof -
  have "min z p = p" "min (length M) p = p" "z - (p + length ys) = z - p - length ys" "length ys \<le> z - p" using assms by auto
  then show ?thesis by (simp add: drop_take min.commute)
qed

lemma store_content:
  assumes "buf_store d pos data = Some d'" "buf_ok d" "pos + length data \<le> length (content d)"
  shows "buf_ok d' \<and> content d' = take pos (content d) @ data @ drop (pos + length data) (content d)"
proof -
  have len: "length (mem d) = unat (allocated_size d)" "unat (dsize d) \<le> length (mem d)" "length (content d) = unat (dsize d)"
    using assms(2) buf_ok_size [OF assms(2)] by (auto simp: buf_ok_def dbuf_wf_def word_le_nat_alt)
  have m: "mem d' = take pos (mem d) @ data @ drop (pos + length data) (mem d)" "dsize d' = dsize d" "allocated_size d' = allocated_size d"
      "realloc_func d' = realloc_func d"
    using buf_store_ok [of pos data d] assms(1,3) len by auto
  have fit: "pos + length data \<le> unat (dsize d)" using assms(3) len(3) by simp
  have "content d' = take pos (content d) @ data @ drop (pos + length data) (content d)"
    unfolding content_def m(1,2) by (rule take_overwrite [OF fit len(2)])
  then show ?thesis using assms(2,3) m len by (auto simp: buf_ok_def dbuf_wf_def)
qed

section \<open>The code of a parser state\<close>

definition code :: "'m REParseState \<Rightarrow> u8 list" where "code s = content (ps_byte_code s)"
definition good :: "'m REParseState \<Rightarrow> bool" where "good s \<longleftrightarrow> \<not> derror (ps_byte_code s)"
definition st_ok :: "'m REParseState \<Rightarrow> bool" where "st_ok s \<longleftrightarrow> buf_ok (ps_byte_code s)"
definition names_ok :: "'m REParseState \<Rightarrow> bool" where "names_ok s \<longleftrightarrow> buf_ok (ps_group_names s)"

lemma code_size_eq: "st_ok s \<Longrightarrow> code_size s = length (code s) \<and> length (code s) < 2 ^ 31"
  using buf_ok_size [of "ps_byte_code s"] by (simp add: st_ok_def code_size_def code_def)

text \<open>What an emitting function leaves alone.\<close>

definition same :: "'m REParseState \<Rightarrow> 'm REParseState \<Rightarrow> bool" where
  "same s s' \<longleftrightarrow> ps_buf s' = ps_buf s \<and> ps_alloc s' = ps_alloc s \<and> ps_capture_count s' = ps_capture_count s \<and>
     (names_ok s \<longrightarrow> names_ok s') \<and> (good s' \<longrightarrow> good s)"

lemma same_refl [simp]: "same s s"
  by (simp add: same_def)

lemma same_trans: "same s s1 \<Longrightarrow> same s1 s2 \<Longrightarrow> same s s2"
  by (simp add: same_def)

text \<open>\<open>holds s0 s c\<close>: since the state \<open>s0\<close> only code was emitted, and unless memory ran out the code is \<open>c\<close>.\<close>

definition holds :: "'m REParseState \<Rightarrow> 'm REParseState \<Rightarrow> u8 list \<Rightarrow> bool" where
  "holds s0 s c \<longleftrightarrow> same s0 s \<and> (good s \<longrightarrow> st_ok s \<and> code s = c)"

lemma holds_refl: "(good s \<Longrightarrow> st_ok s) \<Longrightarrow> holds s s (code s)"
  by (simp add: holds_def)

lemma holds_size: "holds s0 s c \<Longrightarrow> good s \<Longrightarrow> code_size s = length c \<and> length c < 2 ^ 31"
  using code_size_eq [of s] by (simp add: holds_def)

lemma holds_eq: "holds s0 s c \<Longrightarrow> (good s \<Longrightarrow> c = c') \<Longrightarrow> holds s0 s c'"
  by (auto simp: holds_def)

lemma holds_good: "holds s0 s c \<Longrightarrow> good s \<Longrightarrow> good s0"
  by (auto simp: holds_def same_def)

text \<open>\<open>leads m Q\<close>: if \<open>m\<close> returns, the result satisfies \<open>Q\<close>.\<close>

definition leads :: "'a option \<Rightarrow> ('a \<Rightarrow> bool) \<Rightarrow> bool" where
  "leads m Q \<longleftrightarrow> (\<forall>x. m = Some x \<longrightarrow> Q x)"

lemma leads_simps [simp]: "leads (Some x) P = P x" "leads None P1" "leads (m \<bind> f) Q = leads m (\<lambda>x. leads (f x) Q)"
  "leads (map_option g m1) R = leads m1 (\<lambda>x. R (g x))" "leads (if b then m2 else m3) P2 = (if b then leads m2 P2 else leads m3 P2)"
  by (auto simp: leads_def bind_eq_Some_conv)

lemma leads_mono: "leads m P \<Longrightarrow> (\<And>x. P x \<Longrightarrow> Q x) \<Longrightarrow> leads m Q"
  by (simp add: leads_def)

lemma put_code_holds:
  assumes "holds s0 s c" "length data < 2 ^ 31"
  shows "leads (put_code s data) (\<lambda>s'. holds s0 s' (c @ data))"
proof -
  have "holds s s' (code s @ data) \<and> (good s' \<longrightarrow> good s)" if "put_code s data = Some s'" "good s' \<longrightarrow> st_ok s" for s'
    using dbuf_put_kept [of "(ps_byte_code s)\<lparr>opaque := ps_mem s\<rparr>" data] that assms(2)
    by (auto simp: put_code_def bind_eq_Some_conv holds_def same_def good_def st_ok_def names_ok_def code_def)
  moreover have "good s' \<longrightarrow> good s" if "put_code s data = Some s'" for s'
    using dbuf_put_kept(1) [of "(ps_byte_code s)\<lparr>opaque := ps_mem s\<rparr>" data] that
    by (auto simp: put_code_def bind_eq_Some_conv good_def)
  ultimately show ?thesis using assms(1) same_trans unfolding leads_def holds_def by metis
qed

lemma patch_same: "patch s pos data = Some s' \<Longrightarrow> same s s'"
  by (auto simp: patch_def bind_eq_Some_conv same_def good_def names_ok_def dest: store_keeps)

lemma patch_holds:
  assumes h: "holds s0 s c" and c: "good s \<Longrightarrow> c = x @ g @ y \<and> length x = pos \<and> length g = length data"
  shows "leads (patch s pos data) (\<lambda>s'. holds s0 s' (x @ data @ y))"
proof -
  have "holds s0 s' (x @ data @ y)" if p: "patch s pos data = Some s'" for s'
  proof (cases "good s'")
    case True
    obtain d where d: "buf_store (ps_byte_code s) pos data = Some d" "s' = s\<lparr>ps_byte_code := d\<rparr>" using p by (auto simp: patch_def bind_eq_Some_conv)
    have s: "good s" "st_ok s" "code s = x @ g @ y" "length x = pos" "length g = length data"
      using patch_same [OF p] True h c by (auto simp: same_def holds_def)
    have "buf_ok d \<and> content d = x @ data @ y" using store_content [OF d(1)] s(2-5) by (auto simp: st_ok_def code_def)
    then show ?thesis using d(2) h patch_same [OF p] same_trans by (auto simp: holds_def st_ok_def code_def)
  next
    case False
    then show ?thesis using patch_same [OF p] h same_trans by (auto simp: holds_def)
  qed
  then show ?thesis by (simp add: leads_def)
qed

lemma insert_code_holds:
  assumes h: "holds s0 s c" and c: "good s \<Longrightarrow> c = x @ y \<and> length x = pos" and len: "len < 2 ^ 31"
  shows "leads (insert_code s pos len) (\<lambda>s'. \<exists>gap. length gap = len \<and> holds s0 s' (x @ gap @ y))"
proof -
  let ?d = "(ps_byte_code s)\<lparr>opaque := ps_mem s\<rparr>"
  have "\<exists>gap. length gap = len \<and> holds s0 s' (x @ gap @ y)" if "insert_code s pos len = Some s'" for s'
  proof -
    obtain d where d: "dbuf_insert ?d pos len = Some d" "s' = s\<lparr>ps_byte_code := d, ps_mem := opaque d\<rparr>"
      using \<open>insert_code s pos len = Some s'\<close> by (auto simp: insert_code_def bind_eq_Some_conv)
    have sm: "same s s'" using dbuf_insert_kept(1) [OF d(1)] d(2) by (auto simp: same_def good_def names_ok_def)
    show ?thesis
    proof (cases "good s'")
      case True
      have s: "st_ok s" "code s = x @ y" "length x = pos" "\<not> derror d" using sm True h c d(2) by (auto simp: same_def holds_def good_def)
      have "pos \<le> unat (dsize ?d)" using s(2,3) code_size_eq [OF s(1)] by (simp add: code_size_def)
      then obtain gap where g: "buf_ok d" "length gap = len" "content d = take pos (content ?d) @ gap @ drop pos (content ?d)"
        using dbuf_insert_kept(2) [OF d(1) _ _ len s(4)] s(1) by (auto simp: st_ok_def)
      then have "content d = x @ gap @ y" using s(2,3) by (simp add: code_def)
      then show ?thesis using g d(2) h sm same_trans by (auto simp: holds_def st_ok_def code_def)
    next
      case False
      then have "holds s0 s' (x @ replicate len 0 @ y)" using h sm same_trans by (auto simp: holds_def)
      then show ?thesis by (metis length_replicate)
    qed
  qed
  then show ?thesis by (simp add: leads_def)
qed

lemma copy_code_holds:
  assumes h: "holds s0 s c" and c: "good s \<Longrightarrow> c = x @ a @ y \<and> length x = pos \<and> length a = len"
  shows "leads (copy_code s pos len) (\<lambda>s'. holds s0 s' (c @ a))"
proof -
  let ?d = "(ps_byte_code s)\<lparr>opaque := ps_mem s\<rparr>"
  have "holds s0 s' (c @ a)" if "copy_code s pos len = Some s'" for s'
  proof -
    obtain r d where d: "dbuf_put_self ?d (word_of_nat pos) (word_of_nat len) = Some (r, d)" "s' = s\<lparr>ps_byte_code := d, ps_mem := opaque d\<rparr>"
      using \<open>copy_code s pos len = Some s'\<close> by (auto simp: copy_code_def bind_eq_Some_conv)
    have sm: "same s s'" using dbuf_put_self_kept(1) [OF d(1)] d(2) by (auto simp: same_def good_def names_ok_def)
    show ?thesis
    proof (cases "good s'")
      case True
      have s: "st_ok s" "code s = x @ a @ y" "c = code s" "length x = pos" "length a = len" "\<not> derror d"
        using sm True h c d(2) by (auto simp: same_def holds_def good_def)
      have "pos + len < 2 ^ 31" using s code_size_eq [OF s(1)] by auto
      then have u: "unat (word_of_nat pos :: u32) = pos" "unat (word_of_nat len :: u32) = len" by (simp_all add: unsigned_of_nat take_bit_nat_eq_self)
      then have "buf_ok d \<and> content d = content ?d @ take len (drop pos (content ?d))"
        using dbuf_put_self_kept(2) [OF d(1)] s code_size_eq [OF s(1)] by (simp add: st_ok_def code_size_def)
      then show ?thesis using s d(2) h sm same_trans by (auto simp: holds_def st_ok_def code_def)
    qed (use h sm same_trans in \<open>auto simp: holds_def\<close>)
  qed
  then show ?thesis by (simp add: leads_def)
qed

lemma set_size_holds:
  assumes h: "holds s0 s c" and c: "good s \<Longrightarrow> c = x @ y \<and> length x = n"
  shows "holds s0 (set_size s n) x"
proof -
  let ?s = "set_size s n" and ?d = "ps_byte_code s"
  have sm: "same s ?s" by (simp add: set_size_def same_def good_def names_ok_def)
  have "st_ok ?s \<and> code ?s = x" if g: "good ?s"
  proof -
    have s: "good s" "st_ok s" "code s = x @ y" "length x = n" using g h c by (auto simp: holds_def good_def set_size_def)
    have n: "n \<le> unat (dsize ?d)" "unat (dsize ?d) < 2 ^ 31" using s code_size_eq [OF s(2)] by (auto simp: code_size_def)
    then have u: "unat (word_of_nat n :: u32) = n" by (simp add: unsigned_of_nat take_bit_nat_eq_self)
    have "take n (mem ?d) = x" using s(3,4) n(1) unfolding code_def content_def by (metis append_eq_conv_conj min.absorb1 take_take)
    then show ?thesis using s(2) n u by (auto simp: set_size_def st_ok_def buf_ok_def dbuf_wf_def code_def content_def mem_def word_le_nat_alt)
  qed
  then show ?thesis using h sm same_trans by (auto simp: holds_def)
qed

section \<open>Instructions\<close>

lemma re_emit_op_holds: "holds s0 s c \<Longrightarrow> leads (re_emit_op s oc) (\<lambda>s'. holds s0 s' (c @ [reop_num oc]))"
  using put_code_holds [of s0 s c "[reop_num oc]"] by (simp add: re_emit_op_def)

lemma put2_holds:
  assumes h: "holds s0 s c" and d: "\<And>s1. length (data s1) < 2 ^ 31" "\<And>s1. holds s0 s1 (c @ [b]) \<Longrightarrow> good s1 \<Longrightarrow> data s1 = d"
  shows "leads (put_code s [b]) (\<lambda>s1. leads (put_code s1 (data s1)) (\<lambda>s'. holds s0 s' (c @ b # d) \<and> (good s' \<longrightarrow> code_size s1 = length c + 1)))"
proof -
  have "leads (put_code s1 (data s1)) (\<lambda>s'. holds s0 s' (c @ b # d) \<and> (good s' \<longrightarrow> code_size s1 = length c + 1))" if s1: "holds s0 s1 (c @ [b])" for s1
  proof -
    have g: "good s' \<longrightarrow> good s1" if "put_code s1 (data s1) = Some s'" for s'
      using dbuf_put_kept(1) [of "(ps_byte_code s1)\<lparr>opaque := ps_mem s1\<rparr>" "data s1"] that by (auto simp: put_code_def bind_eq_Some_conv good_def)
    show ?thesis using put_code_holds [OF s1 d(1) [of s1]] g d(2) [OF s1] holds_size [OF s1]
      unfolding leads_def by (auto elim: holds_eq)
  qed
  then show ?thesis using put_code_holds [OF h, of "[b]"] by (auto elim: leads_mono)
qed

lemma re_emit_op_u32_holds:
  "holds s0 s c \<Longrightarrow> leads (re_emit_op_u32 s oc v) (\<lambda>(pos, s'). holds s0 s' (c @ reop_num oc # le32 v) \<and> (good s' \<longrightarrow> pos = length c + 1))"
  using put2_holds [of s0 s c "\<lambda>_. le32 v" "reop_num oc" "le32 v"] by (auto simp: re_emit_op_u32_def le32_def Let_def elim!: leads_mono)

lemma re_emit_goto_holds:
  assumes "holds s0 s c"
  shows "leads (re_emit_goto s oc t) (\<lambda>(pos, s'). holds s0 s' (c @ reop_num oc # le32 (int t - int (length c) - 5)))"
proof -
  have "leads (put_code s [reop_num oc]) (\<lambda>s1. leads (put_code s1 (le32 (int t - int (code_size s1 + 4))))
      (\<lambda>s'. holds s0 s' (c @ reop_num oc # le32 (int t - int (length c) - 5)) \<and> (good s' \<longrightarrow> code_size s1 = length c + 1)))"
    by (rule put2_holds [OF assms]) (auto dest!: holds_size simp: algebra_simps)
  then show ?thesis by (auto simp: re_emit_goto_def le32_def Let_def elim!: leads_mono)
qed

lemma re_emit_op_u8_holds: "holds s0 s c \<Longrightarrow> leads (re_emit_op_u8 s oc v) (\<lambda>s'. holds s0 s' (c @ [reop_num oc, word_of_nat v]))"
  using put2_holds [of s0 s c "\<lambda>_. [word_of_nat v]" "reop_num oc" "[word_of_nat v]"] by (auto simp: re_emit_op_u8_def elim!: leads_mono)

lemma re_emit_op_u16_holds:
  "holds s0 s c \<Longrightarrow> leads (re_emit_op_u16 s oc v) (\<lambda>s'. holds s0 s' (c @ reop_num oc # to_bytes 2 (ucast v :: u16)))"
  using put2_holds [of s0 s c "\<lambda>_. to_bytes 2 (ucast v :: u16)" "reop_num oc" "to_bytes 2 (ucast v :: u16)"]
  by (auto simp: re_emit_op_u16_def elim!: leads_mono)

lemma patch_op_holds:
  "holds s0 s c \<Longrightarrow> (good s \<Longrightarrow> c = x @ b # y \<and> length x = pos) \<Longrightarrow> leads (patch_op s pos oc) (\<lambda>s'. holds s0 s' (x @ reop_num oc # y))"
  using patch_holds [of s0 s c x "[b]" y pos "[reop_num oc]"] by (simp add: patch_op_def)

lemma patch_u32_holds:
  "holds s0 s c \<Longrightarrow> (good s \<Longrightarrow> c = x @ g @ y \<and> length x = pos \<and> length g = 4) \<Longrightarrow> leads (patch_u32 s pos v) (\<lambda>s'. holds s0 s' (x @ le32 v @ y))"
  using patch_holds [of s0 s c x g y pos "le32 v"] by (simp add: patch_u32_def le32_def)

text \<open>An instruction with a number, stored over five bytes.\<close>

lemma patch_instr_holds:
  assumes h: "holds s0 s c" and c: "good s \<Longrightarrow> c = x @ g @ y \<and> length x = pos \<and> length g = 5"
  shows "leads (patch_op s pos oc) (\<lambda>s1. leads (patch_u32 s1 (pos + 1) v) (\<lambda>s'. holds s0 s' (x @ reop_num oc # le32 v @ y)))"
proof -
  have g: "c = x @ hd g # tl g @ y \<and> length x = pos \<and> length g = 5" if "good s" using c [OF that] by (cases g) auto
  have "leads (patch_u32 s1 (pos + 1) v) (\<lambda>s'. holds s0 s' (x @ reop_num oc # le32 v @ y))" if s1: "holds s0 s1 (x @ reop_num oc # tl g @ y)" "good s1 \<longrightarrow> good s" for s1
    using patch_u32_holds [OF s1(1), of "x @ [reop_num oc]" "tl g" y "pos + 1" v] s1(2) g by auto
  moreover have "leads (patch_op s pos oc) (\<lambda>s1. holds s0 s1 (x @ reop_num oc # tl g @ y) \<and> (good s1 \<longrightarrow> good s))"
    using patch_op_holds [OF h, of x "hd g" "tl g @ y" pos oc] g patch_same [of s pos "[reop_num oc]"]
    by (auto simp: leads_def patch_op_def same_def)
  ultimately show ?thesis by (auto elim!: leads_mono)
qed

section \<open>Quantifiers\<close>

lemma leadsI: "(\<And>x. m = Some x \<Longrightarrow> Q x) \<Longrightarrow> leads m Q"
  by (simp add: leads_def)

lemma leadsD: "leads m Q \<Longrightarrow> m = Some x \<Longrightarrow> Q x"
  by (simp add: leads_def)

lemma patch_instr:
  assumes "patch_op s pos oc = Some s1" "patch_u32 s1 (pos + 1) v = Some s2" "holds s0 s (x @ g @ y)" "length g = 5" "good s0 \<Longrightarrow> length x = pos"
  shows "holds s0 s2 (x @ reop_num oc # le32 v @ y)"
  using leadsD [OF leadsD [OF patch_instr_holds [OF assms(3), of x g y pos oc v] assms(1)] assms(2)] assms(4,5) holds_good [OF assms(3)] by blast

lemma patch_number:
  assumes "patch_u32 s pos v = Some s1" "holds s0 s (x @ g @ y)" "length g = 4" "good s0 \<Longrightarrow> length x = pos"
  shows "holds s0 s1 (x @ le32 v @ y)"
  using leadsD [OF patch_u32_holds [OF assms(2), of x g y pos v] assms(1)] assms(3,4) holds_good [OF assms(2)] by blast

lemma patch_byte:
  assumes "patch s pos [b] = Some s1" "holds s0 s (x @ b' # y)" "good s0 \<Longrightarrow> length x = pos"
  shows "holds s0 s1 (x @ b # y)"
  using leadsD [OF patch_holds [OF assms(2), of x "[b']" y pos "[b]"] assms(1)] assms(3) holds_good [OF assms(2)] by simp

lemma inserted:
  assumes "insert_code s pos len = Some s1" "holds s0 s (x @ y)" "len < 2 ^ 31" "good s0 \<Longrightarrow> length x = pos"
  obtains gap where "length gap = len" "holds s0 s1 (x @ gap @ y)"
  using leadsD [OF insert_code_holds [OF assms(2) _ assms(3), of x y pos] assms(1)] assms(4) holds_good [OF assms(2)] by blast

lemma split_length: "length g = m + k \<Longrightarrow> \<exists>g1 g2. g = g1 @ g2 \<and> length g1 = m \<and> length g2 = k"
  by (rule exI [of _ "take m g"], rule exI [of _ "drop m g"]) simp

lemma inserted_instr:
  assumes "insert_code s pos 5 = Some s1" "patch_op s1 pos oc = Some s2" "patch_u32 s2 (pos + 1) v = Some s3"
    "holds s0 s (x @ y)" "good s0 \<Longrightarrow> length x = pos"
  shows "holds s0 s3 (x @ reop_num oc # le32 v @ y)"
proof -
  obtain gap where g: "length gap = 5" "holds s0 s1 (x @ gap @ y)" by (rule inserted [OF assms(1,4) _ assms(5)]) simp_all
  show ?thesis by (rule patch_instr [OF assms(2,3) g(2,1) assms(5)])
qed

lemma emit_simple_quant_holds:
  assumes e: "emit_simple_quant s pos k1 k2 (int cc) = Some s'" and h: "holds s0 s (x @ a)" and pos: "good s0 \<Longrightarrow> length x = pos"
    and f: "good s0 \<Longrightarrow> frag n a" "good s0 \<Longrightarrow> re_is_simple_quantifier a = Some (int cc)" "0 < cc"
  shows "\<exists>c. frag n c \<and> holds s0 s' (x @ c)"
proof -
  let ?y = "a @ [reop_num REOP_match]" and ?op = "reop_num REOP_simple_greedy_quant"
  obtain s1 s2 s3 s4 s5 s6 where m: "re_emit_op s REOP_match = Some s1" "insert_code s1 pos 17 = Some s2" "patch_op s2 pos REOP_simple_greedy_quant = Some s3"
      "patch_u32 s3 (pos + 1) (int (code_size s3) - int pos - 17) = Some s4" "patch_u32 s4 (pos + 5) k1 = Some s5"
      "patch_u32 s5 (pos + 9) k2 = Some s6" "patch_u32 s6 (pos + 13) (int cc) = Some s'"
    using e by (auto simp: emit_simple_quant_def bind_eq_Some_conv)
  have 1: "holds s0 s1 (x @ ?y)" using leadsD [OF re_emit_op_holds [OF h] m(1)] by simp
  obtain gap where g: "length gap = 17" "holds s0 s2 (x @ gap @ ?y)" by (rule inserted [OF m(2) 1 _ pos]) simp_all
  obtain g1 g2 g3 g4 where gs: "gap = g1 @ g2 @ g3 @ g4" "length g1 = 5" "length g2 = 4" "length g3 = 4" "length g4 = 4"
    using split_length [of gap 5 12] split_length [of _ 4 8] split_length [of _ 4 4] g(1) by fastforce
  obtain b g1' where b: "g1 = b # g1'" "length g1' = 4" using gs(2) by (cases g1) auto
  have 3: "holds s0 s3 (x @ ?op # g1' @ g2 @ g3 @ g4 @ ?y)"
    using leadsD [OF patch_op_holds [OF g(2), of x b "g1' @ g2 @ g3 @ g4 @ ?y" pos REOP_simple_greedy_quant] m(3)] gs b pos holds_good [OF g(2)] by simp
  have 4: "holds s0 s4 ((x @ [?op]) @ le32 (int (code_size s3) - int pos - 17) @ g2 @ g3 @ g4 @ ?y)"
    by (rule patch_number [OF m(4) _ b(2)]) (use 3 pos in simp_all)
  have 5: "holds s0 s5 ((x @ [?op] @ le32 (int (code_size s3) - int pos - 17)) @ le32 k1 @ g3 @ g4 @ ?y)"
    by (rule patch_number [OF m(5) _ gs(3)]) (use 4 pos in simp_all)
  have 6: "holds s0 s6 ((x @ [?op] @ le32 (int (code_size s3) - int pos - 17) @ le32 k1) @ le32 k2 @ g4 @ ?y)"
    by (rule patch_number [OF m(6) _ gs(4)]) (use 5 pos in simp_all)
  have 7: "holds s0 s' ((x @ [?op] @ le32 (int (code_size s3) - int pos - 17) @ le32 k1 @ le32 k2) @ le32 (int cc) @ ?y)"
    by (rule patch_number [OF m(7) _ gs(5)]) (use 6 pos in simp_all)
  have size: "int (code_size s3) - int pos - 17 = int (length a) + 1" if "good s'"
  proof -
    have "good s3" using that patch_same [OF m(4) [unfolded patch_u32_def]] patch_same [OF m(5) [unfolded patch_u32_def]]
        patch_same [OF m(6) [unfolded patch_u32_def]] patch_same [OF m(7) [unfolded patch_u32_def]] by (auto simp: same_def)
    then show ?thesis using holds_size [OF 3] b(2) gs(3-5) pos holds_good [OF 3] by simp
  qed
  have 8: "holds s0 s' (x @ ?op # le32 (int (length a) + 1) @ le32 k1 @ le32 k2 @ le32 (int cc) @ ?y)"
    by (rule holds_eq [OF 7]) (simp add: size)
  show ?thesis
  proof (cases "good s0")
    case True
    then show ?thesis using frag.Quant [OF f(1,2) f(3), of k1 k2] 8 by blast
  next
    case False
    then have "holds s0 s' (x @ [])" using holds_eq [OF 8] holds_good [OF 8] by blast
    then show ?thesis using frag.Empty by blast
  qed
qed

lemma holds_captures: "holds s0 s c \<Longrightarrow> ps_capture_count s = ps_capture_count s0"
  by (simp add: holds_def same_def)

lemma emit_save_reset_holds:
  assumes e: "emit_save_reset s pos lcc = Some (s', pos')" and h: "holds s0 s (x @ a)" and pos: "good s0 \<Longrightarrow> length x = pos"
    and n: "0 < ps_capture_count s0" "ps_capture_count s0 \<le> 255"
  obtains r where "frag (ps_capture_count s0) r" "holds s0 s' ((x @ r) @ a)" "good s0 \<Longrightarrow> length (x @ r) = pos'"
proof (cases "lcc = ps_capture_count s")
  case True
  then have "s' = s \<and> pos' = pos" using e by (simp add: emit_save_reset_def)
  then show ?thesis using h pos by (intro that [of "[]"]) (auto intro: frag.Empty)
next
  case False
  let ?b = "word_of_nat (ps_capture_count s0 - 1) :: u8"
  let ?r = "[reop_num REOP_save_reset, word_of_nat lcc, ?b]"
  obtain s1 s2 s3 s4 where m: "insert_code s pos 3 = Some s1" "patch s1 pos [reop_num REOP_save_reset] = Some s2" "patch s2 (pos + 1) [word_of_nat lcc] = Some s3"
      "patch s3 (pos + 2) [word_of_nat (ps_capture_count s3 - 1)] = Some s4" "s' = s4" "pos' = pos + 3"
    using e False by (auto simp: emit_save_reset_def patch_op_def bind_eq_Some_conv)
  obtain gap where g: "length gap = 3" "holds s0 s1 (x @ gap @ a)" by (rule inserted [OF m(1) h _ pos]) simp_all
  obtain b1 b2 b3 where gs: "gap = [b1, b2, b3]" using g(1) by (auto simp: length_Suc_conv numeral_3_eq_3)
  have 2: "holds s0 s2 (x @ reop_num REOP_save_reset # b2 # b3 # a)" by (rule patch_byte [OF m(2) _ pos]) (use g gs in auto)
  have 3: "holds s0 s3 ((x @ [reop_num REOP_save_reset]) @ word_of_nat lcc # b3 # a)" by (rule patch_byte [OF m(3)]) (use 2 pos in auto)
  have 4: "holds s0 s4 ((x @ [reop_num REOP_save_reset, word_of_nat lcc]) @ word_of_nat (ps_capture_count s3 - 1) # a)"
    by (rule patch_byte [OF m(4)]) (use 3 pos in auto)
  have c3: "ps_capture_count s3 = ps_capture_count s0" using holds_captures [OF 3] .
  have "unat ?b < ps_capture_count s0" using n by (simp add: unsigned_of_nat take_bit_nat_eq_self del: of_nat_diff)
  then have "plain_instr (ps_capture_count s0) REOP_save_reset [word_of_nat lcc, ?b]" by (auto simp: plain_instr_def simp del: of_nat_diff)
  then have f: "frag (ps_capture_count s0) ?r" by (rule frag.Instr)
  show ?thesis by (rule that [OF f]) (use 4 c3 m(5,6) pos in simp_all)
qed

lemma emit_from_zero_holds:
  assumes e: "emit_from_zero s pos len qmax greedy z = Some s'" and h: "holds s0 s (x @ a)"
    and pos: "good s0 \<Longrightarrow> length x = pos" "good s0 \<Longrightarrow> length a = len" and f: "frag n a"
  shows "\<exists>c. frag n c \<and> holds s0 s' (x @ c)"
proof -
  have sp: "split_op greedy \<in> split_ops" by (simp add: split_op_def split_ops_def)
  consider (zero) "qmax = 0" | (one) "qmax = 1" | (inf) "qmax \<noteq> 0" "qmax \<noteq> 1" "qmax = uint INT32_MAX" "\<not> z"
    | (infz) "qmax \<noteq> 0" "qmax \<noteq> 1" "qmax = uint INT32_MAX" "z" | (upto) "qmax \<noteq> 0" "qmax \<noteq> 1" "qmax \<noteq> uint INT32_MAX" by blast
  then show ?thesis
  proof cases
    case zero
    then have "holds s0 s' (x @ [])" using e set_size_holds [OF h, of x a pos] pos(1) holds_good [OF h] by (auto simp: emit_from_zero_def)
    then show ?thesis using frag.Empty by blast
  next
    case one
    then obtain s1 s2 where m: "insert_code s pos 5 = Some s1" "patch_op s1 pos (split_op greedy) = Some s2" "patch_u32 s2 (pos + 1) (int len) = Some s'"
      using e by (auto simp: emit_from_zero_def bind_eq_Some_conv)
    have "holds s0 s' (x @ reop_num (split_op greedy) # le32 (int (length a)) @ a)"
      by (rule holds_eq [OF inserted_instr [OF m h pos(1)]]) (use pos(2) holds_good [OF inserted_instr [OF m h pos(1)]] in auto)
    then show ?thesis using frag.Opt [OF f sp] by blast
  next
    case inf
    then obtain s1 s2 s3 p where m: "insert_code s pos 5 = Some s1" "patch_op s1 pos (split_op greedy) = Some s2" "patch_u32 s2 (pos + 1) (int len + 5) = Some s3"
        "re_emit_goto s3 REOP_goto pos = Some (p, s')"
      using e by (auto simp: emit_from_zero_def bind_eq_Some_conv)
    note 3 = inserted_instr [OF m(1-3) h pos(1)]
    have 4: "holds s0 s' ((x @ reop_num (split_op greedy) # le32 (int len + 5) @ a) @ reop_num REOP_goto # le32 (int pos - int (length (x @ reop_num (split_op greedy) # le32 (int len + 5) @ a)) - 5))"
      using leadsD [OF re_emit_goto_holds [OF 3] m(4)] by simp
    have "holds s0 s' (x @ reop_num (split_op greedy) # le32 (int (length a) + 5) @ a @ reop_num REOP_goto # le32 (- int (length a) - 10))"
      by (rule holds_eq [OF 4]) (use pos holds_good [OF 4] in \<open>auto simp: algebra_simps\<close>)
    then show ?thesis using frag.Star [OF f sp] by blast
  next
    case infz
    then obtain s1 s2 s3 s4 p where m: "insert_code s pos 6 = Some s1" "patch_op s1 pos (split_op greedy) = Some s2" "patch_u32 s2 (pos + 1) (6 + int len) = Some s3"
        "patch s3 (pos + 5) [reop_num REOP_push_char_pos] = Some s4" "re_emit_goto s4 REOP_bne_char_pos pos = Some (p, s')"
      using e by (auto simp: emit_from_zero_def bind_eq_Some_conv patch_op_def)
    obtain gap where g: "length gap = 6" "holds s0 s1 (x @ gap @ a)" by (rule inserted [OF m(1) h _ pos(1)]) simp_all
    obtain g1 b where gs: "gap = g1 @ [b]" "length g1 = 5" using split_length [of gap 5 1] g(1) by (auto simp: length_Suc_conv)
    have 3: "holds s0 s3 (x @ reop_num (split_op greedy) # le32 (6 + int len) @ b # a)"
      by (rule patch_instr [OF m(2,3) _ gs(2) pos(1)]) (use g(2) gs(1) in simp)
    have 4: "holds s0 s4 ((x @ reop_num (split_op greedy) # le32 (6 + int len)) @ reop_num REOP_push_char_pos # a)"
      by (rule patch_byte [OF m(4)]) (use 3 pos(1) in auto)
    have 5: "holds s0 s' (((x @ reop_num (split_op greedy) # le32 (6 + int len)) @ reop_num REOP_push_char_pos # a) @ reop_num REOP_bne_char_pos #
        le32 (int pos - int (length ((x @ reop_num (split_op greedy) # le32 (6 + int len)) @ reop_num REOP_push_char_pos # a)) - 5))"
      using leadsD [OF re_emit_goto_holds [OF 4] m(5)] by simp
    have "holds s0 s' (x @ reop_num (split_op greedy) # le32 (int (length a) + 6) @ reop_num REOP_push_char_pos # a @ reop_num REOP_bne_char_pos # le32 (- int (length a) - 11))"
      by (rule holds_eq [OF 5]) (use pos holds_good [OF 5] in \<open>auto simp: algebra_simps\<close>)
    then show ?thesis using frag.StarZ [OF f sp] by blast
  next
    case upto
    then obtain s1 s2 s3 s4 s5 s6 p where m: "insert_code s pos 10 = Some s1" "patch_op s1 pos REOP_push_i32 = Some s2" "patch_u32 s2 (pos + 1) qmax = Some s3"
        "patch_op s3 (pos + 5) (split_op greedy) = Some s4" "patch_u32 s4 (pos + 5 + 1) (int len + 5) = Some s5" "re_emit_goto s5 REOP_loop (pos + 5) = Some (p, s6)"
        "re_emit_op s6 REOP_drop = Some s'"
      using e by (auto simp: emit_from_zero_def bind_eq_Some_conv numeral_eq_Suc)
    obtain gap where g: "length gap = 10" "holds s0 s1 (x @ gap @ a)" by (rule inserted [OF m(1) h _ pos(1)]) simp_all
    obtain g1 g2 where gs: "gap = g1 @ g2" "length g1 = 5" "length g2 = 5" using split_length [of gap 5 5] g(1) by auto
    let ?p = "x @ reop_num REOP_push_i32 # le32 qmax"
    have 3: "holds s0 s3 (?p @ g2 @ a)" using patch_instr [OF m(2,3) _ gs(2) pos(1), where y = "g2 @ a"] g(2) gs(1) by simp
    have 5: "holds s0 s5 (?p @ reop_num (split_op greedy) # le32 (int len + 5) @ a)"
      by (rule patch_instr [OF m(4,5) 3 gs(3)]) (use pos(1) in auto)
    let ?q = "?p @ reop_num (split_op greedy) # le32 (int len + 5) @ a"
    have "holds s0 s6 (?q @ reop_num REOP_loop # le32 (int (pos + 5) - int (length ?q) - 5))" using leadsD [OF re_emit_goto_holds [OF 5] m(6)] by simp
    from leadsD [OF re_emit_op_holds [OF this] m(7)]
    have 7: "holds s0 s' ((?q @ reop_num REOP_loop # le32 (int (pos + 5) - int (length ?q) - 5)) @ [reop_num REOP_drop])" .
    have "holds s0 s' (x @ reop_num REOP_push_i32 # le32 qmax @ reop_num (split_op greedy) # le32 (int (length a) + 5) @ a @ reop_num REOP_loop # le32 (- int (length a) - 10) @ [reop_num REOP_drop])"
      by (rule holds_eq [OF 7]) (use pos holds_good [OF 7] in \<open>auto simp: algebra_simps\<close>)
    then show ?thesis using frag.UpTo [OF f sp, of qmax] by blast
  qed
qed

text \<open>A failed allocation is not forgotten.\<close>

named_theorems goods

lemma put_code_good [goods]: "put_code s data = Some s' \<Longrightarrow> good s' \<Longrightarrow> good s"
  using dbuf_put_kept(1) [of "(ps_byte_code s)\<lparr>opaque := ps_mem s\<rparr>" data] by (auto simp: put_code_def bind_eq_Some_conv good_def)

lemma copy_code_good [goods]: "copy_code s pos len = Some s' \<Longrightarrow> good s' \<Longrightarrow> good s"
  using dbuf_put_self_kept(1) [of "(ps_byte_code s)\<lparr>opaque := ps_mem s\<rparr>" "word_of_nat pos" "word_of_nat len"]
  by (auto simp: copy_code_def bind_eq_Some_conv good_def)

lemma emit_good [goods]: "re_emit_op s oc = Some s' \<Longrightarrow> good s' \<Longrightarrow> good s" "re_emit_op_u32 s oc v = Some (p, s') \<Longrightarrow> good s' \<Longrightarrow> good s"
  "re_emit_goto s oc t = Some (p, s') \<Longrightarrow> good s' \<Longrightarrow> good s"
  by (auto simp: re_emit_op_def re_emit_op_u32_def re_emit_goto_def bind_eq_Some_conv Let_def dest: put_code_good)

lemma emit_more_holds:
  assumes e: "emit_more s pos len qmin qmax greedy z = Some s'" and h: "holds s0 s (x @ a @ y)"
    and pos: "good s0 \<Longrightarrow> length x = pos" "good s0 \<Longrightarrow> length a = len" and f: "frag n a"
  shows "\<exists>c. frag n c \<and> holds s0 s' ((x @ a @ y) @ c)"
proof -
  let ?c = "x @ a @ y" and ?sp = "reop_num (split_op greedy)"
  have sp: "split_op greedy \<in> split_ops" by (simp add: split_op_def split_ops_def)
  consider (inf) "qmax = uint INT32_MAX" "\<not> z" | (infz) "qmax = uint INT32_MAX" "z" | (upto) "qmax \<noteq> uint INT32_MAX" "qmax > qmin"
    | (none) "qmax \<noteq> uint INT32_MAX" "\<not> qmax > qmin" by blast
  then show ?thesis
  proof cases
    case inf
    then obtain p s1 s2 p' where m: "re_emit_op_u32 s (split_op greedy) (int len + 5) = Some (p, s1)" "copy_code s1 pos len = Some s2"
        "re_emit_goto s2 REOP_goto (code_size s) = Some (p', s')"
      using e by (auto simp: emit_more_def bind_eq_Some_conv Let_def)
    have 1: "holds s0 s1 (?c @ ?sp # le32 (int len + 5))" using leadsD [OF re_emit_op_u32_holds [OF h] m(1)] by simp
    have 2: "holds s0 s2 ((?c @ ?sp # le32 (int len + 5)) @ a)"
      by (rule leadsD [OF copy_code_holds [OF 1, of x a "y @ ?sp # le32 (int len + 5)"] m(2)]) (use pos holds_good [OF 1] in auto)
    have 3: "holds s0 s' (((?c @ ?sp # le32 (int len + 5)) @ a) @ reop_num REOP_goto # le32 (int (code_size s) - int (length ((?c @ ?sp # le32 (int len + 5)) @ a)) - 5))"
      using leadsD [OF re_emit_goto_holds [OF 2] m(3)] by simp
    have "holds s0 s' (?c @ ?sp # le32 (int (length a) + 5) @ a @ reop_num REOP_goto # le32 (- int (length a) - 10))"
      by (rule holds_eq [OF 3]) (use pos holds_good [OF 3] holds_size [OF h] m in \<open>auto simp: algebra_simps dest!: goods\<close>)
    then show ?thesis using frag.Star [OF f sp] by blast
  next
    case infz
    then obtain p s1 s2 s3 p' where m: "re_emit_op_u32 s (split_op greedy) (int len + 6) = Some (p, s1)" "re_emit_op s1 REOP_push_char_pos = Some s2"
        "copy_code s2 pos len = Some s3" "re_emit_goto s3 REOP_bne_char_pos (code_size s) = Some (p', s')"
      using e by (auto simp: emit_more_def bind_eq_Some_conv Let_def add.commute)
    have 1: "holds s0 s1 (?c @ ?sp # le32 (int len + 6))" using leadsD [OF re_emit_op_u32_holds [OF h] m(1)] by simp
    note 2 = leadsD [OF re_emit_op_holds [OF 1] m(2)]
    let ?d = "(?c @ ?sp # le32 (int len + 6)) @ [reop_num REOP_push_char_pos]"
    have 3: "holds s0 s3 (?d @ a)"
      by (rule leadsD [OF copy_code_holds [OF 2, of x a "y @ ?sp # le32 (int len + 6) @ [reop_num REOP_push_char_pos]"] m(3)]) (use pos holds_good [OF 2] in auto)
    have 4: "holds s0 s' ((?d @ a) @ reop_num REOP_bne_char_pos # le32 (int (code_size s) - int (length (?d @ a)) - 5))"
      using leadsD [OF re_emit_goto_holds [OF 3] m(4)] by simp
    have "holds s0 s' (?c @ ?sp # le32 (int (length a) + 6) @ reop_num REOP_push_char_pos # a @ reop_num REOP_bne_char_pos # le32 (- int (length a) - 11))"
      by (rule holds_eq [OF 4]) (use pos holds_good [OF 4] holds_size [OF h] m in \<open>auto simp: algebra_simps dest!: goods\<close>)
    then show ?thesis using frag.StarZ [OF f sp] by blast
  next
    case upto
    then obtain p s1 p1 s2 s3 s4 p' where m: "re_emit_op_u32 s REOP_push_i32 (qmax - qmin) = Some (p, s1)" "re_emit_op_u32 s1 (split_op greedy) (int len + 5) = Some (p1, s2)"
        "copy_code s2 pos len = Some s3" "re_emit_goto s3 REOP_loop (code_size s1) = Some (p', s4)" "re_emit_op s4 REOP_drop = Some s'"
      using e by (auto simp: emit_more_def bind_eq_Some_conv Let_def)
    let ?d = "?c @ reop_num REOP_push_i32 # le32 (qmax - qmin)"
    have 1: "holds s0 s1 ?d" using leadsD [OF re_emit_op_u32_holds [OF h] m(1)] by simp
    have 2: "holds s0 s2 (?d @ ?sp # le32 (int len + 5))" using leadsD [OF re_emit_op_u32_holds [OF 1] m(2)] by simp
    have 3: "holds s0 s3 ((?d @ ?sp # le32 (int len + 5)) @ a)"
      by (rule leadsD [OF copy_code_holds [OF 2, of x a "y @ reop_num REOP_push_i32 # le32 (qmax - qmin) @ ?sp # le32 (int len + 5)"] m(3)]) (use pos holds_good [OF 2] in auto)
    have 4: "holds s0 s4 (((?d @ ?sp # le32 (int len + 5)) @ a) @ reop_num REOP_loop # le32 (int (code_size s1) - int (length ((?d @ ?sp # le32 (int len + 5)) @ a)) - 5))"
      using leadsD [OF re_emit_goto_holds [OF 3] m(4)] by simp
    note 5 = leadsD [OF re_emit_op_holds [OF 4] m(5)]
    have "holds s0 s' (?c @ reop_num REOP_push_i32 # le32 (qmax - qmin) @ ?sp # le32 (int (length a) + 5) @ a @ reop_num REOP_loop # le32 (- int (length a) - 10) @ [reop_num REOP_drop])"
      by (rule holds_eq [OF 5]) (use pos holds_good [OF 5] holds_size [OF 1] m in \<open>auto simp: algebra_simps dest!: goods\<close>)
    then show ?thesis using frag.UpTo [OF f sp, of "qmax - qmin"] by blast
  next
    case none
    then have "holds s0 s' (?c @ [])" using e h by (simp add: emit_more_def)
    then show ?thesis using frag.Empty by blast
  qed
qed

lemma emit_at_least_holds:
  assumes e: "emit_at_least s pos len qmin qmax greedy z = Some s'" and h: "holds s0 s (x @ a)"
    and pos: "good s0 \<Longrightarrow> length x = pos" "good s0 \<Longrightarrow> length a = len" and f: "frag n a"
  shows "\<exists>c. frag n c \<and> holds s0 s' (x @ c)"
proof (cases "qmin = 1")
  case True
  then have "emit_more s pos len qmin qmax greedy z = Some s'" using e by (simp add: emit_at_least_def)
  then obtain c where c: "frag n c" "holds s0 s' ((x @ a @ []) @ c)" using emit_more_holds [of s pos len qmin qmax greedy z s' s0 x a "[]" n] h pos f by auto
  then show ?thesis using frag.Seq [OF f c(1)] by auto
next
  case False
  then obtain s1 s2 s3 p s4 s5 where m: "insert_code s pos 5 = Some s1" "patch_op s1 pos REOP_push_i32 = Some s2" "patch_u32 s2 (pos + 1) qmin = Some s3"
      "re_emit_goto s3 REOP_loop (pos + 5) = Some (p, s4)" "re_emit_op s4 REOP_drop = Some s5" "emit_more s5 (pos + 5) len qmin qmax greedy z = Some s'"
    using e by (auto simp: emit_at_least_def bind_eq_Some_conv)
  let ?p = "x @ reop_num REOP_push_i32 # le32 qmin"
  have 3: "holds s0 s3 (?p @ a)" using inserted_instr [OF m(1-3) h pos(1)] by simp
  have 4: "holds s0 s4 ((?p @ a) @ reop_num REOP_loop # le32 (int (pos + 5) - int (length (?p @ a)) - 5))"
    using leadsD [OF re_emit_goto_holds [OF 3] m(4)] by simp
  note 5 = leadsD [OF re_emit_op_holds [OF 4] m(5)]
  let ?y = "reop_num REOP_loop # le32 (- int (length a) - 5) @ [reop_num REOP_drop]"
  have 6: "holds s0 s5 (?p @ a @ ?y)" by (rule holds_eq [OF 5]) (use pos holds_good [OF 5] in auto)
  obtain c where c: "frag n c" "holds s0 s' ((?p @ a @ ?y) @ c)"
    using emit_more_holds [OF m(6) 6 _ pos(2) f] pos(1) by auto
  have "frag n ((reop_num REOP_push_i32 # le32 qmin @ a @ ?y) @ c)" by (rule frag.Seq [OF frag.Times [OF f] c(1)])
  moreover have "holds s0 s' (x @ (reop_num REOP_push_i32 # le32 qmin @ a @ ?y) @ c)" using c(2) by simp
  ultimately show ?thesis by blast
qed

lemma atom_code_eq:
  assumes "st_ok s" "code s = x @ a" "atom_code s (length x) = Some c"
  shows "c = a"
proof -
  let ?d = "ps_byte_code s"
  have n: "code_size s = length x + length a" using code_size_eq [OF assms(1)] assms(2) by simp
  have "c = take (length a) (drop (length x) (mem ?d))" using assms(3) n by (auto simp: atom_code_def slice_def split: if_splits)
  also have "\<dots> = drop (length x) (take (code_size s) (mem ?d))" by (simp add: n drop_take)
  also have "\<dots> = a" using assms(2) by (simp add: code_def content_def code_size_def)
  finally show ?thesis .
qed

text \<open>A quantifier turns the fragment of the atom into a fragment.\<close>

lemma emit_quantifier_holds:
  assumes e: "emit_quantifier s pos lcc qmin qmax greedy = Some s'" and s: "good s \<Longrightarrow> st_ok s \<and> code s = x @ a \<and> pos = length x \<and> frag (ps_capture_count s) a"
    and n: "0 < ps_capture_count s" "ps_capture_count s \<le> 255"
  shows "\<exists>c. frag (ps_capture_count s) c \<and> holds s s' (x @ c)"
proof -
  define a' where "a' = (if good s then a else [])"
  have f: "frag (ps_capture_count s) a'" using s frag.Empty by (simp add: a'_def)
  have h: "holds s s (x @ a')" and pos: "good s \<Longrightarrow> length x = pos" using s by (auto simp: holds_def a'_def)
  have len: "good s \<Longrightarrow> length a' = code_size s - pos" using s code_size_eq [of s] by (auto simp: a'_def)
  obtain cd simple where c: "atom_code s pos = Some cd" "(if greedy \<and> qmax > 0 then re_is_simple_quantifier cd else Some (-1)) = Some simple"
    using e by (auto simp: emit_quantifier_def bind_eq_Some_conv)
  show ?thesis
  proof (cases "simple > 0")
    case True
    have "emit_simple_quant s pos qmin qmax simple = Some s'" using e c True by (auto simp: emit_quantifier_def split: if_splits)
    then have m: "emit_simple_quant s pos qmin qmax (int (nat simple)) = Some s'" using True by simp
    have "good s \<Longrightarrow> cd = a'" using s c(1) atom_code_eq [of s x a cd] by (auto simp: a'_def)
    then show ?thesis using emit_simple_quant_holds [OF m h pos f] c(2) True by (auto split: if_splits)
  next
    case False
    then obtain z where z: "(if qmin = 0 then do { (s1, pos1) \<leftarrow> emit_save_reset s pos lcc; emit_from_zero s1 pos1 (code_size s - pos) qmax greedy z }
        else if qmin = 1 \<and> qmax = uint INT32_MAX \<and> \<not> z then
          map_option snd (re_emit_goto s (if greedy then REOP_split_goto_first else REOP_split_next_first) pos)
        else emit_at_least s pos (code_size s - pos) qmin qmax greedy z) = Some s'"
      using e c unfolding emit_quantifier_def Let_def by (fastforce simp: bind_eq_Some_conv)
    consider (zero) "qmin = 0" | (plus) "qmin = 1 \<and> qmax = uint INT32_MAX \<and> \<not> z" | (more) "qmin \<noteq> 0" "\<not> (qmin = 1 \<and> qmax = uint INT32_MAX \<and> \<not> z)" by fastforce
    then show ?thesis
    proof cases
      case zero
      then obtain s1 pos1 where m: "emit_save_reset s pos lcc = Some (s1, pos1)" "emit_from_zero s1 pos1 (code_size s - pos) qmax greedy z = Some s'"
        using z by (auto simp: bind_eq_Some_conv)
      obtain r where r: "frag (ps_capture_count s) r" "holds s s1 ((x @ r) @ a')" "good s \<Longrightarrow> length (x @ r) = pos1"
        using emit_save_reset_holds [OF m(1) h pos n] by blast
      obtain c where "frag (ps_capture_count s) c" "holds s s' ((x @ r) @ c)" using emit_from_zero_holds [OF m(2) r(2,3) len f] by blast
      then show ?thesis using frag.Seq [OF r(1)] by auto
    next
      case plus
      let ?oc = "if greedy then REOP_split_goto_first else REOP_split_next_first"
      obtain p where m: "re_emit_goto s ?oc pos = Some (p, s')" using z plus by auto
      have sp: "?oc \<in> split_ops" by (simp add: split_ops_def)
      have 1: "holds s s' ((x @ a') @ reop_num ?oc # le32 (int pos - int (length (x @ a')) - 5))" using leadsD [OF re_emit_goto_holds [OF h] m] by simp
      have "holds s s' (x @ a' @ reop_num ?oc # le32 (- int (length a') - 5))" by (rule holds_eq [OF 1]) (use pos holds_good [OF 1] in auto)
      then show ?thesis using frag.Plus [OF f sp] by blast
    next
      case more
      then have "emit_at_least s pos (code_size s - pos) qmin qmax greedy z = Some s'" using z by (simp split: if_splits)
      from emit_at_least_holds [OF this h pos len f] show ?thesis .
    qed
  qed
qed

end
