(* ===== verification/Regexp_Class.thy ===== *)
theory Regexp_Class
  imports Regexp_Emit
begin

unbundle bit_operations_syntax

text \<open>
  The character classes of the compiler: ranges have an even number of points, the scanning functions leave
  the code alone, and the code emitted for a range is one instruction.
\<close>

section \<open>Ranges\<close>

lemma emit_ranges16_holds:
  "emit_ranges16 s pt len i = Some s' \<Longrightarrow> holds s0 s c \<Longrightarrow> even (len - i) \<Longrightarrow> \<exists>bs. length bs = 2 * (len - i) \<and> holds s0 s' (c @ bs)"
proof (induction s pt len i arbitrary: c rule: emit_ranges16.induct)
  case (1 s pt len i)
  show ?case
  proof (cases "i < len")
    case True
    obtain low s1 v s2 where m: "rd pt i = Some low" "put_code s (to_bytes 2 (ucast low :: u16)) = Some s1" "rd pt (i + 1) = Some v"
        "put_code s1 (to_bytes 2 (ucast (if v - 1 = 0xffffffff - 1 then 0xffff else v - 1) :: u16)) = Some s2" "emit_ranges16 s2 pt len (i + 2) = Some s'"
      using 1(2) True by (subst (asm) emit_ranges16.simps) (auto simp: bind_eq_Some_conv Let_def)
    have "holds s0 s1 (c @ to_bytes 2 (ucast low :: u16))" by (rule leadsD [OF put_code_holds [OF 1(3)] m(2)]) simp
    then have "holds s0 s2 ((c @ to_bytes 2 (ucast low :: u16)) @ to_bytes 2 (ucast (if v - 1 = 0xffffffff - 1 then 0xffff else v - 1) :: u16))"
      by (rule leadsD [OF put_code_holds m(4)]) simp
    moreover have "even (len - (i + 2))" "len - i = 2 + (len - (i + 2))" using 1(4) True by presburger+
    ultimately obtain bs where "length bs = 2 * (len - (i + 2))"
        "holds s0 s' (((c @ to_bytes 2 (ucast low :: u16)) @ to_bytes 2 (ucast (if v - 1 = 0xffffffff - 1 then 0xffff else v - 1) :: u16)) @ bs)"
      using 1(1) [OF True m(1,2,3) refl refl m(4,5)] by blast
    then show ?thesis using \<open>len - i = 2 + (len - (i + 2))\<close>
      by (intro exI [of _ "to_bytes 2 (ucast low :: u16) @ to_bytes 2 (ucast (if v - 1 = 0xffffffff - 1 then 0xffff else v - 1) :: u16) @ bs"]) (simp only: length_append append_assoc length_to_bytes, simp)
  next
    case False
    then show ?thesis using 1(2,3) by (subst (asm) emit_ranges16.simps) auto
  qed
qed

lemma emit_ranges32_holds:
  "emit_ranges32 s pt len i = Some s' \<Longrightarrow> holds s0 s c \<Longrightarrow> even (len - i) \<Longrightarrow> \<exists>bs. length bs = 4 * (len - i) \<and> holds s0 s' (c @ bs)"
proof (induction s pt len i arbitrary: c rule: emit_ranges32.induct)
  case (1 s pt len i)
  show ?case
  proof (cases "i < len")
    case True
    obtain low s1 v s2 where m: "rd pt i = Some low" "put_code s (to_bytes 4 low) = Some s1" "rd pt (i + 1) = Some v"
        "put_code s1 (to_bytes 4 (v - 1)) = Some s2" "emit_ranges32 s2 pt len (i + 2) = Some s'"
      using 1(2) True by (subst (asm) emit_ranges32.simps) (auto simp: bind_eq_Some_conv Let_def)
    have "holds s0 s1 (c @ to_bytes 4 low)" by (rule leadsD [OF put_code_holds [OF 1(3)] m(2)]) simp
    then have "holds s0 s2 ((c @ to_bytes 4 low) @ to_bytes 4 (v - 1))" by (rule leadsD [OF put_code_holds m(4)]) simp
    moreover have "even (len - (i + 2))" "len - i = 2 + (len - (i + 2))" using 1(4) True by presburger+
    ultimately obtain bs where "length bs = 4 * (len - (i + 2))" "holds s0 s' (((c @ to_bytes 4 low) @ to_bytes 4 (v - 1)) @ bs)"
      using 1(1) [OF True m(1,2,3,4,5)] by blast
    then show ?thesis using \<open>len - i = 2 + (len - (i + 2))\<close>
      by (intro exI [of _ "to_bytes 4 low @ to_bytes 4 (v - 1) @ bs"]) (simp only: length_append append_assoc length_to_bytes, simp)
  next
    case False
    then show ?thesis using 1(2,3) by (subst (asm) emit_ranges32.simps) auto
  qed
qed

lemma u16_of_count: "to_bytes 2 (ucast (word_of_nat k :: u32) :: u16) = to_bytes 2 (word_of_nat k :: u16)"
  by (rule arg_cong [where f = "to_bytes 2"], rule bit_word_eqI) (simp add: bit_simps)

lemma re_emit_range_holds:
  assumes e: "re_emit_range s cr = Some (Done u s')" and ev: "even (cr_len cr)" and h: "holds s0 s c"
  shows "\<exists>f. frag n f \<and> holds s0 s' (c @ f)"
proof -
  let ?k = "cr_len cr div 2"
  have k: "?k < 65535" using e by (auto simp: re_emit_range_def re_parse_error_def Let_def split: if_splits)
  consider (none) "?k = 0" | (r16) s1 where "?k \<noteq> 0" "re_emit_op_u16 s REOP_range (word_of_nat ?k) = Some s1" "emit_ranges16 s1 (pts cr) (cr_len cr) 0 = Some s'"
    | (r32) s1 where "?k \<noteq> 0" "re_emit_op_u16 s REOP_range32 (word_of_nat ?k) = Some s1" "emit_ranges32 s1 (pts cr) (cr_len cr) 0 = Some s'"
    using e k unfolding re_emit_range_def Let_def by (fastforce simp: bind_eq_Some_conv split: if_splits)
  then show ?thesis
  proof cases
    case none
    then obtain p where m: "re_emit_op_u32 s REOP_char32 (-1) = Some (p, s')" using e by (auto simp: re_emit_range_def bind_eq_Some_conv Let_def)
    have "holds s0 s' (c @ reop_num REOP_char32 # le32 (-1))" using leadsD [OF re_emit_op_u32_holds [OF h] m] by simp
    moreover have "frag n (reop_num REOP_char32 # le32 (-1))" by (rule frag.Instr) (simp add: plain_instr_def)
    ultimately show ?thesis by blast
  next
    case r16
    note 1 = leadsD [OF re_emit_op_u16_holds [OF h] r16(2)]
    obtain bs where b: "length bs = 2 * cr_len cr" "holds s0 s' ((c @ reop_num REOP_range # to_bytes 2 (ucast (word_of_nat ?k :: u32) :: u16)) @ bs)"
      using emit_ranges16_holds [OF r16(3) 1] ev by auto
    have "plain_instr n REOP_range (to_bytes 2 (word_of_nat ?k :: u16) @ bs)" unfolding plain_instr_def using r16(1) k b(1) ev
      by (auto intro!: exI [of _ ?k])
    from frag.Instr [OF this] b(2) show ?thesis unfolding u16_of_count by auto
  next
    case r32
    note 1 = leadsD [OF re_emit_op_u16_holds [OF h] r32(2)]
    obtain bs where b: "length bs = 4 * cr_len cr" "holds s0 s' ((c @ reop_num REOP_range32 # to_bytes 2 (ucast (word_of_nat ?k :: u32) :: u16)) @ bs)"
      using emit_ranges32_holds [OF r32(3) 1] ev by auto
    have "plain_instr n REOP_range32 (to_bytes 2 (word_of_nat ?k :: u16) @ bs)" unfolding plain_instr_def using r32(1) k b(1) ev
      by (auto intro!: exI [of _ ?k])
    from frag.Instr [OF this] b(2) show ?thesis unfolding u16_of_count by auto
  qed
qed

text \<open>The points of a range come in pairs.\<close>

lemma compress_loop_even: "compress_loop len p i k = Some (p', k') \<Longrightarrow> even k \<Longrightarrow> even k'"
proof -
  have "compress_loop len p i k = Some x \<Longrightarrow> even k \<longrightarrow> even (snd x)" for x
    by (rule compress_loop.raw_induct [of "\<lambda>len p i k x. even k \<longrightarrow> even (snd x)"])
       (auto simp: bind_eq_Some_conv split: if_splits)
  then show "compress_loop len p i k = Some (p', k') \<Longrightarrow> even k \<Longrightarrow> even k'" by fastforce
qed

lemma cr_op_even: "cr_op cr a b op = Some (0, cr') \<Longrightarrow> even (cr_len cr')"
  using compress_loop_even [of _ _ 0 0] by (auto simp: cr_op_def cr_compress_def bind_eq_Some_conv split: if_splits)

lemma cr_union1_even: "cr_union1 cr b = Some (0, cr') \<Longrightarrow> even (cr_len cr')"
  using cr_op_even by (fastforce simp: cr_union1_def bind_eq_Some_conv)

lemma cr_invert_even: "cr_invert cr = Some (0, cr') \<Longrightarrow> even (cr_len cr')"
  using compress_loop_even [of _ _ 0 0] by (auto simp: cr_invert_def cr_compress_def Let_def bind_eq_Some_conv split: if_splits prod.splits)

lemma cr_union_interval_even: "cr_union_interval cr a b = Some (0, cr') \<Longrightarrow> even (cr_len cr')"
  by (simp add: cr_union_interval_def cr_union1_even)

lemma cr_canonicalize_even:
  assumes "cr_canonicalize cr = Some (0, cr')"
  shows "even (cr_len cr')"
proof -
  obtain ret a pt where a: "cr_op (fresh cr (mem_opaque cr)) pt [0x61, 0x7a + 1] CR_OP_INTER = Some (ret, a)"
      "(if ret \<noteq> 0 then Some (ret, cr\<lparr>mem_opaque := cr_free a\<rparr>) else do {
         apt \<leftarrow> slice (pts a) 0 (cr_len a);
         (ret, cr) \<leftarrow> cr_union1 (cr\<lparr>mem_opaque := mem_opaque a\<rparr>) (map (\<lambda>v. v + (0x41 - 0x61)) apt);
         Some (ret, cr\<lparr>mem_opaque := cr_free (a\<lparr>mem_opaque := mem_opaque cr\<rparr>)\<rparr>) }) = Some (0, cr')"
    using assms by (auto simp: cr_canonicalize_def bind_eq_Some_conv simp del: word_neq_0_conv split del: if_split)
  then have "ret = 0" by (auto split: if_splits)
  then obtain x pt' cr1 m where "cr_union1 x pt' = Some (0, cr1)" "cr' = cr1\<lparr>mem_opaque := m\<rparr>"
    using a(2) by (auto simp: bind_eq_Some_conv)
  then show ?thesis using cr_union1_even by fastforce
qed

lemma cr_realloc_len: "cr_realloc cr n = (r, cr') \<Longrightarrow> cr_len cr' = cr_len cr"
  by (auto simp: cr_realloc_def Let_def split: if_splits option.splits prod.splits)

lemma cr_add_point_len: "cr_add_point cr v = Some (0, cr') \<Longrightarrow> cr_len cr' = cr_len cr + 1"
  by (auto simp: cr_add_point_def put_point_def bind_eq_Some_conv split: if_splits prod.splits dest: cr_realloc_len)

lemma add_points_len: "add_points cr vs = Some (0, cr') \<Longrightarrow> cr_len cr' = cr_len cr + length vs"
  by (induction cr vs rule: add_points.induct) (auto simp: bind_eq_Some_conv split: if_splits dest: cr_add_point_len)

lemma cr_init_char_range_even: "cr_init_char_range f m c = Some (0, cr') \<Longrightarrow> even (cr_len cr')"
  by (auto simp: cr_init_char_range_def bind_eq_Some_conv slice_def cr_init_def split: if_splits dest!: add_points_len cr_invert_even)

lemma holds_even: "cr_holds cr S \<Longrightarrow> even (cr_len cr)"
  by (auto simp: cr_holds_def)

lemma new_range_ok: "cr_alloc_ok (ps_alloc s) \<Longrightarrow> cr_wf (new_range s)" "cr_alloc_ok (ps_alloc s) \<Longrightarrow> cr_content (new_range s) = []"
  using cr_init_wf [of "ps_alloc s" "Some (ps_alloc s)" "ps_mem s"] by (simp_all add: new_range_def)

lemma general_category_even:
  assumes "cr_wf cr" "cr_content cr = []" "unicode_general_category cr name = Some (r, cr')"
  shows "r = 0 \<and> even (cr_len cr') \<or> r = -1 \<or> r = -2 \<and> cr' = cr"
proof (cases "entry_index name unicode_gc_name_table_entries")
  case None
  then show ?thesis using assms(3) find_name_in [OF gc_names_ok, of name, folded unicode_gc_name_table_def] by (auto simp: unicode_general_category_def)
next
  case (Some i)
  then show ?thesis using unicode_general_category_ok [OF assms(1,2) Some] assms(3) holds_even by (fastforce simp: ok_conv)
qed

lemma unicode_prop_even:
  assumes "cr_wf cr" "cr_content cr = []" "unicode_prop cr name = Some (0, cr')"
  shows "even (cr_len cr')"
proof (cases "entry_index name unicode_prop_name_table_entries")
  case None
  then show ?thesis using assms(3) find_name_in [OF prop_names_ok, of name, folded unicode_prop_name_table_def] by (auto simp: unicode_prop_def)
next
  case (Some i)
  then show ?thesis using unicode_prop_ok [OF assms(1,2) Some] assms(3) holds_even by (fastforce simp: ok_conv)
qed

lemma unicode_script_even:
  assumes "cr_wf cr" "cr_content cr = []" "unicode_script cr name is_ext = Some (0, cr')"
  shows "even (cr_len cr')"
proof (cases is_ext)
  case True
  then show ?thesis using assms(3) cr_op_even unfolding unicode_script_def by (fastforce simp: bind_eq_Some_conv Let_def script_fail_diverges split: if_splits)
next
  case False
  then obtain i where "script_loop i cr 0 unicode_script_table = Some (0, cr')"
    using assms(3) by (auto simp: unicode_script_def bind_eq_Some_conv Let_def script_fail_diverges split: if_splits)
  then show ?thesis using sc.loop_holds [where idx = i, OF script_runs assms(1,2)] holds_even by (fastforce simp: ok_conv)
qed

section \<open>Scanning\<close>

text \<open>\<open>yields m Q\<close>: if \<open>m\<close> returns without an error, result and state satisfy \<open>Q\<close>.\<close>

definition yields :: "('a, 'm) outcome option \<Rightarrow> ('a \<Rightarrow> 'm REParseState \<Rightarrow> bool) \<Rightarrow> bool" where
  "yields m Q \<longleftrightarrow> (\<forall>a s. m = Some (Done a s) \<longrightarrow> Q a s)"

lemma yields_simps [simp]: "yields (Some (Done a s)) Q = Q a s" "yields (Some (Fail s)) Q" "yields None Q" "yields (re_parse_error s msg) Q"
  "yields (if b then m else m') Q = (if b then yields m Q else yields m' Q)"
  by (auto simp: yields_def re_parse_error_def)

lemma yields_or_free [simp]: "yields (or_free cr m) Q = yields m Q"
proof (cases m)
  case (Some r)
  then show ?thesis by (cases r) (simp_all add: or_free_def yields_def)
qed (simp add: or_free_def yields_def)

lemma yields_bind [simp]: "yields (m \<bind> f) Q = leads m (\<lambda>x. yields (f x) Q)"
  by (auto simp: yields_def leads_def bind_eq_Some_conv)

lemma yields_checked [simp]: "yields (checked m f) Q = yields m (\<lambda>a s. yields (f a s) Q)"
proof (cases m)
  case (Some r)
  then show ?thesis by (cases r) (simp_all add: checked_def)
qed (simp add: checked_def)

lemma yieldsI: "(\<And>a s'. m = Some (Done a s') \<Longrightarrow> Q a s') \<Longrightarrow> yields m Q"
  by (simp add: yields_def)

lemma yieldsD: "yields m Q \<Longrightarrow> m = Some (Done a s) \<Longrightarrow> Q a s"
  by (simp add: yields_def)

lemma yields_mono: "yields m P \<Longrightarrow> (\<And>a s. P a s \<Longrightarrow> Q a s) \<Longrightarrow> yields m Q"
  by (simp add: yields_def)

lemma yields_case_option [simp]: "yields (case r of None \<Rightarrow> m | Some x \<Rightarrow> f x) Q = (case r of None \<Rightarrow> yields m Q | Some x \<Rightarrow> yields (f x) Q)"
  by (cases r) simp_all

text \<open>What the scanning functions leave alone.\<close>

definition scan :: "'m REParseState \<Rightarrow> 'm REParseState \<Rightarrow> bool" where
  "scan s s' \<longleftrightarrow> ps_byte_code s' = ps_byte_code s \<and> ps_group_names s' = ps_group_names s \<and> ps_buf s' = ps_buf s \<and> ps_alloc s' = ps_alloc s \<and>
     ps_capture_count s' = ps_capture_count s"

lemma scan_refl [simp]: "scan s s"
  by (simp add: scan_def)

lemma scan_trans: "scan s s1 \<Longrightarrow> scan s1 s2 \<Longrightarrow> scan s s2"
  by (simp add: scan_def)

lemma scan_updates [simp]: "scan s (with_mem s' cr) = scan s s'" "scan s (free_range s' cr) = scan s s'" "scan s (s'\<lparr>ps_u := u\<rparr>) = scan s s'"
  "scan s (s'\<lparr>ps_total_capture_count := n, ps_has_named_captures := k\<rparr>) = scan s s'" "scan s (s'\<lparr>ps_has_named_captures := k\<rparr>) = scan s s'"
  "scan s (s'\<lparr>ps_buf_ptr := p\<rparr>) = scan s s'"
  by (auto simp: scan_def with_mem_def free_range_def)

lemma scan_state: "scan s s' \<Longrightarrow> good s' = good s \<and> code s' = code s \<and> st_ok s' = st_ok s \<and> names_ok s' = names_ok s \<and> code_size s' = code_size s"
  by (simp add: scan_def good_def code_def st_ok_def names_ok_def code_size_def)

lemma scan_holds: "holds s0 s c \<Longrightarrow> scan s s' \<Longrightarrow> holds s0 s' c"
  using scan_state [of s s'] by (auto simp: holds_def same_def scan_def)

definition even_range :: "'m CharRange option \<Rightarrow> bool" where
  "even_range cr \<longleftrightarrow> (case cr of None \<Rightarrow> True | Some r \<Rightarrow> even (cr_len r))"

abbreviation atom_ok :: "'m REParseState \<Rightarrow> 'm class_atom \<Rightarrow> 'm REParseState \<Rightarrow> bool" where
  "atom_ok s r s' \<equiv> scan s s' \<and> even_range (fst (snd r))"

lemma class_range_yields: "yields (class_range s p c) (atom_ok s)"
  by (auto simp: class_range_def even_range_def yields_def bind_eq_Some_conv split: if_splits dest: cr_init_char_range_even)

lemma normal_char_yields: "yields (normal_char s p c) (atom_ok s)"
  by (auto simp: normal_char_def even_range_def leads_def split: option.splits)

lemma control_escape_yields: "yields (control_escape s p b) (atom_ok s)"
  by (auto simp: control_escape_def even_range_def leads_def)

lemma class_escape_yields: "yields (class_escape s p) (atom_ok s)"
  using normal_char_yields by (auto simp: class_escape_def even_range_def leads_def)

lemma property_range_yields:
  assumes "cr_alloc_ok (ps_alloc s)"
  shows "yields (property_range s name v) (\<lambda>cr s'. scan s s' \<and> even (cr_len cr))"
proof -
  note new = new_range_ok [OF assms]
  note gc = general_category_even [OF new] and sc = unicode_script_even [OF new]
  have up: "unicode_general_category (new_range s) name = Some (r, cr) \<Longrightarrow> r < 0 \<Longrightarrow> r \<noteq> -1 \<Longrightarrow> unicode_prop cr name = Some (0, cr') \<Longrightarrow> even (cr_len cr')" for r cr cr'
    using gc [of name r cr] unicode_prop_even [OF new] by auto
  show ?thesis unfolding property_range_def
    by (auto simp: leads_def split: if_splits dest: sc gc up)
qed

lemma parse_unicode_property_yields:
  assumes "cr_alloc_ok (ps_alloc s)"
  shows "yields (parse_unicode_property s p b) (\<lambda>(cr, p) s'. scan s s' \<and> even (cr_len cr))"
proof -
  define K where "K q cr s = (if b then do {
       (r, cr) \<leftarrow> cr_invert cr;
       if r \<noteq> 0 then Some (Fail (free_range (with_mem s cr) cr)) else Some (Done (cr, q) (with_mem s cr)) }
     else Some (Done (cr :: 'a CharRange, q :: nat) s))" for q cr s
  have "yields (property_range s name v) (\<lambda>cr s1. yields (K q cr s1) (\<lambda>(cr, p) s'. scan s s' \<and> even (cr_len cr)))" for name v q
    by (rule yields_mono [OF property_range_yields [OF assms]]) (auto simp: K_def leads_def dest: cr_invert_even)
  then show ?thesis unfolding parse_unicode_property_def Let_def K_def [symmetric]
    by (auto simp only: yields_bind yields_simps yields_checked yields_case_option prod.case split: if_split option.split intro!: leadsI)
qed

lemma get_class_atom_yields:
  assumes "cr_alloc_ok (ps_alloc s)"
  shows "yields (get_class_atom s p b) (atom_ok s)"
proof -
  have "yields (checked (parse_unicode_property s q inv) (\<lambda>(cr, p) s. Some (Done (CLASS_RANGE_BASE, Some cr, p) s))) (atom_ok s)" for q inv
    using parse_unicode_property_yields [OF assms, of q inv] by (auto simp: even_range_def elim!: yields_mono)
  then show ?thesis unfolding get_class_atom_def Let_def
    by (auto simp only: yields_bind yields_simps split: if_split intro!: leadsI class_range_yields control_escape_yields class_escape_yields normal_char_yields)
qed

section \<open>Character classes\<close>

lemma checked_Done [simp]: "checked m f = Some (Done a s') \<longleftrightarrow> (\<exists>b s1. m = Some (Done b s1) \<and> f b s1 = Some (Done a s'))"
proof (cases m)
  case (Some r)
  then show ?thesis by (cases r) (simp_all add: checked_def)
qed (simp add: checked_def)

lemma or_free_Done [simp]: "or_free cr m = Some (Done a s) \<longleftrightarrow> m = Some (Done a s)"
proof (cases m)
  case (Some r)
  then show ?thesis by (cases r) (simp_all add: or_free_def)
qed (simp add: or_free_def)

lemma error_not_Done [simp]: "re_parse_error s msg \<noteq> Some (Done a s')"
  by (simp add: re_parse_error_def)

lemma on_range_yields:
  assumes "\<And>cr cr'. f cr = Some (0, cr') \<Longrightarrow> even (cr_len cr')"
  shows "yields (on_range s cr f) (\<lambda>cr' s'. scan s s' \<and> even (cr_len cr'))"
  using assms by (auto simp: on_range_def leads_def)

lemma add_class_atom_yields: "yields (add_class_atom s cr c1 cr1) (\<lambda>cr' s'. scan s s' \<and> even (cr_len cr'))"
proof (cases "c1 \<ge> CLASS_RANGE_BASE")
  case True
  then show ?thesis by (auto simp: add_class_atom_def leads_def Let_def dest: cr_union1_even)
next
  case False
  then show ?thesis using on_range_yields [of "\<lambda>cr. cr_union_interval cr c1 c1" s cr] cr_union_interval_even by (auto simp: add_class_atom_def)
qed

abbreviation range_ok :: "'m REParseState \<Rightarrow> 'm CharRange \<times> nat \<Rightarrow> 'm REParseState \<Rightarrow> bool" where
  "range_ok s r s' \<equiv> scan s s' \<and> even (cr_len (fst r))"

lemma scan_alloc: "scan s s' \<Longrightarrow> ps_alloc s' = ps_alloc s"
  by (simp add: scan_def)

lemma class_item_yields:
  assumes "cr_alloc_ok (ps_alloc s)"
  shows "yields (class_item s cr p) (range_ok s)"
proof -
  have union: "range_ok s (cr', q) s'" if "scan s s2" "add_class_atom s2 cr c1 cr1 = Some (Done cr' s')" for s2 c1 cr1 cr' s' q
    using yieldsD [OF add_class_atom_yields that(2)] scan_trans [OF that(1)] by simp
  have range: "range_ok s (cr', q) s'" if "scan s s2" "on_range s2 cr (\<lambda>cr. cr_union_interval cr c1 c2) = Some (Done cr' s')" for s2 c1 c2 cr' s' q
    using yieldsD [OF on_range_yields that(2)] cr_union_interval_even scan_trans [OF that(1)] by fastforce
  have get: "scan s s2" if "scan s s1" "get_class_atom s1 q True = Some (Done r s2)" for s1 s2 q r
    using yieldsD [OF get_class_atom_yields that(2)] assms scan_alloc [OF that(1)] scan_trans [OF that(1)] by simp
  show ?thesis
  proof (rule yieldsI)
    fix r s' assume e: "class_item s cr p = Some (Done r s')"
    then obtain c1 cr1 p1 s1 b b1 where g: "get_class_atom s p True = Some (Done (c1, cr1, p1) s1)" and
      rest: "(if b = ch CHR ''-'' \<and> b1 \<noteq> ch CHR '']'' then
         if c1 \<ge> CLASS_RANGE_BASE then
           if ps_is_utf16 s1 then do {
             cr1 \<leftarrow> cr1; or_free cr (re_parse_error (free_range s1 cr1) ''invalid class range'') }
           else checked (add_class_atom s1 cr c1 cr1) (\<lambda>cr s. Some (Done (cr, p1) s))
         else checked (or_free cr (get_class_atom s1 (p1 + 1) True)) (\<lambda>(c2, cr2, p0) s.
           if c2 \<ge> CLASS_RANGE_BASE then do {
             cr2 \<leftarrow> cr2;
             let s = free_range s cr2;
             if ps_is_utf16 s then or_free cr (re_parse_error s ''invalid class range'') else checked (add_class_atom s cr c1 cr1) (\<lambda>cr s. Some (Done (cr, p1) s)) }
           else if c2 < c1 then or_free cr (re_parse_error s ''invalid class range'')
           else checked (on_range s cr (\<lambda>cr. cr_union_interval cr c1 c2)) (\<lambda>cr s. Some (Done (cr, p0) s)))
       else checked (add_class_atom s1 cr c1 cr1) (\<lambda>cr s. Some (Done (cr, p1) s))) = Some (Done r s')"
      by (auto simp: class_item_def Let_def bind_eq_Some_conv split del: if_split)
    note s1 = get [OF scan_refl g]
    have plain: "range_ok s r s'" if "scan s s2" "checked (add_class_atom s2 cr c1 cr1) (\<lambda>cr s. Some (Done (cr, p1) s)) = Some (Done r s')" for s2
      using that(2) union [OF that(1)] by auto
    consider (atom) "checked (add_class_atom s1 cr c1 cr1) (\<lambda>cr s. Some (Done (cr, p1) s)) = Some (Done r s')"
      | (error) cr1' where "or_free cr (re_parse_error (free_range s1 cr1') ''invalid class range'') = Some (Done r s')"
      | (second) "checked (or_free cr (get_class_atom s1 (p1 + 1) True)) (\<lambda>(c2, cr2, p0) s.
           if c2 \<ge> CLASS_RANGE_BASE then do {
             cr2 \<leftarrow> cr2;
             let s = free_range s cr2;
             if ps_is_utf16 s then or_free cr (re_parse_error s ''invalid class range'') else checked (add_class_atom s cr c1 cr1) (\<lambda>cr s. Some (Done (cr, p1) s)) }
           else if c2 < c1 then or_free cr (re_parse_error s ''invalid class range'')
           else checked (on_range s cr (\<lambda>cr. cr_union_interval cr c1 c2)) (\<lambda>cr s. Some (Done (cr, p0) s))) = Some (Done r s')"
      using rest by (auto simp only: bind_eq_Some_conv split: if_split_asm)
    then show "range_ok s r s'"
    proof cases
      case second
      then obtain c2 cr2 p0 s2 where g2: "get_class_atom s1 (p1 + 1) True = Some (Done (c2, cr2, p0) s2)" and
        r2: "(if c2 \<ge> CLASS_RANGE_BASE then do {
             cr2 \<leftarrow> cr2;
             let s = free_range s2 cr2;
             if ps_is_utf16 s then or_free cr (re_parse_error s ''invalid class range'') else checked (add_class_atom s cr c1 cr1) (\<lambda>cr s. Some (Done (cr, p1) s)) }
           else if c2 < c1 then or_free cr (re_parse_error s2 ''invalid class range'')
           else checked (on_range s2 cr (\<lambda>cr. cr_union_interval cr c1 c2)) (\<lambda>cr s. Some (Done (cr, p0) s))) = Some (Done r s')"
        by (auto simp only: checked_Done or_free_Done split_paired_Ex prod.case)
      note s2 = get [OF s1 g2]
      show ?thesis
      proof (cases "c2 \<ge> CLASS_RANGE_BASE")
        case True
        then obtain x where x: "cr2 = Some x" "checked (add_class_atom (free_range s2 x) cr c1 cr1) (\<lambda>cr s. Some (Done (cr, p1) s)) = Some (Done r s')"
          using r2 by (cases cr2) (simp_all add: Let_def split: if_splits)
        show ?thesis by (rule plain [OF _ x(2)]) (simp add: s2)
      next
        case False
        then show ?thesis using r2 range [OF s2] by (auto split: if_splits)
      qed
    qed (use plain [OF s1] in auto)
  qed
qed

lemma class_loop_yields:
  assumes "cr_alloc_ok (ps_alloc s)" "even (cr_len cr)"
  shows "yields (class_loop s cr p) (range_ok s)"
proof -
  let ?P = "\<lambda>s cr p x. \<forall>r s'. x = Done r s' \<longrightarrow> cr_alloc_ok (ps_alloc s) \<longrightarrow> even (cr_len cr) \<longrightarrow> range_ok s r s'"
  have "class_loop s cr p = Some x \<Longrightarrow> ?P s cr p x" for x
  proof (rule class_loop.raw_induct [of ?P])
    fix loop s cr p y
    assume IH: "\<And>s cr p y. loop s cr p = Some y \<Longrightarrow> ?P s cr p y"
      and e: "do { b \<leftarrow> rd (ps_buf s) p; if b = ch CHR '']'' then Some (Done (cr, p) s)
        else do { r \<leftarrow> class_item s cr p; case r of Fail s \<Rightarrow> Some (Fail s) | Done (cr, p) s \<Rightarrow> loop s cr p } } = Some y"
    show "?P s cr p y"
    proof (intro allI impI)
      fix r s' assume y: "y = Done r s'" and a: "cr_alloc_ok (ps_alloc s)" "even (cr_len cr)"
      obtain b where b: "rd (ps_buf s) p = Some b" using e by (auto simp: bind_eq_Some_conv)
      show "range_ok s r s'"
      proof (cases "b = ch CHR '']''")
        case True
        then show ?thesis using e b y a by auto
      next
        case False
        then obtain x where x: "class_item s cr p = Some x" "(case x of Fail s \<Rightarrow> Some (Fail s) | Done (cr, p) s \<Rightarrow> loop s cr p) = Some (Done r s')"
          using e b y by (auto simp: bind_eq_Some_conv)
        obtain cr1 p1 s1 where i: "class_item s cr p = Some (Done (cr1, p1) s1)" "loop s1 cr1 p1 = Some (Done r s')"
          using x by (cases x) auto
        have 1: "scan s s1" "even (cr_len cr1)" using yieldsD [OF class_item_yields [OF a(1)] i(1)] by auto
        then show ?thesis using IH [OF i(2)] a(1) scan_alloc [OF 1(1)] scan_trans [OF 1(1)] by auto
      qed
    qed
  qed
  then show ?thesis using assms by (auto simp: yields_def)
qed

end
