(* ===== verification/Regexp_Run.thy ===== *)
theory Regexp_Run
  imports Regexp_Safety
begin

unbundle bit_operations_syntax

text \<open>
  The invariant of \<open>Regexp_Safety\<close> is kept by every instruction, so that checked bytecode never makes the
  interpreter read or write outside its arrays, whatever the text, the allocator and the starting position;
  and what \<open>lre_exec\<close> returns then.
\<close>

section \<open>Every instruction keeps the invariant\<close>

text \<open>Only the instructions of a simple atom run while a quantifier waits.\<close>

lemma no_call:
  assumes "exec_inv s L x" "opcode_at (rx_bc s) (x_pc x) = Some oc" "\<not> is_simple_char oc" "\<not> is_simple_test oc" "oc \<noteq> REOP_match"
  shows "x_calls x = []"
proof (rule ccontr)
  assume "x_calls x \<noteq> []"
  then obtain qc cs where "x_calls x = qc # cs" by (cases "x_calls x") auto
  then have "\<exists>n. simple_body (rx_bc s) (x_pc x) n" using assms(1) by (cases cs) (auto simp: exec_inv_def atom_ok_def)
  then show False using assms(2-5) by (auto simp: simple_body.simps [of _ "x_pc x"] split: option.splits)
qed

lemma advance_ok:
  assumes x: "exec_inv s L x" and oc: "opcode_at (rx_bc s) (x_pc x) = Some oc" "instr_len (rx_bc s) (x_pc x) oc = Some len"
    and pc: "(x_pc x + len, x_stack_len x) \<in> L" and q: "q \<le> length (rx_cbuf s)"
    and n: "is_simple_char oc \<and> chars_before s q = chars_before s (x_cptr x) + 1 \<or> is_simple_test oc \<and> q = x_cptr x \<or> x_calls x = []"
    and m: "oc \<noteq> REOP_match"
  shows "exec_inv s L (x\<lparr>x_pc := x_pc x + len, x_cptr := q\<rparr>)"
proof -
  have "calls_ok s L (x_calls x) (x_pc x + len) q (x_stack_len x)"
  proof (cases "x_calls x")
    case (Cons qc cs)
    then have qc: "x_calls x = [qc]" using x by (cases cs) (auto simp: exec_inv_def)
    obtain cc n where a: "u32_at (rx_bc s) (qc_pc1 qc - 4) = Some cc" "simple_body (rx_bc s) (x_pc x) n"
        "chars_before s (qc_cptr qc) + unat cc \<le> chars_before s (x_cptr x) + n"
      using x qc by (auto simp: exec_inv_def atom_ok_def)
    have "if is_simple_char oc then n > 0 \<and> simple_body (rx_bc s) (x_pc x + len) (n - 1) else simple_body (rx_bc s) (x_pc x + len) n"
      using a(2) oc m by (auto simp: simple_body.simps [of _ "x_pc x"])
    moreover have "is_simple_test oc \<Longrightarrow> \<not> is_simple_char oc" by (auto simp: is_simple_test_def is_simple_char_def)
    ultimately have "atom_ok s qc (x_pc x + len) q"
      using a n Cons by (auto simp: atom_ok_def split: if_splits intro!: exI [of _ "if is_simple_char oc then n - 1 else n"])
    then show ?thesis using x qc by (simp add: exec_inv_def)
  qed simp
  then show ?thesis using x pc q by (simp add: exec_inv_def mem_ok_def)
qed

lemma stay_ok:
  assumes "exec_inv s L x" "opcode_at (rx_bc s) (x_pc x) = Some oc" "instr_len (rx_bc s) (x_pc x) oc = Some len"
    "(x_pc x + len, x_stack_len x) \<in> L" "is_simple_test oc \<or> x_calls x = []" "oc \<noteq> REOP_match"
  shows "exec_inv s L (x\<lparr>x_pc := x_pc x + len\<rparr>)"
  using advance_ok [of s L x oc len "x_cptr x"] assms by (auto simp: exec_inv_def)

lemma cont_ok:
  assumes "rx_stack_max s \<le> 255" "exec_inv s L x"
  shows "b \<longrightarrow> exec_inv s L (x\<lparr>x_pc := pc, x_cptr := q\<rparr>) \<Longrightarrow> ok (cont s alloc b (x\<lparr>x_pc := pc, x_cptr := q\<rparr>)) (result_ok s L)"
    "b \<longrightarrow> exec_inv s L (x\<lparr>x_pc := pc\<rparr>) \<Longrightarrow> ok (cont s alloc b (x\<lparr>x_pc := pc\<rparr>)) (result_ok s L)"
  using fail_ok [OF assms(2,1)] by (auto simp: cont_def)

text \<open>Instructions that read one character.\<close>

lemma read_step_ok:
  assumes s: "code_ok s L" and x: "exec_inv s L x" and oc: "opcode_at (rx_bc s) (x_pc x) = Some oc" "instr_len (rx_bc s) (x_pc x) oc = Some len"
    and pc: "(x_pc x + len, x_stack_len x) \<in> L" and c: "is_simple_char oc" and p: "x_cptr x < length (rx_cbuf s)"
  obtains c q c' where "GET_CHAR s (x_cptr x) (length (rx_cbuf s)) = Some (c, q)" "canonical s c = Some c'"
    "exec_inv s L (x\<lparr>x_pc := x_pc x + len, x_cptr := q\<rparr>)"
proof -
  have m: "oc \<noteq> REOP_match" using c by (auto simp: is_simple_char_def)
  obtain c' q where g: "GET_CHAR s (x_cptr x) (length (rx_cbuf s)) = Some (c', q)" "q \<le> length (rx_cbuf s)"
      "chars_before s q = chars_before s (x_cptr x) + 1"
    using GET_CHAR_ok [OF p] by (auto simp: ok_conv)
  have "exec_inv s L (x\<lparr>x_pc := x_pc x + len, x_cptr := q\<rparr>)"
    using advance_ok [OF x oc pc g(2) _ m] c g(3) by simp
  moreover have "text_ok s" using s by (simp add: code_ok_def)
  then obtain c where "canonical s c' = Some c" using canonical_ok [OF GET_CHAR_small [OF _ g(1)]] by blast
  ultimately show ?thesis using that g(1) by blast
qed

lemma char_step_ok:
  assumes s: "code_ok s L" and x: "exec_inv s L x" and oc: "opcode_at (rx_bc s) (x_pc x) = Some oc" "instr_len (rx_bc s) (x_pc x) oc = Some len"
    and pc: "(x_pc x + len, x_stack_len x) \<in> L" and c: "is_simple_char oc"
  shows "ok (test_char s alloc x val (x_pc x + len)) (result_ok s L)"
proof (cases "x_cptr x < length (rx_cbuf s)")
  case False
  then show ?thesis using fail_ok [OF x, of alloc] s by (simp add: test_char_def code_ok_def)
next
  case True
  show ?thesis using cont_ok(1) [OF _ x] s True
    by (rule_tac read_step_ok [OF s x oc pc c True]) (auto simp: test_char_def code_ok_def)
qed

lemma range_step_ok:
  assumes s: "code_ok s L" and x: "exec_inv s L x" and oc: "opcode_at (rx_bc s) (x_pc x) = Some oc" "instr_len (rx_bc s) (x_pc x) oc = Some len"
    and pc: "(x_pc x + len, x_stack_len x) \<in> L" "x_pc x + len \<le> length (rx_bc s)" "3 < len"
  shows "oc = REOP_range \<Longrightarrow> ok (re_range s alloc x (x_pc x + 1) 4 range_match) (result_ok s L)"
    "oc = REOP_range32 \<Longrightarrow> ok (re_range s alloc x (x_pc x + 1) 8 range32_match) (result_ok s L)"
proof -
  have st: "rx_stack_max s \<le> 255" "text_ok s" using s by (auto simp: code_ok_def)
  obtain n where n: "u16_at (rx_bc s) (x_pc x + 1) = Some n" "unat n < 65536"
    using u16_at_ok [of "x_pc x + 1" "rx_bc s"] pc by auto
  have range: "ok (re_range s alloc x (x_pc x + 1) k f) (result_ok s L)"
    if k: "len = 3 + k * unat n" "is_simple_char oc" and f: "\<And>c. \<exists>b. f (rx_bc s) (x_pc x + 3) n c = Some b" for k f
  proof (cases "x_cptr x < length (rx_cbuf s)")
    case False
    then show ?thesis using n(1) fail_ok [OF x st(1)] by (simp add: re_range_def)
  next
    case True
    obtain c q c' where g: "GET_CHAR s (x_cptr x) (length (rx_cbuf s)) = Some (c, q)" "canonical s c = Some c'"
        "exec_inv s L (x\<lparr>x_pc := x_pc x + len, x_cptr := q\<rparr>)"
      by (rule read_step_ok [OF s x oc pc(1) k(2) True])
    obtain b where b: "f (rx_bc s) (x_pc x + 3) n c' = Some b" using f by blast
    have e: "x_pc x + 1 + 2 = x_pc x + 3" "x_pc x + 3 + k * unat n = x_pc x + len" using k(1) by simp_all
    show ?thesis unfolding re_range_def n(1) Option.bind.bind_lunit e using True g b cont_ok(1) [OF st(1) x] by simp
  qed
  show "ok (re_range s alloc x (x_pc x + 1) 4 range_match) (result_ok s L)" if "oc = REOP_range"
    using range [of 4 range_match] range_matches_total(1) [of n "x_pc x + 3" "rx_bc s"] that oc(2) n pc(2,3)
    by (auto simp: instr_len_def is_simple_char_def)
  show "ok (re_range s alloc x (x_pc x + 1) 8 range32_match) (result_ok s L)" if "oc = REOP_range32"
    using range [of 8 range32_match] range_matches_total(2) [of n "x_pc x + 3" "rx_bc s"] that oc(2) n pc(2,3)
    by (auto simp: instr_len_def is_simple_char_def)
qed

text \<open>Instructions that save a state: the state resumes at a checked instruction.\<close>

lemma re_push_ok:
  assumes st: "rx_stack_max s \<le> 255" and x: "exec_inv s L x" "x_calls x = []" and pc: "(pc1, x_stack_len x) \<in> L" "(pc, x_stack_len x) \<in> L"
    and ty: "ty \<noteq> RE_EXEC_STATE_GREEDY_QUANT"
  shows "ok (re_push s alloc x pc1 ty pc) (result_ok s L)"
proof -
  have "ok (push_state s alloc x pc1 (x_cptr x) ty 0) (\<lambda>(r, x'). kept_state x x' \<and> mem_ok s L x' \<and> (r = 0 \<or> r = -1))"
    using x pc ty by (intro push_state_ok [OF _ _ st]) (auto simp: exec_inv_def)
  then show ?thesis unfolding re_push_def ok_bind
    by (rule ok_mono) (use x pc in \<open>auto simp: exec_inv_def kept_state_def mem_ok_def\<close>)
qed

lemma re_backref_ok:
  assumes s: "code_ok s L" and x: "exec_inv s L x" "x_calls x = []" and pc: "x_pc x + 1 < length (rx_bc s)" "(x_pc x + 2, x_stack_len x) \<in> L"
  shows "ok (re_backref s alloc x (x_pc x + 1) backward) (result_ok s L)"
proof -
  have st: "rx_stack_max s \<le> 255" "text_ok s" using s by (auto simp: code_ok_def)
  let ?v = "unat (rx_bc s ! (x_pc x + 1))"
  have next_ok: "exec_inv s L (x\<lparr>x_pc := x_pc x + 2, x_cptr := q\<rparr>)" if "q \<le> length (rx_cbuf s)" for q
    using x pc that by (simp add: exec_inv_def mem_ok_def)
  have here: "x_cptr x \<le> length (rx_cbuf s)" using x(1) by (simp add: exec_inv_def)
  have caps: "length (x_capture x) = 2 * rx_captures s" "\<And>p. Some p \<in> set (x_capture x) \<Longrightarrow> p \<le> length (rx_cbuf s)"
    using x(1) by (auto simp: exec_inv_def mem_ok_def captures_ok_def)
  show ?thesis
  proof (cases "?v < rx_captures s")
    case False
    then show ?thesis using pc(1) fail_ok [OF x(1) st(1)] by (simp add: re_backref_def Let_def)
  next
    case v: True
    show ?thesis
    proof (cases "x_capture x ! (2 * ?v) = None \<or> x_capture x ! (2 * ?v + 1) = None")
      case True
      then show ?thesis using v pc caps(1) next_ok [OF here] by (auto simp: re_backref_def Let_def split: option.splits)
    next
      case False
      then obtain a b where ab: "x_capture x ! (2 * ?v) = Some a" "x_capture x ! (2 * ?v + 1) = Some b" by auto
      have b: "b \<le> length (rx_cbuf s)" using caps(2) [of b] ab(2) nth_mem [of "2 * ?v + 1" "x_capture x"] v caps(1) by simp
      have "ok (if backward then backward_backref_loop s b a (x_cptr x) else backref_loop s a b (x_cptr x))
          (\<lambda>r. \<forall>q. r = Some q \<longrightarrow> q \<le> length (rx_cbuf s))"
        using backref_loop_ok [OF st(2) b here, of a] backward_backref_loop_ok [OF st(2) b here, of a] by simp
      then obtain r where r: "(if backward then backward_backref_loop s b a (x_cptr x) else backref_loop s a b (x_cptr x)) = Some r"
          "\<And>q. r = Some q \<Longrightarrow> q \<le> length (rx_cbuf s)" by (auto simp: ok_conv)
      show ?thesis using v pc(1) caps(1) ab r next_ok fail_ok [OF x(1) st(1)]
        by (auto simp: re_backref_def Let_def split: option.splits)
    qed
  qed
qed

lemma captures_update: "captures_ok s cs \<Longrightarrow> p \<le> length (rx_cbuf s) \<Longrightarrow> captures_ok s (cs[i := Some p])" "captures_ok s cs \<Longrightarrow> captures_ok s (cs[i := None])"
  using set_update_subset_insert [of cs i "Some p"] set_update_subset_insert [of cs i None] by (auto simp: captures_ok_def)

lemma reset_captures_ok:
  "captures_ok s cs \<Longrightarrow> v + n \<le> rx_captures s \<Longrightarrow> ok (reset_captures cs v n) (captures_ok s)"
proof (induction n arbitrary: cs v)
  case (Suc n)
  have "captures_ok s (cs[2 * v := None, 2 * v + 1 := None])" using Suc.prems(1) captures_update(2) by blast
  then show ?case using Suc by (auto simp: wp captures_ok_def [of s cs])
qed simp

lemma save_step_ok:
  assumes x: "exec_inv s L x" "x_calls x = []" and pc: "(pc, x_stack_len x) \<in> L" and cs: "captures_ok s cs"
  shows "exec_inv s L (x\<lparr>x_pc := pc, x_capture := cs\<rparr>)"
  using assms by (simp add: exec_inv_def mem_ok_def)

lemma filled_push: "filled stack n \<Longrightarrow> n < length stack \<Longrightarrow> filled (stack[n := Some v]) (n + 1)"
  by (auto simp: filled_def take_Suc_conv_app_nth)

lemma stack_push_ok:
  assumes x: "exec_inv s L x" "x_calls x = []" and pc: "(pc, x_stack_len x + 1) \<in> L" and m: "x_stack_len x + 1 \<le> rx_stack_max s"
  shows "ok (stack_push x v) (\<lambda>x'. exec_inv s L (x'\<lparr>x_pc := pc\<rparr>))"
  using assms filled_push [of "x_stack x" "x_stack_len x" v] by (simp add: stack_push_def wp exec_inv_def mem_ok_def)

lemma stack_top_ok:
  assumes "filled stack n" "0 < n" "x_stack x = stack" "x_stack_len x = n"
  shows "ok (stack_top x) (\<lambda>v. True)"
proof -
  have "n - 1 < length (take n stack)" "take n stack ! (n - 1) = stack ! (n - 1)" using assms by (auto simp: filled_def)
  then have "stack ! (n - 1) \<noteq> None" using assms(1) nth_mem [of "n - 1" "take n stack"] by (metis filled_def)
  then show ?thesis using assms by (auto simp: stack_top_def rd_def filled_def)
qed

lemma filled_pop: "filled stack n \<Longrightarrow> filled stack (n - 1)"
  using set_take_subset_set_take [of "n - 1" n stack] by (auto simp: filled_def)

lemma filled_top: "filled stack n \<Longrightarrow> 0 < n \<Longrightarrow> filled (stack[n - 1 := Some v]) n"
proof -
  assume f: "filled stack n" "0 < n"
  have "take n (stack[n - 1 := Some v]) = (take n stack)[n - 1 := Some v]" by (simp add: take_update_swap)
  then show ?thesis using f set_update_subset_insert [of "take n stack" "n - 1" "Some v"] by (auto simp: filled_def)
qed

text \<open>The stack instructions.\<close>

lemma loop_step_ok:
  assumes x: "exec_inv s L x" "x_calls x = []" and d: "0 < x_stack_len x" and pc: "(pc, x_stack_len x) \<in> L" "(t, x_stack_len x) \<in> L"
  shows "ok (do { v \<leftarrow> stack_top x; stack \<leftarrow> wr (x_stack x) (x_stack_len x - 1) (Some (v - 1));
     t \<leftarrow> (if v - 1 \<noteq> 0 then Some t else Some pc); Some (Next (x\<lparr>x_pc := t, x_stack := stack\<rparr>)) }) (result_ok s L)"
proof -
  have f: "filled (x_stack x) (x_stack_len x)" "x_stack_len x - 1 < length (x_stack x)" using x d by (auto simp: exec_inv_def filled_def)
  obtain v where v: "stack_top x = Some v" using stack_top_ok [OF f(1) d] by (auto simp: ok_conv)
  have "exec_inv s L (x\<lparr>x_pc := p, x_stack := (x_stack x)[x_stack_len x - 1 := Some (v - 1)]\<rparr>)" if "p = t \<or> p = pc" for p
    using x pc that filled_top [OF f(1) d, of "v - 1"] by (auto simp: exec_inv_def mem_ok_def)
  from this [of t] this [of pc] show ?thesis using v f(2) by (auto simp: wp)
qed

lemma stack_pop_ok:
  assumes x: "exec_inv s L x" "x_calls x = []" and pc: "(pc, x_stack_len x - 1) \<in> L"
  shows "exec_inv s L (x\<lparr>x_pc := pc, x_stack_len := x_stack_len x - 1\<rparr>)"
  using x pc filled_pop [of "x_stack x" "x_stack_len x"] by (simp add: exec_inv_def mem_ok_def)

text \<open>
  The facts the check gives for the instruction at hand; \<open>pc\<close> is the position after the opcode, as in the
  interpreter.
\<close>

lemma step_facts:
  assumes s: "code_ok s L" and x: "exec_inv s L x" and oc: "opcode_at (rx_bc s) (x_pc x) = Some oc" and pc: "pc = Suc (x_pc x)"
  obtains len d' where "instr_len (rx_bc s) (x_pc x) oc = Some len" "depth_after oc (x_stack_len x) = Some d'"
    "oc = REOP_match \<or> oc = REOP_goto \<or> (x_pc x + len, d') \<in> L \<and> d' \<le> rx_stack_max s"
    "x_pc x + len = pc + (len - 1)" "pc + (len - 1) \<le> length (rx_bc s)"
    "has_target oc \<longrightarrow> (\<exists>v t. u32_at (rx_bc s) pc = Some v \<and> jump (pc + (len - 1)) v = Some t \<and> (t, d') \<in> L)"
proof -
  have i: "instr_ok (rx_bc s) (rx_captures s) L (x_pc x) (x_stack_len x)" "\<And>p d. (p, d) \<in> L \<Longrightarrow> d \<le> rx_stack_max s"
    using s x by (auto simp: code_ok_def exec_inv_def)
  obtain len where o1: "instr_len (rx_bc s) (x_pc x) oc = Some len"
    using i(1) oc by (cases "instr_len (rx_bc s) (x_pc x) oc") (simp_all add: instr_ok_def)
  obtain d' where o2: "depth_after oc (x_stack_len x) = Some d'"
    using i(1) oc o1 by (cases "depth_after oc (x_stack_len x)") (simp_all add: instr_ok_def)
  note o = o1 o2
  have r: "oc = REOP_match \<or> oc = REOP_goto \<or> (x_pc x + len, d') \<in> L" "has_target oc \<longrightarrow> target_in L (rx_bc s) (x_pc x) len d'"
    using i(1) unfolding instr_ok_def oc o option.case prod.case by argo+
  have l: "x_pc x + len = pc + (len - 1)" using instr_len_pos [OF o(1)] pc by simp
  have "x_pc x + len \<le> length (rx_bc s)" using s x oc o(1) by (auto simp: code_ok_def exec_inv_def)
  then have e: "pc + (len - 1) \<le> length (rx_bc s)" using l by simp
  have tg: "target (rx_bc s) (x_pc x) len = do { v \<leftarrow> u32_at (rx_bc s) pc; jump (pc + (len - 1)) v }"
    unfolding target_def l using pc by simp
  have "\<exists>v t. u32_at (rx_bc s) pc = Some v \<and> jump (pc + (len - 1)) v = Some t \<and> (t, d') \<in> L" if "has_target oc"
    using r(2) that by (auto simp: target_in_def tg bind_eq_Some_conv split: option.splits)
  then show ?thesis using that [OF o(1,2) _ l e] r(1) i(2) by blast
qed

lemma range_len:
  assumes "code_ok s L" "exec_inv s L x" "opcode_at (rx_bc s) (x_pc x) = Some oc" "instr_len (rx_bc s) (x_pc x) oc = Some len"
    "oc = REOP_range \<or> oc = REOP_range32"
  shows "3 < len"
proof -
  have "instr_ok (rx_bc s) (rx_captures s) L (x_pc x) (x_stack_len x)" using assms(1,2) by (auto simp: code_ok_def exec_inv_def)
  then show ?thesis using assms(5) unfolding instr_ok_def assms(3,4) option.case prod.case
    by (cases "depth_after oc (x_stack_len x)") auto
qed

lemmas step_unfold = re_step_def Option.bind.bind_lunit Let_def REOPCodeEnum.case

text \<open>Instructions that can occur in the atom of a simple quantifier.\<close>

lemma re_step_char_ok:
  assumes s: "code_ok s L" and x: "exec_inv s L x" and oc: "opcode_at (rx_bc s) (x_pc x) = Some oc" "is_simple_char oc"
  shows "ok (re_step s alloc x) (result_ok s L)"
proof -
  define pc where pc: "pc = Suc (x_pc x)"
  obtain len d' where f: "instr_len (rx_bc s) (x_pc x) oc = Some len" "depth_after oc (x_stack_len x) = Some d'" "(x_pc x + len, d') \<in> L"
      "x_pc x + len = pc + (len - 1)" "pc + (len - 1) \<le> length (rx_bc s)"
    by (rule step_facts [OF s x oc(1) pc]) (use oc(2) in \<open>auto simp: is_simple_char_def\<close>)
  have d: "d' = x_stack_len x" using f(2) oc(2) by (auto simp: depth_after_def is_simple_char_def)
  have st: "rx_stack_max s \<le> 255" using s by (simp add: code_ok_def)
  have here: "x_cptr x \<le> length (rx_cbuf s)" using x by (simp add: exec_inv_def)
  note fails = fail_ok [OF x st] and conts = cont_ok [OF st x]
  note test = char_step_ok [OF s x oc(1) f(1) f(3) [unfolded d] oc(2)]
  note rng = range_step_ok [OF s x oc(1) f(1) f(3) [unfolded d]]
  consider (c) "oc = REOP_char" | (c32) "oc = REOP_char32" | (r) "oc = REOP_range" | (r32) "oc = REOP_range32" | (d) "oc = REOP_dot \<or> oc = REOP_any"
    using oc(2) by (auto simp: is_simple_char_def)
  then show ?thesis
  proof cases
    case c
    then have len: "len = 3" "x_pc x + 3 = pc + 2" using f(1) pc by (auto simp: instr_len_def)
    then obtain v where "u16_at (rx_bc s) pc = Some v" using u16_at_ok [of pc "rx_bc s"] f(5) by auto
    then show ?thesis using oc(1) c test [of alloc v] len by (simp add: re_step_def Let_def pc [symmetric])
  next
    case c32
    then have len: "len = 5" "x_pc x + 5 = pc + 4" using f(1) pc by (auto simp: instr_len_def)
    then obtain v where "u32_at (rx_bc s) pc = Some v" using u32_at_ok [of pc "rx_bc s"] f(5) by auto
    then show ?thesis using oc(1) c32 test [of alloc v] len by (simp add: re_step_def Let_def pc [symmetric])
  next
    case r
    then have "3 < len" using range_len [OF s x oc(1) f(1)] by simp
    then show ?thesis using rng(1) [of alloc] f(4,5) oc(1) r by (simp add: re_step_def)
  next
    case r32
    then have "3 < len" using range_len [OF s x oc(1) f(1)] by simp
    then show ?thesis using rng(2) [of alloc] f(4,5) oc(1) r32 by (simp add: re_step_def)
  next
    case d
    then have len: "len = 1" using f(1) by (auto simp: instr_len_def)
    show ?thesis
    proof (cases "x_cptr x = length (rx_cbuf s)")
      case True
      then show ?thesis using d oc(1) fails by (elim disjE) (simp_all add: step_unfold)
    next
      case False
      then have "x_cptr x < length (rx_cbuf s)" using here by simp
      then obtain c q where "GET_CHAR s (x_cptr x) (length (rx_cbuf s)) = Some (c, q)" "exec_inv s L (x\<lparr>x_pc := x_pc x + len, x_cptr := q\<rparr>)"
        by (rule read_step_ok [OF s x oc(1) f(1) f(3) [unfolded \<open>d' = x_stack_len x\<close>] oc(2)])
      then show ?thesis using d oc(1) conts(1) False len by (elim disjE) (simp_all add: step_unfold)
    qed
  qed
qed

lemma re_step_test_ok:
  assumes s: "code_ok s L" and x: "exec_inv s L x" and oc: "opcode_at (rx_bc s) (x_pc x) = Some oc" "is_simple_test oc"
  shows "ok (re_step s alloc x) (result_ok s L)"
proof -
  define pc where pc: "pc = Suc (x_pc x)"
  obtain len d' where f: "instr_len (rx_bc s) (x_pc x) oc = Some len" "depth_after oc (x_stack_len x) = Some d'" "(x_pc x + len, d') \<in> L"
    by (rule step_facts [OF s x oc(1) pc]) (use oc(2) in \<open>auto simp: is_simple_test_def\<close>)
  have d: "d' = x_stack_len x" "len = 1" using f(1,2) oc(2) by (auto simp: depth_after_def is_simple_test_def instr_len_def)
  have st: "rx_stack_max s \<le> 255" using s by (simp add: code_ok_def)
  have here: "x_cptr x \<le> length (rx_cbuf s)" using x by (simp add: exec_inv_def)
  have go: "exec_inv s L (x\<lparr>x_pc := Suc (x_pc x)\<rparr>)"
    using stay_ok [OF x oc(1) f(1) f(3) [unfolded d(1)]] oc(2) d(2) by (auto simp: is_simple_test_def)
  note fails = fail_ok [OF x st] and conts = cont_ok(2) [OF st x]
  obtain v1 v2 where w: "word_before s (x_cptr x) = Some v1" "word_after s (x_cptr x) = Some v2" using word_tests_ok [OF here] by blast
  have p1: "x_cptr x \<noteq> 0 \<Longrightarrow> \<exists>c. PEEK_PREV_CHAR s (x_cptr x) 0 = Some c" using PEEK_PREV_CHAR_ok [of "x_cptr x" s] here by simp
  have p2: "x_cptr x \<noteq> length (rx_cbuf s) \<Longrightarrow> \<exists>c. PEEK_CHAR s (x_cptr x) (length (rx_cbuf s)) = Some c"
    using PEEK_CHAR_ok [of "x_cptr x" s] here by simp
  consider (a) "oc = REOP_line_start" | (b) "oc = REOP_line_end" | (c) "oc = REOP_word_boundary" | (d) "oc = REOP_not_word_boundary"
    using oc(2) by (auto simp: is_simple_test_def)
  then show ?thesis
  proof cases
    case a
    show ?thesis unfolding step_unfold oc(1) a using fails go p1 conts by (auto simp: ok_if)
  next
    case b
    show ?thesis unfolding step_unfold oc(1) b using fails go p2 conts by (auto simp: ok_if)
  next
    case c
    show ?thesis unfolding step_unfold oc(1) c w using go conts by simp
  next
    case d
    show ?thesis unfolding step_unfold oc(1) d w using go conts by simp
  qed
qed

text \<open>Instructions with a target.\<close>

lemma goto_ok:
  assumes "exec_inv s L x" "x_calls x = []" "(t, x_stack_len x) \<in> L"
  shows "exec_inv s L (x\<lparr>x_pc := t\<rparr>)"
  using assms by (simp add: exec_inv_def mem_ok_def)

lemma loop_depth:
  assumes "code_ok s L" "exec_inv s L x" "opcode_at (rx_bc s) (x_pc x) = Some REOP_loop"
  shows "0 < x_stack_len x"
proof -
  have "instr_ok (rx_bc s) (rx_captures s) L (x_pc x) (x_stack_len x)" using assms(1,2) by (auto simp: code_ok_def exec_inv_def)
  then show ?thesis using assms(3) by (auto simp: instr_ok_def instr_len_def depth_after_def)
qed

lemma re_step_jump_ok:
  assumes s: "code_ok s L" and x: "exec_inv s L x" and oc: "opcode_at (rx_bc s) (x_pc x) = Some oc" "has_target oc" "oc \<noteq> REOP_simple_greedy_quant"
  shows "ok (re_step s alloc x) (result_ok s L)"
proof -
  define pc where pc: "pc = Suc (x_pc x)"
  have len5: "instr_len (rx_bc s) (x_pc x) oc = Some len \<Longrightarrow> len = 5" for len using oc(2,3) by (auto simp: instr_len_def has_target_def)
  have nm: "oc \<noteq> REOP_match" using oc(2) by (auto simp: has_target_def)
  obtain v t d' where f: "depth_after oc (x_stack_len x) = Some d'" "oc = REOP_goto \<or> (pc + 4, d') \<in> L" "(t, d') \<in> L"
      "u32_at (rx_bc s) pc = Some v" "jump (pc + 4) v = Some t"
  proof (rule step_facts [OF s x oc(1) pc])
    fix len d'
    assume a: "instr_len (rx_bc s) (x_pc x) oc = Some len" "depth_after oc (x_stack_len x) = Some d'"
      "oc = REOP_match \<or> oc = REOP_goto \<or> (x_pc x + len, d') \<in> L \<and> d' \<le> rx_stack_max s" "x_pc x + len = pc + (len - 1)"
      "has_target oc \<longrightarrow> (\<exists>v t. u32_at (rx_bc s) pc = Some v \<and> jump (pc + (len - 1)) v = Some t \<and> (t, d') \<in> L)"
    have "x_pc x + len = pc + 4" "len - 1 = 4" using len5 [OF a(1)] a(4) by simp_all
    then show thesis using that a(2,3,5) oc(2) nm by auto
  qed
  have st: "rx_stack_max s \<le> 255" using s by (simp add: code_ok_def)
  have nc: "x_calls x = []" using no_call [OF x oc(1)] oc(2) by (auto simp: has_target_def is_simple_char_def is_simple_test_def)
  have e: "x_pc x + 1 = pc" using pc by simp
  have d: "d' = x_stack_len x" if "oc \<noteq> REOP_bne_char_pos" using f(1) that oc(2) by (auto simp: depth_after_def has_target_def)
  note push = re_push_ok [OF st x nc]
  consider (a) "oc = REOP_goto" | (b) "oc = REOP_split_goto_first" | (c) "oc = REOP_split_next_first" | (la) "oc = REOP_lookahead" |
      (nla) "oc = REOP_negative_lookahead" | (lp) "oc = REOP_loop" | (g) "oc = REOP_bne_char_pos"
    using oc(2,3) by (auto simp: has_target_def)
  then show ?thesis
  proof cases
    case a
    show ?thesis unfolding step_unfold oc(1) a e f(4,5) using goto_ok [OF x nc] f(3) d a by simp
  next
    case b
    show ?thesis unfolding step_unfold oc(1) b e f(4,5) using push f(2,3) d b by simp
  next
    case c
    show ?thesis unfolding step_unfold oc(1) c e f(4,5) using push f(2,3) d c by simp
  next
    case la
    show ?thesis unfolding step_unfold oc(1) la e f(4,5) using push f(2,3) d la by simp
  next
    case nla
    show ?thesis unfolding step_unfold oc(1) nla e f(4,5) using push f(2,3) d nla by simp
  next
    case lp
    show ?thesis unfolding step_unfold oc(1) lp e f(4,5)
      by (rule loop_step_ok [OF x nc loop_depth [OF s x oc(1) [unfolded lp]]]) (use f(2,3) d lp in auto)
  next
    case g
    then have dep: "d' = x_stack_len x - 1" "0 < x_stack_len x" using f(1) by (auto simp: depth_after_def split: if_splits)
    obtain v' where v': "stack_top x = Some v'"
      using stack_top_ok [of "x_stack x" "x_stack_len x" x] dep(2) x by (auto simp: exec_inv_def ok_conv)
    show ?thesis unfolding step_unfold oc(1) g e f(4,5) v' using stack_pop_ok [OF x nc] f(2,3) dep(1) g by simp
  qed
qed

text \<open>The other instructions: the quantifier, the captures and the stack.\<close>

lemma quant_facts:
  assumes s: "code_ok s L" and x: "exec_inv s L x" and oc: "opcode_at (rx_bc s) (x_pc x) = Some REOP_simple_greedy_quant" and pc: "pc = Suc (x_pc x)"
  obtains v t mn mx cc where "u32_at (rx_bc s) pc = Some v" "jump (pc + 16) v = Some t" "(t, x_stack_len x) \<in> L" "(pc + 16, x_stack_len x) \<in> L"
    "u32_at (rx_bc s) (pc + 4) = Some mn" "u32_at (rx_bc s) (pc + 8) = Some mx"
    "u32_at (rx_bc s) (pc + 12) = Some cc" "0 < cc" "simple_body (rx_bc s) (pc + 16) (unat cc)"
proof (rule step_facts [OF s x oc pc])
  fix len d'
  assume a: "instr_len (rx_bc s) (x_pc x) REOP_simple_greedy_quant = Some len" "depth_after REOP_simple_greedy_quant (x_stack_len x) = Some d'"
    "REOP_simple_greedy_quant = REOP_match \<or> REOP_simple_greedy_quant = REOP_goto \<or> (x_pc x + len, d') \<in> L \<and> d' \<le> rx_stack_max s"
    "x_pc x + len = pc + (len - 1)" "pc + (len - 1) \<le> length (rx_bc s)"
    "has_target REOP_simple_greedy_quant \<longrightarrow> (\<exists>v t. u32_at (rx_bc s) pc = Some v \<and> jump (pc + (len - 1)) v = Some t \<and> (t, d') \<in> L)"
  have len: "len = 17" "d' = x_stack_len x" using a(1,2) by (auto simp: instr_len_def depth_after_def)
  have "instr_ok (rx_bc s) (rx_captures s) L (x_pc x) (x_stack_len x)" using s x by (auto simp: code_ok_def exec_inv_def)
  then have "quant_ok (rx_bc s) (x_pc x)" using oc a(1,2) by (simp add: instr_ok_def)
  then obtain cc where cc: "u32_at (rx_bc s) (x_pc x + 13) = Some cc" "0 < cc" "simple_body (rx_bc s) (x_pc x + 17) (unat cc)"
    by (auto simp: quant_ok_def split: option.splits)
  have e: "x_pc x + 13 = pc + 12" "x_pc x + 17 = pc + 16" using pc by simp_all
  obtain mn mx where "u32_at (rx_bc s) (pc + 4) = Some mn" "u32_at (rx_bc s) (pc + 8) = Some mx"
    using u32_at_ok [of "pc + 4" "rx_bc s"] u32_at_ok [of "pc + 8" "rx_bc s"] a(5) len(1) by auto
  then show thesis using that a(3,4,6) len cc e by (auto simp: has_target_def)
qed

lemma re_step_quant_ok:
  assumes s: "code_ok s L" and x: "exec_inv s L x" and oc: "opcode_at (rx_bc s) (x_pc x) = Some REOP_simple_greedy_quant"
  shows "ok (re_step s alloc x) (result_ok s L)"
proof -
  define pc where pc: "pc = Suc (x_pc x)"
  obtain v t mn mx cc where f: "u32_at (rx_bc s) pc = Some v" "jump (pc + 16) v = Some t" "(t, x_stack_len x) \<in> L" "(pc + 16, x_stack_len x) \<in> L"
    "u32_at (rx_bc s) (pc + 4) = Some mn" "u32_at (rx_bc s) (pc + 8) = Some mx"
    "u32_at (rx_bc s) (pc + 12) = Some cc" "0 < cc" "simple_body (rx_bc s) (pc + 16) (unat cc)"
    by (rule quant_facts [OF s x oc pc])
  have nc: "x_calls x = []" using no_call [OF x oc] by (simp add: is_simple_char_def is_simple_test_def)
  have e: "x_pc x + 1 = pc" using pc by simp
  define qc where "qc = \<lparr>qc_q = 0, qc_min = mn, qc_max = mx, qc_pc1 = pc + 16, qc_pc = t, qc_cptr = x_cptr x, qc_stack_len = x_stack_len x\<rparr>"
  have "call_ok s L qc" using f x by (auto simp: call_ok_def qc_def exec_inv_def add.commute)
  moreover have "atom_ok s qc (pc + 16) (x_cptr x)" using f(7,9) by (auto simp: atom_ok_def qc_def add.commute)
  ultimately have "exec_inv s L (atom_call qc [] x)"
    using x f(4) by (simp add: exec_inv_def atom_call_def mem_ok_def qc_def)
  then show ?thesis unfolding step_unfold oc e f nc by (simp add: qc_def)
qed

lemma re_step_capture_ok:
  assumes s: "code_ok s L" and x: "exec_inv s L x" and oc: "opcode_at (rx_bc s) (x_pc x) = Some oc" "oc \<in> {REOP_save_start, REOP_save_end, REOP_save_reset}"
  shows "ok (re_step s alloc x) (result_ok s L)"
proof -
  define pc where pc: "pc = Suc (x_pc x)"
  have nc: "x_calls x = []" using no_call [OF x oc(1)] oc(2) by (auto simp: is_simple_char_def is_simple_test_def)
  have e: "x_pc x + 1 = pc" "x_pc x + 2 = pc + 1" using pc by simp_all
  have n: "oc \<noteq> REOP_match" "oc \<noteq> REOP_goto" using oc(2) by auto
  have len: "instr_len (rx_bc s) (x_pc x) oc = Some (if oc = REOP_save_reset then 3 else 2)" "depth_after oc (x_stack_len x) = Some (x_stack_len x)"
    using oc(2) by (auto simp: instr_len_def depth_after_def)
  have i: "instr_ok (rx_bc s) (rx_captures s) L (x_pc x) (x_stack_len x)" using s x by (auto simp: code_ok_def exec_inv_def)
  have nx: "(pc + (if oc = REOP_save_reset then 2 else 1), x_stack_len x) \<in> L" "pc + (if oc = REOP_save_reset then 2 else 1) \<le> length (rx_bc s)"
    by (rule step_facts [OF s x oc(1) pc], use len n in \<open>simp split: if_splits\<close>)+
  have cs: "captures_ok s (x_capture x)" "x_cptr x \<le> length (rx_cbuf s)" using x by (auto simp: exec_inv_def mem_ok_def)
  have cl: "length (x_capture x) = 2 * rx_captures s" using cs(1) by (simp add: captures_ok_def)
  note save = save_step_ok [OF x nc]
  show ?thesis
  proof (cases "oc = REOP_save_reset")
    case False
    then have "byte_below (rx_bc s) pc (rx_captures s)" using i oc len unfolding instr_ok_def oc(1) e by auto
    then have b: "rd (rx_bc s) pc = Some (rx_bc s ! pc)" "unat (rx_bc s ! pc) < rx_captures s"
      by (auto simp: byte_below_def rd_def split: if_splits)
    have "oc = REOP_save_start \<or> oc = REOP_save_end" using oc(2) False by simp
    then show ?thesis
    proof
      assume o: "oc = REOP_save_start"
      show ?thesis unfolding step_unfold oc(1) o e b using b(2) cl nx(1) False save captures_update(1) [OF cs] by (simp add: wp)
    next
      assume o: "oc = REOP_save_end"
      show ?thesis unfolding step_unfold oc(1) o e b using b(2) cl nx(1) False save captures_update(1) [OF cs] by (simp add: wp)
    qed
  next
    case o: True
    then have "byte_below (rx_bc s) (pc + 1) (rx_captures s)" using i oc len unfolding instr_ok_def oc(1) e by auto
    then have b: "rd (rx_bc s) (pc + 1) = Some (rx_bc s ! (pc + 1))" "unat (rx_bc s ! (pc + 1)) < rx_captures s"
      by (auto simp: byte_below_def rd_def split: if_splits)
    have b0: "rd (rx_bc s) pc = Some (rx_bc s ! pc)" using nx(2) o by (simp add: rd_def)
    have r: "unat (rx_bc s ! pc) + (unat (rx_bc s ! (pc + 1)) + 1 - unat (rx_bc s ! pc)) \<le> rx_captures s"
      if "unat (rx_bc s ! pc) \<le> unat (rx_bc s ! (pc + 1)) + 1" using b(2) that by simp
    have "ok (reset_captures (x_capture x) (unat (rx_bc s ! pc)) (unat (rx_bc s ! (pc + 1)) + 1 - unat (rx_bc s ! pc))) (captures_ok s)"
    proof (cases "unat (rx_bc s ! pc) \<le> unat (rx_bc s ! (pc + 1)) + 1")
      case True
      then show ?thesis using reset_captures_ok [OF cs(1) r] by simp
    qed (use cs(1) in simp)
    then show ?thesis unfolding step_unfold oc(1) o e b0 b(1) using b(2) nx(1) o save by (auto elim!: ok_mono)
  qed
qed

lemma re_step_other_ok:
  assumes s: "code_ok s L" and x: "exec_inv s L x" and oc: "opcode_at (rx_bc s) (x_pc x) = Some oc"
    "oc \<in> {REOP_push_i32, REOP_push_char_pos, REOP_drop, REOP_back_reference, REOP_backward_back_reference, REOP_prev}"
  shows "ok (re_step s alloc x) (result_ok s L)"
proof -
  define pc where pc: "pc = Suc (x_pc x)"
  define n where "n = reopcode_info oc - 1"
  have nc: "x_calls x = []" using no_call [OF x oc(1)] oc(2) by (auto simp: is_simple_char_def is_simple_test_def)
  have e: "x_pc x + 1 = pc" using pc by simp
  have m: "oc \<noteq> REOP_match" "oc \<noteq> REOP_goto" "oc \<noteq> REOP_range" "oc \<noteq> REOP_range32" using oc(2) by auto
  obtain d' where f: "depth_after oc (x_stack_len x) = Some d'" "(pc + n, d') \<in> L" "d' \<le> rx_stack_max s" "pc + n \<le> length (rx_bc s)"
    by (rule step_facts [OF s x oc(1) pc]) (use m in \<open>simp add: instr_len_def n_def\<close>)
  have st: "rx_stack_max s \<le> 255" using s by (simp add: code_ok_def)
  have here: "x_cptr x \<le> length (rx_cbuf s)" using x by (simp add: exec_inv_def)
  consider (a) "oc = REOP_push_i32" | (b) "oc = REOP_push_char_pos" | (c) "oc = REOP_drop" | (d) "oc = REOP_back_reference" |
      (d') "oc = REOP_backward_back_reference" | (g) "oc = REOP_prev"
    using oc(2) by blast
  then show ?thesis
  proof cases
    case a
    then have k: "n = 4" "d' = x_stack_len x + 1" using f(1) by (auto simp: n_def depth_after_def)
    obtain v where v: "u32_at (rx_bc s) pc = Some v" using u32_at_ok [of pc "rx_bc s"] f(4) k(1) by auto
    show ?thesis unfolding step_unfold oc(1) a e v using stack_push_ok [OF x nc, of "pc + 4" v] f(2,3) k by (auto elim!: ok_mono)
  next
    case b
    then have k: "n = 0" "d' = x_stack_len x + 1" using f(1) by (auto simp: n_def depth_after_def)
    show ?thesis unfolding step_unfold oc(1) b e using stack_push_ok [OF x nc, of pc] f(2,3) k by (auto elim!: ok_mono)
  next
    case c
    then have k: "n = 0" "d' = x_stack_len x - 1" "x_stack_len x \<noteq> 0" using f(1) by (auto simp: n_def depth_after_def split: if_splits)
    show ?thesis unfolding step_unfold oc(1) c e using stack_pop_ok [OF x nc] f(2) k by simp
  next
    case d
    then have k: "x_pc x + 1 < length (rx_bc s)" "(x_pc x + 2, x_stack_len x) \<in> L" using f pc by (auto simp: n_def depth_after_def)
    show ?thesis unfolding step_unfold oc(1) d by (rule re_backref_ok [OF s x nc k])
  next
    case d'
    then have k: "x_pc x + 1 < length (rx_bc s)" "(x_pc x + 2, x_stack_len x) \<in> L" using f pc by (auto simp: n_def depth_after_def)
    show ?thesis unfolding step_unfold oc(1) d' by (rule re_backref_ok [OF s x nc k])
  next
    case g
    then have k: "(pc, x_stack_len x) \<in> L" using f by (auto simp: n_def depth_after_def)
    have "prev_pos s (x_cptr x) \<le> length (rx_cbuf s)" using here by (auto simp: prev_pos_def)
    then have "exec_inv s L (x\<lparr>x_pc := pc, x_cptr := prev_pos s (x_cptr x)\<rparr>)"
      using x nc k by (simp add: exec_inv_def mem_ok_def)
    then show ?thesis unfolding step_unfold oc(1) g e
      using PREV_CHAR_ok [of "x_cptr x" s] fail_ok(3) [OF x st] here by (simp add: ok_if)
  qed
qed

lemma re_step_ok:
  assumes s: "code_ok s L" and x: "exec_inv s L x"
  shows "ok (re_step s alloc x) (result_ok s L)"
proof -
  have i: "instr_ok (rx_bc s) (rx_captures s) L (x_pc x) (x_stack_len x)" using s x by (auto simp: code_ok_def exec_inv_def)
  then obtain oc where oc: "opcode_at (rx_bc s) (x_pc x) = Some oc" by (cases "opcode_at (rx_bc s) (x_pc x)") (simp_all add: instr_ok_def)
  have inv: "oc \<noteq> REOP_invalid" using i by (auto simp: instr_ok_def oc instr_len_def depth_after_def)
  have match: "re_step s alloc x = re_match s alloc x" if "oc = REOP_match" by (simp add: re_step_def oc that)
  show ?thesis
    using re_step_char_ok [OF s x oc] re_step_test_ok [OF s x oc] re_step_jump_ok [OF s x oc] re_step_quant_ok [OF s x]
      re_step_capture_ok [OF s x oc] re_step_other_ok [OF s x oc] re_match_ok [OF s x, of alloc] oc inv match
    by (cases oc) (auto simp: is_simple_char_def is_simple_test_def has_target_def)
qed

section \<open>Runs\<close>

lemma layout_fits:
  "layout bc stop pos d = Some L \<Longrightarrow> (p, e) \<in> set L \<Longrightarrow> opcode_at bc p = Some oc \<Longrightarrow> instr_len bc p oc = Some len \<Longrightarrow> p + len \<le> stop"
proof (induction bc stop pos d arbitrary: L rule: layout.induct)
  case (1 bc stop pos d)
  show ?case
  proof (cases "pos < stop")
    case False
    then show ?thesis using "1.prems"(1,2) by (simp add: layout.simps [of bc stop])
  next
    case True
    obtain oc' len' d' r where l: "opcode_at bc pos = Some oc'" "instr_len bc pos oc' = Some len'" "pos + len' \<le> stop"
        "depth_after oc' d = Some d'" "layout bc stop (pos + len') d' = Some r" "L = (pos, d) # r"
      by (rule layout_step [OF "1.prems"(1) True])
    show ?thesis using "1.IH" [OF True l(1,2,3,4,5)] "1.prems"(2-4) l by auto
  qed
qed

lemma bytecode_ok_code:
  assumes bc: "bytecode_ok bc stop" and units: "length cbuf < 2 ^ 32" "\<forall>u \<in> set cbuf. u < 0x10000"
    and s: "exec_context bc addr cbuf ty = Some s"
  obtains L where "code_ok s L" "(RE_HEADER_LEN, 0) \<in> L"
proof -
  obtain L where L: "layout bc stop RE_HEADER_LEN 0 = Some L" "(RE_HEADER_LEN, 0) \<in> set L" "stop \<le> length bc"
    "\<forall>(pos, d) \<in> set L. instr_ok bc (unat (bc ! RE_HEADER_CAPTURE_COUNT)) (set L) pos d \<and> d \<le> unat (bc ! RE_HEADER_STACK_SIZE)"
    by (rule bytecode_ok_layout [OF bc])
  have f: "rx_bc s = bc" "rx_cbuf s = cbuf" "rx_captures s = unat (bc ! RE_HEADER_CAPTURE_COUNT)" "rx_stack_max s = unat (bc ! RE_HEADER_STACK_SIZE)"
    using s by (auto simp: exec_context_def rd_def Let_def bind_eq_Some_conv split: if_splits)
  have "unat (bc ! RE_HEADER_STACK_SIZE) \<le> 255" using unsigned_less [of "bc ! RE_HEADER_STACK_SIZE", where 'a = nat] by simp
  moreover have "p + len \<le> length bc" if "(p, e) \<in> set L" "opcode_at bc p = Some oc" "instr_len bc p oc = Some len" for p e oc len
    using layout_fits [OF L(1) that] L(3) by simp
  ultimately have "code_ok s (set L)" using L(4) units f by (auto simp: code_ok_def text_ok_def)
  then show ?thesis using that L(2) by blast
qed

lemma exec_start_inv: "(RE_HEADER_LEN, 0) \<in> L \<Longrightarrow> cindex \<le> length (rx_cbuf s) \<Longrightarrow> exec_inv s L (exec_start s m cindex)"
  by (simp add: exec_inv_def exec_start_def mem_ok_def captures_ok_def filled_def)

lemma re_reach_inv:
  assumes "code_ok s L" "exec_inv s L x0"
  shows "re_reach s alloc x0 x \<Longrightarrow> exec_inv s L x"
proof (induction rule: re_reach.induct)
  case (Step x x')
  then show ?case using re_step_ok [OF assms(1), of x alloc] by simp
qed (rule assms(2))

lemma backtrack_result:
  assumes s: "code_ok s L" and run: "lre_exec_backtrack s alloc x = Some r" and x: "exec_inv s L x"
  shows "fst r \<in> {-1, 0, 1} \<and> captures_ok s (x_capture (snd r))"
proof -
  have "s = s \<longrightarrow> exec_inv s L x \<longrightarrow> fst r \<in> {-1, 0, 1} \<and> captures_ok s (x_capture (snd r))"
    using run
  proof (rule lre_exec_backtrack.raw_induct [where P = "\<lambda>s' a x r. s' = s \<longrightarrow> exec_inv s L x \<longrightarrow> fst r \<in> {-1, 0, 1} \<and> captures_ok s (x_capture (snd r))"
      and xa = "((s, alloc), x)", unfolded prod.case, rotated], intro impI)
    fix f :: "REExecContext \<Rightarrow> 'a state_alloc \<Rightarrow> 'a exec_state \<Rightarrow> (int \<times> 'a exec_state) option" and s' a x r
    assume IH: "\<And>s' a x r. f s' a x = Some r \<Longrightarrow> s' = s \<longrightarrow> exec_inv s L x \<longrightarrow> fst r \<in> {-1, 0, 1} \<and> captures_ok s (x_capture (snd r))"
      and f: "re_step s' a x \<bind> (\<lambda>y. case y of Next x \<Rightarrow> f s' a x | Return v x \<Rightarrow> Some (v, x)) = Some r"
      and s': "s' = s" and x: "exec_inv s L x"
    obtain y where y: "re_step s a x = Some y" "(case y of Next x \<Rightarrow> f s' a x | Return v x \<Rightarrow> Some (v, x)) = Some r"
      using f s' by (auto simp: bind_eq_Some_conv)
    have "result_ok s L y" using re_step_ok [OF s x, of a] y(1) by simp
    then show "fst r \<in> {-1, 0, 1} \<and> captures_ok s (x_capture (snd r))"
      using y(2) IH s' by (cases y) auto
  qed
  then show ?thesis using x by simp
qed

section \<open>Properties\<close>

text \<open>The bytecode of \<open>/a*b/\<close>: a search for the start, and a quantifier over one character.\<close>

definition star_code :: "u8 list" where
  "star_code = [0,1,0,40,0,0,0, 8,6,0,0,0, 4, 7,0xf5,0xff,0xff,0xff, 11,0, 28, 4,0,0,0, 0,0,0,0, 0xff,0xff,0xff,0x7f, 1,0,0,0,
     1,0x61,0, 10, 1,0x62,0, 12,0, 10]"

definition star_context :: REExecContext where
  "star_context = \<lparr>rx_bc = star_code, rx_addr = 0, rx_cbuf = [0x78, 0x61, 0x61, 0x62, 0x63], rx_type = 0, rx_captures = 1, rx_stack_max = 0,
     rx_multi_line = False, rx_ignore_case = False, rx_utf16 = False\<rparr>"

lemma star_code_ok: "bytecode_ok star_code 47"
  by code_simp

lemma star_exec: "lre_exec star_code 0 [0x78, 0x61, 0x61, 0x62, 0x63] 0 0 (\<lambda>m n. (m, True)) () = Some (1, [Some 1, Some 4])"
  by code_simp

lemma star_context_eq: "exec_context star_code 0 [0x78, 0x61, 0x61, 0x62, 0x63] 0 = Some star_context"
  by code_simp

lemma star_reach:
  "re_reach star_context (\<lambda>m n. (m, True)) (exec_start star_context () 0) ((exec_start star_context () 0)\<lparr>x_pc := 18, x_state_stack_size := 8,
     x_states := [\<lparr>rs_type = RE_EXEC_STATE_SPLIT, rs_count = 0, rs_cptr = 0, rs_pc = 12, rs_capture = [None, None], rs_stack = []\<rparr>]\<rparr>)"
  by (rule re_reach.Step [OF re_reach.Start]) code_simp

text \<open>
  C2. Checked bytecode never makes the interpreter go wrong: in every state it can reach, on any text and with
  any allocator, the next instruction executes without reading or writing outside an array (a step that would is
  \<^term>\<open>None\<close>), the character pointer, the captures and the positions of the saved states lie in the text, and
  the stack has at most as many elements as \<open>re_compute_stack_size\<close> determined.
\<close>

theorem regexp_run_safe:
  assumes "bytecode_ok bc stop" "length cbuf < 2 ^ 32" "\<forall>u \<in> set cbuf. u < 0x10000" "cindex \<le> length cbuf"
    and "exec_context bc addr cbuf ty = Some s" "re_reach s alloc (exec_start s m cindex) x"
  shows "(\<exists>r. re_step s alloc x = Some r) \<and> x_cptr x \<le> length cbuf \<and> x_stack_len x \<le> rx_stack_max s \<and>
    length (x_stack x) = rx_stack_max s \<and> captures_ok s (x_capture x) \<and>
    (\<forall>rs \<in> set (x_states x). rs_cptr rs \<le> length cbuf \<and> length (rs_stack rs) \<le> rx_stack_max s)"
proof -
  obtain L where L: "code_ok s L" "(RE_HEADER_LEN, 0) \<in> L" by (rule bytecode_ok_code [OF assms(1-3,5)])
  have s: "rx_cbuf s = cbuf" using assms(5) by (auto simp: exec_context_def Let_def bind_eq_Some_conv)
  have x: "exec_inv s L x" using re_reach_inv [OF L(1) exec_start_inv [OF L(2)] assms(6)] assms(4) s by simp
  have "\<exists>r. re_step s alloc x = Some r" using re_step_ok [OF L(1) x, of alloc] by (auto simp: ok_conv)
  then show ?thesis using x s by (auto simp: exec_inv_def mem_ok_def filled_def state_ok_def)
qed

theorem regexp_run_safe_witness:
  "(\<exists>r. re_step star_context (\<lambda>m n. (m, True)) ((exec_start star_context () 0)\<lparr>x_pc := 18, x_state_stack_size := 8,
     x_states := [\<lparr>rs_type = RE_EXEC_STATE_SPLIT, rs_count = 0, rs_cptr = 0, rs_pc = 12, rs_capture = [None, None], rs_stack = []\<rparr>]\<rparr>) = Some r)"
  using regexp_run_safe [OF star_code_ok _ _ _ star_context_eq star_reach] by simp

text \<open>
  C39. The result of \<open>lre_exec\<close> on checked bytecode: it returns 1 (match), 0 (no match) or -1 (out of memory), with
  two captures for every group the header announces, each NULL or a position of the text.
\<close>

theorem lre_exec_result:
  assumes "bytecode_ok bc stop" "length cbuf < 2 ^ 32" "\<forall>u \<in> set cbuf. u < 0x10000" "cindex \<le> length cbuf"
    and "lre_exec bc addr cbuf cindex ty alloc m = Some (ret, capture)"
  shows "ret \<in> {-1, 0, 1} \<and> lre_get_capture_count bc = Some (length capture div 2) \<and> even (length capture) \<and>
    (\<forall>p. Some p \<in> set capture \<longrightarrow> p \<le> length cbuf)"
proof -
  obtain s x where s: "exec_context bc addr cbuf ty = Some s" "lre_exec_backtrack s alloc (exec_start s m cindex) = Some (ret, x)" "capture = x_capture x"
    using assms(5) by (auto simp: lre_exec_def bind_eq_Some_conv)
  obtain L where L: "code_ok s L" "(RE_HEADER_LEN, 0) \<in> L" by (rule bytecode_ok_code [OF assms(1-3) s(1)])
  have f: "rx_cbuf s = cbuf" "lre_get_capture_count bc = Some (rx_captures s)"
    using s(1) by (auto simp: exec_context_def lre_get_capture_count_def Let_def bind_eq_Some_conv)
  show ?thesis using backtrack_result [OF L(1) s(2) exec_start_inv [OF L(2)]] assms(4) f s(3) by (auto simp: captures_ok_def)
qed

theorem lre_exec_result_witness:
  "lre_exec star_code 0 [0x78, 0x61, 0x61, 0x62, 0x63] 0 0 (\<lambda>m n. (m, True)) () = Some (1, [Some 1, Some 4]) \<and>
   lre_get_capture_count star_code = Some 1 \<and> {p. Some p \<in> set [Some 1, Some 4]} \<subseteq> {..5 :: nat}"
  using lre_exec_result [OF star_code_ok _ _ _ star_exec] star_exec by auto

end
