(* ===== verification/Regexp_Valid.thy ===== *)
theory Regexp_Valid
  imports Regexp_Class Regexp_Run
begin

unbundle bit_operations_syntax

text \<open>
  The compiler of regular expressions generates valid code: every function of the parser appends a code
  fragment, so that what \<open>lre_compile\<close> returns passes the check \<open>bytecode_ok\<close> and the interpreter runs it
  without leaving its code, its stack or its captures.
\<close>

section \<open>Atoms\<close>

text \<open>\<open>emits n s0 c s\<close>: since \<open>s0\<close> only code was emitted, a fragment after \<open>c\<close>.\<close>

definition emits :: "nat \<Rightarrow> 'm REParseState \<Rightarrow> u8 list \<Rightarrow> 'm REParseState \<Rightarrow> bool" where
  "emits n s0 c s \<longleftrightarrow> (\<exists>f. frag n f \<and> holds s0 s (c @ f))"

lemma emits_refl: "holds s0 s c \<Longrightarrow> emits n s0 c s"
  unfolding emits_def by (rule exI [of _ "[]"]) (simp add: frag.Empty)

lemma emits_trans: "emits n s0 c s \<Longrightarrow> (\<And>f. holds s0 s (c @ f) \<Longrightarrow> emits n s0 (c @ f) s') \<Longrightarrow> emits n s0 c s'"
  unfolding emits_def by (metis append.assoc frag.Seq)

lemma emits_scan: "emits n s0 c s \<Longrightarrow> scan s s' \<Longrightarrow> emits n s0 c s'"
  using scan_holds unfolding emits_def by blast

lemma emits_base: "scan s s1 \<Longrightarrow> emits n s1 c s' \<Longrightarrow> emits n s c s'"
  using scan_state [of s s1] by (auto simp: emits_def holds_def same_def scan_def)

lemma emits_instr: "plain_instr n oc args \<Longrightarrow> holds s0 s (c @ reop_num oc # args) \<Longrightarrow> emits n s0 c s"
  using frag.Instr emits_def by blast

lemma emits_good: "emits n s0 c s \<Longrightarrow> good s \<Longrightarrow> good s0"
  using holds_good by (auto simp: emits_def)

lemma re_emit_op_emits:
  assumes "re_emit_op s oc = Some s'" "holds s0 s c" "oc \<in> {REOP_dot, REOP_any, REOP_line_start, REOP_line_end, REOP_word_boundary, REOP_not_word_boundary, REOP_prev}"
  shows "emits n s0 c s'"
  by (rule emits_instr [OF _ leadsD [OF re_emit_op_holds [OF assms(2)] assms(1)]]) (use assms(3) in \<open>auto simp: plain_instr_def\<close>)

lemma emit_prev_emits: "emit_prev s dir = Some s' \<Longrightarrow> holds s0 s c \<Longrightarrow> emits n s0 c s'"
  using re_emit_op_emits [of s REOP_prev s'] emits_refl by (auto simp: emit_prev_def split: if_splits)

lemma emit_char_emits:
  assumes "emit_char s c0 = Some s'" "holds s0 s c"
  shows "emits n s0 c s'"
proof -
  consider (c16) d where "re_emit_op_u16 s REOP_char d = Some s'" | (c32) d :: u32 and p where "re_emit_op_u32 s REOP_char32 (uint d) = Some (p, s')"
    using assms(1) by (auto simp: emit_char_def bind_eq_Some_conv split: if_splits)
  then show ?thesis
  proof cases
    case c16
    show ?thesis by (rule emits_instr [OF _ leadsD [OF re_emit_op_u16_holds [OF assms(2)] c16]]) (simp add: plain_instr_def)
  next
    case c32
    from leadsD [OF re_emit_op_u32_holds [OF assms(2)] c32] show ?thesis
      by (intro emits_instr [of n REOP_char32 "le32 (uint d)"]) (auto simp: plain_instr_def)
  qed
qed

lemma re_emit_range_emits: "re_emit_range s cr = Some (Done u s') \<Longrightarrow> even (cr_len cr) \<Longrightarrow> holds s0 s c \<Longrightarrow> emits n s0 c s'"
  using re_emit_range_holds [of s cr u s' s0 c n] by (simp add: emits_def)

lemma re_parse_char_class_emits:
  assumes "re_parse_char_class s p = Some (Done q s')" "holds s0 s c" "cr_alloc_ok (ps_alloc s)"
  shows "emits n s0 c s'"
proof -
  obtain start cr p1 s1 cr2 s2 cr3 s3 u s4 b where m: "class_loop s (new_range s) start = Some (Done (cr, p1) s1)"
      "(if ps_ignore_case s1 then on_range s1 cr cr_canonicalize else Some (Done cr s1)) = Some (Done cr2 s2)"
      "(if b then on_range s2 cr2 cr_invert else Some (Done cr2 s2)) = Some (Done cr3 s3)" "re_emit_range s3 cr3 = Some (Done u s4)" "s' = free_range s4 cr3"
    using assms(1) by (auto simp: re_parse_char_class_def bind_eq_Some_conv Let_def split del: if_split)
  have "even (cr_len (new_range s))" by (simp add: new_range_def cr_init_def)
  then have 1: "scan s s1" "even (cr_len cr)" using yieldsD [OF class_loop_yields [OF assms(3)] m(1)] by auto
  have 2: "scan s1 s2" "even (cr_len cr2)" using m(2) 1(2) yieldsD [OF on_range_yields [of cr_canonicalize s1 cr]] cr_canonicalize_even by (auto split: if_splits)
  have 3: "scan s2 s3" "even (cr_len cr3)" using m(3) 2(2) yieldsD [OF on_range_yields [of cr_invert s2 cr2]] cr_invert_even by (auto split: if_splits)
  have "holds s0 s3 c" using scan_holds [OF assms(2)] scan_trans [OF scan_trans [OF 1(1) 2(1)] 3(1)] by blast
  from emits_scan [OF re_emit_range_emits [OF m(4) 3(2) this], of s'] show ?thesis using m(5) by simp
qed

text \<open>What \<open>re_parse_term\<close> needs to know of an atom: a fragment was emitted, and a quantifier applies to all of it.\<close>

definition fit :: "'m REParseState \<Rightarrow> bool" where
  "fit s \<longleftrightarrow> (good s \<longrightarrow> st_ok s) \<and> cr_alloc_ok (ps_alloc s)"

definition atom_at :: "'m REParseState \<Rightarrow> term_atom \<Rightarrow> 'm REParseState \<Rightarrow> bool" where
  "atom_at s r s' \<longleftrightarrow> emits (ps_capture_count s) s (code s) s' \<and> (good s' \<longrightarrow> (\<forall>l. fst r = Some l \<longrightarrow> l = length (code s)))"

lemma fit_holds: "fit s \<Longrightarrow> holds s s (code s)"
  by (simp add: fit_def holds_refl)

lemma fit_scan: "scan s s' \<Longrightarrow> fit s' = fit s"
  using scan_state [of s s'] scan_alloc [of s s'] by (simp add: fit_def)

lemma atom_at_scan: "scan s s1 \<Longrightarrow> atom_at s1 r s' \<Longrightarrow> atom_at s r s'"
  using scan_state [of s s1] emits_base [of s s1] by (auto simp: atom_at_def scan_def)

lemma atom_start:
  assumes "fit s" "emits n s (code s) s'" "good s'"
  shows "code_size s = length (code s)"
  using holds_size [OF fit_holds [OF assms(1)]] emits_good [OF assms(2,3)] by blast

lemma term_char_atom:
  assumes e: "term_char s dir c cr p = Some (Done r s')" and f: "fit s" and ev: "even_range cr"
  shows "atom_at s r s'"
proof -
  let ?n = "ps_capture_count s"
  obtain s1 u s2 s3 where m: "emit_prev s dir = Some s1" "(if c \<ge> CLASS_RANGE_BASE then do {
         cr \<leftarrow> cr;
         r \<leftarrow> re_emit_range s1 cr;
         Some (case r of Fail s \<Rightarrow> Fail (free_range s cr) | Done _ s \<Rightarrow> Done () (free_range s cr)) }
       else do { s \<leftarrow> emit_char s1 c; Some (Done () s) }) = Some (Done u s2)" "emit_prev s2 dir = Some s3" "r = (Some (code_size s), ?n, p)" "s' = s3"
    using e by (auto simp: term_char_def bind_eq_Some_conv Let_def split del: if_split)
  have mid: "emits ?n s c0 s2" if h: "holds s s1 c0" for c0
  proof (cases "c \<ge> CLASS_RANGE_BASE")
    case True
    then obtain cr' r' where r: "cr = Some cr'" "re_emit_range s1 cr' = Some r'" "(case r' of Fail s \<Rightarrow> Fail (free_range s cr') | Done _ s \<Rightarrow> Done () (free_range s cr')) = Done u s2"
      using m(2) by (auto simp: bind_eq_Some_conv)
    then obtain u' s1' where r3: "re_emit_range s1 cr' = Some (Done u' s1')" "s2 = free_range s1' cr'" by (cases r') auto
    have "even (cr_len cr')" using ev r(1) by (simp add: even_range_def)
    from emits_scan [OF re_emit_range_emits [OF r3(1) this h]] show ?thesis using r3(2) by simp
  next
    case False
    then show ?thesis using m(2) emit_char_emits [OF _ h] by (auto simp: bind_eq_Some_conv)
  qed
  have "emits ?n s (code s) s3"
    by (rule emits_trans [OF emits_trans [OF emit_prev_emits [OF m(1) fit_holds [OF f]] mid] emit_prev_emits [OF m(3)]])
  then show ?thesis using m(4,5) atom_start [OF f] by (auto simp: atom_at_def)
qed

lemma term_class_atom_atom:
  assumes e: "term_class_atom s dir p = Some (Done r s')" and f: "fit s"
  shows "atom_at s r s'"
proof -
  obtain c cr q s1 where m: "get_class_atom s p False = Some (Done (c, cr, q) s1)" "term_char s1 dir c cr q = Some (Done r s')"
    using e by (auto simp: term_class_atom_def)
  have 1: "scan s s1" "even_range cr" using yieldsD [OF get_class_atom_yields m(1)] f by (auto simp: fit_def)
  show ?thesis using atom_at_scan [OF 1(1) term_char_atom [OF m(2) _ 1(2)]] fit_scan [OF 1(1)] f by simp
qed

lemma emit_back_reference_atom:
  assumes e: "emit_back_reference s dir c p = Some (Done r s')" and f: "fit s"
  shows "atom_at s r s'"
proof -
  let ?oc = "if dir then REOP_backward_back_reference else REOP_back_reference"
  have m: "re_emit_op_u8 s ?oc (nat c) = Some s'" "r = (Some (code_size s), ps_capture_count s, p)"
    using e by (auto simp: emit_back_reference_def bind_eq_Some_conv Let_def)
  have "emits (ps_capture_count s) s (code s) s'"
    by (rule emits_instr [OF _ leadsD [OF re_emit_op_u8_holds [OF fit_holds [OF f]] m(1)]]) (simp add: plain_instr_def)
  then show ?thesis using m(2) atom_start [OF f] by (auto simp: atom_at_def)
qed

lemma count_captures_scan: "re_count_captures s = Some (n, s') \<Longrightarrow> scan s s'"
  by (auto simp: re_count_captures_def bind_eq_Some_conv scan_def split: if_splits)

lemma has_named_captures_scan: "re_has_named_captures s = Some (b, s') \<Longrightarrow> scan s s'"
  by (auto simp: re_has_named_captures_def bind_eq_Some_conv split: if_splits dest: count_captures_scan)

lemma strict_or_atom_atom:
  assumes e: "strict_or_atom s dir p msg = Some (Done r s')" and f: "fit s"
  shows "atom_at s r s'"
proof -
  obtain named s1 where m: "(if ps_is_utf16 s then Some (True, s) else re_has_named_captures s) = Some (named, s1)" "term_class_atom s1 dir p = Some (Done r s')"
    using e by (auto simp: strict_or_atom_def bind_eq_Some_conv split del: if_split split: if_split_asm)
  have "scan s s1" using m(1) has_named_captures_scan by (auto split: if_splits)
  then show ?thesis using atom_at_scan term_class_atom_atom [OF m(2)] fit_scan f by blast
qed

lemma named_reference_atom:
  assumes e: "named_reference s dir p = Some (Done r s')" and f: "fit s"
  shows "atom_at s r s'"
proof -
  have strict: "atom_at s r s'" if "scan s s1" "strict_or_atom s1 dir p msg = Some (Done r s')" for s1 msg
    using that strict_or_atom_atom atom_at_scan fit_scan f by blast
  obtain b where b: "rd (ps_buf s) (p + 2) = Some b" using e by (auto simp: named_reference_def bind_eq_Some_conv)
  show ?thesis
  proof (cases "b = ch CHR ''<''")
    case False
    then have "strict_or_atom s dir p ''expecting group name'' = Some (Done r s')" using e b by (simp add: named_reference_def)
    then show ?thesis by (rule strict [OF scan_refl])
  next
    case True
    obtain x p1 name where g: "re_parse_group_name TMP_BUF_SIZE (ps_buf s) (p + 3) (ps_is_utf16 s) = Some (x, p1, name)"
      using e b True by (auto simp: named_reference_def bind_eq_Some_conv)
    let ?s = "s\<lparr>ps_u := name\<rparr>"
    have sc: "scan s ?s" by simp
    show ?thesis
    proof (cases "x = 0")
      case False
      then have "strict_or_atom ?s dir p ''invalid group name'' = Some (Done r s')" using e b g True by (simp add: named_reference_def)
      then show ?thesis by (rule strict [OF sc])
    next
      case x: True
      then obtain c where "(if c < 0 then strict_or_atom ?s dir p ''group name not defined'' else emit_back_reference ?s dir c p1) = Some (Done r s')"
        using e b g True by (auto simp: named_reference_def bind_eq_Some_conv Let_def simp del: map_option_eq_Some split del: if_split)
      then show ?thesis using strict [OF sc] atom_at_scan [OF sc emit_back_reference_atom] fit_scan [OF sc] f by (auto split: if_splits)
    qed
  qed
qed

lemma even_range_None [simp]: "even_range None"
  by (simp add: even_range_def)

lemma nul_escape_atom:
  assumes e: "nul_escape s dir p = Some (Done r s')" and f: "fit s"
  shows "atom_at s r s'"
proof -
  obtain c q where "term_char s dir c None q = Some (Done r s')"
    using e by (auto simp: nul_escape_def bind_eq_Some_conv split: if_splits)
  from term_char_atom [OF this f] show ?thesis by simp
qed

lemma numbered_reference_atom:
  assumes e: "numbered_reference s dir q = Some (Done r s')" and f: "fit s"
  shows "atom_at s r s'"
proof -
  obtain c p bad s1 where m: "(if c < 0 then Some (True, s)
        else if c \<ge> int (ps_capture_count s) then do { (n, s) \<leftarrow> re_count_captures s; Some (c \<ge> n, s) }
        else Some (False, s)) = Some (bad, s1)"
      "(if bad then if \<not> ps_is_utf16 s1 then do { (c, p) \<leftarrow> legacy_octal (ps_buf s1) q; term_char s1 dir c None p }
         else re_parse_error s1 ''back reference out of range in reguar expression''
       else emit_back_reference s1 dir c p) = Some (Done r s')"
    using e by (auto simp: numbered_reference_def bind_eq_Some_conv split del: if_split)
  have sc: "scan s s1" using m(1) by (auto simp: bind_eq_Some_conv split: if_splits dest: count_captures_scan)
  have f1: "fit s1" using f fit_scan [OF sc] by simp
  have "atom_at s1 r s'" using m(2)
    by (auto simp: bind_eq_Some_conv split: if_splits dest: term_char_atom [OF _ f1 even_range_None] emit_back_reference_atom [OF _ f1])
  then show ?thesis by (rule atom_at_scan [OF sc])
qed

lemma op_atom:
  assumes "re_emit_op s oc = Some s'" "fit s" "oc \<in> {REOP_line_start, REOP_line_end, REOP_word_boundary, REOP_not_word_boundary}"
  shows "atom_at s (None, k, p) s'"
  using re_emit_op_emits [OF assms(1) fit_holds [OF assms(2)]] assms(3) by (auto simp: atom_at_def)

lemma term_escape_atom:
  assumes e: "term_escape s dir p = Some (Done r s')" and f: "fit s"
  shows "atom_at s r s'"
proof -
  obtain c where c: "rd (ps_buf s) (p + 1) = Some c" using e by (auto simp: term_escape_def bind_eq_Some_conv)
  consider oc where "re_emit_op s oc = Some s'" "oc \<in> {REOP_word_boundary, REOP_not_word_boundary}" "r = (None, 0, p + 2)"
    | "named_reference s dir p = Some (Done r s')" | "nul_escape s dir (p + 2) = Some (Done r s')"
    | "numbered_reference s dir (p + 1) = Some (Done r s')" | "term_class_atom s dir p = Some (Done r s')"
    using e c by (auto simp: term_escape_def bind_eq_Some_conv split: if_splits)
  then show ?thesis
    using op_atom [OF _ f] named_reference_atom [OF _ f] nul_escape_atom [OF _ f] numbered_reference_atom [OF _ f] term_class_atom_atom [OF _ f]
    by cases auto
qed

lemma term_brace_atom: "term_brace s dir p = Some (Done r s') \<Longrightarrow> fit s \<Longrightarrow> atom_at s r s'"
  using term_class_atom_atom [of s dir p r s'] by (auto simp: term_brace_def bind_eq_Some_conv split: if_splits)

lemma dot_atom:
  assumes "emit_prev s dir = Some s1" "re_emit_op s1 oc = Some s2" "emit_prev s2 dir = Some s'" "oc \<in> {REOP_any, REOP_dot}" "fit s"
  shows "atom_at s (Some (code_size s), k, p) s'"
proof -
  have mid: "holds s s1 c \<Longrightarrow> emits (ps_capture_count s) s c s2" for c using re_emit_op_emits [OF assms(2)] assms(4) by auto
  have "emits (ps_capture_count s) s (code s) s'"
    by (rule emits_trans [OF emits_trans [OF emit_prev_emits [OF assms(1) fit_holds [OF assms(5)]] mid] emit_prev_emits [OF assms(3)]])
  then show ?thesis using atom_start [OF assms(5)] by (auto simp: atom_at_def)
qed

lemma holds_alloc: "holds s0 s c \<Longrightarrow> ps_alloc s = ps_alloc s0"
  by (simp add: holds_def same_def)

lemma class_atom:
  assumes "emit_prev s dir = Some s1" "re_parse_char_class s1 p = Some (Done q s2)" "emit_prev s2 dir = Some s'" "fit s"
  shows "atom_at s (Some (code_size s), k, q) s'"
proof -
  have mid: "holds s s1 c \<Longrightarrow> emits (ps_capture_count s) s c s2" for c
    using re_parse_char_class_emits [OF assms(2)] assms(4) holds_alloc [of s s1 c] by (simp add: fit_def)
  have "emits (ps_capture_count s) s (code s) s'"
    by (rule emits_trans [OF emits_trans [OF emit_prev_emits [OF assms(1) fit_holds [OF assms(4)]] mid] emit_prev_emits [OF assms(3)]])
  then show ?thesis using atom_start [OF assms(4)] by (auto simp: atom_at_def)
qed

lemma re_parse_atom_atom:
  assumes e: "re_parse_atom s dir = Some (Done r s')" and f: "fit s"
  shows "atom_at s r s'"
proof -
  let ?p = "ps_buf_ptr s"
  consider oc where "re_emit_op s oc = Some s'" "oc \<in> {REOP_line_start, REOP_line_end}" "r = (None, 0, ?p + 1)"
    | s1 oc s2 where "emit_prev s dir = Some s1" "re_emit_op s1 oc = Some s2" "emit_prev s2 dir = Some s'" "oc \<in> {REOP_any, REOP_dot}"
        "r = (Some (code_size s), ps_capture_count s, ?p + 1)"
    | "term_brace s dir ?p = Some (Done r s')" | "term_escape s dir ?p = Some (Done r s')"
    | s1 q s2 where "emit_prev s dir = Some s1" "re_parse_char_class s1 ?p = Some (Done q s2)" "emit_prev s2 dir = Some s'" "r = (Some (code_size s), ps_capture_count s, q)"
    | "term_class_atom s dir ?p = Some (Done r s')"
    using e by (auto simp: re_parse_atom_def bind_eq_Some_conv Let_def split: if_split_asm)
  then show ?thesis
    using op_atom [OF _ f] dot_atom [OF _ _ _ _ f] term_brace_atom [OF _ f] term_escape_atom [OF _ f] class_atom [OF _ _ _ f] term_class_atom_atom [OF _ f]
    by cases auto
qed

section \<open>Terms\<close>

text \<open>The invariant of the parser, and what it keeps from one state to a later one.\<close>

definition pinv :: "'m REParseState \<Rightarrow> bool" where
  "pinv s \<longleftrightarrow> fit s \<and> names_ok s \<and> 0 < ps_capture_count s \<and> ps_capture_count s \<le> 255"

definition grows :: "'m REParseState \<Rightarrow> 'm REParseState \<Rightarrow> bool" where
  "grows s s' \<longleftrightarrow> ps_alloc s' = ps_alloc s \<and> (good s' \<longrightarrow> good s) \<and> (names_ok s \<longrightarrow> names_ok s') \<and> ps_capture_count s \<le> ps_capture_count s' \<and>
     (ps_capture_count s \<le> 255 \<longrightarrow> ps_capture_count s' \<le> 255)"

text \<open>\<open>ends x s\<close>: unless memory ran out the code is \<open>x\<close> and a fragment.\<close>

definition ends :: "u8 list \<Rightarrow> 'm REParseState \<Rightarrow> bool" where
  "ends x s \<longleftrightarrow> (good s \<longrightarrow> st_ok s \<and> (\<exists>f. frag (ps_capture_count s) f \<and> code s = x @ f))"

lemma grows_refl [simp]: "grows s s"
  by (simp add: grows_def)

lemma pgrows_trans: "grows s s1 \<Longrightarrow> grows s1 s2 \<Longrightarrow> grows s s2"
  by (auto simp: grows_def)

lemma grows_pinv: "grows s s' \<Longrightarrow> pinv s \<Longrightarrow> (good s' \<Longrightarrow> st_ok s') \<Longrightarrow> pinv s'"
  by (auto simp: grows_def pinv_def fit_def)

lemma ends_pinv: "grows s s' \<Longrightarrow> pinv s \<Longrightarrow> ends x s' \<Longrightarrow> pinv s'"
  by (auto simp: ends_def intro: grows_pinv)

lemma holds_grows: "holds s s' c \<Longrightarrow> grows s s'"
  by (auto simp: holds_def same_def grows_def)

lemma scan_grows: "scan s s' \<Longrightarrow> grows s s'"
  using scan_state [of s s'] by (simp add: scan_def grows_def)

lemma holds_ends: "holds s s' (x @ f) \<Longrightarrow> frag (ps_capture_count s) f \<Longrightarrow> ends x s'"
  using holds_captures [of s s'] by (auto simp: holds_def ends_def)

lemma emits_ends: "emits (ps_capture_count s) s (code s) s' \<Longrightarrow> grows s s' \<and> ends (code s) s'"
  by (auto simp: emits_def intro: holds_grows holds_ends)

lemma buf_ptr_simps [simp]: "pinv (s\<lparr>ps_buf_ptr := p\<rparr>) = pinv s" "ends x (s\<lparr>ps_buf_ptr := p\<rparr>) = ends x s" "grows s0 (s\<lparr>ps_buf_ptr := p\<rparr>) = grows s0 s"
  "code (s\<lparr>ps_buf_ptr := p\<rparr>) = code s" "grows (s\<lparr>ps_buf_ptr := p\<rparr>) s1 = grows s s1"
  by (simp_all add: pinv_def fit_def names_ok_def good_def st_ok_def ends_def code_def grows_def)

lemma re_parse_expect_same: "re_parse_expect s p c = Some (Done q s') \<Longrightarrow> s' = s"
  by (auto simp: re_parse_expect_def bind_eq_Some_conv split: if_splits)

lemma repetition_count_same: "yields (repetition_count s p) (\<lambda>q s'. s' = s)"
proof -
  have "yields (re_parse_expect s p1 CHR ''}'') (\<lambda>p1 s'. s' = s)" for p1 using re_parse_expect_same by (auto simp: yields_def)
  then show ?thesis unfolding repetition_count_def Let_def
    by (auto simp only: yields_bind yields_simps yields_checked prod.case split: if_split prod.split intro!: leadsI)
qed

lemma quantifier_spec_same: "quantifier_spec s p = Some (Done q s') \<Longrightarrow> s' = s"
  using yieldsD [OF repetition_count_same] by (auto simp: quantifier_spec_def bind_eq_Some_conv split: if_splits)

lemma re_parse_quantifier_ends:
  assumes e: "re_parse_quantifier s (las, lcc, p) = Some (Done q s')" and s: "pinv s" "ends x s"
    and las: "\<And>l. good s \<Longrightarrow> las = Some l \<Longrightarrow> l = length x"
  shows "grows s s' \<and> ends x s'"
proof (cases "s' = s")
  case False
  then obtain l qmin qmax greedy where m: "las = Some l" "emit_quantifier s l lcc qmin qmax greedy = Some s'"
    using e by (auto simp: re_parse_quantifier_def bind_eq_Some_conv Let_def split: option.splits dest!: quantifier_spec_same)
  obtain a where "good s \<Longrightarrow> st_ok s \<and> code s = x @ a \<and> l = length x \<and> frag (ps_capture_count s) a"
    using s(2) las [OF _ m(1)] by (auto simp: ends_def)
  from emit_quantifier_holds [OF m(2) this] s(1) obtain c where "frag (ps_capture_count s) c" "holds s s' (x @ c)" by (auto simp: pinv_def)
  then show ?thesis using holds_grows holds_ends by blast
qed (use s in simp)

section \<open>Groups\<close>

text \<open>The code after the head of a group.\<close>

definition opened :: "u8 list \<Rightarrow> group_kind \<Rightarrow> 'm REParseState \<Rightarrow> bool" where
  "opened x kind s \<longleftrightarrow>
     (case kind of Plain \<Rightarrow> code s = x
      | Lookahead pos \<Rightarrow> pos = length x + 1 \<and> (\<exists>oc \<in> {REOP_lookahead, REOP_negative_lookahead}. code s = x @ reop_num oc # le32 0)
      | Capture k \<Rightarrow> k < ps_capture_count s \<and> (\<exists>f. frag (ps_capture_count s) f \<and> code s = x @ f))"

definition head_ok :: "'m REParseState \<Rightarrow> group_kind \<times> bool \<times> term_atom \<Rightarrow> 'm REParseState \<Rightarrow> bool" where
  "head_ok s r s' \<longleftrightarrow> grows s s' \<and> (good s' \<longrightarrow> st_ok s' \<and> opened (code s) (fst r) s' \<and> (\<forall>l. fst (snd (snd r)) = Some l \<longrightarrow> l = length (code s)))"

lemma head_ok_base: "grows s s1 \<Longrightarrow> code s1 = code s \<Longrightarrow> head_ok s1 r s' \<Longrightarrow> head_ok s r s'"
  using pgrows_trans [of s s1 s'] by (auto simp: head_ok_def)

lemma save_plain: "oc \<in> {REOP_save_start, REOP_save_end} \<Longrightarrow> k < n \<Longrightarrow> k < 256 \<Longrightarrow> plain_instr n oc [word_of_nat k]"
  by (auto simp: plain_instr_def unsigned_of_nat take_bit_nat_eq_self)

lemma parse_capture_head:
  assumes e: "parse_capture s dir p = Some (Done r s')" and s: "pinv s"
  shows "head_ok s r s'"
proof -
  let ?k = "ps_capture_count s" and ?oc = "if dir then REOP_save_end else REOP_save_start"
  let ?s = "s\<lparr>ps_capture_count := ?k + 1\<rparr>"
  have m: "?k < 255" "re_emit_op_u8 ?s ?oc ?k = Some s'" "r = (Capture ?k, dir, Some (code_size s), ?k, p)"
    using e by (auto simp: parse_capture_def CAPTURE_COUNT_MAX_def bind_eq_Some_conv Let_def split: if_splits)
  have h: "holds ?s ?s (code s)" using fit_holds [of s] s by (auto simp: pinv_def holds_def good_def st_ok_def code_def)
  note h1 = leadsD [OF re_emit_op_u8_holds [OF h] m(2)]
  have g: "grows s s'" using holds_grows [OF h1] m(1) by (auto simp: grows_def good_def names_ok_def)
  have fr: "frag (?k + 1) [reop_num ?oc, word_of_nat ?k]" by (rule frag.Instr [OF save_plain]) (use m(1) in auto)
  have c: "ps_capture_count s' = ?k + 1" using holds_captures [OF h1] by simp
  have "code_size s = length (code s)" if "good s'" using that g s code_size_eq [of s] by (auto simp: grows_def pinv_def fit_def)
  then show ?thesis using g fr c m(3) h1 by (auto simp: head_ok_def opened_def holds_def)
qed

lemma parse_lookahead_head:
  assumes e: "parse_lookahead s neg back p = Some (Done r s')" and s: "pinv s"
  shows "head_ok s r s'"
proof -
  let ?oc = "if neg then REOP_negative_lookahead else REOP_lookahead"
  obtain pos where m: "re_emit_op_u32 s ?oc 0 = Some (pos, s')" "fst r = Lookahead pos" "fst (snd (snd r)) = None \<or> fst (snd (snd r)) = Some (code_size s)"
    using e by (auto simp: parse_lookahead_def bind_eq_Some_conv Let_def)
  have f: "fit s" using s by (simp add: pinv_def)
  have h: "holds s s' (code s @ reop_num ?oc # le32 0)" "good s' \<Longrightarrow> pos = length (code s) + 1"
    using leadsD [OF re_emit_op_u32_holds [OF fit_holds [OF f]] m(1)] by auto
  have "code_size s = length (code s)" if "good s'" using holds_good [OF h(1) that] f code_size_eq [of s] by (auto simp: fit_def)
  then show ?thesis using holds_grows [OF h(1)] h m(2,3) by (auto simp: head_ok_def opened_def holds_def)
qed

lemma put_name_bytes_grows:
  assumes "put_name_bytes s data = Some s'" "length data < 2 ^ 31"
  shows "grows s s' \<and> code s' = code s \<and> good s' = good s \<and> st_ok s' = st_ok s"
  using assms dbuf_put_kept(2) [of "(ps_group_names s)\<lparr>opaque := ps_mem s\<rparr>" data]
  by (auto simp: put_name_bytes_def bind_eq_Some_conv grows_def good_def names_ok_def code_def st_ok_def)

lemma group_name_short: "re_parse_group_name n t p b = Some (0, p1, name) \<Longrightarrow> length name < n"
  by (auto simp: re_parse_group_name_def put_name_def bind_eq_Some_conv split: if_splits)

lemma group_head_ok:
  assumes e: "group_head s dir = Some (Done r s')" and s: "pinv s"
  shows "head_ok s r s'"
proof -
  let ?p = "ps_buf_ptr s"
  have cap: "head_ok s r s'" if g: "grows s s1" "code s1 = code s" "good s1 = good s" "st_ok s1 = st_ok s" and c: "parse_capture s1 dir q = Some (Done r s')" for s1 q
    by (rule head_ok_base [OF g(1,2) parse_capture_head [OF c]], rule grows_pinv [OF g(1) s]) (use g s in \<open>auto simp: pinv_def fit_def\<close>)
  have look: "head_ok s r s'" if "parse_lookahead s neg bk q = Some (Done r s')" for neg bk q by (rule parse_lookahead_head [OF that s])
  obtain b1 where b1: "rd (ps_buf s) (?p + 1) = Some b1" using e by (auto simp: group_head_def Let_def bind_eq_Some_conv)
  show ?thesis
  proof (cases "b1 = ch CHR ''?''")
    case False
    then obtain s1 where "put_name_bytes s [0] = Some s1" "parse_capture s1 dir (?p + 1) = Some (Done r s')"
      using e b1 by (auto simp: group_head_def Let_def bind_eq_Some_conv)
    then show ?thesis using put_name_bytes_grows [of s "[0]" s1] cap [of s1] by simp
  next
    case q: True
    obtain b2 where b2: "rd (ps_buf s) (?p + 2) = Some b2" using e b1 q by (auto simp: group_head_def Let_def bind_eq_Some_conv)
    show ?thesis
    proof (cases "b2 = ch CHR '':''")
      case True
      then have "r = (Plain, dir, Some (code_size s), ps_capture_count s, ?p + 3)" "s' = s" using e b1 q b2 by (auto simp: group_head_def Let_def)
      then show ?thesis using s code_size_eq [of s] by (auto simp: head_ok_def opened_def pinv_def fit_def)
    next
      case nc: False
      show ?thesis
      proof (cases "b2 = ch CHR ''<''")
        case False
        then have "parse_lookahead s (b2 = ch CHR ''!'') False (?p + 3) = Some (Done r s')"
          using e b1 q b2 nc by (simp add: group_head_def Let_def split: if_splits)
        then show ?thesis by (rule look)
      next
        case lt: True
        obtain b3 where b3: "rd (ps_buf s) (?p + 3) = Some b3" using e b1 q b2 nc lt by (auto simp: group_head_def Let_def ch_def bind_eq_Some_conv)
        show ?thesis
        proof (cases "b3 = ch CHR ''='' \<or> b3 = ch CHR ''!''")
          case True
          then have "parse_lookahead s (b3 = ch CHR ''!'') True (?p + 4) = Some (Done r s')" using e b1 q b2 nc lt b3 by (simp add: group_head_def Let_def ch_def)
          then show ?thesis by (rule look)
        next
          case False
          obtain p1 name s1 where named: "re_parse_group_name TMP_BUF_SIZE (ps_buf s) (?p + 3) (ps_is_utf16 s) = Some (0, p1, name)"
              "put_name_bytes (s\<lparr>ps_u := name\<rparr>) (name @ [0]) = Some s1" "parse_capture (s1\<lparr>ps_has_named_captures := 1\<rparr>) dir p1 = Some (Done r s')"
            using e b1 q b2 nc lt b3 False by (auto simp: group_head_def Let_def ch_def bind_eq_Some_conv split: if_splits)
          have len: "length (name @ [0]) < 2 ^ 31" using group_name_short [OF named(1)] by (simp add: TMP_BUF_SIZE_def)
          note p = put_name_bytes_grows [OF named(2) len]
          have u: "scan s (s\<lparr>ps_u := name\<rparr>)" "scan s1 (s1\<lparr>ps_has_named_captures := 1\<rparr>)" by simp_all
          show ?thesis using p scan_state [OF u(1)] scan_state [OF u(2)] pgrows_trans [OF pgrows_trans [OF scan_grows [OF u(1)]] scan_grows [OF u(2)]]
            by (intro cap [OF _ _ _ _ named(3)]) auto
        qed
      qed
    qed
  qed
qed

lemma group_tail_ends:
  assumes e: "group_tail s kind dir = Some (Done q s')" and s: "pinv s" and h: "opened x kind s0" and x: "ends (code s0) s" "ps_capture_count s0 \<le> ps_capture_count s"
  shows "grows s s' \<and> ends x s'"
proof (cases kind)
  case Plain
  then have "s' = s" "code s0 = x" using e h re_parse_expect_same by (auto simp: group_tail_def opened_def)
  then show ?thesis using x by simp
next
  case (Capture k)
  let ?oc = "if dir then REOP_save_start else REOP_save_end"
  have m: "re_emit_op_u8 s ?oc k = Some s'" using e Capture by (auto simp: group_tail_def bind_eq_Some_conv dest!: re_parse_expect_same)
  obtain f0 where f0: "k < ps_capture_count s0" "frag (ps_capture_count s0) f0" "code s0 = x @ f0" using h Capture by (auto simp: opened_def)
  note h1 = leadsD [OF re_emit_op_u8_holds [OF fit_holds] m]
  have fit: "fit s" "ps_capture_count s \<le> 255" using s by (auto simp: pinv_def)
  have fr: "frag (ps_capture_count s) [reop_num ?oc, word_of_nat k]" by (rule frag.Instr [OF save_plain]) (use f0 x fit in auto)
  have "ends x s'" unfolding ends_def
  proof (intro impI)
    assume g: "good s'"
    then obtain f where f: "frag (ps_capture_count s) f" "code s = code s0 @ f" using x(1) holds_good [OF h1 [OF fit(1)]] by (auto simp: ends_def)
    have "frag (ps_capture_count s) (f0 @ f @ [reop_num ?oc, word_of_nat k])" using frag_mono [OF f0(2) x(2)] f(1) fr by (intro frag.Seq)
    then show "st_ok s' \<and> (\<exists>f. frag (ps_capture_count s') f \<and> code s' = x @ f)"
      using h1 [OF fit(1)] g f(2) f0(3) holds_captures [OF h1 [OF fit(1)]] by (auto simp: holds_def)
  qed
  then show ?thesis using holds_grows [OF h1 [OF fit(1)]] by simp
next
  case (Lookahead pos)
  obtain s1 where m: "re_emit_op s REOP_match = Some s1" "patch_u32 s1 pos (int (code_size s1) - int (pos + 4)) = Some s'"
    using e Lookahead by (auto simp: group_tail_def bind_eq_Some_conv dest!: re_parse_expect_same)
  obtain oc where oc: "pos = length x + 1" "oc \<in> {REOP_lookahead, REOP_negative_lookahead}" "code s0 = x @ reop_num oc # le32 0"
    using h Lookahead by (auto simp: opened_def)
  have fit: "fit s" using s by (simp add: pinv_def)
  obtain f where f: "good s \<Longrightarrow> frag (ps_capture_count s) f \<and> code s = code s0 @ f" using x(1) by (auto simp: ends_def)
  note h1 = leadsD [OF re_emit_op_holds [OF fit_holds [OF fit]] m(1)]
  have h1': "holds s s1 ((x @ [reop_num oc]) @ le32 0 @ f @ [reop_num REOP_match])" by (rule holds_eq [OF h1]) (use f holds_good [OF h1] oc in auto)
  have h2: "holds s s' ((x @ [reop_num oc]) @ le32 (int (code_size s1) - int (pos + 4)) @ f @ [reop_num REOP_match])"
    by (rule patch_number [OF m(2) h1']) (use oc in auto)
  have g1: "good s1" if "good s'" using that patch_same [OF m(2) [unfolded patch_u32_def]] by (simp add: same_def)
  have h3: "holds s s' (x @ reop_num oc # le32 (int (length f) + 1) @ f @ [reop_num REOP_match])"
    by (rule holds_eq [OF h2]) (use holds_size [OF h1'] g1 oc(1) in \<open>auto simp: add.commute\<close>)
  have "ends x s'" unfolding ends_def
    using frag.Look [OF conjunct1 [OF f] oc(2)] holds_good [OF h3] h3 holds_captures [OF h3] by (auto simp: holds_def)
  then show ?thesis using holds_grows [OF h3] by simp
qed

section \<open>Alternatives\<close>

lemma patch_mem:
  assumes "patch s pos data = Some s'"
  shows "pos + length data \<le> length (mem (ps_byte_code s)) \<or> data = []"
    "mem (ps_byte_code s') = take pos (mem (ps_byte_code s)) @ data @ drop (pos + length data) (mem (ps_byte_code s))"
    "dsize (ps_byte_code s') = dsize (ps_byte_code s)" "st_ok s \<Longrightarrow> st_ok s'"
proof -
  obtain d where d: "buf_store (ps_byte_code s) pos data = Some d" "s' = s\<lparr>ps_byte_code := d\<rparr>" using assms by (auto simp: patch_def bind_eq_Some_conv)
  have m: "(pos + length data \<le> length (mem (ps_byte_code s)) \<or> data = []) \<and>
      mem d = take pos (mem (ps_byte_code s)) @ data @ drop (pos + length data) (mem (ps_byte_code s))"
    using d(1) by (auto simp: buf_store_def blit_def mem_def bind_eq_Some_conv split: option.splits if_splits)
  then show "pos + length data \<le> length (mem (ps_byte_code s)) \<or> data = []"
    "mem (ps_byte_code s') = take pos (mem (ps_byte_code s)) @ data @ drop (pos + length data) (mem (ps_byte_code s))" using d(2) by simp_all
  show "dsize (ps_byte_code s') = dsize (ps_byte_code s)" using store_keeps [OF d(1)] d(2) by simp
  have "length (mem d) = length (mem (ps_byte_code s))" using m by auto
  then show "st_ok s'" if "st_ok s" using store_keeps [OF d(1)] that d(2) by (simp add: st_ok_def buf_ok_def dbuf_wf_def)
qed

lemma move_term_code:
  assumes e: "move_term s start tstart = Some (Done u s')" and s: "good s \<Longrightarrow> st_ok s \<and> code s = x @ a @ t \<and> length x = start \<and> length (x @ a) = tstart"
  shows "grows s s'" "good s' \<Longrightarrow> st_ok s' \<and> code s' = x @ t @ a"
proof -
  let ?n = "code_size s" let ?ts = "?n - tstart" let ?d = "(ps_byte_code s)\<lparr>opaque := ps_mem s\<rparr>"
  obtain d data1 s2 data2 where m: "dbuf_realloc ?d (word_of_nat (?n + ?ts)) = Some (0, d)" 
      "slice (mem d) start (?n - start) = Some data1" "patch (s\<lparr>ps_byte_code := d, ps_mem := opaque d\<rparr>) (start + ?ts) data1 = Some s2"
      "slice (mem (ps_byte_code s2)) ?n ?ts = Some data2" "patch s2 start data2 = Some s'"
    using e by (auto simp: move_term_def bind_eq_Some_conv Let_def split: if_splits)
  let ?s1 = "s\<lparr>ps_byte_code := d, ps_mem := opaque d\<rparr>"
  have g1: "grows s ?s1" using realloc_keeps(1) [OF m(1)] by (auto simp: grows_def good_def names_ok_def)
  have "grows ?s1 s2" "grows s2 s'" using patch_same [OF m(3)] patch_same [OF m(5)] by (auto simp: same_def grows_def)
  note g = g1 this
  then show "grows s s'" using pgrows_trans by blast
  assume "good s'"
  then have "good s" using g by (simp add: grows_def)
  note s = s [OF this]
  have n: "?n = length x + length a + length t" "?n < 2 ^ 31" "start = length x" "?ts = length t" "tstart = length x + length a" using s code_size_eq [of s] by auto
  have w: "dbuf_wf ?d" using s by (simp add: st_ok_def buf_ok_def)
  have r: "dbuf_wf d" "content d = x @ a @ t" "dsize d = dsize (ps_byte_code s)" "word_of_nat (?n + ?ts) \<le> allocated_size d"
    using dbuf_realloc_ok [OF w, of "word_of_nat (?n + ?ts)"] m(1) s by (auto simp: code_def)
  have ok1: "st_ok ?s1" using realloc_keeps(2,3) [OF m(1)] r(1) s by (auto simp: st_ok_def buf_ok_def)
  have "unat (word_of_nat k :: u32) = k" if "k < 2 ^ 32" for k using that by (simp add: unsigned_of_nat take_bit_nat_eq_self)
  from this [of "?n + ?ts"] have al: "?n + ?ts \<le> length (mem d)" using r(1,4) n(1,2,4) by (simp add: dbuf_wf_def word_le_nat_alt del: of_nat_add)
  have sz: "unat (dsize d) = ?n" using r(3) by (simp add: code_size_def)
  define R where "R = drop ?n (mem d)"
  have "take ?n (mem d) = x @ a @ t" using r(2) sz by (simp add: content_def)
  then have M: "mem d = x @ a @ t @ R" "length t \<le> length R" using append_take_drop_id [of ?n "mem d"] al n(4) unfolding R_def by (metis append.assoc, simp)
  have d1: "data1 = a @ t" using m(2) M n by (auto simp: slice_def split: if_splits)
  have "mem (ps_byte_code s2) = take (length x + length t) (x @ a @ t @ R) @ (a @ t) @ drop (length x + length t + length (a @ t)) (x @ a @ t @ R)"
    using patch_mem(2) [OF m(3)] M(1) d1 n(3,4) by simp
  then have M2: "mem (ps_byte_code s2) = x @ take (length t) (a @ t @ R) @ a @ t @ drop (length t) R" by simp
  have "length (take (length t) (a @ t @ R)) = length t" by simp
  then have d2: "data2 = t" using m(4) M2 n by (auto simp: slice_def split: if_splits)
  have "mem (ps_byte_code s') = x @ t @ a @ t @ drop (length t) R" using patch_mem(2) [OF m(5)] M2 d2 n by simp
  moreover have "dsize (ps_byte_code s') = dsize d" using patch_mem(3) [OF m(5)] patch_mem(3) [OF m(3)] by simp
  ultimately have "code s' = x @ t @ a" using n sz by (simp add: code_def content_def)
  then show "st_ok s' \<and> code s' = x @ t @ a" using patch_mem(4) [OF m(5)] patch_mem(4) [OF m(3) ok1] by simp
qed

section \<open>The parser\<close>

lemma pinv_ends: "pinv s \<Longrightarrow> ends (code s) s"
  using frag.Empty by (auto simp: pinv_def fit_def ends_def)

lemma group_tail_grows:
  assumes "group_tail s kind dir = Some (Done q s')" "pinv s"
  shows "grows s s'"
proof -
  have h: "holds s s (code s)" using assms(2) fit_holds [of s] by (simp add: pinv_def)
  show ?thesis
  proof (cases kind)
    case Plain
    then show ?thesis using assms(1) re_parse_expect_same by (fastforce simp: group_tail_def)
  next
    case (Capture k)
    then have "re_emit_op_u8 s (if dir then REOP_save_start else REOP_save_end) k = Some s'"
      using assms(1) by (auto simp: group_tail_def bind_eq_Some_conv dest!: re_parse_expect_same)
    from holds_grows [OF leadsD [OF re_emit_op_u8_holds [OF h] this]] show ?thesis .
  next
    case (Lookahead pos)
    then obtain s1 where m: "re_emit_op s REOP_match = Some s1" "patch s1 pos (to_bytes 4 (word_of_int (int (code_size s1) - int (pos + 4)) :: u32)) = Some s'"
      using assms(1) by (auto simp: group_tail_def patch_u32_def bind_eq_Some_conv dest!: re_parse_expect_same)
    show ?thesis using holds_grows [OF leadsD [OF re_emit_op_holds [OF h] m(1)]] patch_same [OF m(2)] by (auto simp: grows_def same_def)
  qed
qed

text \<open>What each of the four functions does with a given depth of recursion.\<close>

definition parses :: "'m REParseState \<Rightarrow> u8 list \<Rightarrow> (unit, 'm) outcome option \<Rightarrow> bool" where
  "parses s x m \<longleftrightarrow> yields m (\<lambda>_ s'. grows s s' \<and> ends x s')"

definition disjunction_ok :: "nat \<Rightarrow> 'm itself \<Rightarrow> bool" where
  "disjunction_ok n _ \<longleftrightarrow> (\<forall>s :: 'm REParseState. \<forall>dir. pinv s \<longrightarrow> parses s (code s) (re_parse_disjunction n s dir))"

definition loop_ok :: "nat \<Rightarrow> 'm itself \<Rightarrow> bool" where
  "loop_ok n _ \<longleftrightarrow> (\<forall>s :: 'm REParseState. \<forall>dir x start. pinv s \<longrightarrow> ends x s \<longrightarrow> (good s \<longrightarrow> start = length x) \<longrightarrow> parses s x (disjunction_loop n s dir start))"

definition alternative_ok :: "nat \<Rightarrow> 'm itself \<Rightarrow> bool" where
  "alternative_ok n _ \<longleftrightarrow> (\<forall>s :: 'm REParseState. \<forall>dir x start. pinv s \<longrightarrow> ends x s \<longrightarrow> (good s \<longrightarrow> start = length x) \<longrightarrow> parses s x (re_parse_alternative n s dir start))"

definition term_ok :: "nat \<Rightarrow> 'm itself \<Rightarrow> bool" where
  "term_ok n _ \<longleftrightarrow> (\<forall>s :: 'm REParseState. \<forall>dir. pinv s \<longrightarrow> parses s (code s) (re_parse_term n s dir))"

lemma parses_trans: "grows s s1 \<Longrightarrow> parses s1 x m \<Longrightarrow> parses s x m"
  using pgrows_trans by (auto simp: parses_def yields_def)

lemma parsesD: "parses s x m \<Longrightarrow> m = Some (Done u s') \<Longrightarrow> grows s s' \<and> ends x s'"
  by (auto simp: parses_def yields_def)

lemma pinv_size: "pinv s \<Longrightarrow> good s \<Longrightarrow> code_size s = length (code s)"
  using code_size_eq [of s] by (auto simp: pinv_def fit_def)

lemma disjunction_step:
  assumes "alternative_ok n TYPE('m)" "loop_ok n TYPE('m)"
  shows "disjunction_ok (Suc n) TYPE('m)"
  unfolding disjunction_ok_def parses_def
proof (intro allI impI yieldsI)
  fix s s' :: "'m REParseState" and dir u assume s: "pinv s" and e: "re_parse_disjunction (Suc n) s dir = Some (Done u s')"
  then obtain v s1 where m: "re_parse_alternative n s dir (code_size s) = Some (Done v s1)" "disjunction_loop n s1 dir (code_size s) = Some (Done u s')" by auto
  have "parses s (code s) (re_parse_alternative n s dir (code_size s))" using assms(1) s pinv_ends [OF s] pinv_size [OF s] by (auto simp: alternative_ok_def)
  from parsesD [OF this m(1)] have 1: "grows s s1" "ends (code s) s1" by auto
  have "good s1 \<Longrightarrow> code_size s = length (code s)" using 1(1) pinv_size [OF s] by (simp add: grows_def)
  then have "parses s1 (code s) (disjunction_loop n s1 dir (code_size s))" using assms(2) ends_pinv [OF 1(1) s 1(2)] 1(2) by (auto simp: loop_ok_def)
  from parsesD [OF parses_trans [OF 1(1) this] m(2)] show "grows s s' \<and> ends (code s) s'" .
qed

lemma term_step:
  assumes "disjunction_ok n TYPE('m)"
  shows "term_ok (Suc n) TYPE('m)"
  unfolding term_ok_def parses_def
proof (intro allI impI yieldsI)
  fix s s' :: "'m REParseState" and dir u assume s: "pinv s" and e: "re_parse_term (Suc n) s dir = Some (Done u s')"
  obtain c las lcc p s1 q s2 where m: "(if c = ch CHR ''('' then
         checked (group_head s dir) (\<lambda>(kind, dir', last_atom_start, last_capture_count, p) s.
           checked (re_parse_disjunction n (s\<lparr>ps_buf_ptr := p\<rparr>) dir') (\<lambda>_ s.
             checked (group_tail s kind dir) (\<lambda>p s. Some (Done (last_atom_start, last_capture_count, p) s))))
       else re_parse_atom s dir) = Some (Done (las, lcc, p) s1)" "re_parse_quantifier s1 (las, lcc, p) = Some (Done q s2)" "s' = s2\<lparr>ps_buf_ptr := q\<rparr>"
    using e by (auto simp: bind_eq_Some_conv simp del: re_parse_disjunction.simps split del: if_split)
  have 1: "grows s s1 \<and> ends (code s) s1 \<and> (good s1 \<longrightarrow> (\<forall>l. las = Some l \<longrightarrow> l = length (code s)))"
  proof (cases "c = ch CHR ''(''")
    case False
    then have "atom_at s (las, lcc, p) s1" using m(1) re_parse_atom_atom s by (auto simp: pinv_def)
    then show ?thesis using emits_ends [of s s1] by (simp add: atom_at_def)
  next
    case True
    then obtain kind dir' ph sh v sd where g: "group_head s dir = Some (Done (kind, dir', las, lcc, ph) sh)"
        "re_parse_disjunction n (sh\<lparr>ps_buf_ptr := ph\<rparr>) dir' = Some (Done v sd)" "group_tail sd kind dir = Some (Done p s1)"
      using m(1) by auto
    note h = group_head_ok [OF g(1) s]
    have ph: "pinv sh" by (rule grows_pinv [OF _ s]) (use h in \<open>auto simp: head_ok_def\<close>)
    have "parses (sh\<lparr>ps_buf_ptr := ph\<rparr>) (code sh) (re_parse_disjunction n (sh\<lparr>ps_buf_ptr := ph\<rparr>) dir')" 
      using assms [unfolded disjunction_ok_def, rule_format, of "sh\<lparr>ps_buf_ptr := ph\<rparr>" dir'] ph by simp
    from parsesD [OF this g(2)] have d: "grows sh sd" "ends (code sh) sd" by auto
    have pd: "pinv sd" by (rule ends_pinv [OF d(1) ph d(2)])
    note t = group_tail_grows [OF g(3) pd]
    have gr: "grows s s1" using pgrows_trans [OF pgrows_trans [OF _ d(1)] t] h by (simp add: head_ok_def)
    show ?thesis
    proof (cases "good s1")
      case True
      then have "good sh" using d(1) t by (auto simp: grows_def)
      then have "opened (code s) kind sh" "\<forall>l. las = Some l \<longrightarrow> l = length (code s)" using h by (auto simp: head_ok_def)
      moreover have "ps_capture_count sh \<le> ps_capture_count sd" using d(1) by (simp add: grows_def)
      ultimately show ?thesis using gr group_tail_ends [OF g(3) pd _ d(2)] by blast
    next
      case False
      then show ?thesis using gr by (simp add: ends_def)
    qed
  qed
  have "grows s1 s2 \<and> ends (code s) s2" using re_parse_quantifier_ends [OF m(2) ends_pinv [of s s1 "code s"]] 1 s by blast
  then show "grows s s' \<and> ends (code s) s'" using 1 m(3) pgrows_trans by auto
qed

lemma alternatives_step:
  assumes "alternative_ok n TYPE('m)" "loop_ok n TYPE('m)"
  shows "loop_ok (Suc n) TYPE('m)"
  unfolding loop_ok_def parses_def
proof (intro allI impI yieldsI)
  fix s s' :: "'m REParseState" and dir x start u
  assume s: "pinv s" "ends x s" "good s \<longrightarrow> start = length x" and e: "disjunction_loop (Suc n) s dir start = Some (Done u s')"
  obtain b where b: "rd (ps_buf s) (ps_buf_ptr s) = Some b" using e by (auto simp: bind_eq_Some_conv)
  show "grows s s' \<and> ends x s'"
  proof (cases "b = ch CHR ''|''")
    case False
    then show ?thesis using e b s(2) by simp
  next
    case True
    let ?s = "s\<lparr>ps_buf_ptr := ps_buf_ptr s + 1\<rparr>" and ?len = "code_size s - start"
    obtain s1 s2 s3 pos s4 v s5 s6 where m: "insert_code ?s start 5 = Some s1" "patch_op s1 start REOP_split_next_first = Some s2" "patch_u32 s2 (start + 1) (int ?len + 5) = Some s3"
        "re_emit_op_u32 s3 REOP_goto 0 = Some (pos, s4)" "re_parse_alternative n s4 dir (code_size s4) = Some (Done v s5)"
        "patch_u32 s5 pos (int (code_size s5) - int (pos + 4)) = Some s6" "disjunction_loop n s6 dir start = Some (Done u s')"
      using e b True by (auto simp: bind_eq_Some_conv Let_def simp del: re_parse_alternative.simps)
    obtain a where a: "good s \<Longrightarrow> frag (ps_capture_count s) a \<and> code s = x @ a" using s(2) by (auto simp: ends_def)
    have st: "good s \<Longrightarrow> st_ok s" using s(1) by (simp add: pinv_def fit_def)
    have gs: "good ?s = good s" by (simp add: good_def)
    have h0: "holds ?s ?s (x @ a)" using a st by (auto simp: holds_def good_def st_ok_def code_def)
    have len: "good s \<Longrightarrow> ?len = length a" using pinv_size [OF s(1)] a s(3) by simp
    have h3: "holds ?s s3 (x @ reop_num REOP_split_next_first # le32 (int ?len + 5) @ a)"
      by (rule inserted_instr [OF m(1-3) h0]) (use s(3) gs in simp)
    let ?c = "x @ reop_num REOP_split_next_first # le32 (int (length a) + 5) @ a @ [reop_num REOP_goto]"
    have h4: "holds ?s s4 (?c @ le32 0)" "good s4 \<Longrightarrow> pos = length ?c"
    proof -
      have h: "holds ?s s4 ((x @ reop_num REOP_split_next_first # le32 (int ?len + 5) @ a) @ reop_num REOP_goto # le32 0)"
          and p: "good s4 \<Longrightarrow> pos = length (x @ reop_num REOP_split_next_first # le32 (int ?len + 5) @ a) + 1"
        using leadsD [OF re_emit_op_u32_holds [OF h3] m(4)] by auto
      show "holds ?s s4 (?c @ le32 0)" by (rule holds_eq [OF h]) (use len holds_good [OF h] gs in simp)
      show "good s4 \<Longrightarrow> pos = length ?c" using p by simp
    qed
    have g4: "grows s s4" using holds_grows [OF h4(1)] by simp
    have c4: "ps_capture_count s4 = ps_capture_count s" using holds_captures [OF h4(1)] by simp
    have p4: "pinv s4" by (rule grows_pinv [OF g4 s(1)]) (use h4(1) in \<open>auto simp: holds_def\<close>)
    have "parses s4 (code s4) (re_parse_alternative n s4 dir (code_size s4))" using assms(1) p4 pinv_ends [OF p4] pinv_size [OF p4] by (auto simp: alternative_ok_def)
    from parsesD [OF this m(5)] have 5: "grows s4 s5" "ends (code s4) s5" by auto
    have p5: "pinv s5" by (rule ends_pinv [OF 5(1) p4 5(2)])
    have g6: "grows s5 s6" "good s6 \<Longrightarrow> good s5" "ps_capture_count s6 = ps_capture_count s5"
      using patch_same [OF m(6) [unfolded patch_u32_def]] by (auto simp: same_def grows_def)
    have gg: "grows s s6" using g4 5(1) g6(1) pgrows_trans by blast
    have 6: "ends x s6" unfolding ends_def
    proof (intro impI)
      assume good6: "good s6"
      then have g: "good s5" "good s4" "good s" using g6(2) 5(1) g4 by (auto simp: grows_def)
      obtain f where f: "frag (ps_capture_count s5) f" "code s5 = ?c @ le32 0 @ f" using 5(2) g h4(1) by (auto simp: ends_def holds_def)
      have pos: "pos = length ?c" using h4(2) g by simp
      have size: "int (code_size s5) - int (pos + 4) = int (length f)" using pinv_size [OF p5 g(1)] f(2) pos by simp
      have "holds s5 s6 (?c @ le32 (int (length f)) @ f)"
        by (rule patch_number [OF m(6) [unfolded size]]) (use pos f(2) g p5 in \<open>auto simp: holds_def pinv_def fit_def\<close>)
      then have h6: "st_ok s6" "code s6 = x @ (reop_num REOP_split_next_first # le32 (int (length a) + 5) @ a @ reop_num REOP_goto # le32 (int (length f)) @ f)"
        using good6 by (auto simp: holds_def)
      have "frag (ps_capture_count s5) a" using a g(3) frag_mono c4 5(1) by (auto simp: grows_def)
      from frag.Alt [OF this f(1), of REOP_split_next_first] h6 g6(3)
      show "st_ok s6 \<and> (\<exists>f. frag (ps_capture_count s6) f \<and> code s6 = x @ f)" by (auto simp: split_ops_def)
    qed
    have "good s6 \<longrightarrow> start = length x" using gg s(3) by (simp add: grows_def)
    then have "parses s6 x (disjunction_loop n s6 dir start)" using assms(2) ends_pinv [OF gg s(1) 6] 6 by (auto simp: loop_ok_def)
    from parsesD [OF parses_trans [OF gg this] m(7)] show ?thesis .
  qed
qed

lemma alternative_step:
  assumes "term_ok n TYPE('m)" "alternative_ok n TYPE('m)"
  shows "alternative_ok (Suc n) TYPE('m)"
  unfolding alternative_ok_def parses_def
proof (intro allI impI yieldsI)
  fix s s' :: "'m REParseState" and dir x start u
  assume s: "pinv s" "ends x s" "good s \<longrightarrow> start = length x" and e: "re_parse_alternative (Suc n) s dir start = Some (Done u s')"
  show "grows s s' \<and> ends x s'"
  proof (cases "s' = s")
    case False
    then have "checked (re_parse_term n s dir) (\<lambda>_ s'. checked (if dir then move_term s' start (code_size s) else Some (Done () s')) (\<lambda>_ s'.
        re_parse_alternative n s' dir start)) = Some (Done u s')"
      using e by (auto simp: bind_eq_Some_conv simp del: checked_Done split: if_split_asm)
    then obtain v s1 w s2 where m: "re_parse_term n s dir = Some (Done v s1)"
        "(if dir then move_term s1 start (code_size s) else Some (Done () s1)) = Some (Done w s2)" "re_parse_alternative n s2 dir start = Some (Done u s')"
      by (auto simp only: checked_Done)
    have "parses s (code s) (re_parse_term n s dir)" using assms(1) s(1) by (auto simp: term_ok_def)
    from parsesD [OF this m(1)] have 1: "grows s s1" "ends (code s) s1" by auto
    have g1: "good s" if "good s1" using that 1(1) by (simp add: grows_def)
    obtain a where a: "good s \<Longrightarrow> frag (ps_capture_count s) a \<and> code s = x @ a" using s(2) by (auto simp: ends_def)
    obtain t where t: "good s1 \<Longrightarrow> st_ok s1 \<and> frag (ps_capture_count s1) t \<and> code s1 = code s @ t" using 1(2) by (auto simp: ends_def)
    have a1: "frag (ps_capture_count s1) a" if "good s1" using a g1 [OF that] frag_mono 1(1) by (auto simp: grows_def)
    have 2: "grows s1 s2 \<and> ends x s2"
    proof (cases dir)
      case True
      then have mv: "move_term s1 start (code_size s) = Some (Done w s2)" using m(2) by simp
      have c: "good s1 \<Longrightarrow> st_ok s1 \<and> code s1 = x @ a @ t \<and> length x = start \<and> length (x @ a) = code_size s" using t a g1 s(3) pinv_size [OF s(1)] by auto
      note mc = move_term_code [OF mv c]
      have "ends x s2" unfolding ends_def
      proof (intro impI)
        assume g2: "good s2"
        then have "good s1" "ps_capture_count s1 \<le> ps_capture_count s2" using mc(1) by (auto simp: grows_def)
        then have "frag (ps_capture_count s2) (t @ a)" using frag_mono frag.Seq t a1 by blast
        then show "st_ok s2 \<and> (\<exists>f. frag (ps_capture_count s2) f \<and> code s2 = x @ f)" using mc(2) [OF _ g2] by blast
      qed
      then show ?thesis using mc(1) by simp
    next
      case False
      then have "s2 = s1" using m(2) by simp
      moreover have "ends x s1" unfolding ends_def using t a g1 frag.Seq [OF a1, of t] by auto
      ultimately show ?thesis by simp
    qed
    have gg: "grows s s2" using 1(1) 2 pgrows_trans by blast
    have "good s2 \<longrightarrow> start = length x" using gg s(3) by (simp add: grows_def)
    then have "parses s2 x (re_parse_alternative n s2 dir start)" using assms(2) ends_pinv [OF gg s(1)] 2 by (auto simp: alternative_ok_def)
    from parsesD [OF parses_trans [OF gg this] m(3)] show ?thesis .
  qed (use s in simp)
qed

lemma parser_ok: "disjunction_ok n TYPE('m) \<and> loop_ok n TYPE('m) \<and> alternative_ok n TYPE('m) \<and> term_ok n TYPE('m)"
proof (induction n)
  case 0
  show ?case by (simp add: disjunction_ok_def loop_ok_def alternative_ok_def term_ok_def parses_def)
next
  case (Suc n)
  then show ?case using disjunction_step alternatives_step alternative_step term_step by blast
qed

section \<open>The compiler\<close>

lemma patch_code:
  assumes "patch s pos data = Some s'" "st_ok s" "code s = x @ g @ y" "length x = pos" "length g = length data"
  shows "st_ok s'" "code s' = x @ data @ y" "same s s'"
proof -
  obtain d where d: "buf_store (ps_byte_code s) pos data = Some d" "s' = s\<lparr>ps_byte_code := d\<rparr>" using assms(1) by (auto simp: patch_def bind_eq_Some_conv)
  have "buf_ok d \<and> content d = x @ data @ y" using store_content [OF d(1)] assms(2-5) by (auto simp: st_ok_def code_def)
  then show "st_ok s'" "code s' = x @ data @ y" using d(2) by (simp_all add: st_ok_def code_def)
  show "same s s'" by (rule patch_same [OF assms(1)])
qed

lemma put_code_any:
  assumes "put_code s data = Some s'" "st_ok s" "length data < 2 ^ 31"
  shows "st_ok s'" "\<exists>rest. code s' = code s @ rest"
proof -
  let ?d = "(ps_byte_code s)\<lparr>opaque := ps_mem s\<rparr>"
  obtain r d where d: "dbuf_put ?d data = Some (r, d)" "s' = s\<lparr>ps_byte_code := d, ps_mem := opaque d\<rparr>" using assms(1) by (auto simp: put_code_def bind_eq_Some_conv)
  have ok: "buf_ok ?d" using assms(2) by (simp add: st_ok_def)
  then show "st_ok s'" using dbuf_put_kept(2) [OF d(1) ok assms(3)] d(2) by (simp add: st_ok_def)
  have "unat (dsize ?d) + length data < 2 ^ 32" using buf_ok_size [OF ok] assms(3) by simp
  then have "appends ?d data (r, d)" using dbuf_put_ok [of ?d data] ok d(1) by (simp add: buf_ok_def)
  then show "\<exists>rest. code s' = code s @ rest" using d(2) by (auto simp: appends_def code_def)
qed

lemma stack_size_small: "stack_size_loop c pos d mx = Some v \<Longrightarrow> mx \<le> STACK_SIZE_MAX \<Longrightarrow> v \<le> int STACK_SIZE_MAX"
proof (induction c pos d mx rule: stack_size_loop.induct)
  case (1 c pos d mx)
  show ?case
  proof (cases "pos < length c")
    case True
    then obtain oc len where m: "opcode_at c pos = Some oc" "pos + reopcode_info oc \<le> length c" "instr_len c pos oc = Some len"
      using 1(5) by (subst (asm) stack_size_loop.simps) (auto simp: bind_eq_Some_conv split: if_splits)
    show ?thesis using 1(5,6) True m 1(1-4) [OF True m(1,2,3)] by (subst (asm) stack_size_loop.simps) (auto split: if_splits)
  next
    case False
    then show ?thesis using 1(5,6) by (subst (asm) stack_size_loop.simps) simp
  qed
qed

lemma emit_prologue_holds:
  assumes e: "emit_prologue s flags = Some s'" and h: "holds s s []" and n: "0 < n"
  shows "\<exists>hdr f. length hdr = RE_HEADER_LEN \<and> frag n f \<and> holds s s' (hdr @ f)"
proof -
  obtain s1 s2 s3 s4 s5 where m: "put_code s [flags] = Some s1" "put_code s1 [0] = Some s2" "put_code s2 [0] = Some s3" "put_code s3 (to_bytes 4 (0 :: u32)) = Some s4"
      "(if flags AND LRE_FLAG_STICKY = 0 then do {
            (_, s) \<leftarrow> re_emit_op_u32 s4 REOP_split_goto_first (1 + 5);
            s \<leftarrow> re_emit_op s REOP_any;
            map_option snd (re_emit_op_u32 s REOP_goto (- (5 + 1 + 5))) }
          else Some s4) = Some s5" "re_emit_op_u8 s5 REOP_save_start 0 = Some s'"
    using e by (auto simp: emit_prologue_def bind_eq_Some_conv split del: if_split)
  let ?hdr = "(([] @ [flags]) @ [0]) @ [0] @ to_bytes 4 (0 :: u32)"
  have "holds s s3 ((([] @ [flags]) @ [0]) @ [0])"
    by (intro leadsD [OF put_code_holds m(3)] leadsD [OF put_code_holds m(2)] leadsD [OF put_code_holds m(1)] h) simp_all
  then have h4: "holds s s4 ?hdr" using leadsD [OF put_code_holds m(4)] by fastforce
  have "\<exists>f. frag n f \<and> holds s s5 (?hdr @ f)"
  proof (cases "flags AND LRE_FLAG_STICKY = 0")
    case True
    then obtain p1 t1 t2 p2 where k: "re_emit_op_u32 s4 REOP_split_goto_first 6 = Some (p1, t1)" "re_emit_op t1 REOP_any = Some t2" "re_emit_op_u32 t2 REOP_goto (-11) = Some (p2, s5)"
      using m(5) by (auto simp: bind_eq_Some_conv)
    have "holds s t1 (?hdr @ reop_num REOP_split_goto_first # le32 6)" using leadsD [OF re_emit_op_u32_holds [OF h4] k(1)] by simp
    note t2 = leadsD [OF re_emit_op_holds [OF this] k(2)]
    have "holds s s5 (?hdr @ reop_num REOP_split_goto_first # le32 6 @ [reop_num REOP_any] @ reop_num REOP_goto # le32 (-11))"
      using leadsD [OF re_emit_op_u32_holds [OF t2] k(3)] by simp
    moreover have "frag n [reop_num REOP_any]" by (rule frag.Instr) (simp add: plain_instr_def)
    from frag.Star [OF this, of REOP_split_goto_first] have "frag n (reop_num REOP_split_goto_first # le32 6 @ [reop_num REOP_any] @ reop_num REOP_goto # le32 (-11))"
      by (simp add: split_ops_def)
    ultimately show ?thesis by blast
  next
    case False
    then show ?thesis using m(5) h4 frag.Empty by (auto intro!: exI [of _ "[]"])
  qed
  then obtain f where f: "frag n f" "holds s s5 (?hdr @ f)" by blast
  have "holds s s' ((?hdr @ f) @ [reop_num REOP_save_start, word_of_nat 0])" by (rule leadsD [OF re_emit_op_u8_holds [OF f(2)] m(6)])
  moreover have "frag n (f @ [reop_num REOP_save_start, word_of_nat 0])" by (intro frag.Seq f(1) frag.Instr save_plain) (use n in simp_all)
  ultimately show ?thesis by (intro exI [of _ ?hdr] exI [of _ "f @ [reop_num REOP_save_start, word_of_nat 0]"]) (simp add: RE_HEADER_LEN_def)
qed

lemma split7: "length xs = 7 \<Longrightarrow> \<exists>a b c d. xs = [a, b, c] @ d \<and> length d = 4"
  by (rule exI [of _ "xs ! 0"], rule exI [of _ "xs ! 1"], rule exI [of _ "xs ! 2"], rule exI [of _ "drop 3 xs"])
     (auto simp: length_Suc_conv eval_nat_numeral)

lemma finish_code_ok:
  assumes e: "finish_code s k = Some (Compiled bc, m')" and s: "st_ok s" "names_ok s" "ps_capture_count s \<le> 255" "k \<le> 255"
    and c: "code s = hdr @ body @ [reop_num REOP_match]" "length hdr = RE_HEADER_LEN" "frag (ps_capture_count s) body"
    and st: "re_compute_stack_size (code s) = Some (int k)"
  shows "bytecode_ok bc (RE_HEADER_LEN + length body + 1)"
proof -
  let ?n = "ps_capture_count s" let ?b = "body @ [reop_num REOP_match]"
  obtain h0 h1 h2 h3 where hd: "hdr = [h0, h1, h2] @ h3" "length h3 = 4" using split7 [of hdr] c(2) by (auto simp: RE_HEADER_LEN_def)
  obtain s1 s2 s3 s4 g where m: "patch s 1 [word_of_nat ?n] = Some s1" "patch s1 2 [word_of_nat k] = Some s2"
      "patch s2 3 (le32 (int (code_size s2) - int RE_HEADER_LEN)) = Some s3"
      "(if unat (dsize (ps_group_names s3)) > ps_capture_count s3 - 1 then do {
            names \<leftarrow> slice (mem (ps_group_names s3)) 0 (unat (dsize (ps_group_names s3)));
            s \<leftarrow> put_code s3 names;
            flags \<leftarrow> rd (mem (ps_byte_code s)) RE_HEADER_FLAGS;
            patch s RE_HEADER_FLAGS [flags OR LRE_FLAG_NAMED_GROUPS] }
          else Some s3) = Some s4" "slice (mem (ps_byte_code s4)) 0 (code_size s4) = Some bc"
    using e by (auto simp: finish_code_def bind_eq_Some_conv patch_u32_def le32_def RE_HEADER_CAPTURE_COUNT_def RE_HEADER_STACK_SIZE_def split del: if_split)
  have c0: "code s = [h0] @ [h1] @ [h2] @ h3 @ ?b" using c(1) hd(1) by simp
  note 1 = patch_code [OF m(1) s(1) c0]
  have c1: "code s1 = [h0, word_of_nat ?n] @ [h2] @ h3 @ ?b" using 1(2) by simp
  note 2 = patch_code [OF m(2) 1(1) c1]
  let ?v = "int (code_size s2) - int RE_HEADER_LEN"
  have c2: "code s2 = [h0, word_of_nat ?n, word_of_nat k] @ h3 @ ?b" using 2(2) by simp
  note 3 = patch_code [OF m(3) 2(1) c2]
  have n3: "names_ok s3" using s(2) 1(3) 2(3) 3(3) hd(2) by (auto simp: same_def)
  have st3: "st_ok s3" "code s3 = h0 # word_of_nat ?n # word_of_nat k # le32 ?v @ ?b" using 3 hd(2) by simp_all
  have 4: "st_ok s4 \<and> (\<exists>f rest. code s4 = f # word_of_nat ?n # word_of_nat k # le32 ?v @ ?b @ rest)"
  proof (cases "unat (dsize (ps_group_names s3)) > ps_capture_count s3 - 1")
    case True
    then obtain names s' flags where k: "slice (mem (ps_group_names s3)) 0 (unat (dsize (ps_group_names s3))) = Some names" "put_code s3 names = Some s'"
        "patch s' RE_HEADER_FLAGS [flags OR LRE_FLAG_NAMED_GROUPS] = Some s4"
      using m(4) by (auto simp: bind_eq_Some_conv)
    have "length names < 2 ^ 31" using k(1) n3 buf_ok_size [of "ps_group_names s3"] by (auto simp: slice_def names_ok_def split: if_splits)
    note p = put_code_any [OF k(2) st3(1) this]
    then obtain rest where "code s' = [] @ [h0] @ word_of_nat ?n # word_of_nat k # le32 ?v @ ?b @ rest" using st3(2) by auto
    from patch_code [OF k(3) p(1) this] show ?thesis by (auto simp: RE_HEADER_FLAGS_def)
  next
    case False
    then show ?thesis using m(4) st3 by (auto intro!: exI [of _ "[]"])
  qed
  then obtain f rest where c4: "code s4 = f # word_of_nat ?n # word_of_nat k # le32 ?v @ ?b @ rest" and ok4: "st_ok s4" by blast
  let ?h = "[f, word_of_nat ?n, word_of_nat k] @ le32 ?v"
  have bc: "bc = ?h @ body @ reop_num REOP_match # rest"
    using m(5) c4 by (auto simp: slice_def code_def content_def code_size_def split: if_splits)
  have u: "unat (word_of_nat ?n :: u8) = ?n" "unat (word_of_nat k :: u8) = k" using s(3,4) by (simp_all add: unsigned_of_nat take_bit_nat_eq_self)
  have len: "length body < 2 ^ 31" using code_size_eq [OF s(1)] c(1) by simp
  have "re_compute_stack_size (?h @ body @ [reop_num REOP_match]) = Some (int k)" using st c(1,2) by (simp add: re_compute_stack_size_def RE_HEADER_LEN_def)
  then show ?thesis unfolding bc
    by (intro fragment_checked [OF c(3) _ len]) (simp_all add: u RE_HEADER_LEN_def RE_HEADER_CAPTURE_COUNT_def RE_HEADER_STACK_SIZE_def)
qed

lemma parse_state_pinv:
  assumes "realloc_contract f" "small_blocks f" "cr_alloc_ok g"
  shows "pinv (parse_state f g m re flags)" "holds (parse_state f g m re flags) (parse_state f g m re flags) []"
    "ps_capture_count (parse_state f g m re flags) = 1"
proof -
  have "buf_ok (dbuf_init2 f m (Some f))" "content (dbuf_init2 f m (Some f)) = []"
    using assms(1,2) by (simp_all add: buf_ok_def dbuf_wf_def dbuf_init2_def mem_def content_def)
  then show "pinv (parse_state f g m re flags)" "holds (parse_state f g m re flags) (parse_state f g m re flags) []"
      "ps_capture_count (parse_state f g m re flags) = 1"
    using assms(3) by (simp_all add: parse_state_def pinv_def fit_def names_ok_def st_ok_def holds_def code_def)
qed

lemma lre_compile_checked:
  assumes a: "realloc_contract f" "small_blocks f" "cr_alloc_ok g" and e: "lre_compile f g m msz re flags = Some (Compiled bc, m')"
  shows "\<exists>stop. bytecode_ok bc stop"
proof -
  let ?s = "parse_state f g m re flags"
  note init = parse_state_pinv [OF a, of m re flags]
  have err: "compile_error s n \<noteq> Some (Compiled c, x)" for s :: "'a REParseState" and n c x by (auto simp: compile_error_def bind_eq_Some_conv)
  obtain s1 r where r: "emit_prologue ?s flags = Some s1" "re_parse_disjunction (4 * length re + 4) s1 False = Some r"
    using e by (auto simp: lre_compile_def bind_eq_Some_conv simp del: re_parse_disjunction.simps)
  obtain u s2 where u: "r = Done u s2" using e r err by (cases r) (auto simp: lre_compile_def)
  obtain s3 s4 cd k where m: "emit_prologue ?s flags = Some s1" "re_parse_disjunction (4 * length re + 4) s1 False = Some (Done u s2)"
      "re_emit_op_u8 s2 REOP_save_end 0 = Some s3" "re_emit_op s3 REOP_match = Some s4" "\<not> dbuf_error (ps_byte_code s4)"
      "slice (mem (ps_byte_code s4)) 0 (code_size s4) = Some cd" "re_compute_stack_size cd = Some k" "0 \<le> k" "finish_code s4 (nat k) = Some (Compiled bc, m')"
    using e r u err by (auto simp: lre_compile_def bind_eq_Some_conv simp del: re_parse_disjunction.simps split: if_split_asm)
  obtain hdr f0 where p: "length hdr = RE_HEADER_LEN" "frag 1 f0" "holds ?s s1 (hdr @ f0)" using emit_prologue_holds [OF m(1) init(2), of 1] by auto
  have g1: "grows ?s s1" by (rule holds_grows [OF p(3)])
  have p1: "pinv s1" by (rule grows_pinv [OF g1 init(1)]) (use p(3) in \<open>auto simp: holds_def\<close>)
  have "parses s1 (code s1) (re_parse_disjunction (4 * length re + 4) s1 False)" using parser_ok [where 'm = 'a] p1 by (auto simp: disjunction_ok_def)
  from parsesD [OF this m(2)] have 2: "grows s1 s2" "ends (code s1) s2" by auto
  have p2: "pinv s2" by (rule ends_pinv [OF 2(1) p1 2(2)])
  have h2: "holds s2 s2 (code s2)" using p2 fit_holds [of s2] by (simp add: pinv_def)
  note h3 = leadsD [OF re_emit_op_u8_holds [OF h2] m(3)]
  note h4 = leadsD [OF re_emit_op_holds [OF h3] m(4)]
  have good: "good s4" using m(5) by (simp add: good_def dbuf_error_def)
  then have gs: "good s2" "good s1" using holds_good [OF h4] 2(1) by (auto simp: grows_def)
  obtain f1 where f1: "frag (ps_capture_count s2) f1" "code s2 = (hdr @ f0) @ f1" using 2(2) gs p(3) by (auto simp: ends_def holds_def)
  let ?body = "f0 @ f1 @ [reop_num REOP_save_end, word_of_nat 0]"
  have c4: "st_ok s4" "code s4 = hdr @ ?body @ [reop_num REOP_match]" using h4 good f1(2) by (simp_all add: holds_def)
  have n4: "ps_capture_count s4 = ps_capture_count s2" "names_ok s4" using h4 p2 by (auto simp: holds_def same_def pinv_def)
  have n2: "0 < ps_capture_count s2" "ps_capture_count s2 \<le> 255" using p2 by (auto simp: pinv_def)
  have fr: "frag (ps_capture_count s2) ?body"
    by (intro frag.Seq f1(1) frag_mono [OF p(2)] frag.Instr save_plain) (use n2 in auto)
  have cd: "cd = code s4" using m(6) by (auto simp: slice_def code_def content_def code_size_def split: if_splits)
  have "nat k \<le> 255" using stack_size_small [of "drop RE_HEADER_LEN cd" 0 0 0 k] m(7) by (simp add: re_compute_stack_size_def STACK_SIZE_MAX_def)
  moreover have "re_compute_stack_size (code s4) = Some (int (nat k))" using m(7,8) cd by simp
  ultimately show ?thesis using finish_code_ok [OF m(9) c4(1) n4(2) _ _ c4(2) p(1)] fr n4(1) n2(2) by auto
qed

section \<open>Properties\<close>

text \<open>An allocator that grants every block below 2^31 bytes.\<close>

definition small_realloc :: "unit realloc_func" where
  "small_realloc m p n =
     (m, if n < 0x80000000 then Some (take (unat n) ((case p of None \<Rightarrow> [] | Some old \<Rightarrow> old) @ replicate (unat n) 0)) else None)"

lemma small_realloc_ok: "realloc_contract small_realloc" "small_blocks small_realloc"
  by (auto simp: realloc_contract_def small_blocks_def small_realloc_def nth_append word_less_nat_alt split: if_splits option.splits)

lemma compile_star: "lre_compile small_realloc sample_cr_alloc () 64 [0x61, 0x2a, 0x62, 0] 0 = Some (Compiled star_code, ())"
  by code_simp

text \<open>
  C1. The compiler only produces code the interpreter may run: whatever the pattern, the flags and the failures
  of the allocator, code that \<open>lre_compile\<close> returns passes the check \<open>bytecode_ok\<close> - every jump hits an
  instruction at which the stack is as deep as at its source, group numbers are below the count in the
  header, and the stack size in the header is that of the linear pass. The allocator keeps the contract of
  realloc and grants no block of 2^31 bytes or more.
\<close>

theorem lre_compile_valid:
  assumes "realloc_contract lre_realloc" "small_blocks lre_realloc" "cr_alloc_ok cr_alloc"
    and "lre_compile lre_realloc cr_alloc m error_msg_size re re_flags = Some (Compiled bc, m')"
  shows "\<exists>stop. bytecode_ok bc stop"
  by (rule lre_compile_checked [OF assms])

theorem lre_compile_valid_witness: "\<exists>stop. bytecode_ok star_code stop"
  by (rule lre_compile_valid [OF small_realloc_ok sample_cr_alloc_ok compile_star])

text \<open>
  C3. Compiler and interpreter together: in every state that \<open>lre_exec\<close> reaches on code from \<open>lre_compile\<close>, for
  any text and start position, the next instruction executes inside its arrays, and the character pointer, the
  captures and the positions of all saved states lie in the text.
\<close>

theorem compiled_code_runs_safely:
  assumes "realloc_contract lre_realloc" "small_blocks lre_realloc" "cr_alloc_ok cr_alloc"
    and "lre_compile lre_realloc cr_alloc m error_msg_size re re_flags = Some (Compiled bc, m')"
    and "length cbuf < 2 ^ 32" "\<forall>u \<in> set cbuf. u < 0x10000" "cindex \<le> length cbuf"
    and "exec_context bc addr cbuf ty = Some s" "re_reach s alloc (exec_start s m1 cindex) x"
  shows "(\<exists>r. re_step s alloc x = Some r) \<and> x_cptr x \<le> length cbuf \<and> captures_ok s (x_capture x) \<and>
    (\<forall>rs \<in> set (x_states x). rs_cptr rs \<le> length cbuf)"
proof -
  obtain stop where bc: "bytecode_ok bc stop" using lre_compile_checked [OF assms(1-4)] by blast
  obtain L where L: "code_ok s L" "(RE_HEADER_LEN, 0) \<in> L" by (rule bytecode_ok_code [OF bc assms(5,6,8)])
  have s: "rx_cbuf s = cbuf" using assms(8) by (auto simp: exec_context_def Let_def bind_eq_Some_conv)
  have x: "exec_inv s L x" using re_reach_inv [OF L(1) exec_start_inv [OF L(2)] assms(9)] assms(7) s by simp
  have "\<exists>r. re_step s alloc x = Some r" using re_step_ok [OF L(1) x, of alloc] by (auto simp: ok_conv)
  then show ?thesis using x s by (auto simp: exec_inv_def mem_ok_def filled_def state_ok_def)
qed

theorem compiled_code_runs_safely_witness:
  "(\<exists>r. re_step star_context (\<lambda>m n. (m, True)) ((exec_start star_context () 0)\<lparr>x_pc := 18, x_state_stack_size := 8,
     x_states := [\<lparr>rs_type = RE_EXEC_STATE_SPLIT, rs_count = 0, rs_cptr = 0, rs_pc = 12, rs_capture = [None, None], rs_stack = []\<rparr>]\<rparr>) = Some r)"
  using compiled_code_runs_safely [OF small_realloc_ok sample_cr_alloc_ok compile_star _ _ _ star_context_eq star_reach] by simp

lemma name_loop_run:
  "\<forall>i < n. \<exists>c. rd t (p + i) = Some c \<and> is_unicode_char c \<Longrightarrow> q + n \<le> length name \<Longrightarrow>
     \<exists>name'. length name' = length name \<and> name_loop t p name q = name_loop t (p + n) name' (q + n)"
proof (induction n arbitrary: p q name)
  case (Suc n)
  obtain c where c: "rd t p = Some c" "is_unicode_char c" using Suc.prems(1) by (auto dest: spec [of _ 0])
  have "\<forall>i < n. \<exists>c. rd t (p + 1 + i) = Some c \<and> is_unicode_char c" using Suc.prems(1) by (metis Suc_less_eq add.assoc plus_1_eq_Suc)
  from Suc.IH [OF this, of "q + 1" "name[q := c]"] Suc.prems(2)
  obtain name' where "length name' = length name" "name_loop t (p + 1) (name[q := c]) (q + 1) = name_loop t (p + 1 + n) name' (q + 1 + n)" by auto
  then show ?case using c Suc.prems(2) by (subst name_loop.simps) (auto simp: wr_def)
qed auto

text \<open>
  C40. A property name of exactly 64 characters overflows the local array: the test of the loop lets 64 characters in,
  and \<open>parse_unicode_property\<close> then writes the terminator behind the array (\<^term>\<open>None\<close>). A name that is shorter
  is stored with its terminator.
\<close>

theorem property_name_overflow:
  assumes "rd (ps_buf s) p = Some (ch CHR ''{'')" "\<forall>i < 64. \<exists>c. rd (ps_buf s) (p + 1 + i) = Some c \<and> is_unicode_char c"
    and "rd (ps_buf s) (p + 65) = Some c" "\<not> is_unicode_char c"
  shows "parse_unicode_property s p is_inv = None"
proof -
  obtain name' where n: "length name' = 64" "name_loop (ps_buf s) (p + 1) (replicate 64 0) 0 = name_loop (ps_buf s) (p + 1 + 64) name' 64"
    using name_loop_run [OF assms(2), of 0 "replicate 64 0"] by auto
  have "name_loop (ps_buf s) (p + 1 + 64) name' 64 = Some (Some (p + 65, name', 64))" using assms(3,4) by (subst name_loop.simps) (simp add: add.commute)
  then show ?thesis using n assms(1) by (simp add: parse_unicode_property_def wr_def)
qed

theorem property_name_overflow_witness:
  "parse_unicode_property (parse_state small_realloc sample_cr_alloc () (map ch ''{'' @ replicate 64 (ch CHR ''a'') @ map ch ''}'' @ [0]) 0) 0 False = None"
proof (rule property_name_overflow)
  let ?t = "map ch ''{'' @ replicate 64 (ch CHR ''a'') @ map ch ''}'' @ [0]"
  let ?s = "parse_state small_realloc sample_cr_alloc () ?t 0"
  have t: "ps_buf ?s = ?t" by (simp add: parse_state_def)
  have a: "is_unicode_char (ch CHR ''a'')" "\<not> is_unicode_char (ch CHR ''}'')" by (simp_all add: is_unicode_char_def ch_def)
  show "rd (ps_buf ?s) 0 = Some (ch CHR ''{'')" unfolding t by (simp add: rd_def)
  show "\<forall>i < 64. \<exists>c. rd (ps_buf ?s) (0 + 1 + i) = Some c \<and> is_unicode_char c" using a unfolding t by (simp add: rd_def nth_append)
  show "rd (ps_buf ?s) (0 + 65) = Some (ch CHR ''}'')" unfolding t by (simp add: rd_def nth_append)
  show "\<not> is_unicode_char (ch CHR ''}'')" by (rule a)
qed

end
