(* ===== verification/Spec2Isabelle.thy ===== *)
theory Spec2Isabelle
  imports Klist Dynbuf Utf8 Rqsort_Sorted Exchange Jobs Unicode_Script Hangul Regexp_Valid
begin

text \<open>
  Verification of the support layer of the QuickJS port (directory src/).

  The program. src/quickjs holds the QuickJS engine: the engine proper (quickjs.c), its regular
  expression compiler and interpreter (libregexp.c), its Unicode library (libunicode.c with the data of
  libunicode-table.h) and the containers and helpers below them (list.h, cutils.h, cutils.c). io_js.h
  runs the engine as a task of the io library: a task loop executes the pending jobs of the engine.
  src/jsimport binds JavaScript modules to the io library and carries a copy of littlefs and libbf is
  the big number library of the engine. The development models the layer everything else stands on:
  lists, buffers, text encoding, sorting, the job queue, the Unicode library and the compiler and interpreter
  of regular expressions.

  Conventions. A C function becomes one definition of the same name; loops become recursive functions,
  named after the function they belong to. A checked access that would leave its array, a dereference of
  NULL or of a freed cell, a failed assertion and a loop that does not end are the value \<^term>\<open>None\<close>; the
  predicate \<^term>\<open>ok\<close> of \<^theory_text>\<open>Prelude\<close> says that a call returns and its result satisfies a condition, so
  every theorem stated with it includes memory safety and termination. Machine integers are words of
  their width and wrap. Allocators are parameters: \<open>realloc_contract\<close> (buffers) and \<open>cr_alloc_ok\<close>
  (character ranges) state what realloc documents; they may fail at any call. Script code, the garbage
  collector and the allocator of list cells are parameters of the job queue.

  The theories, from the bottom up:

  \<^item> Prelude: the result predicate, checked array accesses, bit and byte arithmetic.
  \<^item> Klist (list.h): the circular lists on a heap of cells. A sequence of additions and deletions refines
    the same sequence on abstract lists; the safe iteration visits every element while the body
    unlinks it. The locale \<open>fifo_list\<close> is the interface the job queue relies on.
  \<^item> Cutils (cutils.h, cutils.c): C strings, byte access, byte swapping, bit counting.
  \<^item> Dynbuf (cutils.c, and \<open>dbuf_insert\<close> of libregexp.c): the growable buffer with allocation failure.
  \<^item> Utf8 (cutils.c): the UTF-8 coder and decoder; they are inverse to each other in both directions.
  \<^item> Rqsort, Rqsort_Sorted (cutils.c, comparators of quickjs.c): the quick sort with its 50-entry stack,
    the fall-back to heap sort and the insertion sort. For any comparison function the sort stays in
    bounds, ends and permutes; for a total preorder (locale \<open>comparator\<close>) it sorts.
  \<^item> Exchange (cutils.c): the byte-level exchange functions implement the element exchange of the sort.
  \<^item> Jobs (quickjs.c, io_js.h): the job queue, the task loop and the clean-up of the queue on the lists of
    Klist. The loop refines a FIFO machine (an inductive relation on the waiting jobs).
  \<^item> Char_Range (libunicode.c, libunicode.h): sorted arrays of points as sets of characters; union,
    intersection, symmetric difference, complement.
  \<^item> Unicode_Tables, Unicode_Gc_Tables, Unicode_Prop_Tables, Unicode_Script_Tables: the data of
    libunicode-table.h, literally; bigger tables are cut into pieces at the border of an entry.
  \<^item> Unicode_Lookup (libunicode.c): the indexed lookup in a property table equals decoding the table from
    its start (equivalence of the optimised routine with the reference), for all tables that pass a check
    which the tables of the sources pass.
  \<^item> Case_Conv (libunicode.c): the case conversions.
  \<^item> Unicode_Prop (libunicode.c): the decoders that fill a range from the tables, the stack machine of
    \<open>unicode_prop_ops\<close>, and \<open>unicode_general_category\<close> and \<open>unicode_prop\<close>.
  \<^item> Range_Fill, Prop_Table_Set, Gc_Set, Case_Set: the decoders, one by one: the range holds the set the
    table encodes.
  \<^item> Unicode_Prop_Sets: the stack machine refines evaluation in sets (locale \<open>range_source\<close>, interpreted on
    the three decoders); every \<open>\p{...}\<close> gives the set of its property; the ranges agree with the
    lookup predicates and with the case conversions.
  \<^item> Cr_Memory, Label_Runs, Unicode_Script (libunicode.c): when range operations fail, tables of labelled
    runs (locale \<open>run_fill\<close>), and \<open>unicode_script\<close>.
  \<^item> Unicode_Norm_Tables: the data of normalization, literally.
  \<^item> Label_Index, Unicode_Cc (libunicode.c): the sparse index of a table of labelled runs; the combining class
    of a character equals decoding the table of classes from its start, and \<open>sort_cc\<close> is the stable sort
    of every sequence of combining characters.
  \<^item> Unicode_Normalize (libunicode.c): decomposition, composition and \<open>unicode_normalize\<close> on the buffer of Dynbuf.
    The recursion refines the relation \<open>nfd\<close>, the full decomposition by the table.
  \<^item> Hangul: the round trip of Hangul text through decomposition and composition.

  \<^item> Regexp_Code (libregexp.c, libregexp-opcode.h): the bytecode of regular expressions and its linear analyses.
  \<^item> Regexp_Exec (libregexp.c): \<open>lre_exec\<close> and \<open>lre_exec_backtrack\<close> as a machine with one step per instruction
    (\<open>re_step\<close>), the stack of saved states behind a fallible allocator, and the nested calls that a quantifier
    makes for its atom as explicit frames; \<open>re_reach\<close> are the reachable states.
  \<^item> Regexp_Text: reading characters forwards and backwards, back references and the search in a character class.
  \<^item> Regexp_Safety, Regexp_Run: a check of bytecode (\<open>bytecode_ok\<close>: the stack depths of the linear pass agree at
    every jump, jumps hit instructions, group numbers are below the count of the header) and the invariant
    of the machine on checked bytecode; with it the interpreter never leaves its arrays.
  \<^item> Regexp_Scan (libregexp.c, libregexp.h): the scanning functions of the compiler - numbers, escapes, predefined
    classes, Unicode properties, class atoms, group names - on the parser state \<open>REParseState\<close>. A function
    that returns -1 is the outcome \<open>Fail\<close>.
  \<^item> Regexp_Compile (libregexp.c): the compiler \<open>lre_compile\<close>, with the emission, insertion, copying and patching
    of code on the buffer of Dynbuf, character classes, groups, quantifiers, alternatives and disjunctions.
  \<^item> Regexp_Fragment: the code fragments that the constructs of the compiler build (the inductive predicate
    \<open>frag\<close>), and that a header, a fragment and \<open>REOP_match\<close> pass the check \<open>bytecode_ok\<close>.
  \<^item> Regexp_Emit, Regexp_Class, Regexp_Valid: what the emitting functions do to the code while no allocation has
    failed, that ranges have an even number of points, and that every function of the parser turns a
    fragment into a fragment. Code from \<open>lre_compile\<close> therefore passes the check, and the interpreter runs it
    without leaving its arrays.

  Bounds. Loops with a decreasing measure are total functions, the others are partial
  functions of which termination is proved (\<open>part_loop_ok\<close>, \<open>rqsort_ok\<close>, \<open>do_tasks_ok\<close>, \<open>sort_cc_loop_ok\<close>, \<open>to_nfd_rec_put\<close>) or, for the label
  \<open>fail\<close> of \<open>unicode_script\<close>, refuted. The four mutually recursive functions of the regular expression compiler take the
  depth of the recursion that is still allowed; \<open>lre_compile\<close> passes four times the length of the pattern
  plus four, as a disjunction, its loop, an alternative and a term follow each other at most once for every
  character of the pattern. Sizes are natural numbers: arrays of 2^31 and more elements, where
  the C type int of a length would overflow, are outside the model. The Unicode functions are modelled in
  the configuration with CONFIG_ALL_UNICODE.

  Not modelled. The engine proper (values, objects, garbage collection, parser, bytecode and built-in
  objects), libbf, littlefs, the
  bindings of src/jsimport and the evaluation and console glue of io_js.h. The critical sections of the io
  library are not part of the repository: the job queue is modelled for one thread of control.
\<close>

end
